(* ===== verification/Prelude.thy ===== *)
theory Prelude
  imports Main "HOL-Library.Word"
begin

text \<open>
  Shared vocabulary of the development: the machine types of the Rust code, results as
  values, little-endian fields, slices of byte buffers, and the interfaces (locales) that
  several components share.

  Rust \<open>u8\<close>, \<open>u16\<close>, \<open>u32\<close>, \<open>u64\<close> are words of that width, so wrap-around is the
  word operation. \<open>usize\<close> values that are lengths of buffers in memory are \<open>nat\<close>.
  A \<open>Vec<u8>\<close> or \<open>&[u8]\<close> is a list of bytes. A \<open>String\<close> or \<open>&str\<close> is an Isabelle
  \<open>string\<close> whose characters are the bytes of its UTF-8 encoding: \<open>bytes_of\<close> is
  \<open>str::as_bytes\<close>, and the theory \<open>Utf8\<close> says which byte lists are strings.
\<close>

type_synonym u8 = "8 word"
type_synonym u16 = "16 word"
type_synonym u32 = "32 word"
type_synonym u64 = "64 word"
type_synonym bytes = "u8 list"

text \<open>
  \<open>wire_simps\<close> collects the facts about encoded bytes, \<open>disk_simps\<close> those about files and
  session directories.
\<close>

named_theorems wire_simps
named_theorems disk_simps

subsection \<open>Results\<close>

text \<open>\<open>Result<T, E>\<close>, with the constructors of the Rust type.\<close>

datatype ('a, 'e) result = Ok 'a | Err 'e

fun map_ok :: "('a \<Rightarrow> 'b) \<Rightarrow> ('a, 'e) result \<Rightarrow> ('b, 'e) result" where
  "map_ok f (Ok a) = Ok (f a)"
| "map_ok f (Err e) = Err e"

fun is_ok :: "('a, 'e) result \<Rightarrow> bool" where
  "is_ok (Ok a) = True"
| "is_ok (Err e) = False"

text \<open>\<open>Option::unwrap_or\<close>.\<close>

definition unwrap_or :: "'a \<Rightarrow> 'a option \<Rightarrow> 'a" where
  "unwrap_or d x = (case x of None \<Rightarrow> d | Some v \<Rightarrow> v)"

lemma unwrap_or_simps [simp]: "unwrap_or d None = d" "unwrap_or d (Some v) = v"
  by (simp_all add: unwrap_or_def)

lemma is_ok_iff: "is_ok r \<longleftrightarrow> (\<exists>a. r = Ok a)"
  by (cases r) auto

lemma map_ok_eq_Ok: "map_ok f r = Ok b \<longleftrightarrow> (\<exists>a. r = Ok a \<and> b = f a)"
  by (cases r) auto

subsection \<open>Word bounds\<close>

lemma unat_u8_lt: "unat (b :: u8) < 256"
  using unsigned_less [of b, where ?'a = nat] by simp

lemma unat_u16_lt: "unat (b :: u16) < 65536"
  using unsigned_less [of b, where ?'a = nat] by simp

lemma unat_u32_lt: "unat (b :: u32) < 4294967296"
  using unsigned_less [of b, where ?'a = nat] by simp

lemma unat_u64_lt: "unat (b :: u64) < 18446744073709551616"
  using unsigned_less [of b, where ?'a = nat] by simp

subsection \<open>Strings and their bytes\<close>

definition bytes_of :: "string \<Rightarrow> bytes" where
  "bytes_of s = map (\<lambda>c. word_of_nat (of_char c)) s"

definition chars_of :: "bytes \<Rightarrow> string" where
  "chars_of bs = map (\<lambda>b. char_of (unat b)) bs"

lemma of_char_lt_256: "(of_char c :: nat) < 256"
  by simp

lemma char_roundtrip: "char_of (unat (word_of_nat (of_char c) :: u8)) = c"
proof -
  have "unat (word_of_nat (of_char c) :: u8) = of_char c"
    using of_char_lt_256 [of c] by (simp add: unat_of_nat)
  then show ?thesis by simp
qed

lemma byte_roundtrip: "(word_of_nat (of_char (char_of (unat b))) :: u8) = b"
proof -
  have "unat b < 256"
    by (rule unat_u8_lt)
  then have "(of_char (char_of (unat b)) :: nat) = unat b"
    by (simp add: of_char_of)
  then show ?thesis by simp
qed

lemma chars_of_bytes_of [simp]: "chars_of (bytes_of s) = s"
  by (simp add: chars_of_def bytes_of_def comp_def char_roundtrip del: of_char_of)

lemma bytes_of_chars_of [simp]: "bytes_of (chars_of bs) = bs"
  by (simp add: chars_of_def bytes_of_def comp_def byte_roundtrip del: of_char_of)

lemma length_bytes_of [simp]: "length (bytes_of s) = length s"
  by (simp add: bytes_of_def)

lemma length_chars_of [simp]: "length (chars_of bs) = length bs"
  by (simp add: chars_of_def)

lemma bytes_of_append [simp]: "bytes_of (s @ t) = bytes_of s @ bytes_of t"
  by (simp add: bytes_of_def)

lemma chars_of_append [simp]: "chars_of (a @ b) = chars_of a @ chars_of b"
  by (simp add: chars_of_def)

lemma bytes_of_inj: "bytes_of s = bytes_of t \<longleftrightarrow> s = t"
  by (metis chars_of_bytes_of)

lemma bytes_of_eq_Nil [simp]: "bytes_of s = [] \<longleftrightarrow> s = []"
  by (simp add: bytes_of_def)

subsection \<open>Slices\<close>

text \<open>\<open>&buf[i..j]\<close> for \<open>i \<le> j \<le> buf.len()\<close>; every use below stands under that guard.\<close>

definition slice :: "nat \<Rightarrow> nat \<Rightarrow> 'a list \<Rightarrow> 'a list" where
  "slice i j xs = take (j - i) (drop i xs)"

lemma length_slice: "j \<le> length xs \<Longrightarrow> length (slice i j xs) = j - i"
  by (simp add: slice_def)

lemma slice_append_left: "j \<le> length xs \<Longrightarrow> slice i j (xs @ ys) = slice i j xs"
  by (simp add: slice_def)

lemma slice_0_length [simp]: "slice 0 (length xs) (xs @ ys) = xs"
  by (simp add: slice_def)

lemma slice_skip: "slice (length xs + i) (length xs + j) (xs @ ys) = slice i j ys"
  by (simp add: slice_def)

lemma drop_eq_slice: "i \<le> j \<Longrightarrow> drop i xs = slice i j xs @ drop j xs"
  using append_take_drop_id [of "j - i" "drop i xs"] by (simp add: slice_def)

text \<open>\<open>VecDeque\<close> and \<open>Vec\<close> keep-tail truncation: the last \<open>n\<close> elements.\<close>

definition last_n :: "nat \<Rightarrow> 'a list \<Rightarrow> 'a list" where
  "last_n n xs = drop (length xs - n) xs"

lemma length_last_n [simp]: "length (last_n n xs) = min n (length xs)"
  by (simp add: last_n_def)

lemma last_n_all: "length xs \<le> n \<Longrightarrow> last_n n xs = xs"
  by (simp add: last_n_def)

lemma last_n_append_last_n: "last_n n (last_n n xs @ ys) = last_n n (xs @ ys)"
proof (cases "length xs \<le> n")
  case True
  then show ?thesis by (simp add: last_n_all)
next
  case False
  then show ?thesis
    by (cases "length ys \<le> n") (auto simp: last_n_def add.commute)
qed

subsection \<open>Little-endian fields\<close>

text \<open>
  \<open>to_le_bytes\<close> and \<open>from_le_bytes\<close> of the fixed-width integers, on their values: the
  \<open>k\<close> low bytes of a number, and the number a byte list stands for.
\<close>

fun le_bytes :: "nat \<Rightarrow> nat \<Rightarrow> bytes" where
  "le_bytes 0 x = []"
| "le_bytes (Suc k) x = word_of_nat x # le_bytes k (x div 256)"

fun le_val :: "bytes \<Rightarrow> nat" where
  "le_val [] = 0"
| "le_val (b # bs) = unat b + 256 * le_val bs"

lemma length_le_bytes [simp]: "length (le_bytes k x) = k"
  by (induction k arbitrary: x) auto

lemma le_val_le_bytes: "le_val (le_bytes k x) = x mod 256 ^ k"
proof (induction k arbitrary: x)
  case 0
  then show ?case by simp
next
  case (Suc k)
  have "unat (word_of_nat x :: u8) = x mod 256"
    by (simp add: unat_of_nat)
  with Suc show ?case
    by (simp add: mod_mult2_eq)
qed

lemma le_bytes_le_val: "le_bytes (length bs) (le_val bs) = bs"
proof (induction bs)
  case Nil
  then show ?case by simp
next
  case (Cons b bs)
  have lt: "unat b < 256"
    by (rule unat_u8_lt)
  then have "(unat b + 256 * le_val bs) div 256 = le_val bs"
    by simp
  moreover have "(word_of_nat (unat b + 256 * le_val bs) :: u8) = b"
  proof -
    have "unat (word_of_nat (unat b + 256 * le_val bs) :: u8) = unat b"
      using lt by (simp add: unat_of_nat del: of_nat_add)
    then show ?thesis by (simp add: word_unat_eq_iff del: of_nat_add)
  qed
  ultimately show ?case
    using Cons by (simp del: of_nat_add)
qed

definition u16_to_le :: "u16 \<Rightarrow> bytes" where
  "u16_to_le x = le_bytes 2 (unat x)"

definition u16_from_le :: "bytes \<Rightarrow> u16" where
  "u16_from_le bs = word_of_nat (le_val bs)"

definition u32_to_le :: "u32 \<Rightarrow> bytes" where
  "u32_to_le x = le_bytes 4 (unat x)"

definition u32_from_le :: "bytes \<Rightarrow> u32" where
  "u32_from_le bs = word_of_nat (le_val bs)"

definition u64_to_le :: "u64 \<Rightarrow> bytes" where
  "u64_to_le x = le_bytes 8 (unat x)"

definition u64_from_le :: "bytes \<Rightarrow> u64" where
  "u64_from_le bs = word_of_nat (le_val bs)"

lemma le_val_lt: "le_val bs < 256 ^ length bs"
proof (induction bs)
  case Nil
  then show ?case by simp
next
  case (Cons b bs)
  have "unat b < 256"
    by (rule unat_u8_lt)
  with Cons show ?case by simp
qed

text \<open>
  The interface of a fixed-width field. A codec of a larger format is proved against it:
  the field reads back, and what follows it is untouched.
\<close>

locale le_field =
  fixes enc :: "'a \<Rightarrow> bytes" and dec :: "bytes \<Rightarrow> 'a" and width :: nat
  assumes field_width: "length (enc x) = width"
    and field_dec_enc: "dec (enc x) = x"
    and field_enc_dec: "length bs = width \<Longrightarrow> enc (dec bs) = bs"
begin

lemma field_read: "dec (slice 0 width (enc x @ rest)) = x"
  using field_width [of x] by (simp add: slice_def field_dec_enc)

lemma field_rest: "drop width (enc x @ rest) = rest"
  using field_width [of x] by simp

lemma field_inj: "enc x = enc y \<longleftrightarrow> x = y"
  by (metis field_dec_enc)

lemma field_read_at: "length pre = n \<Longrightarrow> dec (slice n (n + width) (pre @ enc x @ rest)) = x"
  using field_read [of x rest] slice_skip [of pre 0 width "enc x @ rest"] by simp

end

interpretation u16f: le_field u16_to_le u16_from_le 2
proof
  fix x :: u16
  show "length (u16_to_le x) = 2" by (simp add: u16_to_le_def)
  have "unat x < 65536" by (rule unat_u16_lt)
  then show "u16_from_le (u16_to_le x) = x"
    by (simp add: u16_to_le_def u16_from_le_def le_val_le_bytes)
next
  fix bs :: bytes assume len: "length bs = 2"
  then have "le_val bs < 65536" using le_val_lt [of bs] by simp
  with len show "u16_to_le (u16_from_le bs) = bs"
    using le_bytes_le_val [of bs] by (simp add: u16_to_le_def u16_from_le_def unat_of_nat)
qed

interpretation u32f: le_field u32_to_le u32_from_le 4
proof
  fix x :: u32
  show "length (u32_to_le x) = 4" by (simp add: u32_to_le_def)
  have "unat x < 4294967296" by (rule unat_u32_lt)
  then show "u32_from_le (u32_to_le x) = x"
    by (simp add: u32_to_le_def u32_from_le_def le_val_le_bytes)
next
  fix bs :: bytes assume len: "length bs = 4"
  then have "le_val bs < 4294967296" using le_val_lt [of bs] by simp
  with len show "u32_to_le (u32_from_le bs) = bs"
    using le_bytes_le_val [of bs] by (simp add: u32_to_le_def u32_from_le_def unat_of_nat)
qed

interpretation u64f: le_field u64_to_le u64_from_le 8
proof
  fix x :: u64
  show "length (u64_to_le x) = 8" by (simp add: u64_to_le_def)
  have "unat x < 18446744073709551616" by (rule unat_u64_lt)
  then show "u64_from_le (u64_to_le x) = x"
    by (simp add: u64_to_le_def u64_from_le_def le_val_le_bytes)
next
  fix bs :: bytes assume len: "length bs = 8"
  then have "le_val bs < 18446744073709551616" using le_val_lt [of bs] by simp
  with len show "u64_to_le (u64_from_le bs) = bs"
    using le_bytes_le_val [of bs] by (simp add: u64_to_le_def u64_from_le_def unat_of_nat)
qed

declare u16f.field_width [simp] u32f.field_width [simp] u64f.field_width [simp]
declare u16f.field_dec_enc [simp] u32f.field_dec_enc [simp] u64f.field_dec_enc [simp]

subsection \<open>Decimal text\<close>

text \<open>What \<open>format!("{}", n)\<close> writes for an unsigned integer.\<close>

fun dec_digits :: "nat \<Rightarrow> bytes" where
  "dec_digits n =
     (if n < 10 then [0x30 + word_of_nat n]
      else dec_digits (n div 10) @ [0x30 + word_of_nat (n mod 10)])"

declare dec_digits.simps [simp del]

lemma dec_digits_not_Nil [simp]: "dec_digits n \<noteq> []"
  by (subst dec_digits.simps) simp

subsection \<open>Chunked input\<close>

text \<open>
  Several components ingest a byte stream in chunks whose boundaries mean nothing. The
  contract: ingesting a chunk and then another is ingesting their concatenation, as long
  as the first one is within the component's bound (\<open>safe\<close>). Consequence: the state
  depends on the stream only, never on how it was cut.
\<close>

primrec safe_run :: "('s \<Rightarrow> 'b list \<Rightarrow> 's) \<Rightarrow> ('s \<Rightarrow> 'b list \<Rightarrow> bool) \<Rightarrow> 's \<Rightarrow> 'b list list \<Rightarrow> bool"
  where
  "safe_run step safe s [] = True"
| "safe_run step safe s (xs # xss) = (safe s xs \<and> safe_run step safe (step s xs) xss)"

locale chunk_fold =
  fixes step :: "'s \<Rightarrow> 'b list \<Rightarrow> 's"
    and good :: "'s \<Rightarrow> bool"
    and safe :: "'s \<Rightarrow> 'b list \<Rightarrow> bool"
  assumes step_nil: "good s \<Longrightarrow> step s [] = s"
    and step_good: "good s \<Longrightarrow> good (step s xs)"
    and step_append: "good s \<Longrightarrow> safe s xs \<Longrightarrow> step s (xs @ ys) = step (step s xs) ys"
begin

lemma fold_good: "good s \<Longrightarrow> good (foldl step s xss)"
  by (induction xss arbitrary: s) (auto simp: step_good)

lemma fold_concat: "good s \<Longrightarrow> safe_run step safe s xss \<Longrightarrow> foldl step s xss = step s (concat xss)"
proof (induction xss arbitrary: s)
  case Nil
  then show ?case by (simp add: step_nil)
next
  case (Cons xs xss)
  then have "foldl step (step s xs) xss = step (step s xs) (concat xss)"
    by (simp add: step_good)
  with Cons.prems show ?case by (simp add: step_append)
qed

lemma fold_chunking:
  assumes "good s" and "safe_run step safe s xss" and "safe_run step safe s yss"
    and "concat xss = concat yss"
  shows "foldl step s xss = foldl step s yss"
  using assms by (simp add: fold_concat)

end

subsection \<open>Step relations\<close>

text \<open>
  The contract of an inductive invariant of a step relation, and its consequence for
  every reachable state.
\<close>

locale invariant_system =
  fixes start :: "'s \<Rightarrow> bool" and step :: "'s \<Rightarrow> 's \<Rightarrow> bool" and inv :: "'s \<Rightarrow> bool"
  assumes inv_start: "start s \<Longrightarrow> inv s"
    and inv_step: "inv s \<Longrightarrow> step s t \<Longrightarrow> inv t"
begin

lemma inv_steps: "step\<^sup>*\<^sup>* s t \<Longrightarrow> inv s \<Longrightarrow> inv t"
  by (induction rule: rtranclp_induct) (auto intro: inv_step)

lemma inv_reachable: "start s \<Longrightarrow> step\<^sup>*\<^sup>* s t \<Longrightarrow> inv t"
  by (blast intro: inv_start inv_steps)

end

end
