(* ===== verification/Utf8.thy ===== *)
theory Utf8
  imports Prelude
begin

text \<open>
  The part of Rust's standard library that decides which bytes are text:
  \<open>str::from_utf8\<close> and \<open>String::from_utf8_lossy\<close>. \<open>utf8_next\<close> reads one scalar value, or
  the maximal malformed prefix that the lossy conversion replaces by U+FFFD, following
  the byte ranges of the Unicode standard that \<open>core::str\<close> implements.
\<close>

definition cont_byte :: "u8 \<Rightarrow> bool" where
  "cont_byte b \<longleftrightarrow> 0x80 \<le> b \<and> b \<le> 0xBF"

text \<open>The second byte of a three- or four-byte sequence: overlong forms, surrogates and
  values past U+10FFFF are excluded here.\<close>

definition second3 :: "u8 \<Rightarrow> u8 \<Rightarrow> bool" where
  "second3 b c \<longleftrightarrow>
     (if b = 0xE0 then 0xA0 \<le> c \<and> c \<le> 0xBF
      else if b = 0xED then 0x80 \<le> c \<and> c \<le> 0x9F
      else cont_byte c)"

definition second4 :: "u8 \<Rightarrow> u8 \<Rightarrow> bool" where
  "second4 b c \<longleftrightarrow>
     (if b = 0xF0 then 0x90 \<le> c \<and> c \<le> 0xBF
      else if b = 0xF4 then 0x80 \<le> c \<and> c \<le> 0x8F
      else cont_byte c)"

text \<open>The continuation bytes still wanted, one at a time, after \<open>n\<close> bytes were accepted.\<close>

fun utf8_tail :: "(u8 \<Rightarrow> bool) list \<Rightarrow> nat \<Rightarrow> bytes \<Rightarrow> bool \<times> nat" where
  "utf8_tail [] n bs = (True, n)"
| "utf8_tail (p # ps) n [] = (False, n)"
| "utf8_tail (p # ps) n (b # bs) =
     (if p b then utf8_tail ps (Suc n) bs else (False, n))"

definition utf8_wants :: "u8 \<Rightarrow> (u8 \<Rightarrow> bool) list option" where
  "utf8_wants b =
     (if b < 0x80 then Some []
      else if 0xC2 \<le> b \<and> b \<le> 0xDF then Some [cont_byte]
      else if 0xE0 \<le> b \<and> b \<le> 0xEF then Some [second3 b, cont_byte]
      else if 0xF0 \<le> b \<and> b \<le> 0xF4 then Some [second4 b, cont_byte, cont_byte]
      else None)"

fun utf8_next :: "bytes \<Rightarrow> bool \<times> nat" where
  "utf8_next [] = (True, 0)"
| "utf8_next (b # bs) =
     (case utf8_wants b of
        None \<Rightarrow> (False, 1)
      | Some ps \<Rightarrow> utf8_tail ps 1 bs)"

lemma utf8_tail_ge: "n \<le> snd (utf8_tail ps n bs)"
  by (induction ps n bs rule: utf8_tail.induct) auto

lemma utf8_tail_le: "snd (utf8_tail ps n bs) \<le> n + length bs"
  by (induction ps n bs rule: utf8_tail.induct) auto

lemma utf8_next_pos: "bs \<noteq> [] \<Longrightarrow> 0 < snd (utf8_next bs)"
proof (cases bs)
  case (Cons b r)
  then show ?thesis
    using utf8_tail_ge [of 1 _ r] by (auto split: option.splits simp: Suc_le_eq)
qed simp

lemma utf8_next_le: "snd (utf8_next bs) \<le> length bs"
proof (cases bs)
  case (Cons b r)
  then show ?thesis
    using utf8_tail_le [of _ 1 r] by (auto split: option.splits)
qed simp

function utf8_valid :: "bytes \<Rightarrow> bool" where
  "utf8_valid bs =
     (if bs = [] then True
      else fst (utf8_next bs) \<and> utf8_valid (drop (snd (utf8_next bs)) bs))"
  by pat_completeness auto
termination
  by (relation "measure length") (auto simp: utf8_next_pos)

function from_utf8_lossy_bytes :: "bytes \<Rightarrow> bytes" where
  "from_utf8_lossy_bytes bs =
     (if bs = [] then []
      else (if fst (utf8_next bs) then take (snd (utf8_next bs)) bs else [0xEF, 0xBF, 0xBD])
           @ from_utf8_lossy_bytes (drop (snd (utf8_next bs)) bs))"
  by pat_completeness auto
termination
  by (relation "measure length") (auto simp: utf8_next_pos)

declare utf8_valid.simps [simp del] from_utf8_lossy_bytes.simps [simp del]

text \<open>\<open>std::str::from_utf8(..).ok()\<close> and \<open>String::from_utf8_lossy(..).into_owned()\<close>.\<close>

definition from_utf8 :: "bytes \<Rightarrow> string option" where
  "from_utf8 bs = (if utf8_valid bs then Some (chars_of bs) else None)"

definition from_utf8_lossy :: "bytes \<Rightarrow> string" where
  "from_utf8_lossy bs = chars_of (from_utf8_lossy_bytes bs)"

text \<open>What every Rust \<open>String\<close> satisfies.\<close>

definition is_str :: "string \<Rightarrow> bool" where
  "is_str s \<longleftrightarrow> utf8_valid (bytes_of s)"

subsection \<open>Facts\<close>

lemma utf8_valid_Nil [simp]: "utf8_valid []"
  by (simp add: utf8_valid.simps)

lemma lossy_Nil [simp]: "from_utf8_lossy_bytes [] = []"
  by (simp add: from_utf8_lossy_bytes.simps)

lemma utf8_valid_step:
  "bs \<noteq> [] \<Longrightarrow> utf8_valid bs \<longleftrightarrow> fst (utf8_next bs) \<and> utf8_valid (drop (snd (utf8_next bs)) bs)"
  by (subst utf8_valid.simps) simp

lemma lossy_step:
  "bs \<noteq> [] \<Longrightarrow> from_utf8_lossy_bytes bs =
     (if fst (utf8_next bs) then take (snd (utf8_next bs)) bs else [0xEF, 0xBF, 0xBD])
     @ from_utf8_lossy_bytes (drop (snd (utf8_next bs)) bs)"
  by (subst from_utf8_lossy_bytes.simps) simp

lemma utf8_tail_append:
  "utf8_tail ps n bs = (True, k) \<Longrightarrow> utf8_tail ps n (take (k - n) bs @ ys) = (True, k)"
proof (induction ps n bs rule: utf8_tail.induct)
  case (3 p ps n b bs)
  then have ok: "p b" and t: "utf8_tail ps (Suc n) bs = (True, k)"
    by (auto split: if_splits)
  then have "Suc n \<le> k"
    using utf8_tail_ge [of "Suc n" ps bs] by simp
  then have "take (k - n) (b # bs) = b # take (k - Suc n) bs"
    using \<open>Suc n \<le> k\<close> by (simp add: take_Cons' Suc_le_eq)
  with ok t 3 show ?case by simp
qed auto

lemma utf8_next_append:
  assumes "utf8_next bs = (True, k)" and "bs \<noteq> []"
  shows "utf8_next (take k bs @ ys) = (True, k)"
proof (cases bs)
  case (Cons b r)
  with assms obtain ps where w: "utf8_wants b = Some ps" and t: "utf8_tail ps 1 r = (True, k)"
    by (auto split: option.splits)
  then have "1 \<le> k" using utf8_tail_ge [of 1 ps r] by simp
  then have "take k bs = b # take (k - 1) r"
    using Cons by (cases k) auto
  with w utf8_tail_append [OF t] show ?thesis by simp
qed (use assms in simp)

lemma utf8_valid_append: "utf8_valid a \<Longrightarrow> utf8_valid b \<Longrightarrow> utf8_valid (a @ b)"
proof (induction a rule: utf8_valid.induct)
  case (1 a)
  show ?case
  proof (cases "a = []")
    case False
    define k where "k = snd (utf8_next a)"
    with False "1.prems" have n: "utf8_next a = (True, k)" and v: "utf8_valid (drop k a)"
      by (auto simp: utf8_valid_step prod_eq_iff)
    have k: "k \<le> length a" using utf8_next_le [of a] by (simp add: k_def)
    have "utf8_next (a @ b) = (True, k)"
      using utf8_next_append [OF n False, of "drop k a @ b"]
      by (simp add: append_assoc [symmetric] del: append_assoc)
    moreover have "utf8_valid (drop k (a @ b))"
      using False v 1 k by (simp add: k_def)
    ultimately show ?thesis using False by (simp add: utf8_valid_step)
  qed (use 1 in simp)
qed

lemma lossy_valid_id: "utf8_valid bs \<Longrightarrow> from_utf8_lossy_bytes bs = bs"
proof (induction bs rule: utf8_valid.induct)
  case (1 bs)
  then show ?case
    by (cases "bs = []") (simp_all add: utf8_valid_step lossy_step)
qed

lemma utf8_valid_replacement: "utf8_valid [0xEF, 0xBF, 0xBD]"
  by (simp add: utf8_valid_step utf8_wants_def second3_def cont_byte_def)

lemma utf8_valid_lossy: "utf8_valid (from_utf8_lossy_bytes bs)"
proof (induction bs rule: from_utf8_lossy_bytes.induct)
  case (1 bs)
  show ?case
  proof (cases "bs = []")
    case False
    define k where "k = snd (utf8_next bs)"
    have k: "k \<le> length bs" using utf8_next_le [of bs] by (simp add: k_def)
    have chunk: "utf8_valid (if fst (utf8_next bs) then take k bs else [0xEF, 0xBF, 0xBD])"
    proof (cases "fst (utf8_next bs)")
      case True
      then have "utf8_next bs = (True, k)" by (simp add: k_def prod_eq_iff)
      from utf8_next_append [OF this False, of "[]"] k False
      have "utf8_next (take k bs) = (True, k)" and "take k bs \<noteq> []"
        using utf8_next_pos [OF False] by (auto simp: k_def)
      then have "utf8_valid (take k bs)"
        by (simp add: utf8_valid_step)
      with True show ?thesis by simp
    qed (simp add: utf8_valid_replacement)
    have rest: "utf8_valid (from_utf8_lossy_bytes (drop k bs))"
      using "1.IH" [OF False] by (simp add: k_def)
    show ?thesis
      unfolding lossy_step [OF False] k_def [symmetric]
      by (rule utf8_valid_append [OF chunk rest])
  qed simp
qed

lemma is_str_lossy: "is_str (from_utf8_lossy bs)"
  by (simp add: is_str_def from_utf8_lossy_def utf8_valid_lossy)

lemma from_utf8_Some: "from_utf8 bs = Some s \<longleftrightarrow> is_str s \<and> bs = bytes_of s"
  by (auto simp: from_utf8_def is_str_def)

lemma from_utf8_bytes_of: "is_str s \<Longrightarrow> from_utf8 (bytes_of s) = Some s"
  by (simp add: from_utf8_Some)

lemma lossy_bytes_of: "is_str s \<Longrightarrow> from_utf8_lossy (bytes_of s) = s"
  by (simp add: is_str_def from_utf8_lossy_def lossy_valid_id)

lemma utf8_valid_ascii: "\<forall>b \<in> set bs. b < 0x80 \<Longrightarrow> utf8_valid bs"
proof (induction bs)
  case (Cons b bs)
  then show ?case by (simp add: utf8_valid_step utf8_wants_def)
qed simp

end
