(* ===== verification/Framing.thy ===== *)
theory Framing
  imports Utf8
begin

text \<open>
  The binary stream codec of \<open>grove-core/src/daemon/framing.rs\<close>: frames, their encoder, the
  incremental decoder, the typed helpers and the sequence guard, and the read loop of
  \<open>client.rs\<close> (\<open>stream_reader\<close>) that drives the decoder chunk by chunk.

  \<open>serde_json\<close> is not modelled: the two functions that use it take the JSON printer or
  parser of an exit status as an argument.
\<close>

subsection \<open>Constants and types\<close>

definition STREAM_FRAME_MAGIC :: bytes where
  "STREAM_FRAME_MAGIC = bytes_of ''GCKL''"

definition STREAM_FRAME_HEADER_BYTES :: nat where
  "STREAM_FRAME_HEADER_BYTES = 4 + 1 + 2 + 8 + 4"

definition MAX_STREAM_FRAME_PAYLOAD :: nat where
  "MAX_STREAM_FRAME_PAYLOAD = 16 * 1024 * 1024"

definition MAX_SESSION_ID_BYTES :: u16 where
  "MAX_SESSION_ID_BYTES = 4096"

datatype stream_frame_kind = DataFrame | ResizeFrame | ExitFrame

fun kind_to_u8 :: "stream_frame_kind \<Rightarrow> u8" where
  "kind_to_u8 DataFrame = 0x02"
| "kind_to_u8 ResizeFrame = 0x03"
| "kind_to_u8 ExitFrame = 0x10"

definition kind_from_u8 :: "u8 \<Rightarrow> stream_frame_kind option" where
  "kind_from_u8 v =
     (if v = 0x02 then Some DataFrame
      else if v = 0x03 then Some ResizeFrame
      else if v = 0x10 then Some ExitFrame
      else None)"

record exit_status =
  es_code :: "int option"
  es_signal :: "int option"

record stream_frame =
  fr_kind :: stream_frame_kind
  fr_session_id :: string
  fr_seq :: u64
  fr_payload :: bytes

datatype frame_error =
    BadMagic
  | UnknownKind u8
  | OversizedPayload nat nat
  | OversizedSessionId nat u16
  | InvalidSessionId

subsection \<open>Frame constructors and typed readers\<close>

definition data_frame :: "string \<Rightarrow> u64 \<Rightarrow> bytes \<Rightarrow> stream_frame" where
  "data_frame sid seq payload =
     \<lparr>fr_kind = DataFrame, fr_session_id = sid, fr_seq = seq, fr_payload = payload\<rparr>"

definition resize_frame :: "string \<Rightarrow> u64 \<Rightarrow> u16 \<Rightarrow> u16 \<Rightarrow> stream_frame" where
  "resize_frame sid seq cols rows =
     \<lparr>fr_kind = ResizeFrame, fr_session_id = sid, fr_seq = seq,
      fr_payload = u16_to_le cols @ u16_to_le rows\<rparr>"

definition exit_frame ::
  "(exit_status \<Rightarrow> bytes) \<Rightarrow> string \<Rightarrow> u64 \<Rightarrow> exit_status \<Rightarrow> stream_frame" where
  "exit_frame to_json sid seq status =
     \<lparr>fr_kind = ExitFrame, fr_session_id = sid, fr_seq = seq, fr_payload = to_json status\<rparr>"

definition as_resize :: "stream_frame \<Rightarrow> (u16 \<times> u16) option" where
  "as_resize f =
     (if fr_kind f \<noteq> ResizeFrame \<or> length (fr_payload f) \<noteq> 4 then None
      else Some (u16_from_le (slice 0 2 (fr_payload f)), u16_from_le (slice 2 4 (fr_payload f))))"

definition as_exit ::
  "(bytes \<Rightarrow> exit_status option) \<Rightarrow> stream_frame \<Rightarrow> exit_status option" where
  "as_exit from_json f = (if fr_kind f \<noteq> ExitFrame then None else from_json (fr_payload f))"

subsection \<open>Encoder\<close>

definition encode :: "stream_frame \<Rightarrow> bytes \<Rightarrow> (bytes, frame_error) result" where
  "encode f out =
     (let sid = bytes_of (fr_session_id f) in
      if unat MAX_SESSION_ID_BYTES < length sid
      then Err (OversizedSessionId (length sid) MAX_SESSION_ID_BYTES)
      else if MAX_STREAM_FRAME_PAYLOAD < length (fr_payload f)
      then Err (OversizedPayload (length (fr_payload f)) MAX_STREAM_FRAME_PAYLOAD)
      else Ok (out @ STREAM_FRAME_MAGIC @ [kind_to_u8 (fr_kind f)]
               @ u16_to_le (word_of_nat (length sid)) @ u64_to_le (fr_seq f)
               @ u32_to_le (word_of_nat (length (fr_payload f))) @ sid @ fr_payload f))"

definition to_bytes :: "stream_frame \<Rightarrow> (bytes, frame_error) result" where
  "to_bytes f = encode f []"

subsection \<open>Decoder\<close>

record stream_decoder =
  dec_buf :: bytes

definition new_decoder :: stream_decoder where
  "new_decoder = \<lparr>dec_buf = []\<rparr>"

definition feed :: "stream_decoder \<Rightarrow> bytes \<Rightarrow> stream_decoder" where
  "feed d bs = d\<lparr>dec_buf := dec_buf d @ bs\<rparr>"

definition next_frame ::
  "stream_decoder \<Rightarrow> (stream_frame option, frame_error) result \<times> stream_decoder" where
  "next_frame d =
     (let buf = dec_buf d in
      if length buf < STREAM_FRAME_HEADER_BYTES then (Ok None, d)
      else if slice 0 4 buf \<noteq> STREAM_FRAME_MAGIC then (Err BadMagic, d)
      else case kind_from_u8 (buf ! 4) of
        None \<Rightarrow> (Err (UnknownKind (buf ! 4)), d)
      | Some kind \<Rightarrow>
          let sid_len = u16_from_le (slice 5 7 buf);
              seq = u64_from_le (slice 7 15 buf);
              payload_len = unat (u32_from_le (slice 15 19 buf))
          in if MAX_SESSION_ID_BYTES < sid_len
             then (Err (OversizedSessionId (unat sid_len) MAX_SESSION_ID_BYTES), d)
             else if MAX_STREAM_FRAME_PAYLOAD < payload_len
             then (Err (OversizedPayload payload_len MAX_STREAM_FRAME_PAYLOAD), d)
             else
               let sid_start = STREAM_FRAME_HEADER_BYTES;
                   sid_end = sid_start + unat sid_len;
                   payload_end = sid_end + payload_len
               in if length buf < payload_end then (Ok None, d)
                  else case from_utf8 (slice sid_start sid_end buf) of
                    None \<Rightarrow> (Err InvalidSessionId, d)
                  | Some sid \<Rightarrow>
                      (Ok (Some \<lparr>fr_kind = kind, fr_session_id = sid, fr_seq = seq,
                                 fr_payload = slice sid_end payload_end buf\<rparr>),
                       d\<lparr>dec_buf := drop payload_end buf\<rparr>))"

definition buffered_len :: "stream_decoder \<Rightarrow> nat" where
  "buffered_len d = length (dec_buf d)"

subsection \<open>Sequence guard\<close>

definition seq_is_monotonic :: "u64 option \<Rightarrow> u64 \<Rightarrow> bool" where
  "seq_is_monotonic prev nxt = (case prev of None \<Rightarrow> True | Some p \<Rightarrow> p \<le> nxt)"

record seq_tracker =
  st_last :: "u64 option"

definition new_tracker :: seq_tracker where
  "new_tracker = \<lparr>st_last = None\<rparr>"

definition observe :: "seq_tracker \<Rightarrow> u64 \<Rightarrow> bool \<times> seq_tracker" where
  "observe t seq =
     (let ok = seq_is_monotonic (st_last t) seq
      in (ok, if ok then t\<lparr>st_last := Some seq\<rparr> else t))"

subsection \<open>How a frame is laid out\<close>

text \<open>The bytes \<open>encode\<close> appends, and when it appends them.\<close>

definition frame_wire :: "stream_frame \<Rightarrow> bytes" where
  "frame_wire f =
     STREAM_FRAME_MAGIC @ [kind_to_u8 (fr_kind f)]
     @ u16_to_le (word_of_nat (length (fr_session_id f))) @ u64_to_le (fr_seq f)
     @ u32_to_le (word_of_nat (length (fr_payload f))) @ bytes_of (fr_session_id f)
     @ fr_payload f"

definition frame_fits :: "stream_frame \<Rightarrow> bool" where
  "frame_fits f \<longleftrightarrow> is_str (fr_session_id f) \<and> length (fr_session_id f) \<le> 4096
     \<and> length (fr_payload f) \<le> MAX_STREAM_FRAME_PAYLOAD"

lemma length_magic [simp]: "length STREAM_FRAME_MAGIC = 4"
  by (simp add: STREAM_FRAME_MAGIC_def)

lemma encode_Ok_iff:
  "encode f out = Ok bs \<longleftrightarrow>
     length (fr_session_id f) \<le> 4096 \<and> length (fr_payload f) \<le> MAX_STREAM_FRAME_PAYLOAD
     \<and> bs = out @ frame_wire f"
  by (auto simp: encode_def frame_wire_def MAX_SESSION_ID_BYTES_def Let_def)

lemma to_bytes_Ok_iff:
  "to_bytes f = Ok bs \<longleftrightarrow>
     length (fr_session_id f) \<le> 4096 \<and> length (fr_payload f) \<le> MAX_STREAM_FRAME_PAYLOAD
     \<and> bs = frame_wire f"
  by (simp add: to_bytes_def encode_Ok_iff)

lemma kind_roundtrip [simp]: "kind_from_u8 (kind_to_u8 k) = Some k"
  by (cases k) (simp_all add: kind_from_u8_def)

lemma length_frame_wire:
  "length (frame_wire f) = 19 + length (fr_session_id f) + length (fr_payload f)"
  by (simp add: frame_wire_def)

text \<open>The five header fields read back from a buffer that starts with a frame.\<close>

lemma wire_magic [wire_simps]: "slice 0 4 (frame_wire f @ rest) = STREAM_FRAME_MAGIC"
  using slice_0_length [of STREAM_FRAME_MAGIC] by (simp add: frame_wire_def)

lemma wire_kind [wire_simps]: "(frame_wire f @ rest) ! 4 = kind_to_u8 (fr_kind f)"
  by (simp add: frame_wire_def nth_append)

lemma wire_sid_len [wire_simps]:
  "u16_from_le (slice 5 7 (frame_wire f @ rest)) = word_of_nat (length (fr_session_id f))"
  using u16f.field_read_at [of "STREAM_FRAME_MAGIC @ [kind_to_u8 (fr_kind f)]" 5]
  by (simp add: frame_wire_def)

lemma wire_seq [wire_simps]: "u64_from_le (slice 7 15 (frame_wire f @ rest)) = fr_seq f"
  using u64f.field_read_at [of "STREAM_FRAME_MAGIC @ [kind_to_u8 (fr_kind f)]
      @ u16_to_le (word_of_nat (length (fr_session_id f)))" 7]
  by (simp add: frame_wire_def)

lemma wire_payload_len [wire_simps]:
  "u32_from_le (slice 15 19 (frame_wire f @ rest)) = word_of_nat (length (fr_payload f))"
  using u32f.field_read_at [of "STREAM_FRAME_MAGIC @ [kind_to_u8 (fr_kind f)]
      @ u16_to_le (word_of_nat (length (fr_session_id f))) @ u64_to_le (fr_seq f)" 15]
  by (simp add: frame_wire_def)

lemma wire_sid [wire_simps]:
  "slice 19 (19 + length (fr_session_id f)) (frame_wire f @ rest) = bytes_of (fr_session_id f)"
proof -
  let ?h = "STREAM_FRAME_MAGIC @ [kind_to_u8 (fr_kind f)]
      @ u16_to_le (word_of_nat (length (fr_session_id f))) @ u64_to_le (fr_seq f)
      @ u32_to_le (word_of_nat (length (fr_payload f)))"
  have "length ?h = 19" by simp
  then show ?thesis
    using slice_skip [of ?h 0 "length (fr_session_id f)" "bytes_of (fr_session_id f) @ fr_payload f @ rest"]
    by (simp add: frame_wire_def slice_def)
qed

lemma wire_payload [wire_simps]:
  "slice (19 + length (fr_session_id f)) (19 + length (fr_session_id f) + length (fr_payload f))
     (frame_wire f @ rest) = fr_payload f"
proof -
  let ?h = "STREAM_FRAME_MAGIC @ [kind_to_u8 (fr_kind f)]
      @ u16_to_le (word_of_nat (length (fr_session_id f))) @ u64_to_le (fr_seq f)
      @ u32_to_le (word_of_nat (length (fr_payload f))) @ bytes_of (fr_session_id f)"
  have "length ?h = 19 + length (fr_session_id f)" by simp
  then show ?thesis
    using slice_skip [of ?h 0 "length (fr_payload f)" "fr_payload f @ rest"]
    by (simp add: frame_wire_def slice_def)
qed

lemma wire_rest [wire_simps]:
  "drop (19 + length (fr_session_id f) + length (fr_payload f)) (frame_wire f @ rest) = rest"
  using length_frame_wire [of f] by (simp add: add.assoc)

lemma next_frame_whole:
  assumes "frame_fits f"
  shows "next_frame \<lparr>dec_buf = frame_wire f @ rest\<rparr> = (Ok (Some f), \<lparr>dec_buf = rest\<rparr>)"
proof -
  have sid: "unat (word_of_nat (length (fr_session_id f)) :: u16) = length (fr_session_id f)"
    and sidle: "\<not> MAX_SESSION_ID_BYTES < word_of_nat (length (fr_session_id f))"
    using assms by (simp_all add: frame_fits_def unat_of_nat MAX_SESSION_ID_BYTES_def word_less_nat_alt)
  have pl: "unat (word_of_nat (length (fr_payload f)) :: u32) = length (fr_payload f)"
    using assms by (simp add: frame_fits_def unat_of_nat MAX_STREAM_FRAME_PAYLOAD_def)
  have "from_utf8 (bytes_of (fr_session_id f)) = Some (fr_session_id f)"
    using assms by (simp add: frame_fits_def from_utf8_bytes_of)
  with assms sid pl sidle show ?thesis
    unfolding next_frame_def
    by (simp add: Let_def wire_simps length_frame_wire STREAM_FRAME_HEADER_BYTES_def
        frame_fits_def add.assoc [symmetric])
qed

text \<open>Conversely a frame is only ever decoded from its own encoding.\<close>

lemma split_at_19:
  assumes "19 \<le> length buf"
  shows "buf = slice 0 4 buf @ [buf ! 4] @ slice 5 7 buf @ slice 7 15 buf @ slice 15 19 buf @ drop 19 buf"
proof -
  have "drop 4 buf = (buf ! 4) # drop 5 buf"
    using assms Cons_nth_drop_Suc [of 4 buf] by simp
  then show ?thesis
    using drop_eq_slice [of 0 4 buf] drop_eq_slice [of 5 7 buf] drop_eq_slice [of 7 15 buf]
      drop_eq_slice [of 15 19 buf] by simp
qed

lemma kind_from_u8_Some: "kind_from_u8 v = Some k \<Longrightarrow> v = kind_to_u8 k"
  by (auto simp: kind_from_u8_def split: if_splits)

lemma next_frame_SomeD:
  assumes "next_frame d = (Ok (Some f), d')"
  shows "frame_fits f \<and> dec_buf d = frame_wire f @ dec_buf d'"
proof -
  define buf where "buf = dec_buf d"
  define n where "n = unat (u16_from_le (slice 5 7 buf))"
  define m where "m = unat (u32_from_le (slice 15 19 buf))"
  obtain k sid where len: "19 \<le> length buf" and mag: "slice 0 4 buf = STREAM_FRAME_MAGIC"
    and k: "kind_from_u8 (buf ! 4) = Some k"
    and n: "n \<le> 4096" and m: "m \<le> MAX_STREAM_FRAME_PAYLOAD" and tot: "19 + n + m \<le> length buf"
    and sid: "from_utf8 (slice 19 (19 + n) buf) = Some sid"
    and f: "f = \<lparr>fr_kind = k, fr_session_id = sid, fr_seq = u64_from_le (slice 7 15 buf),
        fr_payload = slice (19 + n) (19 + n + m) buf\<rparr>"
    and d': "dec_buf d' = drop (19 + n + m) buf"
    using assms
    by (auto simp: next_frame_def Let_def buf_def [symmetric] n_def m_def
        STREAM_FRAME_HEADER_BYTES_def MAX_SESSION_ID_BYTES_def word_less_nat_alt not_less
        split: if_splits option.splits)
  have sid': "bytes_of sid = slice 19 (19 + n) buf" and str: "is_str sid"
    using sid by (simp_all add: from_utf8_Some)
  then have lsid: "length sid = n"
    using tot length_slice [of "19 + n" buf 19] by (metis add_leD1 add_diff_cancel_left' length_bytes_of)
  have lpay: "length (fr_payload f) = m"
    using tot by (simp add: f length_slice)
  have "buf = slice 0 4 buf @ [buf ! 4] @ slice 5 7 buf @ slice 7 15 buf @ slice 15 19 buf @ drop 19 buf"
    by (rule split_at_19 [OF len])
  also have "drop 19 buf = bytes_of sid @ fr_payload f @ dec_buf d'"
    using drop_eq_slice [of 19 "19 + n" buf] drop_eq_slice [of "19 + n" "19 + n + m" buf]
    by (simp add: sid' f d' add.assoc)
  also have "slice 5 7 buf = u16_to_le (word_of_nat (length sid))"
    using u16f.field_enc_dec [of "slice 5 7 buf"] len
    by (simp add: lsid n_def length_slice)
  also have "slice 15 19 buf = u32_to_le (word_of_nat (length (fr_payload f)))"
    using u32f.field_enc_dec [of "slice 15 19 buf"] len
    by (simp add: lpay m_def length_slice)
  also have "slice 7 15 buf = u64_to_le (fr_seq f)"
    using u64f.field_enc_dec [of "slice 7 15 buf"] len by (simp add: f length_slice)
  finally have "buf = frame_wire f @ dec_buf d'"
    using kind_from_u8_Some [OF k] by (simp add: frame_wire_def mag f)
  moreover have "frame_fits f"
    using n m str lsid lpay by (simp add: frame_fits_def f)
  ultimately show ?thesis by (simp add: buf_def)
qed

lemma next_frame_Some_iff:
  "next_frame d = (Ok (Some f), d') \<longleftrightarrow> frame_fits f \<and> dec_buf d = frame_wire f @ dec_buf d'"
proof
  assume a: "frame_fits f \<and> dec_buf d = frame_wire f @ dec_buf d'"
  have "d = \<lparr>dec_buf = dec_buf d\<rparr>" and "d' = \<lparr>dec_buf = dec_buf d'\<rparr>" by simp_all
  with a show "next_frame d = (Ok (Some f), d')"
    using next_frame_whole [of f "dec_buf d'"] by metis
qed (rule next_frame_SomeD)

lemma next_frame_other: "fst (next_frame d) = Ok None \<or> (\<exists>e. fst (next_frame d) = Err e) \<Longrightarrow> snd (next_frame d) = d"
  by (auto simp: next_frame_def Let_def split: if_splits option.splits)

lemma next_frame_ErrD: "next_frame d = (Err e, d') \<Longrightarrow> d' = d"
  using next_frame_other [of d] by simp

lemma next_frame_NoneD: "next_frame d = (Ok None, d') \<Longrightarrow> d' = d"
  using next_frame_other [of d] by simp

lemma nth_append_small: "n < length xs \<Longrightarrow> (xs @ ys) ! n = xs ! n"
  by (simp add: nth_append)

lemma next_frame_Err_feed:
  assumes "next_frame d = (Err e, d')"
  shows "next_frame (feed d bs) = (Err e, feed d bs)"
proof -
  have "19 \<le> length (dec_buf d)"
    using assms by (auto simp: next_frame_def Let_def STREAM_FRAME_HEADER_BYTES_def split: if_splits)
  with assms show ?thesis
    by (auto simp: next_frame_def Let_def feed_def slice_append_left nth_append_small
        STREAM_FRAME_HEADER_BYTES_def split: if_splits option.splits)
qed

lemma next_frame_Some_feed:
  "next_frame d = (Ok (Some f), d') \<Longrightarrow> next_frame (feed d bs) = (Ok (Some f), feed d' bs)"
  by (simp add: next_frame_Some_iff feed_def)

subsection \<open>The read loop\<close>

text \<open>
  \<open>stream_reader\<close> of \<open>client.rs\<close>: after each socket read the chunk is fed and frames are pulled
  until the decoder wants more bytes; a decode error ends the loop for good. \<open>rx_out\<close> is the
  sequence of frames handed to \<open>dispatch_frame\<close>.
\<close>

function drain_frames :: "stream_decoder \<Rightarrow> stream_frame list \<times> stream_decoder \<times> frame_error option" where
  "drain_frames d =
     (case next_frame d of
        (Ok (Some f), d') \<Rightarrow> (let (fs, d'', e) = drain_frames d' in (f # fs, d'', e))
      | (Ok None, d') \<Rightarrow> ([], d', None)
      | (Err e, d') \<Rightarrow> ([], d', Some e))"
  by pat_completeness auto
termination
  by (relation "measure (\<lambda>d. length (dec_buf d))")
     (auto dest!: next_frame_SomeD [OF sym] simp: length_frame_wire)

declare drain_frames.simps [simp del]

record stream_rx =
  rx_dec :: stream_decoder
  rx_out :: "stream_frame list"
  rx_err :: "frame_error option"

definition new_rx :: stream_rx where
  "new_rx = \<lparr>rx_dec = new_decoder, rx_out = [], rx_err = None\<rparr>"

definition stream_read :: "stream_rx \<Rightarrow> bytes \<Rightarrow> stream_rx" where
  "stream_read s chunk =
     (if rx_err s \<noteq> None then s
      else let (fs, d, e) = drain_frames (feed (rx_dec s) chunk)
           in \<lparr>rx_dec = d, rx_out = rx_out s @ fs, rx_err = e\<rparr>)"

lemma drain_Some: "next_frame d = (Ok (Some f), d') \<Longrightarrow>
    drain_frames d = (f # fst (drain_frames d'), snd (drain_frames d'))"
  by (subst drain_frames.simps) (simp add: case_prod_beta)

lemma drain_None: "next_frame d = (Ok None, d') \<Longrightarrow> drain_frames d = ([], d', None)"
  by (subst drain_frames.simps) simp

lemma drain_Err: "next_frame d = (Err e, d') \<Longrightarrow> drain_frames d = ([], d', Some e)"
  by (subst drain_frames.simps) simp

lemmas drain_simps = drain_Some drain_None drain_Err

lemma drain_feed_None:
  "snd (snd (drain_frames d)) = None \<Longrightarrow>
   drain_frames (feed d bs) =
     (fst (drain_frames d) @ fst (drain_frames (feed (fst (snd (drain_frames d))) bs)),
      snd (drain_frames (feed (fst (snd (drain_frames d))) bs)))"
proof (induction d rule: drain_frames.induct)
  case (1 d)
  obtain r d' where nf: "next_frame d = (r, d')" by fastforce
  show ?case
  proof (cases r)
    case (Ok o')
    show ?thesis
    proof (cases o')
      case None
      with nf Ok show ?thesis using next_frame_NoneD [of d d'] by (simp add: drain_None)
    next
      case (Some f)
      with nf Ok 1 show ?thesis
        by (simp add: drain_Some [of d f d'] drain_Some [OF next_frame_Some_feed, of d f d'])
    qed
  next
    case (Err e)
    with nf "1.prems" show ?thesis by (simp add: drain_Err)
  qed
qed

lemma drain_feed_Some:
  "snd (snd (drain_frames d)) = Some e \<Longrightarrow>
   fst (drain_frames (feed d bs)) = fst (drain_frames d) \<and>
   snd (snd (drain_frames (feed d bs))) = Some e"
proof (induction d rule: drain_frames.induct)
  case (1 d)
  obtain r d' where nf: "next_frame d = (r, d')" by fastforce
  show ?case
  proof (cases r)
    case (Ok o')
    show ?thesis
    proof (cases o')
      case None
      with nf Ok "1.prems" show ?thesis by (simp add: drain_None)
    next
      case (Some f)
      with nf Ok 1 show ?thesis
        by (simp add: drain_Some [of d f d'] drain_Some [OF next_frame_Some_feed, of d f d'])
    qed
  next
    case (Err e')
    with nf "1.prems" show ?thesis
      by (simp add: drain_Err drain_Err [OF next_frame_Err_feed, of d])
  qed
qed

lemma drain_rest: "next_frame (fst (snd (drain_frames d))) =
    (case snd (snd (drain_frames d)) of None \<Rightarrow> Ok None | Some e \<Rightarrow> Err e, fst (snd (drain_frames d)))"
proof (induction d rule: drain_frames.induct)
  case (1 d)
  obtain r d' where nf: "next_frame d = (r, d')" by fastforce
  show ?case
  proof (cases r)
    case (Ok o')
    with nf 1 show ?thesis
      by (cases o') (auto simp: drain_simps dest: next_frame_NoneD)
  next
    case (Err e)
    with nf show ?thesis using next_frame_ErrD [of d e d'] by (simp add: drain_Err)
  qed
qed

text \<open>Between reads the decoder is always drained.\<close>

definition rx_drained :: "stream_rx \<Rightarrow> bool" where
  "rx_drained s \<longleftrightarrow> rx_err s \<noteq> None \<or> next_frame (rx_dec s) = (Ok None, rx_dec s)"

definition rx_alive_after :: "stream_rx \<Rightarrow> bytes \<Rightarrow> bool" where
  "rx_alive_after s chunk \<longleftrightarrow> rx_err (stream_read s chunk) = None"

lemma feed_feed: "feed (feed d a) b = feed d (a @ b)"
  by (simp add: feed_def)

lemma feed_Nil [simp]: "feed d [] = d"
  by (simp add: feed_def)

interpretation rx: chunk_fold stream_read rx_drained rx_alive_after
proof
  fix s :: stream_rx
  assume "rx_drained s"
  then show "stream_read s [] = s"
    by (auto simp: stream_read_def rx_drained_def drain_None)
next
  fix s :: stream_rx and xs :: bytes
  show "rx_drained (stream_read s xs)" if "rx_drained s"
    using that drain_rest [of "feed (rx_dec s) xs"]
    by (auto simp: stream_read_def rx_drained_def case_prod_beta split: option.splits)
next
  fix s :: stream_rx and xs ys :: bytes
  assume "rx_alive_after s xs"
  then show "stream_read s (xs @ ys) = stream_read (stream_read s xs) ys"
    using drain_feed_None [of "feed (rx_dec s) xs" ys]
    by (auto simp: stream_read_def rx_alive_after_def case_prod_beta feed_feed Let_def split: if_splits)
qed

lemma rx_drained_new: "rx_drained new_rx"
  by (simp add: rx_drained_def new_rx_def new_decoder_def next_frame_def STREAM_FRAME_HEADER_BYTES_def)

lemma stream_read_dead: "rx_err s \<noteq> None \<Longrightarrow> foldl stream_read s chunks = s"
  by (induction chunks) (auto simp: stream_read_def)

lemma stream_read_after_err:
  assumes "\<not> rx_alive_after s xs"
  shows "rx_out (stream_read s (xs @ ys)) = rx_out (stream_read s xs)
       \<and> rx_err (stream_read s (xs @ ys)) = rx_err (stream_read s xs)"
  using assms drain_feed_Some [of "feed (rx_dec s) xs" _ ys]
  by (auto simp: stream_read_def rx_alive_after_def case_prod_beta feed_feed Let_def split: if_splits)

lemma stream_read_concat:
  assumes "rx_drained s"
  shows "rx_out (foldl stream_read s chunks) = rx_out (stream_read s (concat chunks))
       \<and> rx_err (foldl stream_read s chunks) = rx_err (stream_read s (concat chunks))"
  using assms
proof (induction chunks arbitrary: s)
  case Nil
  then show ?case by (simp add: rx.step_nil)
next
  case (Cons c cs)
  have d: "rx_drained (stream_read s c)"
    by (rule rx.step_good [OF Cons.prems])
  show ?case
  proof (cases "rx_alive_after s c")
    case True
    with Cons.IH [OF d] Cons.prems show ?thesis by (simp add: rx.step_append)
  next
    case False
    then have "rx_err (stream_read s c) \<noteq> None" by (simp add: rx_alive_after_def)
    with False show ?thesis
      using stream_read_after_err [OF False, of "concat cs"] by (simp add: stream_read_dead)
  qed
qed

lemma drain_wires:
  "\<forall>f \<in> set fs. frame_fits f \<Longrightarrow>
     drain_frames \<lparr>dec_buf = concat (map frame_wire fs)\<rparr> = (fs, new_decoder, None)"
proof (induction fs)
  case Nil
  then show ?case
    by (simp add: drain_None new_decoder_def next_frame_def STREAM_FRAME_HEADER_BYTES_def)
next
  case (Cons f fs)
  then show ?case
    using next_frame_whole [of f "concat (map frame_wire fs)"] by (simp add: drain_Some)
qed

subsection \<open>Properties\<close>

definition enc_frames :: "stream_frame list \<Rightarrow> bytes list \<Rightarrow> bool" where
  "enc_frames fs ws \<longleftrightarrow>
     list_all2 (\<lambda>f w. is_str (fr_session_id f) \<and> to_bytes f = Ok w) fs ws"

lemma enc_framesD:
  "enc_frames fs ws \<Longrightarrow> ws = map frame_wire fs \<and> (\<forall>f \<in> set fs. frame_fits f)"
  unfolding enc_frames_def
  by (induction fs ws rule: list_all2_induct) (auto simp: to_bytes_Ok_iff frame_fits_def)


definition sample_frames :: "stream_frame list" where
  "sample_frames = [data_frame ''s'' 3 (bytes_of ''abc''), resize_frame ''s'' 3 80 24]"

lemma sample_frames_encode: "enc_frames sample_frames (map frame_wire sample_frames)"
  by (simp add: enc_frames_def sample_frames_def to_bytes_Ok_iff data_frame_def resize_frame_def
      is_str_def utf8_valid_ascii bytes_of_def MAX_STREAM_FRAME_PAYLOAD_def)


text \<open>
  For any byte stream, well-formed or not, the frames delivered and the error that
  ends the loop depend on the bytes only and not on where the reads cut them.
\<close>

theorem stream_chunking:
  assumes "concat chunks = concat chunks'"
  shows "rx_out (foldl stream_read new_rx chunks) = rx_out (foldl stream_read new_rx chunks')
       \<and> rx_err (foldl stream_read new_rx chunks) = rx_err (foldl stream_read new_rx chunks')"
  using assms stream_read_concat [OF rx_drained_new, of chunks]
    stream_read_concat [OF rx_drained_new, of chunks'] by simp

theorem stream_chunking_witness:
  "rx_err (foldl stream_read new_rx [bytes_of ''GCKX'', bytes_of ''0123456789abcdef'']) =
   rx_err (foldl stream_read new_rx [bytes_of ''GCKX0123456789abcdef''])"
proof -
  have "concat [bytes_of ''GCKX'', bytes_of ''0123456789abcdef''] = concat [bytes_of ''GCKX0123456789abcdef'']"
    by (simp add: bytes_of_def)
  from stream_chunking [OF this] show ?thesis by blast
qed

text \<open>
  The decoder is canonical: it yields a frame exactly when its buffer starts with the
  bytes \<open>to_bytes\<close> gives for that frame (a session id that is valid UTF-8, both lengths
  within the caps), and it consumes exactly those bytes.
\<close>

theorem decoder_canonical:
  "next_frame d = (Ok (Some f), d') \<longleftrightarrow>
     (\<exists>w. to_bytes f = Ok w \<and> is_str (fr_session_id f) \<and> dec_buf d = w @ dec_buf d')"
  by (auto simp: next_frame_Some_iff to_bytes_Ok_iff frame_fits_def)

lemma next_frame_None_bound:
  "next_frame d = (Ok None, d') \<Longrightarrow> length (dec_buf d) < 19 + 4096 + MAX_STREAM_FRAME_PAYLOAD"
  by (auto simp: next_frame_def Let_def STREAM_FRAME_HEADER_BYTES_def MAX_SESSION_ID_BYTES_def
      word_less_nat_alt not_less split: if_splits option.splits)

text \<open>
  A corrupt or hostile length prefix cannot make a live reader hold more than one
  maximal frame: after any sequence of reads that raised no error the decoder buffers less
  than a header, a maximal session id and a maximal payload.
\<close>

theorem decoder_bounded:
  assumes "rx_err (foldl stream_read new_rx chunks) = None"
  shows "buffered_len (rx_dec (foldl stream_read new_rx chunks)) < 16781331"
proof -
  have "rx_drained (foldl stream_read new_rx chunks)"
    by (rule rx.fold_good [OF rx_drained_new])
  with assms have "next_frame (rx_dec (foldl stream_read new_rx chunks)) =
      (Ok None, rx_dec (foldl stream_read new_rx chunks))"
    by (simp add: rx_drained_def)
  from next_frame_None_bound [OF this] show ?thesis
    by (simp add: buffered_len_def MAX_STREAM_FRAME_PAYLOAD_def)
qed

theorem decoder_bounded_witness:
  "buffered_len (rx_dec (foldl stream_read new_rx [bytes_of ''GCKL''])) < 16781331"
proof -
  have "rx_err (foldl stream_read new_rx [bytes_of ''GCKL'']) = None"
    by (simp add: stream_read_def new_rx_def feed_def new_decoder_def next_frame_def drain_None
        STREAM_FRAME_HEADER_BYTES_def)
  then show ?thesis by (rule decoder_bounded)
qed

text \<open>A decode error is sticky: the buffer is left alone and more input does not clear it.\<close>

lemma decoder_error_sticky:
  "next_frame d = (Err e, d') \<Longrightarrow> d' = d \<and> next_frame (feed d bs) = (Err e, feed d bs)"
  using next_frame_ErrD [of d e d'] next_frame_Err_feed [of d e d' bs] by simp

lemma resize_roundtrip: "as_resize (resize_frame sid seq cols rows) = Some (cols, rows)"
  using u16f.field_read [of cols "u16_to_le rows"]
    u16f.field_read_at [of "u16_to_le cols" 2 rows "[]"]
  by (simp add: as_resize_def resize_frame_def)

lemma exit_roundtrip:
  "from_json (to_json st) = Some st \<Longrightarrow> as_exit from_json (exit_frame to_json sid seq st) = Some st"
  by (simp add: as_exit_def exit_frame_def)

text \<open>The sequence numbers a tracker accepts, in order.\<close>

fun accepted :: "seq_tracker \<Rightarrow> u64 list \<Rightarrow> u64 list" where
  "accepted t [] = []"
| "accepted t (s # ss) =
     (case observe t s of (ok, t') \<Rightarrow> (if ok then [s] else []) @ accepted t' ss)"

lemma accepted_lower:
  "st_last t = Some l \<Longrightarrow> x \<in> set (accepted t ss) \<Longrightarrow> l \<le> x"
proof (induction ss arbitrary: t l)
  case (Cons s ss)
  show ?case
  proof (cases "l \<le> s")
    case True
    with Cons.prems have "x = s \<or> x \<in> set (accepted (t\<lparr>st_last := Some s\<rparr>) ss)"
      by (simp add: observe_def seq_is_monotonic_def)
    with True Cons.IH [of "t\<lparr>st_last := Some s\<rparr>" s] show ?thesis by auto
  next
    case False
    with Cons show ?thesis by (simp add: observe_def seq_is_monotonic_def)
  qed
qed simp

lemma accepted_sorted: "sorted (accepted t ss)"
proof (induction ss arbitrary: t)
  case (Cons s ss)
  then show ?case
    using accepted_lower [of "t\<lparr>st_last := Some s\<rparr>" s _ ss]
    by (auto simp: observe_def Let_def)
qed simp

lemma observe_reject: "\<not> fst (observe t s) \<Longrightarrow> snd (observe t s) = t"
  by (simp add: observe_def Let_def)

end
