(* ===== verification/ModeState.thy ===== *)
theory ModeState
  imports Utf8
begin

text \<open>
  The terminal mode tracker of \<open>grove-daemon/src/mode_state.rs\<close>: the byte automaton that follows
  escape sequences across chunk boundaries, the modes it keeps, and the split points it
  reports to the emulator. \<open>walk_loop\<close>, \<open>step_byte\<close> and \<open>esc_follower\<close> keep the index arithmetic of
  the source; the automaton \<open>vt_step\<close> below them is the specification they refine, and the
  fold-safety of \<open>scan\<close> is proved on it.
\<close>

unbundle bit_operations_syntax

subsection \<open>Constants and types\<close>

definition MAX_PARTIAL_ESCAPE_TAIL :: nat where
  "MAX_PARTIAL_ESCAPE_TAIL = 4096"

definition KITTY_STACK_CAP :: nat where
  "KITTY_STACK_CAP = 16"

abbreviation ESC :: u8 where "ESC \<equiv> 0x1b"
abbreviation CAN :: u8 where "CAN \<equiv> 0x18"
abbreviation SUB :: u8 where "SUB \<equiv> 0x1a"
abbreviation BEL :: u8 where "BEL \<equiv> 0x07"
abbreviation ST_FINAL :: u8 where "ST_FINAL \<equiv> 0x5c"

datatype split = SnapshotPrimary | CaptureSavedCursor

datatype scan_state =
    Ground
  | Esc
  | EscIntermediate
  | Csi
  | Osc
  | OscEsc
  | Str
  | StrEsc

record mode_state =
  ms_scan_tail :: bytes
  ms_focus :: bool
  ms_sgr_pixels :: bool
  ms_alt :: bool
  ms_kitty_stack :: "u32 list"
  ms_cwd :: "string option"
  ms_title :: "string option"
  ms_scroll_region :: "(u16 \<times> u16) option"
  ms_bell_count :: u32

definition new_modes :: mode_state where
  "new_modes =
     \<lparr>ms_scan_tail = [], ms_focus = False, ms_sgr_pixels = False, ms_alt = False,
      ms_kitty_stack = [], ms_cwd = None, ms_title = None, ms_scroll_region = None,
      ms_bell_count = 0\<rparr>"

definition kitty_flags :: "mode_state \<Rightarrow> u32" where
  "kitty_flags m = (if ms_kitty_stack m = [] then 0 else last (ms_kitty_stack m))"

definition take_bells :: "mode_state \<Rightarrow> u32 \<times> mode_state" where
  "take_bells m = (ms_bell_count m, m\<lparr>ms_bell_count := 0\<rparr>)"

text \<open>\<open>ChunkMap\<close>: an index into the parked tail followed by the chunk, as a chunk offset.\<close>

record chunk_map =
  old_tail_len :: nat
  chunk_len :: nat

definition offset :: "chunk_map \<Rightarrow> nat \<Rightarrow> nat" where
  "offset cm idx = min (idx - old_tail_len cm) (chunk_len cm)"

definition count_bel :: "bytes \<Rightarrow> u32" where
  "count_bel run = word_of_nat (length (filter (\<lambda>b. b = BEL) run))"

subsection \<open>Numeric parameters\<close>

text \<open>
  \<open>str::parse::<u32>\<close>: an optional plus sign, then at least one decimal digit and nothing
  else, with a value below 2 to the 32. Bytes that are not UTF-8 are no digits, so the
  \<open>from_utf8\<close> of the source adds no case.
\<close>

definition is_digit :: "u8 \<Rightarrow> bool" where
  "is_digit b \<longleftrightarrow> 0x30 \<le> b \<and> b \<le> 0x39"

definition decimal_val :: "bytes \<Rightarrow> nat" where
  "decimal_val ds = foldl (\<lambda>v d. 10 * v + unat (d - 0x30)) 0 ds"

definition parse_u32 :: "bytes \<Rightarrow> u32 option" where
  "parse_u32 bs =
     (let ds = (case bs of [] \<Rightarrow> [] | c # r \<Rightarrow> if c = 0x2b then r else bs) in
      if ds = [] \<or> \<not> list_all is_digit ds then None
      else if decimal_val ds < 2 ^ 32 then Some (word_of_nat (decimal_val ds)) else None)"

fun split_on :: "u8 \<Rightarrow> bytes \<Rightarrow> bytes list" where
  "split_on sep [] = [[]]"
| "split_on sep (b # bs) =
     (if b = sep then [] # split_on sep bs
      else case split_on sep bs of [] \<Rightarrow> [[b]] | p # ps \<Rightarrow> (b # p) # ps)"

definition split_params :: "bytes \<Rightarrow> u32 list" where
  "split_params params =
     List.map_filter (\<lambda>p. if p = [] then None else parse_u32 p) (split_on 0x3b params)"

text \<open>\<open>Iterator::next\<close> on what \<open>split_params\<close> yields, first and second call.\<close>

fun nth_param :: "nat \<Rightarrow> u32 list \<Rightarrow> u32 option" where
  "nth_param n [] = None"
| "nth_param 0 (p # ps) = Some p"
| "nth_param (Suc n) (p # ps) = nth_param n ps"

subsection \<open>CSI dispatch\<close>

type_synonym splits = "(nat \<times> split) list"

definition decset :: "bool \<Rightarrow> nat \<Rightarrow> mode_state \<times> splits \<Rightarrow> u32 \<Rightarrow> mode_state \<times> splits" where
  "decset enabled chunk_start mo p =
     (let (m, out) = mo in
      if p = 1004 then (m\<lparr>ms_focus := enabled\<rparr>, out)
      else if p = 1016 then (m\<lparr>ms_sgr_pixels := enabled\<rparr>, out)
      else if p = 1049 \<or> p = 47 \<or> p = 1047 then
        (m\<lparr>ms_alt := enabled, ms_scroll_region := None\<rparr>,
         if enabled \<and> \<not> ms_alt m then out @ [(chunk_start, SnapshotPrimary)] else out)
      else (m, out))"

definition kitty_push :: "u32 \<Rightarrow> mode_state \<Rightarrow> mode_state" where
  "kitty_push flags m =
     (if length (ms_kitty_stack m) < KITTY_STACK_CAP
      then m\<lparr>ms_kitty_stack := ms_kitty_stack m @ [flags]\<rparr> else m)"

definition kitty_pop :: "nat \<Rightarrow> mode_state \<Rightarrow> mode_state" where
  "kitty_pop n m = m\<lparr>ms_kitty_stack := (butlast ^^ n) (ms_kitty_stack m)\<rparr>"

definition kitty_set :: "u32 \<Rightarrow> u32 \<Rightarrow> mode_state \<Rightarrow> mode_state" where
  "kitty_set flags mode m =
     (let cur = kitty_flags m;
          nxt = (if mode = 2 then cur OR flags
                 else if mode = 3 then cur AND NOT flags
                 else flags)
      in if ms_kitty_stack m = [] then m\<lparr>ms_kitty_stack := [nxt]\<rparr>
         else m\<lparr>ms_kitty_stack := butlast (ms_kitty_stack m) @ [nxt]\<rparr>)"

definition decstbm :: "u32 list \<Rightarrow> (u16 \<times> u16) option" where
  "decstbm ps =
     (case (nth_param 0 ps, nth_param 1 ps) of
        (Some t, Some b) \<Rightarrow> if 1 \<le> t \<and> t < b then Some (ucast t, ucast b) else None
      | _ \<Rightarrow> None)"

definition apply_csi ::
  "u8 option \<Rightarrow> bytes \<Rightarrow> u8 \<Rightarrow> nat \<Rightarrow> nat \<Rightarrow> mode_state \<times> splits \<Rightarrow> mode_state \<times> splits" where
  "apply_csi marker params final chunk_start chunk_end mo =
     (let (m, out) = mo; ps = split_params params in
      if marker = Some 0x3f \<and> (final = 0x68 \<or> final = 0x6c) then
        foldl (decset (final = 0x68) chunk_start) (m, out) ps
      else if marker = Some 0x3e \<and> final = 0x75 then
        (kitty_push (unwrap_or 0 (nth_param 0 ps)) m, out)
      else if marker = Some 0x3c \<and> final = 0x75 then
        (kitty_pop (unat (max (unwrap_or 1 (nth_param 0 ps)) 1)) m, out)
      else if marker = Some 0x3d \<and> final = 0x75 then
        (kitty_set (unwrap_or 0 (nth_param 0 ps)) (unwrap_or 1 (nth_param 1 ps)) m, out)
      else if marker = None \<and> final = 0x72 then
        (m\<lparr>ms_scroll_region := decstbm ps\<rparr>, out)
      else if marker = None \<and> final = 0x73 \<and> params = [] then
        (m, out @ [(chunk_end, CaptureSavedCursor)])
      else (m, out))"

subsection \<open>OSC dispatch\<close>

definition hex_digit :: "u8 \<Rightarrow> u8 option" where
  "hex_digit b =
     (if 0x30 \<le> b \<and> b \<le> 0x39 then Some (b - 0x30)
      else if 0x61 \<le> b \<and> b \<le> 0x66 then Some (b - 0x61 + 10)
      else if 0x41 \<le> b \<and> b \<le> 0x46 then Some (b - 0x41 + 10)
      else None)"

fun percent_decode_bytes :: "bytes \<Rightarrow> bytes" where
  "percent_decode_bytes [] = []"
| "percent_decode_bytes [b] = [b]"
| "percent_decode_bytes [b, c] = b # percent_decode_bytes [c]"
| "percent_decode_bytes (b # h # l # r) =
     (case (hex_digit h, hex_digit l) of
        (Some hi, Some lo) \<Rightarrow>
          if b = 0x25 then (hi * 16 + lo) # percent_decode_bytes r
          else b # percent_decode_bytes (h # l # r)
      | _ \<Rightarrow> b # percent_decode_bytes (h # l # r))"

definition osc_percent_decode :: "string \<Rightarrow> string" where
  "osc_percent_decode s = from_utf8_lossy (percent_decode_bytes (bytes_of s))"

fun strip_prefix :: "'a list \<Rightarrow> 'a list \<Rightarrow> 'a list option" where
  "strip_prefix [] s = Some s"
| "strip_prefix (p # ps) [] = None"
| "strip_prefix (p # ps) (c # s) = (if p = c then strip_prefix ps s else None)"

definition parse_osc7_cwd :: "bytes \<Rightarrow> string option" where
  "parse_osc7_cwd pt =
     (let s = from_utf8_lossy pt in
      case (case strip_prefix ''file://'' s of
              Some rest \<Rightarrow>
                (let path = dropWhile (\<lambda>c. c \<noteq> CHR ''/'') rest in
                 if path = [] then None else Some path)
            | None \<Rightarrow> Some s) of
        None \<Rightarrow> None
      | Some path \<Rightarrow>
          (let decoded = osc_percent_decode path in
           if decoded = [] then None else Some decoded))"

definition apply_osc :: "bytes \<Rightarrow> mode_state \<Rightarrow> mode_state" where
  "apply_osc payload m =
     (let ps = takeWhile (\<lambda>b. b \<noteq> 0x3b) payload in
      if length ps = length payload then m
      else
        let pt = drop (Suc (length ps)) payload in
        if ps = [0x30] \<or> ps = [0x32] then m\<lparr>ms_title := Some (from_utf8_lossy pt)\<rparr>
        else if ps = [0x37] then
          (case parse_osc7_cwd pt of
             Some cwd \<Rightarrow> m\<lparr>ms_cwd := Some cwd\<rparr>
           | None \<Rightarrow> m)
        else m)"

subsection \<open>The scanner\<close>

text \<open>The loop variables of \<open>walk\<close>, with \<open>self\<close> and \<open>out\<close>.\<close>

record walk =
  w_state :: scan_state
  w_seq :: nat
  w_body :: nat
  w_modes :: mode_state
  w_splits :: splits

definition reset_modes :: "mode_state \<Rightarrow> mode_state" where
  "reset_modes m =
     m\<lparr>ms_focus := False, ms_sgr_pixels := False, ms_kitty_stack := [], ms_alt := False,
       ms_scroll_region := None\<rparr>"

definition esc_follower :: "u8 \<Rightarrow> nat \<Rightarrow> chunk_map \<Rightarrow> walk \<Rightarrow> walk" where
  "esc_follower code i cm w =
     (if code = ESC then w\<lparr>w_seq := i, w_state := Esc\<rparr>
      else if code = CAN \<or> code = SUB then w\<lparr>w_state := Ground\<rparr>
      else if code = 0x5b then w\<lparr>w_body := i + 1, w_state := Csi\<rparr>
      else if code = 0x5d then w\<lparr>w_body := i + 1, w_state := Osc\<rparr>
      else if code = 0x50 \<or> code = 0x58 \<or> code = 0x5e \<or> code = 0x5f then w\<lparr>w_state := Str\<rparr>
      else if 0x20 \<le> code \<and> code \<le> 0x2f then w\<lparr>w_state := EscIntermediate\<rparr>
      else if code = 0x63 then w\<lparr>w_modes := reset_modes (w_modes w), w_state := Ground\<rparr>
      else if code = 0x37 then
        w\<lparr>w_splits := w_splits w @ [(offset cm (i + 1), CaptureSavedCursor)], w_state := Ground\<rparr>
      else if code < 0x20 \<or> code = 0x7f then w\<lparr>w_state := Esc\<rparr>
      else w\<lparr>w_state := Ground\<rparr>)"

definition csi_body :: "bytes \<Rightarrow> u8 option \<times> bytes" where
  "csi_body body =
     (case body of
        m # r \<Rightarrow> if 0x3c \<le> m \<and> m \<le> 0x3f then (Some m, r) else (None, body)
      | [] \<Rightarrow> (None, body))"

definition step_byte :: "bytes \<Rightarrow> chunk_map \<Rightarrow> nat \<Rightarrow> walk \<Rightarrow> walk" where
  "step_byte bs cm i w =
     (let code = bs ! i in
      case w_state w of
        Ground \<Rightarrow> w
      | Esc \<Rightarrow> esc_follower code i cm w
      | EscIntermediate \<Rightarrow>
          if code = ESC then w\<lparr>w_seq := i, w_state := Esc\<rparr>
          else if code = CAN \<or> code = SUB then w\<lparr>w_state := Ground\<rparr>
          else if 0x30 \<le> code \<and> code \<le> 0x7e then w\<lparr>w_state := Ground\<rparr>
          else w\<lparr>w_state := EscIntermediate\<rparr>
      | Csi \<Rightarrow>
          if code = ESC then w\<lparr>w_seq := i, w_state := Esc\<rparr>
          else if code = CAN \<or> code = SUB then w\<lparr>w_state := Ground\<rparr>
          else if 0x40 \<le> code \<and> code \<le> 0x7e then
            let (marker, params) = csi_body (slice (w_body w) i bs);
                (m, out) = apply_csi marker params code (offset cm (w_seq w)) (offset cm (i + 1))
                             (w_modes w, w_splits w)
            in w\<lparr>w_modes := m, w_splits := out, w_state := Ground\<rparr>
          else w\<lparr>w_state := Csi\<rparr>
      | Osc \<Rightarrow>
          if code = BEL \<or> code = CAN \<or> code = SUB then
            w\<lparr>w_modes := apply_osc (slice (w_body w) i bs) (w_modes w), w_state := Ground\<rparr>
          else if code = ESC then w\<lparr>w_state := OscEsc\<rparr>
          else w\<lparr>w_state := Osc\<rparr>
      | OscEsc \<Rightarrow>
          let w' = w\<lparr>w_modes := apply_osc (slice (w_body w) (i - 1) bs) (w_modes w)\<rparr> in
          if code = ST_FINAL then w'\<lparr>w_state := Ground\<rparr>
          else esc_follower code i cm (w'\<lparr>w_seq := i - 1\<rparr>)
      | Str \<Rightarrow>
          if code = CAN \<or> code = SUB then w\<lparr>w_state := Ground\<rparr>
          else if code = ESC then w\<lparr>w_state := StrEsc\<rparr>
          else w\<lparr>w_state := Str\<rparr>
      | StrEsc \<Rightarrow>
          if code = ST_FINAL then w\<lparr>w_state := Ground\<rparr>
          else esc_follower code i cm (w\<lparr>w_seq := i - 1\<rparr>))"

definition add_bells :: "bytes \<Rightarrow> mode_state \<Rightarrow> mode_state" where
  "add_bells run m = m\<lparr>ms_bell_count := ms_bell_count m + count_bel run\<rparr>"

text \<open>
  The loop of \<open>walk\<close>: in the ground state it jumps to the next ESC, counting the bells it
  passes. The result is the index of the still pending sequence and the loop variables.
\<close>

function walk_loop :: "bytes \<Rightarrow> chunk_map \<Rightarrow> nat \<Rightarrow> walk \<Rightarrow> nat \<times> walk" where
  "walk_loop bs cm i w =
     (if i < length bs then
        if w_state w = Ground then
          let run = takeWhile (\<lambda>b. b \<noteq> ESC) (drop i bs);
              w' = w\<lparr>w_modes := add_bells run (w_modes w)\<rparr>
          in if i + length run < length bs
             then walk_loop bs cm (i + length run + 1)
                    (w'\<lparr>w_seq := i + length run, w_state := Esc\<rparr>)
             else (length bs, w')
        else walk_loop bs cm (i + 1) (step_byte bs cm i w)
      else (if w_state w = Ground then length bs else w_seq w, w))"
  by pat_completeness auto
termination
  by (relation "measure (\<lambda>(bs, cm, i, w). length bs - i)") auto

declare walk_loop.simps [simp del]

definition init_walk :: "mode_state \<Rightarrow> walk" where
  "init_walk m = \<lparr>w_state = Ground, w_seq = 0, w_body = 0, w_modes = m, w_splits = []\<rparr>"

definition scan :: "mode_state \<Rightarrow> bytes \<Rightarrow> mode_state \<times> splits" where
  "scan m chunk =
     (let cm = \<lparr>old_tail_len = length (ms_scan_tail m), chunk_len = length chunk\<rparr>;
          combined = ms_scan_tail m @ chunk;
          (pending_start, w) = walk_loop combined cm 0 (init_walk (m\<lparr>ms_scan_tail := []\<rparr>));
          rest = drop pending_start combined;
          tail = (if MAX_PARTIAL_ESCAPE_TAIL < length rest then [] else rest)
      in ((w_modes w)\<lparr>ms_scan_tail := tail\<rparr>, w_splits w))"

subsection \<open>The automaton behind the scanner\<close>

text \<open>
  The specification \<open>walk\<close> refines: a machine over single bytes with no indices. \<open>v_pend\<close> is the
  pending sequence, \<open>v_body\<close> the CSI parameters or OSC payload read so far.
\<close>

record vt =
  v_state :: scan_state
  v_pend :: bytes
  v_body :: bytes
  v_modes :: mode_state

definition vt0 :: "mode_state \<Rightarrow> vt" where
  "vt0 m = \<lparr>v_state = Ground, v_pend = [], v_body = [], v_modes = m\<rparr>"

definition vt_esc :: "mode_state \<Rightarrow> vt" where
  "vt_esc m = \<lparr>v_state = Esc, v_pend = [ESC], v_body = [], v_modes = m\<rparr>"

definition vt_follow :: "u8 \<Rightarrow> vt \<Rightarrow> vt" where
  "vt_follow b v =
     (if b = ESC then vt_esc (v_modes v)
      else if b = CAN \<or> b = SUB then vt0 (v_modes v)
      else if b = 0x5b then v\<lparr>v_pend := v_pend v @ [b], v_body := [], v_state := Csi\<rparr>
      else if b = 0x5d then v\<lparr>v_pend := v_pend v @ [b], v_body := [], v_state := Osc\<rparr>
      else if b = 0x50 \<or> b = 0x58 \<or> b = 0x5e \<or> b = 0x5f then
        v\<lparr>v_pend := v_pend v @ [b], v_state := Str\<rparr>
      else if 0x20 \<le> b \<and> b \<le> 0x2f then v\<lparr>v_pend := v_pend v @ [b], v_state := EscIntermediate\<rparr>
      else if b = 0x63 then vt0 (reset_modes (v_modes v))
      else if b = 0x37 then vt0 (v_modes v)
      else if b < 0x20 \<or> b = 0x7f then v\<lparr>v_pend := v_pend v @ [b], v_state := Esc\<rparr>
      else vt0 (v_modes v))"

definition csi_modes :: "bytes \<Rightarrow> u8 \<Rightarrow> mode_state \<Rightarrow> mode_state" where
  "csi_modes body final m =
     (let (marker, params) = csi_body body in fst (apply_csi marker params final 0 0 (m, [])))"

definition vt_step :: "vt \<Rightarrow> u8 \<Rightarrow> vt" where
  "vt_step v b =
     (let ext = v\<lparr>v_pend := v_pend v @ [b]\<rparr> in
      case v_state v of
        Ground \<Rightarrow> if b = ESC then vt_esc (v_modes v) else vt0 (add_bells [b] (v_modes v))
      | Esc \<Rightarrow> vt_follow b v
      | EscIntermediate \<Rightarrow>
          if b = ESC then vt_esc (v_modes v)
          else if b = CAN \<or> b = SUB \<or> 0x30 \<le> b \<and> b \<le> 0x7e then vt0 (v_modes v)
          else ext
      | Csi \<Rightarrow>
          if b = ESC then vt_esc (v_modes v)
          else if b = CAN \<or> b = SUB then vt0 (v_modes v)
          else if 0x40 \<le> b \<and> b \<le> 0x7e then vt0 (csi_modes (v_body v) b (v_modes v))
          else ext\<lparr>v_body := v_body v @ [b]\<rparr>
      | Osc \<Rightarrow>
          if b = BEL \<or> b = CAN \<or> b = SUB then vt0 (apply_osc (v_body v) (v_modes v))
          else if b = ESC then ext\<lparr>v_state := OscEsc\<rparr>
          else ext\<lparr>v_body := v_body v @ [b]\<rparr>
      | OscEsc \<Rightarrow>
          if b = ST_FINAL then vt0 (apply_osc (v_body v) (v_modes v))
          else vt_follow b (vt_esc (apply_osc (v_body v) (v_modes v)))
      | Str \<Rightarrow>
          if b = CAN \<or> b = SUB then vt0 (v_modes v)
          else if b = ESC then ext\<lparr>v_state := StrEsc\<rparr>
          else ext
      | StrEsc \<Rightarrow>
          if b = ST_FINAL then vt0 (v_modes v) else vt_follow b (vt_esc (v_modes v)))"

definition vt_run :: "vt \<Rightarrow> bytes \<Rightarrow> vt" where
  "vt_run v bs = foldl vt_step v bs"

lemma vt_run_simps [simp]:
  "vt_run v [] = v"
  "vt_run v (b # bs) = vt_run (vt_step v b) bs"
  "vt_run v (as @ bs) = vt_run (vt_run v as) bs"
  by (simp_all add: vt_run_def)

text \<open>The modes a CSI sets depend neither on the offsets nor on the splits collected so far.\<close>

lemma fst_decset: "fst (decset e c (m, out) p) = fst (decset e 0 (m, []) p)"
  by (simp add: decset_def)

lemma fst_foldl_decset: "fst (foldl (decset e c) (m, out) ps) = fst (foldl (decset e 0) (m, []) ps)"
proof (induction ps arbitrary: m out)
  case Nil
  then show ?case by simp
next
  case (Cons p ps)
  obtain m' out' where d: "decset e c (m, out) p = (m', out')" by fastforce
  obtain out2 where d2: "decset e 0 (m, []) p = (m', out2)"
    using fst_decset [of e c m out p] d by (metis fst_conv prod.collapse)
  have "fst (foldl (decset e 0) (m', out2) ps) = fst (foldl (decset e 0) (m', []) ps)"
  proof (induction ps arbitrary: m' out2)
    case Nil
    then show ?case by simp
  next
    case (Cons q qs)
    obtain a x where "decset e 0 (m', out2) q = (a, x)" by fastforce
    moreover obtain y where "decset e 0 (m', []) q = (a, y)"
      using fst_decset [of e 0 m' out2 q] calculation by (metis fst_conv prod.collapse)
    ultimately show ?case using Cons.IH [of a x] Cons.IH [of a y] by simp
  qed
  with d d2 Cons.IH [of m' out'] show ?case by simp
qed

lemma fst_apply_csi: "fst (apply_csi mk ps f cs ce (m, out)) = fst (apply_csi mk ps f 0 0 (m, []))"
proof (cases "mk = Some 0x3f \<and> (f = 0x68 \<or> f = 0x6c)")
  case True
  then show ?thesis
    unfolding apply_csi_def Let_def prod.case if_P [OF True] by (simp only: fst_foldl_decset [of _ cs m out])
next
  case False
  then show ?thesis
    unfolding apply_csi_def Let_def prod.case if_not_P [OF False] by (simp split: if_splits)
qed

subsection \<open>A pending sequence replays from the ground state\<close>

definition canonical :: "vt \<Rightarrow> bool" where
  "canonical v \<longleftrightarrow> (\<forall>m. vt_run (vt0 m) (v_pend v) = v\<lparr>v_modes := m\<rparr>)"

lemma canonical_vt0 [simp]: "canonical (vt0 m)"
  by (simp add: canonical_def vt0_def)

lemma canonical_vt_esc [simp]: "canonical (vt_esc m)"
  by (simp add: canonical_def vt0_def vt_esc_def vt_step_def)

lemma vt_state_simps [simp]:
  "v_state (vt0 m) = Ground" "v_pend (vt0 m) = []" "v_body (vt0 m) = []" "v_modes (vt0 m) = m"
  "v_state (vt_esc m) = Esc" "v_pend (vt_esc m) = [ESC]" "v_body (vt_esc m) = []"
  "v_modes (vt_esc m) = m"
  by (simp_all add: vt0_def vt_esc_def)

lemma canonical_extend:
  assumes "canonical v" and "v_pend v' = v_pend v @ [b]"
    and "\<And>m. vt_step (v\<lparr>v_modes := m\<rparr>) b = v'\<lparr>v_modes := m\<rparr>"
  shows "canonical v'"
  using assms by (simp add: canonical_def)

text \<open>
  Every transition of a pending sequence either ends it (ground), replaces it by a single ESC,
  or extends it by the byte in a way that does not look at the modes.
\<close>

definition shape :: "u8 \<Rightarrow> vt \<Rightarrow> (vt \<Rightarrow> vt) \<Rightarrow> bool" where
  "shape b v f \<longleftrightarrow>
     (\<exists>m. f v = vt0 m) \<or> (\<exists>m. f v = vt_esc m)
     \<or> v_pend (f v) = v_pend v @ [b] \<and> (\<forall>m. f (v\<lparr>v_modes := m\<rparr>) = f v\<lparr>v_modes := m\<rparr>)"

lemma shape_if: "shape b v f \<Longrightarrow> shape b v g \<Longrightarrow> shape b v (\<lambda>v. if c then f v else g v)"
  by (cases c) simp_all

lemma shape_vt0: "shape b v (\<lambda>v. vt0 (h v))"
  by (auto simp: shape_def)

lemma shape_vt_esc: "shape b v (\<lambda>v. vt_esc (h v))"
  by (auto simp: shape_def)

lemma shape_ext:
  "shape b v (\<lambda>v. v\<lparr>v_pend := v_pend v @ [b]\<rparr>)"
  "shape b v (\<lambda>v. v\<lparr>v_pend := v_pend v @ [b], v_state := s\<rparr>)"
  "shape b v (\<lambda>v. v\<lparr>v_pend := v_pend v @ [b], v_body := [], v_state := s\<rparr>)"
  "shape b v (\<lambda>v. v\<lparr>v_pend := v_pend v @ [b], v_body := v_body v @ [b]\<rparr>)"
  by (simp_all add: shape_def)

lemma shape_follow: "shape b v (vt_follow b)"
  unfolding vt_follow_def by (intro shape_if shape_vt0 shape_vt_esc shape_ext)

lemma shape_cong:
  assumes "shape b v g" and "\<And>w. v_state w = v_state v \<Longrightarrow> f w = g w"
  shows "shape b v f"
  using assms by (simp add: shape_def)

lemma shape_step:
  assumes "v_state v \<in> {Esc, EscIntermediate, Csi, Osc, Str}"
  shows "shape b v (\<lambda>v. vt_step v b)"
  using assms
proof (elim insertE emptyE)
  assume "v_state v = Esc"
  then show ?thesis
    by (intro shape_cong [OF shape_follow]) (simp add: vt_step_def)
next
  assume st: "v_state v = EscIntermediate"
  have "shape b v (\<lambda>v. if b = ESC then vt_esc (v_modes v)
      else if b = CAN \<or> b = SUB \<or> 0x30 \<le> b \<and> b \<le> 0x7e then vt0 (v_modes v)
      else v\<lparr>v_pend := v_pend v @ [b]\<rparr>)"
    by (intro shape_if shape_vt0 shape_vt_esc shape_ext)
  with st show ?thesis by (elim shape_cong) (simp add: vt_step_def)
next
  assume st: "v_state v = Csi"
  have "shape b v (\<lambda>v. if b = ESC then vt_esc (v_modes v)
      else if b = CAN \<or> b = SUB then vt0 (v_modes v)
      else if 0x40 \<le> b \<and> b \<le> 0x7e then vt0 (csi_modes (v_body v) b (v_modes v))
      else v\<lparr>v_pend := v_pend v @ [b], v_body := v_body v @ [b]\<rparr>)"
    by (intro shape_if shape_vt0 shape_vt_esc shape_ext)
  with st show ?thesis by (elim shape_cong) (simp add: vt_step_def)
next
  assume st: "v_state v = Osc"
  have "shape b v (\<lambda>v. if b = BEL \<or> b = CAN \<or> b = SUB then vt0 (apply_osc (v_body v) (v_modes v))
      else if b = ESC then v\<lparr>v_pend := v_pend v @ [b], v_state := OscEsc\<rparr>
      else v\<lparr>v_pend := v_pend v @ [b], v_body := v_body v @ [b]\<rparr>)"
    by (intro shape_if shape_vt0 shape_vt_esc shape_ext)
  with st show ?thesis by (elim shape_cong) (simp add: vt_step_def)
next
  assume st: "v_state v = Str"
  have "shape b v (\<lambda>v. if b = CAN \<or> b = SUB then vt0 (v_modes v)
      else if b = ESC then v\<lparr>v_pend := v_pend v @ [b], v_state := StrEsc\<rparr>
      else v\<lparr>v_pend := v_pend v @ [b]\<rparr>)"
    by (intro shape_if shape_vt0 shape_vt_esc shape_ext)
  with st show ?thesis by (elim shape_cong) (simp add: vt_step_def)
qed

lemma canonical_shape:
  assumes "canonical v" and "shape b v (\<lambda>v. vt_step v b)"
  shows "canonical (vt_step v b)"
  using assms by (auto simp: shape_def intro: canonical_extend)

lemma canonical_esc: "canonical v \<Longrightarrow> v_state v = Esc \<Longrightarrow> canonical (vt_follow b v)"
  using canonical_shape [of v b] shape_step [of v b] by (simp add: vt_step_def)

lemma canonical_step:
  assumes "canonical v"
  shows "canonical (vt_step v b)"
proof (cases "v_state v \<in> {Esc, EscIntermediate, Csi, Osc, Str}")
  case True
  then show ?thesis by (intro canonical_shape assms shape_step)
next
  case False
  then show ?thesis
    by (cases "v_state v") (auto simp: vt_step_def canonical_esc)
qed

lemma canonical_run: "canonical v \<Longrightarrow> canonical (vt_run v bs)"
  by (induction bs arbitrary: v) (auto simp: canonical_step)

subsection \<open>The scanner refines the automaton\<close>

text \<open>The loop variables of \<open>walk\<close> at index \<open>i\<close> stand for an automaton state.\<close>

definition tracks :: "bytes \<Rightarrow> nat \<Rightarrow> walk \<Rightarrow> vt \<Rightarrow> bool" where
  "tracks bs i w v \<longleftrightarrow>
     v_state v = w_state w \<and> v_modes v = w_modes w \<and>
     (if w_state w = Ground then v = vt0 (w_modes w)
      else w_seq w < i \<and> v_pend v = slice (w_seq w) i bs) \<and>
     (if w_state w = Csi \<or> w_state w = Osc then w_body w \<le> i \<and> v_body v = slice (w_body w) i bs
      else if w_state w = OscEsc then w_body w < i \<and> v_body v = slice (w_body w) (i - 1) bs
      else v_body v = []) \<and>
     (w_state w = OscEsc \<or> w_state w = StrEsc \<longrightarrow> bs ! (i - 1) = ESC)"

lemma slice_snoc:
  assumes "a \<le> i" and "i < length bs"
  shows "slice a (Suc i) bs = slice a i bs @ [bs ! i]"
  using assms by (simp add: slice_def Suc_diff_le take_Suc_conv_app_nth)

lemma slice_self [simp]: "slice i i bs = []"
  by (simp add: slice_def)

lemma tracks_vt0: "w_state w = Ground \<Longrightarrow> w_modes w = m \<Longrightarrow> tracks bs i w (vt0 m)"
  by (simp add: tracks_def)

lemma tracks_vt_esc:
  assumes "w_state w = Esc" and "w_seq w = i" and "w_modes w = m" and "i < length bs"
    and "bs ! i = ESC"
  shows "tracks bs (Suc i) w (vt_esc m)"
  using assms slice_snoc [of i i bs] by (simp add: tracks_def)

lemma tracks_follow:
  assumes "w_seq w < i" and "v_pend v = slice (w_seq w) i bs" and "v_body v = []"
    and "v_modes v = w_modes w" and "i < length bs"
  shows "tracks bs (Suc i) (esc_follower (bs ! i) i cm w) (vt_follow (bs ! i) v)"
proof (cases "bs ! i = ESC")
  case True
  then show ?thesis
    using assms by (simp add: esc_follower_def vt_follow_def tracks_vt_esc)
next
  case False
  have snoc: "slice (w_seq w) (Suc i) bs = slice (w_seq w) i bs @ [bs ! i]"
    using assms by (simp add: slice_snoc)
  show ?thesis
    unfolding esc_follower_def vt_follow_def if_not_P [OF False]
    using assms snoc by (simp add: tracks_vt0) (simp add: tracks_def)
qed

lemma tracks_step:
  assumes "tracks bs i w v" and "w_state w \<noteq> Ground" and "i < length bs"
  shows "tracks bs (Suc i) (step_byte bs cm i w) (vt_step v (bs ! i))"
proof -
  have seq: "w_seq w < i" and pend: "v_pend v = slice (w_seq w) i bs"
    and st: "v_state v = w_state w" and md: "v_modes v = w_modes w"
    using assms by (auto simp: tracks_def)
  have snoc: "slice (w_seq w) (Suc i) bs = slice (w_seq w) i bs @ [bs ! i]"
    using assms seq by (simp add: slice_snoc)
  have esc: "bs ! (i - 1) = ESC \<Longrightarrow> slice (i - 1) i bs = [ESC]"
    using slice_snoc [of "i - 1" "i - 1" bs] seq assms(3) by simp
  show ?thesis
  proof (cases "w_state w")
    case Ground
    then show ?thesis using assms by simp
  next
    case Esc
    then show ?thesis
      using assms seq pend st md
      by (auto simp: step_byte_def vt_step_def Let_def tracks_def [of bs i] intro!: tracks_follow)
  next
    case EscIntermediate
    then show ?thesis
      using assms seq pend st md snoc
      by (auto simp: step_byte_def vt_step_def Let_def tracks_vt0 tracks_vt_esc) (auto simp: tracks_def)
  next
    case Csi
    then have body: "w_body w \<le> i" "v_body v = slice (w_body w) i bs"
      using assms by (auto simp: tracks_def)
    then have "slice (w_body w) (Suc i) bs = slice (w_body w) i bs @ [bs ! i]"
      using assms(3) by (simp add: slice_snoc)
    moreover obtain mk ps where cb: "csi_body (slice (w_body w) i bs) = (mk, ps)" by fastforce
    moreover obtain m out where
      ap: "apply_csi mk ps (bs ! i) (offset cm (w_seq w)) (offset cm (i + 1))
             (w_modes w, w_splits w) = (m, out)"
      by fastforce
    moreover have "csi_modes (v_body v) (bs ! i) (w_modes w) = m"
      using cb body ap fst_apply_csi [of mk ps "bs ! i" "offset cm (w_seq w)" "offset cm (i + 1)"
          "w_modes w" "w_splits w"]
      by (simp add: csi_modes_def)
    ultimately show ?thesis
      using Csi assms seq pend st md snoc body
      by (auto simp: step_byte_def vt_step_def Let_def tracks_vt0 tracks_vt_esc) (auto simp: tracks_def)
  next
    case Osc
    then have body: "w_body w \<le> i" "v_body v = slice (w_body w) i bs"
      using assms by (auto simp: tracks_def)
    then have "slice (w_body w) (Suc i) bs = slice (w_body w) i bs @ [bs ! i]"
      using assms(3) by (simp add: slice_snoc)
    then show ?thesis
      using Osc assms seq pend st md snoc body
      by (auto simp: step_byte_def vt_step_def Let_def tracks_vt0) (auto simp: tracks_def)
  next
    case OscEsc
    then have "v_body v = slice (w_body w) (i - 1) bs" "bs ! (i - 1) = ESC"
      using assms by (auto simp: tracks_def)
    then show ?thesis
      using OscEsc assms seq st md esc
      by (auto simp: step_byte_def vt_step_def Let_def tracks_vt0 intro!: tracks_follow)
  next
    case Str
    then show ?thesis
      using assms seq pend st md snoc
      by (auto simp: step_byte_def vt_step_def Let_def tracks_vt0) (auto simp: tracks_def)
  next
    case StrEsc
    then have "bs ! (i - 1) = ESC"
      using assms by (auto simp: tracks_def)
    then show ?thesis
      using StrEsc assms seq st md esc
      by (auto simp: step_byte_def vt_step_def Let_def tracks_vt0 intro!: tracks_follow)
  qed
qed

lemma add_bells_Nil [simp]: "add_bells [] m = m"
  by (simp add: add_bells_def count_bel_def)

lemma add_bells_Cons: "add_bells bs (add_bells [b] m) = add_bells (b # bs) m"
  by (simp add: add_bells_def count_bel_def)

lemma vt_run_ground:
  "ESC \<notin> set run \<Longrightarrow> vt_run (vt0 m) run = vt0 (add_bells run m)"
proof (induction run arbitrary: m)
  case Nil
  then show ?case by simp
next
  case (Cons b run)
  then show ?case by (simp add: vt_step_def add_bells_Cons)
qed

lemma takeWhile_ESC_notin: "ESC \<notin> set (takeWhile (\<lambda>b. b \<noteq> ESC) bs)"
  using set_takeWhileD by fastforce

lemma drop_nth_takeWhile:
  assumes "length (takeWhile P xs) < length xs"
  shows "drop (length (takeWhile P xs)) xs
       = xs ! length (takeWhile P xs) # drop (Suc (length (takeWhile P xs))) xs"
  using assms by (simp add: Cons_nth_drop_Suc)

lemma tracks_walk_loop:
  assumes "tracks bs i w v" and "i \<le> length bs" and "walk_loop bs cm i w = (p, w')"
  shows "tracks bs (length bs) w' (vt_run v (drop i bs))
       \<and> p = (if w_state w' = Ground then length bs else w_seq w')"
  using assms
proof (induction bs cm i w arbitrary: v rule: walk_loop.induct)
  case (1 bs cm i w)
  show ?case
  proof (cases "i < length bs")
    case False
    with "1.prems" show ?thesis
      by (subst (asm) walk_loop.simps) (auto split: if_splits)
  next
    case i: True
    show ?thesis
    proof (cases "w_state w = Ground")
      case False
      have "walk_loop bs cm (i + 1) (step_byte bs cm i w) = (p, w')"
        using "1.prems"(3) i False by (subst (asm) walk_loop.simps) simp
      moreover have "tracks bs (i + 1) (step_byte bs cm i w) (vt_step v (bs ! i))"
        using tracks_step [OF "1.prems"(1) False i] by simp
      moreover have "i + 1 \<le> length bs" using i by simp
      ultimately have "tracks bs (length bs) w' (vt_run (vt_step v (bs ! i)) (drop (i + 1) bs))
          \<and> p = (if w_state w' = Ground then length bs else w_seq w')"
        using "1.IH"(2) [OF i False] by blast
      then show ?thesis
        using i by (simp add: Cons_nth_drop_Suc [symmetric])
    next
      case g: True
      define run where "run = takeWhile (\<lambda>b. b \<noteq> ESC) (drop i bs)"
      define w1 where "w1 = w\<lparr>w_modes := add_bells run (w_modes w)\<rparr>"
      have v: "v = vt0 (w_modes w)"
        using "1.prems"(1) g by (simp add: tracks_def)
      have run_v: "vt_run v run = vt0 (add_bells run (w_modes w))"
        unfolding v by (rule vt_run_ground) (simp add: run_def takeWhile_ESC_notin)
      show ?thesis
      proof (cases "i + length run < length bs")
        case False
        then have "length (drop i bs) \<le> length run" using i by simp
        then have "run = drop i bs"
          unfolding run_def by (metis takeWhile_eq_take take_all)
        moreover have "w' = w1" "p = length bs"
          using "1.prems"(3) i g False
          by (subst (asm) walk_loop.simps; simp add: run_def w1_def Let_def)+
        ultimately show ?thesis
          using run_v g by (simp add: w1_def tracks_vt0)
      next
        case k: True
        define w2 where "w2 = w1\<lparr>w_seq := i + length run, w_state := Esc\<rparr>"
        have loop: "walk_loop bs cm (i + length run + 1) w2 = (p, w')"
          using "1.prems"(3) i g k
          by (subst (asm) walk_loop.simps) (simp add: run_def w1_def w2_def Let_def)
        have split: "drop i bs = run @ ESC # drop (i + length run + 1) bs"
          and nth: "bs ! (i + length run) = ESC"
        proof -
          have lt: "length run < length (drop i bs)" using k by simp
          then show e: "bs ! (i + length run) = ESC"
            using nth_length_takeWhile [of "\<lambda>b. b \<noteq> ESC" "drop i bs"] k
            by (simp add: run_def)
          have "run @ drop (length run) (drop i bs) = drop i bs"
            unfolding run_def dropWhile_eq_drop [symmetric] by simp
          then have "drop i bs = run @ drop (i + length run) bs"
            by (simp add: add.commute)
          moreover have "drop (i + length run) bs = ESC # drop (i + length run + 1) bs"
            using Cons_nth_drop_Suc [OF k] e by simp
          ultimately show "drop i bs = run @ ESC # drop (i + length run + 1) bs"
            by simp
        qed
        have "tracks bs (i + length run + 1) w2 (vt_esc (add_bells run (w_modes w)))"
          using nth k by (simp add: w2_def w1_def tracks_vt_esc)
        then have "tracks bs (length bs) w'
            (vt_run (vt_esc (add_bells run (w_modes w))) (drop (i + length run + 1) bs))
            \<and> p = (if w_state w' = Ground then length bs else w_seq w')"
          using "1.IH"(1) [OF i g refl] loop k by (simp add: run_def w2_def w1_def)
        moreover have "vt_step (vt0 m) ESC = vt_esc m" for m
          by (simp add: vt_step_def)
        ultimately show ?thesis
          using split run_v by simp
      qed
    qed
  qed
qed

lemma tracks_end:
  assumes "tracks bs (length bs) w v"
  shows "w_modes w = v_modes v"
    and "drop (if w_state w = Ground then length bs else w_seq w) bs = v_pend v"
  using assms by (auto simp: tracks_def slice_def split: if_splits)

text \<open>The automaton state a tracker stands for, and the tracker an automaton state becomes.\<close>

definition vt_of :: "mode_state \<Rightarrow> vt" where
  "vt_of m = vt_run (vt0 (m\<lparr>ms_scan_tail := []\<rparr>)) (ms_scan_tail m)"

definition park :: "vt \<Rightarrow> mode_state" where
  "park v = (v_modes v)\<lparr>ms_scan_tail :=
     (if MAX_PARTIAL_ESCAPE_TAIL < length (v_pend v) then [] else v_pend v)\<rparr>"

text \<open>The bytes \<open>scan\<close> finds pending at the end of a chunk, before its cap.\<close>

definition scan_rest :: "mode_state \<Rightarrow> bytes \<Rightarrow> bytes" where
  "scan_rest m chunk =
     (let cm = \<lparr>old_tail_len = length (ms_scan_tail m), chunk_len = length chunk\<rparr>;
          combined = ms_scan_tail m @ chunk
      in drop (fst (walk_loop combined cm 0 (init_walk (m\<lparr>ms_scan_tail := []\<rparr>)))) combined)"

lemma scan_refines:
  shows scan_park: "fst (scan m chunk) = park (vt_run (vt_of m) chunk)"
    and scan_rest_pend: "scan_rest m chunk = v_pend (vt_run (vt_of m) chunk)"
proof -
  define bs where "bs = ms_scan_tail m @ chunk"
  define m0 where "m0 = m\<lparr>ms_scan_tail := []\<rparr>"
  obtain p w' where wl: "walk_loop bs \<lparr>old_tail_len = length (ms_scan_tail m), chunk_len = length chunk\<rparr>
      0 (init_walk m0) = (p, w')"
    by fastforce
  have "tracks bs 0 (init_walk m0) (vt0 m0)"
    by (simp add: init_walk_def tracks_vt0)
  from tracks_walk_loop [OF this _ wl]
  have w: "w_modes w' = v_modes (vt_run (vt0 m0) bs)" "drop p bs = v_pend (vt_run (vt0 m0) bs)"
    using tracks_end by auto
  have run: "vt_run (vt0 m0) bs = vt_run (vt_of m) chunk"
    by (simp add: vt_of_def bs_def m0_def)
  have "fst (scan m chunk) = (w_modes w')\<lparr>ms_scan_tail :=
      (if MAX_PARTIAL_ESCAPE_TAIL < length (drop p bs) then [] else drop p bs)\<rparr>"
    using wl by (simp add: scan_def bs_def [symmetric] m0_def Let_def)
  with w run show "fst (scan m chunk) = park (vt_run (vt_of m) chunk)"
    by (simp add: park_def)
  show "scan_rest m chunk = v_pend (vt_run (vt_of m) chunk)"
    using wl w(2) run by (simp add: scan_rest_def bs_def [symmetric] m0_def Let_def)
qed

subsection \<open>Fold safety\<close>

lemma canonical_vt_of: "canonical (vt_of m)"
  by (simp add: vt_of_def canonical_run)

text \<open>A tracker whose tail is the pending sequence it replays to (the fixed point of the source).\<close>

definition parked :: "mode_state \<Rightarrow> bool" where
  "parked m \<longleftrightarrow> vt_of m = (vt_of m)\<lparr>v_pend := ms_scan_tail m, v_modes := m\<lparr>ms_scan_tail := []\<rparr>\<rparr>"

lemma parked_iff: "parked m \<longleftrightarrow> v_pend (vt_of m) = ms_scan_tail m
    \<and> v_modes (vt_of m) = m\<lparr>ms_scan_tail := []\<rparr>"
  unfolding parked_def by (cases "vt_of m") auto

definition tail_free :: "vt \<Rightarrow> bool" where
  "tail_free v \<longleftrightarrow> ms_scan_tail (v_modes v) = []"

lemma tail_decset: "ms_scan_tail (fst (decset e c mo p)) = ms_scan_tail (fst mo)"
  by (cases mo) (simp add: decset_def)

lemma tail_foldl_decset: "ms_scan_tail (fst (foldl (decset e c) mo ps)) = ms_scan_tail (fst mo)"
  by (induction ps arbitrary: mo) (simp_all add: tail_decset)

lemma tail_apply_csi [simp]:
  "ms_scan_tail (fst (apply_csi mk ps f cs ce (m, out))) = ms_scan_tail m"
  by (simp add: apply_csi_def Let_def tail_foldl_decset kitty_push_def kitty_pop_def kitty_set_def)

lemma tail_apply_osc [simp]: "ms_scan_tail (apply_osc p m) = ms_scan_tail m"
  by (simp add: apply_osc_def Let_def split: option.split)

lemma tail_simps [simp]:
  "ms_scan_tail (add_bells r m) = ms_scan_tail m"
  "ms_scan_tail (reset_modes m) = ms_scan_tail m"
  "ms_scan_tail (csi_modes body f m) = ms_scan_tail m"
  by (simp_all add: add_bells_def reset_modes_def csi_modes_def split: prod.split)

lemma tail_follow: "ms_scan_tail (v_modes (vt_follow b v)) = ms_scan_tail (v_modes v)"
  by (simp add: vt_follow_def)

lemma tail_free_step: "tail_free v \<Longrightarrow> tail_free (vt_step v b)"
  by (cases "v_state v") (simp_all add: tail_free_def vt_step_def Let_def tail_follow)

lemma tail_free_run: "tail_free v \<Longrightarrow> tail_free (vt_run v bs)"
  by (induction bs arbitrary: v) (simp_all add: tail_free_step)

lemma tail_free_vt_of: "tail_free (vt_of m)"
  unfolding vt_of_def by (rule tail_free_run) (simp add: tail_free_def)

lemma tail_nil_id: "ms_scan_tail m = [] \<Longrightarrow> m\<lparr>ms_scan_tail := []\<rparr> = m"
  by (cases m) simp

lemma vt_of_park:
  assumes "canonical v" and "tail_free v" and "length (v_pend v) \<le> MAX_PARTIAL_ESCAPE_TAIL"
  shows "vt_of (park v) = v"
proof -
  have "vt_of (park v) = vt_run (vt0 (v_modes v)) (v_pend v)"
    using assms by (simp add: vt_of_def park_def tail_free_def tail_nil_id)
  also have "\<dots> = v"
    using assms(1) by (simp add: canonical_def)
  finally show ?thesis .
qed

lemma parked_park:
  assumes "canonical v" and "tail_free v"
  shows "parked (park v)"
proof (cases "length (v_pend v) \<le> MAX_PARTIAL_ESCAPE_TAIL")
  case True
  then show ?thesis
    using vt_of_park [OF assms] assms(2) by (simp add: parked_iff park_def tail_free_def)
next
  case False
  then show ?thesis by (simp add: parked_iff park_def vt_of_def)
qed

lemma park_vt_of: "parked m \<Longrightarrow> length (ms_scan_tail m) \<le> MAX_PARTIAL_ESCAPE_TAIL \<Longrightarrow> park (vt_of m) = m"
  by (simp add: parked_iff park_def)

definition feed_modes :: "mode_state \<Rightarrow> bytes \<Rightarrow> mode_state" where
  "feed_modes m chunk = fst (scan m chunk)"

definition within_cap :: "mode_state \<Rightarrow> bytes \<Rightarrow> bool" where
  "within_cap m chunk \<longleftrightarrow> length (scan_rest m chunk) \<le> MAX_PARTIAL_ESCAPE_TAIL"

interpretation modes: chunk_fold feed_modes
  "\<lambda>m. parked m \<and> length (ms_scan_tail m) \<le> MAX_PARTIAL_ESCAPE_TAIL" within_cap
proof
  fix m assume "parked m \<and> length (ms_scan_tail m) \<le> MAX_PARTIAL_ESCAPE_TAIL"
  then show "feed_modes m [] = m"
    by (simp add: feed_modes_def scan_park park_vt_of)
next
  fix m xs
  show "parked (feed_modes m xs) \<and> length (ms_scan_tail (feed_modes m xs)) \<le> MAX_PARTIAL_ESCAPE_TAIL"
    by (simp add: feed_modes_def scan_park parked_park canonical_run canonical_vt_of tail_free_run
        tail_free_vt_of) (simp add: park_def)
next
  fix m xs ys assume "within_cap m xs"
  then have "vt_of (park (vt_run (vt_of m) xs)) = vt_run (vt_of m) xs"
    by (intro vt_of_park) (simp_all add: canonical_run canonical_vt_of tail_free_run tail_free_vt_of
        within_cap_def scan_rest_pend)
  then show "feed_modes m (xs @ ys) = feed_modes (feed_modes m xs) ys"
    by (simp add: feed_modes_def scan_park)
qed

subsection \<open>Split points\<close>

lemma offset_mono: "i \<le> j \<Longrightarrow> offset cm i \<le> offset cm j"
  by (simp add: offset_def)

text \<open>
  The splits collected so far are in ascending order and none lies beyond the offset the loop
  has committed to: the start of the pending sequence, or the current index.
\<close>

definition splits_to :: "nat \<Rightarrow> splits \<Rightarrow> bool" where
  "splits_to n out \<longleftrightarrow> sorted (map fst out) \<and> (\<forall>x \<in> set out. fst x \<le> n)"

lemma splits_to_mono: "splits_to n out \<Longrightarrow> n \<le> k \<Longrightarrow> splits_to k out"
  by (auto simp: splits_to_def)

lemma splits_to_snoc: "splits_to n out \<Longrightarrow> n \<le> k \<Longrightarrow> splits_to k (out @ [(k, s)])"
  by (auto simp: splits_to_def sorted_append)

lemma splits_to_decset:
  "splits_to c (snd mo) \<Longrightarrow> splits_to c (snd (decset e c mo p))"
  by (cases mo) (auto simp: decset_def splits_to_snoc)

lemma splits_to_foldl_decset:
  "splits_to c (snd mo) \<Longrightarrow> splits_to c (snd (foldl (decset e c) mo ps))"
  by (induction ps arbitrary: mo) (simp_all add: splits_to_decset)

lemma splits_to_apply_csi:
  assumes "splits_to cs out" and "cs \<le> ce"
  shows "splits_to ce (snd (apply_csi mk ps f cs ce (m, out)))"
proof (cases "mk = Some 0x3f \<and> (f = 0x68 \<or> f = 0x6c)")
  case True
  have "splits_to cs (snd (foldl (decset (f = 0x68) cs) (m, out) (split_params ps)))"
    using assms(1) by (intro splits_to_foldl_decset) simp
  with True assms(2) show ?thesis
    unfolding apply_csi_def Let_def prod.case if_P [OF True] by (blast intro: splits_to_mono)
next
  case False
  from assms have "splits_to ce out" "splits_to ce (out @ [(ce, CaptureSavedCursor)])"
    by (blast intro: splits_to_mono splits_to_snoc)+
  then show ?thesis
    unfolding apply_csi_def Let_def prod.case if_not_P [OF False] by simp
qed

definition committed :: "chunk_map \<Rightarrow> nat \<Rightarrow> walk \<Rightarrow> bool" where
  "committed cm i w \<longleftrightarrow>
     (w_state w \<noteq> Ground \<longrightarrow> w_seq w < i) \<and>
     splits_to (offset cm (if w_state w = Ground then i else w_seq w)) (w_splits w)"

lemma committed_ground:
  "w_state w = Ground \<Longrightarrow> committed cm i w \<longleftrightarrow> splits_to (offset cm i) (w_splits w)"
  by (simp add: committed_def)

lemma committed_pending:
  "w_state w \<noteq> Ground \<Longrightarrow>
   committed cm i w \<longleftrightarrow> w_seq w < i \<and> splits_to (offset cm (w_seq w)) (w_splits w)"
  by (simp add: committed_def)

lemma committed_follow:
  assumes "w_seq w < i" and "splits_to (offset cm (w_seq w)) (w_splits w)"
  shows "committed cm (Suc i) (esc_follower b i cm w)"
proof -
  have "splits_to (offset cm (Suc i)) (w_splits w)" "splits_to (offset cm i) (w_splits w)"
    "splits_to (offset cm (Suc i)) (w_splits w @ [(offset cm (Suc i), CaptureSavedCursor)])"
    using assms by (auto intro!: offset_mono splits_to_snoc elim!: splits_to_mono)
  with assms show ?thesis
    by (simp add: committed_def esc_follower_def)
qed

lemma committed_step:
  assumes "committed cm i w" and st: "w_state w \<noteq> Ground"
  shows "committed cm (Suc i) (step_byte bs cm i w)"
proof -
  have seq: "w_seq w < i" and sp: "splits_to (offset cm (w_seq w)) (w_splits w)"
    using assms by (simp_all add: committed_def)
  have later: "splits_to (offset cm (Suc i)) (w_splits w)" "splits_to (offset cm i) (w_splits w)"
    "splits_to (offset cm (i - 1)) (w_splits w)"
    using seq sp by (auto intro!: offset_mono elim!: splits_to_mono)
  have csi: "splits_to (offset cm (Suc i)) out"
    if "apply_csi mk ps f (offset cm (w_seq w)) (offset cm (Suc i)) (m, w_splits w) = (m', out)"
    for mk ps f m m' out
    using splits_to_apply_csi [OF sp offset_mono, of "Suc i" mk ps f m] seq that by simp
  show ?thesis
    using st seq sp later
    by (cases "w_state w")
       (auto simp: step_byte_def Let_def committed_ground committed_pending split: prod.split
          intro!: committed_follow dest: csi)
qed

lemma committed_walk_loop:
  assumes "committed cm i w" and "walk_loop bs cm i w = (p, w')" and "i \<le> length bs"
  shows "committed cm (length bs) w'"
  using assms
proof (induction bs cm i w rule: walk_loop.induct)
  case (1 bs cm i w)
  show ?case
  proof (cases "i < length bs")
    case False
    with "1.prems" show ?thesis
      by (subst (asm) walk_loop.simps) (auto split: if_splits)
  next
    case i: True
    show ?thesis
    proof (cases "w_state w = Ground")
      case False
      have "walk_loop bs cm (i + 1) (step_byte bs cm i w) = (p, w')"
        using "1.prems"(2) i False by (subst (asm) walk_loop.simps) simp
      moreover have "committed cm (i + 1) (step_byte bs cm i w)"
        using committed_step [OF "1.prems"(1) False] by simp
      moreover have "i + 1 \<le> length bs" using i by simp
      ultimately show ?thesis
        using "1.IH"(2) [OF i False] by blast
    next
      case g: True
      define run where "run = takeWhile (\<lambda>b. b \<noteq> ESC) (drop i bs)"
      define w1 where "w1 = w\<lparr>w_modes := add_bells run (w_modes w)\<rparr>"
      have sp: "splits_to (offset cm i) (w_splits w)"
        using "1.prems"(1) g by (simp add: committed_ground)
      then have sp': "i \<le> k \<Longrightarrow> splits_to (offset cm k) (w_splits w)" for k
        by (blast intro: splits_to_mono offset_mono)
      show ?thesis
      proof (cases "i + length run < length bs")
        case False
        have "w' = w1"
          using "1.prems"(2) i g False
          by (subst (asm) walk_loop.simps) (simp add: run_def w1_def Let_def)
        then show ?thesis
          using g sp' i by (simp add: w1_def committed_ground)
      next
        case k: True
        define w2 where "w2 = w1\<lparr>w_seq := i + length run, w_state := Esc\<rparr>"
        have "walk_loop bs cm (i + length run + 1) w2 = (p, w')"
          using "1.prems"(2) i g k
          by (subst (asm) walk_loop.simps) (simp add: run_def w1_def w2_def Let_def)
        moreover have "committed cm (i + length run + 1) w2"
          using sp' by (simp add: w2_def w1_def committed_pending)
        moreover have "i + length run + 1 \<le> length bs" using k by simp
        ultimately show ?thesis
          using "1.IH"(1) [OF i g refl] k unfolding run_def w2_def w1_def by blast
      qed
    qed
  qed
qed

lemma scan_splits:
  "sorted (map fst (snd (scan m chunk)))" "\<forall>x \<in> set (snd (scan m chunk)). fst x \<le> length chunk"
proof -
  define bs where "bs = ms_scan_tail m @ chunk"
  define cm where "cm = \<lparr>old_tail_len = length (ms_scan_tail m), chunk_len = length chunk\<rparr>"
  obtain p w' where wl: "walk_loop bs cm 0 (init_walk (m\<lparr>ms_scan_tail := []\<rparr>)) = (p, w')"
    by fastforce
  then have "committed cm (length bs) w'"
    by (rule committed_walk_loop [rotated]) (simp_all add: committed_ground init_walk_def splits_to_def)
  moreover have "snd (scan m chunk) = w_splits w'"
    using wl by (simp add: scan_def bs_def [symmetric] cm_def [symmetric] Let_def)
  moreover have "offset cm n \<le> length chunk" for n
    by (simp add: offset_def cm_def)
  ultimately show "sorted (map fst (snd (scan m chunk)))"
    "\<forall>x \<in> set (snd (scan m chunk)). fst x \<le> length chunk"
    unfolding committed_def splits_to_def by (auto intro: order_trans)
qed

subsection \<open>Bounds\<close>

definition kitty_ok :: "mode_state \<Rightarrow> bool" where
  "kitty_ok m \<longleftrightarrow> length (ms_kitty_stack m) \<le> KITTY_STACK_CAP"

lemma kitty_decset: "ms_kitty_stack (fst (decset e c mo p)) = ms_kitty_stack (fst mo)"
  by (cases mo) (simp add: decset_def)

lemma kitty_foldl_decset:
  "ms_kitty_stack (fst (foldl (decset e c) mo ps)) = ms_kitty_stack (fst mo)"
  by (induction ps arbitrary: mo) (simp_all add: kitty_decset)

lemma length_butlast_pow: "length ((butlast ^^ n) xs) \<le> length xs"
  by (induction n) (auto intro: le_trans)

lemma kitty_ok_apply_csi:
  "kitty_ok m \<Longrightarrow> kitty_ok (fst (apply_csi mk ps f cs ce (m, out)))"
  using length_butlast_pow [of _ "ms_kitty_stack m"]
  by (auto simp: apply_csi_def Let_def kitty_ok_def kitty_foldl_decset kitty_push_def kitty_pop_def
      kitty_set_def KITTY_STACK_CAP_def intro: order_trans)

lemma kitty_ok_simps [simp]:
  "kitty_ok (apply_osc p m) = kitty_ok m"
  "kitty_ok (add_bells r m) = kitty_ok m"
  "kitty_ok (reset_modes m)"
  "kitty_ok m \<Longrightarrow> kitty_ok (csi_modes body f m)"
  by (simp_all add: kitty_ok_def apply_osc_def Let_def add_bells_def reset_modes_def split: option.split)
     (simp add: kitty_ok_apply_csi [unfolded kitty_ok_def] csi_modes_def split: prod.split)

lemma kitty_ok_follow: "kitty_ok (v_modes v) \<Longrightarrow> kitty_ok (v_modes (vt_follow b v))"
  by (simp add: vt_follow_def)

lemma kitty_ok_run: "kitty_ok (v_modes v) \<Longrightarrow> kitty_ok (v_modes (vt_run v bs))"
proof (induction bs arbitrary: v)
  case Nil
  then show ?case by simp
next
  case (Cons b bs)
  have "kitty_ok (v_modes (vt_step v b))"
    using Cons.prems
    by (cases "v_state v") (simp_all add: vt_step_def Let_def kitty_ok_follow)
  then show ?case using Cons.IH by simp
qed

lemma kitty_ok_feed: "kitty_ok m \<Longrightarrow> kitty_ok (feed_modes m chunk)"
proof -
  assume "kitty_ok m"
  then have "kitty_ok (m\<lparr>ms_scan_tail := []\<rparr>)" by (simp add: kitty_ok_def)
  then have "kitty_ok (v_modes (vt_run (vt_of m) chunk))"
    unfolding vt_of_def by (intro kitty_ok_run) simp
  then show ?thesis by (simp add: feed_modes_def scan_park park_def kitty_ok_def)
qed

lemma parked_new: "parked new_modes \<and> length (ms_scan_tail new_modes) \<le> MAX_PARTIAL_ESCAPE_TAIL"
  by (simp add: parked_iff vt_of_def new_modes_def)

lemma feed_modes_fun: "(\<lambda>m c. fst (scan m c)) = feed_modes"
  by (intro ext) (simp add: feed_modes_def)

subsection \<open>Properties\<close>

text \<open>
  C6. The tracker is fold-safe: two ways of cutting the same byte stream into chunks leave a
  fresh tracker in the same state (modes, title, cwd, bells and parked tail alike), as long as
  no chunk ends inside a sequence longer than \<open>MAX_PARTIAL_ESCAPE_TAIL\<close>.
\<close>

theorem scan_fold_safe:
  assumes "safe_run (\<lambda>m c. fst (scan m c)) within_cap new_modes xss"
    and "safe_run (\<lambda>m c. fst (scan m c)) within_cap new_modes yss"
    and "concat xss = concat yss"
  shows "foldl (\<lambda>m c. fst (scan m c)) new_modes xss = foldl (\<lambda>m c. fst (scan m c)) new_modes yss"
  using assms unfolding feed_modes_fun by (rule modes.fold_chunking [OF parked_new])

text \<open>A title sequence cut inside the payload, and again before its terminator.\<close>

lemma scan_fold_safe_witness:
  "foldl (\<lambda>m c. fst (scan m c)) new_modes
     [[0x07, 0x1b], [0x5d, 0x30, 0x3b, 0x68], [0x69], [0x07, 0x07]]
   = foldl (\<lambda>m c. fst (scan m c)) new_modes [[0x07, 0x1b, 0x5d, 0x30, 0x3b, 0x68, 0x69, 0x07, 0x07]]"
proof (rule scan_fold_safe)
  have short: "within_cap m c" if "length (ms_scan_tail m) + length c \<le> 4096" for m c
    using that by (simp add: within_cap_def scan_rest_def MAX_PARTIAL_ESCAPE_TAIL_def Let_def)
  have tail: "length (ms_scan_tail (fst (scan m c))) \<le> length (ms_scan_tail m) + length c" for m c
    by (simp add: scan_def Let_def split: prod.split del: drop_append)
  have t: "ms_scan_tail new_modes = []" by (simp add: new_modes_def)
  let ?f = "\<lambda>m c. fst (scan m c)"
  let ?m1 = "?f new_modes [0x07, 0x1b]"
  let ?m2 = "?f ?m1 [0x5d, 0x30, 0x3b, 0x68]"
  let ?m3 = "?f ?m2 [0x69]"
  have "length (ms_scan_tail ?m1) \<le> 2" using tail [of new_modes "[0x07, 0x1b]"] t by simp
  moreover from this have "length (ms_scan_tail ?m2) \<le> 6"
    using tail [of ?m1 "[0x5d, 0x30, 0x3b, 0x68]"] by simp
  moreover from this have "length (ms_scan_tail ?m3) \<le> 7"
    using tail [of ?m2 "[0x69]"] by simp
  ultimately show "safe_run ?f within_cap new_modes
     [[0x07, 0x1b], [0x5d, 0x30, 0x3b, 0x68], [0x69], [0x07, 0x07]]"
    using t by (simp add: short)
  show "safe_run ?f within_cap new_modes [[0x07, 0x1b, 0x5d, 0x30, 0x3b, 0x68, 0x69, 0x07, 0x07]]"
    using t by (simp add: short)
qed simp

text \<open>
  Whatever was fed, the parked tail and the kitty stack stay within their caps, and the tail
  is a fixed point: rescanning it with an empty tail parks exactly it and changes no mode.
\<close>

theorem scan_bounded:
  "let m = foldl (\<lambda>m c. fst (scan m c)) new_modes chunks in
     length (ms_scan_tail m) \<le> MAX_PARTIAL_ESCAPE_TAIL
     \<and> length (ms_kitty_stack m) \<le> KITTY_STACK_CAP
     \<and> fst (scan (m\<lparr>ms_scan_tail := []\<rparr>) (ms_scan_tail m)) = m"
proof -
  define m where "m = foldl feed_modes new_modes chunks"
  have p: "parked m" and t: "length (ms_scan_tail m) \<le> MAX_PARTIAL_ESCAPE_TAIL"
    using modes.fold_good [OF parked_new, of chunks] by (simp_all add: m_def)
  have "kitty_ok n \<Longrightarrow> kitty_ok (foldl feed_modes n chunks)" for n
    by (induction chunks arbitrary: n) (simp_all add: kitty_ok_feed)
  then have k: "kitty_ok m" by (simp add: m_def kitty_ok_def new_modes_def)
  have "fst (scan (m\<lparr>ms_scan_tail := []\<rparr>) (ms_scan_tail m)) = park (vt_of m)"
    by (simp add: scan_park vt_of_def)
  also have "\<dots> = m" using p t by (rule park_vt_of)
  finally show ?thesis using t k unfolding feed_modes_fun by (simp add: m_def kitty_ok_def Let_def)
qed

text \<open>
  The split points of a chunk come in ascending order and lie inside the chunk, whatever the
  tracker's state: the emulator may cut the chunk at them one after the other.
\<close>

theorem scan_splits_ascending:
  "sorted (map fst (snd (scan m chunk))) \<and> list_all (\<lambda>s. fst s \<le> length chunk) (snd (scan m chunk))"
  using scan_splits [of m chunk] by (simp add: list_all_iff)

lemma vt_run_osc_body:
  assumes "v_state v = Osc" and "list_all (\<lambda>b. b \<notin> {ESC, BEL, CAN, SUB}) bs"
  shows "vt_run v bs = v\<lparr>v_pend := v_pend v @ bs, v_body := v_body v @ bs\<rparr>"
  using assms
proof (induction bs arbitrary: v)
  case (Cons b bs)
  then have "vt_step v b = v\<lparr>v_pend := v_pend v @ [b], v_body := v_body v @ [b]\<rparr>"
    by (simp add: vt_step_def Let_def)
  with Cons show ?case by simp
qed simp

definition csi_param_byte :: "u8 \<Rightarrow> bool" where
  "csi_param_byte b \<longleftrightarrow> b \<notin> {ESC, CAN, SUB} \<and> \<not> (0x40 \<le> b \<and> b \<le> 0x7e)"

lemma vt_run_csi_body:
  assumes "v_state v = Csi" and "list_all csi_param_byte bs"
  shows "vt_run v bs = v\<lparr>v_pend := v_pend v @ bs, v_body := v_body v @ bs\<rparr>"
  using assms
proof (induction bs arbitrary: v)
  case (Cons b bs)
  then have "vt_step v b = v\<lparr>v_pend := v_pend v @ [b], v_body := v_body v @ [b]\<rparr>"
    by (auto simp: vt_step_def Let_def csi_param_byte_def)
  with Cons show ?case by simp
qed simp

lemma park_vt0: "ms_scan_tail m = [] \<Longrightarrow> park (vt0 m) = m"
  by (simp add: park_def tail_nil_id)

lemma scan_from_ground:
  assumes "ms_scan_tail m = []" and "vt_run (vt0 m) bs = vt0 m'" and "ms_scan_tail m' = []"
  shows "fst (scan m bs) = m'"
  using assms by (simp add: scan_park vt_of_def tail_nil_id park_vt0)

lemma scan_csi:
  assumes "ms_scan_tail m = []" and "list_all csi_param_byte body"
    and "0x40 \<le> final" and "final \<le> 0x7e"
  shows "fst (scan m ([ESC, 0x5b] @ body @ [final]))
       = fst (apply_csi (fst (csi_body body)) (snd (csi_body body)) final 0 0 (m, []))"
proof -
  have "vt_run (vt0 m) [ESC, 0x5b]
      = \<lparr>v_state = Csi, v_pend = [ESC, 0x5b], v_body = [], v_modes = m\<rparr>"
    by (simp add: vt_step_def vt_follow_def vt_esc_def)
  then have "vt_run (vt0 m) ([ESC, 0x5b] @ body)
      = \<lparr>v_state = Csi, v_pend = [ESC, 0x5b] @ body, v_body = body, v_modes = m\<rparr>"
    by (simp only: vt_run_simps(3)) (simp add: vt_run_csi_body [OF _ assms(2)])
  moreover have "final \<notin> {ESC, CAN, SUB}"
    using assms(3) by auto
  ultimately have "vt_run (vt0 m) (([ESC, 0x5b] @ body) @ [final]) = vt0 (csi_modes body final m)"
    using assms(3,4) by (simp only: vt_run_simps(3)) (simp add: vt_step_def Let_def)
  with assms(1) show ?thesis
    by (intro scan_from_ground) (simp_all add: csi_modes_def split_beta)
qed

lemmas csi_eval = apply_csi_def csi_body_def split_params_def parse_u32_def is_digit_def
  decimal_val_def List.map_filter_def kitty_push_def unwrap_or_def decstbm_def csi_param_byte_def
  KITTY_STACK_CAP_def new_modes_def

text \<open>
  A complete OSC applies its payload and nothing else: the BEL that ends it is not a bell, and
  the tracker is back in the ground state. A string terminator does the same.
\<close>

theorem osc_applies_once:
  assumes "ms_scan_tail m = []" and "list_all (\<lambda>b. b \<notin> {ESC, BEL, CAN, SUB}) payload"
  shows "fst (scan m ([ESC, 0x5d] @ payload @ [BEL])) = apply_osc payload m
       \<and> fst (scan m ([ESC, 0x5d] @ payload @ [ESC, ST_FINAL])) = apply_osc payload m
       \<and> ms_bell_count (apply_osc payload m) = ms_bell_count m"
proof -
  have "vt_run (vt0 m) [ESC, 0x5d]
      = \<lparr>v_state = Osc, v_pend = [ESC, 0x5d], v_body = [], v_modes = m\<rparr>"
    by (simp add: vt_step_def vt_follow_def vt_esc_def)
  then have "vt_run (vt0 m) ([ESC, 0x5d] @ payload)
      = \<lparr>v_state = Osc, v_pend = [ESC, 0x5d] @ payload, v_body = payload, v_modes = m\<rparr>"
    by (simp only: vt_run_simps(3)) (simp add: vt_run_osc_body [OF _ assms(2)])
  then have "vt_run (vt0 m) (([ESC, 0x5d] @ payload) @ [BEL]) = vt0 (apply_osc payload m)"
    "vt_run (vt0 m) (([ESC, 0x5d] @ payload) @ [ESC, ST_FINAL]) = vt0 (apply_osc payload m)"
    by (simp_all only: vt_run_simps(3)) (simp_all add: vt_step_def Let_def)
  moreover have "ms_bell_count (apply_osc payload m) = ms_bell_count m"
    by (simp add: apply_osc_def Let_def split: option.split)
  ultimately show ?thesis
    using assms(1) by (auto intro!: scan_from_ground)
qed

lemma osc_applies_once_witness:
  "fst (scan new_modes ([ESC, 0x5d] @ [0x30, 0x3b, 0x61] @ [BEL]))
   = apply_osc [0x30, 0x3b, 0x61] new_modes"
  using osc_applies_once [of new_modes "[0x30, 0x3b, 0x61]"] by (simp add: new_modes_def)

text \<open>
  A complete CSI sequence dispatches once on its parameters and final byte, and leaves the
  tracker in the ground state.
\<close>

theorem csi_applies_once:
  assumes "ms_scan_tail m = []" and "list_all csi_param_byte body"
    and "0x40 \<le> final" and "final \<le> 0x7e"
  shows "fst (scan m ([ESC, 0x5b] @ body @ [final]))
       = fst (apply_csi (fst (csi_body body)) (snd (csi_body body)) final 0 0 (m, []))"
  using assms by (rule scan_csi)

lemma csi_applies_once_witness:
  "ms_kitty_stack (fst (scan new_modes ([ESC, 0x5b] @ [0x3e, 0x35] @ [0x75]))) = [5]"
  by (subst csi_applies_once) (simp_all add: csi_eval)

text \<open>
  The cast to \<open>u16\<close> in the DECSTBM branch drops the high bits, so a region the code accepts
  (top at least 1, bottom larger than top) can be stored inverted: \<open>ESC [ 1 ; 65536 r\<close> leaves
  the region (1, 0), which the rehydrate preamble later emits.
\<close>

theorem decstbm_truncates:
  "ms_scroll_region (fst (scan new_modes
     ([ESC, 0x5b] @ [0x31, 0x3b, 0x36, 0x35, 0x35, 0x33, 0x36] @ [0x72]))) = Some (1, 0)"
  by (subst scan_csi) (simp_all add: csi_eval)

end
