(* ===== verification/AgentStatus.thy ===== *)
theory AgentStatus
  imports Prelude "HOL-Library.Multiset"
begin

text \<open>
  Agent status, \<open>grove-daemon/src/agent.rs\<close>, and the liveness facts of
  \<open>grove-daemon/src/kernel.rs\<close>. The kernel oracle (one \<open>sysctl\<close> call) is a parameter of the
  definitions: a function from process ids to the facts the system reports. A status is
  derived at read time from the claims and that oracle.
\<close>

subsection \<open>Kernel facts\<close>

text \<open>\<open>i32\<close> values are only compared for equality here.\<close>

type_synonym i32 = "32 word"

record proc_facts =
  pf_pid :: i32
  pf_start_us :: u64
  pf_stat :: i32
  pf_tdev :: i32

definition SSTOP :: i32 where "SSTOP = 4"
definition SZOMB :: i32 where "SZOMB = 5"
definition NODEV :: i32 where "NODEV = -1"

definition alive :: "proc_facts \<Rightarrow> bool" where
  "alive f \<longleftrightarrow> pf_stat f \<noteq> SZOMB"

definition stopped :: "proc_facts \<Rightarrow> bool" where
  "stopped f \<longleftrightarrow> pf_stat f = SSTOP"

definition has_ctty :: "proc_facts \<Rightarrow> bool" where
  "has_ctty f \<longleftrightarrow> pf_tdev f \<noteq> NODEV"

type_synonym kernel = "i32 \<Rightarrow> proc_facts option"

subsection \<open>Claims, events and the resolver\<close>

datatype phase = Working | Waiting | Idle

record agent_claim =
  ac_claim_id :: string
  ac_tool :: string
  ac_pid :: i32
  ac_start_us :: u64
  ac_phase :: phase
  ac_last_at_ns :: u64

definition map_event :: "string \<Rightarrow> string option \<Rightarrow> phase option" where
  "map_event event tool_name =
     (if event = ''SessionStart'' then Some Idle
      else if event = ''UserPromptSubmit'' then Some Working
      else if event = ''PreToolUse'' then
        Some (if tool_name = Some ''AskUserQuestion'' then Waiting else Working)
      else if event = ''PermissionRequest'' then Some Waiting
      else if event = ''PostToolUse'' \<or> event = ''PostToolUseFailure'' then Some Working
      else if event = ''Stop'' \<or> event = ''StopFailure'' then Some Idle
      else None)"

definition badge :: "proc_facts \<Rightarrow> agent_claim \<Rightarrow> string" where
  "badge facts claim =
     ac_tool claim @ '':'' @
     (if stopped facts then ''idle''
      else case ac_phase claim of
        Working \<Rightarrow> ''running''
      | Waiting \<Rightarrow> ''attention''
      | Idle \<Rightarrow> ''idle'')"

text \<open>The loop of \<open>resolve\<close>, over the claims in reverse order.\<close>

fun resolve_loop :: "kernel \<Rightarrow> agent_claim list \<Rightarrow> string option" where
  "resolve_loop k [] = None"
| "resolve_loop k (claim # rest) =
     (case k (ac_pid claim) of
        None \<Rightarrow> resolve_loop k rest
      | Some facts \<Rightarrow>
          if \<not> alive facts then resolve_loop k rest
          else if pf_start_us facts \<noteq> ac_start_us claim then resolve_loop k rest
          else Some (badge facts claim))"

definition resolve :: "agent_claim list \<Rightarrow> kernel \<Rightarrow> string option" where
  "resolve agents k = resolve_loop k (rev agents)"

definition live_claim :: "kernel \<Rightarrow> agent_claim \<Rightarrow> bool" where
  "live_claim k claim =
     (case k (ac_pid claim) of
        None \<Rightarrow> False
      | Some f \<Rightarrow> alive f \<and> pf_start_us f = ac_start_us claim)"

definition prune :: "kernel \<Rightarrow> agent_claim list \<Rightarrow> agent_claim list" where
  "prune k agents = filter (live_claim k) agents"

definition touch_claim :: "string \<Rightarrow> string option \<Rightarrow> u64 \<Rightarrow> agent_claim \<Rightarrow> agent_claim" where
  "touch_claim event tool_name at_ns claim =
     (let c = claim\<lparr>ac_last_at_ns := at_ns\<rparr> in
      case map_event event tool_name of
        Some p \<Rightarrow> c\<lparr>ac_phase := p\<rparr>
      | None \<Rightarrow> c)"

fun apply_event ::
  "agent_claim list \<Rightarrow> string \<Rightarrow> string \<Rightarrow> string option \<Rightarrow> u64 \<Rightarrow> bool \<times> agent_claim list" where
  "apply_event [] claim_id event tool_name at_ns = (False, [])"
| "apply_event (claim # rest) claim_id event tool_name at_ns =
     (if ac_claim_id claim = claim_id then
        if at_ns \<le> ac_last_at_ns claim then (False, claim # rest)
        else (True, touch_claim event tool_name at_ns claim # rest)
      else
        let (ok, rest') = apply_event rest claim_id event tool_name at_ns in (ok, claim # rest'))"

subsection \<open>The resolver\<close>

definition live_badge :: "kernel \<Rightarrow> agent_claim \<Rightarrow> string" where
  "live_badge k claim = (case k (ac_pid claim) of None \<Rightarrow> '''' | Some f \<Rightarrow> badge f claim)"

lemma resolve_loop_filter:
  "resolve_loop k cs = (case filter (live_claim k) cs of [] \<Rightarrow> None | c # _ \<Rightarrow> Some (live_badge k c))"
  by (induction cs) (auto simp: live_claim_def live_badge_def split: option.split)

lemma live_claim_Some:
  "live_claim k c \<longleftrightarrow> (\<exists>f. k (ac_pid c) = Some f \<and> alive f \<and> pf_start_us f = ac_start_us c)"
  by (auto simp: live_claim_def split: option.splits)

lemma resolve_Some_iff:
  "resolve agents k = Some s \<longleftrightarrow>
     (\<exists>older claim newer f. agents = older @ claim # newer \<and> k (ac_pid claim) = Some f
        \<and> alive f \<and> pf_start_us f = ac_start_us claim \<and> s = badge f claim
        \<and> filter (live_claim k) newer = [])"
  (is "?l \<longleftrightarrow> ?r")
proof
  assume ?l
  then obtain c cs where f: "filter (live_claim k) (rev agents) = c # cs" and s: "s = live_badge k c"
    by (auto simp: resolve_def resolve_loop_filter split: list.splits)
  from f obtain us vs where "rev agents = us @ c # vs" "filter (live_claim k) us = []"
    and live: "live_claim k c"
    by (auto simp: filter_eq_Cons_iff filter_empty_conv)
  then have "agents = rev vs @ c # rev us" "filter (live_claim k) (rev us) = []"
    by (metis append.assoc append_Cons append_Nil rev.simps(2) rev_append rev_rev_ident)
       (simp add: \<open>filter (live_claim k) us = []\<close> flip: rev_filter)
  with live s show ?r
    by (fastforce simp: live_claim_Some live_badge_def)
next
  assume ?r
  then show ?l
    by (auto simp: resolve_def resolve_loop_filter live_claim_def live_badge_def simp flip: rev_filter)
qed

text \<open>
  A pane shows a badge exactly when some claim's process is alive now (not gone, not a zombie,
  not a reused pid), and the badge is that of the most recent such claim: its tool and phase, or
  idle while it is suspended. A killed agent's badge cannot survive a read.
\<close>

theorem resolve_most_recent_live:
  "resolve agents k = Some s \<longleftrightarrow>
     (\<exists>older claim newer f. agents = older @ claim # newer \<and> k (ac_pid claim) = Some f
        \<and> alive f \<and> pf_start_us f = ac_start_us claim \<and> s = badge f claim
        \<and> filter (live_claim k) newer = [])"
  by (rule resolve_Some_iff)

text \<open>
  Pruning the claims only bounds their number: for the same kernel facts the status is the same
  with it and without it.
\<close>

theorem prune_keeps_status:
  "resolve (prune k agents) k = resolve agents k"
  by (simp add: resolve_def prune_def resolve_loop_filter rev_filter)

subsection \<open>Events\<close>

text \<open>An event as it arrives: claim id, event name, tool name, time stamp.\<close>

type_synonym hook_event = "string \<times> string \<times> string option \<times> u64"

definition deliver :: "agent_claim list \<Rightarrow> hook_event \<Rightarrow> agent_claim list" where
  "deliver agents e = (case e of (cid, ev, tool, at) \<Rightarrow> snd (apply_event agents cid ev tool at))"

definition claim_of :: "agent_claim list \<Rightarrow> string \<Rightarrow> agent_claim option" where
  "claim_of agents cid = List.find (\<lambda>c. ac_claim_id c = cid) agents"

definition fenced :: "agent_claim \<Rightarrow> hook_event \<Rightarrow> agent_claim" where
  "fenced c e = (case e of (cid, ev, tool, at) \<Rightarrow>
     if cid = ac_claim_id c \<and> ac_last_at_ns c < at then touch_claim ev tool at c else c)"

lemma touch_claim_simps [simp]:
  "ac_claim_id (touch_claim ev tool at c) = ac_claim_id c"
  "ac_tool (touch_claim ev tool at c) = ac_tool c"
  "ac_pid (touch_claim ev tool at c) = ac_pid c"
  "ac_start_us (touch_claim ev tool at c) = ac_start_us c"
  "ac_last_at_ns (touch_claim ev tool at c) = at"
  "ac_phase (touch_claim ev tool at c)
   = (case map_event ev tool of Some p \<Rightarrow> p | None \<Rightarrow> ac_phase c)"
  by (simp_all add: touch_claim_def Let_def split: option.split)

lemma claim_of_id: "claim_of agents cid = Some c \<Longrightarrow> ac_claim_id c = cid"
  by (auto simp: claim_of_def find_Some_iff)

lemma claim_of_deliver: "claim_of (deliver agents e) cid = map_option (\<lambda>c. fenced c e) (claim_of agents cid)"
proof (cases e)
  case (fields id ev tool at)
  show ?thesis
  proof (cases "id = cid")
    case True
    show ?thesis
      unfolding fields True deliver_def claim_of_def fenced_def prod.case
      by (induction agents) (auto split: prod.split)
  next
    case False
    then have "claim_of (deliver agents e) cid = claim_of agents cid"
      unfolding fields deliver_def claim_of_def prod.case
      by (induction agents) (auto split: prod.splits)
    moreover have "map_option (\<lambda>c. fenced c e) (claim_of agents cid) = claim_of agents cid"
      using False claim_of_id
      by (cases "claim_of agents cid") (auto simp: fields fenced_def)
    ultimately show ?thesis by simp
  qed
qed

lemma claim_of_deliveries:
  "claim_of (foldl deliver agents es) cid = map_option (\<lambda>c. foldl fenced c es) (claim_of agents cid)"
  by (induction es arbitrary: agents) (simp_all add: claim_of_deliver option.map_comp option.map_ident comp_def)

lemma fenced_id [simp]: "ac_claim_id (fenced c e) = ac_claim_id c"
  by (simp add: fenced_def split: prod.split)

lemma fenced_last: "ac_last_at_ns (fenced c (cid, ev, tool, at))
    = (if cid = ac_claim_id c then max (ac_last_at_ns c) at else ac_last_at_ns c)"
  by (auto simp: fenced_def)

text \<open>The fence after a run of events: every stamp up to it has been seen or was too late.\<close>

lemma fence_bound:
  "(ac_claim_id c, ev, tool, at) \<in> set es \<Longrightarrow> at \<le> ac_last_at_ns (foldl fenced c es)"
  "ac_last_at_ns c \<le> ac_last_at_ns (foldl fenced c es)"
proof -
  show mono: "ac_last_at_ns c \<le> ac_last_at_ns (foldl fenced c es)" for c es
  proof (induction es arbitrary: c)
    case (Cons e es)
    have "ac_last_at_ns c \<le> ac_last_at_ns (fenced c e)"
      by (cases e) (auto simp: fenced_last)
    then show ?case using Cons [of "fenced c e"] by simp
  qed simp
  show "(ac_claim_id c, ev, tool, at) \<in> set es \<Longrightarrow> at \<le> ac_last_at_ns (foldl fenced c es)"
  proof (induction es arbitrary: c)
    case (Cons e es)
    show ?case
    proof (cases "e = (ac_claim_id c, ev, tool, at)")
      case True
      then have "at \<le> ac_last_at_ns (fenced c e)" by (simp add: fenced_last)
      then show ?thesis using mono [of "fenced c e" es] by simp
    next
      case False
      then show ?thesis using Cons by simp
    qed
  qed simp
qed

lemma late_events_dropped:
  assumes "\<forall>(cid, ev, tool, at) \<in> set es. at \<le> ac_last_at_ns c"
  shows "foldl fenced c es = c"
  using assms by (induction es) (auto simp: fenced_def)

lemma newest_wins:
  assumes "map_event ev tool = Some p"
    and "\<forall>(id, ev', tool', at') \<in> set (pre @ post). id = ac_claim_id c \<longrightarrow> at' < at"
    and "ac_last_at_ns c < at"
  shows "ac_phase (foldl fenced c (pre @ (ac_claim_id c, ev, tool, at) # post)) = p"
proof -
  have before: "ac_last_at_ns (foldl fenced c pre) < at \<and> ac_claim_id (foldl fenced c pre) = ac_claim_id c"
    using assms(2,3)
  proof (induction pre arbitrary: c)
    case (Cons e pre)
    have "ac_last_at_ns (fenced c e) < at"
      using Cons.prems by (cases e) (auto simp: fenced_last)
    then show ?case
      using Cons.IH [of "fenced c e"] Cons.prems by (cases e) auto
  qed simp
  define d where "d = fenced (foldl fenced c pre) (ac_claim_id c, ev, tool, at)"
  have d: "ac_phase d = p" "ac_last_at_ns d = at" "ac_claim_id d = ac_claim_id c"
    using before assms(1) by (simp_all add: d_def fenced_def)
  have "foldl fenced d post = d"
    using assms(2) d
    by (induction post) (auto simp: fenced_def)
  then show ?thesis using d by (simp add: d_def)
qed

text \<open>
  Delivery order does not matter to the newest event: if a claim's newest event is mapped, the
  claim ends in that event's phase whatever order the events of all claims arrive in.
\<close>

theorem newest_event_decides:
  assumes "claim_of agents cid = Some c"
    and "map_event ev tool = Some p" and "ac_last_at_ns c < at"
    and "mset es = add_mset (cid, ev, tool, at) others"
    and "\<forall>(id, ev', tool', at') \<in># others. id = cid \<longrightarrow> at' < at"
  shows "map_option ac_phase (claim_of (foldl deliver agents es) cid) = Some p"
proof -
  have "(cid, ev, tool, at) \<in> set es"
    using assms(4) by (metis set_mset_mset union_single_eq_member)
  then obtain pre post where es: "es = pre @ (cid, ev, tool, at) # post"
    by (meson split_list)
  with assms(4) have oth: "others = mset (pre @ post)"
    by simp
  have "ac_claim_id c = cid"
    using assms(1) by (rule claim_of_id)
  then have "ac_phase (foldl fenced c es) = p"
    using newest_wins [OF assms(2), of pre post c at] assms(3,5) oth es by fastforce
  then show ?thesis
    by (simp add: claim_of_deliveries assms(1))
qed

lemma newest_event_decides_witness:
  "map_option ac_phase (claim_of (foldl deliver
     [\<lparr>ac_claim_id = ''c'', ac_tool = ''claude'', ac_pid = 7, ac_start_us = 1, ac_phase = Idle,
       ac_last_at_ns = 0\<rparr>]
     [(''c'', ''PermissionRequest'', None, 9), (''c'', ''PreToolUse'', None, 8)]) ''c'') = Some Waiting"
  by (rule newest_event_decides [where ev = "''PermissionRequest''" and tool = None and at = 9
        and c = "\<lparr>ac_claim_id = ''c'', ac_tool = ''claude'', ac_pid = 7, ac_start_us = 1,
          ac_phase = Idle, ac_last_at_ns = 0\<rparr>" and others = "{#(''c'', ''PreToolUse'', None, 8)#}"])
     (simp_all add: claim_of_def map_event_def)

text \<open>
  A replayed event is refused and changes nothing, and an event touches no other claim and no
  claim's identity (tool, pid, start time).
\<close>

theorem event_replay_refused:
  "fst (apply_event (snd (apply_event agents cid ev tool at)) cid ev' tool' at) = False
   \<and> snd (apply_event (snd (apply_event agents cid ev tool at)) cid ev' tool' at)
     = snd (apply_event agents cid ev tool at)
   \<and> map (\<lambda>c. (ac_claim_id c, ac_tool c, ac_pid c, ac_start_us c)) (snd (apply_event agents cid ev tool at))
     = map (\<lambda>c. (ac_claim_id c, ac_tool c, ac_pid c, ac_start_us c)) agents
   \<and> filter (\<lambda>c. ac_claim_id c \<noteq> cid) (snd (apply_event agents cid ev tool at))
     = filter (\<lambda>c. ac_claim_id c \<noteq> cid) agents"
  by (induction agents) (auto split: prod.splits)

end
