(* ===== verification/HistoryLog.thy ===== *)
theory HistoryLog
  imports Utf8 Framing
begin

text \<open>
  The names and the incremental log of the on-disk history, \<open>grove-daemon/src/history.rs\<close>: the
  percent encoding of session directories, and the framed \<open>output.log\<close> with its encoder, its
  decoder and the byte accounting that pairs a batch with its output. \<open>HistoryStore\<close> has the
  files and the writers.
\<close>

unbundle bit_operations_syntax

subsection \<open>Percent encoding\<close>

definition hex_upper :: "u8 \<Rightarrow> u8" where
  "hex_upper nibble = (if nibble \<le> 9 then 0x30 + nibble else 0x41 + (nibble - 10))"

definition from_hex :: "u8 \<Rightarrow> u8 option" where
  "from_hex b =
     (if 0x30 \<le> b \<and> b \<le> 0x39 then Some (b - 0x30)
      else if 0x61 \<le> b \<and> b \<le> 0x66 then Some (b - 0x61 + 10)
      else if 0x41 \<le> b \<and> b \<le> 0x46 then Some (b - 0x41 + 10)
      else None)"

definition unreserved :: "u8 \<Rightarrow> bool" where
  "unreserved b \<longleftrightarrow>
     0x30 \<le> b \<and> b \<le> 0x39 \<or> 0x41 \<le> b \<and> b \<le> 0x5a \<or> 0x61 \<le> b \<and> b \<le> 0x7a
     \<or> b = 0x2d \<or> b = 0x2e \<or> b = 0x5f \<or> b = 0x7e"

definition encode_byte :: "u8 \<Rightarrow> bytes" where
  "encode_byte b =
     (if unreserved b then [b] else [0x25, hex_upper (drop_bit 4 b), hex_upper (b AND 0x0f)])"

definition percent_encode :: "string \<Rightarrow> string" where
  "percent_encode pty_id = chars_of (concat (map encode_byte (bytes_of pty_id)))"

fun percent_decode_loop :: "bytes \<Rightarrow> bytes option" where
  "percent_decode_loop [] = Some []"
| "percent_decode_loop (b # rest) =
     (if b = 0x25 then
        (case rest of
           h # l # rest' \<Rightarrow>
             (case (from_hex h, from_hex l) of
                (Some hi, Some lo) \<Rightarrow>
                  map_option ((#) (push_bit 4 hi OR lo)) (percent_decode_loop rest')
              | _ \<Rightarrow> None)
         | _ \<Rightarrow> None)
      else map_option ((#) b) (percent_decode_loop rest))"

definition percent_decode :: "string \<Rightarrow> string option" where
  "percent_decode segment =
     (case percent_decode_loop (bytes_of segment) of
        None \<Rightarrow> None
      | Some out \<Rightarrow> from_utf8 out)"

text \<open>\<open>root.join(percent_encode(pty_id))\<close>, a path as the list of its segments.\<close>

definition session_dir :: "string list \<Rightarrow> string \<Rightarrow> string list" where
  "session_dir root pty_id = root @ [percent_encode pty_id]"

subsection \<open>Records and frames\<close>

definition LOG_HEADER_BYTES :: nat where "LOG_HEADER_BYTES = 9"
definition LOG_FORMAT_VERSION :: u8 where "LOG_FORMAT_VERSION = 1"
definition FRAME_BATCH :: u8 where "FRAME_BATCH = 0x01"
definition FRAME_OUTPUT :: u8 where "FRAME_OUTPUT = 0x02"
definition FRAME_RESIZE :: u8 where "FRAME_RESIZE = 0x03"
definition FRAME_CLEAR :: u8 where "FRAME_CLEAR = 0x04"
definition FRAME_HEADER_BYTES :: nat where "FRAME_HEADER_BYTES = 5"
definition DEFAULT_LOG_MAX_BYTES :: u64 where "DEFAULT_LOG_MAX_BYTES = 256 * 1024"

datatype history_record =
    Output bytes
  | Resize u16 u16
  | Clear

fun output_bytes :: "history_record \<Rightarrow> u64" where
  "output_bytes (Output b) = word_of_nat (length b)"
| "output_bytes (Resize cols rows) = 0"
| "output_bytes Clear = 0"

definition sum_output :: "history_record list \<Rightarrow> u64" where
  "sum_output records = sum_list (map output_bytes records)"

record log_batch =
  lb_seq :: u64
  lb_records :: "history_record list"

record decoded_log =
  dl_generation :: u32
  dl_batches :: "log_batch list"
  dl_truncated_tail :: bool

definition encode_log_header :: "u32 \<Rightarrow> bytes" where
  "encode_log_header generation =
     STREAM_FRAME_MAGIC @ [LOG_FORMAT_VERSION] @ u32_to_le generation"

definition decode_log_header :: "bytes \<Rightarrow> u32 option" where
  "decode_log_header buf =
     (if length buf < LOG_HEADER_BYTES then None
      else if slice 0 4 buf \<noteq> STREAM_FRAME_MAGIC \<or> buf ! 4 \<noteq> LOG_FORMAT_VERSION then None
      else Some (u32_from_le (slice 5 9 buf)))"

definition push_frame :: "bytes \<Rightarrow> u8 \<Rightarrow> bytes \<Rightarrow> bytes" where
  "push_frame out kind payload = out @ [kind] @ u32_to_le (word_of_nat (length payload)) @ payload"

fun push_record :: "bytes \<Rightarrow> history_record \<Rightarrow> bytes" where
  "push_record out (Output bs) = push_frame out FRAME_OUTPUT bs"
| "push_record out (Resize cols rows) = push_frame out FRAME_RESIZE (u16_to_le cols @ u16_to_le rows)"
| "push_record out Clear = push_frame out FRAME_CLEAR []"

definition encode_log_batch :: "u64 \<Rightarrow> history_record list \<Rightarrow> bytes" where
  "encode_log_batch seq records =
     foldl push_record (push_frame [] FRAME_BATCH (u64_to_le seq)) records"

subsection \<open>The decoder\<close>

text \<open>The variables of the loop of \<open>decode_log\<close>.\<close>

record log_scan =
  ls_running :: u64
  ls_current :: "log_batch option"
  ls_batches :: "log_batch list"

text \<open>The closing of a batch, written out twice in the source: byte accounting, then push.\<close>

definition close_batch :: "log_scan \<Rightarrow> log_scan option" where
  "close_batch s =
     (case ls_current s of
        None \<Rightarrow> Some s
      | Some prev \<Rightarrow>
          if lb_seq prev \<noteq> ls_running s + sum_output (lb_records prev) then None
          else Some (s\<lparr>ls_running := lb_seq prev, ls_current := None,
                       ls_batches := ls_batches s @ [prev]\<rparr>))"

definition push_to :: "log_scan \<Rightarrow> log_batch \<Rightarrow> history_record \<Rightarrow> log_scan" where
  "push_to s cur r = s\<lparr>ls_current := Some (cur\<lparr>lb_records := lb_records cur @ [r]\<rparr>)\<rparr>"

definition log_frame :: "u8 \<Rightarrow> bytes \<Rightarrow> log_scan \<Rightarrow> log_scan option" where
  "log_frame kind payload s =
     (if kind = FRAME_BATCH then
        if length payload \<noteq> 8 then None
        else
          (case close_batch s of
             None \<Rightarrow> None
           | Some s' \<Rightarrow>
               Some (s'\<lparr>ls_current := Some \<lparr>lb_seq = u64_from_le payload, lb_records = []\<rparr>\<rparr>))
      else
        (case ls_current s of
           None \<Rightarrow> None
         | Some cur \<Rightarrow>
             if kind = FRAME_OUTPUT then Some (push_to s cur (Output payload))
             else if kind = FRAME_RESIZE then
               if length payload \<noteq> 4 then None
               else Some (push_to s cur
                      (Resize (u16_from_le (slice 0 2 payload)) (u16_from_le (slice 2 4 payload))))
             else if kind = FRAME_CLEAR then Some (push_to s cur Clear)
             else None))"

text \<open>
  The \<open>while\<close> loop: \<open>None\<close> where the source returns \<open>None\<close>, otherwise the loop variables and
  \<open>truncated_tail\<close>. \<open>checked_add\<close> of two lengths of data in memory does not fail.
\<close>

function log_loop :: "bytes \<Rightarrow> nat \<Rightarrow> log_scan \<Rightarrow> (log_scan \<times> bool) option" where
  "log_loop buf offset s =
     (if offset < length buf then
        if length buf < offset + FRAME_HEADER_BYTES then Some (s, True)
        else
          let kind = buf ! offset;
              len = unat (u32_from_le (slice (offset + 1) (offset + 5) buf));
              payload_start = offset + FRAME_HEADER_BYTES;
              payload_end = payload_start + len
          in if length buf < payload_end then Some (s, True)
             else
               case log_frame kind (slice payload_start payload_end buf) s of
                 None \<Rightarrow> None
               | Some s' \<Rightarrow> log_loop buf payload_end s'
      else Some (s, False))"
  by pat_completeness auto
termination
  by (relation "measure (\<lambda>(buf, offset, s). length buf - offset)") (auto simp: FRAME_HEADER_BYTES_def)

declare log_loop.simps [simp del]

definition decode_log :: "bytes \<Rightarrow> decoded_log option" where
  "decode_log buf =
     (case decode_log_header buf of
        None \<Rightarrow> None
      | Some generation \<Rightarrow>
          (case log_loop buf LOG_HEADER_BYTES \<lparr>ls_running = 0, ls_current = None, ls_batches = []\<rparr> of
             None \<Rightarrow> None
           | Some (s, truncated_tail) \<Rightarrow>
               (case close_batch s of
                  None \<Rightarrow> None
                | Some s' \<Rightarrow>
                    Some \<lparr>dl_generation = generation, dl_batches = ls_batches s',
                          dl_truncated_tail = truncated_tail\<rparr>)))"

text \<open>What the records of a log make of the scrollback: output is appended, a clear empties it.\<close>

fun scroll :: "bytes \<Rightarrow> history_record \<Rightarrow> bytes" where
  "scroll sb (Output bs) = sb @ bs"
| "scroll sb (Resize cols rows) = sb"
| "scroll sb Clear = []"

subsection \<open>Percent encoding round trip\<close>

lemma nibble_cases:
  assumes "(n :: u8) \<le> 15"
  shows "n \<in> {0, 1, 2, 3, 4, 5, 6, 7, 8, 9, 10, 11, 12, 13, 14, 15}"
proof -
  have "unat n < 16"
    using assms by (simp add: word_le_nat_alt)
  then have "unat n \<in> set [0..<16]"
    by simp
  then have "unat n \<in> {0, 1, 2, 3, 4, 5, 6, 7, 8, 9, 10, 11, 12, 13, 14, 15}"
    by (simp add: upt_rec numeral_eq_Suc del: set_upt)
  then have "word_of_nat (unat n) \<in> (word_of_nat :: nat \<Rightarrow> u8) `
      {0, 1, 2, 3, 4, 5, 6, 7, 8, 9, 10, 11, 12, 13, 14, 15}"
    by (rule imageI)
  then show ?thesis by simp
qed

lemma from_hex_hex_upper:
  assumes "n \<le> 15"
  shows "from_hex (hex_upper n) = Some n"
proof -
  have "\<forall>n \<in> {0, 1, 2, 3, 4, 5, 6, 7, 8, 9, 10, 11, 12, 13, 14, 15}.
      from_hex (hex_upper n) = Some n"
    by (simp add: from_hex_def hex_upper_def)
  with nibble_cases [OF assms] show ?thesis by blast
qed

lemma nibbles: "push_bit 4 (drop_bit 4 b) OR (b AND 0x0f) = (b :: u8)"
proof -
  have "b AND 0x0f = take_bit 4 b"
    by (simp add: take_bit_eq_mask mask_eq_exp_minus_1)
  then show ?thesis
    by (simp add: bit_eq_iff bit_simps) auto
qed

lemma hi_nibble_le: "drop_bit 4 (b :: u8) \<le> 15"
proof -
  have "unat (drop_bit 4 b) = drop_bit 4 (unat b)"
    by (rule unat_drop_bit_eq)
  then have "unat (drop_bit 4 b) = unat b div 16"
    by (simp only: drop_bit_eq_div) simp
  moreover have "unat b < 256"
    by (rule unat_u8_lt)
  ultimately show ?thesis by (simp add: word_le_nat_alt)
qed

lemma lo_nibble_le: "(b :: u8) AND 0x0f \<le> 15"
  by (simp add: word_and_le1)

lemma decode_encode_byte:
  "percent_decode_loop (encode_byte b @ rest) = map_option ((#) b) (percent_decode_loop rest)"
proof (cases "unreserved b")
  case True
  then have "b \<noteq> 0x25" by (auto simp: unreserved_def)
  with True show ?thesis by (simp add: encode_byte_def)
next
  case False
  then show ?thesis
    by (simp add: encode_byte_def from_hex_hex_upper hi_nibble_le lo_nibble_le nibbles)
qed

lemma decode_encode_bytes: "percent_decode_loop (concat (map encode_byte bs)) = Some bs"
  by (induction bs) (simp_all add: decode_encode_byte)

lemma percent_roundtrip: "is_str s \<Longrightarrow> percent_decode (percent_encode s) = Some s"
  by (simp add: percent_decode_def percent_encode_def decode_encode_bytes from_utf8_bytes_of)

lemma percent_encode_inj: "percent_encode s = percent_encode t \<longleftrightarrow> s = t"
proof
  assume "percent_encode s = percent_encode t"
  then have "concat (map encode_byte (bytes_of s)) = concat (map encode_byte (bytes_of t))"
    unfolding percent_encode_def by (metis bytes_of_chars_of)
  then have "bytes_of s = bytes_of t"
    using decode_encode_bytes by (metis option.inject)
  then show "s = t" by (simp add: bytes_of_inj)
qed simp

subsection \<open>The log as a sequence of frames\<close>

definition enc_frame :: "u8 \<times> bytes \<Rightarrow> bytes" where
  "enc_frame f = [fst f] @ u32_to_le (word_of_nat (length (snd f))) @ snd f"

fun rec_frame :: "history_record \<Rightarrow> u8 \<times> bytes" where
  "rec_frame (Output bs) = (FRAME_OUTPUT, bs)"
| "rec_frame (Resize cols rows) = (FRAME_RESIZE, u16_to_le cols @ u16_to_le rows)"
| "rec_frame Clear = (FRAME_CLEAR, [])"

text \<open>Records whose frame length fits the \<open>u32\<close> length field.\<close>

fun rec_ok :: "history_record \<Rightarrow> bool" where
  "rec_ok (Output bs) = (length bs < 2 ^ 32)"
| "rec_ok r = True"

definition batch_frames :: "u64 \<Rightarrow> history_record list \<Rightarrow> (u8 \<times> bytes) list" where
  "batch_frames seq records = (FRAME_BATCH, u64_to_le seq) # map rec_frame records"

fun run_frames :: "(u8 \<times> bytes) list \<Rightarrow> log_scan \<Rightarrow> log_scan option" where
  "run_frames [] s = Some s"
| "run_frames (f # fs) s =
     (case log_frame (fst f) (snd f) s of None \<Rightarrow> None | Some s' \<Rightarrow> run_frames fs s')"

lemma run_frames_append:
  "run_frames (fs @ gs) s = (case run_frames fs s of None \<Rightarrow> None | Some s' \<Rightarrow> run_frames gs s')"
  by (induction fs arbitrary: s) (simp_all split: option.split)

lemma push_frame_enc: "push_frame out k p = out @ enc_frame (k, p)"
  by (simp add: push_frame_def enc_frame_def)

lemma push_record_enc: "push_record out r = out @ enc_frame (rec_frame r)"
  by (cases r) (simp_all add: push_frame_enc)

lemma encode_log_batch_frames:
  "encode_log_batch seq rs = concat (map enc_frame (batch_frames seq rs))"
proof -
  have "foldl push_record out rs = out @ concat (map enc_frame (map rec_frame rs))" for out
    by (induction rs arbitrary: out) (simp_all add: push_record_enc)
  then show ?thesis
    by (simp add: encode_log_batch_def batch_frames_def push_frame_enc)
qed

lemma length_enc_frame: "length (enc_frame f) = 5 + length (snd f)"
  by (simp add: enc_frame_def)

lemma length_rec_frame: "rec_ok r \<Longrightarrow> length (snd (rec_frame r)) < 2 ^ 32"
  by (cases r) simp_all

lemma unat_len_field: "n < 2 ^ 32 \<Longrightarrow> unat (word_of_nat n :: u32) = n"
  by (simp add: unat_of_nat)

lemma nth_drop_eq: "drop n xs = y # ys \<Longrightarrow> n < length xs \<and> xs ! n = y"
  by (metis Cons_nth_drop_Suc drop_all linorder_not_less list.distinct(1) list.inject)

lemma slice_drop: "slice (n + i) (n + j) xs = slice i j (drop n xs)"
  by (simp add: slice_def add.commute)

lemma log_loop_frame:
  assumes "drop offset buf = enc_frame f @ rest" and "length (snd f) < 2 ^ 32"
  shows "log_loop buf offset s =
    (case log_frame (fst f) (snd f) s of
       None \<Rightarrow> None | Some s' \<Rightarrow> log_loop buf (offset + length (enc_frame f)) s')"
proof -
  have nth: "offset < length buf" "buf ! offset = fst f"
    using nth_drop_eq [of offset buf "fst f"] assms(1) by (simp_all add: enc_frame_def)
  have "length (drop offset buf) = 5 + length (snd f) + length rest"
    by (simp add: assms(1) length_enc_frame)
  then have len: "offset + 5 + length (snd f) \<le> length buf" by simp
  have "slice (offset + 1) (offset + 5) buf = u32_to_le (word_of_nat (length (snd f)))"
    unfolding slice_drop assms(1) by (simp add: enc_frame_def slice_def)
  then have field: "unat (u32_from_le (slice (offset + 1) (offset + 5) buf)) = length (snd f)"
    using assms(2) by (simp add: unat_len_field)
  have nxt: "offset + length (enc_frame f) = offset + 5 + length (snd f)"
    by (simp add: length_enc_frame)
  have payload: "slice (offset + 5) (offset + 5 + length (snd f)) buf = snd f"
    using slice_drop [of offset 5 "5 + length (snd f)" buf] assms(1)
    by (simp add: enc_frame_def slice_def add.assoc)
  show ?thesis
    unfolding nxt using nth len payload field
    by (subst log_loop.simps) (simp add: FRAME_HEADER_BYTES_def Let_def)
qed

lemma log_loop_frames:
  assumes "drop offset buf = concat (map enc_frame fs) @ rest"
    and "list_all (\<lambda>f. length (snd f) < 2 ^ 32) fs"
  shows "log_loop buf offset s =
    (case run_frames fs s of
       None \<Rightarrow> None | Some s' \<Rightarrow> log_loop buf (offset + length (concat (map enc_frame fs))) s')"
  using assms
proof (induction fs arbitrary: offset s)
  case Nil
  then show ?case by simp
next
  case (Cons f fs)
  have f: "drop offset buf = enc_frame f @ (concat (map enc_frame fs) @ rest)"
    using Cons.prems(1) by simp
  then have rest: "drop (offset + length (enc_frame f)) buf = concat (map enc_frame fs) @ rest"
    by (metis append_eq_conv_conj drop_drop add.commute)
  show ?case
    using log_loop_frame [OF f] Cons.IH [OF rest] Cons.prems(2)
    by (simp add: add.assoc split: option.split)
qed

text \<open>A tail that is too short for its own header or payload stops the loop.\<close>

lemma log_loop_torn:
  assumes "drop offset buf = take k (enc_frame f)" and "0 < k" and "k < length (enc_frame f)"
    and "length (snd f) < 2 ^ 32"
  shows "log_loop buf offset s = Some (s, True)"
proof -
  have "length (drop offset buf) = k"
    using assms by simp
  then have len: "length buf = offset + k" using assms(2) by simp
  show ?thesis
  proof (cases "k < 5")
    case True
    then show ?thesis
      using len assms(2) by (subst log_loop.simps) (simp add: FRAME_HEADER_BYTES_def)
  next
    case False
    then have "take k (enc_frame f)
        = fst f # u32_to_le (word_of_nat (length (snd f))) @ take (k - 5) (snd f)"
      by (cases k) (simp_all add: enc_frame_def take_Cons')
    then have "slice (offset + 1) (offset + 5) buf = u32_to_le (word_of_nat (length (snd f)))"
      unfolding slice_drop assms(1) by (simp add: slice_def)
    then have "unat (u32_from_le (slice (offset + 1) (offset + 5) buf)) = length (snd f)"
      using assms(4) by (simp add: unat_len_field)
    then show ?thesis
      using len False assms(2,3)
      by (subst log_loop.simps) (simp add: FRAME_HEADER_BYTES_def Let_def length_enc_frame)
  qed
qed

lemma log_loop_end: "length buf \<le> offset \<Longrightarrow> log_loop buf offset s = Some (s, False)"
  by (subst log_loop.simps) simp

subsection \<open>Batches\<close>

lemma log_frame_record:
  "ls_current s = Some cur \<Longrightarrow> log_frame (fst (rec_frame r)) (snd (rec_frame r)) s = Some (push_to s cur r)"
  by (cases r)
     (simp_all add: log_frame_def FRAME_BATCH_def FRAME_OUTPUT_def FRAME_RESIZE_def FRAME_CLEAR_def
       slice_def)

lemma run_frames_records:
  "ls_current s = Some cur \<Longrightarrow> run_frames (map rec_frame rs) s
     = Some (s\<lparr>ls_current := Some (cur\<lparr>lb_records := lb_records cur @ rs\<rparr>)\<rparr>)"
proof (induction rs arbitrary: s cur)
  case Nil
  then show ?case by (cases s, cases cur) simp
next
  case (Cons r rs)
  then show ?case
    by (simp add: log_frame_record push_to_def)
qed

lemma run_frames_batch:
  assumes "close_batch s = Some s'"
  shows "run_frames (batch_frames seq rs) s
       = Some (s'\<lparr>ls_current := Some \<lparr>lb_seq = seq, lb_records = rs\<rparr>\<rparr>)"
  using assms by (simp add: batch_frames_def log_frame_def run_frames_records)

text \<open>Batches with the cumulative stamps the writer gives them.\<close>

fun stamp :: "u64 \<Rightarrow> history_record list list \<Rightarrow> log_batch list" where
  "stamp run [] = []"
| "stamp run (rs # rss) =
     \<lparr>lb_seq = run + sum_output rs, lb_records = rs\<rparr> # stamp (run + sum_output rs) rss"

definition log_image :: "u32 \<Rightarrow> history_record list list \<Rightarrow> bytes" where
  "log_image gen rss = encode_log_header gen
     @ concat (map (\<lambda>b. encode_log_batch (lb_seq b) (lb_records b)) (stamp 0 rss))"

definition records_ok :: "history_record list list \<Rightarrow> bool" where
  "records_ok rss \<longleftrightarrow> list_all (list_all rec_ok) rss"

lemma sum_output_simps [simp]:
  "sum_output [] = 0"
  "sum_output (r # rs) = output_bytes r + sum_output rs"
  "sum_output (rs @ rs') = sum_output rs + sum_output rs'"
  by (simp_all add: sum_output_def)

definition total_output :: "history_record list list \<Rightarrow> u64" where
  "total_output rss = sum_output (concat rss)"

lemma stamp_append:
  "stamp run (rss @ rss') = stamp run rss @ stamp (run + total_output rss) rss'"
  by (induction rss arbitrary: run) (simp_all add: total_output_def add.assoc)

lemma log_image_snoc:
  "log_image gen (rss @ [rs])
   = log_image gen rss @ encode_log_batch (total_output rss + sum_output rs) rs"
  by (simp add: log_image_def stamp_append)

definition image_frames :: "history_record list list \<Rightarrow> (u8 \<times> bytes) list" where
  "image_frames rss = concat (map (\<lambda>b. batch_frames (lb_seq b) (lb_records b)) (stamp 0 rss))"

lemma log_image_frames:
  "log_image gen rss = encode_log_header gen @ concat (map enc_frame (image_frames rss))"
proof -
  have "concat (map (\<lambda>b. encode_log_batch (lb_seq b) (lb_records b)) bs)
      = concat (map enc_frame (concat (map (\<lambda>b. batch_frames (lb_seq b) (lb_records b)) bs)))" for bs
    by (induction bs) (simp_all add: encode_log_batch_frames)
  then show ?thesis by (simp add: log_image_def image_frames_def)
qed

lemma image_frames_short:
  assumes "records_ok rss"
  shows "list_all (\<lambda>f. length (snd f) < 2 ^ 32) (image_frames rss)"
proof -
  have "list_all (list_all rec_ok) rss \<Longrightarrow>
      list_all (\<lambda>f. length (snd f) < 2 ^ 32)
        (concat (map (\<lambda>b. batch_frames (lb_seq b) (lb_records b)) (stamp run rss)))" for run
    by (induction rss arbitrary: run) (auto simp: batch_frames_def list_all_iff length_rec_frame [simplified])
  with assms show ?thesis by (simp add: records_ok_def image_frames_def)
qed

definition scan_start :: log_scan where
  "scan_start = \<lparr>ls_running = 0, ls_current = None, ls_batches = []\<rparr>"

text \<open>After the frames of a whole image, closing the last batch gives all of them.\<close>

lemma run_image:
  "\<exists>s. run_frames (image_frames rss) scan_start = Some s
     \<and> close_batch s = Some \<lparr>ls_running = total_output rss, ls_current = None, ls_batches = stamp 0 rss\<rparr>"
proof (induction rss rule: rev_induct)
  case Nil
  then show ?case
    by (simp add: image_frames_def scan_start_def close_batch_def total_output_def)
next
  case (snoc rs rss)
  then obtain s where s: "run_frames (image_frames rss) scan_start = Some s"
    and c: "close_batch s = Some \<lparr>ls_running = total_output rss, ls_current = None, ls_batches = stamp 0 rss\<rparr>"
    by blast
  have "image_frames (rss @ [rs]) = image_frames rss @ batch_frames (total_output rss + sum_output rs) rs"
    by (simp add: image_frames_def stamp_append)
  with s run_frames_batch [OF c] show ?case
    by (simp add: run_frames_append) (simp add: close_batch_def stamp_append total_output_def)
qed

lemma decode_header: "decode_log_header (encode_log_header gen @ rest) = Some gen"
  by (simp add: decode_log_header_def encode_log_header_def LOG_HEADER_BYTES_def STREAM_FRAME_MAGIC_def
      slice_def nth_append)

lemma length_log_header: "length (encode_log_header gen) = LOG_HEADER_BYTES"
  by (simp add: encode_log_header_def STREAM_FRAME_MAGIC_def LOG_HEADER_BYTES_def)

text \<open>Decoding an image followed by a tail: the loop arrives at the tail with the image read.\<close>

lemma decode_image_tail:
  assumes "records_ok rss" and "run_frames (image_frames rss) scan_start = Some s"
  shows "decode_log (log_image gen rss @ tail) =
    (case log_loop (log_image gen rss @ tail) (length (log_image gen rss)) s of
       None \<Rightarrow> None
     | Some (s, t) \<Rightarrow>
         (case close_batch s of
            None \<Rightarrow> None
          | Some s' \<Rightarrow> Some \<lparr>dl_generation = gen, dl_batches = ls_batches s', dl_truncated_tail = t\<rparr>))"
proof -
  let ?buf = "log_image gen rss @ tail"
  have hd: "decode_log_header ?buf = Some gen"
    by (simp add: log_image_frames decode_header)
  have drop: "drop LOG_HEADER_BYTES ?buf = concat (map enc_frame (image_frames rss)) @ tail"
    by (simp add: log_image_frames flip: length_log_header [of gen])
  have "log_loop ?buf LOG_HEADER_BYTES scan_start
      = log_loop ?buf (LOG_HEADER_BYTES + length (concat (map enc_frame (image_frames rss)))) s"
    using log_loop_frames [OF drop image_frames_short [OF assms(1)]] assms(2) by simp
  moreover have "LOG_HEADER_BYTES + length (concat (map enc_frame (image_frames rss)))
      = length (log_image gen rss)"
    by (simp add: log_image_frames length_log_header)
  ultimately have "log_loop ?buf LOG_HEADER_BYTES scan_start = log_loop ?buf (length (log_image gen rss)) s"
    by simp
  then show ?thesis
    using hd by (simp add: decode_log_def scan_start_def)
qed

lemma decode_log_image:
  assumes "records_ok rss"
  shows "decode_log (log_image gen rss)
       = Some \<lparr>dl_generation = gen, dl_batches = stamp 0 rss, dl_truncated_tail = False\<rparr>"
proof -
  obtain s where "run_frames (image_frames rss) scan_start = Some s"
    "close_batch s = Some \<lparr>ls_running = total_output rss, ls_current = None, ls_batches = stamp 0 rss\<rparr>"
    using run_image by blast
  then show ?thesis
    using decode_image_tail [OF assms, of s gen "[]"] by (simp add: log_loop_end)
qed

subsection \<open>Torn tails\<close>

lemma length_enc_batch_frame: "length (enc_frame (FRAME_BATCH, u64_to_le seq)) = 13"
  by (simp add: length_enc_frame)

lemma drop_image: "drop (length (log_image gen rss)) (log_image gen rss @ tail) = tail"
  by simp

lemma decode_torn_batch_header:
  assumes "records_ok rss" and "0 < k" and "k < 13"
  shows "decode_log (log_image gen rss @ take k (encode_log_batch seq rs))
       = Some \<lparr>dl_generation = gen, dl_batches = stamp 0 rss, dl_truncated_tail = True\<rparr>"
proof -
  obtain s where s: "run_frames (image_frames rss) scan_start = Some s"
    "close_batch s = Some \<lparr>ls_running = total_output rss, ls_current = None, ls_batches = stamp 0 rss\<rparr>"
    using run_image by blast
  let ?f = "(FRAME_BATCH, u64_to_le seq)"
  have "take k (encode_log_batch seq rs) = take k (enc_frame ?f)"
    using assms(3) length_enc_batch_frame [of seq]
    by (simp add: encode_log_batch_frames batch_frames_def)
  then have "log_loop (log_image gen rss @ take k (encode_log_batch seq rs))
      (length (log_image gen rss)) s = Some (s, True)"
    by (intro log_loop_torn [of _ _ k ?f]) (use assms length_enc_batch_frame [of seq] in auto)
  then show ?thesis
    using decode_image_tail [OF assms(1) s(1)] s(2) by simp
qed

text \<open>
  A tail torn inside a record frame of the last batch: the batch's own stamp no longer matches
  the output it carries, and the whole log is refused.
\<close>

lemma decode_torn_record:
  assumes "records_ok rss" and "list_all rec_ok (pre @ [Output bs])"
    and "0 < length bs"
    and "tail = encode_log_batch (total_output rss + sum_output (pre @ [Output bs])) pre
           @ take k (enc_frame (FRAME_OUTPUT, bs))"
    and "k < 5 + length bs"
  shows "decode_log (log_image gen rss @ tail) = None"
proof -
  define seq where "seq = total_output rss + sum_output (pre @ [Output bs])"
  obtain s where s: "run_frames (image_frames rss) scan_start = Some s"
    "close_batch s = Some \<lparr>ls_running = total_output rss, ls_current = None, ls_batches = stamp 0 rss\<rparr>"
    using run_image by blast
  define s' where "s' = \<lparr>ls_running = total_output rss,
    ls_current = Some \<lparr>lb_seq = seq, lb_records = pre\<rparr>, ls_batches = stamp 0 rss\<rparr>"
  let ?img = "log_image gen rss" and ?fs = "batch_frames seq pre"
  have run: "run_frames ?fs s = Some s'"
    using run_frames_batch [OF s(2)] by (simp add: s'_def)
  have tl: "tail = concat (map enc_frame ?fs) @ take k (enc_frame (FRAME_OUTPUT, bs))"
    by (simp add: assms(4) seq_def encode_log_batch_frames)
  have small: "list_all (\<lambda>f. length (snd f) < 2 ^ 32) ?fs"
    using assms(2) by (auto simp: batch_frames_def list_all_iff length_rec_frame [simplified])
  have bs: "length bs < 2 ^ 32" using assms(2) by simp
  have loop: "log_loop (?img @ tail) (length ?img) s
      = log_loop (?img @ tail) (length ?img + length (concat (map enc_frame ?fs))) s'"
    using log_loop_frames [of "length ?img" "?img @ tail" ?fs _ s] small run tl by simp
  have "\<exists>t. log_loop (?img @ tail) (length ?img) s = Some (s', t)"
  proof (cases "k = 0")
    case True
    then show ?thesis unfolding loop by (intro exI [of _ False]) (simp add: tl log_loop_end)
  next
    case False
    then have "log_loop (?img @ tail) (length ?img + length (concat (map enc_frame ?fs))) s' = Some (s', True)"
      using assms(5) bs
      by (intro log_loop_torn [of _ _ k "(FRAME_OUTPUT, bs)"]) (simp_all add: tl length_enc_frame)
    then show ?thesis unfolding loop by blast
  qed
  then obtain t where t: "log_loop (?img @ tail) (length ?img) s = Some (s', t)" ..
  have "(word_of_nat (length bs) :: u64) \<noteq> 0"
    using assms(3) bs by (simp add: word_unat_eq_iff unat_of_nat)
  then have "close_batch s' = None"
    by (simp add: close_batch_def s'_def seq_def)
  with t show ?thesis
    using decode_image_tail [OF assms(1) s(1)] by simp
qed

subsection \<open>Properties\<close>

text \<open>
  The directory name of a session id decodes back to the id, and two ids never share one.
\<close>

theorem percent_encode_roundtrip:
  assumes "is_str pty_id"
  shows "percent_decode (percent_encode pty_id) = Some pty_id
       \<and> (percent_encode other = percent_encode pty_id) = (other = pty_id)"
  using percent_roundtrip [OF assms] percent_encode_inj by blast

lemma percent_encode_roundtrip_witness:
  "percent_decode (percent_encode ''grove:a/b'') = Some ''grove:a/b''
   \<and> (percent_encode ''grove_a'' = percent_encode ''grove:a/b'') = (''grove_a'' = ''grove:a/b'')"
proof (rule percent_encode_roundtrip)
  show "is_str ''grove:a/b''"
    unfolding is_str_def by (rule utf8_valid_ascii) (simp add: bytes_of_def)
qed

text \<open>
  The dots of an id stay literal, so the ids \<open>..\<close> and \<open>.\<close> and the empty id are encoded as
  themselves: their session directory is the parent of the history root or the root itself.
\<close>

theorem dot_ids_escape_the_root:
  "session_dir root ''..'' = root @ [''..''] \<and> session_dir root ''.'' = root @ [''.'']
   \<and> session_dir root [] = root @ [[]]"
proof -
  have "encode_byte 0x2e = [0x2e]" by (simp add: encode_byte_def unreserved_def)
  then have "concat (map encode_byte (bytes_of ''..'')) = bytes_of ''..''"
    "concat (map encode_byte (bytes_of ''.'')) = bytes_of ''.''"
    "concat (map encode_byte (bytes_of [])) = bytes_of []"
    by (simp_all add: bytes_of_def)
  then show ?thesis
    unfolding session_dir_def percent_encode_def by (simp del: bytes_of_eq_Nil)
qed

text \<open>
  The log reads back: a header and the batches the writer appends, with cumulative stamps,
  decode to exactly those batches, whole.
\<close>

theorem log_roundtrip:
  assumes "records_ok rss"
  shows "decode_log (log_image gen rss)
       = Some \<lparr>dl_generation = gen, dl_batches = stamp 0 rss, dl_truncated_tail = False\<rparr>"
  using assms by (rule decode_log_image)

lemma log_roundtrip_witness:
  "decode_log (log_image 7 [[Output [1, 2], Resize 80 24], [Clear, Output [3]]])
   = Some \<lparr>dl_generation = 7,
       dl_batches = [\<lparr>lb_seq = 2, lb_records = [Output [1, 2], Resize 80 24]\<rparr>,
                     \<lparr>lb_seq = 3, lb_records = [Clear, Output [3]]\<rparr>],
       dl_truncated_tail = False\<rparr>"
  using log_roundtrip [of "[[Output [1, 2], Resize 80 24], [Clear, Output [3]]]" 7]
  by (simp add: records_ok_def)

text \<open>
  An append torn inside its batch header keeps every earlier batch and sets the torn flag.
\<close>

theorem log_torn_header_keeps_prefix:
  assumes "records_ok rss" and "0 < k" and "k < 13"
  shows "decode_log (log_image gen rss @ take k (encode_log_batch seq rs))
       = Some \<lparr>dl_generation = gen, dl_batches = stamp 0 rss, dl_truncated_tail = True\<rparr>"
  using assms by (rule decode_torn_batch_header)

lemma log_torn_header_keeps_prefix_witness:
  "decode_log (log_image 0 [[Output [65]]] @ take 6 (encode_log_batch 2 [Output [66]]))
   = Some \<lparr>dl_generation = 0, dl_batches = [\<lparr>lb_seq = 1, lb_records = [Output [65]]\<rparr>],
       dl_truncated_tail = True\<rparr>"
  using log_torn_header_keeps_prefix [of "[[Output [65]]]" 6 0 2 "[Output [66]]"]
  by (simp add: records_ok_def)

text \<open>
  An append torn after its batch header, inside a non-empty output frame, makes the decoder
  refuse the whole log: the batches already complete on disk are lost with it.
\<close>

theorem log_torn_record_drops_all:
  assumes "records_ok rss" and "list_all rec_ok (pre @ [Output bs])"
    and "0 < length bs" and "k < 5 + length bs"
  shows "decode_log (log_image gen rss
           @ encode_log_batch (total_output rss + sum_output (pre @ [Output bs])) pre
           @ take k (push_frame [] FRAME_OUTPUT bs)) = None"
  by (rule decode_torn_record [OF assms(1-3) _ assms(4)]) (simp add: push_frame_enc)

lemma log_torn_record_drops_all_witness:
  "decode_log (log_image 0 [[Output [65]]]
     @ encode_log_batch (total_output [[Output [65]]] + sum_output ([] @ [Output [66, 67]])) []
     @ take 6 (push_frame [] FRAME_OUTPUT [66, 67])) = None"
  by (rule log_torn_record_drops_all) (simp_all add: records_ok_def)

end
