(* ===== verification/Emulator.thy ===== *)
theory Emulator
  imports ModeState
begin

text \<open>
  The VT emulator wrapper of \<open>grove-daemon/src/emulator.rs\<close>: the \<open>vt100\<close> parser, fed in the segments the
  mode tracker asks for, the primary buffer frozen at alt-screen entry, the saved-cursor mirror,
  and the snapshot serializer. The \<open>vt100\<close> crate is not under \<open>src/\<close>; its operations are the
  fields of a parameter record, and the only law used of it is that feeding bytes in two calls is
  feeding them in one (\<open>parser_stream\<close>).
\<close>

subsection \<open>The \<open>vt100\<close> interface\<close>

datatype mouse_mode = MouseNone | Press | PressRelease | ButtonMotion | AnyMotion

datatype mouse_encoding = MouseDefault | MouseUtf8 | MouseSgr

record 'p vt100 =
  px_new :: "u16 \<Rightarrow> u16 \<Rightarrow> nat \<Rightarrow> 'p"
  px_process :: "'p \<Rightarrow> bytes \<Rightarrow> 'p"
  px_set_size :: "u16 \<Rightarrow> u16 \<Rightarrow> 'p \<Rightarrow> 'p"
  px_set_scrollback :: "nat \<Rightarrow> 'p \<Rightarrow> 'p"
  px_alt :: "'p \<Rightarrow> bool"
  px_contents :: "'p \<Rightarrow> bytes"
  px_cursor :: "'p \<Rightarrow> u16 \<times> u16"
  px_size :: "'p \<Rightarrow> u16 \<times> u16"
  px_bracketed_paste :: "'p \<Rightarrow> bool"
  px_application_cursor :: "'p \<Rightarrow> bool"
  px_application_keypad :: "'p \<Rightarrow> bool"
  px_mouse_mode :: "'p \<Rightarrow> mouse_mode"
  px_mouse_encoding :: "'p \<Rightarrow> mouse_encoding"

definition parser_stream :: "'p vt100 \<Rightarrow> bool" where
  "parser_stream T \<longleftrightarrow>
     (\<forall>p. px_process T p [] = p)
     \<and> (\<forall>p a b. px_process T p (a @ b) = px_process T (px_process T p a) b)"

subsection \<open>State and operations\<close>

definition DEFAULT_SCROLLBACK_LINES :: nat where "DEFAULT_SCROLLBACK_LINES = 2000"

record snapshot_options =
  so_absolute_cursor_tail :: bool

definition default_options :: snapshot_options where
  "default_options = \<lparr>so_absolute_cursor_tail = False\<rparr>"

record daemon_snapshot =
  sn_scrollback_ansi :: bytes
  sn_rehydrate_sequences :: bytes
  sn_snapshot_ansi :: bytes
  sn_pending_escape_tail :: bytes
  sn_cols :: u16
  sn_rows :: u16
  sn_is_alternate_screen :: bool
  sn_kitty_keyboard_flags :: u32
  sn_cwd :: "string option"
  sn_title :: "string option"
  sn_output_sequence :: u64

definition warm_payload :: "daemon_snapshot \<Rightarrow> bytes" where
  "warm_payload s = sn_scrollback_ansi s @ sn_rehydrate_sequences s @ sn_snapshot_ansi s"

record 'p daemon_emulator =
  em_parser :: 'p
  em_modes :: mode_state
  em_primary_frozen :: "bytes option"
  em_saved_cursor :: "(u16 \<times> u16) option"

definition new_emulator :: "'p vt100 \<Rightarrow> u16 \<Rightarrow> u16 \<Rightarrow> nat \<Rightarrow> 'p daemon_emulator" where
  "new_emulator T rows cols scrollback_lines =
     \<lparr>em_parser = px_new T rows cols scrollback_lines, em_modes = new_modes,
      em_primary_frozen = None, em_saved_cursor = None\<rparr>"

definition reconcile_alt :: "'p vt100 \<Rightarrow> 'p daemon_emulator \<Rightarrow> 'p daemon_emulator" where
  "reconcile_alt T e = (if \<not> px_alt T (em_parser e) then e\<lparr>em_primary_frozen := None\<rparr> else e)"

text \<open>One turn of the loop over the splits, on the emulator and the cursor into the chunk.\<close>

definition process_split ::
  "'p vt100 \<Rightarrow> bytes \<Rightarrow> 'p daemon_emulator \<times> nat \<Rightarrow> nat \<times> split \<Rightarrow> 'p daemon_emulator \<times> nat" where
  "process_split T chunk ec sp =
     (let (e, cursor) = ec;
          offset = min (fst sp) (length chunk);
          (e1, cursor1) =
            (if cursor < offset
             then (e\<lparr>em_parser := px_process T (em_parser e) (slice cursor offset chunk)\<rparr>, offset)
             else (e, cursor))
      in case snd sp of
           SnapshotPrimary \<Rightarrow>
             ((if \<not> px_alt T (em_parser e1)
               then e1\<lparr>em_primary_frozen := Some (px_contents T (em_parser e1))\<rparr> else e1), cursor1)
         | CaptureSavedCursor \<Rightarrow>
             (e1\<lparr>em_saved_cursor := Some (px_cursor T (em_parser e1))\<rparr>, cursor1))"

definition process :: "'p vt100 \<Rightarrow> 'p daemon_emulator \<Rightarrow> bytes \<Rightarrow> 'p daemon_emulator" where
  "process T e chunk =
     (let (modes, splits) = scan (em_modes e) chunk;
          e = e\<lparr>em_modes := modes\<rparr>
      in if splits = [] then
           reconcile_alt T (e\<lparr>em_parser := px_process T (em_parser e) chunk\<rparr>)
         else
           let (e, cursor) = foldl (process_split T chunk) (e, 0) splits;
               e = (if cursor < length chunk
                    then e\<lparr>em_parser := px_process T (em_parser e) (drop cursor chunk)\<rparr> else e)
           in reconcile_alt T e)"

definition resize :: "'p vt100 \<Rightarrow> u16 \<Rightarrow> u16 \<Rightarrow> 'p daemon_emulator \<Rightarrow> 'p daemon_emulator" where
  "resize T cols rows e = e\<lparr>em_parser := px_set_size T rows cols (em_parser e)\<rparr>"

definition clear_scrollback :: "'p vt100 \<Rightarrow> 'p daemon_emulator \<Rightarrow> 'p daemon_emulator" where
  "clear_scrollback T e = e\<lparr>em_parser := px_set_scrollback T 0 (em_parser e)\<rparr>"

definition applied_size :: "'p vt100 \<Rightarrow> 'p daemon_emulator \<Rightarrow> u16 \<times> u16" where
  "applied_size T e = (let (rows, cols) = px_size T (em_parser e) in (cols, rows))"

definition em_take_bells :: "'p daemon_emulator \<Rightarrow> u32 \<times> 'p daemon_emulator" where
  "em_take_bells e = (let (n, m) = take_bells (em_modes e) in (n, e\<lparr>em_modes := m\<rparr>))"

subsection \<open>The serializer\<close>

text \<open>\<open>ESC [ a ; b <final>\<close> with decimal parameters.\<close>

definition csi2 :: "u16 \<Rightarrow> u16 \<Rightarrow> u8 \<Rightarrow> bytes" where
  "csi2 a b final = [ESC, 0x5b] @ dec_digits (unat a) @ [0x3b] @ dec_digits (unat b) @ [final]"

text \<open>\<open>ESC [ ? n h\<close>.\<close>

definition decset_seq :: "nat \<Rightarrow> bytes" where
  "decset_seq n = [ESC, 0x5b, 0x3f] @ dec_digits n @ [0x68]"

definition saved_cursor_injection :: "(u16 \<times> u16) option \<Rightarrow> u16 \<Rightarrow> u16 \<Rightarrow> bytes option" where
  "saved_cursor_injection saved cols rows =
     (case saved of
        None \<Rightarrow> None
      | Some (row, col) \<Rightarrow>
          let y = min row (if rows = 0 then 0 else rows - 1);
              x = min col (if cols = 0 then 0 else cols - 1)
          in if x = 0 \<and> y = 0 then None
             else Some (csi2 (y + 1) (x + 1) 0x48 @ [ESC, 0x37]))"

definition serialize_body :: "'p vt100 \<Rightarrow> snapshot_options \<Rightarrow> 'p daemon_emulator \<Rightarrow> bytes" where
  "serialize_body T opts e =
     (let out = px_contents T (em_parser e) in
      if \<not> so_absolute_cursor_tail opts then out
      else
        let (rows, cols) = px_size T (em_parser e);
            (row, col) = px_cursor T (em_parser e)
        in if cols \<le> col \<or> rows \<le> row then out
           else
             let i = (case saved_cursor_injection (em_saved_cursor e) cols rows of
                          Some i \<Rightarrow> i | None \<Rightarrow> [])
             in out @ i @ csi2 (row + 1) (col + 1) 0x48)"

definition mouse_seq :: "mouse_mode \<Rightarrow> bytes" where
  "mouse_seq m =
     (case m of
        MouseNone \<Rightarrow> []
      | Press \<Rightarrow> decset_seq 9
      | PressRelease \<Rightarrow> decset_seq 1000
      | ButtonMotion \<Rightarrow> decset_seq 1002
      | AnyMotion \<Rightarrow> decset_seq 1003)"

definition region_seq :: "'p vt100 \<Rightarrow> 'p daemon_emulator \<Rightarrow> bytes" where
  "region_seq T e =
     (case ms_scroll_region (em_modes e) of
        None \<Rightarrow> []
      | Some (t, b) \<Rightarrow>
          (let (row, col) = px_cursor T (em_parser e)
           in csi2 t b 0x72 @ csi2 (row + 1) (col + 1) 0x48))"

definition rehydrate_preamble :: "'p vt100 \<Rightarrow> 'p daemon_emulator \<Rightarrow> bytes" where
  "rehydrate_preamble T e =
     (let p = em_parser e in
      (if px_alt T p then [ESC, 0x5b, 0x30, 0x6d] @ decset_seq 1049 else [])
      @ (if px_bracketed_paste T p then decset_seq 2004 else [])
      @ (if px_application_cursor T p then decset_seq 1 else [])
      @ (if px_application_keypad T p then [ESC, 0x3d] else [])
      @ mouse_seq (px_mouse_mode T p)
      @ (if ms_sgr_pixels (em_modes e) then decset_seq 1016
         else if px_mouse_encoding T p = MouseSgr then decset_seq 1006 else [])
      @ (if ms_focus (em_modes e) then decset_seq 1004 else [])
      @ region_seq T e)"

definition snapshot ::
  "'p vt100 \<Rightarrow> snapshot_options \<Rightarrow> u64 \<Rightarrow> 'p daemon_emulator \<Rightarrow> daemon_snapshot" where
  "snapshot T opts output_sequence e =
     (let (rows, cols) = px_size T (em_parser e);
          is_alt = px_alt T (em_parser e);
          body = serialize_body T opts e;
          (scrollback_ansi, snapshot_ansi) =
            (if is_alt then ((case em_primary_frozen e of Some f \<Rightarrow> f | None \<Rightarrow> []), body)
             else (body, []))
      in \<lparr>sn_scrollback_ansi = scrollback_ansi,
          sn_rehydrate_sequences = rehydrate_preamble T e,
          sn_snapshot_ansi = snapshot_ansi,
          sn_pending_escape_tail = ms_scan_tail (em_modes e),
          sn_cols = cols, sn_rows = rows, sn_is_alternate_screen = is_alt,
          sn_kitty_keyboard_flags = kitty_flags (em_modes e),
          sn_cwd = ms_cwd (em_modes e), sn_title = ms_title (em_modes e),
          sn_output_sequence = output_sequence\<rparr>)"

subsection \<open>Feeding in segments loses nothing\<close>

lemma process_split_parser:
  assumes "parser_stream T" and "c \<le> length chunk"
    and "em_parser e = px_process T p (take c chunk)"
    and "process_split T chunk (e, c) sp = (e', c')"
  shows "c' \<le> length chunk \<and> em_parser e' = px_process T p (take c' chunk)
       \<and> em_modes e' = em_modes e"
proof -
  let ?o = "min (fst sp) (length chunk)"
  show ?thesis
  proof (cases "c < ?o")
    case True
    have "take ?o chunk = take c chunk @ slice c ?o chunk"
      using True by (simp add: slice_def take_drop)
                    (metis append_take_drop_id min.absorb1 min.strict_order_iff take_take)
    then have seg: "px_process T (px_process T p (take c chunk)) (slice c ?o chunk)
        = px_process T p (take ?o chunk)"
      using assms(1) by (simp add: parser_stream_def)
    have "c' = ?o \<and> em_parser e' = px_process T (em_parser e) (slice c ?o chunk) \<and> em_modes e' = em_modes e"
      using assms(4) True by (cases "snd sp") (auto simp: process_split_def Let_def split: if_splits)
    then show ?thesis using seg assms(3) by simp
  next
    case False
    then have "c' = c \<and> em_parser e' = em_parser e \<and> em_modes e' = em_modes e"
      using assms(4) by (cases "snd sp") (auto simp: process_split_def Let_def split: if_splits)
    then show ?thesis using assms(2,3) by simp
  qed
qed

lemma fold_splits_parser:
  assumes "parser_stream T" and "c \<le> length chunk"
    and "em_parser e = px_process T p (take c chunk)"
    and "foldl (process_split T chunk) (e, c) sps = (e', c')"
  shows "c' \<le> length chunk \<and> em_parser e' = px_process T p (take c' chunk)
       \<and> em_modes e' = em_modes e"
  using assms(2-)
proof (induction sps arbitrary: e c)
  case Nil
  then show ?case by simp
next
  case (Cons sp sps)
  obtain e1 c1 where s: "process_split T chunk (e, c) sp = (e1, c1)" by fastforce
  from process_split_parser [OF assms(1) Cons.prems(1,2) s]
  have "c1 \<le> length chunk" "em_parser e1 = px_process T p (take c1 chunk)" "em_modes e1 = em_modes e"
    by simp_all
  with Cons.IH [of c1 e1] Cons.prems(3) s show ?case by simp
qed

lemma reconcile_simps [simp]:
  "em_parser (reconcile_alt T e) = em_parser e"
  "em_modes (reconcile_alt T e) = em_modes e"
  "em_saved_cursor (reconcile_alt T e) = em_saved_cursor e"
  by (simp_all add: reconcile_alt_def)

lemma process_parser:
  assumes "parser_stream T"
  shows "em_parser (process T e chunk) = px_process T (em_parser e) chunk"
    and "em_modes (process T e chunk) = fst (scan (em_modes e) chunk)"
proof -
  obtain m sps where sc: "scan (em_modes e) chunk = (m, sps)" by fastforce
  let ?e = "e\<lparr>em_modes := m\<rparr>"
  obtain e' c where f: "foldl (process_split T chunk) (?e, 0) sps = (e', c)" by fastforce
  have "em_parser ?e = px_process T (em_parser e) (take 0 chunk)"
    using assms by (simp add: parser_stream_def)
  from fold_splits_parser [OF assms _ this f]
  have c: "c \<le> length chunk" and p: "em_parser e' = px_process T (em_parser e) (take c chunk)"
    and m: "em_modes e' = m"
    by simp_all
  have rest: "px_process T (px_process T (em_parser e) (take c chunk)) (drop c chunk)
      = px_process T (em_parser e) chunk"
    using assms unfolding parser_stream_def by (metis append_take_drop_id)
  show "em_parser (process T e chunk) = px_process T (em_parser e) chunk"
    using c p rest by (simp add: process_def sc f Let_def)
  show "em_modes (process T e chunk) = fst (scan (em_modes e) chunk)"
    using m by (simp add: process_def sc f Let_def)
qed

text \<open>Nothing is frozen while the normal screen shows.\<close>

definition frozen_only_in_alt :: "'p vt100 \<Rightarrow> 'p daemon_emulator \<Rightarrow> bool" where
  "frozen_only_in_alt T e \<longleftrightarrow> px_alt T (em_parser e) \<or> em_primary_frozen e = None"

lemma frozen_reconcile: "frozen_only_in_alt T (reconcile_alt T e)"
  by (simp add: frozen_only_in_alt_def reconcile_alt_def)

lemma frozen_process: "frozen_only_in_alt T (process T e chunk)"
  unfolding process_def Let_def by (simp add: frozen_reconcile split: prod.split)

subsection \<open>Properties\<close>

text \<open>
  The emulator may be fed a stream in any chunks: the parser has then seen exactly the stream,
  each byte once and in order, although it was fed in the segments between split points; and
  the primary buffer is frozen only while the alternate screen shows.
\<close>

theorem emulator_feeds_the_stream:
  assumes "parser_stream T"
  shows "em_parser (foldl (process T) e chunks) = px_process T (em_parser e) (concat chunks)
       \<and> em_modes (foldl (process T) e chunks) = foldl (\<lambda>m c. fst (scan m c)) (em_modes e) chunks
       \<and> frozen_only_in_alt T (process T (foldl (process T) e chunks) last_chunk)"
proof (intro conjI)
  show "em_parser (foldl (process T) e chunks) = px_process T (em_parser e) (concat chunks)"
    using assms
    by (induction chunks arbitrary: e) (simp_all add: process_parser parser_stream_def)
  show "em_modes (foldl (process T) e chunks) = foldl (\<lambda>m c. fst (scan m c)) (em_modes e) chunks"
    by (induction chunks arbitrary: e) (simp_all add: process_parser [OF assms])
  show "frozen_only_in_alt T (process T (foldl (process T) e chunks) last_chunk)"
    by (rule frozen_process)
qed

text \<open>
  A parser for the witnesses: it keeps the bytes it was fed and shows the alternate screen from
  the first \<open>?1049h\<close> on.
\<close>

definition ALT_ENTER :: bytes where
  "ALT_ENTER = [ESC, 0x5b, 0x3f, 0x31, 0x30, 0x34, 0x39, 0x68]"

fun contains :: "bytes \<Rightarrow> bytes \<Rightarrow> bool" where
  "contains pat [] = (pat = [])"
| "contains pat (b # bs) = (take (length pat) (b # bs) = pat \<or> contains pat bs)"

definition tape_parser :: "bytes vt100" where
  "tape_parser =
     \<lparr>px_new = (\<lambda>_ _ _. []), px_process = (@), px_set_size = (\<lambda>_ _ p. p),
      px_set_scrollback = (\<lambda>_ p. p), px_alt = contains ALT_ENTER, px_contents = id,
      px_cursor = (\<lambda>_. (0, 0)), px_size = (\<lambda>_. (24, 80)), px_bracketed_paste = (\<lambda>_. False),
      px_application_cursor = (\<lambda>_. False), px_application_keypad = (\<lambda>_. False),
      px_mouse_mode = (\<lambda>_. MouseNone), px_mouse_encoding = (\<lambda>_. MouseDefault)\<rparr>"

lemma tape_parser_stream: "parser_stream tape_parser"
  by (simp add: parser_stream_def tape_parser_def)

lemma emulator_feeds_the_stream_witness:
  "em_parser (foldl (process tape_parser) (new_emulator tape_parser 24 80 10) [[0x41, ESC], [0x37, 0x42]])
   = [0x41, ESC, 0x37, 0x42]"
  using emulator_feeds_the_stream [OF tape_parser_stream, of "new_emulator tape_parser 24 80 10"
      "[[0x41, ESC], [0x37, 0x42]]"]
  by (simp add: new_emulator_def tape_parser_def)

text \<open>
  At an alt-screen entry the primary buffer is frozen as the parser shows it after exactly the
  bytes before the escape, and the warm payload of the alternate screen starts with it.
\<close>

theorem primary_frozen_before_alt:
  assumes "parser_stream T" and "snd (scan (em_modes e) chunk) = [(n, SnapshotPrimary)]"
    and "n \<le> length chunk"
    and "\<not> px_alt T (px_process T (em_parser e) (take n chunk))"
    and "px_alt T (px_process T (em_parser e) chunk)"
  shows "\<exists>rest. warm_payload (snapshot T opts seq (process T e chunk))
       = px_contents T (px_process T (em_parser e) (take n chunk)) @ rest"
proof -
  obtain m where sc: "scan (em_modes e) chunk = (m, [(n, SnapshotPrimary)])"
    using assms(2) by (metis prod.collapse)
  have empty: "px_process T p [] = p" for p
    using assms(1) by (simp add: parser_stream_def)
  have par: "em_parser (process T e chunk) = px_process T (em_parser e) chunk"
    by (rule process_parser [OF assms(1)])
  have "em_primary_frozen (process T e chunk)
      = Some (px_contents T (px_process T (em_parser e) (take n chunk)))"
  proof (cases "n = 0")
    case True
    then show ?thesis
      using assms(4) assms(5) sc empty par
      by (auto simp: process_def process_split_def Let_def reconcile_alt_def split: if_splits)
  next
    case False
    then show ?thesis
      using assms(3,4,5) sc par
      by (auto simp: process_def process_split_def Let_def reconcile_alt_def slice_def min_def
          split: if_splits)
  qed
  then show ?thesis
    using assms(5) par
    by (simp add: warm_payload_def snapshot_def Let_def split: prod.split)
qed

lemma scan_alt_enter: "snd (scan new_modes ([0x41] @ ALT_ENTER)) = [(1, SnapshotPrimary)]"
  by (simp add: ALT_ENTER_def scan_def new_modes_def init_walk_def walk_loop.simps add_bells_def
      step_byte_def esc_follower_def slice_def csi_body_def apply_csi_def split_params_def
      parse_u32_def is_digit_def decimal_val_def List.map_filter_def decset_def offset_def)

lemma primary_frozen_before_alt_witness:
  "\<exists>rest. warm_payload (snapshot tape_parser default_options 0
       (process tape_parser (new_emulator tape_parser 24 80 10) ([0x41] @ ALT_ENTER))) = [0x41] @ rest"
  using primary_frozen_before_alt [OF tape_parser_stream, of "new_emulator tape_parser 24 80 10"
      "[0x41] @ ALT_ENTER" 1 default_options 0] scan_alt_enter
  by (simp add: new_emulator_def tape_parser_def ALT_ENTER_def)

text \<open>
  A scroll region set while the alternate screen shows is emitted in the preamble, before the
  alternate body: the preamble of any such snapshot ends with the region and the cursor.
\<close>

theorem region_armed_in_alt:
  assumes "px_alt T (em_parser e)" and "ms_scroll_region (em_modes e) = Some (t, b)"
  shows "\<exists>head row col. warm_payload (snapshot T opts seq e)
       = head @ csi2 t b 0x72 @ csi2 row col 0x48 @ serialize_body T opts e"
proof -
  obtain r c where rc: "px_cursor T (em_parser e) = (r, c)" by fastforce
  have reg: "region_seq T e = csi2 t b 0x72 @ csi2 (r + 1) (c + 1) 0x48"
    using assms(2) rc by (simp add: region_seq_def)
  obtain front where pre: "rehydrate_preamble T e = front @ region_seq T e"
    unfolding rehydrate_preamble_def Let_def by (metis append.assoc)
  obtain fr where "sn_scrollback_ansi (snapshot T opts seq e) = fr"
    "sn_snapshot_ansi (snapshot T opts seq e) = serialize_body T opts e"
    "sn_rehydrate_sequences (snapshot T opts seq e) = rehydrate_preamble T e"
    using assms(1) by (simp add: snapshot_def Let_def split: prod.split)
  then have "warm_payload (snapshot T opts seq e)
      = (fr @ front) @ csi2 t b 0x72 @ csi2 (r + 1) (c + 1) 0x48 @ serialize_body T opts e"
    by (simp add: warm_payload_def pre reg)
  then show ?thesis by blast
qed

text \<open>The mode tracker reaches such a state: enter the alternate screen, then set a region.\<close>

lemma alt_then_region:
  "ms_alt (fst (scan new_modes (ALT_ENTER @ [ESC, 0x5b, 0x32, 0x3b, 0x35, 0x72])))
   \<and> ms_scroll_region (fst (scan new_modes (ALT_ENTER @ [ESC, 0x5b, 0x32, 0x3b, 0x35, 0x72])))
     = Some (2, 5)"
  by (simp add: ALT_ENTER_def scan_def new_modes_def init_walk_def walk_loop.simps add_bells_def
      step_byte_def esc_follower_def slice_def csi_body_def apply_csi_def split_params_def
      parse_u32_def is_digit_def decimal_val_def List.map_filter_def decset_def offset_def decstbm_def)

lemma region_armed_in_alt_witness:
  "\<exists>head row col. warm_payload (snapshot tape_parser default_options 0
       (process tape_parser (new_emulator tape_parser 24 80 10)
          (ALT_ENTER @ [ESC, 0x5b, 0x32, 0x3b, 0x35, 0x72])))
     = head @ csi2 2 5 0x72 @ csi2 row col 0x48 @ serialize_body tape_parser default_options
         (process tape_parser (new_emulator tape_parser 24 80 10)
           (ALT_ENTER @ [ESC, 0x5b, 0x32, 0x3b, 0x35, 0x72]))"
proof (rule region_armed_in_alt)
  let ?c = "ALT_ENTER @ [ESC, 0x5b, 0x32, 0x3b, 0x35, 0x72]"
  let ?e = "process tape_parser (new_emulator tape_parser 24 80 10) ?c"
  have "em_parser ?e = ?c"
    by (simp add: process_parser [OF tape_parser_stream]) (simp add: new_emulator_def tape_parser_def)
  then show "px_alt tape_parser (em_parser ?e)"
    by (simp add: tape_parser_def ALT_ENTER_def)
  show "ms_scroll_region (em_modes ?e) = Some (2, 5)"
    using alt_then_region
    by (simp only: process_parser [OF tape_parser_stream]) (simp add: new_emulator_def)
qed

text \<open>
  The saved cursor is re-armed inside the screen: for a screen of at least one row and column the
  injected position is between 1 and the size, and home is never injected.
\<close>

theorem saved_cursor_in_bounds:
  assumes "0 < rows" and "0 < cols" and "saved_cursor_injection (Some (row, col)) cols rows = Some out"
  shows "\<exists>y x. out = csi2 y x 0x48 @ [ESC, 0x37] \<and> 1 \<le> y \<and> y \<le> rows \<and> 1 \<le> x \<and> x \<le> cols
       \<and> (y, x) \<noteq> (1, 1)"
proof -
  define y where "y = min row (rows - 1)"
  define x where "x = min col (cols - 1)"
  have step: "1 \<le> z + 1 \<and> z + 1 \<le> n" if "z \<le> n - 1" "0 < n" for z n :: u16
  proof -
    have n: "unat (n - 1) = unat n - 1" "0 < unat n"
      using that(2) by (simp_all add: unat_minus_one word_less_nat_alt unat_gt_0)
    have "unat z \<le> unat n - 1"
      using that(1) n by (simp add: word_le_nat_alt)
    moreover have "unat n < 65536" by (rule unat_u16_lt)
    ultimately have "unat (z + 1) = unat z + 1"
      using n by (simp add: unat_word_ariths)
    then show ?thesis
      using \<open>unat z \<le> unat n - 1\<close> n by (simp add: word_le_nat_alt)
  qed
  have "out = csi2 (y + 1) (x + 1) 0x48 @ [ESC, 0x37]" "\<not> (x = 0 \<and> y = 0)"
    using assms by (auto simp: saved_cursor_injection_def y_def x_def Let_def split: if_splits)
  moreover have "y \<le> rows - 1" "x \<le> cols - 1"
    by (simp_all add: y_def x_def)
  ultimately show ?thesis
    using step [OF _ assms(1)] step [OF _ assms(2)]
    by (intro exI [of _ "y + 1"] exI [of _ "x + 1"]) auto
qed

lemma saved_cursor_in_bounds_witness:
  "\<exists>y x. csi2 24 6 0x48 @ [ESC, 0x37] = csi2 y x 0x48 @ [ESC, 0x37]
     \<and> 1 \<le> y \<and> y \<le> 24 \<and> 1 \<le> x \<and> x \<le> 80 \<and> (y, x) \<noteq> (1 :: u16, 1 :: u16)"
  by (rule saved_cursor_in_bounds [where row = 30 and col = 5])
     (simp_all add: saved_cursor_injection_def min_def)

end
