(* ===== verification/HistoryStore.thy ===== *)
theory HistoryStore
  imports HistoryLog Emulator
begin

text \<open>
  The files of the on-disk history and the operations on them, \<open>grove-daemon/src/history.rs\<close>: the owner
  lock, \<open>meta.json\<close>, the durable checkpoint, the incremental log, the writer, and the reader that
  composes a cold restore.

  The disk is a map from (session directory, file name) to bytes, with the set of directories
  whose owner lock is held. Every effect on it is one step of a budget: when the budget is used
  up the current step fails (a write may still leave a prefix, \<open>dk_torn\<close>) and so does every later
  one. A budget of \<open>n\<close> is thus a crash, or a full disk, after \<open>n\<close> steps; a large budget is a run
  without failures. Effects reach the disk in program order: reordering of unsynced writes by a
  power loss is not modelled, so \<open>fsync\<close> is a step without effect.

  \<open>serde_json\<close> is a parameter (\<open>codec\<close>); its documented law is that it reads back what it wrote
  (\<open>codec_ok\<close>).
\<close>

subsection \<open>Data\<close>

record session_meta =
  sm_cwd :: "string option"
  sm_cols :: u16
  sm_rows :: u16
  sm_started_at_ms :: u64
  sm_ended_at_ms :: "u64 option"
  sm_exit_code :: "int option"

definition new_meta :: "u64 \<Rightarrow> string option \<Rightarrow> u16 \<Rightarrow> u16 \<Rightarrow> session_meta" where
  "new_meta now cwd cols rows =
     \<lparr>sm_cwd = cwd, sm_cols = cols, sm_rows = rows, sm_started_at_ms = now,
      sm_ended_at_ms = None, sm_exit_code = None\<rparr>"

record checkpoint_file =
  cp_snapshot_ansi :: bytes
  cp_scrollback_ansi :: bytes
  cp_rehydrate_sequences :: bytes
  cp_pending_escape_tail :: bytes
  cp_cwd :: "string option"
  cp_cols :: u16
  cp_rows :: u16
  cp_is_alternate_screen :: bool
  cp_kitty_keyboard_flags :: u32
  cp_last_title :: "string option"
  cp_scrollback_seq :: u64
  cp_generation :: u32
  cp_checkpointed_at_ms :: u64

record codec =
  jc_meta_enc :: "session_meta \<Rightarrow> bytes"
  jc_meta_dec :: "bytes \<Rightarrow> session_meta option"
  jc_cp_enc :: "checkpoint_file \<Rightarrow> bytes"
  jc_cp_dec :: "bytes \<Rightarrow> checkpoint_file option"

definition codec_ok :: "codec \<Rightarrow> bool" where
  "codec_ok J \<longleftrightarrow>
     (\<forall>m. jc_meta_dec J (jc_meta_enc J m) = Some m)
     \<and> (\<forall>c. jc_cp_dec J (jc_cp_enc J c) = Some c \<and> jc_cp_enc J c \<noteq> [])"

subsection \<open>The disk\<close>

definition OWNER_LOCK :: string where "OWNER_LOCK = ''.owner.lock''"
definition META_JSON :: string where "META_JSON = ''meta.json''"
definition CHECKPOINT_JSON :: string where "CHECKPOINT_JSON = ''checkpoint.json''"
definition OUTPUT_LOG :: string where "OUTPUT_LOG = ''output.log''"

type_synonym path = "string \<times> string"

record disk =
  dk_files :: "path \<Rightarrow> bytes option"
  dk_locks :: "string list"
  dk_budget :: nat
  dk_torn :: "nat option"

type_synonym 'a io = "disk \<Rightarrow> ('a, unit) result \<times> disk"

definition io_step :: "(disk \<Rightarrow> disk) \<Rightarrow> (nat \<Rightarrow> disk \<Rightarrow> disk) \<Rightarrow> unit io" where
  "io_step whole part d =
     (case dk_budget d of
        Suc n \<Rightarrow> (Ok (), whole (d\<lparr>dk_budget := n\<rparr>))
      | 0 \<Rightarrow>
          (Err (), case dk_torn d of None \<Rightarrow> d | Some k \<Rightarrow> part k (d\<lparr>dk_torn := None\<rparr>)))"

definition set_file :: "path \<Rightarrow> bytes option \<Rightarrow> disk \<Rightarrow> disk" where
  "set_file p c d = d\<lparr>dk_files := (dk_files d)(p := c)\<rparr>"

text \<open>\<open>fs::write\<close>: truncate, then write.\<close>

definition fs_write :: "path \<Rightarrow> bytes \<Rightarrow> unit io" where
  "fs_write p data = io_step (set_file p (Some data)) (\<lambda>k. set_file p (Some (take k data)))"

text \<open>\<open>write_all\<close> on a file opened for appending; the open fails when the file is missing.\<close>

definition fs_append :: "path \<Rightarrow> bytes \<Rightarrow> unit io" where
  "fs_append p data d =
     (case dk_files d p of
        None \<Rightarrow> (Err (), d)
      | Some old \<Rightarrow>
          io_step (set_file p (Some (old @ data))) (\<lambda>k. set_file p (Some (old @ take k data))) d)"

definition fs_rename :: "path \<Rightarrow> path \<Rightarrow> unit io" where
  "fs_rename p q = io_step (\<lambda>d. set_file p None (set_file q (dk_files d p) d)) (\<lambda>k d. d)"

definition fs_remove :: "path \<Rightarrow> unit io" where
  "fs_remove p = io_step (set_file p None) (\<lambda>k d. d)"

definition fs_sync :: "unit io" where
  "fs_sync = io_step (\<lambda>d. d) (\<lambda>k d. d)"

definition bind_io :: "'a io \<Rightarrow> ('a \<Rightarrow> 'b io) \<Rightarrow> 'b io" where
  "bind_io m f d = (case m d of (Ok a, d') \<Rightarrow> f a d' | (Err e, d') \<Rightarrow> (Err e, d'))"

definition seq_io :: "'a io \<Rightarrow> 'b io \<Rightarrow> 'b io" where
  "seq_io m n = bind_io m (\<lambda>_. n)"

definition ignore_io :: "'a io \<Rightarrow> unit io" where
  "ignore_io m d = (Ok (), snd (m d))"

definition return_io :: "'a \<Rightarrow> 'a io" where
  "return_io a d = (Ok a, d)"

subsection \<open>Owner lock\<close>

datatype lock_error = OwnedElsewhere | LockIo

definition acquire :: "string \<Rightarrow> disk \<Rightarrow> (unit, lock_error) result \<times> disk" where
  "acquire dir d =
     (case (case dk_files d (dir, OWNER_LOCK) of
              Some _ \<Rightarrow> (Ok (), d)
            | None \<Rightarrow> fs_write (dir, OWNER_LOCK) [] d) of
        (Err _, d') \<Rightarrow> (Err LockIo, d')
      | (Ok _, d') \<Rightarrow>
          if dir \<in> set (dk_locks d') then (Err OwnedElsewhere, d')
          else (Ok (), d'\<lparr>dk_locks := dir # dk_locks d'\<rparr>))"

text \<open>Dropping the lock (closing its file).\<close>

definition release :: "string \<Rightarrow> disk \<Rightarrow> disk" where
  "release dir d = d\<lparr>dk_locks := removeAll dir (dk_locks d)\<rparr>"

subsection \<open>meta.json and checkpoint.json\<close>

definition read_meta :: "codec \<Rightarrow> string \<Rightarrow> disk \<Rightarrow> session_meta option" where
  "read_meta J dir d =
     (case dk_files d (dir, META_JSON) of None \<Rightarrow> None | Some raw \<Rightarrow> jc_meta_dec J raw)"

definition write_meta :: "codec \<Rightarrow> string \<Rightarrow> session_meta \<Rightarrow> unit io" where
  "write_meta J dir m = fs_write (dir, META_JSON) (jc_meta_enc J m)"

definition read_checkpoint :: "codec \<Rightarrow> string \<Rightarrow> disk \<Rightarrow> checkpoint_file option" where
  "read_checkpoint J dir d =
     (case dk_files d (dir, CHECKPOINT_JSON) of
        None \<Rightarrow> None
      | Some raw \<Rightarrow> if raw = [] then None else jc_cp_dec J raw)"

text \<open>
  \<open>write_durable\<close>: create the temporary file, write it, sync it, rename it. The sync of the
  directory is best effort.
\<close>

definition write_durable :: "path \<Rightarrow> bytes \<Rightarrow> unit io" where
  "write_durable p data =
     (let tmp = (fst p, snd p @ ''.tmp'') in
      seq_io (fs_write tmp [])
        (seq_io (fs_append tmp data)
          (seq_io fs_sync
            (seq_io (fs_rename tmp p)
              (ignore_io fs_sync)))))"

subsection \<open>The writer\<close>

datatype append_outcome = Appended | NeedsCheckpoint

record history_writer =
  hw_dir :: string
  hw_log_generation :: "u32 option"
  hw_log_bytes :: "u64 option"
  hw_appended_output_bytes :: u64
  hw_needs_full_anchor :: bool
  hw_log_max_bytes :: u64

text \<open>\<open>create_dir_all\<close> makes the directory; directories carry no content of their own here.\<close>

definition open_session ::
  "codec \<Rightarrow> string \<Rightarrow> session_meta \<Rightarrow> disk \<Rightarrow> (history_writer, lock_error) result \<times> disk" where
  "open_session J pty_id meta d =
     (let dir = percent_encode pty_id in
      case fs_sync d of
        (Err _, d) \<Rightarrow> (Err LockIo, d)
      | (Ok _, d) \<Rightarrow>
          (case acquire dir d of
             (Err e, d) \<Rightarrow> (Err e, d)
           | (Ok _, d) \<Rightarrow>
               let d = snd (ignore_io (fs_remove (dir, CHECKPOINT_JSON)) d);
                   d = snd (ignore_io (fs_remove (dir, OUTPUT_LOG)) d)
               in case write_meta J dir meta d of
                    (Err _, d) \<Rightarrow> (Err LockIo, release dir d)
                  | (Ok _, d) \<Rightarrow>
                      (Ok \<lparr>hw_dir = dir, hw_log_generation = Some 0, hw_log_bytes = Some 0,
                           hw_appended_output_bytes = 0, hw_needs_full_anchor = True,
                           hw_log_max_bytes = DEFAULT_LOG_MAX_BYTES\<rparr>, d)))"

definition register_writer ::
  "string \<Rightarrow> disk \<Rightarrow> (history_writer, lock_error) result \<times> disk" where
  "register_writer pty_id d =
     (let dir = percent_encode pty_id in
      case fs_sync d of
        (Err _, d) \<Rightarrow> (Err LockIo, d)
      | (Ok _, d) \<Rightarrow>
          (case acquire dir d of
             (Err e, d) \<Rightarrow> (Err e, d)
           | (Ok _, d) \<Rightarrow>
               (Ok \<lparr>hw_dir = dir, hw_log_generation = None, hw_log_bytes = None,
                    hw_appended_output_bytes = 0, hw_needs_full_anchor = True,
                    hw_log_max_bytes = DEFAULT_LOG_MAX_BYTES\<rparr>, d)))"

definition force_full_anchor :: "history_writer \<Rightarrow> history_writer" where
  "force_full_anchor w = w\<lparr>hw_needs_full_anchor := True\<rparr>"

definition checkpoint_generation :: "codec \<Rightarrow> history_writer \<Rightarrow> disk \<Rightarrow> u32 option" where
  "checkpoint_generation J w d = map_option cp_generation (read_checkpoint J (hw_dir w) d)"

definition log_from_scratch :: "codec \<Rightarrow> history_writer \<Rightarrow> disk \<Rightarrow> history_writer" where
  "log_from_scratch J w d =
     w\<lparr>hw_log_bytes := Some 0, hw_log_generation := Some (unwrap_or 0 (checkpoint_generation J w d)),
       hw_appended_output_bytes := 0\<rparr>"

definition last_seq :: "bytes \<Rightarrow> u64" where
  "last_seq buf =
     (case decode_log buf of
        None \<Rightarrow> 0
      | Some l \<Rightarrow> if dl_batches l = [] then 0 else lb_seq (last (dl_batches l)))"

definition resolve_log_state :: "codec \<Rightarrow> history_writer \<Rightarrow> disk \<Rightarrow> history_writer" where
  "resolve_log_state J w d =
     (if hw_log_bytes w \<noteq> None \<and> hw_log_generation w \<noteq> None then w
      else
        case dk_files d (hw_dir w, OUTPUT_LOG) of
          Some buf \<Rightarrow>
            (case decode_log_header buf of
               Some gen \<Rightarrow>
                 w\<lparr>hw_log_generation := Some gen, hw_log_bytes := Some (word_of_nat (length buf)),
                   hw_appended_output_bytes := last_seq buf\<rparr>
             | None \<Rightarrow> log_from_scratch J w d)
        | None \<Rightarrow> log_from_scratch J w d)"

definition append_increments ::
  "codec \<Rightarrow> history_record list \<Rightarrow> history_writer \<Rightarrow> disk
   \<Rightarrow> (append_outcome, unit) result \<times> history_writer \<times> disk" where
  "append_increments J records w d =
     (if records = [] then (Ok Appended, w, d)
      else
        let w = resolve_log_state J w d;
            seq = hw_appended_output_bytes w + sum_output records;
            batch = encode_log_batch seq records;
            current = max (unwrap_or 0 (hw_log_bytes w)) (word_of_nat LOG_HEADER_BYTES)
        in if hw_log_max_bytes w < current + word_of_nat (length batch)
           then (Ok NeedsCheckpoint, w, d)
           else
             let (r1, w, d) =
               (if hw_log_bytes w = Some 0 then
                  (case fs_write (hw_dir w, OUTPUT_LOG)
                          (encode_log_header (unwrap_or 0 (hw_log_generation w))) d of
                     (Err e, d) \<Rightarrow> (Err e, w, d)
                   | (Ok _, d) \<Rightarrow>
                       (Ok (), w\<lparr>hw_log_bytes := Some (word_of_nat LOG_HEADER_BYTES)\<rparr>, d))
                else (Ok (), w, d))
             in case r1 of
                  Err e \<Rightarrow> (Err e, w, d)
                | Ok _ \<Rightarrow>
                    (case fs_append (hw_dir w, OUTPUT_LOG) batch d of
                       (Err e, d) \<Rightarrow> (Err e, w, d)
                     | (Ok _, d) \<Rightarrow>
                         (Ok Appended,
                          w\<lparr>hw_log_bytes := Some (unwrap_or (word_of_nat LOG_HEADER_BYTES)
                               (hw_log_bytes w) + word_of_nat (length batch)),
                            hw_appended_output_bytes := seq\<rparr>, d)))"

definition checkpoint ::
  "codec \<Rightarrow> u64 \<Rightarrow> checkpoint_file \<Rightarrow> history_writer \<Rightarrow> disk
   \<Rightarrow> (unit, unit) result \<times> history_writer \<times> disk" where
  "checkpoint J now c w d =
     (let w = resolve_log_state J w d;
          generation = unwrap_or 0 (hw_log_generation w) + 1;
          c = c\<lparr>cp_generation := generation, cp_checkpointed_at_ms := now\<rparr>
      in case write_durable (hw_dir w, CHECKPOINT_JSON) (jc_cp_enc J c) d of
           (Err e, d) \<Rightarrow> (Err e, w, d)
         | (Ok _, d) \<Rightarrow>
             (case fs_write (hw_dir w, OUTPUT_LOG) (encode_log_header generation) d of
                (Err e, d) \<Rightarrow> (Err e, w, d)
              | (Ok _, d) \<Rightarrow>
                  (Ok (),
                   w\<lparr>hw_log_generation := Some generation,
                     hw_log_bytes := Some (word_of_nat LOG_HEADER_BYTES),
                     hw_appended_output_bytes := 0, hw_needs_full_anchor := False\<rparr>, d)))"

definition stamp_ended ::
  "codec \<Rightarrow> u64 \<Rightarrow> int option \<Rightarrow> history_writer \<Rightarrow> unit io" where
  "stamp_ended J now exit_code w d =
     (case read_meta J (hw_dir w) d of
        None \<Rightarrow> (Ok (), d)
      | Some meta \<Rightarrow>
          write_meta J (hw_dir w) (meta\<lparr>sm_ended_at_ms := Some now, sm_exit_code := exit_code\<rparr>) d)"

definition reopen ::
  "codec \<Rightarrow> history_writer \<Rightarrow> disk \<Rightarrow> (unit, unit) result \<times> history_writer \<times> disk" where
  "reopen J w d =
     (case read_meta J (hw_dir w) d of
        None \<Rightarrow> (Ok (), w\<lparr>hw_needs_full_anchor := True\<rparr>, d)
      | Some meta \<Rightarrow>
          (case write_meta J (hw_dir w) (meta\<lparr>sm_ended_at_ms := None, sm_exit_code := None\<rparr>) d of
             (Err e, d) \<Rightarrow> (Err e, w, d)
           | (Ok _, d) \<Rightarrow> (Ok (), w\<lparr>hw_needs_full_anchor := True\<rparr>, d)))"

definition remove_session_dir :: "string \<Rightarrow> disk \<Rightarrow> disk" where
  "remove_session_dir dir d =
     (case dk_budget d of
        0 \<Rightarrow> d
      | Suc n \<Rightarrow>
          d\<lparr>dk_files := (\<lambda>p. if fst p = dir then None else dk_files d p),
            dk_locks := removeAll dir (dk_locks d), dk_budget := n\<rparr>)"

subsection \<open>The cold-restore reader\<close>

record cold_restore =
  cr_scrollback_for_replay :: bytes
  cr_final_screen_ansi :: bytes
  cr_cwd :: "string option"
  cr_cols :: u16
  cr_rows :: u16
  cr_is_alternate_screen :: bool
  cr_pending_escape_tail :: bytes
  cr_degraded :: bool

definition cold_snapshot :: "cold_restore \<Rightarrow> bytes" where
  "cold_snapshot r =
     (if cr_is_alternate_screen r then cr_final_screen_ansi r else cr_scrollback_for_replay r)"

definition has_restorable_history :: "codec \<Rightarrow> string \<Rightarrow> disk \<Rightarrow> bool" where
  "has_restorable_history J pty_id d =
     (case read_meta J (percent_encode pty_id) d of
        None \<Rightarrow> False
      | Some m \<Rightarrow> sm_ended_at_ms m = None)"

definition checkpoint_base_bytes :: "checkpoint_file \<Rightarrow> bytes" where
  "checkpoint_base_bytes c =
     (if cp_scrollback_ansi c = [] \<and> cp_is_alternate_screen c
      then ALT_ENTER @ cp_rehydrate_sequences c @ cp_snapshot_ansi c
      else cp_scrollback_ansi c)"

text \<open>\<open>Option::or_else\<close> and \<open>Option::or\<close>.\<close>

definition or_else :: "'a option \<Rightarrow> 'a option \<Rightarrow> 'a option" where
  "or_else x y = (case x of None \<Rightarrow> y | Some v \<Rightarrow> Some v)"

definition finish ::
  "'p vt100 \<Rightarrow> 'p daemon_emulator \<Rightarrow> bytes \<Rightarrow> checkpoint_file option \<Rightarrow> session_meta \<Rightarrow> bool
   \<Rightarrow> cold_restore" where
  "finish T scratch scrollback_for_replay cp meta degraded =
     (let snap = snapshot T default_options 0 scratch;
          cwd = or_else (or_else (Option.bind cp cp_cwd) (sn_cwd snap)) (sm_cwd meta);
          pending = (case cp of
                       Some c \<Rightarrow> cp_pending_escape_tail c
                     | None \<Rightarrow> sn_pending_escape_tail snap);
          final_screen =
            (if sn_is_alternate_screen snap \<and> sn_scrollback_ansi snap = []
             then sn_snapshot_ansi snap else sn_scrollback_ansi snap)
      in \<lparr>cr_scrollback_for_replay = scrollback_for_replay, cr_final_screen_ansi = final_screen,
          cr_cwd = cwd, cr_cols = sn_cols snap, cr_rows = sn_rows snap,
          cr_is_alternate_screen = sn_is_alternate_screen snap,
          cr_pending_escape_tail = pending, cr_degraded = degraded\<rparr>)"

fun replay_record ::
  "'p vt100 \<Rightarrow> 'p daemon_emulator \<times> bytes \<Rightarrow> history_record \<Rightarrow> 'p daemon_emulator \<times> bytes" where
  "replay_record T (scratch, sb) (Output bs) = (process T scratch bs, sb @ bs)"
| "replay_record T (scratch, sb) (Resize cols rows) = (resize T cols rows scratch, sb)"
| "replay_record T (scratch, sb) Clear = (scratch, [])"

definition restore_from_log ::
  "codec \<Rightarrow> 'p vt100 \<Rightarrow> string \<Rightarrow> session_meta \<Rightarrow> checkpoint_file option \<Rightarrow> bool \<Rightarrow> disk
   \<Rightarrow> cold_restore option" where
  "restore_from_log J T dir meta cp torn d =
     (case dk_files d (dir, OUTPUT_LOG) of
        None \<Rightarrow> None
      | Some buf \<Rightarrow>
          (case decode_log buf of
             None \<Rightarrow> None
           | Some log \<Rightarrow>
               if dl_batches log = [] then None
               else if (case cp of
                          Some c \<Rightarrow> dl_generation log \<noteq> cp_generation c
                        | None \<Rightarrow> \<not> torn \<and> dl_generation log \<noteq> 0) then None
               else
                 let degraded = (cp = None \<and> torn);
                     cols = max (case cp of Some c \<Rightarrow> cp_cols c | None \<Rightarrow> sm_cols meta) 1;
                     rows = max (case cp of Some c \<Rightarrow> cp_rows c | None \<Rightarrow> sm_rows meta) 1;
                     scratch = new_emulator T rows cols DEFAULT_SCROLLBACK_LINES;
                     base = (case cp of
                               Some c \<Rightarrow> (process T scratch (checkpoint_base_bytes c),
                                          cp_scrollback_ansi c)
                             | None \<Rightarrow> (scratch, []));
                     (scratch, sb) =
                       foldl (replay_record T) base (concat (map lb_records (dl_batches log)))
                 in Some (finish T scratch sb cp meta degraded)))"

definition restore_from_checkpoint ::
  "'p vt100 \<Rightarrow> checkpoint_file \<Rightarrow> session_meta \<Rightarrow> cold_restore" where
  "restore_from_checkpoint T c meta =
     (let scratch = new_emulator T (max (cp_rows c) 1) (max (cp_cols c) 1) DEFAULT_SCROLLBACK_LINES;
          scratch = process T scratch (checkpoint_base_bytes c);
          scrollback =
            (if cp_scrollback_ansi c = [] \<and> cp_is_alternate_screen c
             then cp_snapshot_ansi c else cp_scrollback_ansi c)
      in finish T scratch scrollback (Some c) meta False)"

definition detect_cold_restore ::
  "codec \<Rightarrow> 'p vt100 \<Rightarrow> string \<Rightarrow> bool \<Rightarrow> disk \<Rightarrow> cold_restore option" where
  "detect_cold_restore J T pty_id ignore_clean_end d =
     (let dir = percent_encode pty_id in
      case read_meta J dir d of
        None \<Rightarrow> None
      | Some meta \<Rightarrow>
          if sm_ended_at_ms meta \<noteq> None \<and> \<not> ignore_clean_end then None
          else
            let raw = read_checkpoint J dir d in
            if (case raw of
                  Some c \<Rightarrow> cp_checkpointed_at_ms c \<noteq> 0
                    \<and> cp_checkpointed_at_ms c < sm_started_at_ms meta
                | None \<Rightarrow> False) then None
            else
              let torn = (raw = None \<and> dk_files d (dir, CHECKPOINT_JSON) \<noteq> None) in
              case restore_from_log J T dir meta raw torn d of
                Some r \<Rightarrow> Some r
              | None \<Rightarrow> map_option (\<lambda>c. restore_from_checkpoint T c meta) raw)"

subsection \<open>What an effect can leave behind\<close>

lemmas io_simps = bind_io_def seq_io_def ignore_io_def return_io_def

text \<open>Every primitive effect touches one file only, or two for the rename.\<close>

lemma set_file_apply [simp]: "dk_files (set_file p c d) q = (if q = p then c else dk_files d q)"
  by (simp add: set_file_def)

lemma fs_write_frame:
  "fs_write p data d = (r, d') \<Longrightarrow> q \<noteq> p \<Longrightarrow> dk_files d' q = dk_files d q"
  by (auto simp: fs_write_def io_step_def split: nat.splits option.splits)

lemma fs_append_frame:
  "fs_append p data d = (r, d') \<Longrightarrow> q \<noteq> p \<Longrightarrow> dk_files d' q = dk_files d q"
  by (auto simp: fs_append_def io_step_def split: nat.splits option.splits)

lemma fs_sync_frame: "fs_sync d = (r, d') \<Longrightarrow> dk_files d' q = dk_files d q"
  by (auto simp: fs_sync_def io_step_def split: nat.splits option.splits)

lemma fs_rename_frame:
  "fs_rename p q d = (r, d') \<Longrightarrow> x \<noteq> p \<Longrightarrow> x \<noteq> q \<Longrightarrow> dk_files d' x = dk_files d x"
  by (auto simp: fs_rename_def io_step_def split: nat.splits option.splits)

lemma fs_write_cases:
  assumes "fs_write p data d = (r, d')"
  obtains (ok) "r = Ok ()" "dk_files d' p = Some data"
  | (none) "r = Err ()" "dk_files d' p = dk_files d p"
  | (part) k where "r = Err ()" "dk_files d' p = Some (take k data)"
  using assms by (auto simp: fs_write_def io_step_def split: nat.splits option.splits)

lemma fs_append_cases:
  assumes "fs_append p data d = (r, d')"
  obtains (ok) old where "r = Ok ()" "dk_files d p = Some old" "dk_files d' p = Some (old @ data)"
  | (none) "r = Err ()" "dk_files d' p = dk_files d p"
  | (part) k old where "r = Err ()" "dk_files d p = Some old" "dk_files d' p = Some (old @ take k data)"
  using assms by (auto simp: fs_append_def io_step_def split: nat.splits option.splits)

lemma fs_rename_cases:
  assumes "fs_rename p q d = (r, d')" and "p \<noteq> q"
  obtains (ok) "r = Ok ()" "dk_files d' q = dk_files d p"
  | (none) "r = Err ()" "dk_files d' q = dk_files d q"
  using assms by (auto simp: fs_rename_def io_step_def split: nat.splits option.splits)

text \<open>The durable write replaces the file whole or leaves it as it was.\<close>

lemma write_durable_cases:
  assumes "write_durable p data d = (r, d')"
  obtains (ok) "r = Ok ()" "dk_files d' p = Some data"
  | (none) "r = Err ()" "dk_files d' p = dk_files d p"
proof -
  define tmp where "tmp = (fst p, snd p @ ''.tmp'')"
  have ne: "tmp \<noteq> p" "p \<noteq> tmp" by (cases p; simp add: tmp_def)+
  note wd = write_durable_def [of p data] Let_def io_simps tmp_def [symmetric]
  obtain r1 d1 where s1: "fs_write tmp [] d = (r1, d1)" by fastforce
  note f1 = fs_write_frame [OF s1 ne(2)]
  show ?thesis
  proof (cases r1)
    case (Err e)
    then have "r = Err ()" "d' = d1" using assms s1 by (simp_all add: wd)
    then show ?thesis using f1 none by simp
  next
    case o1: (Ok u)
    have c1: "dk_files d1 tmp = Some []"
      using s1 o1 by (cases rule: fs_write_cases) auto
    obtain r2 d2 where s2: "fs_append tmp data d1 = (r2, d2)" by fastforce
    note f2 = fs_append_frame [OF s2 ne(2)]
    show ?thesis
    proof (cases r2)
      case (Err e)
      then have "r = Err ()" "d' = d2" using assms s1 s2 o1 by (simp_all add: wd)
      then show ?thesis using f1 f2 none by simp
    next
      case o2: (Ok u2)
      have c2: "dk_files d2 tmp = Some data"
        using s2 o2 c1 by (cases rule: fs_append_cases) auto
      obtain r3 d3 where s3: "fs_sync d2 = (r3, d3)" by fastforce
      note f3 = fs_sync_frame [OF s3]
      show ?thesis
      proof (cases r3)
        case (Err e)
        then have "r = Err ()" "d' = d3" using assms s1 s2 s3 o1 o2 by (simp_all add: wd)
        then show ?thesis using f1 f2 f3 none by simp
      next
        case o3: (Ok u3)
        obtain r4 d4 where s4: "fs_rename tmp p d3 = (r4, d4)" by fastforce
        show ?thesis
        proof (cases r4)
          case (Err e)
          then have "r = Err ()" "d' = d4" using assms s1 s2 s3 s4 o1 o2 o3 by (simp_all add: wd)
          moreover have "dk_files d4 p = dk_files d3 p"
            using s4 ne(1) Err by (cases rule: fs_rename_cases) auto
          ultimately show ?thesis using f1 f2 f3 none by simp
        next
          case o4: (Ok u4)
          then have "r = Ok ()" "d' = snd (fs_sync d4)"
            using assms s1 s2 s3 s4 o1 o2 o3 by (simp_all add: wd)
          moreover have "dk_files d4 p = Some data"
            using s4 ne(1) o4 c2 f3 by (cases rule: fs_rename_cases) auto
          moreover have "dk_files (snd (fs_sync d4)) p = dk_files d4 p"
            by (rule fs_sync_frame) (rule prod.collapse [symmetric])
          ultimately show ?thesis using ok by simp
        qed
      qed
    qed
  qed
qed

lemma write_durable_frame:
  assumes "write_durable p data d = (r, d')" and "q \<noteq> p" and "q \<noteq> (fst p, snd p @ ''.tmp'')"
  shows "dk_files d' q = dk_files d q"
proof -
  have a: "fs_write (fst p, snd p @ ''.tmp'') [] d = (r1, d1) \<Longrightarrow> dk_files d1 q = dk_files d q" for r1 d d1
    using fs_write_frame assms(3) by blast
  have b: "fs_append (fst p, snd p @ ''.tmp'') data d = (r1, d1) \<Longrightarrow> dk_files d1 q = dk_files d q" for r1 d d1
    using fs_append_frame assms(3) by blast
  have c: "fs_rename (fst p, snd p @ ''.tmp'') p d = (r1, d1) \<Longrightarrow> dk_files d1 q = dk_files d q" for r1 d d1
    using fs_rename_frame assms(2,3) by blast
  have e: "dk_files (snd (fs_sync d)) q = dk_files d q" for d
    using fs_sync_frame [of d "fst (fs_sync d)" "snd (fs_sync d)" q] by simp
  show ?thesis
    using assms(1)
    by (auto simp: write_durable_def Let_def io_simps e split: prod.splits result.splits
        dest!: a b c fs_sync_frame [where q = q])
qed

subsection \<open>The checkpoint and a crash inside it\<close>

lemma hw_dir_resolve [simp]: "hw_dir (resolve_log_state J w d) = hw_dir w"
  by (simp add: resolve_log_state_def log_from_scratch_def split: option.split)

lemma file_names [simp]:
  "META_JSON \<noteq> CHECKPOINT_JSON" "META_JSON \<noteq> OUTPUT_LOG" "CHECKPOINT_JSON \<noteq> OUTPUT_LOG"
  "CHECKPOINT_JSON \<noteq> META_JSON" "OUTPUT_LOG \<noteq> META_JSON" "OUTPUT_LOG \<noteq> CHECKPOINT_JSON"
  "META_JSON \<noteq> CHECKPOINT_JSON @ ''.tmp''" "OUTPUT_LOG \<noteq> CHECKPOINT_JSON @ ''.tmp''"
  "CHECKPOINT_JSON \<noteq> CHECKPOINT_JSON @ ''.tmp''"
  by (simp_all add: META_JSON_def CHECKPOINT_JSON_def OUTPUT_LOG_def)

text \<open>The generation the next checkpoint gets, and the file it writes.\<close>

definition next_generation :: "codec \<Rightarrow> history_writer \<Rightarrow> disk \<Rightarrow> u32" where
  "next_generation J w d = unwrap_or 0 (hw_log_generation (resolve_log_state J w d)) + 1"

definition stamped :: "codec \<Rightarrow> u64 \<Rightarrow> checkpoint_file \<Rightarrow> history_writer \<Rightarrow> disk \<Rightarrow> checkpoint_file" where
  "stamped J now c w d = c\<lparr>cp_generation := next_generation J w d, cp_checkpointed_at_ms := now\<rparr>"

lemma checkpoint_unfold:
  "checkpoint J now c w d =
     (case write_durable (hw_dir w, CHECKPOINT_JSON) (jc_cp_enc J (stamped J now c w d)) d of
        (Err e, d1) \<Rightarrow> (Err e, resolve_log_state J w d, d1)
      | (Ok _, d1) \<Rightarrow>
          (case fs_write (hw_dir w, OUTPUT_LOG) (encode_log_header (next_generation J w d)) d1 of
             (Err e, d2) \<Rightarrow> (Err e, resolve_log_state J w d, d2)
           | (Ok _, d2) \<Rightarrow>
               (Ok (), (resolve_log_state J w d)\<lparr>hw_log_generation := Some (next_generation J w d),
                  hw_log_bytes := Some (word_of_nat LOG_HEADER_BYTES),
                  hw_appended_output_bytes := 0, hw_needs_full_anchor := False\<rparr>, d2)))"
  unfolding checkpoint_def stamped_def next_generation_def Let_def hw_dir_resolve ..

lemma checkpoint_cases:
  assumes "checkpoint J now c w d = (r, w', d')"
  obtains (old) "r = Err ()"
      "dk_files d' (hw_dir w, CHECKPOINT_JSON) = dk_files d (hw_dir w, CHECKPOINT_JSON)"
      "dk_files d' (hw_dir w, OUTPUT_LOG) = dk_files d (hw_dir w, OUTPUT_LOG)"
  | (mid) "r = Err ()"
      "dk_files d' (hw_dir w, CHECKPOINT_JSON) = Some (jc_cp_enc J (stamped J now c w d))"
      "dk_files d' (hw_dir w, OUTPUT_LOG) = dk_files d (hw_dir w, OUTPUT_LOG)"
  | (torn) k where "r = Err ()"
      "dk_files d' (hw_dir w, CHECKPOINT_JSON) = Some (jc_cp_enc J (stamped J now c w d))"
      "dk_files d' (hw_dir w, OUTPUT_LOG) = Some (take k (encode_log_header (next_generation J w d)))"
  | (ok) "r = Ok ()"
      "dk_files d' (hw_dir w, CHECKPOINT_JSON) = Some (jc_cp_enc J (stamped J now c w d))"
      "dk_files d' (hw_dir w, OUTPUT_LOG) = Some (encode_log_header (next_generation J w d))"
      "hw_dir w' = hw_dir w" "hw_log_generation w' = Some (next_generation J w d)"
      "hw_log_bytes w' = Some 9" "hw_appended_output_bytes w' = 0" "hw_needs_full_anchor w' = False"
      "hw_log_max_bytes w' = hw_log_max_bytes w"
proof -
  let ?cp = "(hw_dir w, CHECKPOINT_JSON)" and ?log = "(hw_dir w, OUTPUT_LOG)"
  let ?enc = "jc_cp_enc J (stamped J now c w d)"
  let ?hdr = "encode_log_header (next_generation J w d)"
  obtain r1 d1 where s1: "write_durable ?cp ?enc d = (r1, d1)" by fastforce
  have l1: "dk_files d1 ?log = dk_files d ?log"
    using write_durable_frame [OF s1] by simp
  have max: "hw_log_max_bytes (resolve_log_state J w d) = hw_log_max_bytes w"
    by (simp add: resolve_log_state_def log_from_scratch_def split: option.split)
  note defs = checkpoint_unfold
  show ?thesis
  proof (cases r1)
    case (Err e)
    then have "r = Err ()" "d' = d1"
      using assms s1 by (simp_all add: defs)
    moreover have "dk_files d1 ?cp = dk_files d ?cp"
      using s1 Err by (cases rule: write_durable_cases) auto
    ultimately show ?thesis using old l1 by simp
  next
    case o1: (Ok u)
    have c1: "dk_files d1 ?cp = Some ?enc"
      using s1 o1 by (cases rule: write_durable_cases) auto
    obtain r2 d2 where s2: "fs_write ?log ?hdr d1 = (r2, d2)" by fastforce
    have c2: "dk_files d2 ?cp = Some ?enc"
      using fs_write_frame [OF s2, of ?cp] c1 by simp
    show ?thesis
    proof (cases r2)
      case (Err e)
      then have rd: "r = Err ()" "d' = d2"
        using assms s1 s2 o1 by (simp_all add: defs)
      from s2 show ?thesis
      proof (cases rule: fs_write_cases)
        case ok
        then show ?thesis using Err by simp
      next
        case none
        then show ?thesis using rd c2 l1 mid by simp
      next
        case (part k)
        then show ?thesis using rd c2 torn by simp
      qed
    next
      case o2: (Ok u2)
      have "dk_files d2 ?log = Some ?hdr"
        using s2 o2 by (cases rule: fs_write_cases) auto
      moreover have "r = Ok ()" "d' = d2"
        using assms s1 s2 o1 o2 by (simp_all add: defs)
      moreover have "w' = (resolve_log_state J w d)\<lparr>hw_log_generation := Some (next_generation J w d),
          hw_log_bytes := Some (word_of_nat LOG_HEADER_BYTES), hw_appended_output_bytes := 0,
          hw_needs_full_anchor := False\<rparr>"
        using assms s1 s2 o1 o2 by (simp add: defs)
      ultimately show ?thesis using ok c2 by (simp add: max LOG_HEADER_BYTES_def)
    qed
  qed
qed

lemma checkpoint_meta:
  assumes "checkpoint J now c w d = (r, w', d')"
  shows "dk_files d' (dir, META_JSON) = dk_files d (dir, META_JSON)"
proof -
  let ?w = "resolve_log_state J w d"
  obtain r1 d1 where s1: "write_durable (hw_dir w, CHECKPOINT_JSON)
      (jc_cp_enc J (stamped J now c w d)) d = (r1, d1)" by fastforce
  have m1: "dk_files d1 (dir, META_JSON) = dk_files d (dir, META_JSON)"
    using write_durable_frame [OF s1, of "(dir, META_JSON)"] by simp
  obtain r2 d2 where s2: "fs_write (hw_dir w, OUTPUT_LOG)
      (encode_log_header (next_generation J w d)) d1 = (r2, d2)" by fastforce
  have m2: "dk_files d2 (dir, META_JSON) = dk_files d1 (dir, META_JSON)"
    using fs_write_frame [OF s2, of "(dir, META_JSON)"] by simp
  have "d' = (case r1 of Err e \<Rightarrow> d1 | Ok u \<Rightarrow> d2)"
    using assms s1 s2
    by (cases r1; cases r2) (auto simp: checkpoint_unfold)
  then show ?thesis using m1 m2 by (cases r1) simp_all
qed

lemma detect_cong:
  assumes "\<And>f. f \<in> {META_JSON, CHECKPOINT_JSON, OUTPUT_LOG} \<Longrightarrow>
      dk_files d' (percent_encode sid, f) = dk_files d (percent_encode sid, f)"
  shows "detect_cold_restore J T sid ig d' = detect_cold_restore J T sid ig d"
proof -
  have eqs: "read_meta J (percent_encode sid) d' = read_meta J (percent_encode sid) d"
    "read_checkpoint J (percent_encode sid) d' = read_checkpoint J (percent_encode sid) d"
    "\<And>m c t. restore_from_log J T (percent_encode sid) m c t d'
       = restore_from_log J T (percent_encode sid) m c t d"
    "dk_files d' (percent_encode sid, CHECKPOINT_JSON) = dk_files d (percent_encode sid, CHECKPOINT_JSON)"
    using assms by (simp_all add: read_meta_def read_checkpoint_def restore_from_log_def)
  show ?thesis
    unfolding detect_cold_restore_def Let_def eqs ..
qed

text \<open>A log whose generation is not the checkpoint's, or that has no batch, is not replayed.\<close>

lemma decode_log_generation:
  "decode_log buf = Some l \<Longrightarrow> decode_log_header buf = Some (dl_generation l)"
  by (auto simp: decode_log_def split: option.splits prod.splits)

lemma restore_from_log_stale:
  assumes "\<And>buf. dk_files d (dir, OUTPUT_LOG) = Some buf \<Longrightarrow>
      decode_log_header buf \<noteq> Some (cp_generation c)"
  shows "restore_from_log J T dir meta (Some c) torn d = None"
  using assms decode_log_generation
  by (fastforce simp: restore_from_log_def split: option.split)

lemma decode_short_header:
  assumes "k < 9"
  shows "decode_log_header (take k (encode_log_header g)) = None"
proof -
  have "length (take k (encode_log_header g)) < 9"
    using assms length_log_header [of g] by (simp add: LOG_HEADER_BYTES_def)
  then show ?thesis by (simp add: decode_log_header_def LOG_HEADER_BYTES_def)
qed

lemma restore_from_log_header_only:
  assumes "dk_files d (dir, OUTPUT_LOG) = Some (take k (encode_log_header g))"
  shows "restore_from_log J T dir meta cp torn d = None"
proof (cases "k < 9")
  case True
  then have "decode_log (take k (encode_log_header g)) = None"
    by (simp add: decode_log_def decode_short_header)
  then show ?thesis using assms by (simp add: restore_from_log_def)
next
  case False
  then have "take k (encode_log_header g) = log_image g []"
    using length_log_header [of g] by (simp add: log_image_def LOG_HEADER_BYTES_def)
  moreover have "decode_log (log_image g []) = Some
      \<lparr>dl_generation = g, dl_batches = [], dl_truncated_tail = False\<rparr>"
    using decode_log_image [of "[]" g] by (simp add: records_ok_def)
  ultimately show ?thesis using assms by (simp add: restore_from_log_def)
qed

text \<open>The writer's idea of the log's generation is the one on disk.\<close>

definition tracks_log :: "codec \<Rightarrow> history_writer \<Rightarrow> disk \<Rightarrow> bool" where
  "tracks_log J w d \<longleftrightarrow>
     (\<forall>buf g. dk_files d (hw_dir w, OUTPUT_LOG) = Some buf \<longrightarrow> decode_log_header buf = Some g \<longrightarrow>
        hw_log_generation (resolve_log_state J w d) = Some g)"

lemma lazy_tracks_log: "hw_log_generation w = None \<Longrightarrow> tracks_log J w d"
  by (simp add: tracks_log_def resolve_log_state_def)

lemma detect_checkpoint_alone:
  assumes "codec_ok J" and "read_meta J (percent_encode sid) d = Some meta"
    and "sm_ended_at_ms meta = None"
    and "dk_files d (percent_encode sid, CHECKPOINT_JSON) = Some (jc_cp_enc J c)"
    and "sm_started_at_ms meta \<le> cp_checkpointed_at_ms c"
    and "restore_from_log J T (percent_encode sid) meta (Some c) False d = None"
  shows "detect_cold_restore J T sid ig d = Some (restore_from_checkpoint T c meta)"
proof -
  have "read_checkpoint J (percent_encode sid) d = Some c"
    using assms(1,4) by (simp add: read_checkpoint_def codec_ok_def)
  with assms show ?thesis
    by (auto simp: detect_cold_restore_def Let_def not_less)
qed

lemma checkpoint_detect:
  assumes "codec_ok J" and "hw_dir w = percent_encode sid" and "tracks_log J w d"
    and "read_meta J (hw_dir w) d = Some meta" and "sm_ended_at_ms meta = None"
    and "sm_started_at_ms meta \<le> now"
    and ck: "checkpoint J now c w d = (r, w', d')"
  shows "detect_cold_restore J T sid ig d' = Some (restore_from_checkpoint T (stamped J now c w d) meta)
       \<or> r = Err () \<and> detect_cold_restore J T sid ig d' = detect_cold_restore J T sid ig d"
proof -
  let ?new = "stamped J now c w d"
  have meta: "read_meta J (percent_encode sid) d' = Some meta"
    using checkpoint_meta [OF ck, of "percent_encode sid"] assms(2,4) by (simp add: read_meta_def)
  have time: "sm_started_at_ms meta \<le> cp_checkpointed_at_ms ?new"
    using assms(6) by (simp add: stamped_def)
  have fresh: "detect_cold_restore J T sid ig d' = Some (restore_from_checkpoint T ?new meta)"
    if cp: "dk_files d' (hw_dir w, CHECKPOINT_JSON) = Some (jc_cp_enc J ?new)"
      and lg: "restore_from_log J T (hw_dir w) meta (Some ?new) False d' = None"
    using detect_checkpoint_alone [OF assms(1) meta assms(5) _ time, of T ig] that assms(2) by simp
  from ck show ?thesis
  proof (cases rule: checkpoint_cases)
    case old
    have "dk_files d' (percent_encode sid, f) = dk_files d (percent_encode sid, f)"
      if "f \<in> {META_JSON, CHECKPOINT_JSON, OUTPUT_LOG}" for f
      using that old checkpoint_meta [OF ck] assms(2) by auto
    then have "detect_cold_restore J T sid ig d' = detect_cold_restore J T sid ig d"
      by (rule detect_cong)
    with old show ?thesis by simp
  next
    case mid
    have "decode_log_header buf \<noteq> Some (cp_generation ?new)"
      if "dk_files d' (hw_dir w, OUTPUT_LOG) = Some buf" for buf
      using that mid(3) assms(3)
      by (auto simp: tracks_log_def stamped_def next_generation_def unwrap_or_def split: option.splits)
    then have "restore_from_log J T (hw_dir w) meta (Some ?new) False d' = None"
      by (rule restore_from_log_stale)
    with mid show ?thesis using fresh by simp
  next
    case (torn k)
    have "restore_from_log J T (hw_dir w) meta (Some ?new) False d' = None"
      by (rule restore_from_log_header_only [OF torn(3)])
    with torn show ?thesis using fresh by simp
  next
    case ok
    have "dk_files d' (hw_dir w, OUTPUT_LOG)
        = Some (take 9 (encode_log_header (next_generation J w d)))"
      using ok(3) length_log_header [of "next_generation J w d"] by (simp add: LOG_HEADER_BYTES_def)
    then have "restore_from_log J T (hw_dir w) meta (Some ?new) False d' = None"
      by (rule restore_from_log_header_only)
    with ok show ?thesis using fresh by simp
  qed
qed

subsection \<open>Appending to the log and replaying it\<close>

text \<open>The log on disk is the image of the batches \<open>rss\<close>, and the writer's counters say so.\<close>

definition log_on_disk :: "history_writer \<Rightarrow> disk \<Rightarrow> u32 \<Rightarrow> history_record list list \<Rightarrow> bool" where
  "log_on_disk w d g rss \<longleftrightarrow>
     dk_files d (hw_dir w, OUTPUT_LOG) = Some (log_image g rss)
     \<and> hw_log_generation w = Some g
     \<and> hw_log_bytes w = Some (word_of_nat (length (log_image g rss)))
     \<and> hw_appended_output_bytes w = total_output rss
     \<and> hw_log_max_bytes w = DEFAULT_LOG_MAX_BYTES
     \<and> length (log_image g rss) \<le> 262144 \<and> records_ok rss"

text \<open>A batch that fits the length fields; the log's cap is far below this.\<close>

definition batch_ok :: "history_record list \<Rightarrow> bool" where
  "batch_ok rs \<longleftrightarrow> rs \<noteq> [] \<and> list_all rec_ok rs \<and> length (encode_log_batch 0 rs) < 2 ^ 32"

lemma length_encode_log_batch: "length (encode_log_batch s rs) = length (encode_log_batch t rs)"
  by (simp add: encode_log_batch_frames batch_frames_def length_enc_frame)

lemma log_image_ge: "9 \<le> length (log_image g rss)"
  by (simp add: log_image_def length_log_header LOG_HEADER_BYTES_def)

lemma append_log_on_disk:
  assumes "log_on_disk w d g rss" and "batch_ok rs"
    and "append_increments J rs w d = (Ok Appended, w', d')"
  shows "log_on_disk w' d' g (rss @ [rs]) \<and> hw_dir w' = hw_dir w
       \<and> (\<forall>p. p \<noteq> (hw_dir w, OUTPUT_LOG) \<longrightarrow> dk_files d' p = dk_files d p)"
proof -
  let ?log = "(hw_dir w, OUTPUT_LOG)"
  let ?img = "log_image g rss"
  define seq where "seq = hw_appended_output_bytes w + sum_output rs"
  define batch where "batch = encode_log_batch seq rs"
  have w: "dk_files d ?log = Some ?img" "hw_log_generation w = Some g"
    "hw_log_bytes w = Some (word_of_nat (length ?img))" "hw_appended_output_bytes w = total_output rss"
    "hw_log_max_bytes w = DEFAULT_LOG_MAX_BYTES" "length ?img \<le> 262144" "records_ok rss"
    using assms(1) by (simp_all add: log_on_disk_def)
  have res: "resolve_log_state J w d = w"
    using w(2,3) by (simp add: resolve_log_state_def)
  have ge: "9 \<le> length ?img" by (rule log_image_ge)
  have blen: "length batch < 2 ^ 32"
    using assms(2) length_encode_log_batch [of seq rs 0] by (simp add: batch_def batch_ok_def)
  have nz: "(word_of_nat (length ?img) :: u64) \<noteq> 0"
    using ge w(6) by (auto simp: word_unat_eq_iff unat_of_nat)
  have mx: "max (word_of_nat (length ?img)) (word_of_nat LOG_HEADER_BYTES) = (word_of_nat (length ?img) :: u64)"
    using ge w(6) by (simp add: max_def word_le_nat_alt unat_of_nat LOG_HEADER_BYTES_def)
  have sum: "unat (word_of_nat (length ?img) + word_of_nat (length batch) :: u64) = length ?img + length batch"
    using w(6) blen by (simp add: unat_of_nat flip: of_nat_add)
  obtain r2 d2 where s2: "fs_append ?log batch d = (r2, d2)" by fastforce
  have ap: "append_increments J rs w d =
     (if hw_log_max_bytes w < word_of_nat (length ?img) + word_of_nat (length batch)
      then (Ok NeedsCheckpoint, w, d)
      else case r2 of
             Err e \<Rightarrow> (Err e, w, d2)
           | Ok u \<Rightarrow> (Ok Appended,
               w\<lparr>hw_log_bytes := Some (word_of_nat (length ?img) + word_of_nat (length batch)),
                 hw_appended_output_bytes := seq\<rparr>, d2))"
    using assms(2) nz w(3) mx s2
    by (cases r2)
       (simp_all add: append_increments_def batch_ok_def res Let_def unwrap_or_def
         flip: seq_def batch_def)
  have fits: "\<not> hw_log_max_bytes w < word_of_nat (length ?img) + word_of_nat (length batch)"
    using ap assms(3) by auto
  then have cap: "length ?img + length batch \<le> 262144"
    using sum w(5) by (simp add: word_less_nat_alt DEFAULT_LOG_MAX_BYTES_def del: of_nat_add)
  have ok: "r2 = Ok ()" "d' = d2"
    "w' = w\<lparr>hw_log_bytes := Some (word_of_nat (length ?img) + word_of_nat (length batch)),
           hw_appended_output_bytes := seq\<rparr>"
    using ap assms(3) fits by (cases r2; simp)+
  have "dk_files d2 ?log = Some (?img @ batch)"
    using s2 ok(1) w(1) by (cases rule: fs_append_cases) auto
  moreover have "log_image g (rss @ [rs]) = ?img @ batch"
    by (simp add: log_image_snoc batch_def seq_def w(4))
  moreover have "total_output (rss @ [rs]) = seq"
    by (simp add: total_output_def seq_def w(4))
  moreover have "records_ok (rss @ [rs])"
    using w(7) assms(2) by (simp add: records_ok_def batch_ok_def)
  ultimately show ?thesis
    using ok w(2,5) cap fs_append_frame [OF s2] by (simp add: log_on_disk_def)
qed

text \<open>A run of appends, each of them accepted.\<close>

fun append_all ::
  "codec \<Rightarrow> history_record list list \<Rightarrow> history_writer \<Rightarrow> disk \<Rightarrow> (history_writer \<times> disk) option" where
  "append_all J [] w d = Some (w, d)"
| "append_all J (rs # rss) w d =
     (case append_increments J rs w d of
        (Ok Appended, w', d') \<Rightarrow> append_all J rss w' d'
      | _ \<Rightarrow> None)"

lemma append_all_on_disk:
  assumes "log_on_disk w d g pre" and "list_all batch_ok rss"
    and "append_all J rss w d = Some (w', d')"
  shows "log_on_disk w' d' g (pre @ rss) \<and> hw_dir w' = hw_dir w
       \<and> (\<forall>p. p \<noteq> (hw_dir w, OUTPUT_LOG) \<longrightarrow> dk_files d' p = dk_files d p)"
  using assms
proof (induction rss arbitrary: w d pre)
  case Nil
  then show ?case by simp
next
  case (Cons rs rss)
  obtain o1 w1 d1 where s: "append_increments J rs w d = (o1, w1, d1)" by (metis prod_cases3)
  with Cons.prems(3) have "o1 = Ok Appended"
    by (auto split: result.splits append_outcome.splits)
  with s Cons.prems append_log_on_disk [of w d g pre rs J w1 d1] Cons.IH [of w1 d1 "pre @ [rs]"]
  show ?case by auto
qed

lemma snd_replay: "snd (foldl (replay_record T) (e, sb) rs) = foldl scroll sb rs"
proof (induction rs arbitrary: e sb)
  case Nil
  then show ?case by simp
next
  case (Cons r rs)
  then show ?case by (cases r) simp_all
qed

lemma lb_records_stamp: "map lb_records (stamp run rss) = rss"
  by (induction rss arbitrary: run) simp_all

lemma stamp_Nil_iff [simp]: "stamp run rss = [] \<longleftrightarrow> rss = []"
  by (cases rss) simp_all

lemma finish_simps [simp]:
  "cr_scrollback_for_replay (finish T e sb cp m dg) = sb"
  "cr_degraded (finish T e sb cp m dg) = dg"
  "cr_pending_escape_tail (finish T e sb (Some c) m dg) = cp_pending_escape_tail c"
  by (simp_all add: finish_def Let_def)

lemma restore_from_log_image:
  assumes "dk_files d (dir, OUTPUT_LOG) = Some (log_image g rss)" and "records_ok rss"
    and "rss \<noteq> []" and "g = cp_generation c"
  shows "\<exists>r. restore_from_log J T dir meta (Some c) torn d = Some r
       \<and> cr_scrollback_for_replay r = foldl scroll (cp_scrollback_ansi c) (concat rss)
       \<and> cr_pending_escape_tail r = cp_pending_escape_tail c \<and> \<not> cr_degraded r"
proof -
  let ?e = "process T (new_emulator T (max (cp_rows c) 1) (max (cp_cols c) 1) DEFAULT_SCROLLBACK_LINES)
      (checkpoint_base_bytes c)"
  obtain e sb where f: "foldl (replay_record T) (?e, cp_scrollback_ansi c) (concat rss) = (e, sb)"
    by fastforce
  have sb: "sb = foldl scroll (cp_scrollback_ansi c) (concat rss)"
    using snd_replay [of T ?e "cp_scrollback_ansi c" "concat rss"] f by simp
  have "restore_from_log J T dir meta (Some c) torn d = Some (finish T e sb (Some c) meta False)"
    using assms f
    by (simp add: restore_from_log_def decode_log_image lb_records_stamp Let_def)
  then show ?thesis using sb by simp
qed

end
