(* ===== verification/SampleCodec.thy ===== *)
theory SampleCodec
  imports HistoryStore
begin

text \<open>
  A concrete codec for \<open>meta.json\<close> and \<open>checkpoint.json\<close>, which shows that \<open>codec_ok\<close> can hold:
  every field is written as self-delimiting bytes. It stands in for \<open>serde_json\<close> in the witnesses
  and nowhere else.
\<close>

type_synonym 'a coder = "('a \<Rightarrow> bytes) \<times> (bytes \<Rightarrow> ('a \<times> bytes) option)"

definition good_coder :: "'a coder \<Rightarrow> bool" where
  "good_coder c \<longleftrightarrow> (\<forall>x rest. snd c (fst c x @ rest) = Some (x, rest))"

text \<open>Bytes: each one marked, then an end mark.\<close>

fun enc_blob :: "bytes \<Rightarrow> bytes" where
  "enc_blob [] = [0]"
| "enc_blob (b # bs) = 1 # b # enc_blob bs"

fun dec_blob :: "bytes \<Rightarrow> (bytes \<times> bytes) option" where
  "dec_blob (m # r) =
     (if m = 0 then Some ([], r)
      else case r of
             [] \<Rightarrow> None
           | b # r' \<Rightarrow> map_option (\<lambda>(bs, rest). (b # bs, rest)) (dec_blob r'))"
| "dec_blob [] = None"

definition blob_coder :: "bytes coder" where
  "blob_coder = (enc_blob, dec_blob)"

definition iso_coder :: "('a \<Rightarrow> bytes) \<Rightarrow> (bytes \<Rightarrow> 'a) \<Rightarrow> 'a coder" where
  "iso_coder f g = (\<lambda>x. enc_blob (f x), \<lambda>bs. map_option (\<lambda>(b, r). (g b, r)) (dec_blob bs))"

definition pair_coder :: "'a coder \<Rightarrow> 'b coder \<Rightarrow> ('a \<times> 'b) coder" where
  "pair_coder a b =
     (\<lambda>(x, y). fst a x @ fst b y,
      \<lambda>bs. case snd a bs of
             None \<Rightarrow> None
           | Some (x, r) \<Rightarrow> map_option (\<lambda>(y, r'). ((x, y), r')) (snd b r))"

definition opt_coder :: "'a coder \<Rightarrow> 'a option coder" where
  "opt_coder a =
     (\<lambda>x. case x of None \<Rightarrow> [0] | Some v \<Rightarrow> 1 # fst a v,
      \<lambda>bs. case bs of
             [] \<Rightarrow> None
           | m # r \<Rightarrow> if m = 0 then Some (None, r) else map_option (\<lambda>(v, r'). (Some v, r')) (snd a r))"

lemma dec_enc_blob: "dec_blob (enc_blob bs @ rest) = Some (bs, rest)"
  by (induction bs) simp_all

lemma good_iso: "(\<And>x. g (f x) = x) \<Longrightarrow> good_coder (iso_coder f g)"
  by (simp add: good_coder_def iso_coder_def dec_enc_blob)

lemma good_pair: "good_coder a \<Longrightarrow> good_coder b \<Longrightarrow> good_coder (pair_coder a b)"
  by (simp add: good_coder_def pair_coder_def)

lemma good_opt: "good_coder a \<Longrightarrow> good_coder (opt_coder a)"
  by (simp add: good_coder_def opt_coder_def split: option.split)

definition str_coder :: "string coder" where "str_coder = iso_coder bytes_of chars_of"
definition bytes_coder :: "bytes coder" where "bytes_coder = iso_coder id id"
definition u16_coder :: "u16 coder" where "u16_coder = iso_coder u16_to_le u16_from_le"
definition u32_coder :: "u32 coder" where "u32_coder = iso_coder u32_to_le u32_from_le"
definition u64_coder :: "u64 coder" where "u64_coder = iso_coder u64_to_le u64_from_le"
definition bool_coder :: "bool coder" where
  "bool_coder = iso_coder (\<lambda>b. if b then [1] else []) (\<lambda>bs. bs \<noteq> [])"
definition int_coder :: "int coder" where
  "int_coder = iso_coder (\<lambda>i. (if i < 0 then 1 else 0) # replicate (nat \<bar>i\<bar>) 0)
     (\<lambda>bs. (if hd bs = 0 then 1 else -1) * int (length (tl bs)))"

lemma good_basic:
  "good_coder str_coder" "good_coder bytes_coder" "good_coder u16_coder" "good_coder u32_coder"
  "good_coder u64_coder" "good_coder bool_coder" "good_coder int_coder"
  unfolding str_coder_def bytes_coder_def u16_coder_def u32_coder_def u64_coder_def bool_coder_def
    int_coder_def
  by (intro good_iso; simp)+

definition meta_coder where
  "meta_coder = pair_coder (opt_coder str_coder) (pair_coder u16_coder (pair_coder u16_coder
     (pair_coder u64_coder (pair_coder (opt_coder u64_coder) (opt_coder int_coder)))))"

definition cp_coder where
  "cp_coder = pair_coder bytes_coder (pair_coder bytes_coder (pair_coder bytes_coder
     (pair_coder bytes_coder (pair_coder (opt_coder str_coder) (pair_coder u16_coder
     (pair_coder u16_coder (pair_coder bool_coder (pair_coder u32_coder
     (pair_coder (opt_coder str_coder) (pair_coder u64_coder
     (pair_coder u32_coder u64_coder)))))))))))"

lemma good_meta: "good_coder meta_coder"
  unfolding meta_coder_def by (intro good_pair good_opt good_basic)

lemma good_cp: "good_coder cp_coder"
  unfolding cp_coder_def by (intro good_pair good_opt good_basic)

definition sample_codec :: codec where
  "sample_codec =
     \<lparr>jc_meta_enc = (\<lambda>m. fst meta_coder (sm_cwd m, sm_cols m, sm_rows m, sm_started_at_ms m,
        sm_ended_at_ms m, sm_exit_code m)),
      jc_meta_dec = (\<lambda>bs. map_option (\<lambda>((a, b, c, d, e, f), r).
        \<lparr>sm_cwd = a, sm_cols = b, sm_rows = c, sm_started_at_ms = d, sm_ended_at_ms = e,
         sm_exit_code = f\<rparr>) (snd meta_coder bs)),
      jc_cp_enc = (\<lambda>c. fst cp_coder (cp_snapshot_ansi c, cp_scrollback_ansi c,
        cp_rehydrate_sequences c, cp_pending_escape_tail c, cp_cwd c, cp_cols c, cp_rows c,
        cp_is_alternate_screen c, cp_kitty_keyboard_flags c, cp_last_title c, cp_scrollback_seq c,
        cp_generation c, cp_checkpointed_at_ms c)),
      jc_cp_dec = (\<lambda>bs. map_option (\<lambda>((a, b, c, d, e, f, g, h, i, j, k, l, m), r).
        \<lparr>cp_snapshot_ansi = a, cp_scrollback_ansi = b, cp_rehydrate_sequences = c,
         cp_pending_escape_tail = d, cp_cwd = e, cp_cols = f, cp_rows = g,
         cp_is_alternate_screen = h, cp_kitty_keyboard_flags = i, cp_last_title = j,
         cp_scrollback_seq = k, cp_generation = l, cp_checkpointed_at_ms = m\<rparr>)
        (snd cp_coder bs))\<rparr>"

lemma enc_blob_not_Nil [simp]: "enc_blob bs \<noteq> []"
  by (cases bs) simp_all

lemma sample_codec_ok: "codec_ok sample_codec"
proof -
  have "snd meta_coder (fst meta_coder x) = Some (x, [])" for x
    using good_meta unfolding good_coder_def by (metis append_Nil2)
  moreover have "snd cp_coder (fst cp_coder x) = Some (x, [])" for x
    using good_cp unfolding good_coder_def by (metis append_Nil2)
  moreover have "fst cp_coder x \<noteq> []" for x
    by (cases x) (simp add: cp_coder_def pair_coder_def bytes_coder_def iso_coder_def)
  ultimately show ?thesis by (simp add: codec_ok_def sample_codec_def)
qed

end
