(* ===== verification/HistoryRestore.thy ===== *)
theory HistoryRestore
  imports SampleCodec
begin

text \<open>
  What the on-disk history promises across crashes: properties of the writer and the reader of
  \<open>HistoryStore\<close> taken together.
\<close>

subsection \<open>Restoring after a checkpoint and appends\<close>

lemma read_meta_cong:
  "dk_files d' (dir, META_JSON) = dk_files d (dir, META_JSON) \<Longrightarrow> read_meta J dir d' = read_meta J dir d"
  by (simp add: read_meta_def)

lemma checkpoint_log_on_disk:
  assumes "checkpoint J now c w d = (Ok (), w', d')" and "hw_log_max_bytes w = DEFAULT_LOG_MAX_BYTES"
  shows "log_on_disk w' d' (next_generation J w d) [] \<and> hw_dir w' = hw_dir w
       \<and> dk_files d' (hw_dir w, CHECKPOINT_JSON) = Some (jc_cp_enc J (stamped J now c w d))"
  using assms(1)
proof (cases rule: checkpoint_cases)
  case ok
  then show ?thesis
    using assms(2) length_log_header [of "next_generation J w d"]
    by (simp add: log_on_disk_def log_image_def records_ok_def total_output_def LOG_HEADER_BYTES_def)
qed simp_all

lemma restore_after_appends:
  assumes "codec_ok J" and "hw_dir w = percent_encode sid"
    and "hw_log_max_bytes w = DEFAULT_LOG_MAX_BYTES"
    and "read_meta J (hw_dir w) d = Some meta" and "sm_ended_at_ms meta = None"
    and "sm_started_at_ms meta \<le> now"
    and ck: "checkpoint J now c w d = (Ok (), w1, d1)"
    and "list_all batch_ok rss" and "rss \<noteq> []"
    and ap: "append_all J rss w1 d1 = Some (w2, d2)"
  shows "\<exists>r. detect_cold_restore J T sid ig d2 = Some r
       \<and> cr_scrollback_for_replay r = foldl scroll (cp_scrollback_ansi c) (concat rss)
       \<and> cr_pending_escape_tail r = cp_pending_escape_tail c \<and> \<not> cr_degraded r"
proof -
  let ?new = "stamped J now c w d"
  have l1: "log_on_disk w1 d1 (next_generation J w d) []" and dir1: "hw_dir w1 = hw_dir w"
    and cp1: "dk_files d1 (hw_dir w, CHECKPOINT_JSON) = Some (jc_cp_enc J ?new)"
    using checkpoint_log_on_disk [OF ck assms(3)] by simp_all
  have l2: "log_on_disk w2 d2 (next_generation J w d) rss" and dir2: "hw_dir w2 = hw_dir w"
    and fr: "p \<noteq> (hw_dir w, OUTPUT_LOG) \<Longrightarrow> dk_files d2 p = dk_files d1 p" for p
    using append_all_on_disk [OF l1 assms(8) ap] dir1 by (simp, simp, metis)
  have meta: "read_meta J (percent_encode sid) d2 = Some meta"
    using assms(2,4) fr [of "(hw_dir w, META_JSON)"] checkpoint_meta [OF ck, of "hw_dir w"]
    by (simp add: read_meta_def)
  have cp: "read_checkpoint J (percent_encode sid) d2 = Some ?new"
    using assms(1,2) cp1 fr [of "(hw_dir w, CHECKPOINT_JSON)"]
    by (simp add: read_checkpoint_def codec_ok_def)
  have "dk_files d2 (percent_encode sid, OUTPUT_LOG) = Some (log_image (cp_generation ?new) rss)"
    "records_ok rss"
    using l2 dir2 assms(2) by (simp_all add: log_on_disk_def stamped_def)
  from restore_from_log_image [OF this(1,2) assms(9) refl, of J T meta False]
  obtain r where r: "restore_from_log J T (percent_encode sid) meta (Some ?new) False d2 = Some r"
    "cr_scrollback_for_replay r = foldl scroll (cp_scrollback_ansi c) (concat rss)"
    "cr_pending_escape_tail r = cp_pending_escape_tail c" "\<not> cr_degraded r"
    by (auto simp: stamped_def)
  have "\<not> cp_checkpointed_at_ms ?new < sm_started_at_ms meta"
    using assms(6) by (simp add: stamped_def not_less)
  then have "detect_cold_restore J T sid ig d2 = Some r"
    using meta cp r(1) assms(5) by (simp add: detect_cold_restore_def Let_def)
  with r show ?thesis by blast
qed

subsection \<open>Opening, ending and reopening a session\<close>

lemma acquire_frame: "acquire dir d = (r, d') \<Longrightarrow> snd p \<noteq> OWNER_LOCK \<Longrightarrow> dk_files d' p = dk_files d p"
  by (cases p)
     (auto simp: acquire_def split: option.splits prod.splits result.splits if_splits
       dest: fs_write_frame)

lemma fs_remove_cases:
  "dk_files (snd (ignore_io (fs_remove p) d)) q
   = (if q = p \<and> dk_budget d \<noteq> 0 then None else dk_files d q)"
  by (auto simp: fs_remove_def ignore_io_def io_step_def split: nat.splits option.splits)

lemma lock_name [simp]: "META_JSON \<noteq> OWNER_LOCK" "CHECKPOINT_JSON \<noteq> OWNER_LOCK" "OUTPUT_LOG \<noteq> OWNER_LOCK"
  by (simp_all add: META_JSON_def CHECKPOINT_JSON_def OUTPUT_LOG_def OWNER_LOCK_def)

lemma detect_no_files:
  assumes "dk_files d (percent_encode sid, CHECKPOINT_JSON) = None"
    and "\<And>buf. dk_files d (percent_encode sid, OUTPUT_LOG) = Some buf \<Longrightarrow> decode_log_header buf \<noteq> Some 0"
  shows "detect_cold_restore J T sid ig d = None"
proof -
  have "restore_from_log J T (percent_encode sid) meta None False d = None" for meta
    using assms(2) decode_log_generation
    by (fastforce simp: restore_from_log_def split: option.split)
  moreover have "read_checkpoint J (percent_encode sid) d = None"
    using assms(1) by (simp add: read_checkpoint_def)
  ultimately show ?thesis
    using assms(1) by (simp add: detect_cold_restore_def Let_def split: option.split)
qed

lemma budget_io_step: "dk_budget (snd (io_step f g d)) = dk_budget d - 1"
  if "\<And>x. dk_budget (f x) = dk_budget x" "\<And>k x. dk_budget (g k x) = dk_budget x"
  using that by (auto simp: io_step_def split: nat.split option.split)

lemma open_session_files:
  assumes "open_session J sid meta d = (r, d')"
  obtains (untouched) "\<And>f. f \<in> {META_JSON, CHECKPOINT_JSON, OUTPUT_LOG} \<Longrightarrow>
      dk_files d' (percent_encode sid, f) = dk_files d (percent_encode sid, f)"
  | (unlinked) "dk_files d' (percent_encode sid, CHECKPOINT_JSON) = None"
      "dk_files d' (percent_encode sid, OUTPUT_LOG) \<in> {None, dk_files d (percent_encode sid, OUTPUT_LOG)}"
proof -
  let ?dir = "percent_encode sid"
  obtain r1 d1 where s1: "fs_sync d = (r1, d1)" by fastforce
  note f1 = fs_sync_frame [OF s1]
  obtain r2 d2 where s2: "acquire ?dir d1 = (r2, d2)" by fastforce
  have f2: "f \<in> {META_JSON, CHECKPOINT_JSON, OUTPUT_LOG} \<Longrightarrow>
      dk_files d2 (?dir, f) = dk_files d (?dir, f)" for f
    using acquire_frame [OF s2, of "(?dir, f)"] f1 by auto
  define d3 where "d3 = snd (ignore_io (fs_remove (?dir, CHECKPOINT_JSON)) d2)"
  define d4 where "d4 = snd (ignore_io (fs_remove (?dir, OUTPUT_LOG)) d3)"
  obtain r5 d5 where s5: "write_meta J ?dir meta d4 = (r5, d5)" by fastforce
  have b3: "dk_budget d3 = dk_budget d2 - 1"
    by (simp add: d3_def ignore_io_def fs_remove_def budget_io_step set_file_def)
  show ?thesis
  proof (cases "is_ok r1 \<and> is_ok r2")
    case False
    then have "d' = d1 \<or> d' = d2"
      using assms s1 s2 by (cases r1; cases r2) (auto simp: open_session_def Let_def)
    then show ?thesis using f1 f2 untouched by metis
  next
    case True
    then have d': "dk_files d' p = dk_files d5 p" for p
      using assms s1 s2 s5
      by (cases r1; cases r2; cases r5)
         (auto simp: open_session_def Let_def release_def simp flip: d3_def d4_def)
    have f5: "f \<noteq> META_JSON \<Longrightarrow> dk_files d5 (?dir, f) = dk_files d4 (?dir, f)" for f
      using fs_write_frame [OF s5 [unfolded write_meta_def]] by simp
    show ?thesis
    proof (cases "dk_budget d2 = 0")
      case False
      then show ?thesis
        using unlinked d' f5 f2 by (simp add: d4_def d3_def fs_remove_cases)
    next
      case True
      then have d3: "d3 = d2\<lparr>dk_torn := None\<rparr>"
        by (cases d2) (auto simp: d3_def ignore_io_def fs_remove_def io_step_def split: option.split)
      then have d4: "d4 = d3"
        using True by (simp add: d4_def ignore_io_def fs_remove_def io_step_def)
      then have "d5 = d4"
        using s5 True d3 by (simp add: write_meta_def fs_write_def io_step_def)
      then show ?thesis
        using untouched d' d4 d3 f2 by simp
    qed
  qed
qed

lemma open_session_detect:
  assumes "open_session J sid meta d = (r, d')"
    and "\<And>buf. dk_files d (percent_encode sid, OUTPUT_LOG) = Some buf \<Longrightarrow> decode_log_header buf \<noteq> Some 0"
  shows "detect_cold_restore J T sid ig d' = None
       \<or> detect_cold_restore J T sid ig d' = detect_cold_restore J T sid ig d"
  using assms(1)
proof (cases rule: open_session_files)
  case untouched
  then have "detect_cold_restore J T sid ig d' = detect_cold_restore J T sid ig d"
    by (rule detect_cong)
  then show ?thesis ..
next
  case unlinked
  then have "decode_log_header buf \<noteq> Some 0"
    if "dk_files d' (percent_encode sid, OUTPUT_LOG) = Some buf" for buf
    using assms(2) that by auto
  with unlinked(1) have "detect_cold_restore J T sid ig d' = None"
    by (rule detect_no_files)
  then show ?thesis ..
qed

lemma open_session_Ok:
  assumes "open_session J sid meta d = (Ok w, d')"
  shows "hw_dir w = percent_encode sid \<and> hw_log_max_bytes w = DEFAULT_LOG_MAX_BYTES
       \<and> hw_needs_full_anchor w \<and> percent_encode sid \<in> set (dk_locks d')
       \<and> dk_files d' (percent_encode sid, OWNER_LOCK) \<noteq> None
       \<and> dk_files d' (percent_encode sid, META_JSON) = Some (jc_meta_enc J meta)"
proof -
  let ?dir = "percent_encode sid"
  obtain r1 d1 where s1: "fs_sync d = (r1, d1)" by fastforce
  obtain r2 d2 where s2: "acquire ?dir d1 = (r2, d2)" by fastforce
  define d3 where "d3 = snd (ignore_io (fs_remove (?dir, CHECKPOINT_JSON)) d2)"
  define d4 where "d4 = snd (ignore_io (fs_remove (?dir, OUTPUT_LOG)) d3)"
  obtain r5 d5 where s5: "write_meta J ?dir meta d4 = (r5, d5)" by fastforce
  have os: "open_session J sid meta d =
     (case r1 of Err e \<Rightarrow> (Err LockIo, d1) | Ok u \<Rightarrow>
        (case r2 of Err e \<Rightarrow> (Err e, d2) | Ok u \<Rightarrow>
           (case r5 of Err e \<Rightarrow> (Err LockIo, release ?dir d5) | Ok u \<Rightarrow>
              (Ok \<lparr>hw_dir = ?dir, hw_log_generation = Some 0, hw_log_bytes = Some 0,
                  hw_appended_output_bytes = 0, hw_needs_full_anchor = True,
                  hw_log_max_bytes = DEFAULT_LOG_MAX_BYTES\<rparr>, d5))))"
    unfolding open_session_def Let_def s1 s2 prod.case d3_def [symmetric] d4_def [symmetric] s5
    by (simp split: result.split)
  have ok: "is_ok r1" "is_ok r2" "is_ok r5" and dw: "d' = d5"
    "hw_dir w = ?dir" "hw_log_max_bytes w = DEFAULT_LOG_MAX_BYTES" "hw_needs_full_anchor w"
    using assms unfolding os by (auto split: result.splits)
  have l2: "?dir \<in> set (dk_locks d2)" "dk_files d2 (?dir, OWNER_LOCK) \<noteq> None"
    using s2 ok(2)
    by (auto simp: acquire_def fs_write_def io_step_def split: option.splits prod.splits result.splits
        if_splits nat.splits)
  have "dk_locks d3 = dk_locks d2" "dk_locks d4 = dk_locks d3" "dk_locks d5 = dk_locks d4"
    using s5 by (auto simp: d3_def d4_def write_meta_def fs_write_def fs_remove_def ignore_io_def
        io_step_def set_file_def split: nat.splits option.splits)
  moreover have "dk_files d5 (?dir, OWNER_LOCK) = dk_files d2 (?dir, OWNER_LOCK)"
    using fs_write_frame [OF s5 [unfolded write_meta_def], of "(?dir, OWNER_LOCK)"]
    by (simp add: d4_def d3_def fs_remove_cases OWNER_LOCK_def META_JSON_def OUTPUT_LOG_def
        CHECKPOINT_JSON_def)
  moreover have "dk_files d5 (?dir, META_JSON) = Some (jc_meta_enc J meta)"
    using s5 [unfolded write_meta_def] ok(3) by (cases rule: fs_write_cases) auto
  ultimately show ?thesis using dw l2 by simp
qed

text \<open>A held lock refuses every other writer and every cold-restore probe.\<close>

lemma acquire_held:
  assumes "dir \<in> set (dk_locks d)" and "dk_files d (dir, OWNER_LOCK) \<noteq> None"
  shows "acquire dir d = (Err OwnedElsewhere, d)"
  using assms by (auto simp: acquire_def)

lemma held_refuses:
  assumes "percent_encode sid \<in> set (dk_locks d)" and "dk_files d (percent_encode sid, OWNER_LOCK) \<noteq> None"
    and "0 < dk_budget d"
  shows "fst (register_writer sid d) = Err OwnedElsewhere"
    and "fst (open_session J sid m d) = Err OwnedElsewhere"
proof -
  obtain n where n: "dk_budget d = Suc n" using assms(3) by (cases "dk_budget d") auto
  have s: "fs_sync d = (Ok (), d\<lparr>dk_budget := n\<rparr>)"
    by (simp add: fs_sync_def io_step_def n)
  have a: "acquire (percent_encode sid) (d\<lparr>dk_budget := n\<rparr>) = (Err OwnedElsewhere, d\<lparr>dk_budget := n\<rparr>)"
    using assms(1,2) by (intro acquire_held) simp_all
  show "fst (register_writer sid d) = Err OwnedElsewhere"
    "fst (open_session J sid m d) = Err OwnedElsewhere"
    by (simp_all add: register_writer_def open_session_def s a)
qed

subsection \<open>Properties\<close>

text \<open>
  C1. A checkpoint is atomic across a crash at any of its steps: whatever reached the disk, the
  reader restores either what it restored before, or the new checkpoint alone; and once the
  call has returned, the new checkpoint. No crash leaves a mixture of the old log with the new base.
\<close>

theorem checkpoint_crash_atomic:
  assumes "codec_ok J" and "hw_dir w = percent_encode sid" and "tracks_log J w d"
    and "read_meta J (hw_dir w) d = Some meta" and "sm_ended_at_ms meta = None"
    and "sm_started_at_ms meta \<le> now"
    and "checkpoint J now c w d = (r, w', d')"
  shows "detect_cold_restore J T sid ig d' = Some (restore_from_checkpoint T (stamped J now c w d) meta)
       \<or> r = Err () \<and> detect_cold_restore J T sid ig d' = detect_cold_restore J T sid ig d"
  using assms by (rule checkpoint_detect)

definition sample_meta :: session_meta where
  "sample_meta = new_meta 5 None 80 24"

definition sample_writer :: history_writer where
  "sample_writer = \<lparr>hw_dir = ''s'', hw_log_generation = None, hw_log_bytes = None,
     hw_appended_output_bytes = 0, hw_needs_full_anchor = True,
     hw_log_max_bytes = DEFAULT_LOG_MAX_BYTES\<rparr>"

definition sample_checkpoint :: checkpoint_file where
  "sample_checkpoint = \<lparr>cp_snapshot_ansi = [], cp_scrollback_ansi = [0x61],
     cp_rehydrate_sequences = [], cp_pending_escape_tail = [ESC], cp_cwd = None, cp_cols = 80,
     cp_rows = 24, cp_is_alternate_screen = False, cp_kitty_keyboard_flags = 0,
     cp_last_title = None, cp_scrollback_seq = 1, cp_generation = 0, cp_checkpointed_at_ms = 0\<rparr>"

text \<open>A session directory with fresh meta, an old log at generation 3, and \<open>n\<close> steps to go.\<close>

definition sample_disk :: "nat \<Rightarrow> disk" where
  "sample_disk n = \<lparr>dk_files = (\<lambda>p. None)((''s'', META_JSON) := Some (jc_meta_enc sample_codec sample_meta),
       (''s'', OUTPUT_LOG) := Some (encode_log_header 3)),
     dk_locks = [''s''], dk_budget = n, dk_torn = Some 4\<rparr>"

lemma percent_encode_s: "percent_encode ''s'' = ''s''"
proof -
  have "concat (map encode_byte (bytes_of ''s'')) = bytes_of ''s''"
    by (simp add: bytes_of_def encode_byte_def unreserved_def)
  then show ?thesis by (simp add: percent_encode_def)
qed

lemma sample_read_meta: "read_meta sample_codec ''s'' (sample_disk n) = Some sample_meta"
  using sample_codec_ok by (simp add: read_meta_def sample_disk_def codec_ok_def)

text \<open>The crash after the rename and inside the log reset: 4 bytes of the header reached the disk.\<close>

lemma checkpoint_crash_atomic_witness:
  "\<exists>r w' d'. checkpoint sample_codec 9 sample_checkpoint sample_writer (sample_disk 5) = (r, w', d')
   \<and> (detect_cold_restore sample_codec tape_parser ''s'' False d'
        = Some (restore_from_checkpoint tape_parser
            (stamped sample_codec 9 sample_checkpoint sample_writer (sample_disk 5)) sample_meta)
      \<or> r = Err () \<and> detect_cold_restore sample_codec tape_parser ''s'' False d'
          = detect_cold_restore sample_codec tape_parser ''s'' False (sample_disk 5))"
proof -
  obtain r w' d' where ck: "checkpoint sample_codec 9 sample_checkpoint sample_writer (sample_disk 5)
      = (r, w', d')" by (metis prod_cases3)
  have "tracks_log sample_codec sample_writer (sample_disk 5)"
    by (rule lazy_tracks_log) (simp add: sample_writer_def)
  from checkpoint_crash_atomic [OF sample_codec_ok _ this _ _ _ ck, of "''s''" sample_meta tape_parser False]
  show ?thesis
    using ck sample_read_meta [of 5] percent_encode_s
    by (simp add: sample_writer_def sample_meta_def new_meta_def)
qed

text \<open>
  C3. Nothing written is lost to a clean crash: after a checkpoint and any number of accepted
  appends, a cold restore replays the checkpoint's ring followed by all output logged since
  (from the last clear on), undegraded.
\<close>

theorem cold_restore_replays_all:
  assumes "codec_ok J" and "hw_dir w = percent_encode sid"
    and "hw_log_max_bytes w = DEFAULT_LOG_MAX_BYTES"
    and "read_meta J (hw_dir w) d = Some meta" and "sm_ended_at_ms meta = None"
    and "sm_started_at_ms meta \<le> now"
    and "checkpoint J now c w d = (Ok (), w1, d1)"
    and "list_all batch_ok rss" and "rss \<noteq> []"
    and "append_all J rss w1 d1 = Some (w2, d2)"
  shows "\<exists>r. detect_cold_restore J T sid ig d2 = Some r
       \<and> cr_scrollback_for_replay r = foldl scroll (cp_scrollback_ansi c) (concat rss)
       \<and> \<not> cr_degraded r"
  using restore_after_appends [OF assms, of T ig] by blast

lemma sample_run:
  "\<exists>w1 d1 w2 d2. checkpoint sample_codec 9 sample_checkpoint sample_writer (sample_disk 100) = (Ok (), w1, d1)
     \<and> append_all sample_codec [[Output [0x62]], [Resize 90 30, Output [0x63]]] w1 d1 = Some (w2, d2)"
  by (simp add: checkpoint_def resolve_log_state_def sample_disk_def sample_writer_def
      decode_header [of _ "[]", simplified] Let_def write_durable_def io_simps fs_write_def fs_append_def
      fs_rename_def fs_sync_def io_step_def set_file_def append_increments_def
      encode_log_batch_def push_frame_def unwrap_or_def LOG_HEADER_BYTES_def DEFAULT_LOG_MAX_BYTES_def
      OUTPUT_LOG_def CHECKPOINT_JSON_def META_JSON_def)

lemma cold_restore_replays_all_witness:
  "\<exists>d2 r. detect_cold_restore sample_codec tape_parser ''s'' False d2 = Some r
     \<and> cr_scrollback_for_replay r = [0x61, 0x62, 0x63] \<and> \<not> cr_degraded r"
proof -
  obtain w1 d1 w2 d2
    where ck: "checkpoint sample_codec 9 sample_checkpoint sample_writer (sample_disk 100) = (Ok (), w1, d1)"
      and ap: "append_all sample_codec [[Output [0x62]], [Resize 90 30, Output [0x63]]] w1 d1 = Some (w2, d2)"
    using sample_run by blast
  have ok: "list_all batch_ok [[Output [0x62]], [Resize 90 30, Output [0x63]]]"
    by (simp add: batch_ok_def encode_log_batch_def push_frame_def)
  show ?thesis
    using cold_restore_replays_all [OF sample_codec_ok _ _ _ _ _ ck ok _ ap, of "''s''" sample_meta tape_parser False]
      sample_read_meta [of 100] percent_encode_s
    by (auto simp: sample_writer_def sample_meta_def new_meta_def sample_checkpoint_def)
qed

text \<open>
  The restored escape tail is the one parked when the checkpoint was taken, also when a log
  with later output was replayed: output that completed the sequence does not clear it, and the
  renderer is told to write the stale bytes last.
\<close>

theorem cold_restore_keeps_stale_tail:
  assumes "codec_ok J" and "hw_dir w = percent_encode sid"
    and "hw_log_max_bytes w = DEFAULT_LOG_MAX_BYTES"
    and "read_meta J (hw_dir w) d = Some meta" and "sm_ended_at_ms meta = None"
    and "sm_started_at_ms meta \<le> now"
    and "checkpoint J now c w d = (Ok (), w1, d1)"
    and "list_all batch_ok rss" and "rss \<noteq> []"
    and "append_all J rss w1 d1 = Some (w2, d2)"
  shows "\<exists>r. detect_cold_restore J T sid ig d2 = Some r
       \<and> cr_pending_escape_tail r = cp_pending_escape_tail c"
  using restore_after_appends [OF assms, of T ig] by blast

text \<open>The ring ended in a bare ESC; the log goes on with plain text, yet the ESC is still handed out.\<close>

lemma cold_restore_keeps_stale_tail_witness:
  "\<exists>d2 r. detect_cold_restore sample_codec tape_parser ''s'' False d2 = Some r
     \<and> cr_pending_escape_tail r = [ESC]"
proof -
  obtain w1 d1 w2 d2
    where ck: "checkpoint sample_codec 9 sample_checkpoint sample_writer (sample_disk 100) = (Ok (), w1, d1)"
      and ap: "append_all sample_codec [[Output [0x62]], [Resize 90 30, Output [0x63]]] w1 d1 = Some (w2, d2)"
    using sample_run by blast
  have ok: "list_all batch_ok [[Output [0x62]], [Resize 90 30, Output [0x63]]]"
    by (simp add: batch_ok_def encode_log_batch_def push_frame_def)
  show ?thesis
    using cold_restore_keeps_stale_tail [OF sample_codec_ok _ _ _ _ _ ck ok _ ap, of "''s''" sample_meta tape_parser False]
      sample_read_meta [of 100] percent_encode_s
    by (auto simp: sample_writer_def sample_meta_def new_meta_def sample_checkpoint_def)
qed

text \<open>
  Opening a new session under a reused id never resurrects the previous session's content: a crash
  at any step of it leaves either the old state untouched or nothing to restore (for a log that
  was anchored by a checkpoint, so not of generation 0).
\<close>

theorem open_session_never_resurrects:
  assumes "open_session J sid meta d = (r, d')"
    and "\<And>buf. dk_files d (percent_encode sid, OUTPUT_LOG) = Some buf \<Longrightarrow> decode_log_header buf \<noteq> Some 0"
  shows "detect_cold_restore J T sid ig d' = None
       \<or> detect_cold_restore J T sid ig d' = detect_cold_restore J T sid ig d"
  using assms by (rule open_session_detect)

lemma open_session_never_resurrects_witness:
  "detect_cold_restore sample_codec tape_parser ''s'' False
     (snd (open_session sample_codec ''s'' sample_meta ((sample_disk 3)\<lparr>dk_locks := []\<rparr>))) = None
   \<or> detect_cold_restore sample_codec tape_parser ''s'' False
     (snd (open_session sample_codec ''s'' sample_meta ((sample_disk 3)\<lparr>dk_locks := []\<rparr>)))
     = detect_cold_restore sample_codec tape_parser ''s'' False ((sample_disk 3)\<lparr>dk_locks := []\<rparr>)"
proof (rule open_session_never_resurrects)
  let ?d = "(sample_disk 3)\<lparr>dk_locks := []\<rparr>"
  show "open_session sample_codec ''s'' sample_meta ?d
      = (fst (open_session sample_codec ''s'' sample_meta ?d),
         snd (open_session sample_codec ''s'' sample_meta ?d))"
    by simp
  show "decode_log_header buf \<noteq> Some 0"
    if "dk_files ?d (percent_encode ''s'', OUTPUT_LOG) = Some buf" for buf
    using that decode_header [of 3 "[]"]
    by (auto simp: percent_encode_s sample_disk_def OUTPUT_LOG_def META_JSON_def)
qed

text \<open>
  C40. One writer per session directory: while an opened writer holds the owner lock, every other
  open and every warm registration of the id is refused; once it is released the lock is free.
\<close>

theorem owner_lock_exclusive:
  assumes "open_session J sid meta d = (Ok w, d')" and "0 < dk_budget d'"
  shows "fst (open_session J' sid meta' d') = Err OwnedElsewhere
       \<and> fst (register_writer sid d') = Err OwnedElsewhere
       \<and> is_ok (fst (register_writer sid (release (hw_dir w) d')))"
proof -
  have o: "percent_encode sid \<in> set (dk_locks d')" "dk_files d' (percent_encode sid, OWNER_LOCK) \<noteq> None"
    "hw_dir w = percent_encode sid"
    using open_session_Ok [OF assms(1)] by simp_all
  obtain n where n: "dk_budget d' = Suc n" using assms(2) by (cases "dk_budget d'") auto
  have "is_ok (fst (register_writer sid (release (hw_dir w) d')))"
    using o n by (auto simp: register_writer_def release_def acquire_def fs_sync_def io_step_def Let_def)
  with held_refuses [OF o(1,2) assms(2)] show ?thesis by simp
qed

lemma owner_lock_exclusive_witness:
  "\<exists>w d'. open_session sample_codec ''s'' sample_meta ((sample_disk 100)\<lparr>dk_locks := []\<rparr>) = (Ok w, d')
     \<and> fst (register_writer ''s'' d') = Err OwnedElsewhere"
proof -
  let ?d = "(sample_disk 100)\<lparr>dk_locks := []\<rparr>"
  have "\<exists>w d'. open_session sample_codec ''s'' sample_meta ?d = (Ok w, d') \<and> 0 < dk_budget d'"
    by (simp add: open_session_def sample_disk_def percent_encode_s acquire_def fs_sync_def io_step_def
        fs_write_def fs_remove_def ignore_io_def write_meta_def set_file_def Let_def OWNER_LOCK_def
        OUTPUT_LOG_def META_JSON_def CHECKPOINT_JSON_def)
  then obtain w d' where "open_session sample_codec ''s'' sample_meta ?d = (Ok w, d')" "0 < dk_budget d'"
    by blast
  with owner_lock_exclusive [OF this, of sample_codec sample_meta] show ?thesis by blast
qed

text \<open>
  A stamped end makes the session ineligible for cold restore, and reopening it undoes exactly
  that: for a directory whose meta reads back, stamping succeeds or changes no verdict, and a
  successful reopen restores eligibility and re-arms the full checkpoint.
\<close>

theorem stamp_and_reopen:
  assumes "codec_ok J" and "hw_dir w = percent_encode sid" and "read_meta J (hw_dir w) d = Some m"
    and "stamp_ended J now code w d = (Ok (), d1)"
    and "reopen J w d1 = (Ok (), w2, d2)"
  shows "detect_cold_restore J T sid False d1 = None \<and> \<not> has_restorable_history J sid d1
       \<and> has_restorable_history J sid d2 \<and> hw_needs_full_anchor w2
       \<and> read_meta J (hw_dir w) d2 = Some (m\<lparr>sm_ended_at_ms := None, sm_exit_code := None\<rparr>)"
proof -
  let ?dir = "percent_encode sid"
  let ?m1 = "m\<lparr>sm_ended_at_ms := Some now, sm_exit_code := code\<rparr>"
  let ?m2 = "?m1\<lparr>sm_ended_at_ms := None, sm_exit_code := None\<rparr>"
  have "fs_write (?dir, META_JSON) (jc_meta_enc J ?m1) d = (Ok (), d1)"
    using assms(2,3,4) by (simp add: stamp_ended_def write_meta_def)
  then have "dk_files d1 (?dir, META_JSON) = Some (jc_meta_enc J ?m1)"
    by (cases rule: fs_write_cases) auto
  then have m1: "read_meta J ?dir d1 = Some ?m1"
    using assms(1) by (simp add: read_meta_def codec_ok_def)
  then have w: "fs_write (?dir, META_JSON) (jc_meta_enc J ?m2) d1 = (Ok (), d2)"
    and w2: "hw_needs_full_anchor w2"
    using assms(2,5) by (auto simp: reopen_def write_meta_def split: prod.splits result.splits)
  from w have "dk_files d2 (?dir, META_JSON) = Some (jc_meta_enc J ?m2)"
    by (cases rule: fs_write_cases) auto
  then have m2: "read_meta J ?dir d2 = Some ?m2"
    using assms(1) by (simp add: read_meta_def codec_ok_def)
  show ?thesis
    using m1 m2 w2 assms(2) by (simp add: detect_cold_restore_def has_restorable_history_def Let_def)
qed

lemma stamp_and_reopen_witness:
  "\<exists>d1 w2 d2. stamp_ended sample_codec 7 (Some 0) sample_writer (sample_disk 100) = (Ok (), d1)
     \<and> reopen sample_codec sample_writer d1 = (Ok (), w2, d2)
     \<and> detect_cold_restore sample_codec tape_parser ''s'' False d1 = None
     \<and> has_restorable_history sample_codec ''s'' d2"
proof -
  have "\<exists>d1 w2 d2. stamp_ended sample_codec 7 (Some 0) sample_writer (sample_disk 100) = (Ok (), d1)
     \<and> reopen sample_codec sample_writer d1 = (Ok (), w2, d2)"
    using sample_codec_ok
    by (simp add: stamp_ended_def reopen_def sample_writer_def sample_disk_def read_meta_def write_meta_def
        codec_ok_def fs_write_def io_step_def set_file_def OUTPUT_LOG_def META_JSON_def)
  then obtain d1 w2 d2 where
    s: "stamp_ended sample_codec 7 (Some 0) sample_writer (sample_disk 100) = (Ok (), d1)"
    and r: "reopen sample_codec sample_writer d1 = (Ok (), w2, d2)"
    by blast
  show ?thesis
    using stamp_and_reopen [OF sample_codec_ok _ _ s r, of "''s''" sample_meta tape_parser]
      sample_read_meta [of 100] percent_encode_s s r
    by (auto simp: sample_writer_def)
qed

end
