(* ===== verification/OutputPath.thy ===== *)
theory OutputPath
  imports HistoryLog "HOL-Library.Sublist"
begin

text \<open>
  The path of a session's output: the raw ring and the coalescer of \<open>grove-core/src/pty.rs\<close>, the
  stream sink and the pending-output buffer of \<open>grove-daemon/src/session.rs\<close>, and the replay gate at
  the receiving end (\<open>grove-core/src/pty.rs\<close>). The coalescer's threads are a step relation: the
  reader's pushes interleave with the steps of the flusher, which drains under the lock and emits
  outside it.
\<close>

subsection \<open>The raw ring\<close>

record ring =
  rg_buf :: bytes
  rg_truncated :: bool

definition append_scrollback_capped :: "ring \<Rightarrow> bytes \<Rightarrow> nat \<Rightarrow> ring" where
  "append_scrollback_capped r chunk limit =
     (if limit = 0 \<or> chunk = [] then r
      else
        let buf = rg_buf r @ chunk in
        if limit < length buf
        then \<lparr>rg_buf = drop (length buf - limit) buf, rg_truncated = True\<rparr>
        else r\<lparr>rg_buf := buf\<rparr>)"

definition RING_CAP_BYTES :: nat where "RING_CAP_BYTES = 256 * 1024"
definition MIN_RING_CAP_BYTES :: nat where "MIN_RING_CAP_BYTES = 4 * 1024"

definition new_ring :: ring where
  "new_ring = \<lparr>rg_buf = [], rg_truncated = False\<rparr>"

lemma append_scrollback_buf:
  "0 < limit \<Longrightarrow> length (rg_buf r) \<le> limit \<Longrightarrow>
   rg_buf (append_scrollback_capped r chunk limit) = last_n limit (rg_buf r @ chunk)"
  by (auto simp: append_scrollback_capped_def Let_def last_n_def)

lemma append_scrollback_truncated:
  "0 < limit \<Longrightarrow> length (rg_buf r) \<le> limit \<Longrightarrow>
   rg_truncated (append_scrollback_capped r chunk limit)
   = (rg_truncated r \<or> limit < length (rg_buf r @ chunk))"
  by (auto simp: append_scrollback_capped_def Let_def)

lemma ring_eqI: "rg_buf r = rg_buf s \<Longrightarrow> rg_truncated r = rg_truncated s \<Longrightarrow> (r :: ring) = s"
  by (cases r, cases s) simp

interpretation scrollback: chunk_fold "\<lambda>r c. append_scrollback_capped r c (Suc limit)"
  "\<lambda>r. length (rg_buf r) \<le> Suc limit" "\<lambda>r c. True" for limit
proof
  fix r :: ring
  show "append_scrollback_capped r [] (Suc limit) = r"
    by (simp add: append_scrollback_capped_def)
next
  fix r :: ring and xs assume "length (rg_buf r) \<le> Suc limit"
  then show "length (rg_buf (append_scrollback_capped r xs (Suc limit))) \<le> Suc limit"
    by (simp add: append_scrollback_buf)
next
  fix r :: ring and xs ys assume good: "length (rg_buf r) \<le> Suc limit"
  let ?r1 = "append_scrollback_capped r xs (Suc limit)"
  have good1: "length (rg_buf ?r1) \<le> Suc limit"
    using good by (simp add: append_scrollback_buf)
  show "append_scrollback_capped r (xs @ ys) (Suc limit) = append_scrollback_capped ?r1 ys (Suc limit)"
  proof (rule ring_eqI)
    show "rg_buf (append_scrollback_capped r (xs @ ys) (Suc limit))
        = rg_buf (append_scrollback_capped ?r1 ys (Suc limit))"
      using good good1 last_n_append_last_n [of "Suc limit" "rg_buf r @ xs" ys]
      by (simp add: append_scrollback_buf)
    show "rg_truncated (append_scrollback_capped r (xs @ ys) (Suc limit))
        = rg_truncated (append_scrollback_capped ?r1 ys (Suc limit))"
      using good good1 by (auto simp: append_scrollback_truncated append_scrollback_buf)
  qed
qed

lemma ring_fold:
  assumes "0 < limit"
  shows "foldl (\<lambda>r c. append_scrollback_capped r c limit) new_ring chunks
       = \<lparr>rg_buf = last_n limit (concat chunks), rg_truncated = (limit < length (concat chunks))\<rparr>"
proof -
  obtain l where l: "limit = Suc l" using assms by (cases limit) auto
  have "safe_run (\<lambda>r c. append_scrollback_capped r c (Suc l)) (\<lambda>r c. True) r chunks" for r
    by (induction chunks arbitrary: r) simp_all
  then have "foldl (\<lambda>r c. append_scrollback_capped r c limit) new_ring chunks
      = append_scrollback_capped new_ring (concat chunks) limit"
    unfolding l by (intro scrollback.fold_concat) (simp add: new_ring_def)
  then show ?thesis
    using assms
    by (auto intro!: ring_eqI simp: append_scrollback_buf append_scrollback_truncated new_ring_def)
qed

subsection \<open>Pending output for the incremental log\<close>

definition PENDING_OUTPUT_MAX_BYTES :: nat where "PENDING_OUTPUT_MAX_BYTES = 2 * 1024 * 1024"
definition PENDING_SEGMENT_CAP :: nat where "PENDING_SEGMENT_CAP = 64 * 1024"

record pending_output =
  po_records :: "history_record list"
  po_bytes :: nat
  po_overflowed :: bool

definition no_pending :: pending_output where
  "no_pending = \<lparr>po_records = [], po_bytes = 0, po_overflowed = False\<rparr>"

text \<open>Appending to a trailing \<open>Output\<close> record under the segment cap, or a new record.\<close>

definition coalesce_output :: "history_record list \<Rightarrow> bytes \<Rightarrow> history_record list" where
  "coalesce_output rs data =
     (if rs = [] then [Output data]
      else case last rs of
             Output l \<Rightarrow>
               if length l < PENDING_SEGMENT_CAP then butlast rs @ [Output (l @ data)]
               else rs @ [Output data]
           | _ \<Rightarrow> rs @ [Output data])"

definition push_output :: "bytes \<Rightarrow> pending_output \<Rightarrow> pending_output" where
  "push_output data p =
     (if po_overflowed p then p
      else
        let bytes = po_bytes p + length data in
        if PENDING_OUTPUT_MAX_BYTES < bytes
        then p\<lparr>po_records := [], po_bytes := 0, po_overflowed := True\<rparr>
        else p\<lparr>po_records := coalesce_output (po_records p) data, po_bytes := bytes\<rparr>)"

definition push_pending :: "history_record \<Rightarrow> pending_output \<Rightarrow> pending_output" where
  "push_pending r p =
     (if po_overflowed p then p
      else p\<lparr>po_records := po_records p @ [r], po_bytes := po_bytes p + 8\<rparr>)"

record pending_take =
  pt_records :: "history_record list"
  pt_overflowed :: bool

definition take_pending_output :: "pending_output \<Rightarrow> pending_take \<times> pending_output" where
  "take_pending_output p =
     (\<lparr>pt_records = po_records p, pt_overflowed = po_overflowed p\<rparr>,
      \<lparr>po_records = [], po_bytes = 0, po_overflowed = False\<rparr>)"

text \<open>A replayed scrollback does not see where output was cut into records.\<close>

lemma scroll_coalesce: "foldl scroll sb (coalesce_output rs data) = foldl scroll sb rs @ data"
proof (cases rs rule: rev_cases)
  case Nil
  then show ?thesis by (simp add: coalesce_output_def)
next
  case (snoc rs' r)
  then show ?thesis by (cases r) (simp_all add: coalesce_output_def)
qed

text \<open>Events a session feeds the buffer, and the records they stand for.\<close>

datatype pending_event = PushOutput bytes | PushRecord history_record

fun push_event :: "pending_output \<Rightarrow> pending_event \<Rightarrow> pending_output" where
  "push_event p (PushOutput data) = push_output data p"
| "push_event p (PushRecord r) = push_pending r p"

fun event_record :: "pending_event \<Rightarrow> history_record" where
  "event_record (PushOutput data) = Output data"
| "event_record (PushRecord r) = r"

lemma push_event_keeps:
  "\<not> po_overflowed (push_event p e) \<Longrightarrow>
   \<not> po_overflowed p \<and> foldl scroll sb (po_records (push_event p e)) = scroll (foldl scroll sb (po_records p)) (event_record e)"
  by (cases e) (auto simp: push_output_def push_pending_def Let_def scroll_coalesce split: if_splits)

lemma push_events_keep:
  "\<not> po_overflowed (foldl push_event p es) \<Longrightarrow>
   foldl scroll sb (po_records (foldl push_event p es))
   = foldl scroll (foldl scroll sb (po_records p)) (map event_record es)"
proof (induction es arbitrary: p)
  case Nil
  then show ?case by simp
next
  case (Cons e es)
  have "po_overflowed q \<Longrightarrow> po_overflowed (foldl push_event q es)" for q
  proof (induction es arbitrary: q)
    case (Cons x xs)
    then show ?case by (cases x) (simp_all add: push_output_def push_pending_def)
  qed simp
  then have "\<not> po_overflowed (push_event p e)"
    using Cons.prems by auto
  then show ?case
    using Cons push_event_keeps by simp
qed

subsection \<open>The coalescer\<close>

definition OUTPUT_FLUSH_INTERVAL :: nat where "OUTPUT_FLUSH_INTERVAL = 8"
definition OUTPUT_FLUSH_SIZE :: nat where "OUTPUT_FLUSH_SIZE = 64 * 1024"
definition MAX_PENDING_BYTES :: nat where "MAX_PENDING_BYTES = OUTPUT_FLUSH_SIZE * 64"

text \<open>\<open>CoalescerInner\<close>; instants are milliseconds.\<close>

record coalescer =
  co_pending :: bytes
  co_first_byte_at :: "nat option"
  co_closed :: bool
  co_truncated :: bool

definition new_coalescer :: coalescer where
  "new_coalescer =
     \<lparr>co_pending = [], co_first_byte_at = None, co_closed = False, co_truncated = False\<rparr>"

definition is_continuation :: "u8 \<Rightarrow> bool" where
  "is_continuation b \<longleftrightarrow> b AND 0xC0 = 0x80"

text \<open>The keep-tail cut: the overflow, extended to the next lead byte.\<close>

definition cut_overflow :: "bytes \<Rightarrow> nat" where
  "cut_overflow pending =
     (let overflow = length pending - MAX_PENDING_BYTES
      in overflow + length (takeWhile is_continuation (drop overflow pending)))"

definition co_push :: "nat \<Rightarrow> bytes \<Rightarrow> coalescer \<Rightarrow> coalescer" where
  "co_push now data c =
     (if data = [] \<or> co_closed c then c
      else
        let pending = co_pending c @ data;
            c1 = (if MAX_PENDING_BYTES < length pending
                  then c\<lparr>co_pending := drop (cut_overflow pending) pending, co_truncated := True\<rparr>
                  else c\<lparr>co_pending := pending\<rparr>)
        in c1\<lparr>co_first_byte_at :=
               (case co_first_byte_at c of None \<Rightarrow> Some now | Some t \<Rightarrow> Some t)\<rparr>)"

definition co_close :: "coalescer \<Rightarrow> coalescer" where
  "co_close c = c\<lparr>co_closed := True\<rparr>"

text \<open>What the flusher does when it holds the lock: sleep on, drain a batch, or drain the final tail.\<close>

datatype flusher_turn = Sleep | Drain | Final

definition flusher_turn :: "nat \<Rightarrow> coalescer \<Rightarrow> flusher_turn" where
  "flusher_turn now c =
     (if co_closed c then Final
      else if co_pending c = [] then Sleep
      else
        let elapsed = (case co_first_byte_at c of None \<Rightarrow> 0 | Some t \<Rightarrow> now - t)
        in if OUTPUT_FLUSH_SIZE \<le> length (co_pending c) \<or> OUTPUT_FLUSH_INTERVAL \<le> elapsed
           then Drain else Sleep)"

definition co_drain :: "coalescer \<Rightarrow> coalescer" where
  "co_drain c = c\<lparr>co_pending := [], co_first_byte_at := None\<rparr>"

text \<open>
  The reader and the flusher together. \<open>cs_drained\<close> is the batch the flusher took under the lock
  and has not handed to \<open>on_output\<close> yet; \<open>cs_out\<close> are the batches handed over;
  \<open>cs_accepted\<close> is a ghost: all bytes pushed before the close.
\<close>

record coalescer_sys =
  cs_co :: coalescer
  cs_drained :: "bytes option"
  cs_final :: bool
  cs_done :: bool
  cs_out :: "bytes list"
  cs_accepted :: bytes

definition co_start :: "coalescer_sys \<Rightarrow> bool" where
  "co_start s \<longleftrightarrow>
     s = \<lparr>cs_co = new_coalescer, cs_drained = None, cs_final = False, cs_done = False, cs_out = [],
          cs_accepted = []\<rparr>"

inductive co_step :: "coalescer_sys \<Rightarrow> coalescer_sys \<Rightarrow> bool" where
  push: "co_step s (s\<lparr>cs_co := co_push now data (cs_co s),
           cs_accepted := (if co_closed (cs_co s) then cs_accepted s else cs_accepted s @ data)\<rparr>)"
| close: "co_step s (s\<lparr>cs_co := co_close (cs_co s)\<rparr>)"
| drain: "\<not> cs_done s \<Longrightarrow> cs_drained s = None \<Longrightarrow> flusher_turn now (cs_co s) = Drain \<Longrightarrow>
    co_step s (s\<lparr>cs_co := co_drain (cs_co s), cs_drained := Some (co_pending (cs_co s))\<rparr>)"
| final: "\<not> cs_done s \<Longrightarrow> cs_drained s = None \<Longrightarrow> flusher_turn now (cs_co s) = Final \<Longrightarrow>
    co_step s (s\<lparr>cs_co := co_drain (cs_co s), cs_drained := Some (co_pending (cs_co s)),
                 cs_final := True\<rparr>)"
| emit: "cs_drained s = Some b \<Longrightarrow> \<not> cs_final s \<Longrightarrow>
    co_step s (s\<lparr>cs_drained := None, cs_out := cs_out s @ [b]\<rparr>)"
| emit_final: "cs_drained s = Some b \<Longrightarrow> cs_final s \<Longrightarrow>
    co_step s (s\<lparr>cs_drained := None, cs_done := True,
                 cs_out := (if b = [] then cs_out s else cs_out s @ [b])\<rparr>)"

definition in_flight :: "coalescer_sys \<Rightarrow> bytes" where
  "in_flight s = concat (cs_out s) @ unwrap_or [] (cs_drained s) @ co_pending (cs_co s)"

definition co_inv :: "coalescer_sys \<Rightarrow> bool" where
  "co_inv s \<longleftrightarrow>
     (\<not> co_truncated (cs_co s) \<longrightarrow> in_flight s = cs_accepted s)
     \<and> subseq (in_flight s) (cs_accepted s)
     \<and> length (co_pending (cs_co s)) \<le> MAX_PENDING_BYTES
     \<and> list_all (\<lambda>b. b \<noteq> []) (cs_out s)
     \<and> (cs_drained s = Some [] \<longrightarrow> cs_final s)
     \<and> (cs_final s \<longrightarrow> co_closed (cs_co s) \<and> co_pending (cs_co s) = [])
     \<and> cs_done s = (cs_final s \<and> cs_drained s = None)"

lemma co_push_simps [simp]:
  "co_closed (co_push now data c) = co_closed c"
  "co_closed c \<Longrightarrow> co_push now data c = c"
  by (simp_all add: co_push_def Let_def)

lemma co_push_pending:
  "\<not> co_closed c \<Longrightarrow> co_pending (co_push now data c) =
     (if MAX_PENDING_BYTES < length (co_pending c @ data)
      then drop (cut_overflow (co_pending c @ data)) (co_pending c @ data) else co_pending c @ data)"
  if "length (co_pending c) \<le> MAX_PENDING_BYTES"
  using that by (auto simp: co_push_def Let_def)

lemma co_push_truncated:
  "\<not> co_closed c \<Longrightarrow> length (co_pending c) \<le> MAX_PENDING_BYTES \<Longrightarrow>
   co_truncated (co_push now data c)
   = (co_truncated c \<or> MAX_PENDING_BYTES < length (co_pending c @ data))"
  by (auto simp: co_push_def Let_def)

lemma cut_overflow_bound: "length (drop (cut_overflow bs) bs) \<le> MAX_PENDING_BYTES"
  by (simp add: cut_overflow_def Let_def)

lemma subseq_drop: "subseq (drop n xs) xs"
  by (metis append_take_drop_id list_emb_append2 subseq_order.order_refl)

lemma subseq_prefix: "subseq xs (xs @ ys)"
  using list_emb_append_mono [OF subseq_order.order_refl list_emb_Nil, of xs ys] by simp

lemma co_inv_step:
  assumes "co_inv s" and "co_step s t"
  shows "co_inv t"
  using assms(2)
proof cases
  case (push data now)
  show ?thesis
  proof (cases "co_closed (cs_co s)")
    case True
    then have "t = s" using push by simp
    then show ?thesis using assms(1) by simp
  next
    case False
    let ?p = "co_pending (cs_co s)" and ?pre = "concat (cs_out s) @ unwrap_or [] (cs_drained s)"
    have len: "length ?p \<le> MAX_PENDING_BYTES" using assms(1) by (simp add: co_inv_def)
    have sub: "subseq ((?pre @ ?p) @ data) (cs_accepted s @ data)"
      using assms(1) by (intro list_emb_append_mono) (simp_all add: co_inv_def in_flight_def)
    have sub2: "subseq (?pre @ drop n (?p @ data)) (cs_accepted s @ data)" for n
    proof -
      have "subseq (?pre @ drop n (?p @ data)) (?pre @ ?p @ data)"
        by (rule list_emb_append_mono [OF subseq_order.order_refl subseq_drop])
      also have "?pre @ ?p @ data = (?pre @ ?p) @ data" by simp
      also note sub
      finally show ?thesis .
    qed
    let ?c = "co_push now data (cs_co s)"
    have pend: "co_pending ?c = (if MAX_PENDING_BYTES < length (?p @ data)
        then drop (cut_overflow (?p @ data)) (?p @ data) else ?p @ data)"
      using len False by (rule co_push_pending)
    have trunc: "co_truncated ?c = (co_truncated (cs_co s) \<or> MAX_PENDING_BYTES < length (?p @ data))"
      using False len by (rule co_push_truncated)
    have flight: "in_flight t = ?pre @ co_pending ?c" "cs_accepted t = cs_accepted s @ data"
      using push False by (simp_all add: in_flight_def)
    have "\<not> co_truncated ?c \<longrightarrow> in_flight t = cs_accepted t"
      using assms(1) unfolding flight pend trunc by (auto simp: co_inv_def in_flight_def)
    moreover have "subseq (in_flight t) (cs_accepted t)"
    proof (cases "MAX_PENDING_BYTES < length (?p @ data)")
      case True
      then have "co_pending ?c = drop (cut_overflow (?p @ data)) (?p @ data)" by (simp add: pend)
      then show ?thesis using sub2 flight by (simp del: drop_append)
    next
      case False
      then have "co_pending ?c = drop 0 (?p @ data)" by (simp add: pend)
      then show ?thesis using sub2 [of 0] flight by simp
    qed
    moreover have "length (co_pending ?c) \<le> MAX_PENDING_BYTES"
      using cut_overflow_bound [of "?p @ data"] by (simp add: pend del: length_drop drop_append)
    moreover have "cs_co t = ?c" "cs_out t = cs_out s" "cs_drained t = cs_drained s"
        "cs_final t = cs_final s" "cs_done t = cs_done s"
      using push by simp_all
    ultimately show ?thesis
      using assms(1) False by (auto simp: co_inv_def)
  qed
next
  case close
  then show ?thesis using assms(1) by (auto simp: co_inv_def in_flight_def co_close_def)
next
  case (drain now)
  then have "co_pending (cs_co s) \<noteq> []"
    by (auto simp: flusher_turn_def split: if_splits)
  then show ?thesis
    using assms(1) drain by (auto simp: co_inv_def in_flight_def co_drain_def unwrap_or_def)
next
  case (final now)
  then have "co_closed (cs_co s)"
    by (auto simp: flusher_turn_def Let_def split: if_splits)
  then show ?thesis
    using assms(1) final by (auto simp: co_inv_def in_flight_def co_drain_def unwrap_or_def)
next
  case (emit b)
  then show ?thesis
    using assms(1) by (auto simp: co_inv_def in_flight_def unwrap_or_def)
next
  case (emit_final b)
  then show ?thesis
    using assms(1) by (auto simp: co_inv_def in_flight_def unwrap_or_def)
qed

interpretation coalescer: invariant_system co_start co_step co_inv
proof
  fix s assume "co_start s"
  then show "co_inv s"
    by (simp add: co_start_def co_inv_def in_flight_def new_coalescer_def unwrap_or_def)
next
  fix s t assume "co_inv s" "co_step s t"
  then show "co_inv t" by (rule co_inv_step)
qed

text \<open>The flusher can always finish once the coalescer is closed, so \<open>close_and_join\<close> returns.\<close>

lemma close_finishes:
  assumes "co_closed (cs_co s)" and "\<not> cs_done s" and "cs_drained s = None \<longrightarrow> \<not> cs_final s"
  shows "\<exists>t. co_step\<^sup>*\<^sup>* s t \<and> cs_done t"
proof -
  have finish: "\<exists>t. co_step\<^sup>*\<^sup>* u t \<and> cs_done t"
    if u: "co_closed (cs_co u)" "\<not> cs_done u" "cs_drained u = None" for u
  proof -
    let ?v = "u\<lparr>cs_co := co_drain (cs_co u), cs_drained := Some (co_pending (cs_co u)), cs_final := True\<rparr>"
    have "co_step u ?v"
      using u by (intro co_step.final) (simp_all add: flusher_turn_def)
    moreover have "co_step ?v (?v\<lparr>cs_drained := None, cs_done := True,
        cs_out := (if co_pending (cs_co u) = [] then cs_out ?v else cs_out ?v @ [co_pending (cs_co u)])\<rparr>)"
      (is "co_step ?v ?w")
      by (rule co_step.emit_final) simp_all
    ultimately have "co_step\<^sup>*\<^sup>* u ?w"
      by (rule converse_rtranclp_into_rtranclp [OF _ r_into_rtranclp])
    moreover have "cs_done ?w" by simp
    ultimately show ?thesis by blast
  qed
  show ?thesis
  proof (cases "cs_drained s")
    case None
    then show ?thesis using finish assms by blast
  next
    case (Some b)
    show ?thesis
    proof (cases "cs_final s")
      case True
      let ?w = "s\<lparr>cs_drained := None, cs_done := True,
          cs_out := (if b = [] then cs_out s else cs_out s @ [b])\<rparr>"
      have "co_step s ?w"
        using Some True by (rule co_step.emit_final)
      then have "co_step\<^sup>*\<^sup>* s ?w" ..
      moreover have "cs_done ?w" by simp
      ultimately show ?thesis by blast
    next
      case False
      let ?u = "s\<lparr>cs_drained := None, cs_out := cs_out s @ [b]\<rparr>"
      have "co_step s ?u" using Some False by (rule co_step.emit)
      moreover obtain t where "co_step\<^sup>*\<^sup>* ?u t" "cs_done t"
        using finish [of ?u] assms by auto
      ultimately show ?thesis by (meson converse_rtranclp_into_rtranclp)
    qed
  qed
qed

subsection \<open>The stream sink\<close>

text \<open>
  \<open>StreamSink::on_output\<close>: one data frame per batch, stamped with the cumulative byte count; the
  encoded bytes go to the hub when they encode.
\<close>

record stream_sink =
  sk_session_id :: string
  sk_seq :: u64
  sk_emitted :: "bytes list"

definition on_output :: "stream_sink \<Rightarrow> bytes \<Rightarrow> stream_sink" where
  "on_output k data =
     (let total = sk_seq k + word_of_nat (length data);
          k1 = k\<lparr>sk_seq := total\<rparr>
      in case to_bytes (data_frame (sk_session_id k) total data) of
           Ok bs \<Rightarrow> k1\<lparr>sk_emitted := sk_emitted k @ [bs]\<rparr>
         | Err e \<Rightarrow> k1)"

lemma sk_seq_fold:
  "sk_seq (foldl on_output k batches) = sk_seq k + word_of_nat (length (concat batches))"
proof (induction batches arbitrary: k)
  case Nil
  then show ?case by simp
next
  case (Cons b bs)
  have "sk_seq (on_output k b) = sk_seq k + word_of_nat (length b)"
    by (simp add: on_output_def Let_def split: result.split)
  with Cons show ?case by simp
qed

subsection \<open>The replay gate\<close>

datatype replay_gate =
    Closed "(u64 \<times> bytes) list" bool
  | Open

text \<open>
  \<open>DaemonSinkAdapter\<close>, with its effects: the chunks handed to \<open>ingest\<close>, whether the pane was
  registered, and whether it was torn down.
\<close>

record adapter =
  ad_gate :: replay_gate
  ad_ingested :: "bytes list"
  ad_registered :: bool
  ad_torn_down :: bool

definition new_adapter :: adapter where
  "new_adapter =
     \<lparr>ad_gate = Closed [] False, ad_ingested = [], ad_registered = False, ad_torn_down = False\<rparr>"

definition ingest :: "bytes \<Rightarrow> adapter \<Rightarrow> adapter" where
  "ingest data a = a\<lparr>ad_ingested := ad_ingested a @ [data]\<rparr>"

definition teardown :: "adapter \<Rightarrow> adapter" where
  "teardown a = a\<lparr>ad_torn_down := True, ad_registered := False\<rparr>"

definition on_data :: "u64 \<Rightarrow> bytes \<Rightarrow> adapter \<Rightarrow> adapter" where
  "on_data seq data a =
     (case ad_gate a of
        Closed frames exited \<Rightarrow> a\<lparr>ad_gate := Closed (frames @ [(seq, data)]) exited\<rparr>
      | Open \<Rightarrow> ingest data a)"

definition on_exit :: "adapter \<Rightarrow> adapter" where
  "on_exit a =
     (case ad_gate a of
        Closed frames exited \<Rightarrow> a\<lparr>ad_gate := Closed frames True\<rparr>
      | Open \<Rightarrow> teardown a)"

definition saturating_sub :: "u64 \<Rightarrow> u64 \<Rightarrow> u64" where
  "saturating_sub a b = (if a < b then 0 else a - b)"

definition release_frame :: "u64 option \<Rightarrow> adapter \<Rightarrow> u64 \<times> bytes \<Rightarrow> adapter" where
  "release_frame snapshot_seq a f =
     (let (seq, data) = f in
      case snapshot_seq of
        None \<Rightarrow> ingest data a
      | Some s \<Rightarrow>
          let start = saturating_sub seq (word_of_nat (length data)) in
          if seq \<le> s then a
          else if start < s then
            let skip = unat (s - start) in ingest (drop (min skip (length data)) data) a
          else ingest data a)"

definition open_gate :: "u64 option \<Rightarrow> adapter \<Rightarrow> bool \<times> adapter" where
  "open_gate snapshot_seq a =
     (let (frames, exited) =
        (case ad_gate a of Closed frames exited \<Rightarrow> (frames, exited) | Open \<Rightarrow> ([], False));
        a = a\<lparr>ad_gate := Open\<rparr>;
        a = (if \<not> exited then a\<lparr>ad_registered := True\<rparr> else a);
        a = foldl (release_frame snapshot_seq) a frames
      in (exited, if exited then teardown a else a))"

text \<open>A run of frames whose stamps count the stream from \<open>base\<close> on.\<close>

fun stamped_from :: "nat \<Rightarrow> (u64 \<times> bytes) list \<Rightarrow> bool" where
  "stamped_from base [] = True"
| "stamped_from base ((seq, data) # fs) =
     (unat seq = base + length data \<and> stamped_from (base + length data) fs)"

lemma release_frame_ingested:
  assumes "unat seq = base + length data"
  shows "concat (ad_ingested (release_frame (Some s) a (seq, data)))
       = concat (ad_ingested a) @ drop (unat s - base) data"
proof -
  have len: "unat (word_of_nat (length data) :: u64) = length data"
    using assms unat_u64_lt [of seq] by (simp add: unat_of_nat)
  have "\<not> seq < word_of_nat (length data)"
    using assms len by (simp add: word_less_nat_alt)
  then have start: "unat (saturating_sub seq (word_of_nat (length data))) = base"
    using assms len by (simp add: saturating_sub_def unat_sub word_le_nat_alt)
  show ?thesis
  proof (cases "seq \<le> s")
    case True
    then have "length data \<le> unat s - base"
      using assms by (simp add: word_le_nat_alt)
    with True show ?thesis by (simp add: release_frame_def Let_def)
  next
    case False
    show ?thesis
    proof (cases "base < unat s")
      case True
      then have "saturating_sub seq (word_of_nat (length data)) < s"
        using start by (simp add: word_less_nat_alt)
      moreover from this have "unat (s - saturating_sub seq (word_of_nat (length data))) = unat s - base"
        using start by (simp add: unat_sub word_less_nat_alt word_le_nat_alt)
      moreover have "unat s - base \<le> length data"
        using False assms by (simp add: word_le_nat_alt)
      ultimately show ?thesis
        using False by (simp add: release_frame_def ingest_def Let_def min_absorb1)
    next
      case below: False
      then have "\<not> saturating_sub seq (word_of_nat (length data)) < s"
        using start by (simp add: word_less_nat_alt)
      with below False show ?thesis by (simp add: release_frame_def ingest_def Let_def)
    qed
  qed
qed

lemma release_frames_ingested:
  assumes "stamped_from base fs"
  shows "concat (ad_ingested (foldl (release_frame (Some s)) a fs))
       = concat (ad_ingested a) @ drop (unat s - base) (concat (map snd fs))"
  using assms
proof (induction fs arbitrary: base a)
  case Nil
  then show ?case by simp
next
  case (Cons f fs)
  obtain seq data where f: "f = (seq, data)" by fastforce
  have "unat seq = base + length data" "stamped_from (base + length data) fs"
    using Cons.prems f by simp_all
  then show ?case
    using Cons.IH [of "base + length data" "release_frame (Some s) a f"]
    by (simp add: f release_frame_ingested drop_append)
qed

lemma release_frames_plain:
  "concat (ad_ingested (foldl (release_frame None) a fs)) = concat (ad_ingested a) @ concat (map snd fs)"
  by (induction fs arbitrary: a) (simp_all add: release_frame_def ingest_def split: prod.split)

lemma foldl_on_data_closed:
  "ad_gate a = Closed frames e \<Longrightarrow>
   foldl (\<lambda>a f. on_data (fst f) (snd f) a) a fs = a\<lparr>ad_gate := Closed (frames @ fs) e\<rparr>"
proof (induction fs arbitrary: a frames)
  case Nil
  then show ?case by (cases a) simp
next
  case (Cons f fs)
  then show ?case by (simp add: on_data_def)
qed

lemma release_frame_gate [simp]:
  "ad_gate (release_frame q a f) = ad_gate a"
  "ad_registered (release_frame q a f) = ad_registered a"
  "ad_torn_down (release_frame q a f) = ad_torn_down a"
  by (simp_all add: release_frame_def ingest_def Let_def split: prod.split option.split)

lemma release_frames_gate [simp]:
  "ad_gate (foldl (release_frame q) a fs) = ad_gate a"
  "ad_registered (foldl (release_frame q) a fs) = ad_registered a"
  "ad_torn_down (foldl (release_frame q) a fs) = ad_torn_down a"
  by (induction fs arbitrary: a) simp_all

lemma foldl_on_data_open:
  "ad_gate a = Open \<Longrightarrow>
   concat (ad_ingested (foldl (\<lambda>a f. on_data (fst f) (snd f) a) a fs))
   = concat (ad_ingested a) @ concat (map snd fs)"
proof (induction fs arbitrary: a)
  case (Cons f fs)
  then show ?case by (simp add: on_data_def ingest_def)
qed simp

subsection \<open>Properties\<close>

text \<open>
  The ring holds exactly the last \<open>limit\<close> bytes of everything appended, however the output was
  cut into chunks, and it is marked truncated exactly when something was dropped.
\<close>

theorem ring_keeps_tail:
  assumes "0 < limit"
  shows "foldl (\<lambda>r c. append_scrollback_capped r c limit) new_ring chunks
       = \<lparr>rg_buf = last_n limit (concat chunks), rg_truncated = (limit < length (concat chunks))\<rparr>"
  using assms by (rule ring_fold)

lemma ring_keeps_tail_witness:
  "foldl (\<lambda>r c. append_scrollback_capped r c 3) new_ring [[1, 2], [], [3, 4, 5]]
   = \<lparr>rg_buf = [3, 4, 5], rg_truncated = True\<rparr>"
  using ring_keeps_tail [of 3 "[[1, 2], [], [3, 4, 5]]"] by (simp add: last_n_def)

text \<open>
  The coalescer never reorders or invents output: at every moment of every interleaving of
  reader and flusher what was emitted is a subsequence of what was pushed, the buffer stays within
  its cap, and when the flusher is done everything pushed was emitted unless the cap forced a drop.
\<close>

theorem coalescer_in_order:
  assumes "co_start s" and "co_step\<^sup>*\<^sup>* s t"
  shows "subseq (concat (cs_out t)) (cs_accepted t)
       \<and> length (co_pending (cs_co t)) \<le> MAX_PENDING_BYTES
       \<and> (cs_done t \<and> \<not> co_truncated (cs_co t) \<longrightarrow> concat (cs_out t) = cs_accepted t)"
proof -
  have inv: "co_inv t" using assms by (rule coalescer.inv_reachable)
  have "subseq (concat (cs_out t)) (in_flight t)"
    unfolding in_flight_def by (rule subseq_prefix)
  moreover have "subseq (in_flight t) (cs_accepted t)" "length (co_pending (cs_co t)) \<le> MAX_PENDING_BYTES"
    using inv by (simp_all add: co_inv_def)
  moreover have "concat (cs_out t) = cs_accepted t" if "cs_done t" "\<not> co_truncated (cs_co t)"
  proof -
    have "in_flight t = cs_accepted t" "co_pending (cs_co t) = []" "cs_drained t = None"
      using inv that by (simp_all add: co_inv_def)
    then show ?thesis by (simp add: in_flight_def)
  qed
  ultimately show ?thesis
    by (blast intro: subseq_order.order_trans)
qed

definition co_initial :: coalescer_sys where
  "co_initial = \<lparr>cs_co = new_coalescer, cs_drained = None, cs_final = False, cs_done = False,
     cs_out = [], cs_accepted = []\<rparr>"

lemma coalescer_in_order_witness:
  "\<exists>t. co_step\<^sup>*\<^sup>* co_initial t \<and> cs_done t \<and> concat (cs_out t) = [1, 2]"
proof -
  define s1 where "s1 = co_initial\<lparr>cs_co := co_push 0 [1, 2] (cs_co co_initial),
    cs_accepted := (if co_closed (cs_co co_initial) then cs_accepted co_initial else cs_accepted co_initial @ [1, 2])\<rparr>"
  define s2 where "s2 = s1\<lparr>cs_co := co_close (cs_co s1)\<rparr>"
  define s3 where "s3 = s2\<lparr>cs_co := co_drain (cs_co s2), cs_drained := Some (co_pending (cs_co s2)), cs_final := True\<rparr>"
  define s4 where "s4 = s3\<lparr>cs_drained := None, cs_done := True,
    cs_out := (if [1, 2] = ([] :: bytes) then cs_out s3 else cs_out s3 @ [[1, 2]])\<rparr>"
  note d = s1_def s2_def s3_def s4_def co_initial_def new_coalescer_def co_push_def co_close_def
    co_drain_def MAX_PENDING_BYTES_def OUTPUT_FLUSH_SIZE_def flusher_turn_def
  have "co_step co_initial s1" unfolding s1_def by (rule co_step.push)
  moreover have "co_step s1 s2" unfolding s2_def by (rule co_step.close)
  moreover have "co_step s2 s3" unfolding s3_def by (rule co_step.final [where now = 0]) (simp_all add: d)
  moreover have "co_step s3 s4" unfolding s4_def by (rule co_step.emit_final) (simp_all add: d)
  ultimately have run: "co_step\<^sup>*\<^sup>* co_initial s4"
    by (meson converse_rtranclp_into_rtranclp rtranclp.rtrancl_refl)
  have "co_start co_initial" by (simp add: co_start_def co_initial_def)
  from coalescer_in_order [OF this run] have "concat (cs_out s4) = [1, 2]"
    by (simp add: d)
  with run show ?thesis by (intro exI [of _ s4]) (simp add: d)
qed



text \<open>
  The replay gate is byte exact: frames that arrive while the gate is closed are held, opening it
  against a snapshot that covers the stream up to byte \<open>s\<close> hands on exactly the held bytes
  after \<open>s\<close>, and later frames follow them in order; the pane is registered.
\<close>

theorem gate_byte_exact:
  assumes "stamped_from base held"
  shows "let a = snd (open_gate (Some s) (foldl (\<lambda>a f. on_data (fst f) (snd f) a) new_adapter held));
             b = foldl (\<lambda>a f. on_data (fst f) (snd f) a) a later
         in concat (ad_ingested b) = drop (unat s - base) (concat (map snd held)) @ concat (map snd later)
            \<and> ad_registered a \<and> \<not> ad_torn_down a"
proof -
  have closed: "foldl (\<lambda>a f. on_data (fst f) (snd f) a) new_adapter held
      = new_adapter\<lparr>ad_gate := Closed held False\<rparr>"
    using foldl_on_data_closed [of new_adapter "[]" False held] by (simp add: new_adapter_def)
  define a where "a = snd (open_gate (Some s) (new_adapter\<lparr>ad_gate := Closed held False\<rparr>))"
  have a: "a = foldl (release_frame (Some s))
      (new_adapter\<lparr>ad_gate := Open, ad_registered := True\<rparr>) held"
    by (simp add: a_def open_gate_def Let_def)
  have "concat (ad_ingested a) = drop (unat s - base) (concat (map snd held))"
    unfolding a by (simp add: release_frames_ingested [OF assms] new_adapter_def)
  moreover have "ad_gate a = Open" "ad_registered a" "\<not> ad_torn_down a"
    by (simp_all add: a new_adapter_def)
  ultimately show ?thesis
    by (simp add: closed foldl_on_data_open flip: a_def)
qed

lemma gate_byte_exact_witness:
  "let a = snd (open_gate (Some 4) (foldl (\<lambda>a f. on_data (fst f) (snd f) a) new_adapter
        [(3, [1, 2, 3]), (6, [4, 5, 6])]));
       b = foldl (\<lambda>a f. on_data (fst f) (snd f) a) a [(7, [7])]
   in concat (ad_ingested b) = [5, 6, 7] \<and> ad_registered a \<and> \<not> ad_torn_down a"
  using gate_byte_exact [of 0 "[(3, [1, 2, 3]), (6, [4, 5, 6])]" 4 "[(7, [7])]"] by simp

text \<open>
  An exit that beats the create reply is not lost: the gate remembers it, replays the held output,
  does not register the pane, tears it down and reports the early exit.
\<close>

theorem early_exit_is_honoured:
  "let a = foldl (\<lambda>a f. on_data (fst f) (snd f) a) (on_exit (foldl (\<lambda>a f. on_data (fst f) (snd f) a) new_adapter pre)) post;
       r = open_gate None a
   in fst r \<and> concat (ad_ingested (snd r)) = concat (map snd (pre @ post))
      \<and> \<not> ad_registered (snd r) \<and> ad_torn_down (snd r)"
proof -
  have a1: "foldl (\<lambda>a f. on_data (fst f) (snd f) a) new_adapter pre = new_adapter\<lparr>ad_gate := Closed pre False\<rparr>"
    using foldl_on_data_closed [of new_adapter "[]" False pre] by (simp add: new_adapter_def)
  have a2: "foldl (\<lambda>a f. on_data (fst f) (snd f) a) (new_adapter\<lparr>ad_gate := Closed pre True\<rparr>) post
      = new_adapter\<lparr>ad_gate := Closed (pre @ post) True\<rparr>"
    using foldl_on_data_closed [of "new_adapter\<lparr>ad_gate := Closed pre True\<rparr>" pre True post] by simp
  have ex: "on_exit (new_adapter\<lparr>ad_gate := Closed pre False\<rparr>) = new_adapter\<lparr>ad_gate := Closed pre True\<rparr>"
    by (simp add: on_exit_def new_adapter_def)
  have "open_gate None (new_adapter\<lparr>ad_gate := Closed (pre @ post) True\<rparr>)
      = (True, teardown (foldl (release_frame None) (new_adapter\<lparr>ad_gate := Open\<rparr>) (pre @ post)))"
    by (simp add: open_gate_def Let_def del: foldl_append)
  then show ?thesis
    unfolding a1 ex a2 Let_def
    by (simp add: teardown_def release_frames_plain new_adapter_def del: foldl_append map_append)
qed

text \<open>
  The delivered byte count and the ingested one drift apart when the coalescer drops: the sink
  counts only what it sends, the snapshot counts everything read, and the next output, up to as
  many bytes as were dropped, carries a stamp below the snapshot's and is discarded at the gate.
\<close>

theorem overflow_makes_gate_discard:
  assumes "MAX_PENDING_BYTES < length p"
    and "q = co_pending (co_push now p new_coalescer)"
    and "k = on_output \<lparr>sk_session_id = sid, sk_seq = 0, sk_emitted = []\<rparr> q"
    and "length data \<le> length p - length q" and "length p < 2 ^ 63"
  shows "ad_ingested (snd (open_gate (Some (word_of_nat (length p)))
           (on_data (sk_seq (on_output k data)) data new_adapter))) = []"
proof -
  have "length q \<le> length p"
    using assms(2) by (simp add: co_push_pending new_coalescer_def)
  have "sk_seq k = word_of_nat (length q)"
    using sk_seq_fold [of "\<lparr>sk_session_id = sid, sk_seq = 0, sk_emitted = []\<rparr>" "[q]"] assms(3) by simp
  then have "sk_seq (on_output k data) = word_of_nat (length q + length data)"
    using sk_seq_fold [of k "[data]"] by simp
  moreover have "(word_of_nat (length q + length data) :: u64) \<le> word_of_nat (length p)"
    using assms(4,5) \<open>length q \<le> length p\<close> by (simp add: word_le_nat_alt unat_of_nat del: of_nat_add)
  ultimately show ?thesis
    by (simp add: open_gate_def on_data_def new_adapter_def release_frame_def Let_def)
qed

lemma overflow_makes_gate_discard_witness:
  "ad_ingested (snd (open_gate (Some (word_of_nat (length (replicate 4194305 (0x41 :: u8)))))
     (on_data (sk_seq (on_output (on_output \<lparr>sk_session_id = ''s'', sk_seq = 0, sk_emitted = []\<rparr>
        (co_pending (co_push 0 (replicate 4194305 0x41) new_coalescer))) [0x42])) [0x42] new_adapter))) = []"
proof (rule overflow_makes_gate_discard [OF _ refl refl])
  let ?p = "replicate 4194305 (0x41 :: u8)"
  show "MAX_PENDING_BYTES < length ?p"
    by (simp add: MAX_PENDING_BYTES_def OUTPUT_FLUSH_SIZE_def)
  then have "co_pending (co_push 0 ?p new_coalescer) = drop (cut_overflow ?p) ?p"
    by (simp add: co_push_pending new_coalescer_def)
  then show "length [0x42 :: u8] \<le> length ?p - length (co_pending (co_push 0 ?p new_coalescer))"
    by (simp add: cut_overflow_def Let_def MAX_PENDING_BYTES_def OUTPUT_FLUSH_SIZE_def)
qed simp

text \<open>
  The pending buffer changes how output is cut into records but not what it says: unless it
  overflowed, replaying the records it hands over equals replaying every event since the last
  take, and after the take it is empty.
\<close>

theorem pending_take_complete:
  assumes "p = foldl push_event no_pending events" and "\<not> pt_overflowed (fst (take_pending_output p))"
  shows "foldl scroll sb (pt_records (fst (take_pending_output p))) = foldl scroll sb (map event_record events)
       \<and> snd (take_pending_output p) = no_pending"
  using assms push_events_keep [of no_pending events sb]
  by (simp add: take_pending_output_def no_pending_def)

lemma pending_take_complete_witness:
  "foldl scroll [9] (pt_records (fst (take_pending_output
      (foldl push_event no_pending [PushOutput [1], PushOutput [2], PushRecord Clear, PushOutput [3]]))))
   = [3]"
  using pending_take_complete
    [where events = "[PushOutput [1], PushOutput [2], PushRecord Clear, PushOutput [3]]" and sb = "[9]", OF refl]
  by (simp add: push_output_def push_pending_def coalesce_output_def no_pending_def
      take_pending_output_def PENDING_OUTPUT_MAX_BYTES_def PENDING_SEGMENT_CAP_def)

end
