(* ===== verification/PtyWriter.thy ===== *)
theory PtyWriter
  imports Prelude "HOL-Library.Sublist"
begin

text \<open>
  The ordered terminal-input writer of \<open>grove-core/src/pty.rs\<close> (\<open>PtyWriter\<close>, \<open>run_pty_writer\<close>): any
  number of callers enqueue whole batches under the lock, one thread pops and writes them. What
  runs under the lock is a function on \<open>WriterInner\<close>; the callers and the writer thread are a step
  relation that interleaves these functions. Deadlines are steps that may happen at any moment.
\<close>

subsection \<open>The queue under the lock\<close>

definition MAX_WRITE_QUEUE_BYTES :: nat where "MAX_WRITE_QUEUE_BYTES = 1024 * 1024"
definition WRITE_TIMEOUT_MSG :: string where
  "WRITE_TIMEOUT_MSG = ''terminal input write timed out; the terminal may be unresponsive''"
definition WRITER_CLOSED_MSG :: string where
  "WRITER_CLOSED_MSG = ''terminal input writer is shutting down''"

text \<open>
  A queued batch; \<open>qw_completion\<close> is the shared completion slot, named by the call that waits on it.
\<close>

record queued_write =
  qw_id :: u64
  qw_bytes :: bytes
  qw_completion :: nat

record writer_inner =
  wi_queue :: "queued_write list"
  wi_queued_bytes :: nat
  wi_next_id :: u64
  wi_closed :: bool

definition new_writer :: writer_inner where
  "new_writer = \<lparr>wi_queue = [], wi_queued_bytes = 0, wi_next_id = 0, wi_closed = False\<rparr>"

text \<open>One turn of the admission loop of \<open>write\<close>: refused, admitted under an id, or blocked on the cap.\<close>

datatype admission = Refused string | Admitted u64 | Blocked

definition fits :: "writer_inner \<Rightarrow> nat \<Rightarrow> bool" where
  "fits w len \<longleftrightarrow> wi_queued_bytes w = 0 \<or> wi_queued_bytes w + len \<le> MAX_WRITE_QUEUE_BYTES"

definition admit :: "nat \<Rightarrow> bytes \<Rightarrow> writer_inner \<Rightarrow> admission \<times> writer_inner" where
  "admit completion data w =
     (if wi_closed w then (Refused WRITER_CLOSED_MSG, w)
      else if fits w (length data) then
        (Admitted (wi_next_id w),
         w\<lparr>wi_next_id := wi_next_id w + 1,
           wi_queued_bytes := wi_queued_bytes w + length data,
           wi_queue := wi_queue w @ [\<lparr>qw_id = wi_next_id w, qw_bytes = data, qw_completion = completion\<rparr>]\<rparr>)
      else (Blocked, w))"

text \<open>\<open>drop_queued_job\<close> removes the first job with the id; \<open>saturating_sub\<close> is subtraction on \<open>nat\<close>.\<close>

fun remove_job :: "u64 \<Rightarrow> queued_write list \<Rightarrow> queued_write list" where
  "remove_job i [] = []"
| "remove_job i (j # q) = (if qw_id j = i then q else j # remove_job i q)"

definition drop_queued_job :: "u64 \<Rightarrow> nat \<Rightarrow> writer_inner \<Rightarrow> writer_inner" where
  "drop_queued_job job_id len w =
     (if job_id \<in> qw_id ` set (wi_queue w)
      then w\<lparr>wi_queue := remove_job job_id (wi_queue w),
             wi_queued_bytes := wi_queued_bytes w - len\<rparr>
      else w)"

definition close_writer :: "writer_inner \<Rightarrow> writer_inner" where
  "close_writer w = w\<lparr>wi_closed := True\<rparr>"

text \<open>What the writer thread finds when it holds the lock: a job, the end, or nothing yet.\<close>

datatype writer_turn = Job queued_write | Stop | Wait

definition next_job :: "writer_inner \<Rightarrow> writer_turn \<times> writer_inner" where
  "next_job w =
     (case wi_queue w of
        j # q \<Rightarrow> (Job j, w\<lparr>wi_queue := q, wi_queued_bytes := wi_queued_bytes w - length (qw_bytes j)\<rparr>)
      | [] \<Rightarrow> (if wi_closed w then Stop else Wait, w))"

subsection \<open>Callers and the writer thread\<close>

text \<open>
  Where a call of \<open>write\<close> stands: in the admission loop, waiting on its completion slot, past its
  deadline with the slot released but the job not yet pulled back, or returned.
\<close>

datatype call =
  Enqueueing bytes
| Awaiting u64 nat
| Abandoning u64 nat
| Returned "(unit, string) result"

datatype writer_pc = Popping | Writing queued_write | Checking bool | Exited

text \<open>
  \<open>ws_tty\<close> is what reached the terminal. The last three fields are ghosts: the jobs admitted, in
  order; the jobs finished with the bytes that landed and the outcome; the argument of each call.
\<close>

record writer_sys =
  ws_inner :: writer_inner
  ws_calls :: "nat \<Rightarrow> call option"
  ws_slots :: "nat \<Rightarrow> (unit, string) result option"
  ws_pc :: writer_pc
  ws_tty :: bytes
  ws_admitted :: "queued_write list"
  ws_finished :: "(queued_write \<times> bytes \<times> bool) list"
  ws_data :: "nat \<Rightarrow> bytes"

definition writer_initial :: writer_sys where
  "writer_initial = \<lparr>ws_inner = new_writer, ws_calls = (\<lambda>_. None), ws_slots = (\<lambda>_. None),
     ws_pc = Popping, ws_tty = [], ws_admitted = [], ws_finished = [], ws_data = (\<lambda>_. [])\<rparr>"

definition writer_start :: "writer_sys \<Rightarrow> bool" where
  "writer_start s \<longleftrightarrow> s = writer_initial"

inductive writer_step :: "writer_sys \<Rightarrow> writer_sys \<Rightarrow> bool" where
  call_empty: "ws_calls s c = None \<Longrightarrow>
    writer_step s (s\<lparr>ws_calls := (ws_calls s)(c \<mapsto> Returned (Ok ())), ws_data := (ws_data s)(c := [])\<rparr>)"
| call_write: "ws_calls s c = None \<Longrightarrow> data \<noteq> [] \<Longrightarrow>
    writer_step s (s\<lparr>ws_calls := (ws_calls s)(c \<mapsto> Enqueueing data), ws_data := (ws_data s)(c := data)\<rparr>)"
| refuse: "ws_calls s c = Some (Enqueueing data) \<Longrightarrow> admit c data (ws_inner s) = (Refused msg, w) \<Longrightarrow>
    writer_step s (s\<lparr>ws_calls := (ws_calls s)(c \<mapsto> Returned (Err msg))\<rparr>)"
| enqueue: "ws_calls s c = Some (Enqueueing data) \<Longrightarrow> admit c data (ws_inner s) = (Admitted i, w) \<Longrightarrow>
    writer_step s (s\<lparr>ws_inner := w, ws_calls := (ws_calls s)(c \<mapsto> Awaiting i (length data)),
      ws_admitted := ws_admitted s @ [\<lparr>qw_id = i, qw_bytes = data, qw_completion = c\<rparr>]\<rparr>)"
| enqueue_timeout: "ws_calls s c = Some (Enqueueing data) \<Longrightarrow>
    writer_step s (s\<lparr>ws_calls := (ws_calls s)(c \<mapsto> Returned (Err WRITE_TIMEOUT_MSG))\<rparr>)"
| take_result: "ws_calls s c = Some (Awaiting i len) \<Longrightarrow> ws_slots s c = Some r \<Longrightarrow>
    writer_step s (s\<lparr>ws_calls := (ws_calls s)(c \<mapsto> Returned r), ws_slots := (ws_slots s)(c := None)\<rparr>)"
| await_timeout: "ws_calls s c = Some (Awaiting i len) \<Longrightarrow> ws_slots s c = None \<Longrightarrow>
    writer_step s (s\<lparr>ws_calls := (ws_calls s)(c \<mapsto> Abandoning i len)\<rparr>)"
| abandon: "ws_calls s c = Some (Abandoning i len) \<Longrightarrow>
    writer_step s (s\<lparr>ws_inner := drop_queued_job i len (ws_inner s),
      ws_calls := (ws_calls s)(c \<mapsto> Returned (Err WRITE_TIMEOUT_MSG))\<rparr>)"
| pop: "ws_pc s = Popping \<Longrightarrow> next_job (ws_inner s) = (Job j, w) \<Longrightarrow>
    writer_step s (s\<lparr>ws_inner := w, ws_pc := Writing j\<rparr>)"
| stop: "ws_pc s = Popping \<Longrightarrow> next_job (ws_inner s) = (Stop, w) \<Longrightarrow>
    writer_step s (s\<lparr>ws_pc := Exited\<rparr>)"
| wrote: "ws_pc s = Writing j \<Longrightarrow>
    writer_step s (s\<lparr>ws_pc := Checking True, ws_tty := ws_tty s @ qw_bytes j,
      ws_slots := (ws_slots s)(qw_completion j \<mapsto> Ok ()),
      ws_finished := ws_finished s @ [(j, qw_bytes j, True)]\<rparr>)"
| write_failed: "ws_pc s = Writing j \<Longrightarrow>
    writer_step s (s\<lparr>ws_pc := Checking False, ws_tty := ws_tty s @ take n (qw_bytes j),
      ws_slots := (ws_slots s)(qw_completion j \<mapsto> Err msg),
      ws_finished := ws_finished s @ [(j, take n (qw_bytes j), False)]\<rparr>)"
| check: "ws_pc s = Checking ok \<Longrightarrow>
    writer_step s (s\<lparr>ws_pc := (if \<not> ok \<and> wi_closed (ws_inner s) then Exited else Popping)\<rparr>)"
| close: "writer_step s (s\<lparr>ws_inner := close_writer (ws_inner s)\<rparr>)"

subsection \<open>Invariant\<close>

inductive_cases writer_stepE: "writer_step s t"

definition current :: "writer_sys \<Rightarrow> queued_write list" where
  "current s = (case ws_pc s of Writing j \<Rightarrow> [j] | _ \<Rightarrow> [])"

definition started :: "writer_sys \<Rightarrow> queued_write list" where
  "started s = map fst (ws_finished s) @ current s"

definition queue_of :: "writer_sys \<Rightarrow> queued_write list" where
  "queue_of s = wi_queue (ws_inner s)"

definition fifo :: "writer_sys \<Rightarrow> bool" where
  "fifo s \<longleftrightarrow> subseq (started s @ queue_of s) (ws_admitted s)"

definition backlog :: "queued_write list \<Rightarrow> nat" where
  "backlog q = sum_list (map (\<lambda>j. length (qw_bytes j)) q)"

definition capped :: "writer_sys \<Rightarrow> bool" where
  "capped s \<longleftrightarrow>
     wi_queued_bytes (ws_inner s) = backlog (queue_of s)
     \<and> (backlog (queue_of s) \<le> MAX_WRITE_QUEUE_BYTES \<or> length (queue_of s) \<le> 1)"

definition ids_in_order :: "writer_sys \<Rightarrow> bool" where
  "ids_in_order s \<longleftrightarrow>
     wi_next_id (ws_inner s) = word_of_nat (length (ws_admitted s))
     \<and> map qw_id (ws_admitted s) = map word_of_nat [0..<length (ws_admitted s)]"

text \<open>A call has the job it admitted under the id it waits for, or it has returned.\<close>

definition waits_for :: "call option \<Rightarrow> queued_write \<Rightarrow> bool" where
  "waits_for c j \<longleftrightarrow>
     c = Some (Awaiting (qw_id j) (length (qw_bytes j)))
     \<or> c = Some (Abandoning (qw_id j) (length (qw_bytes j)))"

definition owned :: "writer_sys \<Rightarrow> bool" where
  "owned s \<longleftrightarrow>
     distinct (map qw_completion (ws_admitted s))
     \<and> (\<forall>j \<in> set (ws_admitted s). qw_bytes j = ws_data s (qw_completion j) \<and> qw_bytes j \<noteq> []
        \<and> (waits_for (ws_calls s (qw_completion j)) j \<or> (\<exists>r. ws_calls s (qw_completion j) = Some (Returned r))))
     \<and> (\<forall>c d. ws_calls s c = Some (Enqueueing d) \<longrightarrow> d \<noteq> [] \<and> ws_data s c = d)
     \<and> (\<forall>c i len. ws_calls s c = Some (Awaiting i len) \<or> ws_calls s c = Some (Abandoning i len) \<longrightarrow>
          (\<exists>j \<in> set (ws_admitted s). qw_completion j = c \<and> qw_id j = i \<and> length (qw_bytes j) = len))
     \<and> (\<forall>j \<in> set (queue_of s). waits_for (ws_calls s (qw_completion j)) j)"

definition ended :: "(queued_write \<times> bytes \<times> bool) list \<Rightarrow> nat \<Rightarrow> bool \<Rightarrow> bool" where
  "ended fs c ok \<longleftrightarrow> (\<exists>j b. (j, b, ok) \<in> set fs \<and> qw_completion j = c)"

definition outcome :: "writer_sys \<Rightarrow> bool" where
  "outcome s \<longleftrightarrow>
     (\<forall>c r. ws_slots s c = Some r \<longrightarrow> ended (ws_finished s) c (is_ok r))
     \<and> (\<forall>c. ws_calls s c = Some (Returned (Ok ())) \<longrightarrow>
        ws_data s c = [] \<or> ended (ws_finished s) c True)
     \<and> (\<forall>(j, b, ok) \<in> set (ws_finished s). prefix b (qw_bytes j) \<and> (ok \<longrightarrow> b = qw_bytes j))
     \<and> ws_tty s = concat (map (fst \<circ> snd) (ws_finished s))"

lemmas writer_inv_defs =
  fifo_def capped_def ids_in_order_def owned_def outcome_def current_def started_def queue_of_def
  waits_for_def

lemma remove_job_split:
  "i \<in> qw_id ` set q \<Longrightarrow> \<exists>p j r. q = p @ j # r \<and> qw_id j = i \<and> remove_job i q = p @ r"
proof (induction q)
  case (Cons x q)
  show ?case
  proof (cases "qw_id x = i")
    case True
    then show ?thesis by (intro exI [of _ "[]"]) simp
  next
    case False
    with Cons obtain p j r where "q = p @ j # r" "qw_id j = i" "remove_job i q = p @ r" by auto
    then show ?thesis using False by (intro exI [of _ "x # p"]) auto
  qed
qed simp

lemma backlog_simps [simp]:
  "backlog [] = 0"
  "backlog (j # q) = length (qw_bytes j) + backlog q"
  "backlog (p @ q) = backlog p + backlog q"
  by (simp_all add: backlog_def)

lemma admit_cases:
  "admit c data w = (a, v) \<Longrightarrow>
   (\<forall>i. a = Admitted i \<longrightarrow> i = wi_next_id w \<and> fits w (length data)
      \<and> v = w\<lparr>wi_next_id := wi_next_id w + 1, wi_queued_bytes := wi_queued_bytes w + length data,
           wi_queue := wi_queue w @ [\<lparr>qw_id = wi_next_id w, qw_bytes = data, qw_completion = c\<rparr>]\<rparr>)"
  by (auto simp: admit_def split: if_splits)

lemma next_job_cases:
  "next_job w = (Job j, v) \<Longrightarrow>
   \<exists>q. wi_queue w = j # q
     \<and> v = w\<lparr>wi_queue := q, wi_queued_bytes := wi_queued_bytes w - length (qw_bytes j)\<rparr>"
  by (auto simp: next_job_def split: list.splits if_splits)

lemma ids_step: "ids_in_order s \<Longrightarrow> writer_step s t \<Longrightarrow> ids_in_order t"
proof (erule writer_stepE, goal_cases)
  case (4 c data i w)
  then show ?case using admit_cases [of c data "ws_inner s" "Admitted i" w] by (simp add: ids_in_order_def)
next
  case (9 j w)
  then show ?case using next_job_cases [of "ws_inner s" j w] by (auto simp: ids_in_order_def)
qed (auto simp: ids_in_order_def drop_queued_job_def close_writer_def)

lemma ids_distinct:
  assumes "ids_in_order s" and "length (ws_admitted s) \<le> 2 ^ 64"
  shows "distinct (map qw_id (ws_admitted s))"
proof -
  have "inj_on (word_of_nat :: nat \<Rightarrow> u64) {0..<length (ws_admitted s)}"
  proof (rule inj_onI)
    fix x y
    assume "x \<in> {0..<length (ws_admitted s)}" "y \<in> {0..<length (ws_admitted s)}"
      and eq: "(word_of_nat x :: u64) = word_of_nat y"
    then have "x < 2 ^ 64" "y < 2 ^ 64" using assms(2) by auto
    then have "unat (word_of_nat x :: u64) = x" "unat (word_of_nat y :: u64) = y"
      using of_nat_inverse [OF refl, where 'a = 64] by simp_all
    then show "x = y" using eq by metis
  qed
  then have "distinct (map (word_of_nat :: nat \<Rightarrow> u64) [0..<length (ws_admitted s)])"
    by (simp only: distinct_map distinct_upt set_upt)
  moreover have "map qw_id (ws_admitted s) = map word_of_nat [0..<length (ws_admitted s)]"
    using assms(1) unfolding ids_in_order_def by blast
  ultimately show ?thesis by (simp only:)
qed

lemma subseq_distinct: "subseq xs ys \<Longrightarrow> distinct ys \<Longrightarrow> distinct xs"
  by (induction rule: list_emb.induct) (auto dest: list_emb_set)

lemma subseq_remove_job: "subseq (remove_job i q) q"
  by (induction q) auto

lemma fifo_step: "fifo s \<Longrightarrow> writer_step s t \<Longrightarrow> fifo t"
proof (erule writer_stepE, goal_cases)
  case (4 c data i w)
  then have "queue_of t = queue_of s @ [\<lparr>qw_id = i, qw_bytes = data, qw_completion = c\<rparr>]"
    using admit_cases [of c data "ws_inner s" "Admitted i" w] by (simp add: queue_of_def)
  moreover have "started t = started s" using 4 by (simp add: started_def current_def)
  ultimately show ?case
    using 4 list_emb_append_mono [of "(=)" "started s @ queue_of s" "ws_admitted s"] by (simp add: fifo_def)
next
  case (8 c i len)
  have "subseq (queue_of t) (queue_of s)"
    using 8 by (simp add: queue_of_def drop_queued_job_def subseq_remove_job)
  then have "subseq (started s @ queue_of t) (started s @ queue_of s)"
    by (rule list_emb_append_mono [OF subseq_order.order_refl])
  moreover have "started t = started s" using 8 by (simp add: started_def current_def)
  ultimately show ?case
    using 8 by (auto simp: fifo_def intro: subseq_order.order_trans)
next
  case (9 j w)
  then show ?case
    using next_job_cases [of "ws_inner s" j w]
    by (auto simp: fifo_def started_def current_def queue_of_def)
qed (auto simp: fifo_def started_def current_def queue_of_def close_writer_def split: writer_pc.splits)

lemma fifo_queue_admitted: "fifo s \<Longrightarrow> j \<in> set (started s) \<or> j \<in> set (queue_of s) \<Longrightarrow> j \<in> set (ws_admitted s)"
  unfolding fifo_def by (auto dest: list_emb_set)

text \<open>Under distinct ids the job that a deadline pulls back is the caller's own.\<close>

lemma abandon_job:
  assumes "fifo s" and "owned s" and "distinct (map qw_id (ws_admitted s))"
    and "ws_calls s c = Some (Abandoning i len)" and "i \<in> qw_id ` set (queue_of s)"
  obtains p j r where "queue_of s = p @ j # r" and "remove_job i (queue_of s) = p @ r"
    and "qw_completion j = c" and "length (qw_bytes j) = len"
    and "\<forall>k \<in> set (p @ r). qw_completion k \<noteq> c"
proof -
  obtain p j r where split: "queue_of s = p @ j # r" "qw_id j = i" "remove_job i (queue_of s) = p @ r"
    using remove_job_split [OF assms(5)] by blast
  have sub: "subseq (queue_of s) (ws_admitted s)"
    using assms(1) list_emb_append2 [OF subseq_order.order_refl, of "queue_of s" "started s"]
    unfolding fifo_def by (blast intro: subseq_order.order_trans)
  obtain k where k: "k \<in> set (ws_admitted s)" "qw_completion k = c" "qw_id k = i" "length (qw_bytes k) = len"
    using assms(2,4) unfolding owned_def by blast
  have "j \<in> set (ws_admitted s)"
    using assms(1) split by (intro fifo_queue_admitted) auto
  with k split(2) assms(3) have "j = k"
    by (auto simp: distinct_map inj_on_def)
  have "distinct (map qw_id (queue_of s))"
    using subseq_map [OF sub] assms(3) by (rule subseq_distinct)
  then have "i \<notin> qw_id ` set (p @ r)" using split by auto
  then have uniq: "qw_id l \<noteq> i" if "l \<in> set (p @ r)" for l
    using that by (metis imageI)
  have "\<forall>l \<in> set (p @ r). qw_completion l \<noteq> c"
  proof
    fix l assume l: "l \<in> set (p @ r)"
    then have "waits_for (ws_calls s (qw_completion l)) l"
      using assms(2) split unfolding owned_def by auto
    then show "qw_completion l \<noteq> c"
      using uniq [OF l] assms(4) by (auto simp: waits_for_def)
  qed
  then show ?thesis using that split k \<open>j = k\<close> by blast
qed

lemma capped_step:
  assumes "fifo s" and "capped s" and "owned s" and "distinct (map qw_id (ws_admitted s))"
    and "writer_step s t"
  shows "capped t"
  using assms(5)
proof (rule writer_stepE, goal_cases)
  case (4 c data i w)
  let ?j = "\<lparr>qw_id = i, qw_bytes = data, qw_completion = c\<rparr>"
  have w: "fits (ws_inner s) (length data)" "queue_of t = queue_of s @ [?j]"
    "wi_queued_bytes (ws_inner t) = wi_queued_bytes (ws_inner s) + length data"
    using 4 admit_cases [of c data "ws_inner s" "Admitted i" w] by (simp_all add: queue_of_def)
  have "queue_of s = []" if "backlog (queue_of s) = 0"
  proof (rule ccontr)
    assume "queue_of s \<noteq> []"
    then obtain j q where "queue_of s = j # q" by (cases "queue_of s") auto
    moreover from this have "qw_bytes j \<noteq> []"
      using fifo_queue_admitted [OF assms(1), of j] assms(3) unfolding owned_def by auto
    ultimately show False using that by simp
  qed
  then show ?case
    using w assms(2) by (auto simp: capped_def fits_def)
next
  case (8 c i len)
  show ?case
  proof (cases "i \<in> qw_id ` set (queue_of s)")
    case True
    obtain p j r where "queue_of s = p @ j # r" "remove_job i (queue_of s) = p @ r" "length (qw_bytes j) = len"
      by (rule abandon_job [OF assms(1,3,4) 8(2) True])
    then show ?thesis
      using True assms(2) 8 by (auto simp: capped_def queue_of_def drop_queued_job_def)
  next
    case False
    then show ?thesis using assms(2) 8 by (simp add: capped_def queue_of_def drop_queued_job_def)
  qed
next
  case (9 j w)
  then show ?case
    using next_job_cases [of "ws_inner s" j w] assms(2) by (auto simp: capped_def queue_of_def)
qed (use assms(2) in \<open>simp_all add: capped_def queue_of_def close_writer_def\<close>)

text \<open>A call whose slot is filled has no job left in the queue.\<close>

lemma finished_not_queued:
  assumes "fifo s" and "owned s" and "outcome s" and "ws_slots s c = Some r"
  shows "\<forall>j \<in> set (queue_of s). qw_completion j \<noteq> c"
proof
  fix j assume j: "j \<in> set (queue_of s)"
  obtain k b where k: "(k, b, is_ok r) \<in> set (ws_finished s)" "qw_completion k = c"
    using assms(3,4) unfolding outcome_def ended_def by blast
  then have "k \<in> set (started s)" by (force simp: started_def)
  have "subseq (map qw_completion (started s @ queue_of s)) (map qw_completion (ws_admitted s))"
    using assms(1) unfolding fifo_def by (rule subseq_map)
  moreover have "distinct (map qw_completion (ws_admitted s))"
    using assms(2) by (simp add: owned_def)
  ultimately have "distinct (map qw_completion (started s @ queue_of s))"
    by (rule subseq_distinct)
  with j k \<open>k \<in> set (started s)\<close> show "qw_completion j \<noteq> c" by force
qed

lemma owned_same:
  "ws_admitted t = ws_admitted s \<Longrightarrow> ws_calls t = ws_calls s \<Longrightarrow> ws_data t = ws_data s \<Longrightarrow>
   queue_of t = queue_of s \<Longrightarrow> owned t = owned s"
  by (simp add: owned_def)

lemma owned_step:
  assumes "fifo s" and "owned s" and "distinct (map qw_id (ws_admitted s))" and "writer_step s t"
    and "outcome s"
  shows "owned t"
  using assms(4)
proof (rule writer_stepE, goal_cases)
  case (1 c)
  then show ?case using assms(2) by (auto simp: owned_def waits_for_def queue_of_def)
next
  case (2 c data)
  then show ?case using assms(2) by (auto simp: owned_def waits_for_def queue_of_def)
next
  case (3 c data msg w)
  then show ?case using assms(2) by (auto simp: owned_def waits_for_def queue_of_def)
next
  case (4 c data i w)
  then show ?case
    using assms(2) admit_cases [of c data "ws_inner s" "Admitted i" w]
    by (auto simp: owned_def waits_for_def queue_of_def)
next
  case (5 c data)
  then show ?case using assms(2) by (auto simp: owned_def waits_for_def queue_of_def)
next
  case (6 c i len r)
  then show ?case
    using assms(2) finished_not_queued [OF assms(1,2,5), of c r]
    by (auto simp: owned_def waits_for_def queue_of_def)
next
  case (7 c i len)
  then show ?case using assms(2) by (auto simp: owned_def waits_for_def queue_of_def)
next
  case (8 c i len)
  have gone: "\<forall>k \<in> set (queue_of t). k \<in> set (queue_of s) \<and> qw_completion k \<noteq> c"
  proof (cases "i \<in> qw_id ` set (queue_of s)")
    case True
    obtain p j r where "queue_of s = p @ j # r" "remove_job i (queue_of s) = p @ r"
        "\<forall>k \<in> set (p @ r). qw_completion k \<noteq> c"
      by (rule abandon_job [OF assms(1,2,3) 8(2) True])
    then show ?thesis using True 8 by (auto simp: queue_of_def drop_queued_job_def)
  next
    case False
    obtain j where "j \<in> set (ws_admitted s)" "qw_completion j = c" "qw_id j = i"
      using assms(2) 8(2) unfolding owned_def by blast
    moreover have "k \<in> set (ws_admitted s)" if "k \<in> set (queue_of s)" for k
      using that assms(1) by (blast intro: fifo_queue_admitted)
    moreover have "distinct (map qw_completion (ws_admitted s))"
      using assms(2) by (simp add: owned_def)
    ultimately have "\<forall>k \<in> set (queue_of s). qw_completion k \<noteq> c"
      using False by (fastforce simp: distinct_map inj_on_def)
    then show ?thesis using False 8 by (simp add: queue_of_def drop_queued_job_def)
  qed
  have other: "ws_calls t k = (if k = c then Some (Returned (Err WRITE_TIMEOUT_MSG)) else ws_calls s k)"
    "ws_admitted t = ws_admitted s" "ws_data t = ws_data s" for k
    using 8 by simp_all
  show ?case
    using assms(2) gone unfolding owned_def other by (auto simp: waits_for_def)
next
  case (9 j w)
  then show ?case
    using next_job_cases [of "ws_inner s" j w] assms(2) by (auto simp: owned_def queue_of_def)
qed (rule owned_same [THEN iffD2, OF _ _ _ _ assms(2)]; simp add: queue_of_def close_writer_def)+

lemma ended_snoc [simp]:
  "ended (fs @ [(j, b, ok)]) c r \<longleftrightarrow> ended fs c r \<or> (qw_completion j = c \<and> r = ok)"
  by (auto simp: ended_def)

lemma outcome_step: "outcome s \<Longrightarrow> writer_step s t \<Longrightarrow> outcome t"
proof (erule writer_stepE, goal_cases)
  case (6 c i len r)
  then have "ended (ws_finished s) c (is_ok r)" unfolding outcome_def by blast
  then show ?case using 6 by (cases r) (auto simp: outcome_def)
next
  case (11 j)
  then show ?case by (auto simp: outcome_def)
next
  case (12 j n msg)
  then show ?case by (auto simp: outcome_def take_is_prefix)
qed (auto simp: outcome_def)

definition writer_inv :: "writer_sys \<Rightarrow> bool" where
  "writer_inv s \<longleftrightarrow>
     ids_in_order s \<and> fifo s \<and> outcome s
     \<and> (length (ws_admitted s) \<le> 2 ^ 64 \<longrightarrow> capped s \<and> owned s)"

lemma admitted_grows: "writer_step s t \<Longrightarrow> length (ws_admitted s) \<le> length (ws_admitted t)"
  by (erule writer_stepE) simp_all

interpretation writer: invariant_system writer_start writer_step writer_inv
proof
  fix s assume "writer_start s"
  then show "writer_inv s"
    by (simp add: writer_start_def writer_initial_def writer_inv_def ids_in_order_def fifo_def
        outcome_def capped_def owned_def started_def current_def queue_of_def new_writer_def)
next
  fix s t assume inv: "writer_inv s" and step: "writer_step s t"
  have "capped t \<and> owned t" if "length (ws_admitted t) \<le> 2 ^ 64"
  proof -
    have small: "length (ws_admitted s) \<le> 2 ^ 64"
      using that admitted_grows [OF step] by simp
    with inv have "distinct (map qw_id (ws_admitted s))"
      unfolding writer_inv_def by (blast intro: ids_distinct)
    with inv small step show ?thesis
      unfolding writer_inv_def by (blast intro: capped_step owned_step)
  qed
  with inv step show "writer_inv t"
    unfolding writer_inv_def by (blast intro: ids_step fifo_step outcome_step)
qed

text \<open>A call that returned stays returned, and its job is never started afterwards.\<close>

lemma returned_stays:
  "writer_step s t \<Longrightarrow> ws_calls s c = Some (Returned r) \<Longrightarrow> ws_calls t c = Some (Returned r)"
  by (erule writer_stepE) auto

lemma started_from_queue:
  "writer_step s t \<Longrightarrow> set (started t) \<subseteq> set (started s) \<union> set (queue_of s)"
proof (erule writer_stepE, goal_cases)
  case (9 j w)
  then show ?case
    using next_job_cases [of "ws_inner s" j w] by (auto simp: started_def current_def queue_of_def)
qed (auto simp: started_def current_def split: writer_pc.splits)

lemma returned_not_started_step:
  assumes "writer_inv s" and "writer_step s t" and "length (ws_admitted s) \<le> 2 ^ 64"
    and "ws_calls s c = Some (Returned r)" and "j \<in> set (started t)" and "qw_completion j = c"
  shows "j \<in> set (started s)"
proof -
  have "j \<notin> set (queue_of s)"
  proof
    assume "j \<in> set (queue_of s)"
    then have "waits_for (ws_calls s (qw_completion j)) j"
      using assms(1,3) unfolding writer_inv_def owned_def by blast
    then show False using assms(4,6) by (simp add: waits_for_def)
  qed
  then show ?thesis using started_from_queue [OF assms(2)] assms(5) by blast
qed

lemma admitted_grows_steps: "writer_step\<^sup>*\<^sup>* s t \<Longrightarrow> length (ws_admitted s) \<le> length (ws_admitted t)"
  by (induction rule: rtranclp_induct) (auto dest: admitted_grows)

lemma returned_not_started:
  assumes "writer_step\<^sup>*\<^sup>* s t" and "writer_inv s" and "length (ws_admitted t) \<le> 2 ^ 64"
    and "ws_calls s c = Some (Returned r)" and "j \<in> set (started t)" and "qw_completion j = c"
  shows "j \<in> set (started s) \<and> ws_calls t c = Some (Returned r)"
  using assms(1,3,5)
proof (induction rule: rtranclp_induct)
  case base
  then show ?case using assms(4) by simp
next
  case (step u v)
  have small: "length (ws_admitted u) \<le> 2 ^ 64"
    using step.prems(1) admitted_grows [OF step.hyps(2)] by simp
  have inv: "writer_inv u" using step.hyps(1) assms(2) by (rule writer.inv_steps)
  have ret: "ws_calls u c = Some (Returned r)"
    using step.hyps(1) assms(4) by (induction rule: rtranclp_induct) (auto dest: returned_stays)
  have "j \<in> set (started u)"
    by (rule returned_not_started_step [OF inv step.hyps(2) small ret step.prems(2) assms(6)])
  then show ?case using step.IH small returned_stays [OF step.hyps(2)] by blast
qed

text \<open>A run of one call, used to instantiate the properties.\<close>

lemma one_write_run:
  "\<exists>t. writer_step\<^sup>*\<^sup>* writer_initial t \<and> ws_calls t 0 = Some (Returned (Ok ())) \<and> ws_data t 0 = [1, 2]
     \<and> length (ws_admitted t) \<le> 2 ^ 64 \<and> (\<exists>j. ws_finished t = [(j, [1, 2], True)] \<and> qw_completion j = 0)"
proof -
  define s1 where "s1 = writer_initial\<lparr>ws_calls := (ws_calls writer_initial)(0 \<mapsto> Enqueueing [1, 2]),
    ws_data := (ws_data writer_initial)(0 := [1, 2])\<rparr>"
  define w where "w = snd (admit 0 [1, 2] (ws_inner s1))"
  define j where "j = \<lparr>qw_id = 0, qw_bytes = [1, 2], qw_completion = 0\<rparr>"
  define s2 where "s2 = s1\<lparr>ws_inner := w, ws_calls := (ws_calls s1)(0 \<mapsto> Awaiting 0 (length [1, 2 :: u8])),
    ws_admitted := ws_admitted s1 @ [\<lparr>qw_id = 0, qw_bytes = [1, 2], qw_completion = 0\<rparr>]\<rparr>"
  define s3 where "s3 = s2\<lparr>ws_inner := snd (next_job (ws_inner s2)), ws_pc := Writing j\<rparr>"
  define s4 where "s4 = s3\<lparr>ws_pc := Checking True, ws_tty := ws_tty s3 @ qw_bytes j,
    ws_slots := (ws_slots s3)(qw_completion j \<mapsto> Ok ()),
    ws_finished := ws_finished s3 @ [(j, qw_bytes j, True)]\<rparr>"
  define s5 where "s5 = s4\<lparr>ws_calls := (ws_calls s4)(0 \<mapsto> Returned (Ok ())), ws_slots := (ws_slots s4)(0 := None)\<rparr>"
  note d = s1_def s2_def s3_def s4_def s5_def w_def j_def writer_initial_def new_writer_def admit_def
    fits_def next_job_def
  have "writer_step writer_initial s1"
    unfolding s1_def by (rule writer_step.call_write) (simp_all add: d)
  moreover have "writer_step s1 s2"
    unfolding s2_def by (rule writer_step.enqueue) (simp_all add: d)
  moreover have "writer_step s2 s3"
    unfolding s3_def by (rule writer_step.pop) (simp_all add: d)
  moreover have "writer_step s3 s4"
    unfolding s4_def by (rule writer_step.wrote) (simp add: s3_def)
  moreover have "writer_step s4 s5"
    unfolding s5_def by (rule writer_step.take_result [where i = 0 and len = 2]) (simp_all add: d)
  ultimately have "writer_step\<^sup>*\<^sup>* writer_initial s5"
    by (meson converse_rtranclp_into_rtranclp rtranclp.rtrancl_refl)
  then show ?thesis
    by (intro exI [of _ s5]) (simp add: d)
qed

lemma writer_initial_start: "writer_start writer_initial"
  by (simp add: writer_start_def)

subsection \<open>Properties\<close>

text \<open>
  C38. Input is written in the order it was admitted and whole batches never interleave, whatever
  the callers and deadlines do: the finished jobs are a subsequence of the admitted ones, and the
  terminal received the concatenation of what each of them wrote, all of the batch when the write
  succeeded and a prefix of it when it failed.
\<close>

theorem input_fifo:
  assumes "writer_start s" and "writer_step\<^sup>*\<^sup>* s t"
  shows "subseq (map fst (ws_finished t)) (ws_admitted t)
       \<and> ws_tty t = concat (map (fst \<circ> snd) (ws_finished t))
       \<and> (\<forall>(j, b, ok) \<in> set (ws_finished t). prefix b (qw_bytes j) \<and> (ok \<longrightarrow> b = qw_bytes j))"
proof -
  have inv: "writer_inv t" using assms by (rule writer.inv_reachable)
  have "subseq (map fst (ws_finished t)) (map fst (ws_finished t) @ current t @ queue_of t)"
    using list_emb_append_mono [OF subseq_order.order_refl list_emb_Nil, of "map fst (ws_finished t)"] by simp
  with inv show ?thesis
    by (auto simp: writer_inv_def fifo_def outcome_def started_def intro: subseq_order.order_trans)
qed

lemma input_fifo_witness:
  "\<exists>t. writer_step\<^sup>*\<^sup>* writer_initial t \<and> ws_tty t = [1, 2]"
proof -
  obtain t j where t: "writer_step\<^sup>*\<^sup>* writer_initial t" "ws_finished t = [(j, [1, 2], True)]"
    using one_write_run by blast
  from input_fifo [OF writer_initial_start t(1)] have "ws_tty t = [1, 2]"
    by (simp add: t(2))
  with t(1) show ?thesis by blast
qed

text \<open>
  C37. The backlog is bounded: in every reachable state the byte counter equals the bytes queued, and
  they stay within the cap unless a single oversized batch is queued alone.
\<close>

theorem input_backlog_bounded:
  assumes "writer_start s" and "writer_step\<^sup>*\<^sup>* s t" and "length (ws_admitted t) \<le> 2 ^ 64"
  shows "wi_queued_bytes (ws_inner t) = sum_list (map (\<lambda>j. length (qw_bytes j)) (wi_queue (ws_inner t)))
       \<and> (wi_queued_bytes (ws_inner t) \<le> MAX_WRITE_QUEUE_BYTES \<or> length (wi_queue (ws_inner t)) \<le> 1)"
proof -
  have "writer_inv t" using assms(1,2) by (rule writer.inv_reachable)
  then show ?thesis
    using assms(3) by (auto simp: writer_inv_def capped_def backlog_def queue_of_def)
qed

lemma input_backlog_bounded_witness:
  "\<exists>t. writer_step\<^sup>*\<^sup>* writer_initial t \<and> ws_data t 0 = [1, 2]
     \<and> (wi_queued_bytes (ws_inner t) \<le> MAX_WRITE_QUEUE_BYTES \<or> length (wi_queue (ws_inner t)) \<le> 1)"
proof -
  obtain t where t: "writer_step\<^sup>*\<^sup>* writer_initial t" "ws_data t 0 = [1, 2]" "length (ws_admitted t) \<le> 2 ^ 64"
    using one_write_run by blast
  from input_backlog_bounded [OF writer_initial_start t(1,3)] t(1,2) show ?thesis by blast
qed

text \<open>
  A call that returned is over: whatever it returned, a deadline error included, its bytes are
  never written later. If its job is ever finished, the writer thread had already taken it when the
  call returned.
\<close>

theorem abandoned_input_never_written:
  assumes "writer_start s" and "writer_step\<^sup>*\<^sup>* s t" and "writer_step\<^sup>*\<^sup>* t u" and "length (ws_admitted u) \<le> 2 ^ 64"
    and "ws_calls t c = Some (Returned r)" and "j \<in> set (map fst (ws_finished u))" and "qw_completion j = c"
  shows "j \<in> set (map fst (ws_finished t)) \<or> ws_pc t = Writing j"
proof -
  have "writer_inv t" using assms(1,2) by (rule writer.inv_reachable)
  moreover have "j \<in> set (started u)" using assms(6) by (simp add: started_def)
  ultimately have "j \<in> set (started t)"
    using returned_not_started assms(3,4,5,7) by blast
  then show ?thesis by (auto simp: started_def current_def split: writer_pc.splits)
qed

lemma abandoned_input_never_written_witness:
  "\<exists>t j. writer_step\<^sup>*\<^sup>* writer_initial t \<and> ws_calls t 0 = Some (Returned (Ok ()))
     \<and> (j \<in> set (map fst (ws_finished t)) \<or> ws_pc t = Writing j)"
proof -
  obtain t j where t: "writer_step\<^sup>*\<^sup>* writer_initial t" "ws_calls t 0 = Some (Returned (Ok ()))"
      "length (ws_admitted t) \<le> 2 ^ 64" "ws_finished t = [(j, [1, 2], True)]" "qw_completion j = 0"
    using one_write_run by blast
  have "j \<in> set (map fst (ws_finished t))" by (simp add: t(4))
  from abandoned_input_never_written [OF writer_initial_start t(1) rtranclp.rtrancl_refl t(3,2) this t(5)]
  show ?thesis using t(1,2) by blast
qed

text \<open>
  \<open>Ok\<close> means written: when a call of \<open>write\<close> returns \<open>Ok\<close>, all of its bytes were written to
  the terminal as one batch.
\<close>

theorem write_ok_landed:
  assumes "writer_start s" and "writer_step\<^sup>*\<^sup>* s t" and "length (ws_admitted t) \<le> 2 ^ 64"
    and "ws_calls t c = Some (Returned (Ok ()))" and "ws_data t c \<noteq> []"
  shows "\<exists>j. (j, ws_data t c, True) \<in> set (ws_finished t) \<and> qw_completion j = c"
proof -
  have inv: "writer_inv t" using assms(1,2) by (rule writer.inv_reachable)
  then obtain j b where j: "(j, b, True) \<in> set (ws_finished t)" "qw_completion j = c"
    using assms(4,5) unfolding writer_inv_def outcome_def ended_def by blast
  have "\<forall>(j, b, ok) \<in> set (ws_finished t). prefix b (qw_bytes j) \<and> (ok \<longrightarrow> b = qw_bytes j)"
    using inv by (simp add: writer_inv_def outcome_def)
  from bspec [OF this j(1)] have "b = qw_bytes j" by simp
  moreover have "j \<in> set (ws_admitted t)"
  proof (rule fifo_queue_admitted)
    show "fifo t" using inv by (simp add: writer_inv_def)
    show "j \<in> set (started t) \<or> j \<in> set (queue_of t)" using j(1) by (force simp: started_def)
  qed
  then have "qw_bytes j = ws_data t c"
    using inv assms(3) j(2) unfolding writer_inv_def owned_def by blast
  ultimately show ?thesis using j by auto
qed

lemma write_ok_landed_witness:
  "\<exists>t j. writer_step\<^sup>*\<^sup>* writer_initial t \<and> (j, [1, 2], True) \<in> set (ws_finished t) \<and> qw_completion j = 0"
proof -
  obtain t where t: "writer_step\<^sup>*\<^sup>* writer_initial t" "length (ws_admitted t) \<le> 2 ^ 64"
      "ws_calls t 0 = Some (Returned (Ok ()))" "ws_data t 0 = [1, 2]"
    using one_write_run by blast
  from write_ok_landed [OF writer_initial_start t(1,2,3)] t(1,4) show ?thesis by auto
qed

end
