(* ===== verification/Session.thy ===== *)
theory Session
  imports AgentStatus Emulator OutputPath Framing
begin

text \<open>
  One terminal session of the daemon, \<open>grove-daemon/src/session.rs\<close>: the byte tee of the reader thread
  into the ring, the emulator and the pending history records; resize, clear and snapshot; the
  producer gate with its failsafe; kill and the single exit frame. The fields behind mutexes and
  atomics are the fields of one record, and an operation is a function on it.

  Parameters stand for what is outside the crate: the \<open>vt100\<close> parser (\<open>'p vt100\<close>), whether a call of
  it panicked (the outcome of \<open>catch_unwind\<close>, a boolean of \<open>feed_emulator\<close> and \<open>session_snapshot\<close>),
  the result of the operating system's resize, and the child's exit status.
\<close>

subsection \<open>State\<close>

definition PRODUCER_PAUSE_FAILSAFE :: nat where "PRODUCER_PAUSE_FAILSAFE = 5000"
definition KILL_FORCE_TIMEOUT :: nat where "KILL_FORCE_TIMEOUT = 5000"

record producer_state =
  pr_paused :: bool
  pr_generation :: u64

definition default_producer :: producer_state where
  "default_producer = \<lparr>pr_paused = False, pr_generation = 0\<rparr>"

text \<open>
  \<open>ss_marks\<close> counts the calls of \<open>reaper.mark_dirty\<close>, \<open>ss_input\<close> is the channel to the input
  forwarder, \<open>ss_killed\<close> counts the signals sent to the child.
\<close>

record 'p session =
  ss_id :: string
  ss_master :: bool
  ss_input :: "bytes list"
  ss_killed :: nat
  ss_ring :: ring
  ss_emulator :: "'p daemon_emulator option"
  ss_emulator_poisoned :: bool
  ss_seq :: u64
  ss_ingest_seq :: u64
  ss_alive :: bool
  ss_exit_emitted :: bool
  ss_applied :: "u16 \<times> u16"
  ss_pending :: pending_output
  ss_history_enabled :: bool
  ss_marks :: nat
  ss_producer :: producer_state
  ss_bell :: bool
  ss_agents :: "agent_claim list"
  ss_background :: bool
  ss_ring_cap :: nat

definition spawn_with_ring_cap :: "'p vt100 \<Rightarrow> string \<Rightarrow> u16 \<Rightarrow> u16 \<Rightarrow> nat \<Rightarrow> 'p session" where
  "spawn_with_ring_cap T sid cols rows ring_cap_bytes =
     \<lparr>ss_id = sid, ss_master = True, ss_input = [], ss_killed = 0, ss_ring = new_ring,
      ss_emulator = Some (new_emulator T rows cols DEFAULT_SCROLLBACK_LINES),
      ss_emulator_poisoned = False, ss_seq = 0, ss_ingest_seq = 0, ss_alive = True,
      ss_exit_emitted = False, ss_applied = (cols, rows), ss_pending = no_pending,
      ss_history_enabled = False, ss_marks = 0, ss_producer = default_producer, ss_bell = False,
      ss_agents = [], ss_background = False, ss_ring_cap = max ring_cap_bytes MIN_RING_CAP_BYTES\<rparr>"

definition spawn :: "'p vt100 \<Rightarrow> string \<Rightarrow> u16 \<Rightarrow> u16 \<Rightarrow> 'p session" where
  "spawn T sid cols rows = spawn_with_ring_cap T sid cols rows RING_CAP_BYTES"

subsection \<open>The byte tee\<close>

definition append_ring :: "bytes \<Rightarrow> 'p session \<Rightarrow> 'p session" where
  "append_ring chunk s = s\<lparr>ss_ring := append_scrollback_capped (ss_ring s) chunk (ss_ring_cap s)\<rparr>"

definition ring_tail :: "'p session \<Rightarrow> bytes" where
  "ring_tail s = rg_buf (ss_ring s)"

definition feed_emulator :: "'p vt100 \<Rightarrow> bool \<Rightarrow> bytes \<Rightarrow> 'p session \<Rightarrow> 'p session" where
  "feed_emulator T panics chunk s =
     (if ss_emulator_poisoned s then s
      else case ss_emulator s of
             None \<Rightarrow> s
           | Some emu \<Rightarrow>
               if panics then s\<lparr>ss_emulator := None, ss_emulator_poisoned := True\<rparr>
               else
                 (let (bells, emu) = em_take_bells (process T emu chunk);
                      s = s\<lparr>ss_emulator := Some emu\<rparr>
                  in if 0 < bells then s\<lparr>ss_bell := True\<rparr> else s))"

definition mark_dirty :: "'p session \<Rightarrow> 'p session" where
  "mark_dirty s = s\<lparr>ss_marks := Suc (ss_marks s)\<rparr>"

definition tee :: "'p vt100 \<Rightarrow> bool \<Rightarrow> bytes \<Rightarrow> 'p session \<Rightarrow> 'p session" where
  "tee T panics chunk s =
     (let s = feed_emulator T panics chunk (append_ring chunk s);
          s = (if ss_history_enabled s
               then mark_dirty (s\<lparr>ss_pending := push_output chunk (ss_pending s)\<rparr>) else s)
      in s\<lparr>ss_ingest_seq := ss_ingest_seq s + word_of_nat (length chunk)\<rparr>)"

definition enable_history :: "'p session \<Rightarrow> 'p session" where
  "enable_history s = s\<lparr>ss_history_enabled := True\<rparr>"

definition session_take_pending :: "'p session \<Rightarrow> pending_take \<times> 'p session" where
  "session_take_pending s =
     (let (t, p) = take_pending_output (ss_pending s) in (t, s\<lparr>ss_pending := p\<rparr>))"

subsection \<open>Reads\<close>

definition session_snapshot ::
  "'p vt100 \<Rightarrow> bool \<Rightarrow> snapshot_options \<Rightarrow> 'p session \<Rightarrow> daemon_snapshot option \<times> 'p session" where
  "session_snapshot T panics opts s =
     (case ss_emulator s of
        None \<Rightarrow> (None, s)
      | Some emu \<Rightarrow>
          if panics then (None, s\<lparr>ss_emulator := None, ss_emulator_poisoned := True\<rparr>)
          else (Some (snapshot T opts (ss_ingest_seq s) emu), s))"

definition session_cwd :: "'p session \<Rightarrow> string option" where
  "session_cwd s = (case ss_emulator s of None \<Rightarrow> None | Some e \<Rightarrow> ms_cwd (em_modes e))"

definition session_title :: "'p session \<Rightarrow> string option" where
  "session_title s = (case ss_emulator s of None \<Rightarrow> None | Some e \<Rightarrow> ms_title (em_modes e))"

definition output_sequence :: "'p session \<Rightarrow> u64" where
  "output_sequence s = ss_ingest_seq s"

definition session_applied_size :: "'p vt100 \<Rightarrow> 'p session \<Rightarrow> u16 \<times> u16" where
  "session_applied_size T s =
     (case ss_emulator s of Some emu \<Rightarrow> applied_size T emu | None \<Rightarrow> ss_applied s)"

subsection \<open>Input, agents, bell\<close>

definition enqueue_write :: "bytes \<Rightarrow> 'p session \<Rightarrow> 'p session" where
  "enqueue_write data s = s\<lparr>ss_input := ss_input s @ [data]\<rparr>"

definition record_agent_claim :: "agent_claim \<Rightarrow> kernel \<Rightarrow> 'p session \<Rightarrow> 'p session" where
  "record_agent_claim claim K s = s\<lparr>ss_agents := prune K (ss_agents s) @ [claim]\<rparr>"

definition apply_agent_event ::
  "string \<Rightarrow> string \<Rightarrow> string option \<Rightarrow> u64 \<Rightarrow> 'p session \<Rightarrow> bool \<times> 'p session" where
  "apply_agent_event claim_id event tool_name at_ns s =
     (let (ok, agents) = apply_event (ss_agents s) claim_id event tool_name at_ns
      in (ok, s\<lparr>ss_agents := agents\<rparr>))"

definition agent_status :: "kernel \<Rightarrow> 'p session \<Rightarrow> string option" where
  "agent_status K s = resolve (ss_agents s) K"

definition take_bell :: "'p session \<Rightarrow> bool \<times> 'p session" where
  "take_bell s = (ss_bell s, s\<lparr>ss_bell := False\<rparr>)"

definition set_background :: "bool \<Rightarrow> 'p session \<Rightarrow> 'p session" where
  "set_background b s = s\<lparr>ss_background := b\<rparr>"

subsection \<open>Resize and clear\<close>

text \<open>\<open>os\<close> is what \<open>master.resize\<close> returns.\<close>

definition session_resize ::
  "'p vt100 \<Rightarrow> (unit, string) result \<Rightarrow> u16 \<Rightarrow> u16 \<Rightarrow> 'p session \<Rightarrow> (unit, string) result \<times> 'p session" where
  "session_resize T os cols rows s =
     (if \<not> ss_alive s then (Ok (), s)
      else if \<not> ss_master s then (Ok (), s)
      else case os of
             Err e \<Rightarrow> (Err e, s)
           | Ok _ \<Rightarrow>
               let s = s\<lparr>ss_emulator := map_option (resize T cols rows) (ss_emulator s),
                         ss_applied := (cols, rows)\<rparr>;
                   s = (if ss_history_enabled s
                        then mark_dirty (s\<lparr>ss_pending := push_pending (Resize cols rows) (ss_pending s)\<rparr>)
                        else s)
               in (Ok (), s))"

definition clear_history :: "'p vt100 \<Rightarrow> 'p session \<Rightarrow> 'p session" where
  "clear_history T s =
     (let s = s\<lparr>ss_ring := \<lparr>rg_buf = [], rg_truncated = False\<rparr>,
                ss_emulator := map_option (clear_scrollback T) (ss_emulator s)\<rparr>
      in if ss_history_enabled s
         then mark_dirty (s\<lparr>ss_pending := push_pending Clear (ss_pending s)\<rparr>)
         else s)"

subsection \<open>The producer gate\<close>

definition pause_gate :: "producer_state \<Rightarrow> producer_state" where
  "pause_gate p = p\<lparr>pr_paused := True, pr_generation := pr_generation p + 1\<rparr>"

definition resume_gate :: "producer_state \<Rightarrow> producer_state" where
  "resume_gate p = (let p = p\<lparr>pr_generation := pr_generation p + 1\<rparr>
     in if pr_paused p then p\<lparr>pr_paused := False\<rparr> else p)"

text \<open>What a failsafe thread armed at generation \<open>g\<close> does when its window elapses.\<close>

definition fire_failsafe :: "u64 \<Rightarrow> producer_state \<Rightarrow> producer_state" where
  "fire_failsafe g p =
     (if pr_generation p = g \<and> pr_paused p
      then p\<lparr>pr_paused := False, pr_generation := pr_generation p + 1\<rparr> else p)"

text \<open>Pausing answers the generation its failsafe thread is armed with, none on a dead session.\<close>

definition pause_producer :: "'p session \<Rightarrow> u64 option \<times> 'p session" where
  "pause_producer s =
     (if \<not> ss_alive s then (None, s)
      else let p = pause_gate (ss_producer s) in (Some (pr_generation p), s\<lparr>ss_producer := p\<rparr>))"

definition resume_producer :: "'p session \<Rightarrow> 'p session" where
  "resume_producer s = s\<lparr>ss_producer := resume_gate (ss_producer s)\<rparr>"

text \<open>The reader may read when \<open>producer_wait_if_paused\<close> lets it through.\<close>

definition reader_parked :: "'p session \<Rightarrow> bool" where
  "reader_parked s = pr_paused (ss_producer s)"

subsection \<open>Kill and exit\<close>

definition kill :: "'p session \<Rightarrow> 'p session" where
  "kill s = (let s = resume_producer s in s\<lparr>ss_killed := Suc (ss_killed s)\<rparr>)"

text \<open>The watchdog armed by \<open>kill\<close>, when its timeout elapses.\<close>

definition force_dispose :: "'p session \<Rightarrow> 'p session" where
  "force_dispose s =
     (if ss_alive s
      then let s = resume_producer s in s\<lparr>ss_killed := Suc (ss_killed s), ss_master := False\<rparr>
      else s)"

text \<open>
  \<open>emit_exit\<close>: the status is \<open>child.wait\<close>'s, \<open>to_json\<close> is serde's encoding of it, and the answer is the exit code, the session and the
  frame handed to the hub.
\<close>

definition emit_exit ::
  "(exit_status \<Rightarrow> bytes) \<Rightarrow> (u32, unit) result \<Rightarrow> 'p session
   \<Rightarrow> int option \<times> 'p session \<times> bytes list" where
  "emit_exit to_json wait s =
     (if ss_exit_emitted s then (None, s, [])
      else
        let s = s\<lparr>ss_exit_emitted := True\<rparr>;
            code = (case wait of Ok c \<Rightarrow> Some (sint c) | Err _ \<Rightarrow> None)
        in (code, s,
            case to_bytes (exit_frame to_json (ss_id s) (ss_seq s) \<lparr>es_code = code, es_signal = None\<rparr>) of
              Ok bs \<Rightarrow> [bs] | Err _ \<Rightarrow> []))"

text \<open>
  The end of \<open>run_reader\<close>: dead, the coalescer closed and joined (its last batch, if any, goes
  through the sink), then the exit frame, then the master dropped. Answers the frames handed to
  the hub in order and the exit code for the history stamp.
\<close>

definition reader_end ::
  "(exit_status \<Rightarrow> bytes) \<Rightarrow> bytes \<Rightarrow> (u32, unit) result \<Rightarrow> 'p session
   \<Rightarrow> 'p session \<times> bytes list \<times> int option" where
  "reader_end to_json last_batch wait s =
     (let s = s\<lparr>ss_alive := False\<rparr>;
          k = \<lparr>sk_session_id = ss_id s, sk_seq = ss_seq s, sk_emitted = []\<rparr>;
          k = (if last_batch = [] then k else on_output k last_batch);
          s = s\<lparr>ss_seq := sk_seq k\<rparr>;
          (code, s, frames) = emit_exit to_json wait s
      in (s\<lparr>ss_master := False\<rparr>, sk_emitted k @ frames, code))"

subsection \<open>What the operations leave alone\<close>

lemma feed_emulator_keeps [simp]:
  "ss_ring (feed_emulator T p c s) = ss_ring s"
  "ss_ring_cap (feed_emulator T p c s) = ss_ring_cap s"
  "ss_ingest_seq (feed_emulator T p c s) = ss_ingest_seq s"
  "ss_pending (feed_emulator T p c s) = ss_pending s"
  "ss_history_enabled (feed_emulator T p c s) = ss_history_enabled s"
  "ss_alive (feed_emulator T p c s) = ss_alive s"
  "ss_master (feed_emulator T p c s) = ss_master s"
  "ss_applied (feed_emulator T p c s) = ss_applied s"
  by (simp_all add: feed_emulator_def Let_def split: option.split prod.split)

lemma append_ring_keeps [simp]:
  "ss_ring_cap (append_ring c s) = ss_ring_cap s"
  "ss_ingest_seq (append_ring c s) = ss_ingest_seq s"
  "ss_pending (append_ring c s) = ss_pending s"
  "ss_history_enabled (append_ring c s) = ss_history_enabled s"
  "ss_alive (append_ring c s) = ss_alive s"
  "ss_master (append_ring c s) = ss_master s"
  "ss_applied (append_ring c s) = ss_applied s"
  "ss_emulator (append_ring c s) = ss_emulator s"
  "ss_emulator_poisoned (append_ring c s) = ss_emulator_poisoned s"
  by (simp_all add: append_ring_def)

lemma tee_fields [simp]:
  "ss_ring (tee T p c s) = append_scrollback_capped (ss_ring s) c (ss_ring_cap s)"
  "ss_ring_cap (tee T p c s) = ss_ring_cap s"
  "ss_ingest_seq (tee T p c s) = ss_ingest_seq s + word_of_nat (length c)"
  "ss_history_enabled (tee T p c s) = ss_history_enabled s"
  "ss_alive (tee T p c s) = ss_alive s"
  "ss_master (tee T p c s) = ss_master s"
  "ss_applied (tee T p c s) = ss_applied s"
  "ss_emulator (tee T p c s) = ss_emulator (feed_emulator T p c s)"
  "ss_emulator_poisoned (tee T p c s) = ss_emulator_poisoned (feed_emulator T p c s)"
  "ss_pending (tee T p c s) = (if ss_history_enabled s then push_output c (ss_pending s) else ss_pending s)"
  by (simp_all add: tee_def Let_def mark_dirty_def append_ring_def feed_emulator_def
      split: option.split prod.split)

lemma tee_fold:
  "ss_ring_cap (foldl (\<lambda>s (p, c). tee T p c s) s es) = ss_ring_cap s
   \<and> ss_ring (foldl (\<lambda>s (p, c). tee T p c s) s es)
      = foldl (\<lambda>r c. append_scrollback_capped r c (ss_ring_cap s)) (ss_ring s) (map snd es)
   \<and> ss_ingest_seq (foldl (\<lambda>s (p, c). tee T p c s) s es)
      = ss_ingest_seq s + word_of_nat (length (concat (map snd es)))
   \<and> ss_alive (foldl (\<lambda>s (p, c). tee T p c s) s es) = ss_alive s"
proof (induction es arbitrary: s)
  case Nil
  then show ?case by simp
next
  case (Cons e es)
  obtain p c where "e = (p, c)" by (cases e)
  with Cons [of "tee T p c s"] show ?case by simp
qed

lemma feed_emulator_ok:
  "\<not> ss_emulator_poisoned s \<Longrightarrow> ss_emulator s = Some e \<Longrightarrow>
   \<exists>e'. ss_emulator (feed_emulator T False c s) = Some e'
      \<and> em_parser e' = em_parser (process T e c) \<and> \<not> ss_emulator_poisoned (feed_emulator T False c s)"
  by (auto simp: feed_emulator_def Let_def em_take_bells_def split: prod.split)

lemma tee_fold_parser:
  assumes "parser_stream T" and "\<not> ss_emulator_poisoned s" and "ss_emulator s = Some e"
  shows "\<exists>e'. ss_emulator (foldl (\<lambda>s c. tee T False c s) s chunks) = Some e'
      \<and> em_parser e' = px_process T (em_parser e) (concat chunks)"
  using assms(2,3)
proof (induction chunks arbitrary: s e)
  case Nil
  then show ?case using assms(1) by (simp add: parser_stream_def)
next
  case (Cons c cs)
  obtain e' where e': "ss_emulator (tee T False c s) = Some e'" "em_parser e' = px_process T (em_parser e) c"
      "\<not> ss_emulator_poisoned (tee T False c s)"
    using feed_emulator_ok [OF Cons.prems, of T c] process_parser(1) [OF assms(1), of e c] by auto
  from Cons.IH [OF e'(3,1)] show ?case
    using assms(1) by (simp add: e'(2) parser_stream_def)
qed

subsection \<open>The reported size\<close>

text \<open>What \<open>vt100\<close> documents of its size: the size is the last one set, and feeding bytes keeps it.\<close>

definition parser_sizes :: "'p vt100 \<Rightarrow> bool" where
  "parser_sizes T \<longleftrightarrow>
     (\<forall>rows cols n. px_size T (px_new T rows cols n) = (rows, cols))
     \<and> (\<forall>p rows cols. px_size T (px_set_size T rows cols p) = (rows, cols))
     \<and> (\<forall>p bs. px_size T (px_process T p bs) = px_size T p)
     \<and> (\<forall>p n. px_size T (px_set_scrollback T n p) = px_size T p)"

datatype session_event =
  Tee bool bytes
| TryResize "(unit, string) result" u16 u16
| ClearHistory
| Died
| MasterTaken
| Serialize bool

fun handle_event :: "'p vt100 \<Rightarrow> 'p session \<Rightarrow> session_event \<Rightarrow> 'p session" where
  "handle_event T s (Tee p c) = tee T p c s"
| "handle_event T s (TryResize os cols rows) = snd (session_resize T os cols rows s)"
| "handle_event T s ClearHistory = clear_history T s"
| "handle_event T s Died = s\<lparr>ss_alive := False\<rparr>"
| "handle_event T s MasterTaken = s\<lparr>ss_master := False\<rparr>"
| "handle_event T s (Serialize p) = snd (session_snapshot T p default_options s)"

text \<open>The size the child last took: the one the operating system last accepted on a live session.\<close>

fun child_size :: "bool \<Rightarrow> u16 \<times> u16 \<Rightarrow> session_event list \<Rightarrow> u16 \<times> u16" where
  "child_size up sz [] = sz"
| "child_size up sz (TryResize (Ok _) cols rows # es) =
     child_size up (if up then (cols, rows) else sz) es"
| "child_size up sz (Died # es) = child_size False sz es"
| "child_size up sz (MasterTaken # es) = child_size False sz es"
| "child_size up sz (e # es) = child_size up sz es"

definition sizes_agree :: "'p vt100 \<Rightarrow> 'p session \<Rightarrow> bool" where
  "sizes_agree T s \<longleftrightarrow>
     (\<forall>e. ss_emulator s = Some e \<longrightarrow> px_size T (em_parser e) = (snd (ss_applied s), fst (ss_applied s)))"

lemma process_size:
  assumes "parser_stream T" and "parser_sizes T"
  shows "px_size T (em_parser (process T e c)) = px_size T (em_parser e)"
  using assms(2) by (simp add: process_parser(1) [OF assms(1)] parser_sizes_def)

lemma sizes_agree_event:
  assumes "parser_stream T" and "parser_sizes T" and "sizes_agree T s"
  shows "sizes_agree T (handle_event T s ev)"
proof (cases ev)
  case (Tee p c)
  then show ?thesis
    using assms(3) process_size [OF assms(1,2)]
    by (auto simp: sizes_agree_def feed_emulator_def Let_def em_take_bells_def split: prod.splits option.splits)
next
  case (TryResize os cols rows)
  then show ?thesis
    using assms(2,3) by (auto simp: sizes_agree_def session_resize_def parser_sizes_def resize_def
        mark_dirty_def Let_def split: result.split)
next
  case ClearHistory
  then show ?thesis
    using assms(2,3) by (auto simp: sizes_agree_def clear_history_def parser_sizes_def
        clear_scrollback_def mark_dirty_def Let_def)
next
  case (Serialize p)
  then show ?thesis
    using assms(3) by (auto simp: sizes_agree_def session_snapshot_def split: option.split)
qed (use assms(3) in \<open>simp_all add: sizes_agree_def\<close>)

lemma event_applied:
  "ss_applied (handle_event T s ev)
   = child_size (ss_alive s \<and> ss_master s) (ss_applied s) [ev]
   \<and> (ss_alive (handle_event T s ev) \<and> ss_master (handle_event T s ev))
     = (ss_alive s \<and> ss_master s \<and> ev \<noteq> Died \<and> ev \<noteq> MasterTaken)"
proof (cases ev)
  case (TryResize os cols rows)
  then show ?thesis
    by (cases os) (auto simp: session_resize_def mark_dirty_def Let_def)
next
  case ClearHistory
  then show ?thesis by (simp add: clear_history_def mark_dirty_def Let_def)
next
  case (Serialize p)
  then show ?thesis by (auto simp: session_snapshot_def split: option.split)
qed simp_all

lemma child_size_Cons:
  "child_size up sz (ev # es)
   = child_size (up \<and> ev \<noteq> Died \<and> ev \<noteq> MasterTaken) (child_size up sz [ev]) es"
proof (cases ev)
  case (TryResize os cols rows)
  then show ?thesis by (cases os) simp_all
qed simp_all

lemma events_applied:
  "ss_applied (foldl (handle_event T) s es) = child_size (ss_alive s \<and> ss_master s) (ss_applied s) es"
proof (induction es arbitrary: s)
  case Nil
  then show ?case by simp
next
  case (Cons ev es)
  show ?case
    using Cons [of "handle_event T s ev"] event_applied [of T s ev]
    by (simp add: child_size_Cons [of _ _ ev es])
qed

lemma applied_size_agrees: "sizes_agree T s \<Longrightarrow> session_applied_size T s = ss_applied s"
  by (auto simp: sizes_agree_def session_applied_size_def applied_size_def split: option.split)

subsection \<open>The producer gate and its failsafe threads\<close>

text \<open>
  The gate with the failsafe threads asleep (\<open>ps_armed\<close>, the generations they were armed with).
  \<open>ps_unarmed\<close> records that spawning a failsafe thread failed, which the code ignores.
\<close>

record producer_sys =
  ps_gate :: producer_state
  ps_armed :: "u64 list"
  ps_unarmed :: bool

definition producer_start :: "producer_sys \<Rightarrow> bool" where
  "producer_start s \<longleftrightarrow> s = \<lparr>ps_gate = default_producer, ps_armed = [], ps_unarmed = False\<rparr>"

inductive producer_step :: "producer_sys \<Rightarrow> producer_sys \<Rightarrow> bool" where
  pause: "producer_step s (s\<lparr>ps_gate := pause_gate (ps_gate s),
      ps_armed := pr_generation (pause_gate (ps_gate s)) # ps_armed s\<rparr>)"
| pause_unarmed: "producer_step s (s\<lparr>ps_gate := pause_gate (ps_gate s), ps_unarmed := True\<rparr>)"
| resume: "producer_step s (s\<lparr>ps_gate := resume_gate (ps_gate s)\<rparr>)"
| fire: "g \<in> set (ps_armed s) \<Longrightarrow>
    producer_step s (s\<lparr>ps_gate := fire_failsafe g (ps_gate s), ps_armed := remove1 g (ps_armed s)\<rparr>)"

definition producer_inv :: "producer_sys \<Rightarrow> bool" where
  "producer_inv s \<longleftrightarrow>
     (pr_paused (ps_gate s) \<longrightarrow> ps_unarmed s \<or> pr_generation (ps_gate s) \<in> set (ps_armed s))"

interpretation producer: invariant_system producer_start producer_step producer_inv
proof
  fix s assume "producer_start s"
  then show "producer_inv s" by (simp add: producer_start_def producer_inv_def default_producer_def)
next
  fix s t assume "producer_inv s" and "producer_step s t"
  then show "producer_inv t"
    by (cases rule: producer_step.cases [OF \<open>producer_step s t\<close>])
      (auto simp: producer_inv_def pause_gate_def resume_gate_def fire_failsafe_def Let_def)
qed

datatype gate_call = Pause | Resume_gate | Fire u64

fun gate_op :: "producer_state \<Rightarrow> gate_call \<Rightarrow> producer_state" where
  "gate_op p Pause = pause_gate p"
| "gate_op p Resume_gate = resume_gate p"
| "gate_op p (Fire g) = fire_failsafe g p"

lemma gate_op_generation:
  "\<exists>k \<le> length ops. pr_generation (foldl gate_op p ops) = pr_generation p + word_of_nat k
     \<and> ((\<exists>op \<in> set ops. op = Pause \<or> op = Resume_gate) \<longrightarrow> 0 < k)"
proof (induction ops arbitrary: p)
  case Nil
  then show ?case by simp
next
  case (Cons op ops)
  have one: "\<exists>i \<le> 1. pr_generation (gate_op p op) = pr_generation p + word_of_nat i
      \<and> (op = Pause \<or> op = Resume_gate \<longrightarrow> 0 < i)"
  proof (cases op)
    case (Fire g)
    show ?thesis
      by (cases "pr_generation p = g \<and> pr_paused p")
        (auto simp: Fire fire_failsafe_def intro: exI [of _ "1 :: nat"] exI [of _ "0 :: nat"])
  qed (auto simp: pause_gate_def resume_gate_def Let_def intro!: exI [of _ "1 :: nat"])
  obtain i where i: "i \<le> 1" "pr_generation (gate_op p op) = pr_generation p + word_of_nat i"
      "op = Pause \<or> op = Resume_gate \<longrightarrow> 0 < i"
    using one by blast
  obtain k where k: "k \<le> length ops"
      "pr_generation (foldl gate_op (gate_op p op) ops) = pr_generation (gate_op p op) + word_of_nat k"
      "(\<exists>op \<in> set ops. op = Pause \<or> op = Resume_gate) \<longrightarrow> 0 < k"
    using Cons [of "gate_op p op"] by blast
  show ?case
    using i k by (intro exI [of _ "i + k"]) auto
qed

lemma gate_generation_moves:
  assumes "\<exists>op \<in> set ops. op = Pause \<or> op = Resume_gate" and "length ops < 2 ^ 64"
  shows "pr_generation (foldl gate_op p ops) \<noteq> pr_generation p"
proof -
  obtain k where k: "k \<le> length ops" "pr_generation (foldl gate_op p ops) = pr_generation p + word_of_nat k" "0 < k"
    using gate_op_generation [of ops p] assms(1) by blast
  have "unat (word_of_nat k :: u64) = k"
    using k(1) assms(2) by (intro of_nat_inverse [OF refl]) simp
  then have "(word_of_nat k :: u64) \<noteq> 0" using k(3) by (metis unat_0 less_irrefl)
  then show ?thesis by (simp add: k(2))
qed

subsection \<open>Properties\<close>

text \<open>
  The tee loses nothing, even when the emulator panics: whatever chunks the reader reads and
  whichever of them make \<open>vt100\<close> panic, the ring is the capped tail of all bytes read, the ingestion
  counter is their number, and the session lives on.
\<close>

theorem tee_survives_panics:
  "let s = foldl (\<lambda>s (p, c). tee T p c s) (spawn_with_ring_cap T sid cols rows cap) events;
       output = concat (map snd events); limit = max cap MIN_RING_CAP_BYTES
   in ss_ring s = \<lparr>rg_buf = last_n limit output, rg_truncated = (limit < length output)\<rparr>
      \<and> output_sequence s = word_of_nat (length output) \<and> ss_alive s"
proof -
  have "0 < max cap MIN_RING_CAP_BYTES" by (simp add: MIN_RING_CAP_BYTES_def)
  then show ?thesis
    using tee_fold [where s = "spawn_with_ring_cap T sid cols rows cap" and T = T and es = events]
    unfolding Let_def by (simp add: spawn_with_ring_cap_def output_sequence_def ring_fold del: less_max_iff_disj)
qed

text \<open>
  A snapshot and its sequence number agree: a snapshot taken between two chunks shows the
  emulator after exactly the bytes that its \<open>output_sequence\<close> counts.
\<close>

theorem snapshot_matches_sequence:
  assumes "parser_stream T"
  shows "let s = foldl (\<lambda>s c. tee T False c s) (spawn_with_ring_cap T sid cols rows cap) chunks in
     \<exists>e. ss_emulator s = Some e
       \<and> em_parser e = px_process T (px_new T rows cols DEFAULT_SCROLLBACK_LINES) (concat chunks)
       \<and> fst (session_snapshot T False opts s)
         = Some (snapshot T opts (word_of_nat (length (concat chunks))) e)"
proof -
  let ?init = "spawn_with_ring_cap T sid cols rows cap"
  let ?s = "foldl (\<lambda>s c. tee T False c s) ?init chunks"
  have start: "\<not> ss_emulator_poisoned ?init"
      "ss_emulator ?init = Some (new_emulator T rows cols DEFAULT_SCROLLBACK_LINES)"
    by (simp_all add: spawn_with_ring_cap_def)
  obtain e where e: "ss_emulator ?s = Some e"
      "em_parser e = px_process T (px_new T rows cols DEFAULT_SCROLLBACK_LINES) (concat chunks)"
    using tee_fold_parser [OF assms start, of chunks] by (auto simp: new_emulator_def)
  have "?s = foldl (\<lambda>s (p, c). tee T p c s) ?init (map (Pair False) chunks)"
    by (simp add: foldl_map)
  then have "ss_ingest_seq ?s = word_of_nat (length (concat chunks))"
    using tee_fold [where s = ?init and T = T and es = "map (Pair False) chunks"]
    by (simp add: spawn_with_ring_cap_def comp_def)
  with e show ?thesis
    unfolding Let_def by (intro exI [of _ e]) (simp add: session_snapshot_def)
qed

lemma snapshot_matches_sequence_witness:
  "\<exists>e. em_parser e = [0x41, 0x42]
     \<and> fst (session_snapshot tape_parser False default_options
          (foldl (\<lambda>s c. tee tape_parser False c s) (spawn_with_ring_cap tape_parser ''p'' 80 24 9) [[0x41], [0x42]]))
       = Some (snapshot tape_parser default_options 2 e)"
  using snapshot_matches_sequence [OF tape_parser_stream, of "''p''" 80 24 9 "[[0x41], [0x42]]" default_options]
  by (auto simp: tape_parser_def)

text \<open>
  A session never reports a size its child did not take: after any sequence of output, resize
  attempts (accepted or refused by the system), clears, snapshots, panics and teardown, the
  reported size is the one the operating system last accepted while the session was live, or the
  size it was spawned with.
\<close>

theorem reported_size_is_the_childs:
  assumes "parser_stream T" and "parser_sizes T"
  shows "session_applied_size T (foldl (handle_event T) (spawn_with_ring_cap T sid cols rows cap) events)
       = child_size True (cols, rows) events"
proof -
  let ?init = "spawn_with_ring_cap T sid cols rows cap"
  have "sizes_agree T s \<Longrightarrow> sizes_agree T (foldl (handle_event T) s events)" for s
    by (induction events arbitrary: s) (simp_all add: sizes_agree_event [OF assms])
  moreover have "sizes_agree T ?init"
    using assms(2) by (simp add: sizes_agree_def spawn_with_ring_cap_def new_emulator_def parser_sizes_def)
  ultimately have "session_applied_size T (foldl (handle_event T) ?init events)
      = ss_applied (foldl (handle_event T) ?init events)"
    by (blast intro: applied_size_agrees)
  then show ?thesis
    by (simp add: events_applied spawn_with_ring_cap_def)
qed

text \<open>A parser that keeps its size and the bytes it saw.\<close>

definition sized_parser :: "(bytes \<times> u16 \<times> u16) vt100" where
  "sized_parser =
     \<lparr>px_new = (\<lambda>r c n. ([], r, c)), px_process = (\<lambda>p bs. (fst p @ bs, snd p)),
      px_set_size = (\<lambda>r c p. (fst p, r, c)), px_set_scrollback = (\<lambda>n p. p), px_alt = (\<lambda>p. False),
      px_contents = fst, px_cursor = (\<lambda>p. (0, 0)), px_size = snd, px_bracketed_paste = (\<lambda>p. False),
      px_application_cursor = (\<lambda>p. False), px_application_keypad = (\<lambda>p. False),
      px_mouse_mode = (\<lambda>p. MouseNone), px_mouse_encoding = (\<lambda>p. MouseDefault)\<rparr>"

lemma reported_size_is_the_childs_witness:
  "session_applied_size sized_parser (foldl (handle_event sized_parser) (spawn_with_ring_cap sized_parser ''p'' 80 24 0)
     [Tee False [0x41], TryResize (Ok ()) 100 30, TryResize (Err ''EIO'') 7 7, Died, TryResize (Ok ()) 9 9])
   = (100, 30)"
proof -
  have "parser_stream sized_parser" "parser_sizes sized_parser"
    by (simp_all add: parser_stream_def parser_sizes_def sized_parser_def)
  then show ?thesis by (subst reported_size_is_the_childs) simp_all
qed

text \<open>
  A paused reader cannot be stuck by a lost resume: in every reachable state of pauses, resumes
  and failsafe firings, if the reader is parked (and no failsafe thread failed to start) a failsafe
  armed with the current generation is asleep, and when it fires the reader runs again.
\<close>

theorem paused_reader_is_rescued:
  assumes "producer_start s" and "producer_step\<^sup>*\<^sup>* s t" and "pr_paused (ps_gate t)" and "\<not> ps_unarmed t"
  shows "\<exists>g \<in> set (ps_armed t). \<exists>u. producer_step t u \<and> ps_gate u = fire_failsafe g (ps_gate t)
           \<and> \<not> pr_paused (ps_gate u)"
proof -
  have "producer_inv t" using assms(1,2) by (rule producer.inv_reachable)
  then have g: "pr_generation (ps_gate t) \<in> set (ps_armed t)" (is "?g \<in> _")
    using assms(3,4) by (simp add: producer_inv_def)
  have "producer_step t (t\<lparr>ps_gate := fire_failsafe ?g (ps_gate t), ps_armed := remove1 ?g (ps_armed t)\<rparr>)"
    using g by (rule producer_step.fire)
  with g assms(3) show ?thesis
    by (intro bexI [of _ ?g] exI) (auto simp: fire_failsafe_def)
qed

definition gate_initial :: producer_sys where
  "gate_initial = \<lparr>ps_gate = default_producer, ps_armed = [], ps_unarmed = False\<rparr>"

lemma paused_reader_is_rescued_witness:
  "\<exists>t u. producer_step gate_initial t \<and> pr_paused (ps_gate t) \<and> producer_step t u \<and> \<not> pr_paused (ps_gate u)"
proof -
  let ?t = "gate_initial\<lparr>ps_gate := pause_gate (ps_gate gate_initial),
      ps_armed := pr_generation (pause_gate (ps_gate gate_initial)) # ps_armed gate_initial\<rparr>"
  have step: "producer_step gate_initial ?t" by (rule producer_step.pause)
  then have run: "producer_step\<^sup>*\<^sup>* gate_initial ?t" ..
  have start: "producer_start gate_initial" by (simp add: producer_start_def gate_initial_def)
  have paused: "pr_paused (ps_gate ?t)" "\<not> ps_unarmed ?t"
    by (simp_all add: pause_gate_def gate_initial_def)
  show ?thesis using paused_reader_is_rescued [OF start run paused] step paused(1) by blast
qed

text \<open>
  A stale failsafe is harmless: once a pause was resumed or renewed, whatever happened since, the
  failsafe it armed finds another generation and changes nothing, for fewer than \<open>2 ^ 64\<close> operations.
\<close>

theorem stale_failsafe_is_harmless:
  assumes "\<exists>op \<in> set ops. op = Pause \<or> op = Resume_gate" and "length ops < 2 ^ 64"
  shows "fire_failsafe (pr_generation (pause_gate p)) (foldl gate_op (pause_gate p) ops)
       = foldl gate_op (pause_gate p) ops"
  using gate_generation_moves [OF assms, of "pause_gate p"] by (simp add: fire_failsafe_def)

lemma stale_failsafe_is_harmless_witness:
  "fire_failsafe 1 (foldl gate_op (pause_gate default_producer) [Resume_gate, Pause])
   = foldl gate_op (pause_gate default_producer) [Resume_gate, Pause]"
  using stale_failsafe_is_harmless [of "[Resume_gate, Pause]" default_producer]
  by (simp add: pause_gate_def default_producer_def)

text \<open>
  The exit frame is last and unique: when the reader ends, the final batch goes to the hub
  before the exit frame, both carry the delivered byte count, the session is dead and its master
  dropped, and no later call emits another exit frame.
\<close>

theorem exit_is_last_and_unique:
  assumes "\<not> ss_exit_emitted s" and "last_batch \<noteq> []"
    and "to_bytes (data_frame (ss_id s) n last_batch) = Ok d"
    and "to_bytes (exit_frame to_json (ss_id s) n \<lparr>es_code = Some (sint c), es_signal = None\<rparr>) = Ok x"
    and "n = ss_seq s + word_of_nat (length last_batch)"
  shows "\<exists>s'. reader_end to_json last_batch (Ok c) s = (s', [d, x], Some (sint c))
     \<and> \<not> ss_alive s' \<and> \<not> ss_master s' \<and> ss_seq s' = n
     \<and> (\<forall>w. emit_exit to_json w s' = (None, s', []))"
  using assms by (auto simp: reader_end_def emit_exit_def on_output_def Let_def)

lemma exit_is_last_and_unique_witness:
  "\<exists>s' d x. reader_end (\<lambda>st. []) [0x41] (Ok 3) (spawn tape_parser ''p'' 80 24) = (s', [d, x], Some 3)
     \<and> \<not> ss_alive s' \<and> \<not> ss_master s'"
proof -
  let ?s = "spawn tape_parser ''p'' 80 24"
  have "\<exists>d. to_bytes (data_frame (ss_id ?s) 1 [0x41]) = Ok d"
    "\<exists>x. to_bytes (exit_frame (\<lambda>st. []) (ss_id ?s) 1 \<lparr>es_code = Some (sint (3 :: u32)), es_signal = None\<rparr>) = Ok x"
    by (simp_all add: to_bytes_def encode_def data_frame_def exit_frame_def spawn_def
        spawn_with_ring_cap_def MAX_SESSION_ID_BYTES_def MAX_STREAM_FRAME_PAYLOAD_def)
  then obtain d x where "to_bytes (data_frame (ss_id ?s) 1 [0x41]) = Ok d"
    "to_bytes (exit_frame (\<lambda>st. []) (ss_id ?s) 1 \<lparr>es_code = Some (sint (3 :: u32)), es_signal = None\<rparr>) = Ok x"
    by blast
  with exit_is_last_and_unique [of ?s "[0x41]" 1 d "\<lambda>st. []" 3 x] show ?thesis
    by (auto simp: spawn_def spawn_with_ring_cap_def)
qed

end
