(* ===== verification/Checkpointer.thy ===== *)
theory Checkpointer
  imports Session HistoryRestore "HOL-Library.AList"
begin

text \<open>
  The checkpointer, \<open>grove-daemon/src/checkpointer.rs\<close>: the registry of sessions with their history
  writers, the dirty versions, and what one pass, the final flush and a shutdown write.

  \<open>dyn CheckpointSource\<close> is a record of functions on a source state (\<open>'s checkpoint_source\<close>);
  \<open>session_source\<close> is its implementation for a session. The two hash maps are association lists
  with distinct keys, and their iteration order is the order of the list. Between two operations
  the reader threads may change the sources; inside one operation they do not.
\<close>

subsection \<open>Checkpoint sources\<close>

record 's checkpoint_source =
  src_session_id :: "'s \<Rightarrow> string"
  src_is_alive :: "'s \<Rightarrow> bool"
  src_applied_size :: "'s \<Rightarrow> u16 \<times> u16"
  src_ring_tail :: "'s \<Rightarrow> bytes"
  src_snapshot :: "'s \<Rightarrow> daemon_snapshot option \<times> 's"
  src_take_pending :: "'s \<Rightarrow> pending_take \<times> 's"
  src_output_sequence :: "'s \<Rightarrow> u64"
  src_cwd :: "'s \<Rightarrow> string option"

text \<open>\<open>panics\<close> says whether serializing the emulator panics.\<close>

definition session_source :: "'p vt100 \<Rightarrow> bool \<Rightarrow> 'p session checkpoint_source" where
  "session_source T panics =
     \<lparr>src_session_id = ss_id, src_is_alive = ss_alive, src_applied_size = session_applied_size T,
      src_ring_tail = ring_tail, src_snapshot = session_snapshot T panics default_options,
      src_take_pending = session_take_pending, src_output_sequence = output_sequence,
      src_cwd = session_cwd\<rparr>"

definition build_checkpoint :: "'s checkpoint_source \<Rightarrow> 's \<Rightarrow> checkpoint_file \<times> 's" where
  "build_checkpoint S s =
     (let scrollback_ansi = src_ring_tail S s in
      case src_snapshot S s of
        (Some snap, s) \<Rightarrow>
          (\<lparr>cp_snapshot_ansi = sn_snapshot_ansi snap, cp_scrollback_ansi = scrollback_ansi,
            cp_rehydrate_sequences = sn_rehydrate_sequences snap,
            cp_pending_escape_tail = sn_pending_escape_tail snap,
            cp_cwd = or_else (sn_cwd snap) (src_cwd S s), cp_cols = sn_cols snap, cp_rows = sn_rows snap,
            cp_is_alternate_screen = sn_is_alternate_screen snap,
            cp_kitty_keyboard_flags = sn_kitty_keyboard_flags snap, cp_last_title = sn_title snap,
            cp_scrollback_seq = sn_output_sequence snap, cp_generation = 0, cp_checkpointed_at_ms = 0\<rparr>, s)
      | (None, s) \<Rightarrow>
          (\<lparr>cp_snapshot_ansi = [], cp_scrollback_ansi = scrollback_ansi, cp_rehydrate_sequences = [],
            cp_pending_escape_tail = [], cp_cwd = src_cwd S s,
            cp_cols = fst (src_applied_size S s), cp_rows = snd (src_applied_size S s),
            cp_is_alternate_screen = False, cp_kitty_keyboard_flags = 0, cp_last_title = None,
            cp_scrollback_seq = src_output_sequence S s, cp_generation = 0, cp_checkpointed_at_ms = 0\<rparr>, s))"

subsection \<open>The registry\<close>

definition TICK_INTERVAL :: nat where "TICK_INTERVAL = 5000"

record 's entry =
  en_source :: 's
  en_writer :: history_writer
  en_inflight :: bool

datatype persist_outcome = Persisted | Retry | Disabled

record 's checkpointer =
  ck_sessions :: "(string \<times> 's entry) list"
  ck_dirty :: "(string \<times> u64) list"

definition new_checkpointer :: "'s checkpointer" where
  "new_checkpointer = \<lparr>ck_sessions = [], ck_dirty = []\<rparr>"

definition insert_entry :: "string \<Rightarrow> 's \<Rightarrow> history_writer \<Rightarrow> 's checkpointer \<Rightarrow> 's checkpointer" where
  "insert_entry sid source writer ck =
     ck\<lparr>ck_sessions := AList.update sid \<lparr>en_source = source, en_writer = writer, en_inflight = False\<rparr>
          (ck_sessions ck)\<rparr>"

definition mark_session_dirty :: "string \<Rightarrow> 's checkpointer \<Rightarrow> 's checkpointer" where
  "mark_session_dirty sid ck =
     (if map_of (ck_sessions ck) sid = None then ck
      else ck\<lparr>ck_dirty := AList.update sid (unwrap_or 0 (map_of (ck_dirty ck) sid) + 1) (ck_dirty ck)\<rparr>)"

definition ck_open_session ::
  "codec \<Rightarrow> 's checkpoint_source \<Rightarrow> 's \<Rightarrow> session_meta \<Rightarrow> 's checkpointer \<Rightarrow> disk
   \<Rightarrow> (unit, lock_error) result \<times> 's checkpointer \<times> disk" where
  "ck_open_session J S source meta ck d =
     (let sid = src_session_id S source in
      case open_session J sid meta d of
        (Err e, d) \<Rightarrow> (Err e, ck, d)
      | (Ok writer, d) \<Rightarrow> (Ok (), mark_session_dirty sid (insert_entry sid source writer ck), d))"

definition ck_register_writer ::
  "'s checkpoint_source \<Rightarrow> 's \<Rightarrow> 's checkpointer \<Rightarrow> disk
   \<Rightarrow> (unit, lock_error) result \<times> 's checkpointer \<times> disk" where
  "ck_register_writer S source ck d =
     (let sid = src_session_id S source in
      case register_writer sid d of
        (Err e, d) \<Rightarrow> (Err e, ck, d)
      | (Ok writer, d) \<Rightarrow> (Ok (), mark_session_dirty sid (insert_entry sid source writer ck), d))"

text \<open>When \<open>reopen\<close> fails the writer is dropped, which releases its lock.\<close>

definition reopen_session ::
  "codec \<Rightarrow> 's checkpoint_source \<Rightarrow> 's \<Rightarrow> 's checkpointer \<Rightarrow> disk
   \<Rightarrow> (unit, lock_error) result \<times> 's checkpointer \<times> disk" where
  "reopen_session J S source ck d =
     (let sid = src_session_id S source in
      case register_writer sid d of
        (Err e, d) \<Rightarrow> (Err e, ck, d)
      | (Ok writer, d) \<Rightarrow>
          (case reopen J writer d of
             (Err _, writer, d) \<Rightarrow> (Err LockIo, ck, release (hw_dir writer) d)
           | (Ok _, writer, d) \<Rightarrow>
               (Ok (), mark_session_dirty sid (insert_entry sid source writer ck), d)))"

definition forget_session :: "string \<Rightarrow> 's checkpointer \<Rightarrow> 's checkpointer" where
  "forget_session sid ck =
     ck\<lparr>ck_sessions := AList.delete sid (ck_sessions ck), ck_dirty := AList.delete sid (ck_dirty ck)\<rparr>"

text \<open>\<open>close_session\<close>; \<open>now\<close> is the clock. Dropping the entry drops the writer and its lock.\<close>

definition close_session ::
  "codec \<Rightarrow> u64 \<Rightarrow> string \<Rightarrow> int option \<Rightarrow> 's checkpointer \<Rightarrow> disk \<Rightarrow> 's checkpointer \<times> disk" where
  "close_session J now sid exit_code ck d =
     (let d = (case map_of (ck_sessions ck) sid of
                 None \<Rightarrow> d
               | Some e \<Rightarrow>
                   release (hw_dir (en_writer e)) (snd (stamp_ended J now exit_code (en_writer e) d)))
      in (forget_session sid ck, remove_session_dir (percent_encode sid) d))"

definition remove_session :: "string \<Rightarrow> 's checkpointer \<Rightarrow> disk \<Rightarrow> 's checkpointer \<times> disk" where
  "remove_session sid ck d =
     (forget_session sid ck,
      case map_of (ck_sessions ck) sid of None \<Rightarrow> d | Some e \<Rightarrow> release (hw_dir (en_writer e)) d)"

definition clear_dirty_if_unchanged :: "string \<Rightarrow> u64 \<Rightarrow> 's checkpointer \<Rightarrow> 's checkpointer" where
  "clear_dirty_if_unchanged sid version ck =
     (if map_of (ck_dirty ck) sid = Some version
      then ck\<lparr>ck_dirty := AList.delete sid (ck_dirty ck)\<rparr> else ck)"

subsection \<open>Persisting one session\<close>

definition full_checkpoint ::
  "codec \<Rightarrow> 's checkpoint_source \<Rightarrow> u64 \<Rightarrow> 's entry \<Rightarrow> disk \<Rightarrow> (unit, unit) result \<times> 's entry \<times> disk" where
  "full_checkpoint J S now e d =
     (let (c, s) = build_checkpoint S (en_source e);
          (r, w, d) = checkpoint J now c (en_writer e) d
      in (r, e\<lparr>en_source := s, en_writer := w\<rparr>, d))"

definition full_checkpoint_outcome ::
  "codec \<Rightarrow> 's checkpoint_source \<Rightarrow> u64 \<Rightarrow> 's entry \<Rightarrow> disk \<Rightarrow> persist_outcome \<times> 's entry \<times> disk" where
  "full_checkpoint_outcome J S now e d =
     (case full_checkpoint J S now e d of
        (Ok _, e, d) \<Rightarrow> (Persisted, e, d)
      | (Err _, e, d) \<Rightarrow> (Disabled, e, d))"

definition on_append_failure :: "'s entry \<Rightarrow> persist_outcome \<times> 's entry" where
  "on_append_failure e = (Retry, e\<lparr>en_writer := force_full_anchor (en_writer e)\<rparr>)"

definition persist ::
  "codec \<Rightarrow> 's checkpoint_source \<Rightarrow> u64 \<Rightarrow> bool \<Rightarrow> 's entry \<Rightarrow> disk
   \<Rightarrow> persist_outcome \<times> 's entry \<times> disk" where
  "persist J S now final_flush e d =
     (if final_flush \<or> hw_needs_full_anchor (en_writer e) then full_checkpoint_outcome J S now e d
      else
        let (tk, s) = src_take_pending S (en_source e);
            e = e\<lparr>en_source := s\<rparr>
        in if pt_overflowed tk then full_checkpoint_outcome J S now e d
           else if pt_records tk = [] then (Persisted, e, d)
           else
             (case append_increments J (pt_records tk) (en_writer e) d of
                (Ok Appended, w, d) \<Rightarrow> (Persisted, e\<lparr>en_writer := w\<rparr>, d)
              | (Ok NeedsCheckpoint, w, d) \<Rightarrow> full_checkpoint_outcome J S now (e\<lparr>en_writer := w\<rparr>) d
              | (Err _, w, d) \<Rightarrow>
                  (let (out, e) = on_append_failure (e\<lparr>en_writer := w\<rparr>) in (out, e, d))))"

subsection \<open>One pass, the final flush, shutdown\<close>

definition set_entry :: "string \<Rightarrow> 's entry \<Rightarrow> 's checkpointer \<Rightarrow> 's checkpointer" where
  "set_entry sid e ck = ck\<lparr>ck_sessions := AList.update sid e (ck_sessions ck)\<rparr>"

text \<open>The body of \<open>tick\<close> for one entry of the dirty snapshot.\<close>

definition tick_session ::
  "codec \<Rightarrow> 's checkpoint_source \<Rightarrow> u64 \<Rightarrow> 's checkpointer \<times> disk \<Rightarrow> string \<times> u64
   \<Rightarrow> 's checkpointer \<times> disk" where
  "tick_session J S now st dirty =
     (let (ck, d) = st; (sid, version) = dirty in
      case map_of (ck_sessions ck) sid of
        None \<Rightarrow> (ck\<lparr>ck_dirty := AList.delete sid (ck_dirty ck)\<rparr>, d)
      | Some e \<Rightarrow>
          if en_inflight e then (ck, d)
          else
            case persist J S now False e d of
              (Persisted, e, d) \<Rightarrow> (clear_dirty_if_unchanged sid version (set_entry sid e ck), d)
            | (Retry, e, d) \<Rightarrow> (set_entry sid e ck, d)
            | (Disabled, e, d) \<Rightarrow> remove_session sid (set_entry sid e ck) d)"

definition tick :: "codec \<Rightarrow> 's checkpoint_source \<Rightarrow> u64 \<Rightarrow> 's checkpointer \<times> disk \<Rightarrow> 's checkpointer \<times> disk" where
  "tick J S now st = foldl (tick_session J S now) st (ck_dirty (fst st))"

definition flush_session ::
  "codec \<Rightarrow> 's checkpoint_source \<Rightarrow> u64 \<Rightarrow> 's checkpointer \<times> disk \<Rightarrow> string \<Rightarrow> 's checkpointer \<times> disk" where
  "flush_session J S now st sid =
     (let (ck, d) = st in
      case map_of (ck_sessions ck) sid of
        None \<Rightarrow> (ck, d)
      | Some e \<Rightarrow> (let (out, e, d) = persist J S now True e d in (set_entry sid e ck, d)))"

definition flush_all ::
  "codec \<Rightarrow> 's checkpoint_source \<Rightarrow> u64 \<Rightarrow> 's checkpointer \<times> disk \<Rightarrow> 's checkpointer \<times> disk" where
  "flush_all J S now st =
     (let (ck, d) = foldl (flush_session J S now) st (map fst (ck_sessions (fst st)))
      in (ck\<lparr>ck_dirty := []\<rparr>, d))"

definition shutdown_all ::
  "codec \<Rightarrow> 's checkpoint_source \<Rightarrow> u64 \<Rightarrow> 's checkpointer \<times> disk \<Rightarrow> 's checkpointer \<times> disk" where
  "shutdown_all J S now st =
     (let st = flush_all J S now st
      in foldl (\<lambda>(ck, d) sid. close_session J now sid None ck d) st (map fst (ck_sessions (fst st))))"

subsection \<open>What a source promises: the ring is the replay of what it hands over\<close>

text \<open>
  \<open>in_sync S cap content s\<close>: replaying the records still pending in \<open>s\<close> on top of \<open>content\<close> gives
  the ring of \<open>s\<close>, up to the ring's cap.
\<close>

definition in_sync :: "'s checkpoint_source \<Rightarrow> nat \<Rightarrow> bytes \<Rightarrow> 's \<Rightarrow> bool" where
  "in_sync S cap content s \<longleftrightarrow>
     src_ring_tail S s = last_n cap (foldl scroll content (pt_records (fst (src_take_pending S s))))"

lemma last_n_scroll: "last_n n (scroll (last_n n xs) r) = last_n n (scroll xs r)"
  using last_n_append_last_n [of n xs "[]"] by (cases r) (simp_all add: last_n_append_last_n)

text \<open>The contract between a session and the checkpointer, and what the checkpointer makes of it.\<close>

locale history_source =
  fixes S :: "'s checkpoint_source" and event :: "'s \<Rightarrow> history_record \<Rightarrow> 's"
    and good :: "'s \<Rightarrow> bool" and cap :: nat
  assumes good_event: "good s \<Longrightarrow> good (event s r)"
    and ring_event: "good s \<Longrightarrow> src_ring_tail S (event s r) = last_n cap (scroll (src_ring_tail S s) r)"
    and ring_take: "src_ring_tail S (snd (src_take_pending S s)) = src_ring_tail S s"
    and take_empties: "pt_records (fst (src_take_pending S (snd (src_take_pending S s)))) = []"
    and take_overflow: "good s \<Longrightarrow> pt_overflowed (fst (src_take_pending S s)) \<Longrightarrow>
      pt_overflowed (fst (src_take_pending S (event s r)))"
    and take_event: "good s \<Longrightarrow> \<not> pt_overflowed (fst (src_take_pending S (event s r))) \<Longrightarrow>
      foldl scroll sb (pt_records (fst (src_take_pending S (event s r))))
      = scroll (foldl scroll sb (pt_records (fst (src_take_pending S s)))) r"
begin

lemma in_sync_event:
  assumes "good s" and "in_sync S cap content s"
    and "\<not> pt_overflowed (fst (src_take_pending S (event s r)))"
  shows "in_sync S cap content (event s r)"
  using assms(2) unfolding in_sync_def
  by (simp add: ring_event [OF assms(1)] take_event [OF assms(1,3)] last_n_scroll)

lemma overflow_stays:
  "good s \<Longrightarrow> pt_overflowed (fst (src_take_pending S s)) \<Longrightarrow>
   pt_overflowed (fst (src_take_pending S (foldl event s rs)))"
  by (induction rs arbitrary: s) (simp_all add: take_overflow good_event)

lemma in_sync_events:
  "good s \<Longrightarrow> in_sync S cap content s \<Longrightarrow>
   \<not> pt_overflowed (fst (src_take_pending S (foldl event s rs))) \<Longrightarrow>
   in_sync S cap content (foldl event s rs) \<and> good (foldl event s rs)"
proof (induction rs arbitrary: s)
  case Nil
  then show ?case by simp
next
  case (Cons r rs)
  have "\<not> pt_overflowed (fst (src_take_pending S (event s r)))"
    using overflow_stays [OF good_event [OF Cons.prems(1)], of r rs] Cons.prems(3) by auto
  then have "in_sync S cap content (event s r)"
    by (rule in_sync_event [OF Cons.prems(1,2)])
  with Cons show ?case by (simp add: good_event)
qed

lemma in_sync_take:
  "in_sync S cap content s \<Longrightarrow>
   in_sync S cap (foldl scroll content (pt_records (fst (src_take_pending S s)))) (snd (src_take_pending S s))"
  by (simp add: in_sync_def ring_take take_empties)

lemma in_sync_ring: "in_sync S cap content (snd (src_take_pending S s)) \<Longrightarrow>
   src_ring_tail S (snd (src_take_pending S s)) = last_n cap content"
  by (simp add: in_sync_def take_empties)

end

text \<open>A session with history on is such a source.\<close>

fun history_event :: "'p vt100 \<Rightarrow> 'p session \<Rightarrow> history_record \<Rightarrow> 'p session" where
  "history_event T s (Output bs) = tee T False bs s"
| "history_event T s (Resize cols rows) = snd (session_resize T (Ok ()) cols rows s)"
| "history_event T s Clear = clear_history T s"

definition recording :: "nat \<Rightarrow> 'p session \<Rightarrow> bool" where
  "recording cap s \<longleftrightarrow> ss_history_enabled s \<and> ss_alive s \<and> ss_master s \<and> ss_ring_cap s = cap
     \<and> 0 < cap \<and> length (rg_buf (ss_ring s)) \<le> cap"

lemma ring_append_last_n:
  "0 < cap \<Longrightarrow> length (rg_buf r) \<le> cap \<Longrightarrow>
   rg_buf (append_scrollback_capped r c cap) = last_n cap (rg_buf r @ c)"
  by (simp add: append_scrollback_capped_def last_n_def Let_def)

lemma session_event_ring:
  "recording cap s \<Longrightarrow> rg_buf (ss_ring (history_event T s r)) = last_n cap (scroll (rg_buf (ss_ring s)) r)
     \<and> recording cap (history_event T s r)"
  by (cases r)
    (simp_all add: recording_def ring_append_last_n session_resize_def clear_history_def mark_dirty_def
      Let_def last_n_all)

lemma session_event_pending:
  "recording cap s \<Longrightarrow> ss_pending (history_event T s r)
     = push_event (ss_pending s) (case r of Output bs \<Rightarrow> PushOutput bs | _ \<Rightarrow> PushRecord r)"
  by (cases r) (simp_all add: recording_def session_resize_def clear_history_def mark_dirty_def Let_def)

lemma event_record_of: "event_record (case r of Output bs \<Rightarrow> PushOutput bs | _ \<Rightarrow> PushRecord r) = r"
  by (cases r) simp_all

lemma session_take_simps:
  "fst (src_take_pending (session_source T p) s)
   = \<lparr>pt_records = po_records (ss_pending s), pt_overflowed = po_overflowed (ss_pending s)\<rparr>"
  "snd (src_take_pending (session_source T p) s) = s\<lparr>ss_pending := no_pending\<rparr>"
  "src_ring_tail (session_source T p) s = rg_buf (ss_ring s)"
  by (simp_all add: session_source_def session_take_pending_def take_pending_output_def no_pending_def
      ring_tail_def)

interpretation recorded: history_source "session_source T p" "history_event T" "recording cap" cap
  for T p cap
proof
  fix s :: "'a session" and r sb
  assume g: "recording cap s"
  let ?e = "case r of Output bs \<Rightarrow> PushOutput bs | _ \<Rightarrow> PushRecord r"
  show "recording cap (history_event T s r)"
    using session_event_ring [OF g] by blast
  show "src_ring_tail (session_source T p) (history_event T s r)
      = last_n cap (scroll (src_ring_tail (session_source T p) s) r)"
    using session_event_ring [OF g] by (simp add: session_take_simps)
  show "pt_overflowed (fst (src_take_pending (session_source T p) (history_event T s r)))"
    if "pt_overflowed (fst (src_take_pending (session_source T p) s))"
    using that push_event_keeps [of "ss_pending s" ?e]
    by (auto simp: session_take_simps session_event_pending [OF g])
  show "foldl scroll sb (pt_records (fst (src_take_pending (session_source T p) (history_event T s r))))
      = scroll (foldl scroll sb (pt_records (fst (src_take_pending (session_source T p) s)))) r"
    if "\<not> pt_overflowed (fst (src_take_pending (session_source T p) (history_event T s r)))"
    using that push_event_keeps [of "ss_pending s" ?e sb]
    by (simp add: session_take_simps session_event_pending [OF g] event_record_of)
qed (simp_all add: session_take_simps no_pending_def)

subsection \<open>What is on disk\<close>

text \<open>The session's directory holds the checkpoint \<open>c\<close> and a log of the batches \<open>rss\<close> on top of it.\<close>

definition on_disk ::
  "codec \<Rightarrow> string \<Rightarrow> session_meta \<Rightarrow> history_writer \<Rightarrow> disk \<Rightarrow> checkpoint_file \<Rightarrow> history_record list list \<Rightarrow> bool" where
  "on_disk J sid meta w d c rss \<longleftrightarrow>
     hw_dir w = percent_encode sid
     \<and> dk_files d (hw_dir w, CHECKPOINT_JSON) = Some (jc_cp_enc J c)
     \<and> log_on_disk w d (cp_generation c) rss
     \<and> read_meta J (hw_dir w) d = Some meta \<and> sm_ended_at_ms meta = None
     \<and> sm_started_at_ms meta \<le> cp_checkpointed_at_ms c"

definition content :: "checkpoint_file \<Rightarrow> history_record list list \<Rightarrow> bytes" where
  "content c rss = foldl scroll (cp_scrollback_ansi c) (concat rss)"

lemma on_disk_detect:
  assumes "codec_ok J" and "on_disk J sid meta w d c rss" and "rss \<noteq> []"
  shows "\<exists>r. detect_cold_restore J T sid ig d = Some r \<and> cr_scrollback_for_replay r = content c rss"
proof -
  have a: "read_meta J (percent_encode sid) d = Some meta" "sm_ended_at_ms meta = None"
      "read_checkpoint J (percent_encode sid) d = Some c"
      "\<not> cp_checkpointed_at_ms c < sm_started_at_ms meta"
      "dk_files d (percent_encode sid, OUTPUT_LOG) = Some (log_image (cp_generation c) rss)" "records_ok rss"
    using assms(1,2)
    by (auto simp: on_disk_def log_on_disk_def read_checkpoint_def codec_ok_def not_less)
  obtain r where r: "restore_from_log J T (percent_encode sid) meta (Some c) False d = Some r"
      "cr_scrollback_for_replay r = content c rss"
    using restore_from_log_image [OF a(5,6) assms(3) refl, of J T meta False] by (auto simp: content_def)
  have "detect_cold_restore J T sid ig d = Some r"
    using a(1-4) r(1) by (simp add: detect_cold_restore_def Let_def)
  with r(2) show ?thesis by blast
qed

lemma on_disk_append:
  assumes "on_disk J sid meta w d c rss" and "batch_ok rs"
    and "append_increments J rs w d = (Ok Appended, w', d')"
  shows "on_disk J sid meta w' d' c (rss @ [rs])"
  using append_log_on_disk [OF _ assms(2,3), of "cp_generation c" rss] assms(1)
  by (auto simp: on_disk_def read_meta_def)

lemma on_disk_checkpoint:
  assumes "hw_dir w = percent_encode sid" and "hw_log_max_bytes w = DEFAULT_LOG_MAX_BYTES"
    and "read_meta J (hw_dir w) d = Some meta" and "sm_ended_at_ms meta = None" and "sm_started_at_ms meta \<le> now"
    and ck: "checkpoint J now c w d = (Ok (), w', d')"
  shows "on_disk J sid meta w' d' (stamped J now c w d) [] \<and> hw_needs_full_anchor w' = False"
proof -
  have "hw_needs_full_anchor w' = False"
    using ck by (cases rule: checkpoint_cases) simp_all
  then show ?thesis
    using checkpoint_log_on_disk [OF ck assms(2)] checkpoint_meta [OF ck, of "hw_dir w"] assms
    by (simp add: on_disk_def stamped_def read_meta_def)
qed

text \<open>An incremental pass, unfolded.\<close>

lemma persist_incremental:
  assumes "\<not> hw_needs_full_anchor (en_writer e)" and "src_take_pending S (en_source e) = (tk, s)"
    and "\<not> pt_overflowed tk" and "pt_records tk \<noteq> []"
    and "append_increments J (pt_records tk) (en_writer e) d = (Ok Appended, w, d')"
  shows "persist J S now False e d = (Persisted, e\<lparr>en_source := s, en_writer := w\<rparr>, d')"
  using assms by (simp add: persist_def)

lemma persist_anchor:
  assumes "hw_needs_full_anchor (en_writer e)" and "build_checkpoint S (en_source e) = (c, s)"
    and "checkpoint J now c (en_writer e) d = (Ok (), w, d')"
  shows "persist J S now False e d = (Persisted, e\<lparr>en_source := s, en_writer := w\<rparr>, d')"
  using assms by (simp add: persist_def full_checkpoint_outcome_def full_checkpoint_def)

lemma build_checkpoint_ring [simp]: "cp_scrollback_ansi (fst (build_checkpoint S s)) = src_ring_tail S s"
  by (simp add: build_checkpoint_def Let_def split: prod.split option.split)

subsection \<open>Marks, closes\<close>

lemma mark_dirty_lookup:
  "map_of (ck_sessions ck) sid \<noteq> None \<Longrightarrow>
   map_of (ck_dirty (mark_session_dirty i ck)) sid
   = (if i = sid then Some (unwrap_or 0 (map_of (ck_dirty ck) sid) + 1) else map_of (ck_dirty ck) sid)"
  by (auto simp: mark_session_dirty_def update_conv)

lemma mark_dirty_sessions [simp]: "ck_sessions (mark_session_dirty i ck) = ck_sessions ck"
  by (simp add: mark_session_dirty_def)

lemma marks_count:
  assumes "map_of (ck_sessions ck) sid \<noteq> None" and "map_of (ck_dirty ck) sid = Some v"
  shows "map_of (ck_dirty (foldl (\<lambda>ck i. mark_session_dirty i ck) ck ids)) sid
       = Some (v + word_of_nat (count_list ids sid))"
  using assms
proof (induction ids arbitrary: ck v)
  case Nil
  then show ?case by simp
next
  case (Cons i ids)
  have "map_of (ck_dirty (mark_session_dirty i ck)) sid = Some (if i = sid then v + 1 else v)"
    using Cons.prems by (simp add: mark_dirty_lookup)
  with Cons.IH [of "mark_session_dirty i ck"] Cons.prems(1) show ?case
    by (simp add: add.assoc)
qed

lemma close_sessions_empty:
  "set (map fst (ck_sessions ck)) \<subseteq> set ids \<Longrightarrow> fst (foldl (\<lambda>(ck, d) i. close_session J now i None ck d) (ck, d) ids)
   = \<lparr>ck_sessions = [], ck_dirty = fold AList.delete ids (ck_dirty ck)\<rparr>"
proof (induction ids arbitrary: ck d)
  case Nil
  then show ?case by simp
next
  case (Cons i ids)
  obtain d' where d': "close_session J now i None ck d = (forget_session i ck, d')"
    by (simp add: close_session_def Let_def)
  have "set (map fst (ck_sessions (forget_session i ck))) \<subseteq> set ids"
    using Cons.prems by (auto simp: forget_session_def AList.delete_keys)
  with Cons.IH [of "forget_session i ck" d'] show ?case
    by (simp add: d' forget_session_def)
qed

subsection \<open>Effects that leave the owner locks alone\<close>

definition guards :: "disk \<Rightarrow> disk \<Rightarrow> bool" where
  "guards d d' \<longleftrightarrow>
     dk_locks d' = dk_locks d \<and> (\<forall>dir. dk_files d' (dir, OWNER_LOCK) = dk_files d (dir, OWNER_LOCK))
     \<and> dk_budget d' \<le> dk_budget d"

lemma guards_refl [simp]: "guards d d"
  by (simp add: guards_def)

lemma guards_trans: "guards a b \<Longrightarrow> guards b c \<Longrightarrow> guards a c"
  by (auto simp: guards_def)

lemma fs_guards:
  "fs_write (dir, f) data d = (r, d') \<Longrightarrow> f \<noteq> OWNER_LOCK \<Longrightarrow> guards d d'"
  "fs_append (dir, f) data d = (r, d') \<Longrightarrow> f \<noteq> OWNER_LOCK \<Longrightarrow> guards d d'"
  "fs_rename (dir, f) (dir, g) d = (r, d') \<Longrightarrow> f \<noteq> OWNER_LOCK \<Longrightarrow> g \<noteq> OWNER_LOCK \<Longrightarrow> guards d d'"
  "fs_sync d = (r, d') \<Longrightarrow> guards d d'"
  by (auto simp: guards_def fs_write_def fs_append_def fs_rename_def fs_sync_def io_step_def set_file_def
      split: nat.splits option.splits)

lemma tmp_name [simp]: "CHECKPOINT_JSON @ ''.tmp'' \<noteq> OWNER_LOCK"
  by (simp add: CHECKPOINT_JSON_def OWNER_LOCK_def)

lemma write_durable_guards:
  assumes "write_durable (dir, CHECKPOINT_JSON) data d = (r, d')"
  shows "guards d d'"
proof -
  let ?tmp = "(dir, CHECKPOINT_JSON @ ''.tmp'')" and ?p = "(dir, CHECKPOINT_JSON)"
  obtain r1 d1 where s1: "fs_write ?tmp [] d = (r1, d1)" by fastforce
  obtain r2 d2 where s2: "fs_append ?tmp data d1 = (r2, d2)" by fastforce
  obtain r3 d3 where s3: "fs_sync d2 = (r3, d3)" by fastforce
  obtain r4 d4 where s4: "fs_rename ?tmp ?p d3 = (r4, d4)" by fastforce
  obtain r5 d5 where s5: "fs_sync d4 = (r5, d5)" by fastforce
  have g: "guards d d1" "guards d1 d2" "guards d2 d3" "guards d3 d4" "guards d4 d5"
    using fs_guards(1) [OF s1] fs_guards(2) [OF s2] fs_guards(4) [OF s3] fs_guards(3) [OF s4] fs_guards(4) [OF s5]
    by simp_all
  have "d' \<in> {d1, d2, d3, d4, d5}"
    using assms s1 s2 s3 s4 s5
    by (cases r1; cases r2; cases r3; cases r4) (simp_all add: write_durable_def io_simps Let_def)
  then show ?thesis using g by (auto simp: guards_def)
qed

lemma checkpoint_guards:
  assumes "checkpoint J now c w d = (r, w', d')"
  shows "guards d d' \<and> hw_dir w' = hw_dir w"
proof -
  obtain r1 d1 where s1: "write_durable (hw_dir w, CHECKPOINT_JSON) (jc_cp_enc J (stamped J now c w d)) d = (r1, d1)"
    by fastforce
  obtain r2 d2 where s2: "fs_write (hw_dir w, OUTPUT_LOG) (encode_log_header (next_generation J w d)) d1 = (r2, d2)"
    by fastforce
  have "guards d d1" "guards d1 d2"
    using write_durable_guards [OF s1] fs_guards(1) [OF s2] by simp_all
  then show ?thesis
    using assms s1 s2 by (cases r1; cases r2) (auto simp: checkpoint_unfold intro: guards_trans)
qed

lemma append_guards:
  assumes "append_increments J rs w d = (r, w', d')"
  shows "guards d d' \<and> hw_dir w' = hw_dir w"
proof -
  let ?w = "resolve_log_state J w d"
  define b where "b = encode_log_batch (hw_appended_output_bytes ?w + sum_output rs) rs"
  obtain r1 d1 where s1: "fs_write (hw_dir w, OUTPUT_LOG) (encode_log_header (unwrap_or 0 (hw_log_generation ?w))) d = (r1, d1)"
    by fastforce
  obtain r2 d2 where s2: "fs_append (hw_dir w, OUTPUT_LOG) b d = (r2, d2)" by fastforce
  obtain r3 d3 where s3: "fs_append (hw_dir w, OUTPUT_LOG) b d1 = (r3, d3)" by fastforce
  have g: "guards d d1" "guards d d2" "guards d1 d3"
    using fs_guards(1) [OF s1] fs_guards(2) [OF s2] fs_guards(2) [OF s3] by simp_all
  have "d' \<in> {d, d1, d2, d3} \<and> hw_dir w' = hw_dir w"
    using assms s1 s2 s3
    by (cases r1; cases r2; cases r3; cases "hw_log_bytes ?w = Some 0")
      (auto simp: append_increments_def Let_def b_def [symmetric] split: if_splits)
  then show ?thesis using g by (auto intro: guards_trans)
qed

lemma persist_guards:
  assumes "persist J S now ff e d = (out, e', d')"
  shows "guards d d' \<and> hw_dir (en_writer e') = hw_dir (en_writer e) \<and> en_inflight e' = en_inflight e"
proof -
  have full: "guards d d' \<and> hw_dir (en_writer e') = hw_dir (en_writer e) \<and> en_inflight e' = en_inflight e"
    if "full_checkpoint_outcome J S now e d = (out, e', d')" for e d out e' d'
    using that checkpoint_guards
    by (auto simp: full_checkpoint_outcome_def full_checkpoint_def Let_def
        split: prod.splits result.splits)
  show ?thesis
  proof (cases "ff \<or> hw_needs_full_anchor (en_writer e)")
    case True
    then show ?thesis using assms full by (simp add: persist_def)
  next
    case False
    obtain tk s where tk: "src_take_pending S (en_source e) = (tk, s)" by fastforce
    obtain r w d1 where ap: "append_increments J (pt_records tk) (en_writer e) d = (r, w, d1)"
      by (metis prod_cases3)
    show ?thesis
      using assms False tk ap append_guards [OF ap] full [of "e\<lparr>en_source := s\<rparr>" d]
        full [of "e\<lparr>en_source := s, en_writer := w\<rparr>" d1]
      by (auto simp: persist_def on_append_failure_def force_full_anchor_def Let_def
          split: if_splits result.splits append_outcome.splits intro: guards_trans)
  qed
qed

lemma write_meta_guards: "write_meta J dir m d = (r, d') \<Longrightarrow> guards d d'"
  unfolding write_meta_def by (drule fs_guards(1)) simp_all

lemma stamp_guards: "guards d (snd (stamp_ended J now x w d))"
  by (cases "read_meta J (hw_dir w) d")
    (auto simp: stamp_ended_def intro: write_meta_guards [OF surjective_pairing])

lemma reopen_guards: "reopen J w d = (r, w', d') \<Longrightarrow> guards d d' \<and> hw_dir w' = hw_dir w"
  by (auto simp: reopen_def dest: write_meta_guards split: option.splits prod.splits result.splits)

subsection \<open>The registry invariant\<close>

text \<open>
  Every registered session has its own directory's lock, the keys are distinct, and only
  registered sessions are dirty.
\<close>

definition registry_ok :: "'s checkpointer \<times> disk \<Rightarrow> bool" where
  "registry_ok st \<longleftrightarrow>
     distinct (map fst (ck_sessions (fst st)))
     \<and> (\<forall>sid e. map_of (ck_sessions (fst st)) sid = Some e \<longrightarrow>
          hw_dir (en_writer e) = percent_encode sid
          \<and> percent_encode sid \<in> set (dk_locks (snd st))
          \<and> dk_files (snd st) (percent_encode sid, OWNER_LOCK) \<noteq> None)
     \<and> (\<forall>sid. map_of (ck_sessions (fst st)) sid = None \<longrightarrow> map_of (ck_dirty (fst st)) sid = None)"

datatype 's ck_request =
  CkOpen 's session_meta
| CkRegister 's
| CkReopen 's
| CkMark string
| CkEvent string "'s \<Rightarrow> 's"
| CkInflight string bool
| CkTick string u64
| CkClose string "int option"
| CkRemove string
| CkFlush string

text \<open>The calls of the checkpointer, the environment's changes to a source, and the in-flight flag.\<close>

fun ck_call :: "codec \<Rightarrow> 's checkpoint_source \<Rightarrow> u64 \<Rightarrow> 's checkpointer \<times> disk \<Rightarrow> 's ck_request \<Rightarrow> 's checkpointer \<times> disk" where
  "ck_call J S now (ck, d) (CkOpen s meta) = snd (ck_open_session J S s meta ck d)"
| "ck_call J S now (ck, d) (CkRegister s) = snd (ck_register_writer S s ck d)"
| "ck_call J S now (ck, d) (CkReopen s) = snd (reopen_session J S s ck d)"
| "ck_call J S now (ck, d) (CkMark sid) = (mark_session_dirty sid ck, d)"
| "ck_call J S now (ck, d) (CkEvent sid f) =
     (case map_of (ck_sessions ck) sid of None \<Rightarrow> (ck, d)
      | Some e \<Rightarrow> (set_entry sid (e\<lparr>en_source := f (en_source e)\<rparr>) ck, d))"
| "ck_call J S now (ck, d) (CkInflight sid b) =
     (case map_of (ck_sessions ck) sid of None \<Rightarrow> (ck, d)
      | Some e \<Rightarrow> (set_entry sid (e\<lparr>en_inflight := b\<rparr>) ck, d))"
| "ck_call J S now (ck, d) (CkTick sid v) = tick_session J S now (ck, d) (sid, v)"
| "ck_call J S now (ck, d) (CkClose sid x) = close_session J now sid x ck d"
| "ck_call J S now (ck, d) (CkRemove sid) = remove_session sid ck d"
| "ck_call J S now (ck, d) (CkFlush sid) = flush_session J S now (ck, d) sid"

definition ck_step :: "codec \<Rightarrow> 's checkpoint_source \<Rightarrow> 's checkpointer \<times> disk \<Rightarrow> 's checkpointer \<times> disk \<Rightarrow> bool" where
  "ck_step J S st st' \<longleftrightarrow> (\<exists>now c. st' = ck_call J S now st c)"

definition ck_start :: "'s checkpointer \<times> disk \<Rightarrow> bool" where
  "ck_start st \<longleftrightarrow> fst st = new_checkpointer"

lemma registry_guards: "registry_ok (ck, d) \<Longrightarrow> guards d d' \<Longrightarrow> registry_ok (ck, d')"
  by (auto simp: registry_ok_def guards_def)

lemma registry_set_entry:
  "registry_ok (ck, d) \<Longrightarrow> map_of (ck_sessions ck) sid = Some e \<Longrightarrow> hw_dir (en_writer e') = hw_dir (en_writer e) \<Longrightarrow>
   registry_ok (set_entry sid e' ck, d)"
  by (auto simp: registry_ok_def set_entry_def update_conv distinct_update)

lemma registry_insert:
  assumes "registry_ok (ck, d)" and "hw_dir w = percent_encode sid"
    and "percent_encode sid \<in> set (dk_locks d)" and "dk_files d (percent_encode sid, OWNER_LOCK) \<noteq> None"
  shows "registry_ok (mark_session_dirty sid (insert_entry sid s w ck), d)"
  using assms
  by (auto simp: registry_ok_def mark_session_dirty_def insert_entry_def update_conv distinct_update
      split: if_splits)

lemma registry_mark: "registry_ok (ck, d) \<Longrightarrow> registry_ok (mark_session_dirty sid ck, d)"
  by (auto simp: registry_ok_def mark_session_dirty_def update_conv split: if_splits)

lemma registry_clear: "registry_ok (ck, d) \<Longrightarrow> registry_ok (clear_dirty_if_unchanged sid v ck, d)"
  by (auto simp: registry_ok_def clear_dirty_if_unchanged_def AList.delete_conv split: if_splits)

lemma registry_forget:
  assumes "registry_ok (ck, d)"
    and "\<And>dir. dir \<noteq> percent_encode sid \<Longrightarrow> (dir \<in> set (dk_locks d') \<longleftrightarrow> dir \<in> set (dk_locks d))
       \<and> dk_files d' (dir, OWNER_LOCK) = dk_files d (dir, OWNER_LOCK)"
  shows "registry_ok (forget_session sid ck, d')"
proof -
  have "percent_encode k \<noteq> percent_encode sid" if "k \<noteq> sid" for k
    using that percent_encode_inj by blast
  then show ?thesis
    using assms by (auto simp: registry_ok_def forget_session_def AList.delete_conv distinct_delete)
qed

text \<open>Opening keeps every lock that was held.\<close>

definition keeps_locks :: "disk \<Rightarrow> disk \<Rightarrow> bool" where
  "keeps_locks d d' \<longleftrightarrow>
     set (dk_locks d) \<subseteq> set (dk_locks d')
     \<and> (\<forall>dir. dk_files d (dir, OWNER_LOCK) \<noteq> None \<longrightarrow> dk_files d' (dir, OWNER_LOCK) \<noteq> None)"

lemma guards_keeps: "guards d d' \<Longrightarrow> keeps_locks d d'"
  by (auto simp: guards_def keeps_locks_def)

lemma keeps_trans: "keeps_locks a b \<Longrightarrow> keeps_locks b c \<Longrightarrow> keeps_locks a c"
  by (auto simp: keeps_locks_def)

lemma registry_keeps: "registry_ok (ck, d) \<Longrightarrow> keeps_locks d d' \<Longrightarrow> registry_ok (ck, d')"
  by (auto simp: registry_ok_def keeps_locks_def)

lemma fs_write_owner: "fs_write (dir, OWNER_LOCK) [] d = (r, d') \<Longrightarrow> keeps_locks d d' \<and> dk_locks d' = dk_locks d
    \<and> (is_ok r \<longrightarrow> dk_files d' (dir, OWNER_LOCK) \<noteq> None)"
  by (auto simp: keeps_locks_def fs_write_def io_step_def set_file_def split: nat.splits option.splits)

lemma acquire_locks:
  assumes "acquire dir d = (r, d')"
  shows "keeps_locks d d' \<and> (is_ok r \<longrightarrow> dir \<notin> set (dk_locks d) \<and> dk_locks d' = dir # dk_locks d
    \<and> dk_files d' (dir, OWNER_LOCK) \<noteq> None)"
proof -
  obtain r1 d1 where s1: "fs_write (dir, OWNER_LOCK) [] d = (r1, d1)" by fastforce
  note w = fs_write_owner [OF s1]
  show ?thesis
  proof (cases "dk_files d (dir, OWNER_LOCK)")
    case None
    then show ?thesis
      using assms s1 w by (cases r1) (auto simp: acquire_def keeps_locks_def split: if_splits)
  next
    case (Some x)
    then show ?thesis
      using assms by (auto simp: acquire_def keeps_locks_def split: if_splits)
  qed
qed

lemma remove_guards: "f \<noteq> OWNER_LOCK \<Longrightarrow> guards d (snd (ignore_io (fs_remove (dir, f)) d))"
  by (auto simp: guards_def ignore_io_def fs_remove_def io_step_def set_file_def split: nat.splits option.splits)

lemma open_session_locks:
  assumes "open_session J sid meta d = (r, d')"
  shows "keeps_locks d d'"
proof -
  let ?dir = "percent_encode sid"
  obtain r1 d1 where s1: "fs_sync d = (r1, d1)" by fastforce
  obtain r2 d2 where s2: "acquire ?dir d1 = (r2, d2)" by fastforce
  define d3 where "d3 = snd (ignore_io (fs_remove (?dir, CHECKPOINT_JSON)) d2)"
  define d4 where "d4 = snd (ignore_io (fs_remove (?dir, OUTPUT_LOG)) d3)"
  obtain r5 d5 where s5: "write_meta J ?dir meta d4 = (r5, d5)" by fastforce
  have os: "open_session J sid meta d =
     (case r1 of Err e \<Rightarrow> (Err LockIo, d1) | Ok u \<Rightarrow>
        (case r2 of Err e \<Rightarrow> (Err e, d2) | Ok u \<Rightarrow>
           (case r5 of Err e \<Rightarrow> (Err LockIo, release ?dir d5) | Ok u \<Rightarrow>
              (Ok \<lparr>hw_dir = ?dir, hw_log_generation = Some 0, hw_log_bytes = Some 0,
                  hw_appended_output_bytes = 0, hw_needs_full_anchor = True,
                  hw_log_max_bytes = DEFAULT_LOG_MAX_BYTES\<rparr>, d5))))"
    unfolding open_session_def Let_def s1 s2 prod.case d3_def [symmetric] d4_def [symmetric] s5
    by (simp split: result.split)
  have g1: "guards d d1" using fs_guards(4) [OF s1] .
  have k2: "keeps_locks d1 d2" using acquire_locks [OF s2] by blast
  have "guards d2 d3" "guards d3 d4" "guards d4 d5"
    using write_meta_guards [OF s5] by (simp_all add: d3_def d4_def remove_guards)
  then have g5: "guards d2 d5" by (blast intro: guards_trans)
  have "keeps_locks d1 (release ?dir d5)" if "is_ok r2"
    using acquire_locks [OF s2] that g5 by (auto simp: keeps_locks_def guards_def release_def)
  then have "keeps_locks d1 d' \<or> d' = d1"
    using assms k2 guards_keeps [OF g5] unfolding os
    by (auto split: result.splits intro: keeps_trans)
  then show ?thesis using guards_keeps [OF g1] by (auto intro: keeps_trans)
qed

lemma register_writer_locks:
  assumes "register_writer sid d = (r, d')"
  shows "keeps_locks d d' \<and> (\<forall>w. r = Ok w \<longrightarrow> hw_dir w = percent_encode sid
    \<and> percent_encode sid \<in> set (dk_locks d') \<and> percent_encode sid \<notin> set (dk_locks d)
    \<and> dk_files d' (percent_encode sid, OWNER_LOCK) \<noteq> None)"
proof -
  obtain r1 d1 where s1: "fs_sync d = (r1, d1)" by fastforce
  obtain r2 d2 where s2: "acquire (percent_encode sid) d1 = (r2, d2)" by fastforce
  have g: "guards d d1" using fs_guards(4) [OF s1] .
  have k: "keeps_locks d d2" using keeps_trans [OF guards_keeps [OF g]] acquire_locks [OF s2] by blast
  show ?thesis
    using assms s1 s2 g k guards_keeps [OF g] acquire_locks [OF s2]
    by (cases r1; cases r2) (auto simp: register_writer_def guards_def)
qed

lemma release_other: "dir \<noteq> x \<Longrightarrow> (dir \<in> set (dk_locks (release x d)) \<longleftrightarrow> dir \<in> set (dk_locks d))"
  by (simp add: release_def)

lemma registry_release_unheld:
  assumes "registry_ok (ck, d)" and "percent_encode sid \<notin> set (dk_locks d)"
    and "keeps_locks d d'"
  shows "registry_ok (ck, release (percent_encode sid) d')"
  using assms by (auto simp: registry_ok_def keeps_locks_def release_def percent_encode_inj)

lemma registry_remove:
  assumes "registry_ok (ck, d)"
  shows "registry_ok (remove_session sid ck d)"
proof -
  have "hw_dir (en_writer e) = percent_encode sid" if "map_of (ck_sessions ck) sid = Some e" for e
    using that assms by (simp add: registry_ok_def)
  then show ?thesis
    unfolding remove_session_def
    by (intro registry_forget [OF assms]) (auto simp: release_def split: option.split)
qed

lemma registry_close:
  assumes "registry_ok (ck, d)"
  shows "registry_ok (close_session J now sid x ck d)"
proof -
  have dir: "hw_dir (en_writer e) = percent_encode sid" if "map_of (ck_sessions ck) sid = Some e" for e
    using that assms by (simp add: registry_ok_def)
  define d1 where "d1 = (case map_of (ck_sessions ck) sid of None \<Rightarrow> d
      | Some e \<Rightarrow> release (hw_dir (en_writer e)) (snd (stamp_ended J now x (en_writer e) d)))"
  have d1: "(k \<in> set (dk_locks d1) \<longleftrightarrow> k \<in> set (dk_locks d))
      \<and> dk_files d1 (k, OWNER_LOCK) = dk_files d (k, OWNER_LOCK)" if "k \<noteq> percent_encode sid" for k
  proof (cases "map_of (ck_sessions ck) sid")
    case None
    then show ?thesis by (simp add: d1_def)
  next
    case (Some e)
    then show ?thesis
      using that dir [OF Some] stamp_guards [of d J now x "en_writer e"]
      by (simp add: d1_def guards_def release_def)
  qed
  show ?thesis
    unfolding close_session_def Let_def d1_def [symmetric]
    by (rule registry_forget [OF assms]) (use d1 in \<open>auto simp: remove_session_dir_def split: nat.split\<close>)
qed

lemma registry_persist:
  assumes "registry_ok (ck, d)" and "map_of (ck_sessions ck) sid = Some e"
    and "persist J S now ff e d = (out, e', d')"
  shows "registry_ok (set_entry sid e' ck, d')"
  using persist_guards [OF assms(3)] assms(1,2) by (blast intro: registry_set_entry registry_guards)

lemma registry_tick:
  assumes ok: "registry_ok (ck, d)"
  shows "registry_ok (tick_session J S now (ck, d) (sid, v))"
proof (cases "map_of (ck_sessions ck) sid")
  case None
  then show ?thesis
    using ok by (auto simp: tick_session_def registry_ok_def AList.delete_conv split: if_splits)
next
  case (Some e)
  obtain out e' d' where p: "persist J S now False e d = (out, e', d')" by (metis prod_cases3)
  note r = registry_persist [OF ok Some p]
  show ?thesis
    using Some p ok r registry_clear [OF r, of sid v] registry_remove [OF r, of sid]
    by (cases out) (auto simp: tick_session_def)
qed

lemma registry_flush:
  assumes ok: "registry_ok (ck, d)"
  shows "registry_ok (flush_session J S now (ck, d) sid)"
proof (cases "map_of (ck_sessions ck) sid")
  case None
  then show ?thesis using ok by (simp add: flush_session_def)
next
  case (Some e)
  obtain out e' d' where p: "persist J S now True e d = (out, e', d')" by (metis prod_cases3)
  show ?thesis
    using Some p registry_persist [OF ok Some p] by (simp add: flush_session_def)
qed

lemma registry_step:
  assumes ok: "registry_ok st" and step: "ck_step J S st st'"
  shows "registry_ok st'"
proof -
  obtain ck d where st: "st = (ck, d)" by (cases st)
  obtain now c where c: "st' = ck_call J S now (ck, d) c" using step st by (auto simp: ck_step_def)
  note ok = ok [unfolded st]
  show ?thesis
  proof (cases c)
    case (CkOpen s meta)
    obtain r d' where o: "open_session J (src_session_id S s) meta d = (r, d')" by fastforce
    note k = registry_keeps [OF ok open_session_locks [OF o]]
    show ?thesis
      using k o open_session_Ok [of J "src_session_id S s" meta d]
      by (cases r) (auto simp: c CkOpen ck_open_session_def Let_def intro!: registry_insert)
  next
    case (CkRegister s)
    obtain r d' where o: "register_writer (src_session_id S s) d = (r, d')" by fastforce
    note l = register_writer_locks [OF o]
    show ?thesis
      using registry_keeps [OF ok, of d'] l o
      by (cases r) (auto simp: c CkRegister ck_register_writer_def Let_def intro!: registry_insert)
  next
    case (CkReopen s)
    obtain r d' where o: "register_writer (src_session_id S s) d = (r, d')" by fastforce
    note l = register_writer_locks [OF o]
    show ?thesis
    proof (cases r)
      case (Err e)
      then show ?thesis
        using registry_keeps [OF ok, of d'] l o by (simp add: c CkReopen reopen_session_def Let_def)
    next
      case (Ok w)
      obtain r2 w2 d2 where o2: "reopen J w d' = (r2, w2, d2)" by (metis prod_cases3)
      have g: "guards d' d2" "hw_dir w2 = percent_encode (src_session_id S s)"
        using reopen_guards [OF o2] l Ok by simp_all
      have k: "keeps_locks d d2" using l g(1) by (blast intro: keeps_trans guards_keeps)
      show ?thesis
      proof (cases r2)
        case (Err e)
        then show ?thesis
          using o Ok o2 l g registry_release_unheld [OF ok _ k, of "src_session_id S s"]
          by (simp add: c CkReopen reopen_session_def Let_def)
      next
        case o3: (Ok u)
        have "registry_ok (mark_session_dirty (src_session_id S s) (insert_entry (src_session_id S s) s w2 ck), d2)"
          using registry_keeps [OF ok k] g l Ok by (intro registry_insert) (auto simp: guards_def)
        then show ?thesis
          using o Ok o2 o3 by (simp add: c CkReopen reopen_session_def Let_def)
      qed
    qed
  next
    case (CkMark sid)
    then show ?thesis using registry_mark [OF ok] by (simp add: c)
  next
    case (CkEvent sid f)
    then show ?thesis using ok by (auto simp: c intro: registry_set_entry split: option.split)
  next
    case (CkInflight sid b)
    then show ?thesis using ok by (auto simp: c intro: registry_set_entry split: option.split)
  next
    case (CkTick sid v)
    then show ?thesis by (simp add: c) (rule registry_tick [OF ok])
  next
    case (CkClose sid x)
    then show ?thesis by (simp add: c) (rule registry_close [OF ok])
  next
    case (CkRemove sid)
    then show ?thesis by (simp add: c) (rule registry_remove [OF ok])
  next
    case (CkFlush sid)
    then show ?thesis by (simp add: c) (rule registry_flush [OF ok])
  qed
qed

interpretation registry: invariant_system ck_start "ck_step J S" registry_ok for J S
proof
  fix st :: "'a checkpointer \<times> disk" assume "ck_start st"
  then show "registry_ok st" by (simp add: ck_start_def registry_ok_def new_checkpointer_def)
next
  fix st st' assume "registry_ok st" "ck_step J S st st'"
  then show "registry_ok st'" by (rule registry_step)
qed

subsection \<open>Shutdown\<close>

definition gone :: "string \<Rightarrow> disk \<Rightarrow> bool" where
  "gone dir d \<longleftrightarrow> (\<forall>f. dk_files d (dir, f) = None) \<and> dir \<notin> set (dk_locks d)"

lemma stamp_keeps_gone: "gone dir d \<Longrightarrow> gone dir (snd (stamp_ended J now x w d))"
proof (cases "read_meta J (hw_dir w) d")
  case (Some m)
  assume g: "gone dir d"
  with Some have ne: "hw_dir w \<noteq> dir" by (auto simp: gone_def read_meta_def)
  obtain r d' where wm: "write_meta J (hw_dir w) (m\<lparr>sm_ended_at_ms := Some now, sm_exit_code := x\<rparr>) d = (r, d')"
    by fastforce
  have "dk_files d' (dir, f) = dk_files d (dir, f)" for f
    using fs_write_frame [OF wm [unfolded write_meta_def], of "(dir, f)"] ne by simp
  then show ?thesis
    using g Some wm write_meta_guards [OF wm] by (simp add: gone_def stamp_ended_def guards_def)
qed (simp add: stamp_ended_def)

lemma close_effect:
  assumes "close_session J now sid x ck d = (ck', d')"
  shows "dk_budget d' \<le> dk_budget d \<and> (0 < dk_budget d' \<longrightarrow> gone (percent_encode sid) d')
    \<and> (gone dir d \<longrightarrow> gone dir d')"
proof -
  define d1 where "d1 = (case map_of (ck_sessions ck) sid of None \<Rightarrow> d
      | Some e \<Rightarrow> release (hw_dir (en_writer e)) (snd (stamp_ended J now x (en_writer e) d)))"
  have d': "d' = remove_session_dir (percent_encode sid) d1"
    using assms by (simp add: close_session_def d1_def Let_def)
  have "dk_budget d1 \<le> dk_budget d" "gone dir d \<longrightarrow> gone dir d1"
    using stamp_guards stamp_keeps_gone [of dir d]
    by (auto simp: d1_def guards_def release_def gone_def split: option.split)
  then show ?thesis
    by (auto simp: d' remove_session_dir_def gone_def split: nat.splits)
qed

lemma closes_effect:
  "foldl (\<lambda>(ck, d) i. close_session J now i None ck d) (ck, d) ids = (ck', d') \<Longrightarrow>
   dk_budget d' \<le> dk_budget d \<and> (gone dir d \<longrightarrow> gone dir d')
   \<and> (0 < dk_budget d' \<longrightarrow> (\<forall>sid \<in> set ids. gone (percent_encode sid) d'))"
proof (induction ids arbitrary: ck d dir)
  case Nil
  then show ?case by simp
next
  case (Cons i ids)
  obtain ck1 d1 where c: "close_session J now i None ck d = (ck1, d1)" by fastforce
  note e = close_effect [OF c, of dir]
  have f: "foldl (\<lambda>(ck, d) i. close_session J now i None ck d) (ck1, d1) ids = (ck', d')"
    using Cons.prems c by simp
  show ?case
    using Cons.IH [OF f, of dir] Cons.IH [OF f, of "percent_encode i"] e by auto
qed

lemma flush_session_keys: "map fst (ck_sessions (fst (flush_session J S now st sid))) = map fst (ck_sessions (fst st))"
proof (cases st)
  case (Pair ck d)
  show ?thesis
  proof (cases "map_of (ck_sessions ck) sid")
    case (Some e)
    then have "sid \<in> fst ` set (ck_sessions ck)" by (force dest: map_of_SomeD)
    with Some Pair show ?thesis
      by (auto simp: flush_session_def set_entry_def AList.update_keys split: prod.split)
  qed (simp add: Pair flush_session_def)
qed

lemma flushes_keys:
  "map fst (ck_sessions (fst (foldl (flush_session J S now) st ids))) = map fst (ck_sessions (fst st))"
  by (induction ids arbitrary: st) (simp_all add: flush_session_keys)

lemma fold_delete_Nil [simp]: "fold AList.delete ids [] = []"
  by (induction ids) simp_all

subsection \<open>Properties\<close>


text \<open>
  A full checkpoint does not drain the pending records, although they are already in the ring it
  writes: the next incremental pass logs them on top of it, and a cold restore shows them twice.
\<close>

theorem anchor_then_append_duplicates:
  assumes "codec_ok J" and "hw_dir (en_writer e) = percent_encode sid"
    and "hw_log_max_bytes (en_writer e) = DEFAULT_LOG_MAX_BYTES"
    and "read_meta J (hw_dir (en_writer e)) d = Some meta" and "sm_ended_at_ms meta = None"
    and "sm_started_at_ms meta \<le> now" and "hw_needs_full_anchor (en_writer e)"
    and "ss_pending (en_source e) = \<lparr>po_records = [Output bs], po_bytes = length bs, po_overflowed = False\<rparr>"
    and "bs \<noteq> []" and "batch_ok [Output bs]"
    and "checkpoint J now (fst (build_checkpoint (session_source T False) (en_source e))) (en_writer e) d = (Ok (), w1, d1)"
    and "append_increments J [Output bs] w1 d1 = (Ok Appended, w2, d2)"
  shows "\<exists>e1 e2 r. persist J (session_source T False) now False e d = (Persisted, e1, d1)
     \<and> persist J (session_source T False) now False e1 d1 = (Persisted, e2, d2)
     \<and> detect_cold_restore J V sid ig d2 = Some r
     \<and> ring_tail (en_source e2) = ring_tail (en_source e)
     \<and> cr_scrollback_for_replay r = ring_tail (en_source e) @ bs"
proof -
  let ?S = "session_source T False" and ?s = "en_source e"
  let ?c = "fst (build_checkpoint ?S ?s)"
  have bc: "build_checkpoint ?S ?s = (?c, ?s)"
    by (auto simp: build_checkpoint_def session_source_def session_snapshot_def Let_def split: option.splits)
  let ?e1 = "e\<lparr>en_source := ?s, en_writer := w1\<rparr>"
  have p1: "persist J ?S now False e d = (Persisted, ?e1, d1)"
    by (rule persist_anchor [OF assms(7) bc assms(11)])
  have od: "on_disk J sid meta w1 d1 (stamped J now ?c (en_writer e) d) []" and anch: "\<not> hw_needs_full_anchor w1"
    using on_disk_checkpoint [OF assms(2-6,11)] by simp_all
  let ?s2 = "?s\<lparr>ss_pending := no_pending\<rparr>"
  have p2: "persist J ?S now False ?e1 d1 = (Persisted, ?e1\<lparr>en_source := ?s2, en_writer := w2\<rparr>, d2)"
    using assms(8,12) anch
    by (intro persist_incremental [where tk = "\<lparr>pt_records = [Output bs], pt_overflowed = False\<rparr>"])
      (simp_all add: session_source_def session_take_pending_def take_pending_output_def no_pending_def)
  have "on_disk J sid meta w2 d2 (stamped J now ?c (en_writer e) d) ([] @ [[Output bs]])"
    by (rule on_disk_append [OF od assms(10,12)])
  then obtain r where r: "detect_cold_restore J V sid ig d2 = Some r"
      "cr_scrollback_for_replay r = content (stamped J now ?c (en_writer e) d) ([] @ [[Output bs]])"
    using on_disk_detect [OF assms(1)] by blast
  have "cr_scrollback_for_replay r = ring_tail ?s @ bs"
    using r(2) by (simp add: content_def stamped_def session_take_simps ring_tail_def)
  with p1 p2 r(1) show ?thesis
    by (intro exI [of _ ?e1] exI [of _ "?e1\<lparr>en_source := ?s2, en_writer := w2\<rparr>"] exI [of _ r])
      (simp add: ring_tail_def)
qed

text \<open>
  Output that arrives during a write keeps its session dirty: marks between the dirty snapshot of a
  pass and the end of its write change the version, so the pass does not clear the flag (fewer than
  \<open>2 ^ 64\<close> of them, whatever other sessions are marked in between).
\<close>

theorem marks_during_write_survive:
  assumes "map_of (ck_sessions ck) sid \<noteq> None" and "map_of (ck_dirty ck) sid = Some v"
    and "0 < count_list ids sid" and "count_list ids sid < 2 ^ 64"
  shows "map_of (ck_dirty (clear_dirty_if_unchanged sid v (foldl (\<lambda>ck i. mark_session_dirty i ck) ck ids))) sid
       = Some (v + word_of_nat (count_list ids sid))"
proof -
  have "unat (word_of_nat (count_list ids sid) :: u64) = count_list ids sid"
    using assms(4) by (intro of_nat_inverse [OF refl]) simp
  then have "(word_of_nat (count_list ids sid) :: u64) \<noteq> 0"
    using assms(3) by (metis unat_0 less_irrefl)
  then show ?thesis
    using marks_count [OF assms(1,2), of ids] by (simp add: clear_dirty_if_unchanged_def)
qed

text \<open>
  A failed append leaves no silent hole: when the disk refuses the append of drained records, the
  pass keeps the session registered and dirty, and the next pass writes a full checkpoint instead
  of appending after the gap.
\<close>

theorem failed_append_reanchors:
  assumes "map_of (ck_sessions ck) sid = Some e" and "\<not> en_inflight e"
    and "map_of (ck_dirty ck) sid = Some v"
    and "persist J S now False e d = (Retry, e', d')"
  shows "\<exists>ck'. tick_session J S now (ck, d) (sid, v) = (ck', d')
     \<and> map_of (ck_sessions ck') sid = Some e' \<and> map_of (ck_dirty ck') sid = Some v
     \<and> persist J S later False e' d' = full_checkpoint_outcome J S later e' d'"
proof -
  have "hw_needs_full_anchor (en_writer e')"
    using assms(4)
    by (auto simp: persist_def full_checkpoint_outcome_def full_checkpoint_def on_append_failure_def
        force_full_anchor_def Let_def split: if_splits prod.splits result.splits append_outcome.splits)
  then show ?thesis
    using assms by (simp add: tick_session_def set_entry_def update_conv persist_def)
qed

text \<open>
  A shutdown leaves nothing behind: the registry and the dirty set are empty, whatever failed, and
  unless the disk gave up, the directory of every session is gone and its lock released.
\<close>

theorem shutdown_leaves_nothing:
  "let (ck', d') = shutdown_all J S now (ck, d) in
     ck_sessions ck' = [] \<and> ck_dirty ck' = []
     \<and> (dk_budget d' = 0 \<or> list_all (\<lambda>sid. \<forall>f. dk_files d' (percent_encode sid, f) = None
          \<and> percent_encode sid \<notin> set (dk_locks d')) (map fst (ck_sessions ck)))"
proof -
  let ?ids = "map fst (ck_sessions ck)"
  obtain ck1 d1 where f: "foldl (flush_session J S now) (ck, d) ?ids = (ck1, d1)" by fastforce
  have keys: "map fst (ck_sessions ck1) = ?ids"
    using flushes_keys [of J S now "(ck, d)" ?ids] f by simp
  let ?ck1 = "ck1\<lparr>ck_dirty := []\<rparr>"
  obtain ck2 d2 where c: "foldl (\<lambda>(ck, d) i. close_session J now i None ck d) (?ck1, d1) ?ids = (ck2, d2)"
    by fastforce
  have "ck2 = \<lparr>ck_sessions = [], ck_dirty = []\<rparr>"
    using close_sessions_empty [of ?ck1 ?ids J now d1] c keys by simp
  moreover have "0 < dk_budget d2 \<longrightarrow> (\<forall>sid \<in> set ?ids. gone (percent_encode sid) d2)"
    using closes_effect [OF c, of "[]"] by blast
  ultimately show ?thesis
    using f c keys by (auto simp: shutdown_all_def flush_all_def gone_def list_all_iff)
qed

text \<open>
  A registered session cannot be opened a second time: in every state the checkpointer can reach
  through its calls, on a disk that fails wherever it likes, each registered session holds the lock
  of its own directory, so that opening or reattaching it again is refused.
\<close>

theorem registered_sessions_are_locked:
  assumes "ck_start st" and "(ck_step J S)\<^sup>*\<^sup>* st (ck, d)"
    and "map_of (ck_sessions ck) sid \<noteq> None" and "0 < dk_budget d"
  shows "fst (register_writer sid d) = Err OwnedElsewhere
     \<and> fst (open_session J sid meta d) = Err OwnedElsewhere \<and> distinct (map fst (ck_sessions ck))"
proof -
  have "registry_ok (ck, d)" using assms(1,2) by (rule registry.inv_reachable)
  with assms(3) have ok: "percent_encode sid \<in> set (dk_locks d)"
      "dk_files d (percent_encode sid, OWNER_LOCK) \<noteq> None" "distinct (map fst (ck_sessions ck))"
    by (auto simp: registry_ok_def)
  show ?thesis using held_refuses [OF ok(1,2) assms(4)] ok(3) by blast
qed

lemma registered_sessions_are_locked_witness:
  "\<exists>d. fst (register_writer ''s'' d) = Err OwnedElsewhere"
proof -
  let ?S = "session_source tape_parser False" and ?s = "spawn tape_parser ''s'' 80 24"
  let ?d0 = "\<lparr>dk_files = (\<lambda>p. None), dk_locks = [], dk_budget = 10, dk_torn = None\<rparr>"
  let ?st = "snd (ck_open_session sample_codec ?S ?s sample_meta new_checkpointer ?d0)"
  have st: "map_of (ck_sessions (fst ?st)) ''s'' \<noteq> None \<and> dk_budget (snd ?st) = 5"
    by (simp add: ck_open_session_def session_source_def spawn_def spawn_with_ring_cap_def open_session_def
        fs_sync_def fs_write_def fs_remove_def io_step_def acquire_def ignore_io_def set_file_def write_meta_def
        percent_encode_s insert_entry_def mark_session_dirty_def new_checkpointer_def Let_def)
  have "ck_step sample_codec ?S (new_checkpointer, ?d0) ?st"
    unfolding ck_step_def by (intro exI [of _ 0] exI [of _ "CkOpen ?s sample_meta"]) simp
  then have "(ck_step sample_codec ?S)\<^sup>*\<^sup>* (new_checkpointer, ?d0) (fst ?st, snd ?st)" by simp
  from registered_sessions_are_locked [OF _ this, of "''s''" sample_meta] st show ?thesis
    by (auto simp: ck_start_def)
qed

lemma marks_during_write_survive_witness:
  "map_of (ck_dirty (clear_dirty_if_unchanged ''a'' 3 (foldl (\<lambda>ck i. mark_session_dirty i ck)
      \<lparr>ck_sessions = [(''a'', \<lparr>en_source = (), en_writer = sample_writer, en_inflight = False\<rparr>)],
       ck_dirty = [(''a'', 3)]\<rparr> [''b'', ''a'']))) ''a'' = Some 4"
  by (subst marks_during_write_survive [where v = 3]) simp_all

subsection \<open>Instances\<close>

text \<open>A session with history on, a ring and pending records, and an entry for it.\<close>

definition sample_session :: "bytes \<Rightarrow> bytes \<Rightarrow> bytes session" where
  "sample_session shown pending = (spawn tape_parser ''s'' 80 24)
     \<lparr>ss_history_enabled := True, ss_ring := \<lparr>rg_buf = shown, rg_truncated = False\<rparr>,
      ss_pending := (if pending = [] then no_pending
         else \<lparr>po_records = [Output pending], po_bytes = length pending, po_overflowed = False\<rparr>)\<rparr>"

lemma sample_anchor_run:
  "\<exists>w1 d1 w2 d2. checkpoint sample_codec 9 c sample_writer (sample_disk 100) = (Ok (), w1, d1)
     \<and> append_increments sample_codec [Output [0x62]] w1 d1 = (Ok Appended, w2, d2)"
  by (simp add: checkpoint_def resolve_log_state_def sample_disk_def sample_writer_def
      decode_header [of _ "[]", simplified] Let_def write_durable_def io_simps fs_write_def fs_append_def
      fs_rename_def fs_sync_def io_step_def set_file_def append_increments_def
      encode_log_batch_def push_frame_def unwrap_or_def LOG_HEADER_BYTES_def DEFAULT_LOG_MAX_BYTES_def
      OUTPUT_LOG_def CHECKPOINT_JSON_def META_JSON_def)

lemma sample_batch_ok: "batch_ok [Output [0x62]]"
  by (simp add: batch_ok_def encode_log_batch_def push_frame_def)

lemma sample_writer_fields:
  "hw_dir sample_writer = percent_encode ''s''" "hw_log_max_bytes sample_writer = DEFAULT_LOG_MAX_BYTES"
  "hw_needs_full_anchor sample_writer"
  "read_meta sample_codec (hw_dir sample_writer) (sample_disk n) = Some sample_meta"
  "sm_ended_at_ms sample_meta = None" "sm_started_at_ms sample_meta \<le> 9"
  using sample_read_meta [of n]
  by (simp_all add: sample_writer_def percent_encode_s sample_meta_def new_meta_def)

lemma anchor_then_append_duplicates_witness:
  "\<exists>(e2 :: bytes session entry) d2 r. detect_cold_restore sample_codec tape_parser ''s'' False d2 = Some r
     \<and> ring_tail (en_source e2) = [0x61, 0x62] \<and> cr_scrollback_for_replay r = [0x61, 0x62, 0x62]"
proof -
  let ?s = "sample_session [0x61, 0x62] [0x62]"
  let ?e = "\<lparr>en_source = ?s, en_writer = sample_writer, en_inflight = False\<rparr>"
  obtain w1 d1 w2 d2 where run:
    "checkpoint sample_codec 9 (fst (build_checkpoint (session_source tape_parser False) ?s)) sample_writer (sample_disk 100) = (Ok (), w1, d1)"
    "append_increments sample_codec [Output [0x62]] w1 d1 = (Ok Appended, w2, d2)"
    using sample_anchor_run by blast
  have s: "ss_pending ?s = \<lparr>po_records = [Output [0x62]], po_bytes = length [0x62 :: u8], po_overflowed = False\<rparr>"
      "ring_tail ?s = [0x61, 0x62]"
    by (simp_all add: sample_session_def ring_tail_def)
  have "\<exists>e1 e2 r. persist sample_codec (session_source tape_parser False) 9 False ?e (sample_disk 100) = (Persisted, e1, d1)
     \<and> persist sample_codec (session_source tape_parser False) 9 False e1 d1 = (Persisted, e2, d2)
     \<and> detect_cold_restore sample_codec tape_parser ''s'' False d2 = Some r
     \<and> ring_tail (en_source e2) = ring_tail (en_source ?e)
     \<and> cr_scrollback_for_replay r = ring_tail (en_source ?e) @ [0x62]"
    by (rule anchor_then_append_duplicates [where meta = sample_meta, OF sample_codec_ok])
      (use sample_writer_fields run s sample_batch_ok in simp_all)
  then obtain e2 :: "bytes session entry" and r where "detect_cold_restore sample_codec tape_parser ''s'' False d2 = Some r"
      "ring_tail (en_source e2) = ring_tail ?s" "cr_scrollback_for_replay r = ring_tail ?s @ [0x62]"
    by auto
  then show ?thesis
    using s(2) by (intro exI [of _ e2] exI [of _ d2] exI [of _ r]) simp
qed


lemma failed_append_reanchors_witness:
  "\<exists>e' d' out. tick_session sample_codec (session_source tape_parser False) 9
        (\<lparr>ck_sessions = [(''s'', \<lparr>en_source = sample_session [0x62] [0x62],
            en_writer = sample_writer\<lparr>hw_needs_full_anchor := False\<rparr>, en_inflight = False\<rparr>)],
          ck_dirty = [(''s'', 1)]\<rparr>, sample_disk 0) (''s'', 1) = (out, d')
     \<and> map_of (ck_dirty out) ''s'' = Some 1
     \<and> persist sample_codec (session_source tape_parser False) 20 False e' d'
       = full_checkpoint_outcome sample_codec (session_source tape_parser False) 20 e' d'"
proof -
  let ?S = "session_source tape_parser False"
  let ?e = "\<lparr>en_source = sample_session [0x62] [0x62],
      en_writer = sample_writer\<lparr>hw_needs_full_anchor := False\<rparr>, en_inflight = False\<rparr>"
  let ?ck = "\<lparr>ck_sessions = [(''s'', ?e)], ck_dirty = [(''s'', 1)]\<rparr>"
  have "fst (persist sample_codec ?S 9 False ?e (sample_disk 0)) = Retry"
    by (simp add: persist_def session_source_def sample_session_def session_take_pending_def take_pending_output_def
        append_increments_def resolve_log_state_def sample_disk_def sample_writer_def decode_header [of _ "[]", simplified]
        Let_def fs_append_def io_step_def encode_log_batch_def push_frame_def unwrap_or_def
        LOG_HEADER_BYTES_def DEFAULT_LOG_MAX_BYTES_def OUTPUT_LOG_def META_JSON_def length_log_header
        on_append_failure_def set_file_def)
  then obtain e' d' where "persist sample_codec ?S 9 False ?e (sample_disk 0) = (Retry, e', d')"
    by (metis prod.collapse)
  from failed_append_reanchors [of ?ck "''s''" ?e 1, OF _ _ _ this, of 20] show ?thesis
    by auto
qed

end
