(* ===== verification/RustStr.thy ===== *)
theory RustStr
  imports Utf8
begin

text \<open>
  Functions of \<open>str\<close> that several modules use, on strings as the bytes of their UTF-8 encoding:
  \<open>trim\<close>, \<open>trim_end_matches\<close>, \<open>split\<close> on an ASCII character, \<open>lines\<close>, \<open>strip_prefix\<close>,
  \<open>split_whitespace\<close>, \<open>parse\<close>.
\<close>

subsection \<open>Trimming\<close>

text \<open>The UTF-8 encodings of the characters with the Unicode property White_Space.\<close>

definition white_space :: "bytes list" where
  "white_space =
     [[0x09], [0x0A], [0x0B], [0x0C], [0x0D], [0x20], [0xC2, 0x85], [0xC2, 0xA0], [0xE1, 0x9A, 0x80]]
     @ map (\<lambda>n. [0xE2, 0x80, 0x80 + word_of_nat n]) [0..<11]
     @ [[0xE2, 0x80, 0xA8], [0xE2, 0x80, 0xA9], [0xE2, 0x80, 0xAF], [0xE2, 0x81, 0x9F], [0xE3, 0x80, 0x80]]"

definition starts_with :: "'a list \<Rightarrow> 'a list \<Rightarrow> bool" where
  "starts_with p xs \<longleftrightarrow> take (length p) xs = p"

text \<open>Drop prefixes from \<open>pats\<close> as long as there is one.\<close>

function drop_any :: "'a list list \<Rightarrow> 'a list \<Rightarrow> 'a list" where
  "drop_any pats xs =
     (case find (\<lambda>p. p \<noteq> [] \<and> starts_with p xs) pats of
        None \<Rightarrow> xs
      | Some p \<Rightarrow> drop_any pats (drop (length p) xs))"
  by pat_completeness auto

termination
proof (relation "measure (\<lambda>(pats, xs). length xs)", simp)
  fix pats xs p
  assume "find (\<lambda>p. p \<noteq> [] \<and> starts_with p xs) pats = Some (p :: 'a list)"
  then have "p \<noteq> []" "starts_with p xs" by (auto simp: find_Some_iff)
  then show "((pats, drop (length p) xs), pats, xs) \<in> measure (\<lambda>(pats, xs). length xs)"
    by (cases xs) (auto simp: starts_with_def)
qed

declare drop_any.simps [simp del]

definition trim_bytes :: "bytes \<Rightarrow> bytes" where
  "trim_bytes bs = rev (drop_any (map rev white_space) (rev (drop_any white_space bs)))"

definition trim :: "string \<Rightarrow> string" where
  "trim s = chars_of (trim_bytes (bytes_of s))"

definition trim_end_bytes :: "bytes \<Rightarrow> bytes" where
  "trim_end_bytes bs = rev (drop_any (map rev white_space) (rev bs))"

definition trim_end :: "string \<Rightarrow> string" where
  "trim_end s = chars_of (trim_end_bytes (bytes_of s))"

definition trim_end_matches :: "char list \<Rightarrow> string \<Rightarrow> string" where
  "trim_end_matches cs s = rev (dropWhile (\<lambda>c. c \<in> set cs) (rev s))"

lemma drop_any_suffix: "\<exists>p. xs = p @ drop_any pats xs"
proof (induction pats xs rule: drop_any.induct)
  case (1 pats xs)
  show ?case
  proof (cases "find (\<lambda>p. p \<noteq> [] \<and> starts_with p xs) pats")
    case None
    then show ?thesis by (simp add: drop_any.simps)
  next
    case (Some p)
    from 1 [OF Some] obtain q where "drop (length p) xs = q @ drop_any pats (drop (length p) xs)" by blast
    then have "xs = (take (length p) xs @ q) @ drop_any pats xs"
      using Some by (subst drop_any.simps) (metis append.assoc append_take_drop_id option.case(2))
    then show ?thesis by blast
  qed
qed

lemma drop_any_done: "find (\<lambda>p. p \<noteq> [] \<and> starts_with p (drop_any pats xs)) pats = None"
proof (induction pats xs rule: drop_any.induct)
  case (1 pats xs)
  then show ?case
    by (cases "find (\<lambda>p. p \<noteq> [] \<and> starts_with p xs) pats") (simp_all add: drop_any.simps [of pats xs])
qed

lemma drop_any_idem: "drop_any pats (drop_any pats xs) = drop_any pats xs"
  using drop_any_done [of pats xs] by (subst drop_any.simps) simp

subsection \<open>Splitting\<close>

text \<open>\<open>str::split(c)\<close>: always at least one piece.\<close>

fun split_char :: "char \<Rightarrow> string \<Rightarrow> string list" where
  "split_char c [] = [[]]"
| "split_char c (x # xs) =
     (if x = c then [] # split_char c xs
      else case split_char c xs of p # ps \<Rightarrow> (x # p) # ps | [] \<Rightarrow> [[x]])"

text \<open>\<open>str::split_once(c)\<close>.\<close>

fun split_once :: "char \<Rightarrow> string \<Rightarrow> (string \<times> string) option" where
  "split_once c [] = None"
| "split_once c (x # xs) =
     (if x = c then Some ([], xs) else map_option (\<lambda>(a, b). (x # a, b)) (split_once c xs))"

text \<open>\<open>str::lines\<close>: split after each newline, without it and without one carriage return before it.\<close>

definition chop_cr :: "string \<Rightarrow> string" where
  "chop_cr l = (if l \<noteq> [] \<and> last l = CHR 0x0D then butlast l else l)"

definition lines :: "string \<Rightarrow> string list" where
  "lines s =
     (let ps = split_char (CHR 0x0A) s
      in map chop_cr (butlast ps) @ (if last ps = [] then [] else [last ps]))"

definition strip_prefix_str :: "string \<Rightarrow> string \<Rightarrow> string option" where
  "strip_prefix_str p s = (if starts_with p s then Some (drop (length p) s) else None)"

definition strip_suffix_str :: "string \<Rightarrow> string \<Rightarrow> string option" where
  "strip_suffix_str p s = map_option rev (if starts_with (rev p) (rev s) then Some (drop (length p) (rev s)) else None)"

lemma split_char_not_Nil [simp]: "split_char c s \<noteq> []"
  by (induction s) (auto split: list.splits)

lemma split_char_joins: "concat (map (\<lambda>p. c # p) (split_char c s)) = c # s"
proof (induction s)
  case (Cons x xs)
  then show ?case by (cases "split_char c xs") auto
qed simp

lemma split_char_pieces: "\<forall>p \<in> set (split_char c s). c \<notin> set p"
proof (induction s)
  case (Cons x xs)
  then show ?case by (cases "split_char c xs") auto
qed simp

lemma split_once_Some: "split_once c s = Some (a, b) \<longleftrightarrow> s = a @ c # b \<and> c \<notin> set a"
proof (induction s arbitrary: a)
  case (Cons x xs)
  then show ?case by (cases a) auto
qed simp


subsection \<open>Words and numbers\<close>

text \<open>
  \<open>str::split_whitespace\<close>: the pieces between runs of white space. The counter skips the rest of a
  separator of several bytes.
\<close>

fun split_ws :: "nat \<Rightarrow> bytes \<Rightarrow> bytes list" where
  "split_ws k [] = [[]]"
| "split_ws (Suc k) (b # bs) = split_ws k bs"
| "split_ws 0 (b # bs) =
     (case find (\<lambda>p. starts_with p (b # bs)) white_space of
        Some p \<Rightarrow> [] # split_ws (length p - 1) bs
      | None \<Rightarrow> (case split_ws 0 bs of p # ps \<Rightarrow> (b # p) # ps | [] \<Rightarrow> [[b]]))"

definition split_whitespace :: "string \<Rightarrow> string list" where
  "split_whitespace s = map chars_of (filter (\<lambda>p. p \<noteq> []) (split_ws 0 (bytes_of s)))"

definition digit_val :: "char \<Rightarrow> nat option" where
  "digit_val c = (let n = of_char c in if 48 \<le> n \<and> n \<le> (57 :: nat) then Some (n - 48) else None)"

fun digits_val :: "nat \<Rightarrow> string \<Rightarrow> nat option" where
  "digits_val acc [] = Some acc"
| "digits_val acc (c # cs) =
     (case digit_val c of None \<Rightarrow> None | Some d \<Rightarrow> digits_val (10 * acc + d) cs)"

text \<open>\<open>str::parse\<close> for the integers from \<open>lo\<close> to \<open>hi\<close>; a sign needs a digit after it.\<close>

definition parse_signed :: "int \<Rightarrow> int \<Rightarrow> string \<Rightarrow> int option" where
  "parse_signed lo hi s =
     (let neg = (s \<noteq> [] \<and> hd s = CHR ''-'' \<and> lo < 0);
          ds = (if neg \<or> s \<noteq> [] \<and> hd s = CHR ''+'' then tl s else s)
      in if ds = [] then None
         else case digits_val 0 ds of
                None \<Rightarrow> None
              | Some n \<Rightarrow> (let v = (if neg then - int n else int n)
                           in if lo \<le> v \<and> v \<le> hi then Some v else None))"

definition parse_i64 :: "string \<Rightarrow> int option" where
  "parse_i64 s = parse_signed (- (2 ^ 63)) (2 ^ 63 - 1) s"

definition parse_u32 :: "string \<Rightarrow> u32 option" where
  "parse_u32 s = map_option word_of_int (parse_signed 0 (2 ^ 32 - 1) s)"

definition parse_u64 :: "string \<Rightarrow> u64 option" where
  "parse_u64 s = map_option word_of_int (parse_signed 0 (2 ^ 64 - 1) s)"


subsection \<open>ASCII classes\<close>

text \<open>The bytes of a character outside ASCII are never alphanumeric.\<close>

definition is_ascii_alphanumeric :: "char \<Rightarrow> bool" where
  "is_ascii_alphanumeric c \<longleftrightarrow>
     (let n = of_char c :: nat in 48 \<le> n \<and> n \<le> 57 \<or> 65 \<le> n \<and> n \<le> 90 \<or> 97 \<le> n \<and> n \<le> 122)"

definition to_ascii_lowercase :: "char \<Rightarrow> char" where
  "to_ascii_lowercase c =
     (let n = of_char c :: nat in if 65 \<le> n \<and> n \<le> 90 then char_of (n + 32) else c)"

definition is_ascii_hexdigit :: "char \<Rightarrow> bool" where
  "is_ascii_hexdigit c \<longleftrightarrow>
     (let n = of_char c :: nat in 48 \<le> n \<and> n \<le> 57 \<or> 65 \<le> n \<and> n \<le> 70 \<or> 97 \<le> n \<and> n \<le> 102)"

definition eq_ignore_ascii_case :: "string \<Rightarrow> string \<Rightarrow> bool" where
  "eq_ignore_ascii_case s t \<longleftrightarrow> map to_ascii_lowercase s = map to_ascii_lowercase t"

subsection \<open>Searching\<close>

definition ends_with :: "'a list \<Rightarrow> 'a list \<Rightarrow> bool" where
  "ends_with p xs \<longleftrightarrow> starts_with (rev p) (rev xs)"

text \<open>\<open>str::find\<close> of a string: the first position.\<close>

fun find_str :: "string \<Rightarrow> string \<Rightarrow> nat option" where
  "find_str p [] = (if p = [] then Some 0 else None)"
| "find_str p (c # cs) = (if starts_with p (c # cs) then Some 0 else map_option Suc (find_str p cs))"

definition contains_str :: "string \<Rightarrow> string \<Rightarrow> bool" where
  "contains_str p s \<longleftrightarrow> find_str p s \<noteq> None"

text \<open>\<open>trim_end_matches\<close> of a string pattern.\<close>

definition trim_end_str :: "string \<Rightarrow> string \<Rightarrow> string" where
  "trim_end_str p s = rev (drop_any [rev p] (rev s))"

text \<open>\<open>chars().take(n)\<close>.\<close>

fun take_chars_bytes :: "nat \<Rightarrow> bytes \<Rightarrow> bytes" where
  "take_chars_bytes 0 bs = []"
| "take_chars_bytes (Suc n) bs =
     (if bs = [] then []
      else take (snd (utf8_next bs)) bs @ take_chars_bytes n (drop (snd (utf8_next bs)) bs))"

definition take_chars :: "nat \<Rightarrow> string \<Rightarrow> string" where
  "take_chars n s = chars_of (take_chars_bytes n (bytes_of s))"

lemma starts_with_iff: "starts_with p xs \<longleftrightarrow> (\<exists>r. xs = p @ r)"
  by (auto simp: starts_with_def) (metis append_take_drop_id)

lemma ends_with_iff: "ends_with p xs \<longleftrightarrow> (\<exists>r. xs = r @ p)"
  by (auto simp: ends_with_def starts_with_iff) (metis rev_append rev_rev_ident)

lemma contains_str_iff: "contains_str p s \<longleftrightarrow> (\<exists>a b. s = a @ p @ b)"
proof (induction s)
  case Nil
  then show ?case by (simp add: contains_str_def)
next
  case (Cons c cs)
  show ?case
  proof (cases "starts_with p (c # cs)")
    case True
    then show ?thesis by (force simp: contains_str_def starts_with_iff)
  next
    case False
    then have "contains_str p (c # cs) \<longleftrightarrow> contains_str p cs" by (simp add: contains_str_def)
    also have "\<dots> \<longleftrightarrow> (\<exists>a b. c # cs = a @ p @ b)"
      using False unfolding Cons.IH starts_with_iff by (metis append_Cons append_self_conv2 list.sel(3) neq_Nil_conv)
    finally show ?thesis .
  qed
qed

end
