(* ===== verification/Protocol.thy ===== *)
theory Protocol
  imports RustStr
begin

text \<open>
  The control protocol of \<open>grove-core/src/daemon/protocol.rs\<close>: endpoint paths, the hello handshake, the
  session key, the RPC envelopes and their NDJSON lines, the pid file. \<open>serde_json\<close> and SHA-256 are
  parameters; a \<open>serde_json::Value\<close> is a type variable \<open>'v\<close>.
\<close>

subsection \<open>Versioned paths\<close>

definition GROVE_DAEMON_PROTOCOL_VERSION :: u32 where "GROVE_DAEMON_PROTOCOL_VERSION = 1"
definition MAX_CONTROL_LINE_BYTES :: nat where "MAX_CONTROL_LINE_BYTES = 16 * 1024 * 1024"

text \<open>A path is its list of components; \<open>Path::join\<close> with a file name appends one.\<close>

type_synonym path_parts = "string list"

definition daemon_file :: "string \<Rightarrow> string" where
  "daemon_file ext =
     ''daemon-v'' @ chars_of (dec_digits (unat GROVE_DAEMON_PROTOCOL_VERSION)) @ ext"

datatype daemon_socket = SocketPath path_parts | Pipe string

definition daemon_socket_path :: "path_parts \<Rightarrow> daemon_socket" where
  "daemon_socket_path base = SocketPath (base @ [daemon_file ''.sock''])"

definition daemon_token_path :: "path_parts \<Rightarrow> path_parts" where
  "daemon_token_path base = base @ [daemon_file ''.token'']"

definition daemon_pid_path :: "path_parts \<Rightarrow> path_parts" where
  "daemon_pid_path base = base @ [daemon_file ''.pid'']"

definition daemon_bin_path :: "path_parts \<Rightarrow> path_parts" where
  "daemon_bin_path base =
     base @ [''daemon-bin-v'' @ chars_of (dec_digits (unat GROVE_DAEMON_PROTOCOL_VERSION))]"

definition daemon_log_path :: "path_parts \<Rightarrow> path_parts" where
  "daemon_log_path base = base @ [daemon_file ''.log'']"

definition history_root :: "path_parts \<Rightarrow> path_parts" where
  "history_root app_data =
     app_data @ [''terminal-history'', ''v'' @ chars_of (dec_digits (unat GROVE_DAEMON_PROTOCOL_VERSION))]"

fun socket_as_path :: "daemon_socket \<Rightarrow> path_parts option" where
  "socket_as_path (SocketPath p) = Some p"
| "socket_as_path (Pipe s) = None"

subsection \<open>Hello\<close>

datatype client_kind = Control | Stream | Agent

record hello =
  hl_version :: u32
  hl_token :: string
  hl_client_id :: string
  hl_kind :: client_kind

record hello_ack =
  ha_ok :: bool
  ha_error :: "string option"

definition ack_ok :: hello_ack where "ack_ok = \<lparr>ha_ok = True, ha_error = None\<rparr>"

definition ack_reject :: "string \<Rightarrow> hello_ack" where
  "ack_reject reason = \<lparr>ha_ok = False, ha_error = Some reason\<rparr>"

subsection \<open>Session keys and claim ids\<close>

definition nibble :: "nat \<Rightarrow> u8" where
  "nibble n = (if n < 10 then 0x30 + word_of_nat n else 0x57 + word_of_nat n)"

text \<open>\<open>{b:02x}\<close> for each byte.\<close>

definition hex_lower :: "bytes \<Rightarrow> string" where
  "hex_lower bs = chars_of (concat (map (\<lambda>b. [nibble (unat b div 16), nibble (unat b mod 16)]) bs))"

definition derive_session_key :: "(bytes \<Rightarrow> bytes) \<Rightarrow> string \<Rightarrow> string \<Rightarrow> string" where
  "derive_session_key sha256 daemon_token session_id =
     hex_lower (take 16 (sha256 (bytes_of (''grove-agent-v1:'' @ daemon_token @ '':'' @ session_id))))"

text \<open>The random bytes of \<open>new_claim_id\<close> are its argument.\<close>

definition new_claim_id :: "bytes \<Rightarrow> string" where
  "new_claim_id random = hex_lower random"

record agent_claim_params =
  cl_session_id :: string
  cl_tool :: string

record agent_event_params =
  ev_session_id :: string
  ev_claim_id :: string
  ev_event :: string
  ev_tool_name :: "string option"
  ev_at_ns :: u64

subsection \<open>Envelopes\<close>

record rpc_error =
  re_code :: int
  re_message :: string

record 'v rpc_request =
  rq_id :: u64
  rq_method :: string
  rq_params :: 'v

record 'v rpc_reply =
  rr_id :: u64
  rr_result :: "'v option"
  rr_error :: "rpc_error option"

definition reply_ok :: "u64 \<Rightarrow> 'v \<Rightarrow> 'v rpc_reply" where
  "reply_ok i result = \<lparr>rr_id = i, rr_result = Some result, rr_error = None\<rparr>"

definition reply_err :: "u64 \<Rightarrow> rpc_error \<Rightarrow> 'v rpc_reply" where
  "reply_err i error = \<lparr>rr_id = i, rr_result = None, rr_error = Some error\<rparr>"

record 'v notify =
  nt_method :: string
  nt_params :: 'v

datatype 'v control_message =
  HelloMsg hello
| HelloAckMsg hello_ack
| Request "'v rpc_request"
| Reply "'v rpc_reply"
| NotifyMsg "'v notify"

subsection \<open>NDJSON lines\<close>

datatype protocol_error = LineTooLong nat nat | Json

definition encode_ndjson_line :: "('m \<Rightarrow> string option) \<Rightarrow> 'm \<Rightarrow> (string, protocol_error) result" where
  "encode_ndjson_line to_json msg =
     (case to_json msg of None \<Rightarrow> Err Json | Some line \<Rightarrow> Ok (line @ [CHR 0x0A]))"

definition decode_ndjson_line :: "(string \<Rightarrow> 'm option) \<Rightarrow> string \<Rightarrow> ('m, protocol_error) result" where
  "decode_ndjson_line from_json line =
     (if MAX_CONTROL_LINE_BYTES < length line then Err (LineTooLong (length line) MAX_CONTROL_LINE_BYTES)
      else case from_json (trim_end_matches [CHR 0x0A, CHR 0x0D] line) of None \<Rightarrow> Err Json | Some m \<Rightarrow> Ok m)"

text \<open>\<open>BufReader::read_line\<close>: up to and including the next newline, or the rest.\<close>

fun read_line :: "bytes \<Rightarrow> bytes \<times> bytes" where
  "read_line [] = ([], [])"
| "read_line (b # bs) = (if b = 0x0A then ([b], bs) else (let (l, rest) = read_line bs in (b # l, rest)))"

subsection \<open>Pid file\<close>

record daemon_pid_file =
  dp_pid :: u32
  dp_started_at_ms :: "u64 option"
  dp_bin_path :: "string option"
  dp_app_version :: "string option"

definition serialize_pid_file :: "(daemon_pid_file \<Rightarrow> string) \<Rightarrow> daemon_pid_file \<Rightarrow> string" where
  "serialize_pid_file to_json p = to_json p"

definition parse_pid_file :: "(string \<Rightarrow> daemon_pid_file option) \<Rightarrow> string \<Rightarrow> daemon_pid_file option" where
  "parse_pid_file from_json contents = from_json (trim contents)"

subsection \<open>Lemmas\<close>

lemma nibble_inj: "a < 16 \<Longrightarrow> b < 16 \<Longrightarrow> nibble a = nibble b \<longleftrightarrow> a = b"
  by (auto simp: nibble_def word_unat_eq_iff unat_word_ariths unat_of_nat split: if_splits)

lemma hex_pair_inj:
  fixes x y :: u8
  assumes "nibble (unat x div 16) = nibble (unat y div 16)"
    and "nibble (unat x mod 16) = nibble (unat y mod 16)"
  shows "x = y"
proof -
  have "unat x div 16 < 16" "unat y div 16 < 16"
    using unat_u8_lt [of x] unat_u8_lt [of y] by auto
  with assms have "unat x div 16 = unat y div 16" "unat x mod 16 = unat y mod 16"
    by (simp_all add: nibble_inj)
  then have "unat x = unat y" by (metis div_mult_mod_eq)
  then show "x = y" by (simp add: word_unat_eq_iff)
qed

lemma hex_lower_Cons:
  "hex_lower (b # bs) = chars_of [nibble (unat b div 16), nibble (unat b mod 16)] @ hex_lower bs"
  by (simp add: hex_lower_def chars_of_def)

lemma chars_of_inj: "chars_of a = chars_of b \<longleftrightarrow> a = b"
  by (metis bytes_of_chars_of)

lemma length_hex_lower [simp]: "length (hex_lower bs) = 2 * length bs"
  by (induction bs) (simp_all add: hex_lower_Cons, simp add: hex_lower_def chars_of_def)

lemma hex_lower_inj: "hex_lower a = hex_lower b \<longleftrightarrow> a = b"
proof
  show "hex_lower a = hex_lower b \<Longrightarrow> a = b"
  proof (induction a arbitrary: b)
    case Nil
    then have "length (hex_lower b) = 0" by (metis length_hex_lower list.size(3) mult_0_right)
    then show ?case by simp
  next
    case (Cons x a)
    then have "length (hex_lower b) = 2 * Suc (length a)" by (metis length_Cons length_hex_lower)
    then obtain y b' where b: "b = y # b'" by (cases b) auto
    have pair: "chars_of [nibble (unat x div 16), nibble (unat x mod 16)]
        = chars_of [nibble (unat y div 16), nibble (unat y mod 16)]"
      and rest: "hex_lower a = hex_lower b'"
      using Cons.prems unfolding b hex_lower_Cons by (simp_all add: chars_of_def)
    from pair have "[nibble (unat x div 16), nibble (unat x mod 16)]
        = [nibble (unat y div 16), nibble (unat y mod 16)]"
      by (simp only: chars_of_inj)
    then have "nibble (unat x div 16) = nibble (unat y div 16)"
      and "nibble (unat x mod 16) = nibble (unat y mod 16)"
      by (simp_all only: list.inject)
    then have "x = y" by (rule hex_pair_inj)
    with Cons.IH [OF rest] b show ?case by simp
  qed
qed simp

lemma sha_prefix_key:
  assumes "take 16 (h x) = take 16 (h y) \<Longrightarrow> x = (y :: bytes)"
  shows "hex_lower (take 16 (h x)) = hex_lower (take 16 (h y)) \<longleftrightarrow> x = y"
  using assms by (auto simp: hex_lower_inj)

subsection \<open>Lines\<close>

lemma read_line_append:
  "0x0A \<notin> set l \<Longrightarrow> read_line (l @ 0x0A # rest) = (l @ [0x0A], rest)"
  by (induction l) auto

lemma read_line_splits: "read_line s = (l, rest) \<Longrightarrow> l @ rest = s"
  by (induction s arbitrary: l rest) (auto split: if_splits prod.splits)

lemma read_line_shrinks: "s \<noteq> [] \<Longrightarrow> read_line s = (l, rest) \<Longrightarrow> length rest < length s"
  by (induction s arbitrary: l rest) (auto split: if_splits prod.splits, fastforce)

text \<open>The lines a reader takes off a stream, each decoded, until the end of it.\<close>

function read_messages :: "(string \<Rightarrow> 'm option) \<Rightarrow> bytes \<Rightarrow> ('m, protocol_error) result list" where
  "read_messages from_json s =
     (if s = [] then []
      else let (l, rest) = read_line s
           in decode_ndjson_line from_json (chars_of l) # read_messages from_json rest)"
  by pat_completeness auto

termination
proof (relation "measure (\<lambda>(f, s). length s)", simp)
  fix f :: "string \<Rightarrow> 'm option" and s x l rest
  assume "s \<noteq> []" "x = read_line s" "(l, rest) = x"
  then show "((f, rest), f, s) \<in> measure (\<lambda>(f, s). length s)"
    using read_line_shrinks [of s l rest] by simp
qed

declare read_messages.simps [simp del]

lemma nl_in_bytes_of: "0x0A \<in> set (bytes_of s) \<longleftrightarrow> CHR 0x0A \<in> set s"
proof -
  have nl: "0x0A = (word_of_nat (of_char c) :: u8) \<longleftrightarrow> c = CHR 0x0A" for c
  proof
    assume "0x0A = (word_of_nat (of_char c) :: u8)"
    then have "char_of (unat (0x0A :: u8)) = char_of (unat (word_of_nat (of_char c) :: u8))" by simp
    then have "c = char_of (unat (0x0A :: u8))" by (simp only: char_roundtrip)
    also have "unat (0x0A :: u8) = of_char (CHR 0x0A)" by simp
    finally show "c = CHR 0x0A" by (simp only: char_of_char)
  qed simp
  show ?thesis
    unfolding bytes_of_def set_map image_iff Bex_def nl by blast
qed

lemma decode_encoded:
  assumes "from_json j = Some m" and "length j < MAX_CONTROL_LINE_BYTES"
    and "j \<noteq> []" and "last j \<noteq> CHR 0x0D" and "CHR 0x0A \<notin> set j"
  shows "decode_ndjson_line from_json (j @ [CHR 0x0A]) = Ok m"
proof -
  obtain i c where j: "j = i @ [c]" using assms(3) by (cases j rule: rev_cases) auto
  have "trim_end_matches [CHR 0x0A, CHR 0x0D] (j @ [CHR 0x0A]) = j"
    using assms(4,5) unfolding trim_end_matches_def j by auto
  with assms(1,2) show ?thesis by (simp add: decode_ndjson_line_def)
qed

lemma read_messages_encoded:
  assumes "\<forall>m \<in> set ms. \<exists>j. to_json m = Some j \<and> from_json j = Some m \<and> j \<noteq> [] \<and> last j \<noteq> CHR 0x0D
      \<and> CHR 0x0A \<notin> set j \<and> length j < MAX_CONTROL_LINE_BYTES"
  shows "read_messages from_json (concat (map (\<lambda>m. case encode_ndjson_line to_json m of
            Ok l \<Rightarrow> bytes_of l | Err e \<Rightarrow> []) ms)) = map Ok ms"
  using assms
proof (induction ms)
  case Nil
  then show ?case by (simp add: read_messages.simps)
next
  case (Cons m ms)
  then obtain j where j: "to_json m = Some j" "from_json j = Some m" "j \<noteq> []" "last j \<noteq> CHR 0x0D"
    "CHR 0x0A \<notin> set j" "length j < MAX_CONTROL_LINE_BYTES" by auto
  let ?rest = "concat (map (\<lambda>m. case encode_ndjson_line to_json m of
            Ok l \<Rightarrow> bytes_of l | Err e \<Rightarrow> []) ms)"
  have nl: "bytes_of [CHR 0x0A] = [0x0A]" by (simp add: bytes_of_def)
  have one: "read_line (bytes_of j @ 0x0A # ?rest) = (bytes_of j @ [0x0A], ?rest)"
    using j(5) by (intro read_line_append) (simp add: nl_in_bytes_of)
  have "chars_of (bytes_of j @ [0x0A]) = j @ [CHR 0x0A]"
    by (metis nl bytes_of_append chars_of_bytes_of)
  with j have msg: "decode_ndjson_line from_json (chars_of (bytes_of j @ [0x0A])) = Ok m"
    by (simp only: decode_encoded simp_thms not_False_eq_True)
  have "concat (map (\<lambda>m. case encode_ndjson_line to_json m of
            Ok l \<Rightarrow> bytes_of l | Err e \<Rightarrow> []) (m # ms)) = bytes_of j @ 0x0A # ?rest"
    using j(1) nl by (simp add: encode_ndjson_line_def)
  then show ?case
    using one msg Cons by (subst read_messages.simps) simp
qed

subsection \<open>Properties\<close>

text \<open>
  Control messages written as NDJSON lines, back to back on the socket, are read back as the same
  messages in the same order. The hypotheses on \<open>to_json\<close> and \<open>from_json\<close> are what \<open>serde_json\<close> documents
  (parsing inverts printing; compact output has no raw newline and ends with its closing brace),
  and the line is shorter than the cap.
\<close>

theorem control_stream_roundtrip:
  assumes "\<forall>m \<in> set ms. \<exists>j. to_json m = Some j \<and> from_json j = Some m \<and> j \<noteq> [] \<and> last j \<noteq> CHR 0x0D
      \<and> CHR 0x0A \<notin> set j \<and> length j < MAX_CONTROL_LINE_BYTES"
  shows "read_messages from_json (concat (map (\<lambda>m. case encode_ndjson_line to_json m of
            Ok l \<Rightarrow> bytes_of l | Err e \<Rightarrow> []) ms)) = map Ok ms"
  using assms by (rule read_messages_encoded)

theorem control_stream_roundtrip_witness:
  "read_messages (\<lambda>s. if s = ''{}'' then Some True else if s = ''[]'' then Some False else None)
     (concat (map (\<lambda>m. case encode_ndjson_line (\<lambda>b. Some (if b then ''{}'' else ''[]'')) m of
            Ok l \<Rightarrow> bytes_of l | Err e \<Rightarrow> []) [True, False, True])) = map Ok [True, False, True]"
  by (rule control_stream_roundtrip) (simp add: MAX_CONTROL_LINE_BYTES_def)

text \<open>
  The key of a pane authorizes that pane only: under one daemon token two sessions have the same
  key exactly when they are the same session, given that SHA-256 truncated to sixteen bytes does not
  collide on the two inputs.
\<close>

theorem session_keys_are_per_session:
  assumes "\<And>x y. {x, y} = {bytes_of (''grove-agent-v1:'' @ token @ '':'' @ s),
        bytes_of (''grove-agent-v1:'' @ token @ '':'' @ t)} \<Longrightarrow>
      take 16 (sha256 x) = take 16 (sha256 y) \<Longrightarrow> x = y"
  shows "derive_session_key sha256 token s = derive_session_key sha256 token t \<longleftrightarrow> s = t"
proof -
  let ?in = "\<lambda>s. bytes_of (''grove-agent-v1:'' @ token @ '':'' @ s)"
  have "derive_session_key sha256 token s = derive_session_key sha256 token t \<longleftrightarrow> ?in s = ?in t"
    unfolding derive_session_key_def by (rule sha_prefix_key) (rule assms, rule refl)
  also have "\<dots> \<longleftrightarrow> s = t" by (simp add: bytes_of_inj)
  finally show ?thesis .
qed

theorem session_keys_are_per_session_witness:
  "derive_session_key (rev :: bytes \<Rightarrow> bytes) ''t'' ''a'' \<noteq> derive_session_key rev ''t'' ''b''"
proof -
  have "derive_session_key (rev :: bytes \<Rightarrow> bytes) ''t'' ''a'' = derive_session_key rev ''t'' ''b'' \<longleftrightarrow> ''a'' = ''b''"
    by (rule session_keys_are_per_session) (auto simp: doubleton_eq_iff bytes_of_def)
  then show ?thesis by simp
qed

end
