(* ===== verification/Server.thy ===== *)
theory Server
  imports Protocol Checkpointer
begin

text \<open>
  The daemon, \<open>grove-daemon/src/server.rs\<close>: the hello admission, the session map with its
  reservations, the control RPCs and notifies, the agent RPCs, and the stream hub.

  An \<open>Arc<Session>\<close> is an address; \<open>dm_heap\<close> maps an address to the session behind it, so that two
  holders of one \<open>Arc\<close> see the same session and \<open>Arc::ptr_eq\<close> is equality of addresses. The
  checkpointer's entries hold addresses too. What lies outside the crate is a field of \<open>env\<close>: the
  \<open>vt100\<close> parser, \<open>serde_json\<close>, base64, SHA-256, the kernel's process facts, the clock, the random
  source, and the outcomes of the operating system's calls.
\<close>

subsection \<open>The stream hub\<close>

text \<open>A subscriber is named by a number; \<open>hb_sent\<close> lists what was pushed to which subscriber's queue.\<close>

record hub =
  hb_tx :: "nat option"
  hb_generation :: u64
  hb_sent :: "(nat \<times> bytes) list"

definition new_hub :: hub where
  "new_hub = \<lparr>hb_tx = None, hb_generation = 0, hb_sent = []\<rparr>"

definition hub_emit :: "bytes \<Rightarrow> hub \<Rightarrow> hub" where
  "hub_emit bs h = (case hb_tx h of None \<Rightarrow> h | Some c \<Rightarrow> h\<lparr>hb_sent := hb_sent h @ [(c, bs)]\<rparr>)"

definition hub_set :: "nat \<Rightarrow> hub \<Rightarrow> u64 \<times> hub" where
  "hub_set c h =
     (let h = h\<lparr>hb_generation := hb_generation h + 1, hb_tx := Some c\<rparr> in (hb_generation h, h))"

definition hub_clear :: "u64 \<Rightarrow> hub \<Rightarrow> bool \<times> hub" where
  "hub_clear generation h =
     (if hb_generation h = generation then (True, h\<lparr>hb_tx := None\<rparr>) else (False, h))"

subsection \<open>State\<close>

datatype session_slot = Pending | Live nat

record 'p daemon =
  dm_version :: u32
  dm_token :: string
  dm_sessions :: "(string \<times> session_slot) list"
  dm_heap :: "nat \<Rightarrow> 'p session"
  dm_next :: nat
  dm_hub :: hub
  dm_shutdown_flag :: bool
  dm_control_hellos :: u64
  dm_connected_controls :: u64
  dm_checkpointer :: "nat checkpointer"
  dm_disk :: disk

text \<open>The accessors of a \<open>serde_json::Value\<close> and the parsers of a line that the server calls.\<close>

record 'v json =
  js_str :: "'v \<Rightarrow> string \<Rightarrow> string option"
  js_u64 :: "'v \<Rightarrow> string \<Rightarrow> u64 option"
  js_bool :: "'v \<Rightarrow> string \<Rightarrow> bool option"
  js_agent_claim :: "'v \<Rightarrow> (agent_claim_params, string) result"
  js_agent_event :: "'v \<Rightarrow> (agent_event_params, string) result"
  js_hello :: "string \<Rightarrow> hello option"
  js_message :: "string \<Rightarrow> 'v control_message option"

text \<open>
  \<open>wd_spawn\<close> is what \<open>openpty\<close> and the spawn of the child return, \<open>wd_resize\<close> what the resize of the
  pty returns, \<open>wd_child_pid\<close> the pid of the child of a session, \<open>wd_panics\<close> whether serializing the
  emulator panics.
\<close>

record ('p, 'v) env =
  wd_vt :: "'p vt100"
  wd_codec :: codec
  wd_json :: "'v json"
  wd_base64 :: "string \<Rightarrow> bytes option"
  wd_sha256 :: "bytes \<Rightarrow> bytes"
  wd_kernel :: kernel
  wd_child_pid :: "nat \<Rightarrow> u32 option"
  wd_now :: u64
  wd_random :: bytes
  wd_spawn :: "(unit, string) result"
  wd_resize :: "(unit, string) result"
  wd_panics :: bool
  wd_health :: bool

definition new_daemon :: "string \<Rightarrow> disk \<Rightarrow> 'p session \<Rightarrow> 'p daemon" where
  "new_daemon token d blank =
     \<lparr>dm_version = GROVE_DAEMON_PROTOCOL_VERSION, dm_token = token, dm_sessions = [],
      dm_heap = (\<lambda>_. blank), dm_next = 0, dm_hub = new_hub, dm_shutdown_flag = False,
      dm_control_hellos = 0, dm_connected_controls = 0, dm_checkpointer = new_checkpointer,
      dm_disk = d\<rparr>"

definition get :: "string \<Rightarrow> 'p daemon \<Rightarrow> nat option" where
  "get sid dm = (case map_of (dm_sessions dm) sid of Some (Live a) \<Rightarrow> Some a | _ \<Rightarrow> None)"

definition set_slot :: "string \<Rightarrow> session_slot \<Rightarrow> 'p daemon \<Rightarrow> 'p daemon" where
  "set_slot sid slot dm = dm\<lparr>dm_sessions := AList.update sid slot (dm_sessions dm)\<rparr>"

definition remove_slot :: "string \<Rightarrow> 'p daemon \<Rightarrow> 'p daemon" where
  "remove_slot sid dm = dm\<lparr>dm_sessions := AList.delete sid (dm_sessions dm)\<rparr>"

definition live_sessions :: "'p daemon \<Rightarrow> nat list" where
  "live_sessions dm =
     concat (map (\<lambda>(sid, slot). case slot of Live a \<Rightarrow> [a] | Pending \<Rightarrow> []) (dm_sessions dm))"

subsection \<open>The checkpointer seen through the heap\<close>

text \<open>
  An operation of the checkpointer sees each entry with the session behind its address, and what it
  does to the sessions is written back.
\<close>

definition addr_source :: "'p vt100 \<Rightarrow> bool \<Rightarrow> (nat \<times> 'p session) checkpoint_source" where
  "addr_source T panics =
     (let S = session_source T panics in
      \<lparr>src_session_id = (\<lambda>(a, s). src_session_id S s), src_is_alive = (\<lambda>(a, s). src_is_alive S s),
       src_applied_size = (\<lambda>(a, s). src_applied_size S s), src_ring_tail = (\<lambda>(a, s). src_ring_tail S s),
       src_snapshot = (\<lambda>(a, s). let (r, s) = src_snapshot S s in (r, (a, s))),
       src_take_pending = (\<lambda>(a, s). let (r, s) = src_take_pending S s in (r, (a, s))),
       src_output_sequence = (\<lambda>(a, s). src_output_sequence S s), src_cwd = (\<lambda>(a, s). src_cwd S s)\<rparr>)"

definition map_entry :: "('s \<Rightarrow> 't) \<Rightarrow> 's entry \<Rightarrow> 't entry" where
  "map_entry f e = \<lparr>en_source = f (en_source e), en_writer = en_writer e, en_inflight = en_inflight e\<rparr>"

definition load :: "(nat \<Rightarrow> 'p session) \<Rightarrow> nat checkpointer \<Rightarrow> (nat \<times> 'p session) checkpointer" where
  "load h ck = \<lparr>ck_sessions = map (map_prod (\<lambda>i. i) (map_entry (\<lambda>a. (a, h a)))) (ck_sessions ck),
                ck_dirty = ck_dirty ck\<rparr>"

definition unload :: "(nat \<times> 'p session) checkpointer \<Rightarrow> nat checkpointer" where
  "unload ck = \<lparr>ck_sessions = map (map_prod (\<lambda>i. i) (map_entry fst)) (ck_sessions ck), ck_dirty = ck_dirty ck\<rparr>"

definition store :: "(nat \<times> 'p session) checkpointer \<Rightarrow> (nat \<Rightarrow> 'p session) \<Rightarrow> nat \<Rightarrow> 'p session" where
  "store ck h = foldl (\<lambda>h (i, e). h(fst (en_source e) := snd (en_source e))) h (ck_sessions ck)"

definition with_checkpointer ::
  "((nat \<times> 'p session) checkpointer \<times> disk \<Rightarrow> (nat \<times> 'p session) checkpointer \<times> disk)
   \<Rightarrow> 'p daemon \<Rightarrow> 'p daemon" where
  "with_checkpointer f dm =
     (let (ck, d) = f (load (dm_heap dm) (dm_checkpointer dm), dm_disk dm)
      in dm\<lparr>dm_checkpointer := unload ck, dm_heap := store ck (dm_heap dm), dm_disk := d\<rparr>)"

text \<open>
  An operation on one session, through its \<open>Arc\<close>: the dirty marks it made with the reaper reach the
  checkpointer.
\<close>

definition on_session :: "nat \<Rightarrow> ('p session \<Rightarrow> 'p session) \<Rightarrow> 'p daemon \<Rightarrow> 'p daemon" where
  "on_session a f dm =
     (let s = dm_heap dm a; s' = f s
      in dm\<lparr>dm_heap := (dm_heap dm)(a := s'),
            dm_checkpointer :=
              (mark_session_dirty (ss_id s) ^^ (ss_marks s' - ss_marks s)) (dm_checkpointer dm)\<rparr>)"

subsection \<open>Errors and parameters\<close>

definition session_not_found :: rpc_error where
  "session_not_found = \<lparr>re_code = -32004, re_message = ''SessionNotFound''\<rparr>"

definition unauthorized :: "string \<Rightarrow> rpc_error" where
  "unauthorized message = \<lparr>re_code = -32001, re_message = message\<rparr>"

definition internal :: "string \<Rightarrow> rpc_error" where
  "internal message = \<lparr>re_code = -32000, re_message = message\<rparr>"

definition unknown_method :: "string \<Rightarrow> rpc_error" where
  "unknown_method other = \<lparr>re_code = -32601, re_message = ''unknown method: '' @ other\<rparr>"

definition str_param :: "'v json \<Rightarrow> 'v \<Rightarrow> string \<Rightarrow> (string, rpc_error) result" where
  "str_param Q params key =
     (case js_str Q params key of
        Some s \<Rightarrow> Ok s
      | None \<Rightarrow> Err \<lparr>re_code = -32602, re_message = ''missing param: '' @ key\<rparr>)"

definition parse_params :: "('v \<Rightarrow> ('a, string) result) \<Rightarrow> 'v \<Rightarrow> ('a, rpc_error) result" where
  "parse_params parse params =
     (case parse params of
        Ok p \<Rightarrow> Ok p
      | Err e \<Rightarrow> Err \<lparr>re_code = -32602, re_message = ''invalid params: '' @ e\<rparr>)"

definition constant_time_eq :: "bytes \<Rightarrow> bytes \<Rightarrow> bool" where
  "constant_time_eq a b =
     (let diff = (word_of_nat (length a) XOR word_of_nat (length b) :: u64);
          at = (\<lambda>xs i. if i < length xs then xs ! i else 0);
          diff = foldl (\<lambda>diff i. diff OR ucast (at a i XOR at b i)) diff [0..<max (length a) (length b)]
      in diff = 0)"

subsection \<open>Admission\<close>

datatype admission = Closed | Rejected hello_ack | Admitted hello

text \<open>\<open>line\<close> is what \<open>read_line\<close> gave before the deadline, the empty string at the end of the stream.\<close>

definition admit_hello :: "('p, 'v) env \<Rightarrow> 'p daemon \<Rightarrow> string option \<Rightarrow> admission" where
  "admit_hello W dm read =
     (case read of
        None \<Rightarrow> Closed
      | Some line \<Rightarrow>
          if line = [] then Closed
          else case decode_ndjson_line (js_hello (wd_json W)) line of
                 Err _ \<Rightarrow> Rejected (ack_reject ''malformed hello'')
               | Ok h \<Rightarrow>
                   if hl_version h \<noteq> dm_version dm then Rejected (ack_reject ''version mismatch'')
                   else if hl_kind h \<noteq> Agent
                        \<and> (hl_token h = [] \<or> dm_token dm = []
                           \<or> \<not> constant_time_eq (bytes_of (hl_token h)) (bytes_of (dm_token dm)))
                   then Rejected (ack_reject ''token mismatch'')
                   else Admitted h)"

definition verify_session_key :: "('p, 'v) env \<Rightarrow> 'p daemon \<Rightarrow> string \<Rightarrow> string \<Rightarrow> (unit, rpc_error) result" where
  "verify_session_key W dm sid presented =
     (let expected = derive_session_key (wd_sha256 W) (dm_token dm) sid
      in if presented = [] \<or> \<not> constant_time_eq (bytes_of presented) (bytes_of expected)
         then Err (unauthorized ''bad session key'') else Ok ())"

subsection \<open>Replies\<close>

text \<open>The payloads the server builds with \<open>json!\<close>.\<close>

record cold_reply =
  cr_reply_snapshot :: string
  cr_reply_cols :: u16
  cr_reply_rows :: u16
  cr_reply_alt :: bool
  cr_reply_degraded :: bool
  cr_reply_tail :: "string option"

record warm_reply =
  wr_snapshot :: string
  wr_cols :: u16
  wr_rows :: u16
  wr_alt :: bool
  wr_output_sequence :: u64
  wr_tail :: "string option"
  wr_kitty :: "u32 option"
  wr_cwd :: "string option"
  wr_title :: "string option"
  wr_degraded :: bool

record bell_event =
  be_pty_id :: string
  be_bell :: bool
  be_ai_status :: "string option"

record session_row =
  sr_session_id :: string
  sr_is_alive :: bool
  sr_size :: "u16 \<times> u16"
  sr_pid :: "u32 option"

datatype rpc_value =
  RClaim string | RDone | RList "session_row list" | RSize "u16 \<times> u16" | RText "string option"
| RBells "bell_event list" | RInfo u64 nat | RWarm warm_reply | RReattached warm_reply
| RFresh | RCold cold_reply | RHealth bool | RCount u64

definition cold_restore_reply :: "cold_restore \<Rightarrow> cold_reply" where
  "cold_restore_reply cr =
     \<lparr>cr_reply_snapshot = from_utf8_lossy (cold_snapshot cr), cr_reply_cols = cr_cols cr,
      cr_reply_rows = cr_rows cr, cr_reply_alt = cr_is_alternate_screen cr, cr_reply_degraded = cr_degraded cr,
      cr_reply_tail = (if cr_pending_escape_tail cr = [] then None
                       else Some (from_utf8_lossy (cr_pending_escape_tail cr)))\<rparr>"

definition warm_snapshot_json :: "('p, 'v) env \<Rightarrow> 'p session \<Rightarrow> warm_reply \<times> 'p session" where
  "warm_snapshot_json W s =
     (case session_snapshot (wd_vt W) (wd_panics W) default_options s of
        (Some snap, s) \<Rightarrow>
          (\<lparr>wr_snapshot = from_utf8_lossy (warm_payload snap), wr_cols = sn_cols snap, wr_rows = sn_rows snap,
            wr_alt = sn_is_alternate_screen snap, wr_output_sequence = sn_output_sequence snap,
            wr_tail = (if sn_pending_escape_tail snap = [] then None
                       else Some (from_utf8_lossy (sn_pending_escape_tail snap))),
            wr_kitty = (if sn_kitty_keyboard_flags snap = 0 then None else Some (sn_kitty_keyboard_flags snap)),
            wr_cwd = sn_cwd snap, wr_title = sn_title snap, wr_degraded = False\<rparr>, s)
      | (None, s) \<Rightarrow>
          (\<lparr>wr_snapshot = from_utf8_lossy (ring_tail s),
            wr_cols = fst (session_applied_size (wd_vt W) s), wr_rows = snd (session_applied_size (wd_vt W) s),
            wr_alt = False, wr_output_sequence = output_sequence s, wr_tail = None, wr_kitty = None,
            wr_cwd = None, wr_title = None, wr_degraded = True\<rparr>, s))"

definition warm_snapshot :: "('p, 'v) env \<Rightarrow> nat \<Rightarrow> 'p daemon \<Rightarrow> warm_reply \<times> 'p daemon" where
  "warm_snapshot W a dm =
     (fst (warm_snapshot_json W (dm_heap dm a)), on_session a (snd \<circ> warm_snapshot_json W) dm)"

subsection \<open>The agent channel\<close>

definition agent_claim ::
  "('p, 'v) env \<Rightarrow> agent_claim_params \<Rightarrow> string \<Rightarrow> i32 option \<Rightarrow> 'p daemon
   \<Rightarrow> (rpc_value, rpc_error) result \<times> 'p daemon" where
  "agent_claim W p session_key peer dm =
     (case verify_session_key W dm (cl_session_id p) session_key of
        Err e \<Rightarrow> (Err e, dm)
      | Ok _ \<Rightarrow>
     (case get (cl_session_id p) dm of
        None \<Rightarrow> (Err session_not_found, dm)
      | Some a \<Rightarrow>
     (case peer of
        None \<Rightarrow> (Err (unauthorized ''peer pid unreadable''), dm)
      | Some pid \<Rightarrow>
     (case (case wd_kernel W pid of None \<Rightarrow> None | Some f \<Rightarrow> if alive f then Some f else None) of
        None \<Rightarrow> (Err (unauthorized ''claimant is gone''), dm)
      | Some peer_facts \<Rightarrow>
     (case wd_child_pid W a of
        None \<Rightarrow> (Err (unauthorized ''session has no pid''), dm)
      | Some shell_pid \<Rightarrow>
     (case wd_kernel W shell_pid of
        None \<Rightarrow> (Err (unauthorized ''session shell is gone''), dm)
      | Some shell_facts \<Rightarrow>
          if \<not> has_ctty peer_facts \<or> pf_tdev peer_facts \<noteq> pf_tdev shell_facts
          then (Err (unauthorized (''claimant is not on this pane'' @ [CHR 0x27] @ ''s terminal'')), dm)
          else
            let claim_id = new_claim_id (wd_random W)
            in (Ok (RClaim claim_id),
                on_session a (record_agent_claim
                  \<lparr>ac_claim_id = claim_id, ac_tool = cl_tool p, ac_pid = pid,
                   ac_start_us = pf_start_us peer_facts, ac_phase = Idle, ac_last_at_ns = 0\<rparr>
                  (wd_kernel W)) dm)))))))"

definition agent_event ::
  "('p, 'v) env \<Rightarrow> agent_event_params \<Rightarrow> string \<Rightarrow> 'p daemon \<Rightarrow> (rpc_value, rpc_error) result \<times> 'p daemon" where
  "agent_event W p session_key dm =
     (case verify_session_key W dm (ev_session_id p) session_key of
        Err e \<Rightarrow> (Err e, dm)
      | Ok _ \<Rightarrow>
     (case get (ev_session_id p) dm of
        None \<Rightarrow> (Err session_not_found, dm)
      | Some a \<Rightarrow>
          (Ok RDone,
           on_session a (snd \<circ> apply_agent_event (ev_claim_id p) (ev_event p) (ev_tool_name p) (ev_at_ns p)) dm)))"

definition dispatch_agent_rpc ::
  "('p, 'v) env \<Rightarrow> string \<Rightarrow> 'v \<Rightarrow> string \<Rightarrow> i32 option \<Rightarrow> 'p daemon
   \<Rightarrow> (rpc_value, rpc_error) result \<times> 'p daemon" where
  "dispatch_agent_rpc W m params session_key peer dm =
     (if m = ''agentClaim'' then
        (case parse_params (js_agent_claim (wd_json W)) params of
           Err e \<Rightarrow> (Err e, dm)
         | Ok p \<Rightarrow> agent_claim W p session_key peer dm)
      else if m = ''agentEvent'' then
        (case parse_params (js_agent_event (wd_json W)) params of
           Err e \<Rightarrow> (Err e, dm)
         | Ok p \<Rightarrow> agent_event W p session_key dm)
      else (Err (unknown_method m), dm))"

subsection \<open>Create or attach\<close>

datatype action = Attach | Spawn | WaitPending

text \<open>The decision under the map lock, with the reservation.\<close>

definition resolve_slot :: "string \<Rightarrow> 'p daemon \<Rightarrow> action \<times> 'p daemon" where
  "resolve_slot sid dm =
     (case map_of (dm_sessions dm) sid of
        Some (Live a) \<Rightarrow>
          if ss_alive (dm_heap dm a) then (Attach, dm) else (Spawn, set_slot sid Pending dm)
      | Some Pending \<Rightarrow> (WaitPending, dm)
      | None \<Rightarrow> (Spawn, set_slot sid Pending dm))"

definition probe_cold :: "('p, 'v) env \<Rightarrow> string \<Rightarrow> 'p daemon \<Rightarrow> cold_restore option \<times> 'p daemon" where
  "probe_cold W sid dm =
     (let dir = percent_encode sid in
      case acquire dir (dm_disk dm) of
        (Err _, d) \<Rightarrow> (None, dm\<lparr>dm_disk := d\<rparr>)
      | (Ok _, d) \<Rightarrow>
          ((if has_restorable_history (wd_codec W) sid d
            then detect_cold_restore (wd_codec W) (wd_vt W) sid True d else None),
           dm\<lparr>dm_disk := release dir d\<rparr>))"

text \<open>The geometry and working directory of the spawn: the recovered ones override the requested.\<close>

definition spawn_geometry :: "cold_restore option \<Rightarrow> string \<Rightarrow> u16 \<Rightarrow> u16 \<Rightarrow> string \<times> u16 \<times> u16" where
  "spawn_geometry cold cwd cols rows =
     (case cold of
        Some cr \<Rightarrow> (unwrap_or cwd (cr_cwd cr), max (cr_cols cr) 1, max (cr_rows cr) 1)
      | None \<Rightarrow> (cwd, cols, rows))"

text \<open>A spawned session is a new \<open>Arc\<close>: the next address of the heap.\<close>

definition alloc_session ::
  "('p, 'v) env \<Rightarrow> string \<Rightarrow> u16 \<Rightarrow> u16 \<Rightarrow> nat option \<Rightarrow> 'p daemon \<Rightarrow> nat \<times> 'p daemon" where
  "alloc_session W sid cols rows ring_cap dm =
     (let s = (case ring_cap of
                 Some cap \<Rightarrow> spawn_with_ring_cap (wd_vt W) sid cols rows cap
               | None \<Rightarrow> spawn (wd_vt W) sid cols rows)
      in (dm_next dm, dm\<lparr>dm_heap := (dm_heap dm)(dm_next dm := s), dm_next := Suc (dm_next dm)\<rparr>))"

definition register_history ::
  "('p, 'v) env \<Rightarrow> nat \<Rightarrow> string \<Rightarrow> u16 \<Rightarrow> u16 \<Rightarrow> bool \<Rightarrow> 'p daemon \<Rightarrow> bool \<times> 'p daemon" where
  "register_history W a cwd cols rows cold dm =
     (let S = addr_source (wd_vt W) (wd_panics W);
          source = (a, dm_heap dm a);
          ck = load (dm_heap dm) (dm_checkpointer dm);
          (outcome, ck, d) =
            (if cold then reopen_session (wd_codec W) S source ck (dm_disk dm)
             else ck_open_session (wd_codec W) S source (new_meta (wd_now W) (Some cwd) cols rows) ck (dm_disk dm));
          dm = dm\<lparr>dm_checkpointer := unload ck, dm_disk := d\<rparr>
      in if is_ok outcome then (True, on_session a enable_history dm) else (False, dm))"

text \<open>One turn of the loop of \<open>rpc_create_or_attach\<close>; \<open>None\<close> waits for the reservation's holder.\<close>

definition create_turn ::
  "('p, 'v) env \<Rightarrow> string \<Rightarrow> string \<Rightarrow> u16 \<Rightarrow> u16 \<Rightarrow> nat option \<Rightarrow> 'p daemon
   \<Rightarrow> (rpc_value, rpc_error) result option \<times> 'p daemon" where
  "create_turn W sid cwd cols rows ring_cap dm =
     (case resolve_slot sid dm of
        (WaitPending, dm) \<Rightarrow> (None, dm)
      | (Attach, dm) \<Rightarrow>
          (case get sid dm of
             None \<Rightarrow> (Some (Err session_not_found), dm)
           | Some a \<Rightarrow> (let (r, dm) = warm_snapshot W a dm in (Some (Ok (RReattached r)), dm)))
      | (Spawn, dm) \<Rightarrow>
          (let (cold, dm) = probe_cold W sid dm;
               (spawn_cwd, spawn_cols, spawn_rows) = spawn_geometry cold cwd cols rows
           in case wd_spawn W of
                Err e \<Rightarrow> (Some (Err (internal e)), remove_slot sid dm)
              | Ok _ \<Rightarrow>
                  (let (a, dm) = alloc_session W sid spawn_cols spawn_rows ring_cap dm;
                       (persisted, dm) = register_history W a spawn_cwd spawn_cols spawn_rows (cold \<noteq> None) dm;
                       dm = set_slot sid (Live a) dm
                   in case cold of
                        Some cr \<Rightarrow> if persisted then (Some (Ok (RCold (cold_restore_reply cr))), dm)
                                   else (Some (Ok RFresh), dm)
                      | None \<Rightarrow> (Some (Ok RFresh), dm))))"

definition rpc_create_or_attach ::
  "('p, 'v) env \<Rightarrow> 'v \<Rightarrow> 'p daemon \<Rightarrow> (rpc_value, rpc_error) result option \<times> 'p daemon" where
  "rpc_create_or_attach W params dm =
     (let Q = wd_json W in
      case str_param Q params ''sessionId'' of
        Err e \<Rightarrow> (Some (Err e), dm)
      | Ok sid \<Rightarrow>
          create_turn W sid (unwrap_or ''.'' (js_str Q params ''cwd''))
            (ucast (unwrap_or 80 (js_u64 Q params ''cols''))) (ucast (unwrap_or 24 (js_u64 Q params ''rows'')))
            (map_option unat (js_u64 Q params ''scrollbackBytes'')) dm)"

subsection \<open>The end of a session\<close>

definition close_history :: "('p, 'v) env \<Rightarrow> string \<Rightarrow> int option \<Rightarrow> 'p daemon \<Rightarrow> 'p daemon" where
  "close_history W sid exit_code dm =
     (let (ck, d) = close_session (wd_codec W) (wd_now W) sid exit_code (dm_checkpointer dm) (dm_disk dm)
      in dm\<lparr>dm_checkpointer := ck, dm_disk := d\<rparr>)"

text \<open>\<open>SessionReaper::reap\<close>; \<open>me\<close> is the address of the dying session.\<close>

definition reap :: "string \<Rightarrow> nat \<Rightarrow> 'p daemon \<Rightarrow> 'p daemon" where
  "reap sid me dm =
     (case map_of (dm_sessions dm) sid of
        Some (Live current) \<Rightarrow> if current = me then remove_slot sid dm else dm
      | _ \<Rightarrow> dm)"

definition hub_emit_all :: "bytes list \<Rightarrow> 'p daemon \<Rightarrow> 'p daemon" where
  "hub_emit_all frames dm = dm\<lparr>dm_hub := foldl (\<lambda>h bs. hub_emit bs h) (dm_hub dm) frames\<rparr>"

subsection \<open>Requests\<close>

definition rpc_list_sessions :: "('p, 'v) env \<Rightarrow> 'p daemon \<Rightarrow> session_row list" where
  "rpc_list_sessions W dm =
     map (\<lambda>a. \<lparr>sr_session_id = ss_id (dm_heap dm a), sr_is_alive = ss_alive (dm_heap dm a),
               sr_size = session_applied_size (wd_vt W) (dm_heap dm a), sr_pid = wd_child_pid W a\<rparr>)
       (live_sessions dm)"

definition poll_one :: "('p, 'v) env \<Rightarrow> bell_event list \<times> 'p daemon \<Rightarrow> nat \<Rightarrow> bell_event list \<times> 'p daemon" where
  "poll_one W acc a =
     (let (events, dm) = acc; s = dm_heap dm a in
      (events @ [\<lparr>be_pty_id = ss_id s, be_bell = fst (take_bell s), be_ai_status = agent_status (wd_kernel W) s\<rparr>],
       on_session a (snd \<circ> take_bell) dm))"

definition rpc_poll_bells :: "('p, 'v) env \<Rightarrow> 'p daemon \<Rightarrow> bell_event list \<times> 'p daemon" where
  "rpc_poll_bells W dm = foldl (poll_one W) ([], dm) (live_sessions dm)"

definition session_count :: "'p daemon \<Rightarrow> nat" where
  "session_count dm = length (filter (\<lambda>(sid, slot). case slot of Live a \<Rightarrow> True | Pending \<Rightarrow> False) (dm_sessions dm))"

definition kill_all_sessions :: "'p daemon \<Rightarrow> 'p daemon" where
  "kill_all_sessions dm = foldl (\<lambda>dm a. on_session a kill dm) dm (live_sessions dm)"

definition resume_all_producers :: "'p daemon \<Rightarrow> 'p daemon" where
  "resume_all_producers dm = foldl (\<lambda>dm a. on_session a resume_producer dm) dm (live_sessions dm)"

definition flush_history_unclean :: "('p, 'v) env \<Rightarrow> 'p daemon \<Rightarrow> 'p daemon" where
  "flush_history_unclean W =
     with_checkpointer (flush_all (wd_codec W) (addr_source (wd_vt W) (wd_panics W)) (wd_now W))"

text \<open>\<open>shutdown_all\<close>: the flush, then \<open>close_session\<close> of every id.\<close>

definition shutdown_history :: "('p, 'v) env \<Rightarrow> 'p daemon \<Rightarrow> 'p daemon" where
  "shutdown_history W dm =
     (let dm = flush_history_unclean W dm
      in foldl (\<lambda>dm sid. close_history W sid None dm) dm (map fst (ck_sessions (dm_checkpointer dm))))"

definition trigger_shutdown :: "'p daemon \<Rightarrow> 'p daemon" where
  "trigger_shutdown dm = dm\<lparr>dm_shutdown_flag := True\<rparr>"

text \<open>A request that names a session: the parameter, the lookup, then the operation on the address.\<close>

definition named_session ::
  "('p, 'v) env \<Rightarrow> 'v \<Rightarrow> 'p daemon \<Rightarrow> (nat \<Rightarrow> rpc_value \<times> 'p daemon)
   \<Rightarrow> (rpc_value, rpc_error) result option \<times> 'p daemon" where
  "named_session W params dm f =
     (case str_param (wd_json W) params ''sessionId'' of
        Err e \<Rightarrow> (Some (Err e), dm)
      | Ok sid \<Rightarrow>
          (case get sid dm of
             None \<Rightarrow> (Some (Err session_not_found), dm)
           | Some a \<Rightarrow> (let (v, dm) = f a in (Some (Ok v), dm))))"

definition rpc_kill :: "('p, 'v) env \<Rightarrow> string \<Rightarrow> 'p daemon \<Rightarrow> 'p daemon" where
  "rpc_kill W sid dm =
     close_history W sid None (case get sid dm of Some a \<Rightarrow> on_session a kill dm | None \<Rightarrow> dm)"

definition dispatch_rpc ::
  "('p, 'v) env \<Rightarrow> string \<Rightarrow> 'v \<Rightarrow> 'p daemon \<Rightarrow> (rpc_value, rpc_error) result option \<times> 'p daemon" where
  "dispatch_rpc W m params dm =
     (if m = ''createOrAttach'' then rpc_create_or_attach W params dm
      else if m = ''kill'' then
        (case str_param (wd_json W) params ''sessionId'' of
           Err e \<Rightarrow> (Some (Err e), dm)
         | Ok sid \<Rightarrow> (Some (Ok RDone), rpc_kill W sid dm))
      else if m = ''listSessions'' then (Some (Ok (RList (rpc_list_sessions W dm))), dm)
      else if m = ''getAppliedSize'' then
        named_session W params dm (\<lambda>a. (RSize (session_applied_size (wd_vt W) (dm_heap dm a)), dm))
      else if m = ''getCwd'' then named_session W params dm (\<lambda>a. (RText (session_cwd (dm_heap dm a)), dm))
      else if m = ''getTitle'' then named_session W params dm (\<lambda>a. (RText (session_title (dm_heap dm a)), dm))
      else if m = ''clearHistory'' then
        named_session W params dm (\<lambda>a. (RDone, on_session a (clear_history (wd_vt W)) dm))
      else if m = ''pollBells'' then (let (es, dm) = rpc_poll_bells W dm in (Some (Ok (RBells es)), dm))
      else if m = ''getDaemonInfo'' then
        (Some (Ok (RInfo (dm_connected_controls dm) (session_count dm))), dm)
      else if m = ''getSnapshot'' then
        named_session W params dm (\<lambda>a. (let (r, dm) = warm_snapshot W a dm in (RWarm r, dm)))
      else if m = ''checkPtySpawnHealth'' then (Some (Ok (RHealth (wd_health W))), dm)
      else if m = ''checkpointAll'' then (Some (Ok RDone), flush_history_unclean W dm)
      else if m = ''shutdown'' then
        (let dm = shutdown_history W dm;
             dm = (if unwrap_or False (js_bool (wd_json W) params ''killSessions'')
                   then kill_all_sessions dm else dm)
         in (Some (Ok RDone), trigger_shutdown dm))
      else if m = ''debugControlHelloCount'' then (Some (Ok (RCount (dm_control_hellos dm))), dm)
      else if m = ''debugSleep'' then (Some (Ok RDone), dm)
      else (Some (Err (unknown_method m)), dm))"

subsection \<open>Notifies\<close>

definition on_named :: "('p, 'v) env \<Rightarrow> 'v \<Rightarrow> ('p session \<Rightarrow> 'p session) \<Rightarrow> 'p daemon \<Rightarrow> 'p daemon" where
  "on_named W params f dm =
     (case js_str (wd_json W) params ''sessionId'' of
        None \<Rightarrow> dm
      | Some sid \<Rightarrow> (case get sid dm of None \<Rightarrow> dm | Some a \<Rightarrow> on_session a f dm))"

definition dispatch_notify :: "('p, 'v) env \<Rightarrow> string \<Rightarrow> 'v \<Rightarrow> 'p daemon \<Rightarrow> 'p daemon" where
  "dispatch_notify W m params dm =
     (let Q = wd_json W in
      if m = ''write'' then
        (case Option.bind (js_str Q params ''dataB64'') (wd_base64 W) of
           None \<Rightarrow> dm
         | Some data \<Rightarrow> on_named W params (enqueue_write data) dm)
      else if m = ''resize'' then
        (let cols = ucast (unwrap_or 0 (js_u64 Q params ''cols'')) :: u16;
             rows = ucast (unwrap_or 0 (js_u64 Q params ''rows'')) :: u16
         in if cols = 0 \<or> rows = 0 then dm
            else on_named W params (snd \<circ> session_resize (wd_vt W) (wd_resize W) cols rows) dm)
      else if m = ''pausePty'' then on_named W params (snd \<circ> pause_producer) dm
      else if m = ''resumePty'' then on_named W params resume_producer dm
      else if m = ''setSessionBackground'' then
        on_named W params (set_background (unwrap_or False (js_bool Q params ''background''))) dm
      else dm)"

subsection \<open>Connections\<close>

text \<open>
  A control connection: each line read, the environment it runs in, and whether the reply could be
  written. A request that waits for a reservation is polled again, which is its line again in the
  list. The list ends where the client, an error or a shutdown ends the connection.
\<close>

fun control_lines ::
  "(('p, 'v) env \<times> string \<times> bool) list \<Rightarrow> 'p daemon \<Rightarrow> (u64 \<times> (rpc_value, rpc_error) result) list \<times> 'p daemon" where
  "control_lines [] dm = ([], dm)"
| "control_lines ((W, line, wrote) # rest) dm =
     (case decode_ndjson_line (js_message (wd_json W)) line of
        Err _ \<Rightarrow> control_lines rest dm
      | Ok (Request r) \<Rightarrow>
          (case dispatch_rpc W (rq_method r) (rq_params r) dm of
             (None, dm) \<Rightarrow> control_lines rest dm
           | (Some reply, dm) \<Rightarrow>
               if wrote then (let (rs, dm) = control_lines rest dm in ((rq_id r, reply) # rs, dm))
               else ([], dm))
      | Ok (NotifyMsg n) \<Rightarrow> control_lines rest (dispatch_notify W (nt_method n) (nt_params n) dm)
      | Ok _ \<Rightarrow> control_lines rest dm)"

definition run_control ::
  "('p, 'v) env \<Rightarrow> (('p, 'v) env \<times> string \<times> bool) list \<Rightarrow> 'p daemon
   \<Rightarrow> (u64 \<times> (rpc_value, rpc_error) result) list \<times> 'p daemon" where
  "run_control W polls dm =
     (let (rs, dm) = control_lines polls dm
      in (rs, if \<not> dm_shutdown_flag dm then flush_history_unclean W dm else dm))"

fun run_agent ::
  "(('p, 'v) env \<times> string \<times> bool) list \<Rightarrow> string \<Rightarrow> i32 option \<Rightarrow> 'p daemon
   \<Rightarrow> (u64 \<times> (rpc_value, rpc_error) result) list \<times> 'p daemon" where
  "run_agent [] session_key peer dm = ([], dm)"
| "run_agent ((W, line, wrote) # rest) session_key peer dm =
     (case decode_ndjson_line (js_message (wd_json W)) line of
        Ok (Request r) \<Rightarrow>
          (let (reply, dm) = dispatch_agent_rpc W (rq_method r) (rq_params r) session_key peer dm
           in if wrote then (let (rs, dm) = run_agent rest session_key peer dm in ((rq_id r, reply) # rs, dm))
              else ([], dm))
      | _ \<Rightarrow> run_agent rest session_key peer dm)"

text \<open>The two ends of a stream connection; between them the hub feeds its queue.\<close>

definition stream_open :: "nat \<Rightarrow> 'p daemon \<Rightarrow> u64 \<times> 'p daemon" where
  "stream_open c dm = (let (g, h) = hub_set c (dm_hub dm) in (g, dm\<lparr>dm_hub := h\<rparr>))"

definition stream_close :: "u64 \<Rightarrow> 'p daemon \<Rightarrow> 'p daemon" where
  "stream_close g dm =
     (let (last, h) = hub_clear g (dm_hub dm); dm = dm\<lparr>dm_hub := h\<rparr>
      in if last then resume_all_producers dm else dm)"

text \<open>\<open>handle_connection\<close>, after the acknowledgement was written.\<close>

definition control_connection ::
  "('p, 'v) env \<Rightarrow> (('p, 'v) env \<times> string \<times> bool) list \<Rightarrow> 'p daemon
   \<Rightarrow> (u64 \<times> (rpc_value, rpc_error) result) list \<times> 'p daemon" where
  "control_connection W polls dm =
     (let dm = dm\<lparr>dm_control_hellos := dm_control_hellos dm + 1,
                  dm_connected_controls := dm_connected_controls dm + 1\<rparr>;
          (rs, dm) = run_control W polls dm
      in (rs, dm\<lparr>dm_connected_controls := dm_connected_controls dm - 1\<rparr>))"

end
