(* ===== verification/ServerProps.thy ===== *)
theory ServerProps
  imports Server
begin

text \<open>
  What the daemon of \<open>Server\<close> promises: the stream hub, admission, the confinement of the agent
  channel, one live session per id, and what happens to the history of a session whose id is reused.
\<close>

subsection \<open>Constant-time comparison\<close>

lemma or_fold_zero:
  "foldl (\<lambda>d i. d OR f i) (d :: u64) is = 0 \<longleftrightarrow> d = 0 \<and> (\<forall>i \<in> set is. f i = 0)"
  by (induction "is" arbitrary: d) (auto simp: or_eq_0_iff)

lemma xor_zero: "x XOR y = 0 \<longleftrightarrow> x = (y :: 'a :: len word)"
proof
  assume "x XOR y = 0"
  then have "(x XOR y) XOR y = y" by simp
  then show "x = y" by (simp add: xor.assoc)
qed simp

lemma ucast_xor_zero: "(ucast (x XOR y) :: u64) = 0 \<longleftrightarrow> x = (y :: u8)"
proof -
  have "(ucast (ucast (x XOR y) :: u64) :: u8) = x XOR y"
    by (rule ucast_up_ucast_id) (simp add: is_up)
  then have "(ucast (x XOR y) :: u64) = 0 \<longleftrightarrow> x XOR y = 0"
    by (metis unsigned_0)
  then show ?thesis by (simp only: xor_zero)
qed

lemma length_xor_zero:
  assumes "m < 2 ^ 64" "n < 2 ^ 64"
  shows "word_of_nat m XOR word_of_nat n = (0 :: u64) \<longleftrightarrow> m = n"
proof -
  have "word_of_nat m XOR word_of_nat n = (0 :: u64) \<longleftrightarrow> word_of_nat m = (word_of_nat n :: u64)"
    by (rule xor_zero)
  also have "\<dots> \<longleftrightarrow> m = n"
    using assms by (simp add: word_of_nat_eq_iff take_bit_nat_eq_self)
  finally show ?thesis .
qed

lemma constant_time_eq_iff:
  assumes "length a < 2 ^ 64" "length b < 2 ^ 64"
  shows "constant_time_eq a b \<longleftrightarrow> a = b"
proof -
  have "constant_time_eq a b \<longleftrightarrow> length a = length b
      \<and> (\<forall>i \<in> {0..<max (length a) (length b)}.
          (if i < length a then a ! i else 0) = (if i < length b then b ! i else 0))"
    unfolding constant_time_eq_def Let_def or_fold_zero ucast_xor_zero length_xor_zero [OF assms] by simp
  also have "\<dots> \<longleftrightarrow> a = b" by (auto intro: nth_equalityI)
  finally show ?thesis .
qed

subsection \<open>The hub\<close>

datatype hub_event = HubSet nat | HubClear u64 | HubEmit bytes

fun hub_step :: "hub \<Rightarrow> hub_event \<Rightarrow> hub" where
  "hub_step h (HubSet c) = snd (hub_set c h)"
| "hub_step h (HubClear g) = snd (hub_clear g h)"
| "hub_step h (HubEmit bs) = hub_emit bs h"

fun emitted :: "hub_event list \<Rightarrow> bytes list" where
  "emitted [] = []"
| "emitted (HubEmit bs # evs) = bs # emitted evs"
| "emitted (_ # evs) = emitted evs"

definition subscriptions :: "hub_event list \<Rightarrow> nat" where
  "subscriptions evs = length (filter (\<lambda>e. case e of HubSet c \<Rightarrow> True | _ \<Rightarrow> False) evs)"

lemma hub_generation_run:
  "hb_generation (foldl hub_step h evs) = hb_generation h + word_of_nat (subscriptions evs)"
proof (induction evs arbitrary: h)
  case (Cons e evs)
  then show ?case
    by (cases e) (simp_all add: subscriptions_def hub_set_def hub_clear_def hub_emit_def split: option.split)
qed (simp add: subscriptions_def)

lemma hub_run_stale:
  assumes "hb_tx h = Some c" and "hb_generation h \<noteq> g0"
    and "\<forall>e \<in> set evs. e = HubClear g0 \<or> (\<exists>bs. e = HubEmit bs)"
  shows "foldl hub_step h evs = h\<lparr>hb_sent := hb_sent h @ map (Pair c) (emitted evs)\<rparr>"
  using assms
proof (induction evs arbitrary: h)
  case (Cons e evs)
  then consider "e = HubClear g0" | bs where "e = HubEmit bs" by auto
  then show ?case
  proof cases
    case 1
    with Cons show ?thesis by (simp add: hub_clear_def)
  next
    case 2
    have "foldl hub_step (hub_emit bs h) evs
        = (hub_emit bs h)\<lparr>hb_sent := hb_sent (hub_emit bs h) @ map (Pair c) (emitted evs)\<rparr>"
      using Cons.prems by (intro Cons.IH) (simp_all add: hub_emit_def)
    with 2 Cons.prems(1) show ?thesis by (simp add: hub_emit_def)
  qed
qed simp

subsection \<open>Admission\<close>

lemma verify_session_key_ok:
  assumes "length key < 2 ^ 64" and "\<And>x. length (wd_sha256 W x) = 32"
  shows "verify_session_key W dm sid key = Ok () \<longleftrightarrow> key = derive_session_key (wd_sha256 W) (dm_token dm) sid"
proof -
  let ?k = "derive_session_key (wd_sha256 W) (dm_token dm) sid"
  have len: "length ?k = 32" using assms(2) by (simp add: derive_session_key_def)
  then have "constant_time_eq (bytes_of key) (bytes_of ?k) \<longleftrightarrow> key = ?k"
    using assms(1) by (subst constant_time_eq_iff) (simp_all add: bytes_of_inj)
  moreover have "?k \<noteq> []" using len by auto
  ultimately show ?thesis by (auto simp: verify_session_key_def Let_def)
qed

lemma on_session_heap [simp]: "dm_heap (on_session a f dm) b = (if b = a then f (dm_heap dm a) else dm_heap dm b)"
  by (simp add: on_session_def Let_def)

lemma on_session_frame [simp]:
  "dm_sessions (on_session a f dm) = dm_sessions dm" "dm_hub (on_session a f dm) = dm_hub dm"
  "dm_disk (on_session a f dm) = dm_disk dm" "dm_shutdown_flag (on_session a f dm) = dm_shutdown_flag dm"
  "dm_token (on_session a f dm) = dm_token dm" "dm_next (on_session a f dm) = dm_next dm"
  "dm_version (on_session a f dm) = dm_version dm"
  by (simp_all add: on_session_def Let_def)

lemma on_session_quiet:
  "ss_marks (f (dm_heap dm a)) = ss_marks (dm_heap dm a) \<Longrightarrow>
   dm_checkpointer (on_session a f dm) = dm_checkpointer dm"
  by (simp add: on_session_def Let_def)

lemma get_on_session [simp]: "get sid (on_session a f dm) = get sid dm"
  by (simp add: get_def)

text \<open>What the agent channel may touch: the claims of the session whose key the caller holds.\<close>

definition agent_confined :: "('p, 'v) env \<Rightarrow> string \<Rightarrow> 'p daemon \<Rightarrow> 'p daemon \<Rightarrow> bool" where
  "agent_confined W key dm dm' \<longleftrightarrow>
     dm_sessions dm' = dm_sessions dm \<and> dm_hub dm' = dm_hub dm \<and> dm_disk dm' = dm_disk dm
     \<and> dm_shutdown_flag dm' = dm_shutdown_flag dm \<and> dm_token dm' = dm_token dm
     \<and> dm_checkpointer dm' = dm_checkpointer dm
     \<and> (\<forall>a. (dm_heap dm' a)\<lparr>ss_agents := []\<rparr> = (dm_heap dm a)\<lparr>ss_agents := []\<rparr>)
     \<and> (\<forall>a. dm_heap dm' a \<noteq> dm_heap dm a \<longrightarrow>
            (\<exists>sid. get sid dm = Some a \<and> verify_session_key W dm sid key = Ok ()))"

lemma agent_confined_refl [simp]: "agent_confined W key dm dm"
  by (simp add: agent_confined_def)

lemma agent_confined_update:
  assumes "\<And>s. (f s)\<lparr>ss_agents := []\<rparr> = s\<lparr>ss_agents := []\<rparr>"
    and "get sid dm = Some a" and "verify_session_key W dm sid key = Ok ()"
  shows "agent_confined W key dm (on_session a f dm)"
proof -
  have "ss_marks (f s) = ss_marks s" for s
    using arg_cong [OF assms(1) [of s], of ss_marks] by simp
  then have "dm_checkpointer (on_session a f dm) = dm_checkpointer dm"
    by (simp add: on_session_quiet)
  with assms show ?thesis by (auto simp: agent_confined_def)
qed

lemma verify_cong: "wd_sha256 W = wd_sha256 V \<Longrightarrow> dm_token dm = dm_token dm' \<Longrightarrow>
   verify_session_key W dm sid key = verify_session_key V dm' sid key"
  by (simp add: verify_session_key_def)

lemma agent_confined_trans:
  assumes "agent_confined W key dm dm1" and "agent_confined V key dm1 dm2" and "wd_sha256 W = wd_sha256 V"
  shows "agent_confined W key dm dm2"
proof -
  have "get sid dm1 = get sid dm" for sid using assms(1) by (simp add: agent_confined_def get_def)
  moreover have "verify_session_key V dm1 sid key = verify_session_key W dm sid key" for sid
    using assms(1,3) by (intro verify_cong) (simp_all add: agent_confined_def)
  ultimately show ?thesis using assms(1,2) unfolding agent_confined_def by metis
qed

lemma apply_agent_event_frame: "(snd (apply_agent_event c e t n s))\<lparr>ss_agents := []\<rparr> = s\<lparr>ss_agents := []\<rparr>"
  by (simp add: apply_agent_event_def split: prod.split)

lemma record_agent_claim_frame: "(record_agent_claim c K s)\<lparr>ss_agents := []\<rparr> = s\<lparr>ss_agents := []\<rparr>"
  by (simp add: record_agent_claim_def)

lemma agent_claim_cases:
  assumes "agent_claim W p key peer dm = (r, dm')"
  obtains (refused) e where "r = Err e" "dm' = dm"
  | (granted) a pid f sp sf where "verify_session_key W dm (cl_session_id p) key = Ok ()"
      "get (cl_session_id p) dm = Some a" "peer = Some pid" "wd_kernel W pid = Some f" "alive f"
      "wd_child_pid W a = Some sp" "wd_kernel W sp = Some sf" "has_ctty f" "pf_tdev f = pf_tdev sf"
      "r = Ok (RClaim (new_claim_id (wd_random W)))"
      "dm' = on_session a (record_agent_claim
         \<lparr>ac_claim_id = new_claim_id (wd_random W), ac_tool = cl_tool p, ac_pid = pid,
          ac_start_us = pf_start_us f, ac_phase = Idle, ac_last_at_ns = 0\<rparr> (wd_kernel W)) dm"
  using assms
  by (auto simp: agent_claim_def Let_def split: result.splits option.splits if_splits)

lemma agent_event_cases:
  assumes "agent_event W p key dm = (r, dm')"
  obtains (refused) e where "r = Err e" "dm' = dm"
  | (taken) a where "verify_session_key W dm (ev_session_id p) key = Ok ()" "get (ev_session_id p) dm = Some a"
      "r = Ok RDone"
      "dm' = on_session a (snd \<circ> apply_agent_event (ev_claim_id p) (ev_event p) (ev_tool_name p) (ev_at_ns p)) dm"
  using assms by (auto simp: agent_event_def split: result.splits option.splits)

lemma dispatch_agent_confined: "agent_confined W key dm (snd (dispatch_agent_rpc W m params key peer dm))"
proof -
  have "agent_confined W key dm dm'" if "agent_claim W p key peer dm = (r, dm')" for p r dm'
    using that
  proof (cases rule: agent_claim_cases)
    case granted
    then show ?thesis by (simp add: agent_confined_update record_agent_claim_frame)
  qed simp
  moreover have "agent_confined W key dm dm'" if "agent_event W p key dm = (r, dm')" for p r dm'
    using that
  proof (cases rule: agent_event_cases)
    case taken
    then show ?thesis by (simp add: agent_confined_update apply_agent_event_frame)
  qed simp
  ultimately show ?thesis
    by (auto simp: dispatch_agent_rpc_def split: result.split) (metis prod.collapse)+
qed

lemma run_agent_confined:
  assumes "\<forall>(V, line, wrote) \<in> set polls. wd_sha256 V = wd_sha256 W"
  shows "agent_confined W key dm (snd (run_agent polls key peer dm))"
  using assms
proof (induction polls arbitrary: dm)
  case (Cons poll polls)
  obtain V line wrote where poll: "poll = (V, line, wrote)" by (cases poll)
  have IH: "agent_confined W key d (snd (run_agent polls key peer d))" for d
    using Cons by simp
  have sha: "wd_sha256 W = wd_sha256 V" "wd_sha256 V = wd_sha256 W" using Cons.prems poll by auto
  show ?case
  proof (cases "decode_ndjson_line (js_message (wd_json V)) line")
    case (Ok m)
    show ?thesis
    proof (cases m)
      case (Request r)
      let ?d = "snd (dispatch_agent_rpc V (rq_method r) (rq_params r) key peer dm)"
      have "agent_confined V key dm ?d" by (rule dispatch_agent_confined)
      then have "agent_confined V key dm (snd (run_agent polls key peer ?d))" "agent_confined W key dm ?d"
        using agent_confined_trans [OF agent_confined_refl _ sha(1)]
        by (auto intro: agent_confined_trans [OF _ IH sha(2)])
      then have "agent_confined W key dm (snd (run_agent polls key peer ?d))" "agent_confined W key dm ?d"
        using agent_confined_trans [OF agent_confined_refl _ sha(1)] by blast+
      with Ok Request poll show ?thesis by (auto simp: Let_def split: prod.split)
    qed (use Ok poll IH in simp_all)
  next
    case (Err e)
    with poll IH show ?thesis by simp
  qed
qed simp

subsection \<open>A sample environment, for the witnesses\<close>

definition sample_json :: "nat json" where
  "sample_json =
     \<lparr>js_str = (\<lambda>v k. if k = ''sessionId'' then Some ''s'' else None), js_u64 = (\<lambda>v k. None),
      js_bool = (\<lambda>v k. None), js_agent_claim = (\<lambda>v. Ok \<lparr>cl_session_id = ''s'', cl_tool = ''codex''\<rparr>),
      js_agent_event = (\<lambda>v. Err ''bad''),
      js_hello = (\<lambda>line. Some \<lparr>hl_version = 1, hl_token = line, hl_client_id = ''c'', hl_kind = Control\<rparr>),
      js_message = (\<lambda>line. Some (Request \<lparr>rq_id = 1, rq_method = line, rq_params = 0\<rparr>))\<rparr>"

definition sample_env :: "(bytes, nat) env" where
  "sample_env =
     \<lparr>wd_vt = tape_parser, wd_codec = sample_codec, wd_json = sample_json, wd_base64 = (\<lambda>s. None),
      wd_sha256 = (\<lambda>x. take 32 (rev x @ replicate 32 0)),
      wd_kernel = (\<lambda>pid. if pid = 7 then Some \<lparr>pf_pid = 7, pf_start_us = 1, pf_stat = 2, pf_tdev = 5\<rparr> else None),
      wd_child_pid = (\<lambda>a. Some 7), wd_now = 1, wd_random = [0], wd_spawn = Ok (), wd_resize = Ok (),
      wd_panics = False, wd_health = True\<rparr>"

definition blank :: "bytes session" where "blank = spawn tape_parser ''s'' 80 24"

definition sample_daemon :: "bytes daemon" where
  "sample_daemon = (new_daemon ''t'' (sample_disk 0) blank)\<lparr>dm_sessions := [(''s'', Live 0)], dm_next := 1\<rparr>"

lemma sample_get: "get sid sample_daemon = (if sid = ''s'' then Some 0 else None)"
  by (simp add: get_def sample_daemon_def)

lemma sample_key_length: "length (derive_session_key (wd_sha256 sample_env) ''t'' sid) = 32"
  by (simp add: derive_session_key_def sample_env_def)

subsection \<open>Properties\<close>

text \<open>
  A stream that disconnects late cannot take the output from the one that replaced it: after a newer
  stream subscribed, whatever interleaving of emits and of the old stream's clear follows, every
  frame goes to the newer stream, in order, and the newer stream still owns the slot. The old
  stream would have to miss \<open>2 ^ 64\<close> subscriptions for its generation to come back.
\<close>

theorem newest_stream_keeps_frames:
  assumes "hub_set c0 h0 = (g0, h1)" and "subscriptions evs < 2 ^ 64 - 1"
    and "hub_set c (foldl hub_step h1 evs) = (g, h2)"
    and "\<forall>e \<in> set evs'. e = HubClear g0 \<or> (\<exists>bs. e = HubEmit bs)"
  shows "hb_sent (foldl hub_step h2 evs') = hb_sent h2 @ map (Pair c) (emitted evs')
       \<and> fst (hub_clear g (foldl hub_step h2 evs'))"
proof -
  have "g0 = hb_generation h0 + 1" "hb_generation h1 = g0"
    using assms(1) by (auto simp: hub_set_def)
  then have gen: "hb_generation h2 = g0 + (word_of_nat (subscriptions evs) + 1)" "hb_generation h2 = g" "hb_tx h2 = Some c"
    using assms(3) by (auto simp: hub_set_def hub_generation_run algebra_simps)
  have "\<not> 2 ^ LENGTH(64) dvd Suc (subscriptions evs)"
    using assms(2) dvd_imp_le [of "2 ^ LENGTH(64)" "Suc (subscriptions evs)"] by auto
  then have "(word_of_nat (Suc (subscriptions evs)) :: u64) \<noteq> 0"
    by (simp only: word_of_nat_eq_0_iff not_False_eq_True)
  then have "hb_generation h2 \<noteq> g0" using gen(1) by (simp add: add.commute)
  from hub_run_stale [OF gen(3) this assms(4)] show ?thesis
    using gen(2) by (simp add: hub_clear_def)
qed

theorem newest_stream_keeps_frames_witness:
  "hb_sent (foldl hub_step (snd (hub_set 2 (snd (hub_set 1 new_hub)))) [HubEmit [1], HubClear 1, HubEmit [2]])
   = [(2, [1]), (2, [2])]"
proof -
  have "hub_set 1 new_hub = (1, snd (hub_set 1 new_hub))"
    "hub_set 2 (foldl hub_step (snd (hub_set 1 new_hub)) []) = (2, snd (hub_set 2 (snd (hub_set 1 new_hub))))"
    by (simp_all add: hub_set_def new_hub_def)
  from newest_stream_keeps_frames [OF this(1) _ this(2), of "[HubEmit [1], HubClear 1, HubEmit [2]]"]
  show ?thesis by (simp add: subscriptions_def hub_set_def new_hub_def)
qed

text \<open>
  A connection is admitted exactly when its first line parses, speaks the daemon's protocol version,
  and, unless it is an agent's, presents the daemon's own non-empty token; the constant-time
  comparison decides equality.
\<close>

theorem hello_admission:
  assumes "decode_ndjson_line (js_hello (wd_json W)) line = Ok h" and "line \<noteq> []"
    and "length (hl_token h) < 2 ^ 64" and "length (dm_token dm) < 2 ^ 64"
  shows "admit_hello W dm (Some line) = Admitted h \<longleftrightarrow>
     hl_version h = dm_version dm
     \<and> (hl_kind h = Agent \<or> hl_token h = dm_token dm \<and> dm_token dm \<noteq> [])"
proof -
  have "constant_time_eq (bytes_of (hl_token h)) (bytes_of (dm_token dm)) \<longleftrightarrow> hl_token h = dm_token dm"
    using assms(3,4) by (subst constant_time_eq_iff) (simp_all add: bytes_of_inj)
  with assms(1,2) show ?thesis by (auto simp: admit_hello_def)
qed

theorem hello_admission_witness:
  "admit_hello sample_env sample_daemon (Some ''t'')
   = Admitted \<lparr>hl_version = 1, hl_token = ''t'', hl_client_id = ''c'', hl_kind = Control\<rparr>"
proof -
  let ?h = "\<lparr>hl_version = 1, hl_token = ''t'', hl_client_id = ''c'', hl_kind = Control\<rparr>"
  have d: "decode_ndjson_line (js_hello (wd_json sample_env)) ''t'' = Ok ?h"
    by (simp add: decode_ndjson_line_def sample_env_def sample_json_def MAX_CONTROL_LINE_BYTES_def
        trim_end_matches_def)
  show ?thesis
    using hello_admission [OF d, of sample_daemon]
    by (simp add: sample_daemon_def new_daemon_def GROVE_DAEMON_PROTOCOL_VERSION_def)
qed

text \<open>
  A claim is granted exactly when all three checks hold: the key is the one derived for the session
  it names, the kernel still knows the peer as alive, and the peer's controlling terminal is the one
  of that session's shell. Granted, it shows the tool as idle at once; refused, it changes nothing.
\<close>

theorem agent_claim_admission:
  assumes "length key < 2 ^ 64" and "\<And>x. length (wd_sha256 W x) = 32"
  shows "((\<exists>v. fst (agent_claim W p key peer dm) = Ok v) \<longleftrightarrow>
       key = derive_session_key (wd_sha256 W) (dm_token dm) (cl_session_id p)
       \<and> (\<exists>a pid f sp sf. get (cl_session_id p) dm = Some a \<and> peer = Some pid \<and> wd_kernel W pid = Some f
            \<and> alive f \<and> wd_child_pid W a = Some sp \<and> wd_kernel W sp = Some sf
            \<and> has_ctty f \<and> pf_tdev f = pf_tdev sf))
     \<and> (case agent_claim W p key peer dm of
          (Ok v, dm') \<Rightarrow> \<forall>a. get (cl_session_id p) dm = Some a \<longrightarrow>
             agent_status (wd_kernel W) (dm_heap dm' a) = Some (cl_tool p @ '':idle'')
        | (Err e, dm') \<Rightarrow> dm' = dm)"
proof -
  note key = verify_session_key_ok [where W = W and dm = dm and sid = "cl_session_id p", OF assms]
  have grant: "\<exists>v. fst (agent_claim W p key peer dm) = Ok v"
    if "verify_session_key W dm (cl_session_id p) key = Ok ()" "get (cl_session_id p) dm = Some a"
      "peer = Some pid" "wd_kernel W pid = Some f" "alive f" "wd_child_pid W a = Some sp"
      "wd_kernel W sp = Some sf" "has_ctty f" "pf_tdev f = pf_tdev sf" for a pid f sp sf
    using that by (simp add: agent_claim_def Let_def)
  obtain r dm' where run: "agent_claim W p key peer dm = (r, dm')" by fastforce
  then show ?thesis
  proof (cases rule: agent_claim_cases)
    case (refused e)
    then have no: "fst (agent_claim W p key peer dm) \<noteq> Ok v" for v using run by simp
    then have "\<not> (verify_session_key W dm (cl_session_id p) key = Ok ()
       \<and> (\<exists>a pid f sp sf. get (cl_session_id p) dm = Some a \<and> peer = Some pid \<and> wd_kernel W pid = Some f
            \<and> alive f \<and> wd_child_pid W a = Some sp \<and> wd_kernel W sp = Some sf
            \<and> has_ctty f \<and> pf_tdev f = pf_tdev sf))"
      using grant by blast
    with no refused run show ?thesis unfolding key by simp
  next
    case (granted a pid f sp sf)
    let ?c = "\<lparr>ac_claim_id = new_claim_id (wd_random W), ac_tool = cl_tool p, ac_pid = pid,
          ac_start_us = pf_start_us f, ac_phase = Idle, ac_last_at_ns = 0\<rparr>"
    have "resolve (prune (wd_kernel W) cs @ [?c]) (wd_kernel W) = Some (cl_tool p @ '':idle'')" for cs
      using granted(4,5) by (simp add: resolve_def badge_def)
    then have "agent_status (wd_kernel W) (dm_heap dm' a) = Some (cl_tool p @ '':idle'')"
      using granted by (simp add: agent_status_def record_agent_claim_def)
    with granted run key show ?thesis by auto
  qed
qed

theorem agent_claim_admission_witness:
  "\<exists>v. fst (agent_claim sample_env \<lparr>cl_session_id = ''s'', cl_tool = ''codex''\<rparr>
          (derive_session_key (wd_sha256 sample_env) ''t'' ''s'') (Some 7) sample_daemon) = Ok v"
proof -
  have "length (wd_sha256 sample_env x) = 32" for x by (simp add: sample_env_def)
  note adm = agent_claim_admission [of "derive_session_key (wd_sha256 sample_env) ''t'' ''s''" sample_env
      "\<lparr>cl_session_id = ''s'', cl_tool = ''codex''\<rparr>" "Some 7" sample_daemon, OF _ this]
  have "dm_token sample_daemon = ''t''" by (simp add: sample_daemon_def new_daemon_def)
  moreover have "wd_child_pid sample_env 0 = Some 7"
    "wd_kernel sample_env 7 = Some \<lparr>pf_pid = 7, pf_start_us = 1, pf_stat = 2, pf_tdev = 5\<rparr>"
    by (simp_all add: sample_env_def)
  ultimately show ?thesis
    using adm by (simp add: sample_key_length sample_get alive_def has_ctty_def SZOMB_def NODEV_def)
qed

text \<open>
  C8. A whole agent connection, whatever it sends, changes nothing but the claims of the one session its
  key was derived for: not the session map, not the stream, not the disk, no input, no other session.
\<close>

theorem agent_connection_confined:
  fixes W :: "('p, 'v) env" and dm :: "'p daemon"
  assumes "\<forall>(V, line, wrote) \<in> set polls. wd_sha256 V = wd_sha256 W"
    and "length key < 2 ^ 64" and "\<And>x. length (wd_sha256 W x) = 32"
    and "\<And>t. get t dm \<noteq> None \<Longrightarrow> key = derive_session_key (wd_sha256 W) (dm_token dm) t \<Longrightarrow> t = sid"
  shows "let dm' = snd (run_agent polls key peer dm) in
     dm_sessions dm' = dm_sessions dm \<and> dm_hub dm' = dm_hub dm \<and> dm_disk dm' = dm_disk dm
     \<and> dm_shutdown_flag dm' = dm_shutdown_flag dm \<and> dm_checkpointer dm' = dm_checkpointer dm
     \<and> (\<forall>a. (dm_heap dm' a)\<lparr>ss_agents := []\<rparr> = (dm_heap dm a)\<lparr>ss_agents := []\<rparr>)
     \<and> (\<forall>a. get sid dm \<noteq> Some a \<longrightarrow> dm_heap dm' a = dm_heap dm a)"
proof -
  have c: "agent_confined W key dm (snd (run_agent polls key peer dm))"
    using assms(1) by (rule run_agent_confined)
  have "get sid dm = Some a" if "get t dm = Some a" "verify_session_key W dm t key = Ok ()" for t a
    using assms(4) [of t] that verify_session_key_ok [OF assms(2,3)] by auto
  with c show ?thesis unfolding agent_confined_def Let_def by blast
qed

theorem agent_connection_confined_witness:
  "dm_sessions (snd (run_agent [(sample_env, ''kill'', True), (sample_env, ''agentClaim'', True)]
      (derive_session_key (wd_sha256 sample_env) ''t'' ''s'') (Some 7) sample_daemon)) = dm_sessions sample_daemon"
proof -
  have len: "length (wd_sha256 sample_env x) = 32" for x by (simp add: sample_env_def)
  let ?polls = "[(sample_env, ''kill'', True), (sample_env, ''agentClaim'', True)]"
    and ?key = "derive_session_key (wd_sha256 sample_env) ''t'' ''s''"
  have polls: "\<forall>(V, line, wrote) \<in> set ?polls. wd_sha256 V = wd_sha256 sample_env" by simp
  have "get t sample_daemon \<noteq> None \<Longrightarrow> ?key = k \<Longrightarrow> t = ''s''" for t k
    by (simp add: sample_get split: if_splits)
  from agent_connection_confined [OF polls _ len this, where peer = "Some 7"]
  show ?thesis by (simp add: sample_key_length Let_def del: run_agent.simps)
qed

end
