(* ===== verification/DaemonSessions.thy ===== *)
theory DaemonSessions
  imports ServerProps
begin

text \<open>
  The life of sessions in the daemon of \<open>Server\<close>: a step relation with the creations in flight, so
  that a session can end, be reaped, killed or recreated between any two steps of
  \<open>rpc_create_or_attach\<close>; the invariant that an id has one running child; and what becomes of the
  history of an id that is reused.
\<close>

subsection \<open>Operations that leave identity and life alone\<close>

definition tame :: "('p session \<Rightarrow> 'p session) \<Rightarrow> bool" where
  "tame f \<longleftrightarrow> (\<forall>s. ss_id (f s) = ss_id s \<and> (ss_alive (f s) \<longrightarrow> ss_alive s))"

definition keeps_ptys :: "'p daemon \<Rightarrow> 'p daemon \<Rightarrow> bool" where
  "keeps_ptys dm dm' \<longleftrightarrow>
     dm_sessions dm' = dm_sessions dm \<and> dm_next dm' = dm_next dm
     \<and> (\<forall>a. ss_id (dm_heap dm' a) = ss_id (dm_heap dm a)
           \<and> (ss_alive (dm_heap dm' a) \<longrightarrow> ss_alive (dm_heap dm a)))"

lemma keeps_refl [simp]: "keeps_ptys dm dm"
  by (simp add: keeps_ptys_def)

lemma keeps_ptys_trans: "keeps_ptys a b \<Longrightarrow> keeps_ptys b c \<Longrightarrow> keeps_ptys a c"
  by (simp add: keeps_ptys_def)

lemma keeps_on_session: "tame f \<Longrightarrow> keeps_ptys dm (on_session a f dm)"
  by (simp add: keeps_ptys_def tame_def)

lemma keeps_fold:
  "(\<And>dm x. keeps_ptys dm (f dm x)) \<Longrightarrow> keeps_ptys dm (foldl f dm xs)"
  by (induction xs arbitrary: dm) (simp_all, meson keeps_ptys_trans)

lemma tame_ops [simp]:
  "tame kill" "tame resume_producer" "tame (clear_history T)" "tame (enqueue_write data)"
  "tame (set_background b)" "tame (snd \<circ> pause_producer)" "tame (snd \<circ> session_resize T os cols rows)"
  "tame (snd \<circ> take_bell)" "tame (record_agent_claim c K)" "tame (snd \<circ> apply_agent_event i e t n)"
  "tame (snd \<circ> warm_snapshot_json W)" "tame enable_history" "tame force_dispose" "tame (tee T p chunk)"
  "tame (\<lambda>s. fst (reader_end to_json batch wait s))"
  "tame (\<lambda>s. s\<lparr>ss_producer := fire_failsafe g (ss_producer s)\<rparr>)"
  by (auto simp: tame_def kill_def resume_producer_def clear_history_def mark_dirty_def enqueue_write_def
      set_background_def pause_producer_def session_resize_def take_bell_def record_agent_claim_def
      apply_agent_event_def warm_snapshot_json_def session_snapshot_def enable_history_def force_dispose_def
      reader_end_def emit_exit_def tee_def append_ring_def feed_emulator_def Let_def
      split: prod.split option.split result.split)

subsection \<open>The final flush\<close>

lemma build_checkpoint_source:
  "snd (build_checkpoint (addr_source T p) (a, s)) = (a, snd (session_snapshot T p default_options s))"
  by (simp add: build_checkpoint_def addr_source_def session_source_def Let_def split: prod.split option.split)

lemma persist_final_source:
  "persist J S now True e d = (out, e', d') \<Longrightarrow> en_source e' = snd (build_checkpoint S (en_source e))"
  by (auto simp: persist_def full_checkpoint_outcome_def full_checkpoint_def Let_def
      split: prod.splits result.splits)

lemma set_alist_update: "x \<in> set (AList.update k v xs) \<Longrightarrow> x = (k, v) \<or> x \<in> set xs"
  by (induction xs) (auto split: if_splits)

lemma set_alist_delete: "x \<in> set (AList.delete k xs) \<Longrightarrow> x \<in> set xs"
  by (auto simp: AList.delete_eq)

text \<open>Every entry still has the identity and at most the life of the session it was loaded from.\<close>

definition same_pty :: "(nat \<Rightarrow> 'p session) \<Rightarrow> (nat \<times> 'p session) entry \<Rightarrow> bool" where
  "same_pty h e \<longleftrightarrow> (let (a, s) = en_source e in ss_id s = ss_id (h a) \<and> (ss_alive s \<longrightarrow> ss_alive (h a)))"

definition same_ptys :: "(nat \<Rightarrow> 'p session) \<Rightarrow> (nat \<times> 'p session) checkpointer \<Rightarrow> bool" where
  "same_ptys h ck \<longleftrightarrow> (\<forall>x \<in> set (ck_sessions ck). same_pty h (snd x))"

lemma same_ptys_load: "same_ptys h (load h ck)"
  by (auto simp: same_ptys_def same_pty_def load_def map_entry_def)

lemma same_ptys_set: "same_ptys h ck \<Longrightarrow> same_pty h e \<Longrightarrow> same_ptys h (set_entry sid e ck)"
  using set_alist_update [of _ sid e "ck_sessions ck"]
  unfolding same_ptys_def set_entry_def by fastforce

lemma same_ptys_flush_session:
  assumes "same_ptys h (fst st)"
  shows "same_ptys h (fst (flush_session J (addr_source T p) now st sid))"
proof (cases "map_of (ck_sessions (fst st)) sid")
  case None
  with assms show ?thesis by (cases st) (simp add: flush_session_def)
next
  case (Some e)
  obtain a s where src: "en_source e = (a, s)" by fastforce
  obtain out e' d' where p: "persist J (addr_source T p) now True e (snd st) = (out, e', d')" by (metis prod_cases3)
  have "en_source e' = (a, snd (session_snapshot T p default_options s))"
    using persist_final_source [OF p] src by (simp add: build_checkpoint_source)
  moreover have "same_pty h e"
    using assms map_of_SomeD [OF Some] unfolding same_ptys_def by force
  ultimately have "same_pty h e'"
    using src by (simp add: same_pty_def session_snapshot_def split: option.split)
  moreover have "fst (flush_session J (addr_source T p) now st sid) = set_entry sid e' (fst st)"
    using Some p by (cases st) (simp add: flush_session_def)
  ultimately show ?thesis using assms by (simp add: same_ptys_set)
qed

lemma same_ptys_flush:
  assumes "same_ptys h (fst st)"
  shows "same_ptys h (fst (flush_all J (addr_source T p) now st))"
proof -
  have "same_ptys h (fst (foldl (flush_session J (addr_source T p) now) st ids))" for ids
    using assms by (induction ids arbitrary: st) (simp_all add: same_ptys_flush_session)
  then show ?thesis
    by (simp add: flush_all_def Let_def same_ptys_def split: prod.split) (metis fst_conv)
qed

lemma store_cases:
  "store ck h a = h a \<or> (\<exists>x \<in> set (ck_sessions ck). en_source (snd x) = (a, store ck h a))"
proof -
  have "foldl (\<lambda>h (i, e). h(fst (en_source e) := snd (en_source e))) h es a = h a
      \<or> (\<exists>x \<in> set es. en_source (snd x)
           = (a, foldl (\<lambda>h (i, e). h(fst (en_source e) := snd (en_source e))) h es a))" for es
  proof (induction es arbitrary: h)
    case (Cons x es)
    obtain i e where "x = (i, e)" by (cases x)
    with Cons.IH [of "h(fst (en_source e) := snd (en_source e))"] show ?case by (auto split: if_splits)
  qed simp
  then show ?thesis by (simp add: store_def)
qed

lemma keeps_flush: "keeps_ptys dm (flush_history_unclean W dm)"
proof -
  obtain ck d where f: "flush_all (wd_codec W) (addr_source (wd_vt W) (wd_panics W)) (wd_now W)
      (load (dm_heap dm) (dm_checkpointer dm), dm_disk dm) = (ck, d)" by fastforce
  have same: "same_ptys (dm_heap dm) ck"
    using same_ptys_flush [of "dm_heap dm" "(load (dm_heap dm) (dm_checkpointer dm), dm_disk dm)"
        "wd_codec W" "wd_vt W" "wd_panics W" "wd_now W"] f
    by (simp add: same_ptys_load)
  have "ss_id (store ck (dm_heap dm) a) = ss_id (dm_heap dm a)
      \<and> (ss_alive (store ck (dm_heap dm) a) \<longrightarrow> ss_alive (dm_heap dm a))" for a
    using store_cases [of ck "dm_heap dm" a] same unfolding same_ptys_def same_pty_def by fastforce
  then show ?thesis
    by (simp add: keeps_ptys_def flush_history_unclean_def with_checkpointer_def f)
qed

lemma keeps_close: "keeps_ptys dm (close_history W sid code dm)"
  by (simp add: keeps_ptys_def close_history_def split: prod.split)

subsection \<open>Requests, notifies and agent calls\<close>

lemma keeps_poll: "keeps_ptys dm (snd (rpc_poll_bells W dm))"
proof -
  have "keeps_ptys dm (snd (foldl (poll_one W) (es, dm) as))" for es "as"
    by (induction "as" arbitrary: es dm)
      (simp_all add: poll_one_def Let_def, meson keeps_on_session keeps_ptys_trans tame_ops)
  then show ?thesis by (simp add: rpc_poll_bells_def)
qed

lemma keeps_shutdown: "keeps_ptys dm (shutdown_history W dm)"
  unfolding shutdown_history_def Let_def
  by (rule keeps_ptys_trans [OF keeps_flush]) (rule keeps_fold, rule keeps_close)

lemma keeps_kill_all: "keeps_ptys dm (kill_all_sessions dm)" "keeps_ptys dm (resume_all_producers dm)"
  unfolding kill_all_sessions_def resume_all_producers_def
  by (rule keeps_fold, rule keeps_on_session, simp)+

lemma keeps_named:
  assumes "\<And>a. keeps_ptys dm (snd (f a))"
  shows "keeps_ptys dm (snd (named_session W params dm f))"
  using assms by (simp add: named_session_def split: result.split option.split prod.split) (metis snd_conv)

lemma keeps_kill: "keeps_ptys dm (rpc_kill W sid dm)"
  unfolding rpc_kill_def
  by (rule keeps_ptys_trans [OF _ keeps_close]) (simp add: keeps_on_session split: option.split)

lemma keeps_if:
  "(b \<Longrightarrow> keeps_ptys dm (snd x)) \<Longrightarrow> (\<not> b \<Longrightarrow> keeps_ptys dm (snd y)) \<Longrightarrow>
   keeps_ptys dm (snd (if b then x else y))"
  by simp

lemma keeps_request:
  assumes "m \<noteq> ''createOrAttach''"
  shows "keeps_ptys dm (snd (dispatch_rpc W m params dm))"
proof -
  have "keeps_ptys dm (trigger_shutdown (if b then kill_all_sessions (shutdown_history W dm) else shutdown_history W dm))" for b
    using keeps_ptys_trans [OF keeps_shutdown keeps_kill_all(1)] keeps_shutdown
    by (cases b) (simp_all add: keeps_ptys_def trigger_shutdown_def)
  moreover have "keeps_ptys dm (snd (case warm_snapshot W a dm of (r, dm) \<Rightarrow> (f r, dm)))" for a and f :: "warm_reply \<Rightarrow> rpc_value"
    by (simp add: warm_snapshot_def keeps_on_session)
  moreover have "keeps_ptys dm (snd (case rpc_poll_bells W dm of (es, dm) \<Rightarrow> (f es, dm)))" for f :: "bell_event list \<Rightarrow> (rpc_value, rpc_error) result option"
    using keeps_poll [of dm W] by (simp add: split_beta)
  ultimately show ?thesis
    unfolding dispatch_rpc_def Let_def using assms
    by (intro keeps_if keeps_named)
      (simp_all add: keeps_kill keeps_flush keeps_on_session split: result.split)
qed

lemma keeps_notify: "keeps_ptys dm (dispatch_notify W m params dm)"
proof -
  have "keeps_ptys dm (on_named W params f dm)" if "tame f" for f
    using that by (simp add: on_named_def keeps_on_session split: option.split)
  then show ?thesis by (simp add: dispatch_notify_def Let_def split: option.split)
qed

lemma keeps_agent: "keeps_ptys dm (snd (dispatch_agent_rpc W m params key peer dm))"
proof -
  have "keeps_ptys dm dm'" if "agent_claim W p key peer dm = (r, dm')" for p r dm'
    using that by (cases rule: agent_claim_cases) (simp_all add: keeps_on_session)
  moreover have "keeps_ptys dm dm'" if "agent_event W p key dm = (r, dm')" for p r dm'
    using that by (cases rule: agent_event_cases) (simp_all add: keeps_on_session)
  ultimately show ?thesis
    by (auto simp: dispatch_agent_rpc_def split: result.split) (metis prod.collapse)+
qed

subsection \<open>Creations in flight\<close>

text \<open>
  \<open>E\<close> are the environments a step may run in: the outcomes of system calls, the clock and the
  processes vary from step to step.
\<close>

text \<open>Where a \<open>createOrAttach\<close> that won the reservation stands.\<close>

datatype creation = Reserved | Spawned nat | Registered nat

type_synonym 'p world = "'p daemon \<times> (string \<Rightarrow> creation option)"

inductive daemon_step :: "('p, 'v) env set \<Rightarrow> 'p world \<Rightarrow> 'p world \<Rightarrow> bool"
  for E :: "('p, 'v) env set" where
  reserve: "W \<in> E \<Longrightarrow> resolve_slot sid dm = (Spawn, dm1) \<Longrightarrow> probe_cold W sid dm1 = (cold, dm2) \<Longrightarrow>
    daemon_step E (dm, cr) (dm2, cr(sid \<mapsto> Reserved))"
| spawned: "W \<in> E \<Longrightarrow> cr sid = Some Reserved \<Longrightarrow> alloc_session W sid cols rows cap dm = (a, dm1) \<Longrightarrow>
    daemon_step E (dm, cr) (dm1, cr(sid \<mapsto> Spawned a))"
| spawn_failed: "cr sid = Some Reserved \<Longrightarrow> daemon_step E (dm, cr) (remove_slot sid dm, cr(sid := None))"
| registered: "W \<in> E \<Longrightarrow> cr sid = Some (Spawned a) \<Longrightarrow>
    register_history W a cwd cols rows cold dm = (persisted, dm1) \<Longrightarrow>
    daemon_step E (dm, cr) (dm1, cr(sid \<mapsto> Registered a))"
| installed: "cr sid = Some (Registered a) \<Longrightarrow>
    daemon_step E (dm, cr) (set_slot sid (Live a) dm, cr(sid := None))"
| attached: "W \<in> E \<Longrightarrow> resolve_slot sid dm = (Attach, dm) \<Longrightarrow> get sid dm = Some a \<Longrightarrow>
    daemon_step E (dm, cr) (snd (warm_snapshot W a dm), cr)"
| request: "W \<in> E \<Longrightarrow> m \<noteq> ''createOrAttach'' \<Longrightarrow> dispatch_rpc W m params dm = (r, dm1) \<Longrightarrow>
    daemon_step E (dm, cr) (dm1, cr)"
| notify: "W \<in> E \<Longrightarrow> daemon_step E (dm, cr) (dispatch_notify W m params dm, cr)"
| agent: "W \<in> E \<Longrightarrow> dispatch_agent_rpc W m params key peer dm = (r, dm1) \<Longrightarrow>
    daemon_step E (dm, cr) (dm1, cr)"
| disconnect: "W \<in> E \<Longrightarrow> daemon_step E (dm, cr) (flush_history_unclean W dm, cr)"
| stream_on: "stream_open c dm = (g, dm1) \<Longrightarrow> daemon_step E (dm, cr) (dm1, cr)"
| stream_off: "daemon_step E (dm, cr) (stream_close g dm, cr)"
| produced: "ss_alive (dm_heap dm a) \<Longrightarrow> a < dm_next dm \<Longrightarrow>
    daemon_step E (dm, cr) (on_session a (tee T panics chunk) dm, cr)"
| failsafe: "daemon_step E (dm, cr) (on_session a (\<lambda>s. s\<lparr>ss_producer := fire_failsafe n (ss_producer s)\<rparr>) dm, cr)"
| watchdog: "daemon_step E (dm, cr) (on_session a force_dispose dm, cr)"
| ended: "ss_alive (dm_heap dm a) \<Longrightarrow> a < dm_next dm \<Longrightarrow>
    reader_end to_json batch wait (dm_heap dm a) = (s, frames, code) \<Longrightarrow>
    daemon_step E (dm, cr)
      (hub_emit_all frames (on_session a (\<lambda>s. fst (reader_end to_json batch wait s)) dm), cr)"
| closed: "W \<in> E \<Longrightarrow> \<not> ss_alive (dm_heap dm a) \<Longrightarrow> a < dm_next dm \<Longrightarrow>
    daemon_step E (dm, cr) (close_history W (ss_id (dm_heap dm a)) code dm, cr)"
| reaped: "\<not> ss_alive (dm_heap dm a) \<Longrightarrow> a < dm_next dm \<Longrightarrow>
    daemon_step E (dm, cr) (reap (ss_id (dm_heap dm a)) a dm, cr)"

definition daemon_start :: "'p world \<Rightarrow> bool" where
  "daemon_start w \<longleftrightarrow> (\<exists>token d blank. w = (new_daemon token d blank, \<lambda>_. None))"

text \<open>The session a creation holds.\<close>

definition holds :: "creation option \<Rightarrow> nat \<Rightarrow> bool" where
  "holds c a \<longleftrightarrow> c = Some (Spawned a) \<or> c = Some (Registered a)"

lemma holds_simps [simp]: "\<not> holds None a" "\<not> holds (Some Reserved) a"
  "holds (Some (Spawned b)) a \<longleftrightarrow> b = a" "holds (Some (Registered b)) a \<longleftrightarrow> b = a"
  by (auto simp: holds_def)

text \<open>
  A reservation in the map is a creation in flight; a slot or a creation holds a session of its own
  id; and a running session is held by one of the two.
\<close>

definition one_pty :: "'p world \<Rightarrow> bool" where
  "one_pty w \<longleftrightarrow> (let (dm, cr) = w in
     (\<forall>sid. map_of (dm_sessions dm) sid = Some Pending \<longleftrightarrow> cr sid \<noteq> None)
     \<and> (\<forall>sid a. get sid dm = Some a \<or> holds (cr sid) a \<longrightarrow> a < dm_next dm \<and> ss_id (dm_heap dm a) = sid)
     \<and> (\<forall>a < dm_next dm. ss_alive (dm_heap dm a) \<longrightarrow>
           get (ss_id (dm_heap dm a)) dm = Some a \<or> holds (cr (ss_id (dm_heap dm a))) a))"

lemma one_ptyI:
  assumes "\<And>sid. map_of (dm_sessions dm) sid = Some Pending \<longleftrightarrow> cr sid \<noteq> None"
    and "\<And>sid a. get sid dm = Some a \<or> holds (cr sid) a \<Longrightarrow> a < dm_next dm \<and> ss_id (dm_heap dm a) = sid"
    and "\<And>a. a < dm_next dm \<Longrightarrow> ss_alive (dm_heap dm a) \<Longrightarrow>
      get (ss_id (dm_heap dm a)) dm = Some a \<or> holds (cr (ss_id (dm_heap dm a))) a"
  shows "one_pty (dm, cr)"
  unfolding one_pty_def Let_def prod.case using assms by blast

lemma one_ptyD:
  assumes "one_pty (dm, cr)"
  shows "map_of (dm_sessions dm) sid = Some Pending \<longleftrightarrow> cr sid \<noteq> None"
    and "get sid dm = Some a \<or> holds (cr sid) a \<Longrightarrow> a < dm_next dm \<and> ss_id (dm_heap dm a) = sid"
    and "a < dm_next dm \<Longrightarrow> ss_alive (dm_heap dm a) \<Longrightarrow>
      get (ss_id (dm_heap dm a)) dm = Some a \<or> holds (cr (ss_id (dm_heap dm a))) a"
  using assms [unfolded one_pty_def Let_def prod.case] by (blast, blast, blast)

lemma get_Live: "get sid dm = Some a \<longleftrightarrow> map_of (dm_sessions dm) sid = Some (Live a)"
  by (simp add: get_def split: option.split session_slot.split)

lemma pending_no_get: "map_of (dm_sessions dm) sid = Some Pending \<Longrightarrow> get sid dm = None"
  by (simp add: get_def)

lemma one_pty_keeps:
  assumes "one_pty (dm, cr)" and "keeps_ptys dm dm'"
  shows "one_pty (dm', cr)"
proof -
  have "get sid dm' = get sid dm" for sid using assms(2) by (simp add: keeps_ptys_def get_def)
  with assms(2) show ?thesis
    using one_ptyD [OF assms(1)] by (intro one_ptyI) (simp_all add: keeps_ptys_def)
qed

lemma one_pty_advance:
  assumes "one_pty (dm, cr)" and "cr sid = Some (Spawned a)"
  shows "one_pty (dm, cr(sid \<mapsto> Registered a))"
proof -
  have "holds ((cr(sid \<mapsto> Registered a)) t) b = holds (cr t) b" for t b using assms(2) by simp
  then show ?thesis
    using one_ptyD [OF assms(1)] assms(2) by (intro one_ptyI) (simp_all del: fun_upd_apply, simp)
qed

lemma slot_lookups [simp]:
  "map_of (dm_sessions (set_slot sid x dm)) t = (if t = sid then Some x else map_of (dm_sessions dm) t)"
  "map_of (dm_sessions (remove_slot sid dm)) t = (if t = sid then None else map_of (dm_sessions dm) t)"
  "dm_heap (set_slot sid x dm) = dm_heap dm" "dm_heap (remove_slot sid dm) = dm_heap dm"
  "dm_next (set_slot sid x dm) = dm_next dm" "dm_next (remove_slot sid dm) = dm_next dm"
  "dm_checkpointer (set_slot sid x dm) = dm_checkpointer dm" "dm_disk (set_slot sid x dm) = dm_disk dm"
  by (simp_all add: set_slot_def remove_slot_def update_conv' delete_conv')

lemma get_set_slot [simp]:
  "get t (set_slot sid x dm) = (if t = sid then (case x of Live a \<Rightarrow> Some a | Pending \<Rightarrow> None) else get t dm)"
  "get t (remove_slot sid dm) = (if t = sid then None else get t dm)"
  by (simp_all add: get_def split: session_slot.split)

lemma one_pty_reserve:
  assumes "one_pty (dm, cr)" and "resolve_slot sid dm = (Spawn, dm1)"
  shows "one_pty (dm1, cr(sid \<mapsto> Reserved))"
proof -
  have dm1: "dm1 = set_slot sid Pending dm"
    and free: "map_of (dm_sessions dm) sid \<noteq> Some Pending"
      "\<And>a. map_of (dm_sessions dm) sid = Some (Live a) \<Longrightarrow> \<not> ss_alive (dm_heap dm a)"
    using assms(2) by (auto simp: resolve_slot_def split: option.splits session_slot.splits if_splits)
  have none: "cr sid = None" using one_ptyD(1) [OF assms(1)] free(1) by blast
  have dead: "\<not> ss_alive (dm_heap dm a)" if "get sid dm = Some a" for a
    using that free(2) by (simp add: get_Live)
  show ?thesis
    unfolding dm1
  proof (rule one_ptyI)
    fix t show "map_of (dm_sessions (set_slot sid Pending dm)) t = Some Pending \<longleftrightarrow> (cr(sid \<mapsto> Reserved)) t \<noteq> None"
      using one_ptyD(1) [OF assms(1), of t] by simp
  next
    fix t a assume "get t (set_slot sid Pending dm) = Some a \<or> holds ((cr(sid \<mapsto> Reserved)) t) a"
    then have "get t dm = Some a \<or> holds (cr t) a" by (simp split: if_splits)
    then show "a < dm_next (set_slot sid Pending dm) \<and> ss_id (dm_heap (set_slot sid Pending dm) a) = t"
      using one_ptyD(2) [OF assms(1)] by simp
  next
    fix a assume "a < dm_next (set_slot sid Pending dm)" "ss_alive (dm_heap (set_slot sid Pending dm) a)"
    then have "ss_alive (dm_heap dm a)" "get (ss_id (dm_heap dm a)) dm = Some a \<or> holds (cr (ss_id (dm_heap dm a))) a"
      using one_ptyD(3) [OF assms(1)] by simp_all
    then show "get (ss_id (dm_heap (set_slot sid Pending dm) a)) (set_slot sid Pending dm) = Some a
        \<or> holds ((cr(sid \<mapsto> Reserved)) (ss_id (dm_heap (set_slot sid Pending dm) a))) a"
      using dead none by auto
  qed
qed

lemma keeps_probe: "keeps_ptys dm (snd (probe_cold W sid dm))"
  by (simp add: keeps_ptys_def probe_cold_def Let_def split: prod.split result.split)

lemma keeps_register: "keeps_ptys dm (snd (register_history W a cwd cols rows cold dm))"
proof -
  have "keeps_ptys dm (on_session a enable_history (dm\<lparr>dm_checkpointer := ck, dm_disk := d\<rparr>))"
    "keeps_ptys dm (dm\<lparr>dm_checkpointer := ck, dm_disk := d\<rparr>)" for ck d
    using keeps_on_session [OF tame_ops(12), of "dm\<lparr>dm_checkpointer := ck, dm_disk := d\<rparr>" a]
    by (simp_all add: keeps_ptys_def)
  then show ?thesis
    by (simp add: register_history_def Let_def split: prod.split)
qed

lemma one_pty_spawn:
  assumes "one_pty (dm, cr)" and "cr sid = Some Reserved" and "alloc_session W sid cols rows cap dm = (a, dm1)"
  shows "one_pty (dm1, cr(sid \<mapsto> Spawned a))"
proof -
  define s where "s = (case cap of Some c \<Rightarrow> spawn_with_ring_cap (wd_vt W) sid cols rows c
      | None \<Rightarrow> spawn (wd_vt W) sid cols rows)"
  have s: "ss_id s = sid"
    by (simp add: s_def spawn_def spawn_with_ring_cap_def split: option.split)
  have a: "a = dm_next dm"
    and dm1: "dm1 = dm\<lparr>dm_heap := (dm_heap dm)(dm_next dm := s), dm_next := Suc (dm_next dm)\<rparr>"
    using assms(3) by (auto simp: alloc_session_def Let_def s_def)
  have get: "get t dm1 = get t dm" for t by (simp add: dm1 get_def)
  have old: "get t dm = Some b \<or> holds (cr t) b \<Longrightarrow> b < dm_next dm \<and> ss_id (dm_heap dm b) = t" for t b
    by (rule one_ptyD(2) [OF assms(1)])
  have none: "get sid dm = None"
    using one_ptyD(1) [OF assms(1), of sid] assms(2) by (simp add: pending_no_get)
  have heap: "b < dm_next dm \<Longrightarrow> dm_heap dm1 b = dm_heap dm b" "dm_heap dm1 a = s"
    "dm_next dm1 = Suc a" "dm_sessions dm1 = dm_sessions dm" for b
    by (simp_all add: dm1 a)
  have c1: "map_of (dm_sessions dm1) t = Some Pending \<longleftrightarrow> (cr(sid \<mapsto> Spawned a)) t \<noteq> None" for t
    using one_ptyD(1) [OF assms(1), of t] assms(2) by (simp add: heap)
  have c2: "b < dm_next dm1 \<and> ss_id (dm_heap dm1 b) = t"
    if "get t dm1 = Some b \<or> holds ((cr(sid \<mapsto> Spawned a)) t) b" for t b
  proof (cases "t = sid \<and> b = a")
    case True
    with s show ?thesis by (simp add: heap)
  next
    case False
    then have "get t dm = Some b \<or> holds (cr t) b"
      using that none by (auto simp: get split: if_splits)
    then show ?thesis using old [of t b] heap(1) by (simp add: heap(3) a)
  qed
  have c3: "get (ss_id (dm_heap dm1 b)) dm1 = Some b
      \<or> holds ((cr(sid \<mapsto> Spawned a)) (ss_id (dm_heap dm1 b))) b"
    if "b < dm_next dm1" "ss_alive (dm_heap dm1 b)" for b
  proof (cases "b = a")
    case True
    with s show ?thesis by (simp add: heap)
  next
    case False
    then have b: "b < dm_next dm" using that(1) by (simp add: heap a)
    then have "get (ss_id (dm_heap dm b)) dm = Some b \<or> holds (cr (ss_id (dm_heap dm b))) b"
      using one_ptyD(3) [OF assms(1)] that(2) by (simp add: heap(1))
    then show ?thesis using b assms(2) by (auto simp: heap(1) get)
  qed
  from c1 c2 c3 show ?thesis by (rule one_ptyI)
qed

lemma keeps_hub [simp]: "keeps_ptys dm (dm'\<lparr>dm_hub := h\<rparr>) \<longleftrightarrow> keeps_ptys dm dm'"
  by (simp add: keeps_ptys_def)

text \<open>
  A slot that changes for the only session it or its creation can hold, or to nothing when that
  session is dead.
\<close>

lemma one_pty_settle:
  assumes "one_pty (dm, cr)" and "\<And>t. t \<noteq> sid \<Longrightarrow> map_of (dm_sessions dm') t = map_of (dm_sessions dm) t"
    and "dm_heap dm' = dm_heap dm" "dm_next dm' = dm_next dm"
    and "map_of (dm_sessions dm') sid \<noteq> Some Pending"
    and "\<And>a. get sid dm' = Some a \<Longrightarrow> get sid dm = Some a \<or> holds (cr sid) a"
    and "\<And>a. get sid dm = Some a \<or> holds (cr sid) a \<Longrightarrow> ss_alive (dm_heap dm a) \<Longrightarrow> get sid dm' = Some a"
  shows "one_pty (dm', cr(sid := None))"
proof (rule one_ptyI)
  have get: "t \<noteq> sid \<Longrightarrow> get t dm' = get t dm" for t using assms(2) by (simp add: get_def)
  show "map_of (dm_sessions dm') t = Some Pending \<longleftrightarrow> (cr(sid := None)) t \<noteq> None" for t
    using one_ptyD(1) [OF assms(1), of t] assms(2,5) by (cases "t = sid") simp_all
  show "a < dm_next dm' \<and> ss_id (dm_heap dm' a) = t"
    if "get t dm' = Some a \<or> holds ((cr(sid := None)) t) a" for t a
    using that one_ptyD(2) [OF assms(1), of t a] assms(3,4,6) get by (cases "t = sid") auto
  show "get (ss_id (dm_heap dm' a)) dm' = Some a \<or> holds ((cr(sid := None)) (ss_id (dm_heap dm' a))) a"
    if "a < dm_next dm'" "ss_alive (dm_heap dm' a)" for a
    using one_ptyD(3) [OF assms(1), of a] that assms(3,4,7) get
    by (cases "ss_id (dm_heap dm a) = sid") auto
qed

lemma one_pty_install:
  assumes "one_pty (dm, cr)" and "cr sid = Some (Registered a)"
  shows "one_pty (set_slot sid (Live a) dm, cr(sid := None))"
  using assms one_ptyD(1) [OF assms(1), of sid]
  by (intro one_pty_settle [OF assms(1)]) (auto simp: pending_no_get split: if_splits)

lemma one_pty_cancel:
  assumes "one_pty (dm, cr)" and "cr sid = Some Reserved"
  shows "one_pty (remove_slot sid dm, cr(sid := None))"
  using assms one_ptyD(1) [OF assms(1), of sid]
  by (intro one_pty_settle [OF assms(1)]) (auto simp: pending_no_get)

lemma one_pty_reap:
  assumes "one_pty (dm, cr)" and "\<not> ss_alive (dm_heap dm a)"
  shows "one_pty (reap sid a dm, cr)"
proof (cases "get sid dm = Some a")
  case True
  then have "reap sid a dm = remove_slot sid dm" by (simp add: reap_def get_Live)
  moreover have none: "cr sid = None" using True one_ptyD(1) [OF assms(1), of sid] by (simp add: get_Live)
  have "one_pty (remove_slot sid dm, cr(sid := None))"
    using True none assms(2) by (intro one_pty_settle [OF assms(1)]) auto
  moreover have "cr(sid := None) = cr" using none by auto
  ultimately show ?thesis by simp
next
  case False
  then have "reap sid a dm = dm"
    by (simp add: reap_def get_Live split: option.split session_slot.split)
  with assms show ?thesis by simp
qed

lemma one_pty_step:
  assumes "daemon_step E w w'" and "one_pty w"
  shows "one_pty w'"
  using assms
proof (induction rule: daemon_step.induct)
  case (reserve W sid dm dm1 cold dm2 cr)
  then have "one_pty (dm1, cr(sid \<mapsto> Reserved))" by (simp add: one_pty_reserve)
  moreover have "keeps_ptys dm1 dm2" using keeps_probe [of dm1 W sid] reserve(3) by simp
  ultimately show ?case by (rule one_pty_keeps)
next
  case (registered W cr sid a cwd cols rows cold dm p dm1)
  then have "keeps_ptys dm dm1" using keeps_register [of dm W a cwd cols rows cold] by simp
  then have "one_pty (dm1, cr)" by (rule one_pty_keeps [OF registered.prems])
  then show ?case using registered by (simp add: one_pty_advance)
next
  case (request W m params dm r dm1 cr)
  then have "keeps_ptys dm dm1" using keeps_request [of m dm W params] by simp
  then show ?case by (rule one_pty_keeps [OF request.prems])
next
  case (agent W m params key peer dm r dm1 cr)
  then have "keeps_ptys dm dm1" using keeps_agent [of dm W m params key peer] by simp
  then show ?case by (rule one_pty_keeps [OF agent.prems])
next
  case (attached W sid dm a cr)
  have "keeps_ptys dm (snd (warm_snapshot W a dm))" by (simp add: warm_snapshot_def keeps_on_session)
  then show ?case by (rule one_pty_keeps [OF attached.prems])
next
  case (stream_on c dm g dm1 cr)
  then have "keeps_ptys dm dm1" by (auto simp: stream_open_def hub_set_def Let_def)
  then show ?case by (rule one_pty_keeps [OF stream_on.prems])
next
  case (stream_off dm cr g)
  have "keeps_ptys dm (resume_all_producers (dm\<lparr>dm_hub := h\<rparr>))" for h
    by (rule keeps_ptys_trans [OF _ keeps_kill_all(2)]) simp
  then have "keeps_ptys dm (stream_close g dm)"
    by (simp add: stream_close_def Let_def split: prod.split)
  then show ?case by (rule one_pty_keeps [OF stream_off.prems])
next
  case (ended dm a to_json batch wait s frames code cr)
  have "keeps_ptys dm (hub_emit_all frames (on_session a (\<lambda>s. fst (reader_end to_json batch wait s)) dm))"
    by (simp add: hub_emit_all_def keeps_on_session)
  then show ?case by (rule one_pty_keeps [OF ended.prems])
next
  case (produced dm a cr T panics chunk)
  then show ?case by (blast intro: one_pty_keeps keeps_on_session tame_ops)
next
  case (failsafe dm cr a n)
  then show ?case by (blast intro: one_pty_keeps keeps_on_session tame_ops)
next
  case (watchdog dm cr a)
  then show ?case by (blast intro: one_pty_keeps keeps_on_session tame_ops)
next
  case (notify W dm cr m params)
  then show ?case by (blast intro: one_pty_keeps keeps_notify)
next
  case (disconnect W dm cr)
  then show ?case by (blast intro: one_pty_keeps keeps_flush)
next
  case (closed W dm a cr code)
  then show ?case by (blast intro: one_pty_keeps keeps_close)
qed (simp_all add: one_pty_spawn one_pty_cancel one_pty_install one_pty_reap)

lemma one_pty_start: "daemon_start w \<Longrightarrow> one_pty w"
  by (auto simp: daemon_start_def one_pty_def new_daemon_def get_def)

interpretation sessions: invariant_system daemon_start "daemon_step E" one_pty for E
  by standard (auto intro: one_pty_start one_pty_step)

subsection \<open>The registry after an operation\<close>

lemma map_of_entries: "map_of (map (map_prod (\<lambda>i. i) f) xs) k = map_option f (map_of xs k)"
  by (induction xs) auto

lemma unload_lookup:
  "map_of (ck_sessions (unload ck)) sid = map_option (map_entry fst) (map_of (ck_sessions ck) sid)"
  by (simp add: unload_def map_of_entries)

lemma load_lookup:
  "map_of (ck_sessions (load h ck)) sid = map_option (map_entry (\<lambda>a. (a, h a))) (map_of (ck_sessions ck) sid)"
  by (simp add: load_def map_of_entries)

lemma insert_lookup:
  "map_of (ck_sessions (insert_entry sid src w ck)) t
   = (if t = sid then Some \<lparr>en_source = src, en_writer = w, en_inflight = False\<rparr> else map_of (ck_sessions ck) t)"
  by (simp add: insert_entry_def update_conv')

lemma unload_load [simp]: "unload (load h ck) = ck"
  by (cases ck) (auto simp: unload_def load_def map_entry_def comp_def map_prod_def case_prod_beta intro: map_idI)

lemma addr_id [simp]: "src_session_id (addr_source T p) (a, s) = ss_id s"
  by (simp add: addr_source_def session_source_def Let_def)

lemma register_history_result:
  assumes "register_history W a cwd cols rows cold dm = (persisted, dm')"
  shows "dm_sessions dm' = dm_sessions dm \<and> dm_next dm' = dm_next dm
     \<and> (persisted \<longrightarrow> ss_history_enabled (dm_heap dm' a)
          \<and> (\<exists>e. map_of (ck_sessions (dm_checkpointer dm')) (ss_id (dm_heap dm a)) = Some e \<and> en_source e = a))
     \<and> (\<not> persisted \<longrightarrow> dm_heap dm' = dm_heap dm \<and> dm_checkpointer dm' = dm_checkpointer dm)"
proof -
  let ?S = "addr_source (wd_vt W) (wd_panics W)" and ?src = "(a, dm_heap dm a)"
  let ?ck = "load (dm_heap dm) (dm_checkpointer dm)" and ?id = "ss_id (dm_heap dm a)"
  obtain r ck d where out: "(if cold then reopen_session (wd_codec W) ?S ?src ?ck (dm_disk dm)
      else ck_open_session (wd_codec W) ?S ?src (new_meta (wd_now W) (Some cwd) cols rows) ?ck (dm_disk dm)) = (r, ck, d)"
    by (metis prod_cases3)
  have dm': "(persisted, dm') = (if is_ok r
      then (True, on_session a enable_history (dm\<lparr>dm_checkpointer := unload ck, dm_disk := d\<rparr>))
      else (False, dm\<lparr>dm_checkpointer := unload ck, dm_disk := d\<rparr>))"
    using assms out by (simp add: register_history_def Let_def)
  have ins: "is_ok r \<longrightarrow> (\<exists>w. ck = mark_session_dirty ?id (insert_entry ?id ?src w ?ck))"
    and err: "\<not> is_ok r \<longrightarrow> ck = ?ck"
    using out
    by (auto simp: ck_open_session_def reopen_session_def Let_def split: if_splits prod.splits result.splits)
  show ?thesis
  proof (cases "is_ok r")
    case True
    then obtain w where ck: "ck = mark_session_dirty ?id (insert_entry ?id ?src w ?ck)" using ins by blast
    have "dm_checkpointer dm' = unload ck" "persisted"
      using dm' True by (auto simp: on_session_def enable_history_def Let_def)
    moreover have "map_of (ck_sessions (unload ck)) ?id = Some \<lparr>en_source = a, en_writer = w, en_inflight = False\<rparr>"
      by (simp add: ck unload_lookup insert_lookup map_entry_def)
    ultimately show ?thesis using dm' True by (auto simp: enable_history_def)
  next
    case False
    then show ?thesis using dm' err by simp
  qed
qed

lemma register_refused:
  assumes "ss_id (dm_heap dm a) = sid" and "percent_encode sid \<in> set (dk_locks (dm_disk dm))"
    and "dk_files (dm_disk dm) (percent_encode sid, OWNER_LOCK) \<noteq> None"
  shows "fst (register_history W a cwd cols rows cold dm) = False"
proof -
  obtain r1 d1 where s: "fs_sync (dm_disk dm) = (r1, d1)" by fastforce
  have "dk_locks d1 = dk_locks (dm_disk dm)" "dk_files d1 = dk_files (dm_disk dm)"
    using s by (auto simp: fs_sync_def io_step_def split: nat.splits option.splits)
  then have "acquire (percent_encode sid) d1 = (Err OwnedElsewhere, d1)"
    using acquire_held [of "percent_encode sid" d1] assms by simp
  then show ?thesis
    using s assms(1)
    by (cases r1) (auto simp: register_history_def ck_open_session_def reopen_session_def open_session_def
        register_writer_def Let_def split: if_splits)
qed

lemma probe_refused:
  assumes "percent_encode sid \<in> set (dk_locks (dm_disk dm))"
    and "dk_files (dm_disk dm) (percent_encode sid, OWNER_LOCK) \<noteq> None"
  shows "probe_cold W sid dm = (None, dm)"
  using acquire_held [OF assms] by (simp add: probe_cold_def Let_def)

lemma mark_unregistered:
  "map_of (ck_sessions ck) sid = None \<Longrightarrow> (mark_session_dirty sid ^^ n) ck = ck"
  by (induction n) (simp_all add: mark_session_dirty_def)

lemma alloc_session_result:
  assumes "alloc_session W sid cols rows cap dm = (a, dm')"
  shows "a = dm_next dm" "ss_id (dm_heap dm' a) = sid" "\<not> ss_history_enabled (dm_heap dm' a)"
    "ss_alive (dm_heap dm' a)" "dm_disk dm' = dm_disk dm" "dm_checkpointer dm' = dm_checkpointer dm"
    "dm_sessions dm' = dm_sessions dm"
  using assms
  by (auto simp: alloc_session_def Let_def spawn_def spawn_with_ring_cap_def split: option.splits)

subsection \<open>Properties\<close>

text \<open>
  C2. An id has at most one running child, in every interleaving of creations, attaches, kills, exits,
  reaps and disconnects: two sessions of the same id that are both alive are the same session.
\<close>

theorem one_live_pty_per_id:
  assumes "daemon_start w" and "(daemon_step E)\<^sup>*\<^sup>* w (dm, cr)"
    and "a < dm_next dm" and "b < dm_next dm"
    and "ss_alive (dm_heap dm a)" and "ss_alive (dm_heap dm b)"
    and "ss_id (dm_heap dm a) = ss_id (dm_heap dm b)"
  shows "a = b"
proof -
  have inv: "one_pty (dm, cr)" using assms(1,2) by (rule sessions.inv_reachable)
  let ?sid = "ss_id (dm_heap dm b)"
  have ha: "get ?sid dm = Some a \<or> holds (cr ?sid) a" and hb: "get ?sid dm = Some b \<or> holds (cr ?sid) b"
    using one_ptyD(3) [OF inv assms(3,5)] one_ptyD(3) [OF inv assms(4,6)] assms(7) by simp_all
  have "cr ?sid = None" if "get ?sid dm = Some c" for c
    using one_ptyD(1) [OF inv, of ?sid] that by (simp add: get_Live)
  with ha hb show ?thesis by (auto simp: holds_def)
qed

text \<open>
  The cold-restore payload is handed out only by the owner of the history: when a create answers with
  it, the new session is in the map, its history is on, the checkpointer holds its writer, and the
  payload is what the probe read from disk.
\<close>

theorem cold_payload_only_when_owned:
  assumes "create_turn W sid cwd cols rows cap dm = (Some (Ok (RCold payload)), dm')"
  shows "\<exists>a e cold. get sid dm' = Some a \<and> a = dm_next dm \<and> ss_history_enabled (dm_heap dm' a)
     \<and> map_of (ck_sessions (dm_checkpointer dm')) sid = Some e \<and> en_source e = a
     \<and> fst (probe_cold W sid (set_slot sid Pending dm)) = Some cold \<and> payload = cold_restore_reply cold"
proof -
  obtain dm1 where r: "resolve_slot sid dm = (Spawn, dm1)"
    using assms by (auto simp: create_turn_def warm_snapshot_def split: prod.splits action.splits option.splits)
  have dm1: "dm1 = set_slot sid Pending dm"
    using r by (auto simp: resolve_slot_def split: option.splits session_slot.splits if_splits)
  obtain cold dm2 where p: "probe_cold W sid dm1 = (cold, dm2)" by fastforce
  obtain c k l where g: "spawn_geometry cold cwd cols rows = (c, k, l)" by (metis prod_cases3)
  obtain a dm3 where al: "alloc_session W sid k l cap dm2 = (a, dm3)" by fastforce
  obtain pe dm4 where rg: "register_history W a c k l (cold \<noteq> None) dm3 = (pe, dm4)" by fastforce
  have "wd_spawn W = Ok ()"
    using assms r p g by (cases "wd_spawn W") (simp_all add: create_turn_def)
  then have run: "(case cold of Some cr \<Rightarrow> if pe then (Some (Ok (RCold (cold_restore_reply cr))), set_slot sid (Live a) dm4)
      else (Some (Ok RFresh), set_slot sid (Live a) dm4)
      | None \<Rightarrow> (Some (Ok RFresh), set_slot sid (Live a) dm4))
      = (Some (Ok (RCold payload)) :: (rpc_value, rpc_error) result option, dm')"
    using assms r p g al rg by (simp add: create_turn_def Let_def del: not_None_eq)
  then obtain cr where cr: "cold = Some cr" "pe" "payload = cold_restore_reply cr" "dm' = set_slot sid (Live a) dm4"
    by (cases cold; cases pe) auto
  note reg = register_history_result [OF rg]
  have "dm_next dm2 = dm_next dm"
    using keeps_probe [of dm1 W sid] p by (simp add: keeps_ptys_def dm1)
  then show ?thesis
    using cr reg alloc_session_result [OF al] p dm1 by auto
qed

text \<open>
  An id whose old entry is still with the checkpointer gets a session without history. That is the
  window between the exit of a child and \<open>close_history\<close>; and it is forever when the child exited
  before \<open>register_history\<close> ran, because nobody closes that entry: the old writer's lock refuses
  the new one, which is dropped without a word.
\<close>

theorem leftover_entry_blocks_history:
  assumes "resolve_slot sid dm = (Spawn, dm1)" and "wd_spawn W = Ok ()"
    and "map_of (ck_sessions (dm_checkpointer dm)) sid = Some e"
    and "percent_encode sid \<in> set (dk_locks (dm_disk dm))"
    and "dk_files (dm_disk dm) (percent_encode sid, OWNER_LOCK) \<noteq> None"
  shows "let (reply, dm') = create_turn W sid cwd cols rows cap dm in
     reply = Some (Ok RFresh) \<and> get sid dm' = Some (dm_next dm) \<and> ss_alive (dm_heap dm' (dm_next dm))
     \<and> \<not> ss_history_enabled (dm_heap dm' (dm_next dm))
     \<and> map_of (ck_sessions (dm_checkpointer dm')) sid = Some e"
proof -
  have dm1: "dm1 = set_slot sid Pending dm"
    using assms(1) by (auto simp: resolve_slot_def split: option.splits session_slot.splits if_splits)
  have frame: "dm_disk dm1 = dm_disk dm" "dm_checkpointer dm1 = dm_checkpointer dm" by (simp_all add: dm1)
  have p: "probe_cold W sid dm1 = (None, dm1)"
    using probe_refused [of sid dm1 W] assms(4,5) by (simp add: frame)
  obtain a dm3 where al: "alloc_session W sid cols rows cap dm1 = (a, dm3)" by fastforce
  note al' = alloc_session_result [OF al]
  obtain pe dm4 where rg: "register_history W a cwd cols rows False dm3 = (pe, dm4)" by fastforce
  have "\<not> pe" using register_refused [of dm3 a sid W cwd cols rows False] al' assms(4,5) rg by (simp add: frame)
  then have "create_turn W sid cwd cols rows cap dm = (Some (Ok RFresh), set_slot sid (Live a) dm4)"
    "dm_heap dm4 = dm_heap dm3" "dm_checkpointer dm4 = dm_checkpointer dm3"
    using assms(1,2) p al rg register_history_result [OF rg]
    by (simp_all add: create_turn_def spawn_geometry_def)
  then show ?thesis using al' assms(3) by (simp add: frame dm1)
qed

text \<open>
  The reap of a dying session checks that the map still holds that session; closing its history
  checks the id only. When a successor with the same id is running, its entry is dropped: the
  successor stays in the map, but nothing it prints from then on reaches the checkpointer.
\<close>

theorem late_close_takes_successor_history:
  assumes "get sid dm = Some b" and "a \<noteq> b" and "ss_id (dm_heap dm b) = sid"
  shows "let dm' = reap sid a (close_history W sid code dm) in
     get sid dm' = Some b \<and> dm_heap dm' b = dm_heap dm b
     \<and> map_of (ck_sessions (dm_checkpointer dm')) sid = None
     \<and> dm_checkpointer (on_session b (tee T panics chunk) dm') = dm_checkpointer dm'"
proof -
  let ?dm = "close_history W sid code dm"
  have g: "get sid ?dm = Some b" "dm_heap ?dm = dm_heap dm"
    and none: "map_of (ck_sessions (dm_checkpointer ?dm)) sid = None"
    using assms(1)
    by (auto simp: close_history_def close_session_def forget_session_def get_def delete_conv' split: prod.split)
  have "reap sid a ?dm = ?dm" using g(1) assms(2) by (simp add: reap_def get_Live)
  then show ?thesis
    using g none assms(3) by (simp add: on_session_def Let_def mark_unregistered)
qed

subsection \<open>Witnesses\<close>

definition empty_disk :: disk where
  "empty_disk = \<lparr>dk_files = (\<lambda>p. None), dk_locks = [], dk_budget = 100, dk_torn = None\<rparr>"

definition fresh_daemon :: "bytes daemon" where "fresh_daemon = new_daemon ''t'' empty_disk blank"

text \<open>A create of the id \<open>s\<close>, up to its running child.\<close>

definition first_child :: "bytes daemon" where
  "first_child = snd (alloc_session sample_env ''s'' 80 24 None
     (snd (probe_cold sample_env ''s'' (set_slot ''s'' Pending fresh_daemon))))"

lemma first_child_reached:
  "(daemon_step {sample_env})\<^sup>*\<^sup>* (fresh_daemon, \<lambda>_. None) (first_child, (\<lambda>_. None)(''s'' \<mapsto> Spawned 0))"
proof -
  let ?dm2 = "snd (probe_cold sample_env ''s'' (set_slot ''s'' Pending fresh_daemon))"
  have "resolve_slot ''s'' fresh_daemon = (Spawn, set_slot ''s'' Pending fresh_daemon)"
    by (simp add: resolve_slot_def fresh_daemon_def new_daemon_def)
  then have s1: "daemon_step {sample_env} (fresh_daemon, \<lambda>_. None) (?dm2, (\<lambda>_. None)(''s'' \<mapsto> Reserved))"
    by (rule daemon_step.reserve [rotated]) (simp_all, rule prod.collapse [symmetric])
  have "dm_next ?dm2 = 0"
    using keeps_probe [of "set_slot ''s'' Pending fresh_daemon" sample_env "''s''"]
    by (simp add: keeps_ptys_def fresh_daemon_def new_daemon_def)
  then have al: "alloc_session sample_env ''s'' 80 24 None ?dm2 = (0, first_child)"
    by (simp add: first_child_def alloc_session_def Let_def)
  have "daemon_step {sample_env} (?dm2, (\<lambda>_. None)(''s'' \<mapsto> Reserved))
      (first_child, (\<lambda>_. None)(''s'' \<mapsto> Reserved, ''s'' \<mapsto> Spawned 0))"
    by (rule daemon_step.spawned [OF _ _ al]) simp_all
  with s1 show ?thesis by simp
qed

theorem one_live_pty_per_id_witness:
  "{b. b < dm_next first_child \<and> ss_alive (dm_heap first_child b) \<and> ss_id (dm_heap first_child b) = ''s''} = {0}"
proof -
  have start: "daemon_start (fresh_daemon, \<lambda>_. None)"
    by (auto simp: daemon_start_def fresh_daemon_def)
  have "dm_next first_child = 1" "ss_alive (dm_heap first_child 0)" "ss_id (dm_heap first_child 0) = ''s''"
    using keeps_probe [of "set_slot ''s'' Pending fresh_daemon" sample_env "''s''"]
    by (simp_all add: first_child_def alloc_session_def Let_def keeps_ptys_def fresh_daemon_def new_daemon_def
        spawn_def spawn_with_ring_cap_def)
  then show ?thesis
    using one_live_pty_per_id [OF start first_child_reached, of _ 0] by auto
qed

text \<open>A disk with an unclean history of \<open>s\<close>: a checkpoint and an unlocked owner file.\<close>

definition unclean_disk :: disk where
  "unclean_disk = \<lparr>dk_files = (\<lambda>p. None)((''s'', META_JSON) := Some (jc_meta_enc sample_codec sample_meta),
       (''s'', CHECKPOINT_JSON) := Some (jc_cp_enc sample_codec (sample_checkpoint\<lparr>cp_checkpointed_at_ms := 9\<rparr>)),
       (''s'', OWNER_LOCK) := Some []),
     dk_locks = [], dk_budget = 100, dk_torn = None\<rparr>"

lemma sample_file_names [simp]:
  "META_JSON \<noteq> CHECKPOINT_JSON" "META_JSON \<noteq> OUTPUT_LOG" "CHECKPOINT_JSON \<noteq> OUTPUT_LOG"
  "CHECKPOINT_JSON \<noteq> META_JSON" "OUTPUT_LOG \<noteq> META_JSON" "OUTPUT_LOG \<noteq> CHECKPOINT_JSON"
  "OWNER_LOCK \<noteq> META_JSON" "OWNER_LOCK \<noteq> CHECKPOINT_JSON" "OWNER_LOCK \<noteq> OUTPUT_LOG"
  by (simp_all add: META_JSON_def CHECKPOINT_JSON_def OUTPUT_LOG_def OWNER_LOCK_def)

lemma codec_sample [simp]:
  "jc_meta_dec sample_codec (jc_meta_enc sample_codec m) = Some m"
  "jc_cp_dec sample_codec (jc_cp_enc sample_codec c) = Some c" "jc_cp_enc sample_codec c \<noteq> []"
  using sample_codec_ok by (simp_all add: codec_ok_def)

definition restored_daemon :: "bytes daemon" where "restored_daemon = new_daemon ''t'' unclean_disk blank"

lemma restored_probe:
  "probe_cold sample_env ''s'' (set_slot ''s'' Pending restored_daemon)
   = (Some (restore_from_checkpoint tape_parser (sample_checkpoint\<lparr>cp_checkpointed_at_ms := 9\<rparr>) sample_meta),
      set_slot ''s'' Pending restored_daemon)"
  by (simp add: probe_cold_def Let_def percent_encode_s acquire_def restored_daemon_def new_daemon_def unclean_disk_def
      sample_env_def has_restorable_history_def read_meta_def detect_cold_restore_def read_checkpoint_def
      restore_from_log_def sample_meta_def new_meta_def release_def set_slot_def)

lemma cold_payload_only_when_owned_witness:
  "\<exists>payload dm'. create_turn sample_env ''s'' ''.'' 80 24 None restored_daemon = (Some (Ok (RCold payload)), dm')
     \<and> (\<exists>a. get ''s'' dm' = Some a \<and> ss_history_enabled (dm_heap dm' a))"
proof -
  let ?cold = "restore_from_checkpoint tape_parser (sample_checkpoint\<lparr>cp_checkpointed_at_ms := 9\<rparr>) sample_meta"
  obtain c k l where g: "spawn_geometry (Some ?cold) ''.'' 80 24 = (c, k, l)" by (metis prod_cases3)
  have res: "resolve_slot ''s'' restored_daemon = (Spawn, set_slot ''s'' Pending restored_daemon)"
    by (simp add: resolve_slot_def restored_daemon_def new_daemon_def)
  obtain a dm3 where al: "alloc_session sample_env ''s'' k l None (set_slot ''s'' Pending restored_daemon) = (a, dm3)"
    by fastforce
  note al' = alloc_session_result [OF al]
  have disk: "dm_disk dm3 = unclean_disk" using al' by (simp add: restored_daemon_def new_daemon_def)
  obtain dm4 where rg: "register_history sample_env a c k l True dm3 = (True, dm4)"
    using al'(2)
    by (simp add: register_history_def reopen_session_def register_writer_def percent_encode_s disk unclean_disk_def
        fs_sync_def io_step_def acquire_def reopen_def read_meta_def write_meta_def fs_write_def Let_def
        sample_env_def)
  have "wd_spawn sample_env = Ok ()" by (simp add: sample_env_def)
  then have run: "create_turn sample_env ''s'' ''.'' 80 24 None restored_daemon
      = (Some (Ok (RCold (cold_restore_reply ?cold))), set_slot ''s'' (Live a) dm4)"
    using res restored_probe g al rg by (simp add: create_turn_def)
  from cold_payload_only_when_owned [OF this] run show ?thesis by blast
qed

text \<open>The child of \<open>first_child\<close> exits before its history is registered.\<close>

definition early_exit :: "bytes daemon" where
  "early_exit = reap ''s'' 0 (close_history sample_env ''s'' (Some 0)
     (on_session 0 (\<lambda>s. fst (reader_end (\<lambda>_. []) [] (Ok 0) s)) first_child))"

definition leftover :: "bytes daemon" where
  "leftover = set_slot ''s'' (Live 0) (snd (register_history sample_env 0 ''.'' 80 24 False early_exit))"

lemma first_child_fields:
  "dm_sessions first_child = [(''s'', Pending)]" "dm_checkpointer first_child = new_checkpointer"
  "ss_id (dm_heap first_child 0) = ''s''" "dk_budget (dm_disk first_child) = 99" "dk_locks (dm_disk first_child) = []"
  by (simp_all add: first_child_def alloc_session_def probe_cold_def Let_def fresh_daemon_def new_daemon_def empty_disk_def
      acquire_def fs_write_def io_step_def set_file_def release_def set_slot_def spawn_def spawn_with_ring_cap_def
      has_restorable_history_def read_meta_def OWNER_LOCK_def META_JSON_def split: option.split)

lemma leftover_blocked:
  "resolve_slot ''s'' leftover = (Spawn, set_slot ''s'' Pending leftover)
   \<and> (\<exists>e. map_of (ck_sessions (dm_checkpointer leftover)) ''s'' = Some e)
   \<and> percent_encode ''s'' \<in> set (dk_locks (dm_disk leftover))
   \<and> dk_files (dm_disk leftover) (percent_encode ''s'', OWNER_LOCK) \<noteq> None"
proof -
  let ?early = "on_session 0 (\<lambda>s. fst (reader_end (\<lambda>_. []) [] (Ok 0) s)) first_child"
  have early: "dm_sessions early_exit = [(''s'', Pending)]" "dm_checkpointer early_exit = new_checkpointer"
    "ss_id (dm_heap early_exit 0) = ''s''" "\<not> ss_alive (dm_heap early_exit 0)"
    "dk_budget (dm_disk early_exit) = 98" "dk_locks (dm_disk early_exit) = []"
    "dk_files (dm_disk early_exit) (''s'', f) = None" for f
    using first_child_fields
    by (simp_all add: early_exit_def close_history_def close_session_def forget_session_def new_checkpointer_def
        on_session_def reap_def remove_session_dir_def percent_encode_s reader_end_def emit_exit_def Let_def
        mark_session_dirty_def funpow_0 split: nat.split result.split)
  let ?ck = "load (dm_heap early_exit) (dm_checkpointer early_exit)"
    and ?meta = "new_meta (wd_now sample_env) (Some ''.'') 80 24"
  obtain w d where op: "open_session sample_codec ''s'' ?meta (dm_disk early_exit) = (Ok w, d)"
    using early
    by (cases "dm_disk early_exit")
      (simp add: open_session_def percent_encode_s fs_sync_def acquire_def fs_write_def fs_remove_def io_step_def
        ignore_io_def set_file_def write_meta_def Let_def)
  have w: "percent_encode ''s'' \<in> set (dk_locks d)" "dk_files d (percent_encode ''s'', OWNER_LOCK) \<noteq> None"
    using open_session_Ok [OF op] by simp_all
  have "snd (register_history sample_env 0 ''.'' 80 24 False early_exit)
      = on_session 0 enable_history (early_exit\<lparr>dm_checkpointer :=
          unload (mark_session_dirty ''s'' (insert_entry ''s'' (0, dm_heap early_exit 0) w ?ck)), dm_disk := d\<rparr>)"
    using op early(3) by (simp add: register_history_def ck_open_session_def Let_def sample_env_def)
  then have left: "dm_disk leftover = d" "map_of (dm_sessions leftover) ''s'' = Some (Live 0)"
      "\<not> ss_alive (dm_heap leftover 0)"
      "dm_checkpointer leftover = unload (mark_session_dirty ''s'' (insert_entry ''s'' (0, dm_heap early_exit 0) w ?ck))"
    using early(4) by (simp_all add: leftover_def enable_history_def on_session_def Let_def)
  then show ?thesis
    using w by (simp add: resolve_slot_def unload_lookup insert_lookup)
qed

theorem leftover_entry_blocks_history_witness:
  "\<not> ss_history_enabled (dm_heap (snd (create_turn sample_env ''s'' ''.'' 80 24 None leftover)) (dm_next leftover))"
proof -
  have spawn: "wd_spawn sample_env = Ok ()" by (simp add: sample_env_def)
  obtain e where e: "map_of (ck_sessions (dm_checkpointer leftover)) ''s'' = Some e"
    using leftover_blocked by blast
  from leftover_entry_blocks_history [OF _ spawn e, of "set_slot ''s'' Pending leftover" "''.''" 80 24 None]
  show ?thesis using leftover_blocked by (simp add: split_beta)
qed

theorem late_close_takes_successor_history_witness:
  "get ''s'' (reap ''s'' 1 (close_history sample_env ''s'' None sample_daemon)) = Some 0"
proof -
  have "get ''s'' sample_daemon = Some 0" "ss_id (dm_heap sample_daemon 0) = ''s''"
    by (simp_all add: sample_get) (simp add: sample_daemon_def new_daemon_def blank_def spawn_def spawn_with_ring_cap_def)
  from late_close_takes_successor_history [OF this(1) _ this(2), of 1 sample_env None] show ?thesis
    by (simp add: Let_def)
qed

end
