(* ===== verification/Client.thy ===== *)
theory Client
  imports Protocol Framing "HOL-Library.AList"
begin

text \<open>
  The daemon client, \<open>grove-core/src/daemon/client.rs\<close>: the connection state with its generation,
  the pending requests, the fan-out of stream frames, the sticky cold-restore cache, the resync after
  a reconnect and the producer resumes owed across one.

  The fields of \<open>Shared\<close> are the fields of one record; a function that runs between two awaits is a
  function on it. A hash set is a list without duplicates, its iteration order the order of the
  list. What is handed to a caller or a subscriber is appended to a log: \<open>cn_results\<close> (the oneshot of
  a request) and \<open>cn_events\<close> (the calls of a \<open>StreamSubscriber\<close>). The JSON builders and parsers are the
  fields of \<open>client_env\<close>.
\<close>

subsection \<open>Errors and shapes\<close>

datatype client_error =
  NotConnected | ConnectionLost | Timeout string | RpcFailed rpc_error | ProtocolFailed | IoFailed

datatype stream_event = OnData u64 bytes | OnExit exit_status | OnResize u16 u16

record cold_restore_payload =
  cw_snapshot :: string
  cw_cols :: u16
  cw_rows :: u16
  cw_is_alternate_screen :: bool
  cw_pending_escape_tail_ansi :: "string option"

record warm_reattach =
  wa_snapshot :: string
  wa_cols :: u16
  wa_rows :: u16
  wa_is_alternate_screen :: bool
  wa_output_sequence :: u64
  wa_pending_escape_tail_ansi :: "string option"
  wa_kitty_keyboard_flags :: "u32 option"
  wa_cwd :: "string option"
  wa_last_title :: "string option"
  wa_emulator_degraded :: bool

record create_or_attach =
  co_session_id :: string
  co_cwd :: "string option"
  co_cols :: u16
  co_rows :: u16
  co_env :: "(string \<times> string) list"
  co_scrollback_bytes :: "u64 option"

record create_or_attach_result =
  ca_is_new :: bool
  ca_is_cold_restore :: bool
  ca_cold_restore :: "cold_restore_payload option"
  ca_warm_reattach :: "warm_reattach option"

record session_info =
  si_session_id :: string
  si_is_alive :: bool
  si_cols :: u16
  si_rows :: u16
  si_pid :: "u32 option"

subsection \<open>The sticky cold-restore cache\<close>

definition COLD_CACHE_MAX_ENTRIES :: nat where "COLD_CACHE_MAX_ENTRIES = 64"

record cold_cache =
  cc_entries :: "(string \<times> cold_restore_payload) list"
  cc_order :: "string list"

definition new_cold_cache :: cold_cache where "new_cold_cache = \<lparr>cc_entries = [], cc_order = []\<rparr>"

definition cache_remove :: "string \<Rightarrow> cold_cache \<Rightarrow> cold_cache" where
  "cache_remove sid c =
     (if map_of (cc_entries c) sid \<noteq> None
      then \<lparr>cc_entries = AList.delete sid (cc_entries c), cc_order = filter (\<lambda>k. k \<noteq> sid) (cc_order c)\<rparr>
      else c)"

text \<open>The eviction loop of \<open>set\<close>.\<close>

fun evict :: "(string \<times> cold_restore_payload) list \<Rightarrow> string list \<Rightarrow> cold_cache" where
  "evict entries [] = \<lparr>cc_entries = entries, cc_order = []\<rparr>"
| "evict entries (oldest # rest) =
     (if COLD_CACHE_MAX_ENTRIES < length (oldest # rest) then evict (AList.delete oldest entries) rest
      else \<lparr>cc_entries = entries, cc_order = oldest # rest\<rparr>)"

definition cache_set :: "string \<Rightarrow> cold_restore_payload \<Rightarrow> cold_cache \<Rightarrow> cold_cache" where
  "cache_set sid payload c =
     (let entries = AList.update sid payload (cc_entries c)
      in if map_of (cc_entries c) sid = None then evict entries (cc_order c @ [sid])
         else c\<lparr>cc_entries := entries\<rparr>)"

definition cache_get :: "string \<Rightarrow> cold_cache \<Rightarrow> cold_restore_payload option" where
  "cache_get sid c = map_of (cc_entries c) sid"

subsection \<open>State\<close>

text \<open>
  \<open>cn_control\<close> is the outbound queue of the live connection, none while disconnected. A pending
  request is its id and the generation of its connection.
\<close>

record 'v client =
  cn_connected :: bool
  cn_control :: "string list option"
  cn_generation :: u64
  cn_pending :: "(u64 \<times> u64) list"
  cn_request_counter :: u64
  cn_results :: "(u64 \<times> ('v, client_error) result) list"
  cn_subscribers :: "string list"
  cn_cold_cache :: cold_cache
  cn_seq :: "(string \<times> seq_tracker) list"
  cn_known_alive :: "string list"
  cn_producer_paused :: "string list"
  cn_producer_resumes_owed :: "string list"
  cn_sleep_restore :: "string list"
  cn_events :: "(string \<times> stream_event) list"

definition new_client :: "'v client" where
  "new_client =
     \<lparr>cn_connected = False, cn_control = None, cn_generation = 0, cn_pending = [], cn_request_counter = 0,
      cn_results = [], cn_subscribers = [], cn_cold_cache = new_cold_cache, cn_seq = [], cn_known_alive = [],
      cn_producer_paused = [], cn_producer_resumes_owed = [], cn_sleep_restore = [], cn_events = []\<rparr>"

record 'v client_env =
  ce_encode :: "'v control_message \<Rightarrow> string option"
  ce_decode :: "string \<Rightarrow> 'v control_message option"
  ce_null :: 'v
  ce_session :: "string \<Rightarrow> 'v"
  ce_create :: "create_or_attach \<Rightarrow> 'v"
  ce_bool :: "'v \<Rightarrow> string \<Rightarrow> bool option"
  ce_cold :: "'v \<Rightarrow> cold_restore_payload"
  ce_warm :: "'v \<Rightarrow> warm_reattach option"
  ce_sessions :: "'v \<Rightarrow> session_info list option"
  ce_exit :: "bytes \<Rightarrow> exit_status option"

definition subscribe :: "string \<Rightarrow> 'v client \<Rightarrow> 'v client" where
  "subscribe sid c = c\<lparr>cn_subscribers := List.insert sid (cn_subscribers c)\<rparr>"

definition unsubscribe :: "string \<Rightarrow> 'v client \<Rightarrow> 'v client" where
  "unsubscribe sid c = c\<lparr>cn_subscribers := removeAll sid (cn_subscribers c)\<rparr>"

text \<open>A call of the session's subscriber, if it has one.\<close>

definition deliver_event :: "string \<Rightarrow> stream_event \<Rightarrow> 'v client \<Rightarrow> 'v client" where
  "deliver_event sid ev c =
     (if sid \<in> set (cn_subscribers c) then c\<lparr>cn_events := cn_events c @ [(sid, ev)]\<rparr> else c)"

subsection \<open>Connection\<close>

text \<open>The state change of a \<open>do_connect\<close> that succeeded.\<close>

definition do_connect :: "'v client \<Rightarrow> 'v client" where
  "do_connect c = c\<lparr>cn_generation := cn_generation c + 1, cn_connected := True, cn_control := Some []\<rparr>"

definition handle_disconnect :: "u64 \<Rightarrow> 'v client \<Rightarrow> 'v client" where
  "handle_disconnect generation c =
     (if cn_generation c \<noteq> generation then c
      else if \<not> cn_connected c then c
      else
        let c = c\<lparr>cn_connected := False, cn_control := None\<rparr>;
            c = c\<lparr>cn_producer_paused := [],
                  cn_producer_resumes_owed :=
                    foldl (\<lambda>owed sid. List.insert sid owed) (cn_producer_resumes_owed c) (cn_producer_paused c)\<rparr>;
            rejected = filter (\<lambda>(i, g). g = generation) (cn_pending c)
        in c\<lparr>cn_pending := filter (\<lambda>(i, g). g \<noteq> generation) (cn_pending c),
             cn_results := cn_results c @ map (\<lambda>(i, g). (i, Err ConnectionLost)) rejected\<rparr>)"

definition reset_connection :: "'v client \<Rightarrow> 'v client" where
  "reset_connection c = handle_disconnect (cn_generation c) c"

subsection \<open>Requests and notifies\<close>

definition send_control :: "string \<Rightarrow> 'v client \<Rightarrow> (unit, client_error) result \<times> 'v client" where
  "send_control line c =
     (case cn_control c of
        Some q \<Rightarrow> (Ok (), c\<lparr>cn_control := Some (q @ [line])\<rparr>)
      | None \<Rightarrow> (Err NotConnected, c))"

text \<open>
  \<open>request_raw\<close> up to its await: the id is taken, the request registered under the state lock with
  the live generation and its line queued. The result is given back at once when that fails.
\<close>

definition request_raw :: "'v client_env \<Rightarrow> string \<Rightarrow> 'v \<Rightarrow> 'v client \<Rightarrow> 'v client" where
  "request_raw J m params c =
     (let i = cn_request_counter c + 1;
          c = c\<lparr>cn_request_counter := i\<rparr>
      in case encode_ndjson_line (ce_encode J) (Request \<lparr>rq_id = i, rq_method = m, rq_params = params\<rparr>) of
           Err _ \<Rightarrow> c\<lparr>cn_results := cn_results c @ [(i, Err ProtocolFailed)]\<rparr>
         | Ok line \<Rightarrow>
             (case cn_control c of
                None \<Rightarrow> c\<lparr>cn_results := cn_results c @ [(i, Err NotConnected)]\<rparr>
              | Some q \<Rightarrow>
                  c\<lparr>cn_pending := (i, cn_generation c) # cn_pending c, cn_control := Some (q @ [line])\<rparr>))"

definition remove_pending :: "u64 \<Rightarrow> 'v client \<Rightarrow> 'v client" where
  "remove_pending i c = c\<lparr>cn_pending := filter (\<lambda>(j, g). j \<noteq> i) (cn_pending c)\<rparr>"

text \<open>The deadline of a request: it only fires while the reply has not resolved it.\<close>

definition request_timeout :: "u64 \<Rightarrow> string \<Rightarrow> 'v client \<Rightarrow> 'v client" where
  "request_timeout i m c =
     (if map_of (cn_pending c) i = None then c
      else (remove_pending i c)\<lparr>cn_results := cn_results c @ [(i, Err (Timeout m))]\<rparr>)"

text \<open>The body of \<open>control_reader\<close> for one line.\<close>

definition control_line :: "'v client_env \<Rightarrow> string \<Rightarrow> 'v client \<Rightarrow> 'v client" where
  "control_line J line c =
     (case decode_ndjson_line (ce_decode J) line of
        Ok (Reply r) \<Rightarrow>
          if map_of (cn_pending c) (rr_id r) = None then c
          else
            let res = (case rr_error r of
                         Some err \<Rightarrow> Err (RpcFailed err)
                       | None \<Rightarrow> Ok (unwrap_or (ce_null J) (rr_result r)))
            in (remove_pending (rr_id r) c)\<lparr>cn_results := cn_results c @ [(rr_id r, res)]\<rparr>
      | _ \<Rightarrow> c)"

definition send_notify_raw ::
  "'v client_env \<Rightarrow> string \<Rightarrow> 'v \<Rightarrow> 'v client \<Rightarrow> (unit, client_error) result \<times> 'v client" where
  "send_notify_raw J m params c =
     (case encode_ndjson_line (ce_encode J) (NotifyMsg \<lparr>nt_method = m, nt_params = params\<rparr>) of
        Err _ \<Rightarrow> (Err ProtocolFailed, c)
      | Ok line \<Rightarrow> send_control line c)"

subsection \<open>Stream frames\<close>

definition observe_seq :: "string \<Rightarrow> u64 \<Rightarrow> 'v client \<Rightarrow> 'v client" where
  "observe_seq sid seq c =
     c\<lparr>cn_seq := AList.update sid (snd (observe (unwrap_or new_tracker (map_of (cn_seq c) sid)) seq)) (cn_seq c)\<rparr>"

text \<open>What the exit of a session removes besides its entry in \<open>known_alive\<close>.\<close>

definition forget_exited :: "string \<Rightarrow> 'v client \<Rightarrow> 'v client" where
  "forget_exited sid c =
     c\<lparr>cn_seq := AList.delete sid (cn_seq c), cn_producer_paused := removeAll sid (cn_producer_paused c),
       cn_producer_resumes_owed := removeAll sid (cn_producer_resumes_owed c)\<rparr>"

text \<open>The claim both exit paths share: whoever removes the session from \<open>known_alive\<close> delivers.\<close>

definition claim_exit :: "string \<Rightarrow> exit_status \<Rightarrow> 'v client \<Rightarrow> 'v client" where
  "claim_exit sid status c =
     (if sid \<notin> set (cn_known_alive c) then c
      else deliver_event sid (OnExit status)
             (forget_exited sid (c\<lparr>cn_known_alive := removeAll sid (cn_known_alive c)\<rparr>)))"

definition dispatch_frame :: "'v client_env \<Rightarrow> stream_frame \<Rightarrow> 'v client \<Rightarrow> 'v client" where
  "dispatch_frame J frame c =
     (case fr_kind frame of
        DataFrame \<Rightarrow>
          (let c = observe_seq (fr_session_id frame) (fr_seq frame) c;
               c = c\<lparr>cn_cold_cache := cache_remove (fr_session_id frame) (cn_cold_cache c)\<rparr>
           in deliver_event (fr_session_id frame) (OnData (fr_seq frame) (fr_payload frame)) c)
      | ExitFrame \<Rightarrow>
          claim_exit (fr_session_id frame)
            (unwrap_or \<lparr>es_code = None, es_signal = None\<rparr> (as_exit (ce_exit J) frame)) c
      | ResizeFrame \<Rightarrow>
          (case as_resize frame of
             None \<Rightarrow> c
           | Some (cols, rows) \<Rightarrow> deliver_event (fr_session_id frame) (OnResize cols rows) c))"

text \<open>One read of \<open>stream_reader\<close>; the frames it yields are dispatched in order.\<close>

definition stream_chunk :: "'v client_env \<Rightarrow> stream_rx \<Rightarrow> bytes \<Rightarrow> 'v client \<Rightarrow> stream_rx \<times> 'v client" where
  "stream_chunk J rx chunk c =
     (let rx' = stream_read rx chunk
      in (rx', foldl (\<lambda>c f. dispatch_frame J f c) c (drop (length (rx_out rx)) (rx_out rx'))))"

subsection \<open>Resync\<close>

definition add_known :: "string list \<Rightarrow> 'v client \<Rightarrow> 'v client" where
  "add_known ids c = c\<lparr>cn_known_alive := foldl (\<lambda>k sid. List.insert sid k) (cn_known_alive c) ids\<rparr>"

definition flush_owed :: "'v client_env \<Rightarrow> 'v client \<Rightarrow> 'v client" where
  "flush_owed J c =
     foldl (\<lambda>c sid. let c = snd (send_notify_raw J ''resumePty'' (ce_session J sid) c)
                     in c\<lparr>cn_producer_paused := removeAll sid (cn_producer_paused c)\<rparr>)
       (c\<lparr>cn_producer_resumes_owed := []\<rparr>) (cn_producer_resumes_owed c)"

text \<open>\<open>resync\<close> from the answer of \<open>listSessions\<close> on.\<close>

definition resync :: "'v client_env \<Rightarrow> session_info list option \<Rightarrow> 'v client \<Rightarrow> 'v client" where
  "resync J sessions c =
     (case sessions of
        None \<Rightarrow> c
      | Some infos \<Rightarrow>
          let live = map si_session_id infos;
              gone = filter (\<lambda>sid. sid \<notin> set live) (cn_known_alive c);
              c = foldl (\<lambda>c sid. claim_exit sid \<lparr>es_code = None, es_signal = None\<rparr> c) c gone
          in flush_owed J (add_known live c))"

subsection \<open>Typed operations\<close>

text \<open>\<open>create_or_attach\<close> before its request: a retained payload answers without the daemon.\<close>

definition create_begin ::
  "'v client_env \<Rightarrow> create_or_attach \<Rightarrow> 'v client \<Rightarrow> create_or_attach_result option \<times> 'v client" where
  "create_begin J req c =
     (case cache_get (co_session_id req) (cn_cold_cache c) of
        Some payload \<Rightarrow>
          (Some \<lparr>ca_is_new = False, ca_is_cold_restore = True, ca_cold_restore = Some payload,
                 ca_warm_reattach = None\<rparr>, c)
      | None \<Rightarrow> (None, request_raw J ''createOrAttach'' (ce_create J req) c))"

text \<open>After its reply.\<close>

definition create_end :: "'v client_env \<Rightarrow> string \<Rightarrow> 'v \<Rightarrow> 'v client \<Rightarrow> create_or_attach_result \<times> 'v client" where
  "create_end J sid result c =
     (let is_new = unwrap_or False (ce_bool J result ''isNew'');
          is_cold = unwrap_or False (ce_bool J result ''isColdRestore'');
          c = c\<lparr>cn_known_alive := List.insert sid (cn_known_alive c)\<rparr>;
          payload = ce_cold J result;
          c = (if is_cold then c\<lparr>cn_cold_cache := cache_set sid payload (cn_cold_cache c)\<rparr> else c);
          warm = (if unwrap_or False (ce_bool J result ''isReattach'') then ce_warm J result else None)
      in (\<lparr>ca_is_new = is_new, ca_is_cold_restore = is_cold,
           ca_cold_restore = (if is_cold then Some payload else None), ca_warm_reattach = warm\<rparr>, c))"

definition kill_request :: "'v client_env \<Rightarrow> string \<Rightarrow> 'v client \<Rightarrow> 'v client" where
  "kill_request J sid c = request_raw J ''kill'' (ce_session J sid) c"

definition ack_cold_restore :: "'v client_env \<Rightarrow> string \<Rightarrow> 'v client \<Rightarrow> (unit, client_error) result \<times> 'v client" where
  "ack_cold_restore J sid c =
     send_notify_raw J ''ackColdRestore'' (ce_session J sid)
       (c\<lparr>cn_cold_cache := cache_remove sid (cn_cold_cache c)\<rparr>)"

definition pause_pty :: "'v client_env \<Rightarrow> string \<Rightarrow> 'v client \<Rightarrow> (unit, client_error) result \<times> 'v client" where
  "pause_pty J sid c =
     (case send_notify_raw J ''pausePty'' (ce_session J sid) c of
        (Err e, c) \<Rightarrow> (Err e, c)
      | (Ok _, c) \<Rightarrow> (Ok (), c\<lparr>cn_producer_paused := List.insert sid (cn_producer_paused c)\<rparr>))"

definition resume_pty :: "'v client_env \<Rightarrow> string \<Rightarrow> 'v client \<Rightarrow> (unit, client_error) result \<times> 'v client" where
  "resume_pty J sid c =
     (let (r, c) = send_notify_raw J ''resumePty'' (ce_session J sid) c
      in (r, c\<lparr>cn_producer_paused := removeAll sid (cn_producer_paused c),
               cn_producer_resumes_owed := removeAll sid (cn_producer_resumes_owed c)\<rparr>))"

definition mark_sleep_restore :: "string \<Rightarrow> 'v client \<Rightarrow> 'v client" where
  "mark_sleep_restore sid c = c\<lparr>cn_sleep_restore := List.insert sid (cn_sleep_restore c)\<rparr>"

definition clear_sleep_restore :: "string \<Rightarrow> 'v client \<Rightarrow> 'v client" where
  "clear_sleep_restore sid c = c\<lparr>cn_sleep_restore := removeAll sid (cn_sleep_restore c)\<rparr>"

text \<open>\<open>read_hello_ack\<close>; \<open>read\<close> is what the line read gave: an error, the deadline, or the line.\<close>

datatype hello_read = ReadFailed | ReadTimedOut | ReadLine string

definition read_hello_ack :: "(string \<Rightarrow> hello_ack option) \<Rightarrow> hello_read \<Rightarrow> (unit, client_error) result" where
  "read_hello_ack parse r =
     (case r of
        ReadFailed \<Rightarrow> Err IoFailed
      | ReadTimedOut \<Rightarrow> Err (Timeout ''hello'')
      | ReadLine line \<Rightarrow>
          if line = [] then Err ConnectionLost
          else case decode_ndjson_line parse line of
                 Err _ \<Rightarrow> Err ProtocolFailed
               | Ok ack \<Rightarrow> if ha_ok ack then Ok () else Err ProtocolFailed)"

subsection \<open>Events\<close>

text \<open>What can happen to a client, one critical section at a time.\<close>

datatype 'v client_event =
  Connect | Disconnect u64
| SendRequest string 'v | ControlLine string | RequestDeadline u64 string
| SendNotify string 'v | PauseOp string | ResumeOp string
| FrameIn stream_frame | Resync "session_info list option"
| CreateDone string 'v | Ack string | SubscribeOp string | UnsubscribeOp string

fun client_step :: "'v client_env \<Rightarrow> 'v client \<Rightarrow> 'v client_event \<Rightarrow> 'v client" where
  "client_step J c Connect = (if cn_connected c then c else do_connect c)"
| "client_step J c (Disconnect g) = handle_disconnect g c"
| "client_step J c (SendRequest m p) = request_raw J m p c"
| "client_step J c (ControlLine l) = control_line J l c"
| "client_step J c (RequestDeadline i m) = request_timeout i m c"
| "client_step J c (SendNotify m p) = snd (send_notify_raw J m p c)"
| "client_step J c (PauseOp sid) = snd (pause_pty J sid c)"
| "client_step J c (ResumeOp sid) = snd (resume_pty J sid c)"
| "client_step J c (FrameIn f) = dispatch_frame J f c"
| "client_step J c (Resync infos) = resync J infos c"
| "client_step J c (CreateDone sid v) = snd (create_end J sid v c)"
| "client_step J c (Ack sid) = snd (ack_cold_restore J sid c)"
| "client_step J c (SubscribeOp sid) = subscribe sid c"
| "client_step J c (UnsubscribeOp sid) = unsubscribe sid c"

definition client_run :: "'v client_env \<Rightarrow> 'v client_event list \<Rightarrow> 'v client \<Rightarrow> 'v client" where
  "client_run J evs c = foldl (client_step J) c evs"

subsection \<open>What the operations leave alone\<close>

text \<open>The part of the state the request bookkeeping lives in, and the part the exits live in.\<close>

definition same_rpc :: "'v client \<Rightarrow> 'v client \<Rightarrow> bool" where
  "same_rpc c c' \<longleftrightarrow> cn_pending c' = cn_pending c \<and> cn_results c' = cn_results c
     \<and> cn_request_counter c' = cn_request_counter c \<and> cn_generation c' = cn_generation c
     \<and> cn_connected c' = cn_connected c \<and> (cn_control c' = None \<longleftrightarrow> cn_control c = None)"

definition same_exits :: "'v client \<Rightarrow> 'v client \<Rightarrow> bool" where
  "same_exits c c' \<longleftrightarrow> cn_events c' = cn_events c \<and> cn_known_alive c' = cn_known_alive c
     \<and> cn_subscribers c' = cn_subscribers c"

lemma same_rpc_trans: "same_rpc a b \<Longrightarrow> same_rpc b c \<Longrightarrow> same_rpc a c"
  by (simp add: same_rpc_def)

lemma same_rpc_refl [simp]: "same_rpc c c"
  by (simp add: same_rpc_def)

lemma same_exits_trans: "same_exits a b \<Longrightarrow> same_exits b c \<Longrightarrow> same_exits a c"
  by (simp add: same_exits_def)

lemma same_exits_refl [simp]: "same_exits c c"
  by (simp add: same_exits_def)

lemma notify_same: "same_rpc c (snd (send_notify_raw J m p c))" "same_exits c (snd (send_notify_raw J m p c))"
  by (auto simp: send_notify_raw_def send_control_def same_rpc_def same_exits_def split: result.split option.split)

lemma notify_fields [simp]:
  "cn_known_alive (snd (send_notify_raw J m p c)) = cn_known_alive c"
  "cn_producer_paused (snd (send_notify_raw J m p c)) = cn_producer_paused c"
  "cn_producer_resumes_owed (snd (send_notify_raw J m p c)) = cn_producer_resumes_owed c"
  "cn_cold_cache (snd (send_notify_raw J m p c)) = cn_cold_cache c"
  by (auto simp: send_notify_raw_def send_control_def split: result.split option.split)

lemma pause_same: "same_rpc c (snd (pause_pty J sid c))" "same_exits c (snd (pause_pty J sid c))"
  using notify_same [of c J "''pausePty''" "ce_session J sid"]
  by (simp_all add: pause_pty_def same_rpc_def same_exits_def case_prod_beta split: result.split)

lemma resume_same: "same_rpc c (snd (resume_pty J sid c))" "same_exits c (snd (resume_pty J sid c))"
  using notify_same [of c J "''resumePty''" "ce_session J sid"]
  by (simp_all add: resume_pty_def same_rpc_def same_exits_def case_prod_beta Let_def)

lemma ack_same: "same_rpc c (snd (ack_cold_restore J sid c))" "same_exits c (snd (ack_cold_restore J sid c))"
  using notify_same [of "c\<lparr>cn_cold_cache := cache_remove sid (cn_cold_cache c)\<rparr>" J "''ackColdRestore''" "ce_session J sid"]
  by (simp_all add: ack_cold_restore_def same_rpc_def same_exits_def)

lemma create_end_rpc: "same_rpc c (snd (create_end J sid v c))"
  by (simp add: create_end_def same_rpc_def Let_def)

lemma deliver_rpc: "same_rpc c (deliver_event sid e c)"
  by (simp add: deliver_event_def same_rpc_def)

lemma claim_rpc: "same_rpc c (claim_exit sid status c)"
  by (simp add: claim_exit_def deliver_event_def forget_exited_def same_rpc_def)

lemma frame_rpc: "same_rpc c (dispatch_frame J f c)"
  using claim_rpc deliver_rpc
  by (auto simp: dispatch_frame_def Let_def deliver_event_def observe_seq_def same_rpc_def
      split: stream_frame_kind.split option.split)

lemma same_rpc_fold: "(\<And>c x. same_rpc c (f c x)) \<Longrightarrow> same_rpc c (foldl f c xs)"
  by (induction xs arbitrary: c) (simp_all, meson same_rpc_trans)

lemma same_exits_fold: "(\<And>c x. same_exits c (f c x)) \<Longrightarrow> same_exits c (foldl f c xs)"
  by (induction xs arbitrary: c) (simp_all, meson same_exits_trans)

lemma flush_owed_same: "same_rpc c (flush_owed J c)" "same_exits c (flush_owed J c)"
proof -
  let ?f = "\<lambda>c sid. let c = snd (send_notify_raw J ''resumePty'' (ce_session J sid) c)
       in c\<lparr>cn_producer_paused := removeAll sid (cn_producer_paused c)\<rparr>"
  let ?c = "c\<lparr>cn_producer_resumes_owed := []\<rparr>"
  have step: "same_rpc c (?f c sid) \<and> same_exits c (?f c sid)" for c sid
    using notify_same [of c J "''resumePty''" "ce_session J sid"]
    by (simp add: same_rpc_def same_exits_def Let_def)
  have "same_rpc ?c (foldl ?f ?c ids)" "same_exits ?c (foldl ?f ?c ids)" for ids
    using same_rpc_fold [of ?f ?c ids] same_exits_fold [of ?f ?c ids] step by blast+
  moreover have "same_rpc c ?c" "same_exits c ?c" by (simp_all add: same_rpc_def same_exits_def)
  ultimately show "same_rpc c (flush_owed J c)" "same_exits c (flush_owed J c)"
    unfolding flush_owed_def by (blast intro: same_rpc_trans same_exits_trans)+
qed

lemma resync_rpc: "same_rpc c (resync J infos c)"
proof -
  have "same_rpc c (foldl (\<lambda>c sid. claim_exit sid st c) c ids)" for c :: "'a client" and ids st
    by (rule same_rpc_fold) (rule claim_rpc)
  moreover have "same_rpc c (add_known ids c)" for c :: "'a client" and ids
    by (simp add: add_known_def same_rpc_def)
  ultimately show ?thesis
    unfolding resync_def Let_def
    by (auto split: option.split) (meson flush_owed_same(1) same_rpc_trans)
qed

subsection \<open>Requests settle once\<close>

text \<open>How often the caller of request \<open>n\<close> is answered, and how often it waits.\<close>

definition answers :: "nat \<Rightarrow> 'v client \<Rightarrow> nat" where
  "answers n c = length (filter (\<lambda>(i, r). unat i = n) (cn_results c))"

definition waits :: "nat \<Rightarrow> 'v client \<Rightarrow> nat" where
  "waits n c = length (filter (\<lambda>(i, g). unat i = n) (cn_pending c))"

definition settled :: "'v client \<Rightarrow> bool" where
  "settled c \<longleftrightarrow>
     (\<forall>n. answers n c + waits n c = (if 1 \<le> n \<and> n \<le> unat (cn_request_counter c) then 1 else 0))
     \<and> (\<forall>(i, g) \<in> set (cn_pending c). g = cn_generation c)
     \<and> (cn_connected c \<longleftrightarrow> cn_control c \<noteq> None) \<and> (\<not> cn_connected c \<longrightarrow> cn_pending c = [])"

lemma settled_same: "same_rpc c c' \<Longrightarrow> settled c \<Longrightarrow> settled c'"
  by (simp add: settled_def same_rpc_def answers_def waits_def)

lemma settled_new: "settled new_client"
  by (simp add: settled_def new_client_def answers_def waits_def)

lemma waits_one: "settled c \<Longrightarrow> map_of (cn_pending c) i \<noteq> None \<Longrightarrow> waits (unat i) c = 1 \<and> answers (unat i) c = 0"
proof -
  assume s: "settled c" and m: "map_of (cn_pending c) i \<noteq> None"
  then obtain g where "(i, g) \<in> set (cn_pending c)" by (meson map_of_SomeD not_None_eq)
  then have "0 < waits (unat i) c" unfolding waits_def by (force simp: filter_empty_conv)
  moreover have "answers (unat i) c + waits (unat i) c \<le> 1" using s by (simp add: settled_def)
  ultimately show ?thesis by linarith
qed

lemma settled_resolve:
  assumes "settled c" and "map_of (cn_pending c) i \<noteq> None"
  shows "settled ((remove_pending i c)\<lparr>cn_results := cn_results c @ [(i, r)]\<rparr>)"
proof -
  let ?c = "(remove_pending i c)\<lparr>cn_results := cn_results c @ [(i, r)]\<rparr>"
  have w: "waits n ?c = (if n = unat i then 0 else waits n c)" for n
  proof -
    have "filter (\<lambda>(j, g). unat j = n) (filter (\<lambda>(j, g). j \<noteq> i) ps)
        = (if n = unat i then [] else filter (\<lambda>(j, g). unat j = n) ps)" for ps :: "(u64 \<times> u64) list"
      by (induction ps) (auto simp: word_unat_eq_iff)
    then show ?thesis by (simp add: waits_def remove_pending_def)
  qed
  have a: "answers n ?c = answers n c + (if n = unat i then 1 else 0)" for n
    by (simp add: answers_def)
  have "answers n ?c + waits n ?c = answers n c + waits n c" for n
    using waits_one [OF assms] by (simp add: w a)
  then show ?thesis
    using assms(1) by (auto simp: settled_def remove_pending_def)
qed

lemma settled_disconnect:
  assumes "settled c"
  shows "settled (handle_disconnect g c)"
proof (cases "cn_generation c = g \<and> cn_connected c")
  case True
  let ?c = "handle_disconnect g c"
  have all: "\<forall>(i, h) \<in> set (cn_pending c). h = g" using assms True by (auto simp: settled_def)
  then have p: "filter (\<lambda>(i, h). h = g) (cn_pending c) = cn_pending c"
    "filter (\<lambda>(i, h). h \<noteq> g) (cn_pending c) = []"
    by (auto simp: filter_id_conv filter_empty_conv)
  have c: "cn_pending ?c = []" "cn_results ?c = cn_results c @ map (\<lambda>(i, h). (i, Err ConnectionLost)) (cn_pending c)"
    "cn_request_counter ?c = cn_request_counter c" "cn_connected ?c = False" "cn_control ?c = None"
    using True p by (simp_all add: handle_disconnect_def Let_def)
  have "answers n ?c = answers n c + waits n c" for n
    by (simp add: answers_def waits_def c filter_map comp_def case_prod_unfold)
  then show ?thesis using assms by (simp add: settled_def c waits_def)
next
  case False
  with assms show ?thesis by (auto simp: handle_disconnect_def)
qed

lemma settled_request:
  assumes "settled c" and "unat (cn_request_counter c) < 2 ^ 64 - 1"
  shows "settled (request_raw J m p c)"
proof -
  let ?i = "cn_request_counter c + 1"
  have i: "unat ?i = Suc (unat (cn_request_counter c))"
    using assms(2) by (simp add: unat_word_ariths)
  have next_settled: "settled c'"
    if "cn_request_counter c' = ?i"
      and "\<And>n. answers n c' + waits n c' = answers n c + waits n c + (if n = unat ?i then 1 else 0)"
      and "\<forall>(j, g) \<in> set (cn_pending c'). g = cn_generation c'"
      and "cn_connected c' \<longleftrightarrow> cn_control c' \<noteq> None" and "\<not> cn_connected c' \<longrightarrow> cn_pending c' = []"
    for c' :: "'a client"
  proof -
    have "answers n c' + waits n c' = (if 1 \<le> n \<and> n \<le> unat (cn_request_counter c') then 1 else 0)" for n
    proof -
      have "answers n c + waits n c = (if 1 \<le> n \<and> n \<le> unat (cn_request_counter c) then 1 else 0)"
        using assms(1) unfolding settled_def by blast
      with that(1,2) i show ?thesis by auto
    qed
    with that(3-5) show ?thesis unfolding settled_def by blast
  qed
  have c: "\<forall>(j, g) \<in> set (cn_pending c). g = cn_generation c" "cn_connected c \<longleftrightarrow> cn_control c \<noteq> None"
    "\<not> cn_connected c \<longrightarrow> cn_pending c = []" using assms(1) unfolding settled_def by blast+
  define d where "d = c\<lparr>cn_request_counter := ?i\<rparr>"
  have failed: "settled (d\<lparr>cn_results := cn_results c @ [(?i, Err e)]\<rparr>)" for e
    by (rule next_settled) (use c in \<open>simp_all add: d_def answers_def waits_def\<close>)
  have sent: "settled (d\<lparr>cn_pending := (?i, cn_generation c) # cn_pending c, cn_control := Some q\<rparr>)"
    if "cn_control c \<noteq> None" for q
    by (rule next_settled) (use c that in \<open>simp_all add: d_def answers_def waits_def\<close>)
  show ?thesis
    using failed sent unfolding request_raw_def Let_def d_def
    by (auto split: result.split option.split)
qed

definition requests :: "'v client_event list \<Rightarrow> nat" where
  "requests evs = length (filter (\<lambda>e. case e of SendRequest m p \<Rightarrow> True | _ \<Rightarrow> False) evs)"

lemma request_counter: "cn_request_counter (request_raw J m p c) = cn_request_counter c + 1"
  by (simp add: request_raw_def Let_def split: result.split option.split)

lemma begin_counter [simp]:
  "cn_request_counter (handle_disconnect g c) = cn_request_counter c"
  "cn_request_counter (do_connect c) = cn_request_counter c"
  by (simp_all add: handle_disconnect_def do_connect_def Let_def)

lemma settled_connect: "settled c \<Longrightarrow> \<not> cn_connected c \<Longrightarrow> settled (do_connect c)"
proof -
  assume s: "settled c" and "\<not> cn_connected c"
  have "answers n (do_connect c) = answers n c" "waits n (do_connect c) = waits n c"
    "cn_pending (do_connect c) = cn_pending c" for n
    by (simp_all add: do_connect_def answers_def waits_def)
  moreover have "cn_pending c = []" "\<forall>n. answers n c + waits n c = (if 1 \<le> n \<and> n \<le> unat (cn_request_counter c) then 1 else 0)"
    using s \<open>\<not> cn_connected c\<close> unfolding settled_def by blast+
  ultimately show ?thesis by (simp add: settled_def) (simp add: do_connect_def)
qed

lemma settled_same_counter:
  "same_rpc c c' \<Longrightarrow> settled c \<Longrightarrow> settled c' \<and> cn_request_counter c' = cn_request_counter c"
  using settled_same by (simp add: same_rpc_def)

lemma control_line_settled:
  "settled c \<Longrightarrow> settled (control_line J l c) \<and> cn_request_counter (control_line J l c) = cn_request_counter c"
  using settled_resolve [of c]
  by (auto simp: control_line_def remove_pending_def split: result.split control_message.split)

lemma settled_step:
  assumes "settled c" and "unat (cn_request_counter c) + requests (e # evs) < 2 ^ 64"
  shows "settled (client_step J c e)
     \<and> unat (cn_request_counter (client_step J c e)) + requests evs < 2 ^ 64"
proof (cases "\<exists>m p. e = SendRequest m p")
  case True
  then obtain m p where e: "e = SendRequest m p" by blast
  then have lt: "unat (cn_request_counter c) < 2 ^ 64 - 1" using assms(2) by (simp add: requests_def)
  then have "unat (cn_request_counter c + 1) = Suc (unat (cn_request_counter c))"
    by (simp add: unat_word_ariths)
  with e lt assms show ?thesis
    by (simp add: settled_request request_counter requests_def)
next
  case False
  then have r: "requests (e # evs) = requests evs" by (cases e) (simp_all add: requests_def)
  have "settled (client_step J c e) \<and> cn_request_counter (client_step J c e) = cn_request_counter c"
  proof (cases e)
    case (ControlLine l)
    with assms(1) control_line_settled [OF assms(1)] show ?thesis by simp
  next
    case (RequestDeadline i m)
    with assms(1) settled_resolve [OF assms(1), of i "Err (Timeout m)"] show ?thesis
      by (simp add: request_timeout_def remove_pending_def)
  next
    case (SendRequest m p)
    with False show ?thesis by blast
  next
    case (SubscribeOp sid)
    then have "same_rpc c (client_step J c e)" by (simp add: subscribe_def same_rpc_def)
    then show ?thesis using assms(1) by (rule settled_same_counter)
  next
    case (UnsubscribeOp sid)
    then have "same_rpc c (client_step J c e)" by (simp add: unsubscribe_def same_rpc_def)
    then show ?thesis using assms(1) by (rule settled_same_counter)
  qed (simp_all add: assms(1) settled_connect settled_disconnect
      settled_same_counter [OF notify_same(1) assms(1)] settled_same_counter [OF pause_same(1) assms(1)]
      settled_same_counter [OF resume_same(1) assms(1)] settled_same_counter [OF frame_rpc assms(1)]
      settled_same_counter [OF resync_rpc assms(1)] settled_same_counter [OF create_end_rpc assms(1)]
      settled_same_counter [OF ack_same(1) assms(1)])
  with assms(2) r show ?thesis by simp
qed

lemma settled_run: "settled c \<Longrightarrow> unat (cn_request_counter c) + requests evs < 2 ^ 64 \<Longrightarrow> settled (client_run J evs c)"
proof (induction evs arbitrary: c)
  case (Cons e evs)
  then have "settled (client_run J evs (client_step J c e))"
    using settled_step [OF Cons.prems] by blast
  then show ?case by (simp add: client_run_def)
qed (simp add: client_run_def)

subsection \<open>Exits are claimed\<close>

definition exits :: "string \<Rightarrow> 'v client \<Rightarrow> nat" where
  "exits sid c = length (filter (\<lambda>(s, e). s = sid \<and> (\<exists>st. e = OnExit st)) (cn_events c))"

definition believed :: "string \<Rightarrow> 'v client \<Rightarrow> nat" where
  "believed sid c = (if sid \<in> set (cn_known_alive c) then 1 else 0)"

text \<open>An event that makes the client believe a session alive, or changes its subscriber.\<close>

fun introduces :: "string \<Rightarrow> 'v client_event \<Rightarrow> bool" where
  "introduces sid (CreateDone s v) = (s = sid)"
| "introduces sid (Resync (Some infos)) = (sid \<in> set (map si_session_id infos))"
| "introduces sid (UnsubscribeOp s) = (s = sid)"
| "introduces sid _ = False"

definition accounted :: "string \<Rightarrow> 'v client \<Rightarrow> 'v client \<Rightarrow> bool" where
  "accounted sid c c' \<longleftrightarrow> exits sid c' + believed sid c' = exits sid c + believed sid c
     \<and> (sid \<in> set (cn_subscribers c) \<longrightarrow> sid \<in> set (cn_subscribers c'))"

lemma accounted_refl [simp]: "accounted sid c c"
  by (simp add: accounted_def)

lemma accounted_trans: "accounted sid a b \<Longrightarrow> accounted sid b c \<Longrightarrow> accounted sid a c"
  by (simp add: accounted_def)

lemma accounted_same: "same_exits c c' \<Longrightarrow> accounted sid c c'"
  by (simp add: accounted_def same_exits_def exits_def believed_def)

lemma accounted_claim: "sid \<in> set (cn_subscribers c) \<Longrightarrow> accounted sid c (claim_exit s st c)"
  by (auto simp: accounted_def claim_exit_def deliver_event_def forget_exited_def exits_def believed_def)

lemma accounted_deliver: "(\<And>st. e \<noteq> OnExit st) \<Longrightarrow> accounted sid c (deliver_event s e c)"
  by (auto simp: accounted_def deliver_event_def exits_def believed_def)

lemma accounted_frame: "sid \<in> set (cn_subscribers c) \<Longrightarrow> accounted sid c (dispatch_frame J f c)"
proof (cases "fr_kind f")
  case DataFrame
  let ?c = "(observe_seq (fr_session_id f) (fr_seq f) c)
      \<lparr>cn_cold_cache := cache_remove (fr_session_id f) (cn_cold_cache (observe_seq (fr_session_id f) (fr_seq f) c))\<rparr>"
  have "accounted sid c ?c" by (rule accounted_same) (simp add: same_exits_def observe_seq_def)
  moreover have "accounted sid ?c (deliver_event (fr_session_id f) (OnData (fr_seq f) (fr_payload f)) ?c)"
    by (rule accounted_deliver) simp
  ultimately show ?thesis using DataFrame accounted_trans by (simp add: dispatch_frame_def Let_def)
next
  case ResizeFrame
  then show ?thesis by (auto simp: dispatch_frame_def intro: accounted_deliver split: option.split)
next
  case ExitFrame
  assume "sid \<in> set (cn_subscribers c)"
  then show ?thesis using ExitFrame by (simp add: dispatch_frame_def accounted_claim)
qed

lemma accounted_claims:
  "sid \<in> set (cn_subscribers c) \<Longrightarrow> accounted sid c (foldl (\<lambda>c s. claim_exit s st c) c ids)"
proof (induction ids arbitrary: c)
  case (Cons s ids)
  note one = accounted_claim [OF Cons.prems, of s st]
  then have "sid \<in> set (cn_subscribers (claim_exit s st c))" using Cons.prems by (simp add: accounted_def)
  from accounted_trans [OF one Cons.IH [OF this]] show ?case by simp
qed simp

lemma add_known_set: "set (cn_known_alive (add_known ids c)) = set (cn_known_alive c) \<union> set ids"
proof -
  have "set (foldl (\<lambda>k s. List.insert s k) k ids) = set k \<union> set ids" for k :: "string list"
    by (induction ids arbitrary: k) auto
  then show ?thesis by (simp add: add_known_def)
qed

lemma accounted_resync:
  assumes "sid \<in> set (cn_subscribers c)" and "\<not> introduces sid (Resync infos)"
  shows "accounted sid c (resync J infos c)"
proof (cases infos)
  case None
  then show ?thesis by (simp add: resync_def)
next
  case (Some listed)
  let ?live = "map si_session_id listed"
  let ?c = "foldl (\<lambda>c s. claim_exit s \<lparr>es_code = None, es_signal = None\<rparr> c) c
      (filter (\<lambda>s. s \<notin> set ?live) (cn_known_alive c))"
  have one: "accounted sid c ?c" using assms(1) by (rule accounted_claims)
  have "sid \<notin> set ?live" using assms(2) Some by simp
  then have "accounted sid ?c (add_known ?live ?c)"
    using add_known_set [of ?live ?c] by (simp add: accounted_def believed_def exits_def add_known_def)
  moreover have "accounted sid (add_known ?live ?c) (flush_owed J (add_known ?live ?c))"
    by (rule accounted_same) (rule flush_owed_same)
  ultimately have "accounted sid c (flush_owed J (add_known ?live ?c))"
    using one by (blast intro: accounted_trans)
  then show ?thesis using Some by (simp add: resync_def Let_def)
qed

lemma accounted_step:
  assumes "sid \<in> set (cn_subscribers c)" and "\<not> introduces sid e"
  shows "accounted sid c (client_step J c e)"
proof (cases e)
  case (CreateDone s v)
  with assms show ?thesis
    by (auto simp: accounted_def create_end_def exits_def believed_def Let_def)
next
  case (Resync infos)
  with assms show ?thesis by (simp add: accounted_resync)
next
  case (SubscribeOp s)
  then show ?thesis by (simp add: subscribe_def accounted_def exits_def believed_def)
next
  case (UnsubscribeOp s)
  with assms show ?thesis by (simp add: unsubscribe_def accounted_def exits_def believed_def)
next
  case (FrameIn f)
  with assms show ?thesis by (simp add: accounted_frame)
next
  case (ControlLine l)
  then show ?thesis
    by (auto intro!: accounted_same simp: control_line_def remove_pending_def same_exits_def
        split: result.split control_message.split)
qed (auto intro!: accounted_same notify_same pause_same resume_same ack_same
    simp: do_connect_def handle_disconnect_def request_raw_def request_timeout_def remove_pending_def
      same_exits_def Let_def split: result.split option.split)

subsection \<open>The cache\<close>

definition cache_ok :: "cold_cache \<Rightarrow> bool" where
  "cache_ok c \<longleftrightarrow> distinct (cc_order c) \<and> dom (map_of (cc_entries c)) = set (cc_order c)"

lemma dom_delete: "dom (map_of (AList.delete k es)) = dom (map_of es) - {k}"
  by (auto simp: delete_conv' dom_def)

lemma dom_update: "dom (map_of (AList.update k v es)) = insert k (dom (map_of es))"
  by (auto simp: update_conv' dom_def)

lemma cache_ok_fresh: "cache_ok c \<Longrightarrow> map_of (cc_entries c) k = None \<longleftrightarrow> k \<notin> set (cc_order c)"
  by (simp add: cache_ok_def) (metis domIff)

lemma evict_ok:
  assumes "distinct order" and "dom (map_of entries) = set order"
  shows "cache_ok (evict entries order) \<and> length (cc_order (evict entries order)) \<le> COLD_CACHE_MAX_ENTRIES"
  using assms
proof (induction order arbitrary: entries)
  case Nil
  then show ?case by (simp add: cache_ok_def)
next
  case (Cons o1 os)
  have "cache_ok (evict (AList.delete o1 entries) os)
     \<and> length (cc_order (evict (AList.delete o1 entries) os)) \<le> COLD_CACHE_MAX_ENTRIES"
    using Cons.prems by (intro Cons.IH) (auto simp: dom_delete)
  then show ?case using Cons.prems by (simp add: cache_ok_def)
qed

lemma cache_set_ok:
  assumes "cache_ok c" and "length (cc_order c) \<le> COLD_CACHE_MAX_ENTRIES"
  shows "cache_ok (cache_set sid p c) \<and> length (cc_order (cache_set sid p c)) \<le> COLD_CACHE_MAX_ENTRIES"
proof (cases "map_of (cc_entries c) sid = None")
  case True
  then have "sid \<notin> set (cc_order c)" using cache_ok_fresh [OF assms(1)] by simp
  then have "distinct (cc_order c @ [sid])"
    "dom (map_of (AList.update sid p (cc_entries c))) = set (cc_order c @ [sid])"
    using assms(1) by (auto simp: cache_ok_def dom_update)
  from evict_ok [OF this] True show ?thesis by (simp add: cache_set_def Let_def)
next
  case False
  then have "sid \<in> set (cc_order c)" using cache_ok_fresh [OF assms(1)] by simp
  with assms False show ?thesis by (auto simp: cache_set_def cache_ok_def dom_update Let_def)
qed

lemma cache_remove_ok: "cache_ok c \<Longrightarrow> cache_ok (cache_remove sid c)
   \<and> length (cc_order (cache_remove sid c)) \<le> length (cc_order c)"
  by (auto simp: cache_ok_def cache_remove_def dom_delete)

text \<open>Which entries one more key evicts: the oldest, when the cache is full.\<close>

lemma evict_keeps:
  assumes "distinct order" and "order = before @ sid # after" and "length after < COLD_CACHE_MAX_ENTRIES"
  shows "map_of (cc_entries (evict entries order)) sid = map_of entries sid
     \<and> (\<exists>b. cc_order (evict entries order) = b @ sid # after)"
  using assms
proof (induction "before" arbitrary: order entries)
  case Nil
  then show ?case by auto
next
  case (Cons b bs)
  have "map_of (cc_entries (evict (AList.delete b entries) (bs @ sid # after))) sid = map_of (AList.delete b entries) sid
     \<and> (\<exists>b'. cc_order (evict (AList.delete b entries) (bs @ sid # after)) = b' @ sid # after)"
    using Cons.prems by (intro Cons.IH) simp_all
  moreover have "map_of (AList.delete b entries) sid = map_of entries sid"
    using Cons.prems by (auto simp: delete_conv')
  ultimately show ?case using Cons.prems(2) by (auto simp: delete_conv')
qed

lemma sets_keep:
  assumes "cache_ok c" and "length (cc_order c) \<le> COLD_CACHE_MAX_ENTRIES"
    and "cc_order c = before @ sid # after"
    and "length after + length others < COLD_CACHE_MAX_ENTRIES" and "sid \<notin> fst ` set others"
  shows "cache_get sid (foldl (\<lambda>c (k, q). cache_set k q c) c others) = cache_get sid c"
  using assms
proof (induction others arbitrary: c "before" after)
  case (Cons kq others)
  obtain k q where kq: "kq = (k, q)" by (cases kq)
  let ?d = "cache_set k q c"
  have ok: "cache_ok ?d" "length (cc_order ?d) \<le> COLD_CACHE_MAX_ENTRIES"
    using cache_set_ok [OF Cons.prems(1,2)] by simp_all
  have ne: "k \<noteq> sid" "sid \<notin> fst ` set others" using Cons.prems(5) kq by auto
  have "\<exists>b a. cc_order ?d = b @ sid # a \<and> length a + length others < COLD_CACHE_MAX_ENTRIES
      \<and> cache_get sid ?d = cache_get sid c"
  proof (cases "map_of (cc_entries c) k = None")
    case True
    then have "k \<notin> set (cc_order c)" using cache_ok_fresh [OF Cons.prems(1)] by simp
    then have "distinct (cc_order c @ [k])" using Cons.prems(1) by (simp add: cache_ok_def)
    from evict_keeps [OF this, of "before" sid "after @ [k]" "AList.update k q (cc_entries c)"] Cons.prems(3,4)
    obtain b where "cc_order (evict (AList.update k q (cc_entries c)) (cc_order c @ [k])) = b @ sid # after @ [k]"
      "map_of (cc_entries (evict (AList.update k q (cc_entries c)) (cc_order c @ [k]))) sid
         = map_of (AList.update k q (cc_entries c)) sid" by auto
    with True ne(1) Cons.prems(4) show ?thesis
      by (intro exI [of _ b] exI [of _ "after @ [k]"])
        (simp add: cache_set_def cache_get_def update_conv' Let_def)
  next
    case False
    with Cons.prems(3,4) ne(1) show ?thesis
      by (intro exI [of _ "before"] exI [of _ after])
        (auto simp: cache_set_def cache_get_def update_conv' Let_def)
  qed
  then obtain b a where "cc_order ?d = b @ sid # a" "length a + length others < COLD_CACHE_MAX_ENTRIES"
    "cache_get sid ?d = cache_get sid c" by blast
  with Cons.IH [OF ok this(1,2) ne(2)] kq show ?case by simp
qed simp

subsection \<open>Owed resumes\<close>

lemma insert_fold_set: "set (foldl (\<lambda>k s. List.insert s k) k ids) = set k \<union> set ids"
  by (induction ids arbitrary: k) auto

text \<open>The line of a resume.\<close>

definition resume_line :: "'v client_env \<Rightarrow> string \<Rightarrow> string option" where
  "resume_line J sid =
     map_option (\<lambda>l. l @ [CHR 0x0A]) (ce_encode J (NotifyMsg \<lparr>nt_method = ''resumePty'', nt_params = ce_session J sid\<rparr>))"

lemma flush_owed_queue:
  assumes "cn_control c = Some q" and "\<forall>sid. resume_line J sid \<noteq> None"
  shows "cn_control (flush_owed J c) = Some (q @ map (\<lambda>sid. the (resume_line J sid)) (cn_producer_resumes_owed c))
     \<and> cn_producer_resumes_owed (flush_owed J c) = []
     \<and> set (cn_producer_paused (flush_owed J c)) = set (cn_producer_paused c) - set (cn_producer_resumes_owed c)"
proof -
  let ?f = "\<lambda>c sid. let c = snd (send_notify_raw J ''resumePty'' (ce_session J sid) c)
       in c\<lparr>cn_producer_paused := removeAll sid (cn_producer_paused c)\<rparr>"
  have one: "cn_control (?f c sid) = Some (q @ [the (resume_line J sid)])
      \<and> cn_producer_resumes_owed (?f c sid) = cn_producer_resumes_owed c
      \<and> cn_producer_paused (?f c sid) = removeAll sid (cn_producer_paused c)"
    if "cn_control c = Some q" for c q sid
    using that assms(2) [rule_format, of sid]
    by (auto simp: send_notify_raw_def encode_ndjson_line_def resume_line_def send_control_def Let_def)
  have "cn_control (foldl ?f c ids) = Some (q @ map (\<lambda>sid. the (resume_line J sid)) ids)
      \<and> cn_producer_resumes_owed (foldl ?f c ids) = cn_producer_resumes_owed c
      \<and> set (cn_producer_paused (foldl ?f c ids)) = set (cn_producer_paused c) - set ids"
    if "cn_control c = Some q" for c q ids
    using that
  proof (induction ids arbitrary: c q)
    case (Cons sid ids)
    from Cons.IH [of "?f c sid" "q @ [the (resume_line J sid)]"] one [OF Cons.prems, of sid]
    show ?case by (auto simp: Let_def)
  qed simp
  from this [of "c\<lparr>cn_producer_resumes_owed := []\<rparr>" q "cn_producer_resumes_owed c"] assms(1)
  show ?thesis by (simp add: flush_owed_def)
qed

lemma claim_sets:
  "set (cn_producer_resumes_owed (claim_exit s st c)) = set (cn_producer_resumes_owed c) - (if s \<in> set (cn_known_alive c) then {s} else {})"
  "cn_control (claim_exit s st c) = cn_control c"
  by (auto simp: claim_exit_def deliver_event_def forget_exited_def)

lemma claims_sets:
  "set (cn_producer_resumes_owed c) - set ids \<subseteq> set (cn_producer_resumes_owed (foldl (\<lambda>c s. claim_exit s st c) c ids))
   \<and> cn_control (foldl (\<lambda>c s. claim_exit s st c) c ids) = cn_control c"
proof (induction ids arbitrary: c)
  case (Cons s ids)
  from Cons.IH [of "claim_exit s st c"] claim_sets [of s st c] show ?case by (auto split: if_splits)
qed simp

subsection \<open>Properties\<close>

text \<open>
  C4. No request hangs and none is answered twice: whatever happens (replies, repeated or unknown
  replies, deadlines, disconnects of any generation, reconnects), every request ever made has
  exactly one answer or is waiting, and it can only wait on the connection that is live.
\<close>

theorem every_request_settles_once:
  assumes "requests evs < 2 ^ 64" and "1 \<le> n" and "n \<le> unat (cn_request_counter (client_run J evs new_client))"
  shows "answers n (client_run J evs new_client) + waits n (client_run J evs new_client) = 1
     \<and> (\<not> cn_connected (client_run J evs new_client) \<longrightarrow> waits n (client_run J evs new_client) = 0)
     \<and> (\<forall>(i, g) \<in> set (cn_pending (client_run J evs new_client)). g = cn_generation (client_run J evs new_client))"
proof -
  have "settled (client_run J evs new_client)"
    using assms(1) by (intro settled_run settled_new) (simp add: new_client_def)
  with assms(2,3) show ?thesis unfolding settled_def by (auto simp: waits_def)
qed

definition sample_client_env :: "string client_env" where
  "sample_client_env =
     \<lparr>ce_encode = (\<lambda>m. Some ''m''), ce_decode = (\<lambda>l. Some (Reply \<lparr>rr_id = 1, rr_result = Some l, rr_error = None\<rparr>)),
      ce_null = '''', ce_session = (\<lambda>sid. sid), ce_create = co_session_id, ce_bool = (\<lambda>v k. Some (v = k)),
      ce_cold = (\<lambda>v. \<lparr>cw_snapshot = v, cw_cols = 80, cw_rows = 24, cw_is_alternate_screen = False,
         cw_pending_escape_tail_ansi = None\<rparr>),
      ce_warm = (\<lambda>v. None), ce_sessions = (\<lambda>v. None), ce_exit = (\<lambda>b. None)\<rparr>"

theorem every_request_settles_once_witness:
  "answers 1 (client_run sample_client_env
     [Connect, SendRequest ''listSessions'' '''', Disconnect 1, ControlLine ''late'', Connect] new_client) = 1"
proof -
  let ?evs = "[Connect, SendRequest ''listSessions'' '''', Disconnect 1, ControlLine ''late'', Connect]"
  have "cn_request_counter (client_run sample_client_env ?evs new_client) = 1"
    "waits 1 (client_run sample_client_env ?evs new_client) = 0"
    by (simp_all add: client_run_def new_client_def do_connect_def request_raw_def encode_ndjson_line_def
        sample_client_env_def handle_disconnect_def control_line_def waits_def Let_def decode_ndjson_line_def
        MAX_CONTROL_LINE_BYTES_def trim_end_matches_def)
  then show ?thesis
    using every_request_settles_once [of ?evs 1 sample_client_env] by (simp add: requests_def)
qed

text \<open>
  C39. The exit of a session the client believes alive is delivered exactly once to its subscriber,
  whichever of the stream frame and the resync claims it first: over any events that neither
  introduce the session again nor drop its subscriber, deliveries plus belief stay constant.
\<close>

theorem exit_delivered_exactly_once:
  assumes "sid \<in> set (cn_subscribers c)" and "list_all (\<lambda>e. \<not> introduces sid e) evs"
  shows "exits sid (client_run J evs c) + believed sid (client_run J evs c) = exits sid c + believed sid c"
proof -
  have "accounted sid c (client_run J evs c)"
    using assms
  proof (induction evs arbitrary: c)
    case (Cons e evs)
    have one: "accounted sid c (client_step J c e)" using Cons.prems by (simp add: accounted_step)
    then have "sid \<in> set (cn_subscribers (client_step J c e))" using Cons.prems(1) by (simp add: accounted_def)
    with Cons have "accounted sid (client_step J c e) (client_run J evs (client_step J c e))" by simp
    with one show ?case using accounted_trans by (auto simp: client_run_def)
  qed (simp add: client_run_def)
  then show ?thesis by (simp add: accounted_def)
qed

definition one_session :: "string client" where
  "one_session = new_client\<lparr>cn_subscribers := [''s''], cn_known_alive := [''s'']\<rparr>"

definition exit_of_s :: stream_frame where
  "exit_of_s = \<lparr>fr_kind = ExitFrame, fr_session_id = ''s'', fr_seq = 0, fr_payload = []\<rparr>"

theorem exit_delivered_exactly_once_witness:
  "exits ''s'' (client_run sample_client_env [Resync (Some []), FrameIn exit_of_s, FrameIn exit_of_s] one_session) = 1"
proof -
  let ?evs = "[Resync (Some []), FrameIn exit_of_s, FrameIn exit_of_s]"
  have "believed ''s'' (client_run sample_client_env ?evs one_session) = 0"
    by (simp add: client_run_def resync_def one_session_def claim_exit_def deliver_event_def forget_exited_def
        flush_owed_def add_known_def dispatch_frame_def exit_of_s_def believed_def new_client_def)
  then show ?thesis
    using exit_delivered_exactly_once [of "''s''" one_session ?evs sample_client_env]
    by (simp add: one_session_def exits_def believed_def new_client_def)
qed

text \<open>
  A cold-restore payload is sticky: it is answered again to every later mount until it is
  acknowledged, replaced or superseded by output, as long as fewer than 64 further payloads arrive; and
  the cache never holds more than 64.
\<close>

theorem cold_payload_is_sticky:
  assumes "cache_ok c" and "length (cc_order c) \<le> COLD_CACHE_MAX_ENTRIES"
    and "map_of (cc_entries c) sid = None" and "length others < COLD_CACHE_MAX_ENTRIES" and "sid \<notin> fst ` set others"
  shows "cache_get sid (foldl (\<lambda>c (k, q). cache_set k q c) (cache_set sid p c) others) = Some p
     \<and> length (cc_order (foldl (\<lambda>c (k, q). cache_set k q c) (cache_set sid p c) others)) \<le> COLD_CACHE_MAX_ENTRIES"
proof -
  let ?d = "cache_set sid p c"
  have fresh: "sid \<notin> set (cc_order c)" using cache_ok_fresh [OF assms(1)] assms(3) by simp
  then have dist: "distinct (cc_order c @ [sid])" using assms(1) by (simp add: cache_ok_def)
  from evict_keeps [OF dist, of "cc_order c" sid "[]" "AList.update sid p (cc_entries c)"] assms(3)
  obtain b where d: "cc_order ?d = b @ sid # []" "cache_get sid ?d = Some p"
    by (auto simp: cache_set_def cache_get_def update_conv' COLD_CACHE_MAX_ENTRIES_def Let_def)
  note ok = cache_set_ok [OF assms(1,2), of sid p]
  have "length (cc_order (foldl (\<lambda>c (k, q). cache_set k q c) e others)) \<le> COLD_CACHE_MAX_ENTRIES"
    if "cache_ok e \<and> length (cc_order e) \<le> COLD_CACHE_MAX_ENTRIES" for e
    using that by (induction others arbitrary: e) (auto simp: cache_set_ok)
  with ok d(2) sets_keep [OF _ _ d(1), of others] assms(4,5) show ?thesis by simp
qed

theorem cold_payload_is_sticky_witness:
  "cache_get ''a'' (cache_set ''b'' (ce_cold sample_client_env ''y'')
      (cache_set ''a'' (ce_cold sample_client_env ''x'') new_cold_cache)) = Some (ce_cold sample_client_env ''x'')"
  using cold_payload_is_sticky [of new_cold_cache "''a''" "[(''b'', ce_cold sample_client_env ''y'')]"
      "ce_cold sample_client_env ''x''"]
  by (simp add: cache_ok_def new_cold_cache_def COLD_CACHE_MAX_ENTRIES_def)

text \<open>
  A reconnect leaves no reader parked: every session that was paused when the connection dropped and
  that the daemon still lists is sent its resume on the new connection, and is owed nothing more.
\<close>

theorem reconnect_resumes_every_paused_session:
  assumes "cn_connected c" and "sid \<in> set (cn_producer_paused c)"
    and "sid \<in> set (map si_session_id infos)" and "\<forall>s. resume_line J s \<noteq> None"
  shows "let c' = resync J (Some infos) (do_connect (reset_connection c)) in
     (\<exists>q. cn_control c' = Some q \<and> the (resume_line J sid) \<in> set q)
     \<and> cn_producer_resumes_owed c' = [] \<and> sid \<notin> set (cn_producer_paused c')"
proof -
  let ?d = "do_connect (reset_connection c)" and ?live = "map si_session_id infos"
  let ?e = "add_known ?live (foldl (\<lambda>c s. claim_exit s \<lparr>es_code = None, es_signal = None\<rparr> c) ?d
      (filter (\<lambda>s. s \<notin> set ?live) (cn_known_alive ?d)))"
  have d: "sid \<in> set (cn_producer_resumes_owed ?d)" "cn_control ?d = Some []"
    using assms(1,2) by (simp_all add: do_connect_def reset_connection_def handle_disconnect_def Let_def insert_fold_set)
  have "sid \<notin> set (filter (\<lambda>s. s \<notin> set ?live) (cn_known_alive ?d))" using assms(3) by simp
  then have e: "sid \<in> set (cn_producer_resumes_owed ?e)" "cn_control ?e = Some []"
    using claims_sets [of ?d "filter (\<lambda>s. s \<notin> set ?live) (cn_known_alive ?d)" "\<lparr>es_code = None, es_signal = None\<rparr>"] d
    by (auto simp: add_known_def)
  have "resync J (Some infos) ?d = flush_owed J ?e" by (simp add: resync_def Let_def)
  with flush_owed_queue [OF e(2) assms(4)] e(1) show ?thesis by (auto simp: Let_def)
qed

theorem reconnect_resumes_every_paused_session_witness:
  "cn_producer_resumes_owed (resync sample_client_env
      (Some [\<lparr>si_session_id = ''s'', si_is_alive = True, si_cols = 80, si_rows = 24, si_pid = None\<rparr>])
      (do_connect (reset_connection (one_session\<lparr>cn_connected := True, cn_producer_paused := [''s'']\<rparr>)))) = []"
proof -
  have "\<forall>s. resume_line sample_client_env s \<noteq> None" by (simp add: resume_line_def sample_client_env_def)
  from reconnect_resumes_every_paused_session [OF _ _ _ this, of "one_session\<lparr>cn_connected := True, cn_producer_paused := [''s'']\<rparr>" "''s''"
      "[\<lparr>si_session_id = ''s'', si_is_alive = True, si_cols = 80, si_rows = 24, si_pid = None\<rparr>]"]
  show ?thesis by (simp add: Let_def)
qed

text \<open>
  The exit of a child that ends before its create is answered is lost: its frame finds the session
  not yet believed alive and is dropped, and the answer of the create then makes the client believe
  it alive, with nobody left to report the exit on this connection.
\<close>

theorem fast_exit_is_swallowed:
  assumes "sid \<notin> set (cn_known_alive c)" and "fr_kind f = ExitFrame" and "fr_session_id f = sid"
  shows "let c' = snd (create_end J sid v (dispatch_frame J f c)) in
     cn_events c' = cn_events c \<and> sid \<in> set (cn_known_alive c')"
  using assms by (simp add: dispatch_frame_def claim_exit_def create_end_def Let_def)

theorem fast_exit_is_swallowed_witness:
  "cn_events (snd (create_end sample_client_env ''s'' ''isNew''
     (dispatch_frame sample_client_env exit_of_s (subscribe ''s'' new_client)))) = []"
proof -
  have "''s'' \<notin> set (cn_known_alive (subscribe ''s'' (new_client :: string client)))"
    "cn_events (subscribe ''s'' (new_client :: string client)) = []"
    by (simp_all add: subscribe_def new_client_def)
  with fast_exit_is_swallowed [of "''s''" "subscribe ''s'' (new_client :: string client)" exit_of_s sample_client_env "''isNew''"]
  show ?thesis by (simp add: exit_of_s_def Let_def)
qed

text \<open>
  A retained payload outlives its session: after the client killed the session and saw it exit, the
  next create of the id is answered from the cache and sends the daemon nothing, so no shell is
  started until the payload is acknowledged.
\<close>

theorem cached_payload_answers_for_a_dead_session:
  assumes "cache_get (co_session_id req) (cn_cold_cache c) = Some payload"
    and "fr_kind f = ExitFrame" and "fr_session_id f = co_session_id req"
  shows "let d = dispatch_frame J f (kill_request J (co_session_id req) c) in
     create_begin J req d = (Some \<lparr>ca_is_new = False, ca_is_cold_restore = True, ca_cold_restore = Some payload,
                                   ca_warm_reattach = None\<rparr>, d)
     \<and> co_session_id req \<notin> set (cn_known_alive d)"
proof -
  have "cn_cold_cache (request_raw J m p c) = cn_cold_cache c" for m p
    by (simp add: request_raw_def Let_def split: result.split option.split)
  moreover have "cn_cold_cache (dispatch_frame J f d) = cn_cold_cache d" for d
    using assms(2) by (simp add: dispatch_frame_def claim_exit_def deliver_event_def forget_exited_def)
  moreover have "fr_session_id f \<notin> set (cn_known_alive (dispatch_frame J f d))" for d
    using assms(2) by (simp add: dispatch_frame_def claim_exit_def deliver_event_def forget_exited_def)
  ultimately show ?thesis
    using assms(1,3) by (simp add: create_begin_def kill_request_def Let_def)
qed

theorem cached_payload_answers_for_a_dead_session_witness:
  "fst (create_begin sample_client_env
      \<lparr>co_session_id = ''s'', co_cwd = None, co_cols = 80, co_rows = 24, co_env = [], co_scrollback_bytes = None\<rparr>
      (dispatch_frame sample_client_env exit_of_s (kill_request sample_client_env ''s''
         (snd (create_end sample_client_env ''s'' ''isColdRestore'' new_client))))) \<noteq> None"
proof -
  let ?req = "\<lparr>co_session_id = ''s'', co_cwd = None, co_cols = 80, co_rows = 24, co_env = [], co_scrollback_bytes = None\<rparr>"
  have "cache_get (co_session_id ?req) (cn_cold_cache (snd (create_end sample_client_env ''s'' ''isColdRestore'' new_client)))
      = Some (ce_cold sample_client_env ''isColdRestore'')"
    by (simp add: create_end_def cache_set_def cache_get_def sample_client_env_def new_client_def new_cold_cache_def
        COLD_CACHE_MAX_ENTRIES_def Let_def)
  from cached_payload_answers_for_a_dead_session [OF this, of exit_of_s sample_client_env]
  show ?thesis by (simp add: exit_of_s_def Let_def)
qed

end
