(* ===== verification/Config.thy ===== *)
theory Config
  imports RustStr "HOL-Library.AList"
begin

text \<open>
  \<open>grove-core/src/config.rs\<close>: the configuration and its normal form, loading and saving, and the removal of a
  worktree from the layout and snapshot stores.

  \<open>serde_json\<close>, the file system and \<open>canonicalize\<close> are functions of the environment. A \<open>BTreeMap\<close> and a JSON
  object are lists of pairs with distinct keys.
\<close>

subsection \<open>Data\<close>

datatype link_mode = LinkExternal | LinkInternal | LinkExternalWithLocalhostInternal
datatype view_mode = ViewDefault | GroupByOrgs

record menu_item =
  mi_id :: string
  mi_display_name :: "string option"
  mi_open_command :: "string option"

datatype category_icon = Emoji string | Lucide string

record project_category =
  pc_id :: string
  pc_name :: string
  pc_color :: string
  pc_icon :: category_icon

definition DEFAULT_PROJECT_CATEGORY_ID :: string where "DEFAULT_PROJECT_CATEGORY_ID = ''default''"

definition DEFAULT_DAEMON_SCROLLBACK_BYTES :: u64 where "DEFAULT_DAEMON_SCROLLBACK_BYTES = 2 * 1024 * 1024"

record project_entry =
  pj_id :: string
  pj_name :: string
  pj_url :: string
  pj_org :: string
  pj_repo :: string
  pj_source_path :: string
  pj_worktree_order :: "string list"
  pj_stacked_parents :: "(string \<times> string) list"
  pj_base_branch :: "string option"
  pj_collapsed :: bool
  pj_focused :: bool
  pj_category_id :: "string option"
  pj_env_sync :: "string list option"

record grove_preferences =
  pf_link_mode :: link_mode
  pf_view_mode :: view_mode
  pf_collapsed_orgs :: "string list"
  pf_org_order :: "string list"
  pf_git_gui_items :: "menu_item list"
  pf_ide_items :: "menu_item list"
  pf_categories :: "project_category list"
  pf_scrollback_bytes :: u64
  pf_legacy_ide :: "menu_item option"

text \<open>The named colours, the font and its size by the bits of the \<open>f64\<close>.\<close>

record terminal_theme =
  tt_colors :: "(string \<times> string) list"
  tt_font_family :: string
  tt_font_size :: u64

record grove_config =
  gc_projects :: "project_entry list"
  gc_base_dir :: "string option"
  gc_theme :: "terminal_theme option"
  gc_preferences :: "grove_preferences option"

record app_config =
  ac_base_dir :: string
  ac_theme :: "terminal_theme option"
  ac_preferences :: grove_preferences

definition default_item :: "string \<Rightarrow> menu_item" where
  "default_item i = \<lparr>mi_id = i, mi_display_name = None, mi_open_command = None\<rparr>"

definition default_preferences :: grove_preferences where
  "default_preferences =
     \<lparr>pf_link_mode = LinkExternalWithLocalhostInternal, pf_view_mode = ViewDefault, pf_collapsed_orgs = [],
      pf_org_order = [], pf_git_gui_items = [default_item ''sourcetree''],
      pf_ide_items = [default_item ''webstorm''], pf_categories = [],
      pf_scrollback_bytes = DEFAULT_DAEMON_SCROLLBACK_BYTES, pf_legacy_ide = None\<rparr>"

definition default_config :: grove_config where
  "default_config = \<lparr>gc_projects = [], gc_base_dir = None, gc_theme = None, gc_preferences = None\<rparr>"

text \<open>\<open>PartialEq\<close> of the preferences leaves the legacy field out.\<close>

definition same_preferences :: "grove_preferences \<Rightarrow> grove_preferences \<Rightarrow> bool" where
  "same_preferences p q \<longleftrightarrow> p\<lparr>pf_legacy_ide := None\<rparr> = q\<lparr>pf_legacy_ide := None\<rparr>"

subsection \<open>Normal form\<close>

definition is_supported_ide_menu_item_id :: "string \<Rightarrow> bool" where
  "is_supported_ide_menu_item_id i \<longleftrightarrow>
     i \<in> {''webstorm'', ''vscode'', ''xcode'', ''android-studio'', ''intellij'', ''cursor'', ''sublime''}"

definition is_supported_git_gui_menu_item_id :: "string \<Rightarrow> bool" where
  "is_supported_git_gui_menu_item_id i \<longleftrightarrow> i \<in> {''sourcetree'', ''fork''}"

definition push_menu_item :: "(string \<Rightarrow> bool) \<Rightarrow> menu_item list \<Rightarrow> menu_item \<Rightarrow> menu_item list" where
  "push_menu_item supported normalized item =
     (let i = trim (mi_id item)
      in if i = [] \<or> \<not> supported i then normalized
         else if i \<in> mi_id ` set normalized then normalized
         else normalized @ [item\<lparr>mi_id := i\<rparr>])"

definition normalize_menu_items :: "(string \<Rightarrow> bool) \<Rightarrow> menu_item list \<Rightarrow> menu_item list" where
  "normalize_menu_items supported items = foldl (push_menu_item supported) [] items"

definition is_supported_project_category_icon_id :: "string \<Rightarrow> bool" where
  "is_supported_project_category_icon_id i \<longleftrightarrow>
     i \<in> {''sprout'', ''folder'', ''rocket'', ''flame'', ''bug'', ''wrench'', ''book'', ''palette'', ''database'',
          ''bot'', ''terminal'', ''briefcase'', ''star'', ''package'', ''code'', ''gem''}"

definition trim_and_limit_chars :: "string \<Rightarrow> nat \<Rightarrow> string" where
  "trim_and_limit_chars v n = take_chars n (trim v)"

definition normalize_project_category_icon :: "category_icon \<Rightarrow> category_icon option" where
  "normalize_project_category_icon icon =
     (case icon of
        Emoji v \<Rightarrow> (let v = trim_and_limit_chars v 4 in if v = [] then None else Some (Emoji v))
      | Lucide v \<Rightarrow>
          (let v = trim v in if v = [] \<or> \<not> is_supported_project_category_icon_id v then None else Some (Lucide v)))"

definition normalize_project_category_color :: "string \<Rightarrow> string option" where
  "normalize_project_category_color color =
     (let color = trim color
      in if length color = 7 \<and> starts_with ''#'' color \<and> list_all is_ascii_hexdigit (drop 1 color)
         then Some (map to_ascii_lowercase color) else None)"

definition push_category :: "project_category list \<Rightarrow> project_category \<Rightarrow> project_category list" where
  "push_category normalized c =
     (let i = trim (pc_id c); name = trim_and_limit_chars (pc_name c) 10
      in if i = [] \<or> i = DEFAULT_PROJECT_CATEGORY_ID then normalized
         else if i \<in> pc_id ` set normalized then normalized
         else if name = [] then normalized
         else case normalize_project_category_color (pc_color c) of
                None \<Rightarrow> normalized
              | Some color \<Rightarrow>
                  (case normalize_project_category_icon (pc_icon c) of
                     None \<Rightarrow> normalized
                   | Some icon \<Rightarrow> normalized @ [\<lparr>pc_id = i, pc_name = name, pc_color = color, pc_icon = icon\<rparr>]))"

definition normalize_project_categories :: "project_category list \<Rightarrow> project_category list" where
  "normalize_project_categories cs = foldl push_category [] cs"

definition normalized :: "grove_preferences \<Rightarrow> grove_preferences" where
  "normalized p =
     (let ide = (case pf_ide_items p of
                   [] \<Rightarrow> (case pf_legacy_ide p of Some item \<Rightarrow> [item] | None \<Rightarrow> [])
                 | items \<Rightarrow> items)
      in p\<lparr>pf_org_order := filter (\<lambda>org. trim org \<noteq> []) (pf_org_order p),
           pf_git_gui_items := normalize_menu_items is_supported_git_gui_menu_item_id (pf_git_gui_items p),
           pf_ide_items := normalize_menu_items is_supported_ide_menu_item_id ide,
           pf_categories := normalize_project_categories (pf_categories p),
           pf_legacy_ide := None\<rparr>)"

subsection \<open>Loading and saving\<close>

datatype config_error = ReadFailed | WriteFailed | ParseFailed

text \<open>\<open>cf_read\<close> is \<open>None\<close> for a file that exists and can not be read; \<open>cf_write\<close> creates the directory, too.\<close>

record 'w config_env =
  cf_exists :: "'w \<Rightarrow> bool"
  cf_read :: "'w \<Rightarrow> string option"
  cf_write :: "string \<Rightarrow> 'w \<Rightarrow> bool \<times> 'w"
  cf_parse :: "string \<Rightarrow> grove_config option"
  cf_render :: "grove_config \<Rightarrow> string"
  cf_default_base_dir :: string
  cf_detected_theme :: terminal_theme

definition load_config :: "('w, 'e) config_env_scheme \<Rightarrow> 'w \<Rightarrow> grove_config" where
  "load_config E w =
     (if \<not> cf_exists E w then default_config
      else unwrap_or default_config (cf_parse E (unwrap_or [] (cf_read E w))))"

definition save_config :: "('w, 'e) config_env_scheme \<Rightarrow> grove_config \<Rightarrow> 'w \<Rightarrow> (unit, config_error) result \<times> 'w" where
  "save_config E c w = (let (ok, w) = cf_write E (cf_render E c) w in (if ok then Ok () else Err WriteFailed, w))"

definition find_project_entry_by_id :: "('w, 'e) config_env_scheme \<Rightarrow> string \<Rightarrow> 'w \<Rightarrow> project_entry option" where
  "find_project_entry_by_id E i w = find (\<lambda>p. pj_id p = i) (gc_projects (load_config E w))"

definition load_app_config :: "('w, 'e) config_env_scheme \<Rightarrow> 'w \<Rightarrow> app_config" where
  "load_app_config E w =
     (let c = load_config E w
      in \<lparr>ac_base_dir = (case gc_base_dir c of
                           Some d \<Rightarrow> if trim d \<noteq> [] then d else cf_default_base_dir E
                         | None \<Rightarrow> cf_default_base_dir E),
          ac_theme = gc_theme c,
          ac_preferences = normalized (unwrap_or default_preferences (gc_preferences c))\<rparr>)"

definition save_app_config :: "('w, 'e) config_env_scheme \<Rightarrow> app_config \<Rightarrow> 'w \<Rightarrow> (unit, config_error) result \<times> 'w" where
  "save_app_config E a w =
     save_config E ((load_config E w)\<lparr>gc_base_dir := Some (ac_base_dir a), gc_theme := ac_theme a,
        gc_preferences := Some (normalized (ac_preferences a))\<rparr>) w"

definition save_grove_preferences ::
  "('w, 'e) config_env_scheme \<Rightarrow> grove_preferences \<Rightarrow> 'w \<Rightarrow> (unit, config_error) result \<times> 'w" where
  "save_grove_preferences E p w =
     save_config E ((load_config E w)\<lparr>gc_preferences := Some (normalized p)\<rparr>) w"

definition get_app_config_impl :: "('w, 'e) config_env_scheme \<Rightarrow> 'w \<Rightarrow> app_config" where
  "get_app_config_impl E w =
     (let a = load_app_config E w
      in a\<lparr>ac_theme := (case ac_theme a of Some t \<Rightarrow> Some t | None \<Rightarrow> Some (cf_detected_theme E))\<rparr>)"

subsection \<open>Removing a worktree\<close>

definition matching_worktree_keys :: "(string \<Rightarrow> string option) \<Rightarrow> string list \<Rightarrow> string \<Rightarrow> string list" where
  "matching_worktree_keys canonicalize keys worktree_path =
     (let normal = (\<lambda>p. unwrap_or p (canonicalize p))
      in filter (\<lambda>k. normal k = normal worktree_path) keys)"

text \<open>The entries left, and whether one was removed.\<close>

definition remove_worktree_entries ::
  "(string \<Rightarrow> string option) \<Rightarrow> (string \<times> 'v) list \<Rightarrow> string \<Rightarrow> (string \<times> 'v) list \<times> bool" where
  "remove_worktree_entries canonicalize m worktree_path =
     foldl (\<lambda>(m, removed) k. (AList.delete k m, removed \<or> map_of m k \<noteq> None)) (m, False)
       (matching_worktree_keys canonicalize (map fst m) worktree_path)"

text \<open>A JSON file: whether it exists, its text if it can be read; \<open>parse_first\<close> reads the first value of a text
  and gives the rest of it.\<close>

record ('v, 'w) json_store =
  js_exists :: "'w \<Rightarrow> bool"
  js_read :: "'w \<Rightarrow> string option"
  js_write :: "string \<Rightarrow> 'w \<Rightarrow> bool \<times> 'w"
  js_parse :: "string \<Rightarrow> 'v option"
  js_parse_first :: "string \<Rightarrow> ('v \<times> string) option"
  js_render :: "'v \<Rightarrow> string"

definition load_layouts_impl :: "('v, 'w) json_store \<Rightarrow> 'w \<Rightarrow> (string, config_error) result" where
  "load_layouts_impl J w =
     (if js_exists J w then (case js_read J w of Some s \<Rightarrow> Ok s | None \<Rightarrow> Err ReadFailed) else Ok ''{}'')"

definition save_layouts_impl :: "('v, 'w) json_store \<Rightarrow> string \<Rightarrow> 'w \<Rightarrow> (unit, config_error) result \<times> 'w" where
  "save_layouts_impl J s w = (let (ok, w) = js_write J s w in (if ok then Ok () else Err WriteFailed, w))"

definition remove_layouts_for_worktree ::
  "(string \<Rightarrow> string option) \<Rightarrow> ((string \<times> 'v) list, 'w) json_store \<Rightarrow> string \<Rightarrow> 'w
   \<Rightarrow> (unit, config_error) result \<times> 'w" where
  "remove_layouts_for_worktree canonicalize J worktree_path w =
     (case load_layouts_impl J w of
        Err e \<Rightarrow> (Err e, w)
      | Ok raw \<Rightarrow>
          (case js_parse J raw of
             None \<Rightarrow> (Err ParseFailed, w)
           | Some m \<Rightarrow>
               (let (m, removed) = remove_worktree_entries canonicalize m worktree_path
                in if removed then save_layouts_impl J (js_render J m) w else (Ok (), w))))"

definition load_snapshot_store ::
  "'v \<Rightarrow> ('v, 'w) json_store \<Rightarrow> 'w \<Rightarrow> ('v, config_error) result \<times> 'w" where
  "load_snapshot_store fresh J w =
     (if \<not> js_exists J w then (Ok fresh, w)
      else case js_read J w of
        None \<Rightarrow> (Err ReadFailed, w)
      | Some content \<Rightarrow>
          (case js_parse J content of
             Some store \<Rightarrow> (Ok store, w)
           | None \<Rightarrow>
               (case js_parse_first J content of
                  Some (store, trailing) \<Rightarrow>
                    if trim trailing = [] then (Err ParseFailed, w)
                    else (let (r, w) = save_layouts_impl J (js_render J store) w
                          in (map_ok (\<lambda>_. store) r, w))
                | None \<Rightarrow> (Err ParseFailed, w))))"

definition update_snapshot_store ::
  "'v \<Rightarrow> ('v, 'w) json_store \<Rightarrow> ('v \<Rightarrow> ('v \<times> 'r, config_error) result) \<Rightarrow> 'w \<Rightarrow> ('r, config_error) result \<times> 'w" where
  "update_snapshot_store fresh J update w =
     (case load_snapshot_store fresh J w of
        (Err e, w) \<Rightarrow> (Err e, w)
      | (Ok store, w) \<Rightarrow>
          (case update store of
             Err e \<Rightarrow> (Err e, w)
           | Ok (store, r) \<Rightarrow>
               (let (s, w) = save_layouts_impl J (js_render J store) w in (map_ok (\<lambda>_. r) s, w))))"

text \<open>\<open>TerminalSessionSnapshotStore\<close>; the snapshots themselves are \<open>'v\<close>.\<close>

record 'v snapshot_store =
  ss_version :: u32
  ss_worktrees :: "(string \<times> 'v) list"

definition default_snapshot_store :: "'v snapshot_store" where
  "default_snapshot_store = \<lparr>ss_version = 1, ss_worktrees = []\<rparr>"

definition remove_snapshot_for_worktree ::
  "(string \<Rightarrow> string option) \<Rightarrow> ('v snapshot_store, 'w) json_store \<Rightarrow> string \<Rightarrow> 'w
   \<Rightarrow> (unit, config_error) result \<times> 'w" where
  "remove_snapshot_for_worktree canonicalize J worktree_path w =
     update_snapshot_store default_snapshot_store J
       (\<lambda>store. Ok (store\<lparr>ss_worktrees := fst (remove_worktree_entries canonicalize (ss_worktrees store) worktree_path)\<rparr>, ())) w"

subsection \<open>Normal form of the preferences\<close>

lemma drop_any_prefix: "drop_any pats (p @ q) = p @ q \<Longrightarrow> drop_any pats p = p"
  if "\<And>x. x \<in> set pats \<Longrightarrow> x \<noteq> []"
proof -
  assume full: "drop_any pats (p @ q) = p @ q"
  have "find (\<lambda>x. x \<noteq> [] \<and> starts_with x p) pats = None"
  proof (rule ccontr)
    assume "find (\<lambda>x. x \<noteq> [] \<and> starts_with x p) pats \<noteq> None"
    then obtain x where "x \<in> set pats" "x \<noteq> []" "starts_with x p" by (auto simp: find_None_iff)
    then have "x \<in> set pats" "x \<noteq> []" "starts_with x (p @ q)" by (auto simp: starts_with_iff)
    moreover have "find (\<lambda>x. x \<noteq> [] \<and> starts_with x (p @ q)) pats = None"
      using drop_any_done [of pats "p @ q"] full by simp
    ultimately show False by (auto simp: find_None_iff)
  qed
  then show ?thesis by (simp add: drop_any.simps)
qed

lemma white_space_pieces: "x \<in> set white_space \<Longrightarrow> x \<noteq> []"
  by (auto simp: white_space_def)

lemma trim_bytes_idem: "trim_bytes (trim_bytes bs) = trim_bytes bs"
proof -
  let ?a = "drop_any white_space bs"
  let ?b = "drop_any (map rev white_space) (rev ?a)"
  obtain q where "rev ?a = q @ ?b" using drop_any_suffix by blast
  then have a: "?a = rev ?b @ rev q" by (metis rev_append rev_rev_ident)
  have "drop_any white_space (rev ?b @ rev q) = rev ?b @ rev q" using drop_any_idem [of white_space bs] a by simp
  then have "drop_any white_space (rev ?b) = rev ?b" 
    using drop_any_prefix [of white_space "rev ?b" "rev q"] white_space_pieces by blast
  then show ?thesis by (simp add: trim_bytes_def drop_any_idem)
qed

lemma trim_idem [simp]: "trim (trim s) = trim s"
  by (simp add: trim_def trim_bytes_idem)

definition menu_ok :: "(string \<Rightarrow> bool) \<Rightarrow> menu_item list \<Rightarrow> bool" where
  "menu_ok supported items \<longleftrightarrow> distinct (map mi_id items)
     \<and> list_all (\<lambda>m. trim (mi_id m) = mi_id m \<and> mi_id m \<noteq> [] \<and> supported (mi_id m)) items"

lemma push_menu_item_ok: "menu_ok supported ms \<Longrightarrow> menu_ok supported (push_menu_item supported ms m)"
  by (auto simp: push_menu_item_def Let_def menu_ok_def)

lemma menu_items_ok: "menu_ok supported (normalize_menu_items supported items)"
proof -
  have "menu_ok supported ms \<Longrightarrow> menu_ok supported (foldl (push_menu_item supported) ms items)" for ms
    by (induction items arbitrary: ms) (simp_all add: push_menu_item_ok)
  then show ?thesis by (simp add: normalize_menu_items_def menu_ok_def)
qed

lemma menu_items_fixed: "menu_ok supported items \<Longrightarrow> normalize_menu_items supported items = items"
proof -
  have "menu_ok supported (ms @ items) \<Longrightarrow> foldl (push_menu_item supported) ms items = ms @ items" for ms
  proof (induction items arbitrary: ms)
    case (Cons m items)
    then have "push_menu_item supported ms m = ms @ [m]"
      by (auto simp: push_menu_item_def Let_def menu_ok_def)
    with Cons.IH [of "ms @ [m]"] Cons.prems show ?case by simp
  qed simp
  from this [of "[]"] show "menu_ok supported items \<Longrightarrow> normalize_menu_items supported items = items"
    by (simp add: normalize_menu_items_def)
qed

definition color_ok :: "string \<Rightarrow> bool" where
  "color_ok c \<longleftrightarrow> normalize_project_category_color c = Some c"

definition category_ok :: "project_category \<Rightarrow> bool" where
  "category_ok c \<longleftrightarrow> trim (pc_id c) = pc_id c \<and> pc_id c \<noteq> [] \<and> pc_id c \<noteq> DEFAULT_PROJECT_CATEGORY_ID \<and> pc_name c \<noteq> []
     \<and> length (pc_color c) = 7 \<and> starts_with ''#'' (pc_color c)"

lemma color_shape: "normalize_project_category_color c = Some d \<Longrightarrow> length d = 7 \<and> starts_with ''#'' d"
proof -
  assume "normalize_project_category_color c = Some d"
  then have t: "length (trim c) = 7" "starts_with ''#'' (trim c)" "d = map to_ascii_lowercase (trim c)"
    by (auto simp: normalize_project_category_color_def Let_def split: if_splits)
  then obtain r where "trim c = CHR ''#'' # r" by (auto simp: starts_with_iff)
  with t show ?thesis by (auto simp: starts_with_def to_ascii_lowercase_def Let_def)
qed

lemma push_category_ok:
  "distinct (map pc_id cs) \<and> list_all category_ok cs \<Longrightarrow>
   distinct (map pc_id (push_category cs c)) \<and> list_all category_ok (push_category cs c)"
  by (auto simp: push_category_def Let_def category_ok_def dest: color_shape split: option.splits)

lemma categories_ok:
  "distinct (map pc_id (normalize_project_categories cs)) \<and> list_all category_ok (normalize_project_categories cs)"
proof -
  have "distinct (map pc_id ds) \<and> list_all category_ok ds \<Longrightarrow>
     distinct (map pc_id (foldl push_category ds cs)) \<and> list_all category_ok (foldl push_category ds cs)" for ds
  proof (induction cs arbitrary: ds)
    case (Cons c cs)
    from Cons.IH [OF push_category_ok [OF Cons.prems, of c]] show ?case by simp
  qed simp
  then show ?thesis by (simp add: normalize_project_categories_def)
qed

text \<open>
  Normalised preferences are well formed. In the result of \<open>normalized\<close> the menu items and categories have
  pairwise different, trimmed, non-empty ids; an item is one of the supported programs; no category is the
  default one, every category has a name and a seven-character colour; no organisation in the order is
  blank; a preferred program of the old format has become a menu item; and normalising once more changes
  nothing but, possibly, the categories.
\<close>

theorem normalized_preferences:
  "menu_ok is_supported_git_gui_menu_item_id (pf_git_gui_items (normalized p))
   \<and> menu_ok is_supported_ide_menu_item_id (pf_ide_items (normalized p))
   \<and> distinct (map pc_id (pf_categories (normalized p))) \<and> list_all category_ok (pf_categories (normalized p))
   \<and> (\<forall>org \<in> set (pf_org_order (normalized p)). trim org \<noteq> []) \<and> pf_legacy_ide (normalized p) = None
   \<and> normalized (normalized p)
       = (normalized p)\<lparr>pf_categories := normalize_project_categories (pf_categories (normalized p))\<rparr>"
proof -
  have ide: "menu_ok is_supported_ide_menu_item_id (pf_ide_items (normalized p))"
    by (simp add: normalized_def Let_def menu_items_ok)
  have git: "menu_ok is_supported_git_gui_menu_item_id (pf_git_gui_items (normalized p))"
    by (simp add: normalized_def Let_def menu_items_ok)
  have legacy: "pf_legacy_ide (normalized p) = None" by (simp add: normalized_def Let_def)
  have order: "pf_org_order (normalized p) = filter (\<lambda>org. trim org \<noteq> []) (pf_org_order p)"
    by (simp add: normalized_def Let_def)
  have "(case pf_ide_items (normalized p) of [] \<Rightarrow> (case pf_legacy_ide (normalized p) of Some item \<Rightarrow> [item] | None \<Rightarrow> [])
      | items \<Rightarrow> items) = pf_ide_items (normalized p)"
    by (simp add: legacy split: list.splits)
  then have "normalized (normalized p)
       = (normalized p)\<lparr>pf_categories := normalize_project_categories (pf_categories (normalized p))\<rparr>"
    using menu_items_fixed [OF ide] menu_items_fixed [OF git] legacy order
    by (subst normalized_def) (simp add: Let_def)
  moreover have "distinct (map pc_id (pf_categories (normalized p))) \<and> list_all category_ok (pf_categories (normalized p))"
    by (simp add: normalized_def Let_def categories_ok)
  ultimately show ?thesis using ide git legacy by (simp add: order)
qed

theorem normalized_preferences_witness:
  "pf_ide_items (normalized (default_preferences\<lparr>pf_ide_items := [], pf_legacy_ide := Some (default_item '' vscode '')\<rparr>))
     = [default_item ''vscode'']
   \<and> pf_legacy_ide (normalized default_preferences) = None"
proof -
  have "pf_ide_items (normalized (default_preferences\<lparr>pf_ide_items := [], pf_legacy_ide := Some (default_item '' vscode '')\<rparr>))
     = [default_item ''vscode'']" by code_simp
  with normalized_preferences [of default_preferences] show ?thesis by simp
qed

text \<open>
  Cutting a category name to ten characters can leave a blank at its end, which the next normalisation
  trims: the normal form is not stable, and a saved configuration is taken for changed when it is loaded
  again.
\<close>

theorem category_names_renormalize:
  "map pc_name (normalize_project_categories [\<lparr>pc_id = ''w'', pc_name = ''side work x'', pc_color = ''#00ff00'', pc_icon = Lucide ''star''\<rparr>])
     = [''side work '']
   \<and> map pc_name (normalize_project_categories (normalize_project_categories
       [\<lparr>pc_id = ''w'', pc_name = ''side work x'', pc_color = ''#00ff00'', pc_icon = Lucide ''star''\<rparr>]))
     = [''side work'']"
  by (intro conjI; code_simp)

subsection \<open>Stores\<close>

text \<open>What is written can be read back.\<close>

definition reads_back :: "('w, 'e) config_env_scheme \<Rightarrow> grove_config \<Rightarrow> bool" where
  "reads_back E c \<longleftrightarrow> cf_parse E (cf_render E c) = Some c
     \<and> (\<forall>s w. fst (cf_write E s w) \<longrightarrow> cf_exists E (snd (cf_write E s w)) \<and> cf_read E (snd (cf_write E s w)) = Some s)"

lemma save_config_Ok: "save_config E c w = (Ok (), w') \<Longrightarrow> reads_back E c \<Longrightarrow> load_config E w' = c"
  by (auto simp: save_config_def reads_back_def load_config_def case_prod_unfold Let_def split: if_splits)

text \<open>
  Settings survive a restart and saving them loses no project. After a successful save of the
  application settings, loading them gives the saved base directory (the default one for a blank one), theme
  and normalised preferences, and the projects of the file are the same as before.
\<close>

theorem app_config_roundtrip:
  assumes "save_app_config E a w = (Ok (), w')"
    and "reads_back E ((load_config E w)\<lparr>gc_base_dir := Some (ac_base_dir a), gc_theme := ac_theme a,
        gc_preferences := Some (normalized (ac_preferences a))\<rparr>)"
  shows "load_app_config E w' =
      \<lparr>ac_base_dir = (if trim (ac_base_dir a) \<noteq> [] then ac_base_dir a else cf_default_base_dir E),
       ac_theme = ac_theme a, ac_preferences = normalized (normalized (ac_preferences a))\<rparr>
    \<and> gc_projects (load_config E w') = gc_projects (load_config E w)"
  using save_config_Ok [OF assms(1) [unfolded save_app_config_def] assms(2)] by (simp add: load_app_config_def Let_def)

text \<open>A file that is written once, with the one configuration it can hold.\<close>

definition sample_app :: app_config where
  "sample_app = \<lparr>ac_base_dir = ''/data/grove'', ac_theme = None, ac_preferences = default_preferences\<rparr>"

definition sample_saved :: grove_config where
  "sample_saved = default_config\<lparr>gc_base_dir := Some ''/data/grove'', gc_preferences := Some (normalized default_preferences)\<rparr>"

definition memory_env :: "bool config_env" where
  "memory_env = \<lparr>cf_exists = (\<lambda>w. w), cf_read = (\<lambda>w. Some []), cf_write = (\<lambda>s w. (s = [], True)),
     cf_parse = (\<lambda>s. Some sample_saved), cf_render = (\<lambda>c. []), cf_default_base_dir = ''/home/u/.grove'',
     cf_detected_theme = \<lparr>tt_colors = [], tt_font_family = [], tt_font_size = 0\<rparr>\<rparr>"

theorem app_config_roundtrip_witness:
  "ac_base_dir (load_app_config memory_env (snd (save_app_config memory_env sample_app False))) = ''/data/grove''"
proof -
  have "save_app_config memory_env sample_app False = (Ok (), True)"
    by (simp add: save_app_config_def save_config_def memory_env_def)
  moreover have "reads_back memory_env ((load_config memory_env False)\<lparr>gc_base_dir := Some (ac_base_dir sample_app),
      gc_theme := ac_theme sample_app, gc_preferences := Some (normalized (ac_preferences sample_app))\<rparr>)"
    by (simp add: reads_back_def memory_env_def load_config_def sample_saved_def sample_app_def default_config_def)
  moreover have "trim ''/data/grove'' = ''/data/grove''" by code_simp
  ultimately show ?thesis
    using app_config_roundtrip [of memory_env sample_app False True] by (simp add: sample_app_def)
qed

lemma delete_many: "foldl (\<lambda>(m, removed) k. (AList.delete k m, removed \<or> map_of m k \<noteq> None)) (m, b) ks
   = (filter (\<lambda>(k, v). k \<notin> set ks) m, b \<or> (\<exists>k \<in> set ks. map_of m k \<noteq> None))"
proof (induction ks arbitrary: m b)
  case (Cons k ks)
  have "filter (\<lambda>(k, v). k \<notin> set ks) (AList.delete k m) = filter (\<lambda>(j, v). j \<notin> set (k # ks)) m"
    by (auto simp: AList.delete_eq filter_filter intro!: filter_cong)
  moreover have "(\<exists>j \<in> set ks. map_of (AList.delete k m) j \<noteq> None) \<or> map_of m k \<noteq> None
      \<longleftrightarrow> (\<exists>j \<in> set (k # ks). map_of m j \<noteq> None)"
    by (auto simp: AList.delete_conv')
  ultimately show ?case using Cons.IH [of "AList.delete k m" "b \<or> map_of m k \<noteq> None"] by auto
qed (simp add: case_prod_unfold)

text \<open>
  Removing a worktree removes its entries and only them. From a layout map, exactly the entries whose key is the
  worktree path, or a path with the same canonical form, are dropped, whatever their spelling; the others
  keep their order and values, and the file is rewritten just when an entry was dropped.
\<close>

theorem worktree_entries_removed_exactly:
  "remove_worktree_entries canonicalize m path =
     (filter (\<lambda>(k, v). unwrap_or k (canonicalize k) \<noteq> unwrap_or path (canonicalize path)) m,
      \<exists>k \<in> fst ` set m. unwrap_or k (canonicalize k) = unwrap_or path (canonicalize path))
   \<and> (js_parse J (case load_layouts_impl J w of Ok raw \<Rightarrow> raw | Err _ \<Rightarrow> []) = Some m
        \<and> is_ok (load_layouts_impl J w)
        \<and> (\<forall>k \<in> fst ` set m. unwrap_or k (canonicalize k) \<noteq> unwrap_or path (canonicalize path))
      \<longrightarrow> remove_layouts_for_worktree canonicalize J path w = (Ok (), w))"
proof -
  have keys: "set (matching_worktree_keys canonicalize (map fst m) path)
      = {k \<in> fst ` set m. unwrap_or k (canonicalize k) = unwrap_or path (canonicalize path)}"
    by (auto simp: matching_worktree_keys_def Let_def)
  have "filter (\<lambda>(k, v). k \<notin> set (matching_worktree_keys canonicalize (map fst m) path)) m
      = filter (\<lambda>(k, v). unwrap_or k (canonicalize k) \<noteq> unwrap_or path (canonicalize path)) m"
    unfolding keys by (intro filter_cong) (force simp: image_iff)+
  moreover have "(\<exists>k \<in> set (matching_worktree_keys canonicalize (map fst m) path). map_of m k \<noteq> None)
      \<longleftrightarrow> (\<exists>k \<in> fst ` set m. unwrap_or k (canonicalize k) = unwrap_or path (canonicalize path))"
    unfolding keys by (auto simp: map_of_eq_None_iff)
  ultimately have r: "remove_worktree_entries canonicalize m path =
     (filter (\<lambda>(k, v). unwrap_or k (canonicalize k) \<noteq> unwrap_or path (canonicalize path)) m,
      \<exists>k \<in> fst ` set m. unwrap_or k (canonicalize k) = unwrap_or path (canonicalize path))"
    unfolding remove_worktree_entries_def delete_many by simp
  then show ?thesis
    by (auto simp: remove_layouts_for_worktree_def is_ok_iff split: result.splits)
qed

text \<open>
  A store that can not be read is not overwritten. When a layout or snapshot file can not be read or parsed, the
  removal of a worktree ends with that error and leaves the file as it is; a snapshot file is rewritten on
  loading only when its text starts with a complete store and has something else behind it.
\<close>

theorem unreadable_stores_are_left_alone:
  assumes "fst (remove_layouts_for_worktree canonicalize J path w) \<in> {Err ReadFailed, Err ParseFailed}"
    and "fst (remove_snapshot_for_worktree canonicalize S path w) \<in> {Err ReadFailed, Err ParseFailed}"
  shows "snd (remove_layouts_for_worktree canonicalize J path w) = w
    \<and> snd (remove_snapshot_for_worktree canonicalize S path w) = w"
proof
  show "snd (remove_layouts_for_worktree canonicalize J path w) = w"
    using assms(1) by (auto simp: remove_layouts_for_worktree_def save_layouts_impl_def case_prod_unfold Let_def split: result.splits option.splits if_splits)
  have "snd (load_snapshot_store default_snapshot_store S w) = w"
    if "fst (load_snapshot_store default_snapshot_store S w) \<in> {Err ReadFailed, Err ParseFailed}"
    using that by (auto simp: load_snapshot_store_def save_layouts_impl_def case_prod_unfold Let_def split: result.splits option.splits if_splits)
  then show "snd (remove_snapshot_for_worktree canonicalize S path w) = w"
    using assms(2)
    by (auto simp: remove_snapshot_for_worktree_def update_snapshot_store_def save_layouts_impl_def case_prod_unfold Let_def
        split: result.splits prod.splits if_splits)
qed


definition broken_store :: "('v, unit) json_store" where
  "broken_store = \<lparr>js_exists = (\<lambda>_. True), js_read = (\<lambda>_. Some ''{''), js_write = (\<lambda>_ w. (True, w)),
     js_parse = (\<lambda>_. None), js_parse_first = (\<lambda>_. None), js_render = (\<lambda>_. [])\<rparr>"

theorem unreadable_stores_are_left_alone_witness:
  "remove_layouts_for_worktree (\<lambda>_. None) (broken_store :: ((string \<times> nat) list, unit) json_store) ''/w'' () = (Err ParseFailed, ())
   \<and> snd (remove_snapshot_for_worktree (\<lambda>_. None) (broken_store :: (nat snapshot_store, unit) json_store) ''/w'' ()) = ()"
proof -
  have l: "fst (remove_layouts_for_worktree (\<lambda>_. None) (broken_store :: ((string \<times> nat) list, unit) json_store) ''/w'' ()) = Err ParseFailed"
    by (simp add: remove_layouts_for_worktree_def load_layouts_impl_def broken_store_def)
  have s: "fst (remove_snapshot_for_worktree (\<lambda>_. None) (broken_store :: (nat snapshot_store, unit) json_store) ''/w'' ()) = Err ParseFailed"
    by (simp add: remove_snapshot_for_worktree_def update_snapshot_store_def load_snapshot_store_def broken_store_def)
  show ?thesis
    using unreadable_stores_are_left_alone [where canonicalize = "\<lambda>_. None" and path = "''/w''" and w = "()"
        and J = "broken_store :: ((string \<times> nat) list, unit) json_store"
        and S = "broken_store :: (nat snapshot_store, unit) json_store"] l s
    by (simp add: prod_eq_iff)
qed

theorem worktree_entries_removed_exactly_witness:
  "remove_worktree_entries (\<lambda>p. if p = ''/tmp/w'' then Some ''/private/tmp/w'' else None)
     [(''/tmp/w'', 1 :: nat), (''/x'', 2), (''/private/tmp/w'', 3)] ''/tmp/w'' = ([(''/x'', 2)], True)"
  using conjunct1 [OF worktree_entries_removed_exactly [where
      canonicalize = "\<lambda>p. if p = ''/tmp/w'' then Some ''/private/tmp/w'' else None"
      and m = "[(''/tmp/w'', 1 :: nat), (''/x'', 2), (''/private/tmp/w'', 3)]" and path = "''/tmp/w''"
      and J = "broken_store :: ((string \<times> nat) list, unit) json_store" and w = "()"]]
  by simp

end
