(* ===== verification/GitDiff.thy ===== *)
theory GitDiff
  imports RustStr "HOL-Library.AList" "HOL-Library.Sublist"
begin

text \<open>
  \<open>grove-core/src/git_diff.rs\<close>: the diff model built from libgit2's print callback, patches for whole hunks
  and for selected lines, conflict views, the content cache, path validation, and the file, hunk and line
  operations that run \<open>git\<close>.

  libgit2, the \<open>git\<close> program and the file system are the functions of \<open>git_env\<close> over a world \<open>'w\<close>. Strings
  are the bytes of their UTF-8 encoding.
\<close>

subsection \<open>Diffs\<close>

record diff_line =
  dl_type :: string
  dl_content :: string
  dl_old :: "u32 option"
  dl_new :: "u32 option"
  dl_index :: u32

record diff_hunk =
  dh_header :: string
  dh_lines :: "diff_line list"
  dh_old_start :: u32
  dh_old_count :: u32
  dh_new_start :: u32
  dh_new_count :: u32

record file_diff =
  fd_path :: string
  fd_old_path :: "string option"
  fd_status :: string
  fd_hunks :: "diff_hunk list"
  fd_display_line_count :: u32

text \<open>One call of the print callback.\<close>

datatype delta_status = DAdded | DUntracked | DDeleted | DRenamed | DModified | DOther

record hunk_info =
  hi_header :: bytes
  hi_old_start :: u32
  hi_old_lines :: u32
  hi_new_start :: u32
  hi_new_lines :: u32

record diff_event =
  de_new_path :: "bytes option"
  de_old_path :: "bytes option"
  de_status :: delta_status
  de_hunk :: "hunk_info option"
  de_origin :: char
  de_content :: bytes
  de_old_lineno :: "u32 option"
  de_new_lineno :: "u32 option"

definition map_last :: "('a \<Rightarrow> 'a) \<Rightarrow> 'a list \<Rightarrow> 'a list" where
  "map_last f xs = (if xs = [] then [] else butlast xs @ [f (last xs)])"

definition status_name :: "delta_status \<Rightarrow> string" where
  "status_name d =
     (case d of DAdded \<Rightarrow> ''added'' | DUntracked \<Rightarrow> ''added'' | DDeleted \<Rightarrow> ''deleted''
        | DRenamed \<Rightarrow> ''renamed'' | DModified \<Rightarrow> ''modified'' | DOther \<Rightarrow> ''modified'')"

definition new_hunk :: "hunk_info \<Rightarrow> diff_hunk" where
  "new_hunk h =
     \<lparr>dh_header = trim (unwrap_or [] (from_utf8 (hi_header h))), dh_lines = [],
      dh_old_start = hi_old_start h, dh_old_count = hi_old_lines h,
      dh_new_start = hi_new_start h, dh_new_count = hi_new_lines h\<rparr>"

definition add_hunk :: "hunk_info \<Rightarrow> file_diff \<Rightarrow> file_diff" where
  "add_hunk h fd = fd\<lparr>fd_hunks := fd_hunks fd @ [new_hunk h]\<rparr>"

definition need_hunk :: "hunk_info \<Rightarrow> file_diff \<Rightarrow> bool" where
  "need_hunk h fd \<longleftrightarrow>
     fd_hunks fd = [] \<or> dh_old_start (last (fd_hunks fd)) \<noteq> hi_old_start h
     \<or> dh_new_start (last (fd_hunks fd)) \<noteq> hi_new_start h"

definition line_type_of :: "char \<Rightarrow> string" where
  "line_type_of c = (if c = CHR ''+'' then ''add'' else if c = CHR ''-'' then ''remove'' else ''context'')"

text \<open>What one event does to the file at the end of the list and to the line counter.\<close>

definition file_event :: "diff_event \<Rightarrow> file_diff \<times> u32 \<Rightarrow> file_diff \<times> u32" where
  "file_event e s =
     (let (fd, idx) = s in
      if de_origin e = CHR ''H'' then
        (case de_hunk e of Some h \<Rightarrow> (add_hunk h fd, idx) | None \<Rightarrow> (fd, idx))
      else if de_origin e \<in> {CHR ''+'', CHR ''-'', CHR '' ''} then
        (let fd = (case de_hunk e of
                     Some h \<Rightarrow> if need_hunk h fd then add_hunk h fd else fd
                   | None \<Rightarrow> fd)
         in if fd_hunks fd = [] then (fd, idx)
            else (fd\<lparr>fd_hunks := map_last (\<lambda>hk. hk\<lparr>dh_lines := dh_lines hk @
                    [\<lparr>dl_type = line_type_of (de_origin e), dl_content = from_utf8_lossy (de_content e),
                      dl_old = de_old_lineno e, dl_new = de_new_lineno e, dl_index = idx\<rparr>]\<rparr>) (fd_hunks fd)\<rparr>,
                  idx + 1))
      else (fd, idx))"

definition parse_step :: "file_diff list \<times> u32 \<Rightarrow> diff_event \<Rightarrow> file_diff list \<times> u32" where
  "parse_step s e =
     (let (fds, idx) = s;
          path = from_utf8_lossy (unwrap_or [] (de_new_path e))
      in if fds = [] \<or> fd_path (last fds) \<noteq> path then
           (let (fd, idx) = file_event e
                  (\<lparr>fd_path = path, fd_old_path = map_option from_utf8_lossy (de_old_path e),
                    fd_status = status_name (de_status e), fd_hunks = [], fd_display_line_count = 0\<rparr>, 0)
            in (fds @ [fd], idx))
         else (let (fd, idx) = file_event e (last fds, idx) in (butlast fds @ [fd], idx)))"

definition parse_diff :: "diff_event list \<Rightarrow> file_diff list" where
  "parse_diff evs = fst (foldl parse_step ([], 0) evs)"

subsection \<open>Patches\<close>

datatype git_error =
  RepoError | IoError | PathRequired | InvalidPath string | NoUnstagedDiff string | NoStagedDiff string
| HunkOutOfRange u32 nat | NoChangesSelected | GitFailed "string list" | NotUntracked string | NotInDiff string
| NotInCommitDiff string | NoHeadTarget | BadBehindCount string | MergeConflict "string list"

definition get_hunk :: "file_diff \<Rightarrow> u32 \<Rightarrow> (diff_hunk, git_error) result" where
  "get_hunk diff i =
     (if unat i < length (fd_hunks diff) then Ok (fd_hunks diff ! unat i)
      else Err (HunkOutOfRange i (length (fd_hunks diff))))"

definition ends_nl :: "string \<Rightarrow> bool" where
  "ends_nl s \<longleftrightarrow> s \<noteq> [] \<and> last s = CHR 0x0A"

definition with_nl :: "string \<Rightarrow> string" where
  "with_nl s = (if ends_nl s then s else s @ [CHR 0x0A])"

definition nl :: string where "nl = [CHR 0x0A]"

definition patch_paths :: "string \<Rightarrow> string option \<Rightarrow> string" where
  "patch_paths file_path old_path =
     ''--- a/'' @ unwrap_or file_path old_path @ nl @ ''+++ b/'' @ file_path @ nl"

definition line_prefix :: "diff_line \<Rightarrow> char" where
  "line_prefix l = (if dl_type l = ''add'' then CHR ''+'' else if dl_type l = ''remove'' then CHR ''-'' else CHR '' '')"

definition build_hunk_patch :: "string \<Rightarrow> string option \<Rightarrow> diff_hunk \<Rightarrow> string" where
  "build_hunk_patch file_path old_path hunk =
     patch_paths file_path old_path @ with_nl (dh_header hunk)
     @ concat (map (\<lambda>l. line_prefix l # with_nl (dl_content l)) (dh_lines hunk))"

definition format_patch_line :: "char \<Rightarrow> string \<Rightarrow> string" where
  "format_patch_line c content = with_nl (c # content)"

text \<open>The loop state: patch lines, the two counts, whether a change was selected.\<close>

definition select_line :: "u32 set \<Rightarrow> string list \<times> u32 \<times> u32 \<times> bool \<Rightarrow> diff_line \<Rightarrow> string list \<times> u32 \<times> u32 \<times> bool" where
  "select_line selected s line =
     (let (out, old_count, new_count, has_changes) = s;
          is_selected = (dl_index line \<in> selected)
      in if dl_type line = ''add'' then
           (if is_selected then (out @ [format_patch_line (CHR ''+'') (dl_content line)], old_count, new_count + 1, True)
            else s)
         else if dl_type line = ''remove'' then
           (if is_selected then (out @ [format_patch_line (CHR ''-'') (dl_content line)], old_count + 1, new_count, True)
            else (out @ [format_patch_line (CHR '' '') (dl_content line)], old_count + 1, new_count + 1, has_changes))
         else (out @ [format_patch_line (CHR '' '') (dl_content line)], old_count + 1, new_count + 1, has_changes))"

definition show_u32 :: "u32 \<Rightarrow> string" where
  "show_u32 w = chars_of (dec_digits (unat w))"

definition hunk_range :: "u32 \<Rightarrow> u32 \<Rightarrow> u32 \<Rightarrow> u32 \<Rightarrow> string" where
  "hunk_range old_start old_count new_start new_count =
     ''@@ -'' @ show_u32 old_start @ '','' @ show_u32 old_count @ '' +''
     @ show_u32 new_start @ '','' @ show_u32 new_count @ '' @@''"

definition build_selective_patch ::
  "string \<Rightarrow> string option \<Rightarrow> diff_hunk \<Rightarrow> u32 set \<Rightarrow> (string, git_error) result" where
  "build_selective_patch file_path old_path hunk selected =
     (case foldl (select_line selected) ([], 0, 0, False) (dh_lines hunk) of
        (out, old_count, new_count, has_changes) \<Rightarrow>
          if \<not> has_changes then Err NoChangesSelected
          else Ok (patch_paths file_path old_path
                   @ hunk_range (dh_old_start hunk) old_count (dh_new_start hunk) new_count @ nl @ concat out))"

subsection \<open>Conflicts\<close>

definition CONFLICT_CONTEXT_LINES :: nat where "CONFLICT_CONTEXT_LINES = 3"

definition opens_conflict :: "string \<Rightarrow> bool" where "opens_conflict l \<longleftrightarrow> starts_with ''<<<<<<<'' l"
definition closes_conflict :: "string \<Rightarrow> bool" where "closes_conflict l \<longleftrightarrow> starts_with ''>>>>>>>'' l"

text \<open>The end of the range of a conflict that opens at \<open>index\<close>.\<close>

definition conflict_end :: "string list \<Rightarrow> nat \<Rightarrow> nat" where
  "conflict_end ls index =
     (let e = Suc index + length (takeWhile (\<lambda>l. \<not> closes_conflict l) (drop (Suc index) ls));
          e = (if e < length ls then e + 1 else e)
      in min (e + CONFLICT_CONTEXT_LINES) (length ls))"

definition push_range :: "nat \<times> nat \<Rightarrow> (nat \<times> nat) list \<Rightarrow> (nat \<times> nat) list" where
  "push_range r ranges =
     (if ranges = [] then [r]
      else if fst r \<le> snd (last ranges)
      then butlast ranges @ [(fst (last ranges), max (snd (last ranges)) (snd r))]
      else ranges @ [r])"

lemma conflict_end_gt: "index < length ls \<Longrightarrow> index < conflict_end ls index"
  by (simp add: conflict_end_def Let_def)

function conflict_loop :: "string list \<Rightarrow> nat \<Rightarrow> (nat \<times> nat) list \<Rightarrow> (nat \<times> nat) list" where
  "conflict_loop ls index ranges =
     (if length ls \<le> index then ranges
      else if \<not> opens_conflict (ls ! index) then conflict_loop ls (index + 1) ranges
      else conflict_loop ls (conflict_end ls index)
             (push_range (index - CONFLICT_CONTEXT_LINES, conflict_end ls index) ranges))"
  by pat_completeness auto
termination
  by (relation "measure (\<lambda>(ls, index, ranges). length ls - index)") (auto dest: conflict_end_gt simp: not_le intro: diff_less_mono2)

declare conflict_loop.simps [simp del]

definition conflicted_context_ranges :: "string list \<Rightarrow> (nat \<times> nat) list" where
  "conflicted_context_ranges ls =
     (let ranges = conflict_loop ls 0 []
      in if ranges = [] \<and> ls \<noteq> [] then [(0, length ls)] else ranges)"

definition conflicted_hunk :: "string list \<Rightarrow> nat \<times> nat \<Rightarrow> diff_hunk" where
  "conflicted_hunk ls r =
     (let (s, e) = r; start_line = word_of_nat (s + 1); line_count = word_of_nat (e - s)
      in \<lparr>dh_header = hunk_range start_line line_count start_line line_count,
          dh_lines = map (\<lambda>offset.
             \<lparr>dl_type = ''context'', dl_content = ls ! (s + offset),
              dl_old = Some (start_line + word_of_nat offset), dl_new = Some (start_line + word_of_nat offset),
              dl_index = word_of_nat (s + offset)\<rparr>) [0..<e - s],
          dh_old_start = start_line, dh_old_count = line_count,
          dh_new_start = start_line, dh_new_count = line_count\<rparr>)"

definition build_conflicted_hunks :: "string list \<Rightarrow> diff_hunk list" where
  "build_conflicted_hunks ls = map (conflicted_hunk ls) (conflicted_context_ranges ls)"

subsection \<open>Lines of a file\<close>

definition count_lines :: "bytes \<Rightarrow> u32" where
  "count_lines bs =
     (if bs = [] then 0
      else if last bs = 0x0A then word_of_nat (count_list bs 0x0A) else word_of_nat (count_list bs 0x0A) + 1)"

definition decode_lines :: "bytes \<Rightarrow> string list" where
  "decode_lines bs = lines (from_utf8_lossy bs)"

definition slice_lines :: "string list \<Rightarrow> u32 \<Rightarrow> u32 \<Rightarrow> string list" where
  "slice_lines ls start_line line_count =
     (if start_line = 0 \<or> line_count = 0 then []
      else let start_index = unat (start_line - 1)
           in if length ls \<le> start_index then []
              else slice start_index (min (start_index + unat line_count) (length ls)) ls)"

subsection \<open>The repository\<close>

record status_flags =
  sf_conflicted :: bool
  sf_index_new :: bool
  sf_index_modified :: bool
  sf_index_deleted :: bool
  sf_index_renamed :: bool
  sf_wt_new :: bool
  sf_wt_modified :: bool
  sf_wt_deleted :: bool
  sf_wt_renamed :: bool

record commit_data =
  cd_tree :: string
  cd_parent_tree :: "string option"
  cd_message :: "string option"
  cd_author :: "string option"
  cd_seconds :: int

text \<open>
  A diff query fails (\<open>None\<close>) where libgit2 does, in the query or in its print; the diff of the working
  tree also has its number of deltas. \<open>gv_git args stdin\<close> runs git and says whether it succeeded.
\<close>

record 'w git_env =
  gv_open :: "'w \<Rightarrow> bool"
  gv_statuses :: "'w \<Rightarrow> (string option \<times> status_flags) list option"
  gv_status_file :: "'w \<Rightarrow> string \<Rightarrow> status_flags option"
  gv_staged_diff :: "'w \<Rightarrow> string \<Rightarrow> diff_event list option"
  gv_unstaged_diff :: "'w \<Rightarrow> string \<Rightarrow> (nat \<times> diff_event list option) option"
  gv_unstaged_all :: "'w \<Rightarrow> diff_event list option"
  gv_tree_diff :: "'w \<Rightarrow> string option \<Rightarrow> string \<Rightarrow> string list \<Rightarrow> diff_event list option"
  gv_head :: "'w \<Rightarrow> string option option"
  gv_head_tree :: "'w \<Rightarrow> string option"
  gv_revwalk :: "'w \<Rightarrow> string \<Rightarrow> string option list option"
  gv_commit :: "'w \<Rightarrow> string \<Rightarrow> commit_data option"
  gv_tree_entry :: "'w \<Rightarrow> string \<Rightarrow> string \<Rightarrow> string option"
  gv_index_entry :: "'w \<Rightarrow> (string \<Rightarrow> string option) option"
  gv_blob :: "'w \<Rightarrow> string \<Rightarrow> bytes option"
  gv_exists :: "'w \<Rightarrow> string \<Rightarrow> bool"
  gv_metadata :: "'w \<Rightarrow> string \<Rightarrow> (128 word \<times> u64) option"
  gv_read :: "'w \<Rightarrow> string \<Rightarrow> bytes option"
  gv_git :: "string list \<Rightarrow> string \<Rightarrow> 'w \<Rightarrow> bool \<times> 'w"
  gv_remove :: "string \<Rightarrow> 'w \<Rightarrow> bool \<times> 'w"

definition path_join :: "string \<Rightarrow> string \<Rightarrow> string" where
  "path_join base p =
     (if starts_with ''/'' p then p
      else if base = [] \<or> last base = CHR ''/'' then base @ p else base @ ''/'' @ p)"

subsection \<open>Status and log\<close>

record file_status =
  fs_path :: string
  fs_status :: string
  fs_staged :: bool

definition status_rows :: "string option \<times> status_flags \<Rightarrow> file_status list" where
  "status_rows entry =
     (let path = unwrap_or [] (fst entry); st = snd entry in
      if sf_conflicted st then [\<lparr>fs_path = path, fs_status = ''conflicted'', fs_staged = False\<rparr>]
      else
        (if sf_index_new st \<or> sf_index_modified st \<or> sf_index_deleted st \<or> sf_index_renamed st then
           [\<lparr>fs_path = path,
             fs_status = (if sf_index_new st then ''added'' else if sf_index_deleted st then ''deleted''
                          else if sf_index_renamed st then ''renamed'' else ''modified''),
             fs_staged = True\<rparr>] else [])
        @ (if sf_wt_new st \<or> sf_wt_modified st \<or> sf_wt_deleted st \<or> sf_wt_renamed st then
           [\<lparr>fs_path = path,
             fs_status = (if sf_wt_new st then ''untracked'' else if sf_wt_deleted st then ''deleted''
                          else if sf_wt_renamed st then ''renamed'' else ''modified''),
             fs_staged = False\<rparr>] else []))"

definition get_status_impl :: "'w git_env \<Rightarrow> 'w \<Rightarrow> (file_status list, git_error) result" where
  "get_status_impl G w =
     (if \<not> gv_open G w then Err RepoError
      else case gv_statuses G w of
        None \<Rightarrow> Err RepoError
      | Some entries \<Rightarrow> Ok (concat (map status_rows entries)))"

record commit_info =
  ci_hash :: string
  ci_short_hash :: string
  ci_message :: string
  ci_author :: string
  ci_date :: int

fun collect_commits :: "'w git_env \<Rightarrow> 'w \<Rightarrow> string option list \<Rightarrow> (commit_info list, git_error) result" where
  "collect_commits G w [] = Ok []"
| "collect_commits G w (None # oids) = Err RepoError"
| "collect_commits G w (Some oid # oids) =
     (case gv_commit G w oid of
        None \<Rightarrow> Err RepoError
      | Some c \<Rightarrow>
          map_ok ((#) \<lparr>ci_hash = oid, ci_short_hash = take 7 oid, ci_message = trim_end (unwrap_or [] (cd_message c)),
                   ci_author = unwrap_or ''Unknown'' (cd_author c), ci_date = cd_seconds c\<rparr>)
            (collect_commits G w oids))"

definition get_commits_impl :: "'w git_env \<Rightarrow> 'w \<Rightarrow> u32 \<Rightarrow> (commit_info list, git_error) result" where
  "get_commits_impl G w limit =
     (if \<not> gv_open G w then Err RepoError
      else case gv_head G w of
        None \<Rightarrow> Ok []
      | Some None \<Rightarrow> Err NoHeadTarget
      | Some (Some target) \<Rightarrow>
          (case gv_revwalk G w target of
             None \<Rightarrow> Err RepoError
           | Some oids \<Rightarrow> collect_commits G w (take (unat limit) oids)))"

subsection \<open>Paths\<close>

text \<open>\<open>Path::components\<close>: empty segments and inner dots are skipped.\<close>

datatype path_component = RootDir | CurDir | ParentDir | Normal string

definition path_components :: "string \<Rightarrow> path_component list" where
  "path_components p =
     (let segs = split_char (CHR ''/'') p
      in (if starts_with ''/'' p then [RootDir] else if hd segs = ''.'' then [CurDir] else [])
         @ map (\<lambda>s. if s = ''..'' then ParentDir else Normal s) (filter (\<lambda>s. s \<noteq> [] \<and> s \<noteq> ''.'') segs))"

fun validate_components :: "string \<Rightarrow> bool \<Rightarrow> path_component list \<Rightarrow> (unit, git_error) result" where
  "validate_components path has_normal [] = (if has_normal then Ok () else Err (InvalidPath path))"
| "validate_components path has_normal (Normal s # cs) = validate_components path True cs"
| "validate_components path has_normal (CurDir # cs) = validate_components path has_normal cs"
| "validate_components path has_normal (c # cs) = Err (InvalidPath path)"

definition validate_repo_relative_path :: "string \<Rightarrow> (unit, git_error) result" where
  "validate_repo_relative_path path =
     (if path = [] then Err PathRequired else validate_components path False (path_components path))"

subsection \<open>Content and its cache\<close>

definition FILE_CONTENT_CACHE_LIMIT :: nat where "FILE_CONTENT_CACHE_LIMIT = 256"

datatype file_content_source = Missing | Blob string | Workdir string "128 word" u64

record cached_file_content =
  cc_line_count :: u32
  cc_lines :: "string list option"

type_synonym content_cache = "(file_content_source \<times> cached_file_content) list"

definition cache_file_content :: "file_content_source \<Rightarrow> cached_file_content \<Rightarrow> content_cache \<Rightarrow> content_cache" where
  "cache_file_content src entry cache =
     (let cache = (if FILE_CONTENT_CACHE_LIMIT \<le> length cache \<and> map_of cache src = None then [] else cache)
      in AList.update src entry cache)"

definition read_source_bytes :: "'w git_env \<Rightarrow> 'w \<Rightarrow> file_content_source \<Rightarrow> (bytes, git_error) result" where
  "read_source_bytes G w src =
     (case src of
        Missing \<Rightarrow> Ok []
      | Blob oid \<Rightarrow> (case gv_blob G w oid of None \<Rightarrow> Err RepoError | Some bs \<Rightarrow> Ok bs)
      | Workdir full_path _ _ \<Rightarrow> (case gv_read G w full_path of None \<Rightarrow> Err IoError | Some bs \<Rightarrow> Ok bs))"

definition count_lines_for_source ::
  "'w git_env \<Rightarrow> 'w \<Rightarrow> file_content_source \<Rightarrow> content_cache \<Rightarrow> (u32, git_error) result \<times> content_cache" where
  "count_lines_for_source G w src cache =
     (case map_of cache src of
        Some c \<Rightarrow> (Ok (cc_line_count c), cache)
      | None \<Rightarrow>
          (case read_source_bytes G w src of
             Err e \<Rightarrow> (Err e, cache)
           | Ok bs \<Rightarrow> (Ok (count_lines bs),
               cache_file_content src \<lparr>cc_line_count = count_lines bs, cc_lines = None\<rparr> cache)))"

definition slice_lines_for_source ::
  "'w git_env \<Rightarrow> 'w \<Rightarrow> file_content_source \<Rightarrow> u32 \<Rightarrow> u32 \<Rightarrow> content_cache
   \<Rightarrow> (string list, git_error) result \<times> content_cache" where
  "slice_lines_for_source G w src start_line line_count cache =
     (case Option.bind (map_of cache src) cc_lines of
        Some ls \<Rightarrow> (Ok (slice_lines ls start_line line_count), cache)
      | None \<Rightarrow>
          (case read_source_bytes G w src of
             Err e \<Rightarrow> (Err e, cache)
           | Ok bs \<Rightarrow>
               (let ls = decode_lines bs
                in (Ok (slice_lines ls start_line line_count),
                    cache_file_content src
                      \<lparr>cc_line_count = word_of_nat (length ls), cc_lines = Some ls\<rparr> cache))))"

definition read_tree_source :: "'w git_env \<Rightarrow> 'w \<Rightarrow> string option \<Rightarrow> string \<Rightarrow> (file_content_source, git_error) result" where
  "read_tree_source G w tree path =
     (case Option.bind tree (\<lambda>t. gv_tree_entry G w t path) of
        None \<Rightarrow> Ok Missing
      | Some oid \<Rightarrow> (if gv_blob G w oid = None then Err RepoError else Ok (Blob oid)))"

definition read_index_source :: "'w git_env \<Rightarrow> 'w \<Rightarrow> string \<Rightarrow> (file_content_source, git_error) result" where
  "read_index_source G w path =
     (case gv_index_entry G w of
        None \<Rightarrow> Err RepoError
      | Some index \<Rightarrow>
          (case index path of
             None \<Rightarrow> Ok Missing
           | Some oid \<Rightarrow> (if gv_blob G w oid = None then Err RepoError else Ok (Blob oid))))"

definition read_workdir_source :: "'w git_env \<Rightarrow> 'w \<Rightarrow> string \<Rightarrow> string \<Rightarrow> (file_content_source, git_error) result" where
  "read_workdir_source G w worktree_path path =
     (let full_path = path_join worktree_path path in
      if \<not> gv_exists G w full_path then Ok Missing
      else case gv_metadata G w full_path of
             None \<Rightarrow> Err IoError
           | Some (modified, len) \<Rightarrow> Ok (Workdir full_path modified len))"

fun or_source ::
  "(file_content_source, git_error) result \<Rightarrow> (file_content_source, git_error) result
   \<Rightarrow> (file_content_source, git_error) result" where
  "or_source (Ok Missing) other = other"
| "or_source r other = r"

definition get_working_display_source ::
  "'w git_env \<Rightarrow> 'w \<Rightarrow> string \<Rightarrow> string \<Rightarrow> bool \<Rightarrow> (file_content_source, git_error) result" where
  "get_working_display_source G w worktree_path path want_staged =
     (if want_staged
      then or_source (read_index_source G w path) (read_tree_source G w (gv_head_tree G w) path)
      else or_source (read_workdir_source G w worktree_path path)
             (or_source (read_index_source G w path) (Ok Missing)))"

definition get_commit_display_source ::
  "'w git_env \<Rightarrow> 'w \<Rightarrow> commit_data \<Rightarrow> string \<Rightarrow> string option \<Rightarrow> (file_content_source, git_error) result" where
  "get_commit_display_source G w c path old_path =
     or_source (read_tree_source G w (Some (cd_tree c)) path)
       (read_tree_source G w (cd_parent_tree c) (unwrap_or path old_path))"

definition should_track_display_line_count :: "string \<Rightarrow> bool" where
  "should_track_display_line_count status \<longleftrightarrow> status \<noteq> ''added'' \<and> status \<noteq> ''deleted''"

text \<open>The loop that fills in the line counts; \<open>source_of\<close> is the display source of a file.\<close>

definition count_display ::
  "'w git_env \<Rightarrow> 'w \<Rightarrow> (file_diff \<Rightarrow> (file_content_source, git_error) result) \<Rightarrow> file_diff \<Rightarrow> content_cache
   \<Rightarrow> (file_diff, git_error) result \<times> content_cache" where
  "count_display G w source_of fd cache =
     (if \<not> should_track_display_line_count (fd_status fd) then (Ok fd, cache)
      else case source_of fd of
        Err e \<Rightarrow> (Err e, cache)
      | Ok src \<Rightarrow>
          (let (r, cache) = count_lines_for_source G w src cache
           in (map_ok (\<lambda>n. fd\<lparr>fd_display_line_count := n\<rparr>) r, cache)))"

fun count_displays ::
  "'w git_env \<Rightarrow> 'w \<Rightarrow> (file_diff \<Rightarrow> (file_content_source, git_error) result) \<Rightarrow> file_diff list \<Rightarrow> content_cache
   \<Rightarrow> (file_diff list, git_error) result \<times> content_cache" where
  "count_displays G w source_of [] cache = (Ok [], cache)"
| "count_displays G w source_of (fd # fds) cache =
     (case count_display G w source_of fd cache of
        (Err e, cache) \<Rightarrow> (Err e, cache)
      | (Ok fd, cache) \<Rightarrow>
          (let (r, cache) = count_displays G w source_of fds cache in (map_ok ((#) fd) r, cache)))"

subsection \<open>Queries\<close>

definition is_untracked :: "'w git_env \<Rightarrow> 'w \<Rightarrow> string \<Rightarrow> bool" where
  "is_untracked G w path =
     (case gv_status_file G w path of
        Some st \<Rightarrow> sf_wt_new st
      | None \<Rightarrow>
          (let normalized = trim_end_matches ''/'' path;
               under = (\<lambda>p. p = normalized \<or> starts_with (normalized @ ''/'') p)
           in case gv_statuses G w of
                None \<Rightarrow> False
              | Some entries \<Rightarrow>
                  (let hits = filter (\<lambda>(p, st). case p of None \<Rightarrow> False | Some p \<Rightarrow> under p) entries
                   in hits \<noteq> [] \<and> (\<forall>(p, st) \<in> set hits. sf_wt_new st))))"

definition is_conflicted :: "'w git_env \<Rightarrow> 'w \<Rightarrow> string \<Rightarrow> bool" where
  "is_conflicted G w path = (case gv_status_file G w path of Some st \<Rightarrow> sf_conflicted st | None \<Rightarrow> False)"

definition first_diff :: "git_error \<Rightarrow> diff_event list option \<Rightarrow> (file_diff, git_error) result" where
  "first_diff absent evs =
     (case evs of
        None \<Rightarrow> Err RepoError
      | Some evs \<Rightarrow> (case parse_diff evs of [] \<Rightarrow> Err absent | fd # fds \<Rightarrow> Ok fd))"

definition get_unstaged_diff :: "'w git_env \<Rightarrow> 'w \<Rightarrow> string \<Rightarrow> (file_diff, git_error) result" where
  "get_unstaged_diff G w file_path =
     (if \<not> gv_open G w then Err RepoError
      else first_diff (NoUnstagedDiff file_path) (Option.bind (gv_unstaged_diff G w file_path) snd))"

definition get_staged_diff :: "'w git_env \<Rightarrow> 'w \<Rightarrow> string \<Rightarrow> (file_diff, git_error) result" where
  "get_staged_diff G w file_path =
     (if \<not> gv_open G w then Err RepoError
      else first_diff (NoStagedDiff file_path) (gv_staged_diff G w file_path))"

definition get_conflicted_working_diff ::
  "'w git_env \<Rightarrow> 'w \<Rightarrow> string \<Rightarrow> string \<Rightarrow> content_cache \<Rightarrow> (file_diff, git_error) result \<times> content_cache" where
  "get_conflicted_working_diff G w worktree_path path cache =
     (case validate_repo_relative_path path of
        Err e \<Rightarrow> (Err e, cache)
      | Ok _ \<Rightarrow>
          (case read_workdir_source G w worktree_path path of
             Err e \<Rightarrow> (Err e, cache)
           | Ok src \<Rightarrow>
               (let (r, cache) = slice_lines_for_source G w src 1 (- 1) cache
                in (map_ok (\<lambda>ls. \<lparr>fd_path = path, fd_old_path = None, fd_status = ''conflicted'',
                       fd_hunks = build_conflicted_hunks ls,
                       fd_display_line_count = word_of_nat (length ls)\<rparr>) r, cache))))"

definition strip_staged :: "string \<Rightarrow> string \<times> bool" where
  "strip_staged path = (case strip_prefix_str ''staged:'' path of Some p \<Rightarrow> (p, True) | None \<Rightarrow> (path, False))"

definition empty_diff :: "string \<Rightarrow> file_diff" where
  "empty_diff path = \<lparr>fd_path = path, fd_old_path = None, fd_status = ''modified'', fd_hunks = [],
     fd_display_line_count = 0\<rparr>"

text \<open>The end of \<open>get_working_diff_impl\<close>: count every file, return the first.\<close>

definition counted_first ::
  "'w git_env \<Rightarrow> 'w \<Rightarrow> string \<Rightarrow> string \<Rightarrow> bool \<Rightarrow> diff_event list option \<Rightarrow> content_cache
   \<Rightarrow> (file_diff, git_error) result \<times> content_cache" where
  "counted_first G w worktree_path actual_path want_staged evs cache =
     (case evs of
        None \<Rightarrow> (Err RepoError, cache)
      | Some evs \<Rightarrow>
          (let (r, cache) = count_displays G w
                 (\<lambda>fd. get_working_display_source G w worktree_path (fd_path fd) want_staged) (parse_diff evs) cache
           in (map_ok (\<lambda>fds. case fds of [] \<Rightarrow> empty_diff actual_path | fd # _ \<Rightarrow> fd) r, cache)))"

definition get_working_diff_impl ::
  "'w git_env \<Rightarrow> 'w \<Rightarrow> string \<Rightarrow> string \<Rightarrow> content_cache \<Rightarrow> (file_diff, git_error) result \<times> content_cache" where
  "get_working_diff_impl G w worktree_path path cache =
     (let (actual_path, want_staged) = strip_staged path in
      if \<not> gv_open G w then (Err RepoError, cache)
      else if \<not> want_staged \<and> is_conflicted G w actual_path
      then get_conflicted_working_diff G w worktree_path actual_path cache
      else if want_staged
      then counted_first G w worktree_path actual_path True (gv_staged_diff G w actual_path) cache
      else case gv_unstaged_diff G w actual_path of
        None \<Rightarrow> (Err RepoError, cache)
      | Some (deltas, evs) \<Rightarrow>
          if deltas = 0 \<and> is_untracked G w actual_path then
            (case gv_unstaged_all G w of
               None \<Rightarrow> (Err RepoError, cache)
             | Some full \<Rightarrow>
                 (case find (\<lambda>f. fd_path f = actual_path) (parse_diff full) of
                    Some fd \<Rightarrow> count_display G w
                      (\<lambda>fd. get_working_display_source G w worktree_path (fd_path fd) want_staged) fd cache
                  | None \<Rightarrow> counted_first G w worktree_path actual_path False evs cache))
          else counted_first G w worktree_path actual_path False evs cache)"

definition get_commit_diff_impl ::
  "'w git_env \<Rightarrow> 'w \<Rightarrow> string \<Rightarrow> content_cache \<Rightarrow> (file_diff list, git_error) result \<times> content_cache" where
  "get_commit_diff_impl G w commit_hash cache =
     (if \<not> gv_open G w then (Err RepoError, cache)
      else case gv_commit G w commit_hash of
        None \<Rightarrow> (Err RepoError, cache)
      | Some c \<Rightarrow>
          (case gv_tree_diff G w (cd_parent_tree c) (cd_tree c) [] of
             None \<Rightarrow> (Err RepoError, cache)
           | Some evs \<Rightarrow> count_displays G w
               (\<lambda>fd. get_commit_display_source G w c (fd_path fd) (fd_old_path fd)) (parse_diff evs) cache))"

definition ensure_working_diff_path_allowed ::
  "'w git_env \<Rightarrow> 'w \<Rightarrow> string \<Rightarrow> bool \<Rightarrow> (unit, git_error) result" where
  "ensure_working_diff_path_allowed G w path want_staged =
     (if \<not> want_staged \<and> \<not> gv_open G w then Err RepoError
      else if \<not> want_staged \<and> is_conflicted G w path then Ok ()
      else case (if want_staged then get_staged_diff G w path else get_unstaged_diff G w path) of
             Err e \<Rightarrow> Err e
           | Ok diff \<Rightarrow> if fd_path diff = path then Ok () else Err (NotInDiff path))"

definition ensure_commit_diff_path_allowed ::
  "'w git_env \<Rightarrow> 'w \<Rightarrow> commit_data \<Rightarrow> string \<Rightarrow> string option \<Rightarrow> (unit, git_error) result" where
  "ensure_commit_diff_path_allowed G w c path old_path =
     (let specs = path # (case old_path of Some p \<Rightarrow> if p \<noteq> path then [p] else [] | None \<Rightarrow> []) in
      case gv_tree_diff G w (cd_parent_tree c) (cd_tree c) specs of
        None \<Rightarrow> Err RepoError
      | Some evs \<Rightarrow>
          if \<exists>fd \<in> set (parse_diff evs). fd_path fd = path \<and> (case old_path of None \<Rightarrow> True | Some p \<Rightarrow> fd_old_path fd = Some p)
          then Ok () else Err (NotInCommitDiff path))"

definition get_working_diff_context_impl ::
  "'w git_env \<Rightarrow> 'w \<Rightarrow> string \<Rightarrow> string \<Rightarrow> u32 \<Rightarrow> u32 \<Rightarrow> content_cache
   \<Rightarrow> (string list, git_error) result \<times> content_cache" where
  "get_working_diff_context_impl G w worktree_path path start_line line_count cache =
     (let (actual_path, want_staged) = strip_staged path in
      case validate_repo_relative_path actual_path of
        Err e \<Rightarrow> (Err e, cache)
      | Ok _ \<Rightarrow>
          if \<not> gv_open G w then (Err RepoError, cache)
          else case ensure_working_diff_path_allowed G w actual_path want_staged of
            Err e \<Rightarrow> (Err e, cache)
          | Ok _ \<Rightarrow>
              (case get_working_display_source G w worktree_path actual_path want_staged of
                 Err e \<Rightarrow> (Err e, cache)
               | Ok src \<Rightarrow> slice_lines_for_source G w src start_line line_count cache))"

definition get_commit_diff_context_impl ::
  "'w git_env \<Rightarrow> 'w \<Rightarrow> string \<Rightarrow> string \<Rightarrow> string option \<Rightarrow> u32 \<Rightarrow> u32 \<Rightarrow> content_cache
   \<Rightarrow> (string list, git_error) result \<times> content_cache" where
  "get_commit_diff_context_impl G w commit_hash path old_path start_line line_count cache =
     (case validate_repo_relative_path path of
        Err e \<Rightarrow> (Err e, cache)
      | Ok _ \<Rightarrow>
     (case (case old_path of None \<Rightarrow> Ok () | Some p \<Rightarrow> validate_repo_relative_path p) of
        Err e \<Rightarrow> (Err e, cache)
      | Ok _ \<Rightarrow>
          if \<not> gv_open G w then (Err RepoError, cache)
          else case gv_commit G w commit_hash of
            None \<Rightarrow> (Err RepoError, cache)
          | Some c \<Rightarrow>
              (case ensure_commit_diff_path_allowed G w c path old_path of
                 Err e \<Rightarrow> (Err e, cache)
               | Ok _ \<Rightarrow>
                   (case get_commit_display_source G w c path old_path of
                      Err e \<Rightarrow> (Err e, cache)
                    | Ok src \<Rightarrow> slice_lines_for_source G w src start_line line_count cache))))"

subsection \<open>File operations\<close>

definition run_git :: "'w git_env \<Rightarrow> string list \<Rightarrow> 'w \<Rightarrow> (unit, git_error) result \<times> 'w" where
  "run_git G args w =
     (let (ok, w) = gv_git G args [] w in (if ok then Ok () else Err (GitFailed args), w))"

definition run_git_with_paths ::
  "'w git_env \<Rightarrow> string list \<Rightarrow> string list \<Rightarrow> 'w \<Rightarrow> (unit, git_error) result \<times> 'w" where
  "run_git_with_paths G prefix_args file_paths w =
     (if file_paths = [] then (Ok (), w) else run_git G (prefix_args @ [''--''] @ file_paths) w)"

definition remove_path :: "'w git_env \<Rightarrow> string \<Rightarrow> 'w \<Rightarrow> (unit, git_error) result \<times> 'w" where
  "remove_path G path w = (let (ok, w) = gv_remove G path w in (if ok then Ok () else Err IoError, w))"

definition stage_files_impl :: "'w git_env \<Rightarrow> string list \<Rightarrow> 'w \<Rightarrow> (unit, git_error) result \<times> 'w" where
  "stage_files_impl G file_paths w = run_git_with_paths G [''add''] file_paths w"

definition stage_file_impl :: "'w git_env \<Rightarrow> string \<Rightarrow> 'w \<Rightarrow> (unit, git_error) result \<times> 'w" where
  "stage_file_impl G file_path w = stage_files_impl G [file_path] w"

definition unstage_files_impl :: "'w git_env \<Rightarrow> string list \<Rightarrow> 'w \<Rightarrow> (unit, git_error) result \<times> 'w" where
  "unstage_files_impl G file_paths w =
     (case run_git_with_paths G [''reset'', ''HEAD''] file_paths w of
        (Err e, w) \<Rightarrow> run_git_with_paths G [''rm'', ''--cached''] file_paths w
      | (Ok _, w) \<Rightarrow> (Ok (), w))"

definition unstage_file_impl :: "'w git_env \<Rightarrow> string \<Rightarrow> 'w \<Rightarrow> (unit, git_error) result \<times> 'w" where
  "unstage_file_impl G file_path w = unstage_files_impl G [file_path] w"

definition discard_file_impl :: "'w git_env \<Rightarrow> string \<Rightarrow> string \<Rightarrow> 'w \<Rightarrow> (unit, git_error) result \<times> 'w" where
  "discard_file_impl G worktree_path file_path w =
     (case run_git G [''checkout'', ''--'', file_path] w of
        (Ok _, w) \<Rightarrow> (Ok (), w)
      | (Err e, w) \<Rightarrow>
          (let full_path = path_join worktree_path file_path in
           if gv_exists G w full_path then remove_path G full_path w else (Err e, w)))"

fun discard_files_impl :: "'w git_env \<Rightarrow> string \<Rightarrow> string list \<Rightarrow> 'w \<Rightarrow> (unit, git_error) result \<times> 'w" where
  "discard_files_impl G worktree_path [] w = (Ok (), w)"
| "discard_files_impl G worktree_path (p # ps) w =
     (case discard_file_impl G worktree_path p w of
        (Err e, w) \<Rightarrow> (Err e, w)
      | (Ok _, w) \<Rightarrow> discard_files_impl G worktree_path ps w)"

fun remove_untracked_loop :: "'w git_env \<Rightarrow> string \<Rightarrow> string list \<Rightarrow> 'w \<Rightarrow> (unit, git_error) result \<times> 'w" where
  "remove_untracked_loop G worktree_path [] w = (Ok (), w)"
| "remove_untracked_loop G worktree_path (p # ps) w =
     (if \<not> is_untracked G w p then (Err (NotUntracked p), w)
      else let full_path = path_join worktree_path p in
        if gv_exists G w full_path then
          (case remove_path G full_path w of
             (Err e, w) \<Rightarrow> (Err e, w)
           | (Ok _, w) \<Rightarrow> remove_untracked_loop G worktree_path ps w)
        else remove_untracked_loop G worktree_path ps w)"

definition remove_untracked_files_impl ::
  "'w git_env \<Rightarrow> string \<Rightarrow> string list \<Rightarrow> 'w \<Rightarrow> (unit, git_error) result \<times> 'w" where
  "remove_untracked_files_impl G worktree_path file_paths w =
     (if \<not> gv_open G w then (Err RepoError, w) else remove_untracked_loop G worktree_path file_paths w)"

subsection \<open>Hunk and line operations\<close>

definition apply_patch :: "'w git_env \<Rightarrow> string \<Rightarrow> string list \<Rightarrow> 'w \<Rightarrow> (unit, git_error) result \<times> 'w" where
  "apply_patch G patch extra_args w =
     (let (ok, w) = gv_git G (''apply'' # extra_args) patch w
      in (if ok then Ok () else Err (GitFailed (''apply'' # extra_args)), w))"

definition hunk_operation ::
  "'w git_env \<Rightarrow> (file_diff, git_error) result \<Rightarrow> string \<Rightarrow> u32 \<Rightarrow> string list \<Rightarrow> 'w
   \<Rightarrow> (unit, git_error) result \<times> 'w" where
  "hunk_operation G diff file_path hunk_index extra_args w =
     (case diff of
        Err e \<Rightarrow> (Err e, w)
      | Ok diff \<Rightarrow>
          (case get_hunk diff hunk_index of
             Err e \<Rightarrow> (Err e, w)
           | Ok hunk \<Rightarrow> apply_patch G (build_hunk_patch file_path (fd_old_path diff) hunk) extra_args w))"

definition line_operation ::
  "'w git_env \<Rightarrow> (file_diff, git_error) result \<Rightarrow> string \<Rightarrow> u32 \<Rightarrow> u32 list \<Rightarrow> string list \<Rightarrow> 'w
   \<Rightarrow> (unit, git_error) result \<times> 'w" where
  "line_operation G diff file_path hunk_index line_indices extra_args w =
     (case diff of
        Err e \<Rightarrow> (Err e, w)
      | Ok diff \<Rightarrow>
          (case get_hunk diff hunk_index of
             Err e \<Rightarrow> (Err e, w)
           | Ok hunk \<Rightarrow>
               (case build_selective_patch file_path (fd_old_path diff) hunk (set line_indices) of
                  Err e \<Rightarrow> (Err e, w)
                | Ok patch \<Rightarrow> apply_patch G patch extra_args w)))"

definition stage_hunk_impl :: "'w git_env \<Rightarrow> string \<Rightarrow> u32 \<Rightarrow> 'w \<Rightarrow> (unit, git_error) result \<times> 'w" where
  "stage_hunk_impl G file_path i w =
     hunk_operation G (get_unstaged_diff G w file_path) file_path i [''--cached''] w"

definition unstage_hunk_impl :: "'w git_env \<Rightarrow> string \<Rightarrow> u32 \<Rightarrow> 'w \<Rightarrow> (unit, git_error) result \<times> 'w" where
  "unstage_hunk_impl G file_path i w =
     hunk_operation G (get_staged_diff G w file_path) file_path i [''--cached'', ''--reverse''] w"

definition discard_hunk_impl :: "'w git_env \<Rightarrow> string \<Rightarrow> u32 \<Rightarrow> 'w \<Rightarrow> (unit, git_error) result \<times> 'w" where
  "discard_hunk_impl G file_path i w =
     hunk_operation G (get_unstaged_diff G w file_path) file_path i [''--reverse''] w"

definition stage_lines_impl :: "'w git_env \<Rightarrow> string \<Rightarrow> u32 \<Rightarrow> u32 list \<Rightarrow> 'w \<Rightarrow> (unit, git_error) result \<times> 'w" where
  "stage_lines_impl G file_path i sel w =
     line_operation G (get_unstaged_diff G w file_path) file_path i sel [''--cached''] w"

definition unstage_lines_impl :: "'w git_env \<Rightarrow> string \<Rightarrow> u32 \<Rightarrow> u32 list \<Rightarrow> 'w \<Rightarrow> (unit, git_error) result \<times> 'w" where
  "unstage_lines_impl G file_path i sel w =
     line_operation G (get_staged_diff G w file_path) file_path i sel [''--cached'', ''--reverse''] w"

definition discard_lines_impl :: "'w git_env \<Rightarrow> string \<Rightarrow> u32 \<Rightarrow> u32 list \<Rightarrow> 'w \<Rightarrow> (unit, git_error) result \<times> 'w" where
  "discard_lines_impl G file_path i sel w =
     line_operation G (get_unstaged_diff G w file_path) file_path i sel [''--reverse''] w"

end
