(* ===== verification/GitProject.thy ===== *)
theory GitProject
  imports Config GitDiff "HOL-Library.Sublist" "HOL-Library.List_Lexorder" "HOL-Library.Char_ord"
begin

text \<open>
  \<open>grove-core/src/git_project.rs\<close>: remote URLs and pull requests, the list of projects and its reconciliation
  with the disk, worktrees and the stacks among them, and the operations on projects, worktrees and the
  source repository.

  \<open>git\<close>, \<open>gh\<close>, libgit2, the file system and fresh ids are functions of the environment over a world \<open>'w\<close>. A path
  stands for its components; SHA-1 object ids are their hexadecimal text.
\<close>

subsection \<open>Remote URLs\<close>

datatype project_error =
  InvalidUrl string | ProjectNotFound string | ConfigFailed config_error | UnmanagedSource string | GitError string
| SourceMissing string | EmptyBranchName | InvalidBranchName string | BranchPrefixConflict string string
| BranchExists string | ParentNotFound string | ParentPathMissing string | HasStackedChildren string "string list"
| NoRemoteUrl string | RepoUnavailable string | MkdirFailed string | EmptyProjectName | CategoryNotFound string
| DefaultCategory | BaseBranchNotFound string | NoOriginHead string | StashGone string
| RestoreFailed string string | DropFailed string string | SyncFailed string project_error
| SyncAndRestoreFailed string project_error project_error | EnvSyncFailed string | WriteFailed string
| InvalidManagedPath string | GhFailed string | HeadUnreadable string | DetachedHead string | NotGithub string

definition parse_git_url :: "string \<Rightarrow> (string \<times> string \<times> string, project_error) result" where
  "parse_git_url url =
     (case strip_prefix_str ''git@'' url of
        Some rest \<Rightarrow>
          (case split_once (CHR '':'') rest of
             None \<Rightarrow> Err (InvalidUrl url)
           | Some (host, path) \<Rightarrow>
               (case split_char (CHR ''/'') (trim_end_str ''.git'' path) of
                  org # repo # _ \<Rightarrow> Ok (host, org, repo)
                | _ \<Rightarrow> Err (InvalidUrl (trim_end_str ''.git'' path))))
      | None \<Rightarrow>
          (let url_str = trim_end_str ''.git'' url in
           case (case strip_prefix_str ''https://'' url_str of
                   Some r \<Rightarrow> Some r | None \<Rightarrow> strip_prefix_str ''http://'' url_str) of
             None \<Rightarrow> Err (InvalidUrl url)
           | Some without_protocol \<Rightarrow>
               (case split_char (CHR ''/'') without_protocol of
                  host # org # repo # _ \<Rightarrow> Ok (host, org, repo)
                | _ \<Rightarrow> Err (InvalidUrl url))))"

definition is_github_host :: "string \<Rightarrow> bool" where
  "is_github_host host =
     (let n = map to_ascii_lowercase (trim host) in n = ''github.com'' \<or> contains_str ''github'' n)"

definition github_remote :: "string \<Rightarrow> (string \<times> string \<times> string) option" where
  "github_remote url =
     (case parse_git_url url of
        Err _ \<Rightarrow> None
      | Ok (host, org, repo) \<Rightarrow> if is_github_host host then Some (host, org, repo) else None)"

definition normalize_source_path :: "string \<Rightarrow> string" where
  "normalize_source_path p = trim_end_matches ''/'' p"

definition normalize_project_url :: "string \<Rightarrow> string" where
  "normalize_project_url url = trim_end_str ''.git'' (trim_end_matches ''/'' url)"

subsection \<open>Pull requests\<close>

datatype pr_status = PrOpen | PrMerged | PrUnknown

record pull_request_summary =
  ps_url :: string
  ps_state :: string
  ps_head_ref_name :: string
  ps_head_ref_oid :: string
  ps_merged_at :: "string option"
  ps_updated_at :: string

text \<open>\<open>oid_from_str\<close> is libgit2's reader of object ids.\<close>

definition parse_pull_request_head_ref :: "(string \<Rightarrow> string option) \<Rightarrow> string \<Rightarrow> (u64 \<times> string) option" where
  "parse_pull_request_head_ref oid_from_str line =
     (case split_whitespace line of
        a # b # _ \<Rightarrow>
          (case (oid_from_str a,
                 Option.bind (strip_prefix_str ''refs/pull/'' b) (\<lambda>r. Option.bind (strip_suffix_str ''/head'' r) parse_u64)) of
             (Some oid, Some number) \<Rightarrow> Some (number, oid)
           | _ \<Rightarrow> None)
      | _ \<Rightarrow> None)"

definition parse_pull_request_head_refs :: "(string \<Rightarrow> string option) \<Rightarrow> string \<Rightarrow> (u64 \<times> string) list" where
  "parse_pull_request_head_refs oid_from_str out = List.map_filter (parse_pull_request_head_ref oid_from_str) (lines out)"

definition find_pull_request_number_for_head :: "(u64 \<times> string) list \<Rightarrow> string \<Rightarrow> u64 option" where
  "find_pull_request_number_for_head refs head_oid = map_option fst (find (\<lambda>(n, oid). oid = head_oid) refs)"

definition show_nat :: "nat \<Rightarrow> string" where "show_nat n = chars_of (dec_digits n)"

definition canonical_pull_request_url :: "string \<Rightarrow> string \<Rightarrow> string \<Rightarrow> u64 \<Rightarrow> string" where
  "canonical_pull_request_url host org repo number =
     ''https://'' @ host @ ''/'' @ org @ ''/'' @ repo @ ''/pull/'' @ show_nat (unat number)"

definition github_repo_selector :: "string \<Rightarrow> string \<Rightarrow> string \<Rightarrow> string" where
  "github_repo_selector host org repo =
     (if eq_ignore_ascii_case host ''github.com'' then org @ ''/'' @ repo else host @ ''/'' @ org @ ''/'' @ repo)"

definition github_token_override_env :: "string \<Rightarrow> string option" where
  "github_token_override_env org =
     (if org = ''sendbird'' then Some ''GH_TOKEN_SENDBIRD''
      else if org = ''sendbird-playground'' then Some ''GH_TOKEN_SENDBIRD_PLAYGROUND''
      else if org = ''rich-automation'' then Some ''GH_TOKEN_RICH_AUTOMATION'' else None)"

text \<open>A quote becomes quote, double quote, quote, double quote, quote.\<close>

definition quote_char :: char where "quote_char = CHR 0x27"
definition dquote_char :: char where "dquote_char = CHR 0x22"

definition shell_quote :: "string \<Rightarrow> string" where
  "shell_quote v =
     [quote_char]
     @ concat (map (\<lambda>c. if c = quote_char then [quote_char, dquote_char, quote_char, dquote_char, quote_char] else [c]) v)
     @ [quote_char]"

definition pull_request_status_from_github_summary :: "pull_request_summary \<Rightarrow> pr_status option" where
  "pull_request_status_from_github_summary pr =
     (if eq_ignore_ascii_case (ps_state pr) ''open'' then Some PrOpen
      else if ps_merged_at pr \<noteq> None then Some PrMerged else None)"

definition pr_priority :: "string \<Rightarrow> pull_request_summary \<Rightarrow> pr_status \<Rightarrow> bool \<times> bool \<times> string" where
  "pr_priority head_oid pr status =
     (status = PrOpen, eq_ignore_ascii_case (ps_head_ref_oid pr) head_oid, ps_updated_at pr)"

definition priority_le :: "bool \<times> bool \<times> string \<Rightarrow> bool \<times> bool \<times> string \<Rightarrow> bool" where
  "priority_le p q \<longleftrightarrow>
     (case (p, q) of ((a, b, s), (c, d, t)) \<Rightarrow> a < c \<or> a = c \<and> (b < d \<or> b = d \<and> s \<le> t))"

text \<open>\<open>max_by_key\<close> keeps the last of equal maxima.\<close>

definition select_github_pull_request ::
  "pull_request_summary list \<Rightarrow> string \<Rightarrow> string \<Rightarrow> (string \<times> pr_status) option" where
  "select_github_pull_request prs branch_name head_oid =
     map_option snd (foldl (\<lambda>best pr.
       if ps_head_ref_name pr \<noteq> branch_name then best
       else case pull_request_status_from_github_summary pr of
              None \<Rightarrow> best
            | Some status \<Rightarrow>
                (case best of
                   None \<Rightarrow> Some (pr_priority head_oid pr status, (ps_url pr, status))
                 | Some (p, b) \<Rightarrow>
                     if priority_le p (pr_priority head_oid pr status)
                     then Some (pr_priority head_oid pr status, (ps_url pr, status)) else best)) None prs)"

subsection \<open>Branch names\<close>

definition validate_branch_name :: "string \<Rightarrow> (unit, project_error) result" where
  "validate_branch_name name =
     (if name = [] then Err EmptyBranchName
      else if starts_with ''/'' name \<or> ends_with ''/'' name \<or> contains_str ''//'' name then Err (InvalidBranchName name)
      else if starts_with ''-'' name \<or> starts_with ''.'' name then Err (InvalidBranchName name)
      else if contains_str ''..'' name \<or> contains_str '' '' name \<or> contains_str ''~'' name \<or> contains_str ''^'' name
           \<or> contains_str '':'' name \<or> contains_str [CHR 0x5C] name \<or> contains_str ''*'' name \<or> contains_str ''?'' name
           \<or> contains_str ''['' name \<or> ends_with ''.'' name \<or> ends_with ''.lock'' name then Err (InvalidBranchName name)
      else Ok ())"

definition find_branch_prefix_conflict :: "string list \<Rightarrow> string \<Rightarrow> string option" where
  "find_branch_prefix_conflict branches requested =
     find (\<lambda>b. b \<noteq> requested \<and> (starts_with (b @ ''/'') requested \<or> starts_with (requested @ ''/'') b)) branches"

text \<open>The text between two markers.\<close>

definition after_marker :: "string \<Rightarrow> string \<Rightarrow> string option" where
  "after_marker m s = map_option (\<lambda>i. drop (i + length m) s) (find_str m s)"

definition before_marker :: "string \<Rightarrow> string \<Rightarrow> string option" where
  "before_marker m s = map_option (\<lambda>i. take i s) (find_str m s)"

definition parse_branch_prefix_conflict_from_git_error :: "string \<Rightarrow> string option" where
  "parse_branch_prefix_conflict_from_git_error err =
     (case Option.bind (after_marker (''cannot create '' @ [quote_char] @ ''refs/heads/'') err) (before_marker [quote_char]) of
        None \<Rightarrow> None
      | Some requested \<Rightarrow>
          (case Option.bind (after_marker ([quote_char] @ ''refs/heads/'') err) (before_marker ([quote_char] @ '' exists;'')) of
             None \<Rightarrow> None
           | Some existing \<Rightarrow>
               if requested = existing then None
               else if starts_with (existing @ ''/'') requested \<or> starts_with (requested @ ''/'') existing
               then Some existing else None))"

definition humanize_worktree_add_error :: "string \<Rightarrow> project_error \<Rightarrow> project_error" where
  "humanize_worktree_add_error branch_name err =
     (case err of
        GitError text \<Rightarrow>
          (case parse_branch_prefix_conflict_from_git_error text of
             Some c \<Rightarrow> BranchPrefixConflict branch_name c
           | None \<Rightarrow> err)
      | _ \<Rightarrow> err)"

subsection \<open>The environment\<close>

datatype run_output = NotRun string | Ran "int option" bytes bytes

text \<open>
  \<open>pv_git cwd args\<close> runs git with an exit code, output and error output. \<open>pv_remotes\<close> is \<open>None\<close> where libgit2 can not
  open the repository; a remote has a name and maybe a URL. \<open>pv_created\<close> is the creation time, 0 if unknown;
  \<open>pv_fetch_age\<close> the seconds since the last fetch, \<open>None\<close> if unknown or in the future. \<open>pv_dirty\<close> is whether libgit2
  lists a change, false if it can not list. \<open>pv_head_ref\<close> is the short name of HEAD and whether it is a branch.
  \<open>pv_gh org cwd args\<close> runs gh with the token of the organisation, \<open>pv_shell\<close> a command line in the login shell.
  \<open>pv_resources\<close> are the handlers of the worktree lifecycle: the layouts, the snapshots and the terminals of a worktree.
\<close>

record 'w project_env = "'w config_env" +
  pv_git :: "string \<Rightarrow> string list \<Rightarrow> 'w \<Rightarrow> run_output \<times> 'w"
  pv_is_dir :: "'w \<Rightarrow> string \<Rightarrow> bool"
  pv_is_file :: "'w \<Rightarrow> string \<Rightarrow> bool"
  pv_exists :: "'w \<Rightarrow> string \<Rightarrow> bool"
  pv_canonicalize :: "'w \<Rightarrow> string \<Rightarrow> string option"
  pv_child_dirs :: "'w \<Rightarrow> string \<Rightarrow> string list"
  pv_remotes :: "'w \<Rightarrow> string \<Rightarrow> (string \<times> string option) list option"
  pv_created :: "'w \<Rightarrow> string \<Rightarrow> nat"
  pv_dirty :: "'w \<Rightarrow> string \<Rightarrow> bool"
  pv_opens :: "'w \<Rightarrow> string \<Rightarrow> bool"
  pv_fetch_age :: "'w \<Rightarrow> string \<Rightarrow> nat option"
  pv_head :: "'w \<Rightarrow> string \<Rightarrow> string option"
  pv_remote_head :: "'w \<Rightarrow> string \<Rightarrow> string \<Rightarrow> string option"
  pv_uuid :: "'w \<Rightarrow> string \<times> 'w"
  pv_mkdir :: "string \<Rightarrow> 'w \<Rightarrow> bool \<times> 'w"
  pv_remove_dir :: "string \<Rightarrow> 'w \<Rightarrow> 'w"
  pv_write_file :: "string \<Rightarrow> string \<Rightarrow> 'w \<Rightarrow> bool \<times> 'w"
  pv_check_ignore :: "string \<Rightarrow> string \<Rightarrow> 'w \<Rightarrow> bytes option"
  pv_copy :: "string \<Rightarrow> string \<Rightarrow> 'w \<Rightarrow> bool \<times> 'w"
  pv_resources :: "(string \<Rightarrow> 'w \<Rightarrow> (unit, string) result \<times> 'w) list"
  pv_read_file :: "'w \<Rightarrow> string \<Rightarrow> string option"
  pv_head_ref :: "'w \<Rightarrow> string \<Rightarrow> (string option \<times> bool) option"
  pv_gh :: "string \<Rightarrow> string option \<Rightarrow> string list \<Rightarrow> 'w \<Rightarrow> run_output \<times> 'w"
  pv_shell :: "string \<Rightarrow> 'w \<Rightarrow> (string, string) result \<times> 'w"
  pv_parse_prs :: "bytes \<Rightarrow> pull_request_summary list option"

definition run_git_output :: "'w project_env \<Rightarrow> string \<Rightarrow> string list \<Rightarrow> 'w \<Rightarrow> (string, project_error) result \<times> 'w" where
  "run_git_output E cwd args w =
     (let (out, w) = pv_git E cwd args w; name = (case args of a # _ \<Rightarrow> a | [] \<Rightarrow> [])
      in (case out of
            NotRun e \<Rightarrow> Err (GitError (''Failed to run git '' @ name @ '': '' @ e))
          | Ran code stdout stderr \<Rightarrow>
              if code = Some 0 then Ok (trim (from_utf8_lossy stdout))
              else Err (GitError (''git '' @ name @ '' failed: '' @ trim (from_utf8_lossy stderr))), w))"

definition run_git :: "'w project_env \<Rightarrow> string \<Rightarrow> string list \<Rightarrow> 'w \<Rightarrow> (unit, project_error) result \<times> 'w" where
  "run_git E cwd args w = (let (r, w) = run_git_output E cwd args w in (map_ok (\<lambda>_. ()) r, w))"

definition base_dir :: "'w project_env \<Rightarrow> 'w \<Rightarrow> string" where
  "base_dir E w = ac_base_dir (load_app_config E w)"

definition project_dir :: "'w project_env \<Rightarrow> string \<Rightarrow> string \<Rightarrow> string \<Rightarrow> 'w \<Rightarrow> string" where
  "project_dir E host org repo w = path_join (path_join (path_join (base_dir E w) host) org) repo"

fun join_slash :: "string list \<Rightarrow> string" where
  "join_slash [] = []"
| "join_slash [s] = s"
| "join_slash (s # ss) = s @ ''/'' @ join_slash ss"

definition component_text :: "path_component \<Rightarrow> string" where
  "component_text c = (case c of RootDir \<Rightarrow> [] | CurDir \<Rightarrow> ''.'' | ParentDir \<Rightarrow> ''..'' | Normal s \<Rightarrow> s)"

definition components_path :: "path_component list \<Rightarrow> string" where
  "components_path cs = (if cs = [RootDir] then ''/'' else join_slash (map component_text cs))"

definition path_parent :: "string \<Rightarrow> string option" where
  "path_parent p =
     (let cs = path_components p
      in if cs = [] \<or> last cs = RootDir then None else Some (components_path (butlast cs)))"

definition path_file_name :: "string \<Rightarrow> string option" where
  "path_file_name p =
     (case rev (path_components p) of Normal s # _ \<Rightarrow> Some s | _ \<Rightarrow> None)"

definition same_path :: "string \<Rightarrow> string \<Rightarrow> bool" where
  "same_path p q \<longleftrightarrow> path_components p = path_components q"

definition path_strip_prefix :: "string \<Rightarrow> string \<Rightarrow> string option" where
  "path_strip_prefix base p =
     (let b = path_components base; cs = path_components p
      in if take (length b) cs = b then Some (components_path (drop (length b) cs)) else None)"

definition normalized_path :: "'w project_env \<Rightarrow> 'w \<Rightarrow> string \<Rightarrow> string" where
  "normalized_path E w p = unwrap_or p (pv_canonicalize E w p)"

subsection \<open>Entries\<close>

definition same_project_entry :: "project_entry \<Rightarrow> project_entry \<Rightarrow> bool" where
  "same_project_entry l r \<longleftrightarrow> pj_id l = pj_id r \<and> pj_name l = pj_name r \<and> pj_url l = pj_url r \<and> pj_org l = pj_org r
     \<and> pj_repo l = pj_repo r \<and> pj_source_path l = pj_source_path r"

definition same_project_entries :: "project_entry list \<Rightarrow> project_entry list \<Rightarrow> bool" where
  "same_project_entries l r \<longleftrightarrow> list_all2 same_project_entry l r"

definition find_matching_project :: "project_entry list \<Rightarrow> string \<Rightarrow> string option \<Rightarrow> project_entry option" where
  "find_matching_project entries source_path url =
     find (\<lambda>e. normalize_source_path (pj_source_path e) = normalize_source_path source_path
             \<or> (case url of None \<Rightarrow> False | Some u \<Rightarrow> normalize_project_url (pj_url e) = normalize_project_url u)) entries"

definition make_project_entry :: "string \<Rightarrow> string \<Rightarrow> string \<Rightarrow> string \<Rightarrow> string \<Rightarrow> string \<Rightarrow> project_entry" where
  "make_project_entry i name url org repo source_path =
     \<lparr>pj_id = i, pj_name = name, pj_url = url, pj_org = org, pj_repo = repo, pj_source_path = source_path,
      pj_worktree_order = [], pj_stacked_parents = [], pj_base_branch = None, pj_collapsed = False,
      pj_focused = False, pj_category_id = None, pj_env_sync = None\<rparr>"

definition project_entry_from_url ::
  "'w project_env \<Rightarrow> string \<Rightarrow> string \<Rightarrow> string option \<Rightarrow> 'w \<Rightarrow> (project_entry, project_error) result \<times> 'w" where
  "project_entry_from_url E url source_dir preferred_name w =
     (case parse_git_url url of
        Err e \<Rightarrow> (Err e, w)
      | Ok (host, org, repo) \<Rightarrow>
          (let (i, w) = pv_uuid E w
           in (Ok (make_project_entry i (unwrap_or repo preferred_name) url org repo source_dir), w)))"

definition remote_url_for_repo :: "'w project_env \<Rightarrow> 'w \<Rightarrow> string \<Rightarrow> (string, project_error) result" where
  "remote_url_for_repo E w source_dir =
     (case pv_remotes E w source_dir of
        None \<Rightarrow> Err (RepoUnavailable source_dir)
      | Some remotes \<Rightarrow>
          (case Option.bind (map_of remotes ''origin'') (\<lambda>u. u) of
             Some url \<Rightarrow> Ok url
           | None \<Rightarrow> (case List.map_filter snd remotes of url # _ \<Rightarrow> Ok url | [] \<Rightarrow> Err (NoRemoteUrl source_dir))))"

definition project_entry_from_source ::
  "'w project_env \<Rightarrow> string \<Rightarrow> 'w \<Rightarrow> (project_entry, project_error) result \<times> 'w" where
  "project_entry_from_source E source_dir w =
     (case remote_url_for_repo E w source_dir of
        Err e \<Rightarrow> (Err e, w)
      | Ok url \<Rightarrow> project_entry_from_url E url source_dir None w)"

definition scan_source_directories :: "'w project_env \<Rightarrow> 'w \<Rightarrow> string \<Rightarrow> string list" where
  "scan_source_directories E w base =
     sort (filter (pv_is_dir E w)
       (map (\<lambda>d. path_join d ''source'')
          (concat (map (pv_child_dirs E w) (concat (map (pv_child_dirs E w) (pv_child_dirs E w base)))))))"

subsection \<open>Reconciliation with the disk\<close>

text \<open>The loop state: the entries kept and the keys of paths and URLs seen.\<close>

type_synonym seen_entries = "project_entry list \<times> string list \<times> string list"

definition keep_entry :: "'w project_env \<Rightarrow> 'w \<Rightarrow> seen_entries \<Rightarrow> project_entry \<Rightarrow> seen_entries" where
  "keep_entry E w s e =
     (let (kept, paths, urls) = s;
          p = normalize_source_path (pj_source_path e); u = normalize_project_url (pj_url e)
      in if \<not> pv_is_dir E w (pj_source_path e) then s
         else if p \<in> set paths then s
         else if u \<in> set urls then (kept, p # paths, urls)
         else (kept @ [e], p # paths, u # urls))"

definition scan_entry :: "'w project_env \<Rightarrow> seen_entries \<times> 'w \<Rightarrow> string \<Rightarrow> seen_entries \<times> 'w" where
  "scan_entry E s source_path =
     (let ((kept, paths, urls), w) = s; p = normalize_source_path source_path
      in if p \<in> set paths then s
         else case project_entry_from_source E source_path w of
           (Err _, w) \<Rightarrow> ((kept, paths, urls), w)
         | (Ok e, w) \<Rightarrow>
             (let u = normalize_project_url (pj_url e)
              in if u \<in> set urls then ((kept, paths, urls), w) else ((kept @ [e], p # paths, u # urls), w)))"

definition reconcile_project_entries ::
  "'w project_env \<Rightarrow> project_entry list \<Rightarrow> string \<Rightarrow> 'w \<Rightarrow> project_entry list \<times> 'w" where
  "reconcile_project_entries E entries base w =
     (let ((kept, paths, urls), w) =
        foldl (scan_entry E) (foldl (keep_entry E w) ([], [], []) entries, w) (scan_source_directories E w base)
      in (kept, w))"

definition category_ids :: "grove_config \<Rightarrow> string list" where
  "category_ids c = map pc_id (pf_categories (normalized (unwrap_or default_preferences (gc_preferences c))))"

definition normalize_project_category_id :: "string option \<Rightarrow> string list \<Rightarrow> string option" where
  "normalize_project_category_id category_id available =
     (case category_id of
        None \<Rightarrow> None
      | Some c \<Rightarrow>
          (let c = trim c
           in if c = [] \<or> c = DEFAULT_PROJECT_CATEGORY_ID then None else if c \<in> set available then Some c else None))"

definition reconcile_project_categories :: "grove_config \<Rightarrow> bool \<times> grove_config" where
  "reconcile_project_categories c =
     (let np = normalized (unwrap_or default_preferences (gc_preferences c));
          available = map pc_id (pf_categories np);
          preferences_changed = (case gc_preferences c of Some p \<Rightarrow> \<not> same_preferences p np | None \<Rightarrow> False);
          c = (if preferences_changed then c\<lparr>gc_preferences := Some np\<rparr> else c);
          fix_one = (\<lambda>e. e\<lparr>pj_category_id := normalize_project_category_id (pj_category_id e) available\<rparr>);
          projects_changed = (\<exists>e \<in> set (gc_projects c). pj_category_id e \<noteq> pj_category_id (fix_one e))
      in (preferences_changed \<or> projects_changed, c\<lparr>gc_projects := map fix_one (gc_projects c)\<rparr>))"

definition save :: "'w project_env \<Rightarrow> grove_config \<Rightarrow> 'w \<Rightarrow> (unit, project_error) result \<times> 'w" where
  "save E c w = (case save_config E c w of (Ok _, w) \<Rightarrow> (Ok (), w) | (Err e, w) \<Rightarrow> (Err (ConfigFailed e), w))"

definition load_reconciled_config :: "'w project_env \<Rightarrow> 'w \<Rightarrow> (grove_config, project_error) result \<times> 'w" where
  "load_reconciled_config E w =
     (let c = load_config E w;
          (reconciled, w) = reconcile_project_entries E (gc_projects c) (base_dir E w) w;
          (categories_changed, c) = reconcile_project_categories c
      in if \<not> same_project_entries (gc_projects c) reconciled \<or> categories_changed
         then (let c = c\<lparr>gc_projects := reconciled\<rparr>; (r, w) = save E c w in (map_ok (\<lambda>_. c) r, w))
         else (Ok (c\<lparr>gc_projects := reconciled\<rparr>), w))"

definition find_project_entry :: "'w project_env \<Rightarrow> string \<Rightarrow> 'w \<Rightarrow> (project_entry, project_error) result \<times> 'w" where
  "find_project_entry E i w =
     (case load_reconciled_config E w of
        (Err e, w) \<Rightarrow> (Err e, w)
      | (Ok c, w) \<Rightarrow>
          (case find (\<lambda>p. pj_id p = i) (gc_projects c) of
             Some p \<Rightarrow> (Ok p, w) | None \<Rightarrow> (Err (ProjectNotFound i), w)))"

definition register_project_entry :: "'w project_env \<Rightarrow> project_entry \<Rightarrow> 'w \<Rightarrow> (project_entry, project_error) result \<times> 'w" where
  "register_project_entry E entry w =
     (case load_reconciled_config E w of
        (Err e, w) \<Rightarrow> (Err e, w)
      | (Ok c, w) \<Rightarrow>
          (case find_matching_project (gc_projects c) (pj_source_path entry) (Some (pj_url entry)) of
             Some existing \<Rightarrow> (Ok existing, w)
           | None \<Rightarrow>
               (let (r, w) = save E (c\<lparr>gc_projects := gc_projects c @ [entry]\<rparr>) w in (map_ok (\<lambda>_. entry) r, w))))"

subsection \<open>Worktrees\<close>

record worktree =
  wt_name :: string
  wt_path :: string
  wt_branch :: string
  wt_stack_parent :: "string option"
  wt_warning :: "string option"

definition SOURCE_WORKTREE_NAME :: string where "SOURCE_WORKTREE_NAME = ''source''"

definition make_worktree :: "'w project_env \<Rightarrow> 'w \<Rightarrow> string \<Rightarrow> string \<Rightarrow> string \<Rightarrow> worktree" where
  "make_worktree E w path branch project_base =
     (let nbase = normalized_path E w project_base; np = normalized_path E w path;
          name = (if same_path np (path_join nbase SOURCE_WORKTREE_NAME) then SOURCE_WORKTREE_NAME
                  else case path_strip_prefix (path_join nbase ''worktrees'') np of
                         Some rel \<Rightarrow> rel
                       | None \<Rightarrow> unwrap_or path (path_file_name path));
          display = (case path_strip_prefix nbase np of Some rel \<Rightarrow> path_join project_base rel | None \<Rightarrow> path)
      in \<lparr>wt_name = name, wt_path = display, wt_branch = branch, wt_stack_parent = None, wt_warning = None\<rparr>)"

text \<open>The loop over the porcelain lines: worktrees so far, current path, branch, bare.\<close>

definition flush_worktree ::
  "'w project_env \<Rightarrow> 'w \<Rightarrow> string \<Rightarrow> worktree list \<Rightarrow> string \<Rightarrow> string \<Rightarrow> bool \<Rightarrow> worktree list" where
  "flush_worktree E w project_base wts path branch is_bare =
     (if path \<noteq> [] \<and> \<not> is_bare
         \<and> path_strip_prefix (normalized_path E w (path_join project_base ''worktrees'')) (normalized_path E w path) \<noteq> None
      then wts @ [make_worktree E w path branch project_base] else wts)"

definition worktree_line ::
  "'w project_env \<Rightarrow> 'w \<Rightarrow> string \<Rightarrow> worktree list \<times> string \<times> string \<times> bool \<Rightarrow> string
   \<Rightarrow> worktree list \<times> string \<times> string \<times> bool" where
  "worktree_line E w project_base s line =
     (let (wts, path, branch, is_bare) = s in
      case strip_prefix_str ''worktree '' line of
        Some p \<Rightarrow> (flush_worktree E w project_base wts path branch is_bare, p, [], False)
      | None \<Rightarrow>
          (case strip_prefix_str ''branch '' line of
             Some b \<Rightarrow> (wts, path, unwrap_or b (strip_prefix_str ''refs/heads/'' b), is_bare)
           | None \<Rightarrow> if line = ''bare'' then (wts, path, branch, True) else s))"

definition parse_worktree_list :: "'w project_env \<Rightarrow> 'w \<Rightarrow> string \<Rightarrow> string \<Rightarrow> worktree list" where
  "parse_worktree_list E w out project_base =
     (case foldl (worktree_line E w project_base) ([], [], [], False) (lines out) of
        (wts, path, branch, is_bare) \<Rightarrow> flush_worktree E w project_base wts path branch is_bare)"

definition visible_worktrees :: "'w project_env \<Rightarrow> 'w \<Rightarrow> worktree list \<Rightarrow> string \<Rightarrow> worktree list" where
  "visible_worktrees E w wts source_path =
     filter (\<lambda>t. \<not> same_path (normalized_path E w (wt_path t)) (normalized_path E w source_path)) wts"

fun take_named :: "string \<Rightarrow> worktree list \<Rightarrow> (worktree \<times> worktree list) option" where
  "take_named name [] = None"
| "take_named name (t # ts) =
     (if wt_name t = name then Some (t, ts)
      else case take_named name ts of None \<Rightarrow> None | Some (u, us) \<Rightarrow> Some (u, t # us))"

definition apply_worktree_order :: "worktree list \<Rightarrow> string list \<Rightarrow> worktree list" where
  "apply_worktree_order wts order =
     (let (ordered, remaining) =
        foldl (\<lambda>(ordered, remaining) name.
                 case take_named name remaining of
                   Some (t, rest) \<Rightarrow> (ordered @ [t], rest)
                 | None \<Rightarrow> (ordered, remaining)) ([], wts) order
      in ordered @ remaining)"

text \<open>The walk up the parents; \<open>seen\<close> grows within the keys of the map.\<close>

function chain_loop :: "string \<Rightarrow> string list \<Rightarrow> (string \<times> string) list \<Rightarrow> bool" where
  "chain_loop current seen m =
     (case map_of m current of
        None \<Rightarrow> False
      | Some parent \<Rightarrow> if current \<in> set seen then True else chain_loop parent (current # seen) m)"
  by pat_completeness auto
termination
proof (relation "measure (\<lambda>(c, seen, m). card (fst ` set m - set seen))", simp)
  fix c seen p and m :: "(string \<times> string) list"
  assume "map_of m c = Some p" "c \<notin> set seen"
  then have "c \<in> fst ` set m - set seen" by (auto dest: map_of_SomeD intro: rev_image_eqI)
  then have "card (fst ` set m - set (c # seen)) < card (fst ` set m - set seen)"
    by (intro psubset_card_mono) auto
  then show "((p, c # seen, m), c, seen, m) \<in> measure (\<lambda>(c, seen, m). card (fst ` set m - set seen))" by simp
qed

declare chain_loop.simps [simp del]

definition stack_parent_chain_has_cycle :: "string \<Rightarrow> (string \<times> string) list \<Rightarrow> bool" where
  "stack_parent_chain_has_cycle start m = chain_loop start [] m"

definition normalized_stacked_parents :: "(string \<times> string) list \<Rightarrow> worktree list \<Rightarrow> (string \<times> string) list" where
  "normalized_stacked_parents stacked wts =
     (let names = wt_name ` set wts;
          filtered = filter (\<lambda>(c, p). c \<noteq> p \<and> c \<in> names \<and> p \<in> names) stacked
      in filter (\<lambda>(c, p). \<not> stack_parent_chain_has_cycle c filtered) filtered)"

definition apply_stacked_parent_metadata :: "worktree list \<Rightarrow> (string \<times> string) list \<Rightarrow> worktree list" where
  "apply_stacked_parent_metadata wts stacked =
     (let m = normalized_stacked_parents stacked wts
      in map (\<lambda>t. t\<lparr>wt_stack_parent := map_of m (wt_name t)\<rparr>) wts)"

definition get_worktrees_for_project :: "'w project_env \<Rightarrow> string \<Rightarrow> 'w \<Rightarrow> worktree list \<times> 'w" where
  "get_worktrees_for_project E source_path w =
     (let project_base = unwrap_or source_path (path_parent source_path);
          (out, w) = pv_git E source_path [''worktree'', ''list'', ''--porcelain''] w
      in case out of
           Ran (Some code) stdout _ \<Rightarrow>
             if code = 0
             then (sort_key (\<lambda>t. pv_created E w (wt_path t)) (parse_worktree_list E w (from_utf8_lossy stdout) project_base), w)
             else ([], w)
         | _ \<Rightarrow> ([], w))"

definition resolve_project_worktrees :: "'w project_env \<Rightarrow> project_entry \<Rightarrow> 'w \<Rightarrow> worktree list \<times> 'w" where
  "resolve_project_worktrees E entry w =
     (let (wts, w) = get_worktrees_for_project E (pj_source_path entry) w;
          wts = apply_worktree_order (visible_worktrees E w wts (pj_source_path entry)) (pj_worktree_order entry)
      in (apply_stacked_parent_metadata wts (pj_stacked_parents entry), w))"

definition managed_source_dir :: "'w project_env \<Rightarrow> project_entry \<Rightarrow> 'w \<Rightarrow> (string, project_error) result" where
  "managed_source_dir E entry w =
     (case parse_git_url (pj_url entry) of
        Err e \<Rightarrow> Err e
      | Ok (host, org, repo) \<Rightarrow>
          (let expected = path_join (project_dir E host org repo w) SOURCE_WORKTREE_NAME in
           if \<not> same_path (normalized_path E w (pj_source_path entry)) (normalized_path E w expected)
           then Err (UnmanagedSource (pj_source_path entry)) else Ok (pj_source_path entry)))"

definition direct_stacked_children :: "worktree list \<Rightarrow> (string \<times> string) list \<Rightarrow> string \<Rightarrow> string list" where
  "direct_stacked_children wts stacked parent_name =
     (let m = normalized_stacked_parents stacked wts
      in map wt_name (filter (\<lambda>t. map_of m (wt_name t) = Some parent_name) wts))"

subsection \<open>Branches\<close>

definition trimmed_lines :: "string \<Rightarrow> string list" where
  "trimmed_lines out = filter (\<lambda>l. l \<noteq> []) (map trim (lines out))"

definition local_branch_names :: "'w project_env \<Rightarrow> string \<Rightarrow> 'w \<Rightarrow> (string list, project_error) result \<times> 'w" where
  "local_branch_names E source w =
     (let (r, w) = run_git_output E source [''for-each-ref'', ''--format=%(refname:short)'', ''refs/heads''] w
      in (map_ok trimmed_lines r, w))"

definition remote_branch_names :: "'w project_env \<Rightarrow> string \<Rightarrow> 'w \<Rightarrow> (string list, project_error) result \<times> 'w" where
  "remote_branch_names E source w =
     (let (r, w) = run_git_output E source [''for-each-ref'', ''--format=%(refname:short)'', ''refs/remotes/origin''] w
      in (map_ok (\<lambda>out. filter (\<lambda>l. l \<noteq> ''HEAD'') (List.map_filter (strip_prefix_str ''origin/'') (trimmed_lines out))) r, w))"

definition resolve_origin_head :: "'w project_env \<Rightarrow> string \<Rightarrow> 'w \<Rightarrow> (string, project_error) result \<times> 'w" where
  "resolve_origin_head E source w =
     (case run_git_output E source [''symbolic-ref'', ''--short'', ''refs/remotes/origin/HEAD''] w of
        (Err e, w) \<Rightarrow> (Err e, w)
      | (Ok r, w) \<Rightarrow> (case strip_prefix_str ''origin/'' r of Some b \<Rightarrow> (Ok b, w) | None \<Rightarrow> (Err (NoOriginHead r), w)))"

text \<open>The first candidate that exists as a remote branch.\<close>

fun first_remote :: "'w project_env \<Rightarrow> string \<Rightarrow> string list \<Rightarrow> 'w \<Rightarrow> string option \<times> 'w" where
  "first_remote E source [] w = (None, w)"
| "first_remote E source (c # cs) w =
     (let (r, w) = run_git E source [''show-ref'', ''--verify'', ''refs/remotes/origin/'' @ c] w
      in if is_ok r then (Some c, w) else first_remote E source cs w)"

fun the_only :: "(string list, project_error) result \<Rightarrow> string option" where
  "the_only (Ok [b]) = Some b"
| "the_only r = None"

definition remote_default_branch :: "'w project_env \<Rightarrow> string \<Rightarrow> 'w \<Rightarrow> (string, project_error) result \<times> 'w" where
  "remote_default_branch E source w =
     (case resolve_origin_head E source w of
        (Ok b, w) \<Rightarrow> (Ok b, w)
      | (Err _, w) \<Rightarrow>
     (let (locals, w) = local_branch_names E source w in
      case the_only locals of
        Some b \<Rightarrow> (Ok b, w)
      | None \<Rightarrow>
     (let (remotes, w) = remote_branch_names E source w in
      case the_only remotes of
        Some b \<Rightarrow> (Ok b, w)
      | None \<Rightarrow>
          (case first_remote E source [''main'', ''master''] w of
             (Some b, w) \<Rightarrow> (Ok b, w)
           | (None, w) \<Rightarrow>
               (case run_git_output E source [''branch'', ''--show-current''] w of
                  (Err e, w) \<Rightarrow> (Err e, w)
                | (Ok b, w) \<Rightarrow>
                    if b \<noteq> [] then (Ok b, w)
                    else (let (_, w) = run_git E source [''remote'', ''set-head'', ''origin'', ''-a''] w in
                      case resolve_origin_head E source w of
                        (Ok b, w) \<Rightarrow> (Ok b, w)
                      | (Err _, w) \<Rightarrow> (Err (NoOriginHead source), w)))))))"

text \<open>A configured base branch is taken when it exists on the remote.\<close>

definition default_branch_of :: "'w project_env \<Rightarrow> string \<Rightarrow> string option \<Rightarrow> 'w \<Rightarrow> (string, project_error) result \<times> 'w" where
  "default_branch_of E source base_branch w =
     (case base_branch of
        None \<Rightarrow> remote_default_branch E source w
      | Some b \<Rightarrow>
          (let (r, w) = run_git E source [''show-ref'', ''--verify'', ''refs/remotes/origin/'' @ b] w
           in if is_ok r then (Ok b, w) else remote_default_branch E source w))"

end
