(* ===== verification/FileBrowser.thy ===== *)
theory FileBrowser
  imports GitProject "HOL-Library.Product_Lexorder"
begin

text \<open>
  The file browser (\<open>grove-core/src/file_browser.rs\<close>): listing one directory or a whole workspace, from \<open>git\<close> or from
  the file system, and reading a file of a workspace.

  \<open>git\<close>, the file system and base64 are the functions of \<open>browse_env\<close> over a world \<open>'w\<close> that other programs change
  between any two looks (\<open>fb_tick\<close>).
\<close>

subsection \<open>The environment\<close>

text \<open>
  \<open>fb_git\<close> is a run of \<open>git\<close> in a directory: an error of the start, or success, standard output and standard error.
  An entry that is read has a name and, unless that fails, whether it is a directory; an entry may fail to be read.
\<close>

datatype browse_error =
  RootMissing | NotRelative | PathMissing | GitNotStarted string | GitListFailed string
| DirUnreadable | EntryUnreadable | TypeUnreadable | PathRequired | FileMissing | NoMetadata | Unreadable

record 'w browse_env =
  fb_tick :: "'w \<Rightarrow> 'w"
  fb_is_dir :: "'w \<Rightarrow> string \<Rightarrow> bool"
  fb_is_file :: "'w \<Rightarrow> string \<Rightarrow> bool"
  fb_git :: "'w \<Rightarrow> string \<Rightarrow> string list \<Rightarrow> (bool \<times> bytes \<times> bytes, string) result"
  fb_read_dir :: "'w \<Rightarrow> string \<Rightarrow> (string \<times> bool option) option list option"
  fb_len :: "'w \<Rightarrow> string \<Rightarrow> u64 option"
  fb_head :: "'w \<Rightarrow> string \<Rightarrow> nat \<Rightarrow> bytes option"
  fb_read :: "'w \<Rightarrow> string \<Rightarrow> bytes option"
  fb_base64 :: "bytes \<Rightarrow> string"

record dir_entry =
  de_path :: string
  de_name :: string
  de_dir :: bool
  de_depth :: nat

record deep_listing =
  dl_entries :: "dir_entry list"
  dl_truncated :: bool

definition MAX_DEEP_ENTRIES :: nat where "MAX_DEEP_ENTRIES = 50000"
definition MAX_TEXT_FILE_SIZE :: u64 where "MAX_TEXT_FILE_SIZE = 10 * 1024 * 1024"
definition MAX_IMAGE_FILE_SIZE :: u64 where "MAX_IMAGE_FILE_SIZE = 20 * 1024 * 1024"
definition BINARY_PROBE_BYTES :: nat where "BINARY_PROBE_BYTES = 8192"

subsection \<open>Paths\<close>

text \<open>\<open>trim_matches('/')\<close>.\<close>

definition trim_slashes :: "string \<Rightarrow> string" where
  "trim_slashes s = trim_end_matches ''/'' (dropWhile (\<lambda>c. c = CHR ''/'') s)"

fun normal_parts :: "path_component list \<Rightarrow> string list option" where
  "normal_parts [] = Some []"
| "normal_parts (c # cs) =
     (case c of
        Normal s \<Rightarrow> map_option ((#) s) (normal_parts cs)
      | CurDir \<Rightarrow> normal_parts cs
      | _ \<Rightarrow> None)"

definition normalize_parent_path :: "string option \<Rightarrow> (string, browse_error) result" where
  "normalize_parent_path parent =
     (let raw = trim_slashes (unwrap_or [] parent)
      in if raw = [] then Ok []
         else case normal_parts (path_components raw) of None \<Rightarrow> Err NotRelative | Some ps \<Rightarrow> Ok (join_slash ps))"

definition slash_parts :: "string \<Rightarrow> string list" where
  "slash_parts p = filter (\<lambda>s. s \<noteq> []) (split_char (CHR ''/'') p)"

definition entry_depth :: "string \<Rightarrow> nat" where
  "entry_depth path = length (slash_parts path) - 1"

definition under :: "string \<Rightarrow> string \<Rightarrow> string" where
  "under parent name = (if parent = [] then name else parent @ ''/'' @ name)"

text \<open>The text before the last slash.\<close>

definition parent_of :: "string \<Rightarrow> string" where
  "parent_of path =
     (if CHR ''/'' \<in> set path then rev (tl (dropWhile (\<lambda>c. c \<noteq> CHR ''/'') (rev path))) else [])"

definition sort_entries :: "dir_entry list \<Rightarrow> dir_entry list" where
  "sort_entries es = sort_key (\<lambda>e. (\<not> de_dir e, de_name e, de_path e)) es"

definition sort_deep_entries :: "dir_entry list \<Rightarrow> dir_entry list" where
  "sort_deep_entries es = sort_key (\<lambda>e. (parent_of (de_path e), \<not> de_dir e, de_name e, de_path e)) es"

subsection \<open>One directory\<close>

definition is_git_worktree :: "'w browse_env \<Rightarrow> 'w \<Rightarrow> string \<Rightarrow> bool" where
  "is_git_worktree E w root \<longleftrightarrow>
     (case fb_git E w root [''rev-parse'', ''--is-inside-work-tree''] of Ok (success, _) \<Rightarrow> success | Err _ \<Rightarrow> False)"

definition git_files :: "'w browse_env \<Rightarrow> 'w \<Rightarrow> string \<Rightarrow> string list \<Rightarrow> (string list, browse_error) result" where
  "git_files E w root args =
     (case fb_git E w root args of
        Err e \<Rightarrow> Err (GitNotStarted e)
      | Ok (success, out, err) \<Rightarrow>
          if success
          then Ok (filter (\<lambda>p. p \<noteq> []) (map (trim_end_matches [CHR 0x0D]) (lines (from_utf8_lossy out))))
          else Err (GitListFailed (from_utf8_lossy err)))"

text \<open>The child of \<open>parent\<close> that a path goes through, and whether the path goes on below it.\<close>

definition git_child :: "string \<Rightarrow> string \<Rightarrow> (string \<times> bool) option" where
  "git_child parent path =
     (case (if parent = [] then Some path else strip_prefix_str (parent @ ''/'') path) of
        None \<Rightarrow> None
      | Some remainder \<Rightarrow>
          map_option (\<lambda>name. (name, CHR ''/'' \<in> set remainder)) (find (\<lambda>s. s \<noteq> []) (split_char (CHR ''/'') remainder)))"

definition add_child :: "string \<Rightarrow> (string \<times> dir_entry) list \<Rightarrow> string \<Rightarrow> (string \<times> dir_entry) list" where
  "add_child parent entries path =
     (case git_child parent path of
        None \<Rightarrow> entries
      | Some (name, dir) \<Rightarrow>
          let child = under parent name
          in AList.update child
               (case map_of entries child of
                  Some e \<Rightarrow> if dir then e\<lparr>de_dir := True\<rparr> else e
                | None \<Rightarrow> \<lparr>de_path = child, de_name = name, de_dir = dir, de_depth = entry_depth child\<rparr>) entries)"

definition list_git_children :: "'w browse_env \<Rightarrow> 'w \<Rightarrow> string \<Rightarrow> string \<Rightarrow> (dir_entry list, browse_error) result" where
  "list_git_children E w root parent =
     map_ok (\<lambda>paths. sort_entries (map snd (foldl (add_child parent) [] paths)))
       (git_files E w root
          [''ls-files'', ''-co'', ''--exclude-standard'', ''--'', if parent = [] then ''.'' else parent])"

fun fs_entries :: "string \<Rightarrow> (string \<times> bool option) option list \<Rightarrow> (dir_entry list, browse_error) result" where
  "fs_entries parent [] = Ok []"
| "fs_entries parent (None # es) = Err EntryUnreadable"
| "fs_entries parent (Some (name, dir) # es) =
     (if name = [] then fs_entries parent es
      else case dir of
        None \<Rightarrow> Err TypeUnreadable
      | Some d \<Rightarrow>
          map_ok ((#) \<lparr>de_path = under parent name, de_name = name, de_dir = d,
                       de_depth = entry_depth parent + (if parent = [] then 0 else 1)\<rparr>) (fs_entries parent es))"

definition list_fs_children :: "'w browse_env \<Rightarrow> 'w \<Rightarrow> string \<Rightarrow> string \<Rightarrow> (dir_entry list, browse_error) result" where
  "list_fs_children E w root parent =
     (let directory = (if parent = [] then root else path_join root parent)
      in if \<not> fb_is_dir E w directory then Err PathMissing
         else case fb_read_dir E (fb_tick E w) directory of
           None \<Rightarrow> Err DirUnreadable
         | Some es \<Rightarrow> map_ok sort_entries (fs_entries parent es))"

definition list_directory_files_impl ::
  "'w browse_env \<Rightarrow> 'w \<Rightarrow> string \<Rightarrow> string option \<Rightarrow> (dir_entry list, browse_error) result" where
  "list_directory_files_impl E w root parent =
     (if \<not> fb_is_dir E w root then Err RootMissing
      else case normalize_parent_path parent of
        Err e \<Rightarrow> Err e
      | Ok p \<Rightarrow>
          let w = fb_tick E w
          in if is_git_worktree E w root then list_git_children E (fb_tick E w) root p
             else list_fs_children E (fb_tick E w) root p)"

subsection \<open>The whole workspace\<close>

fun insert_parts :: "(string \<times> dir_entry) list \<Rightarrow> string \<Rightarrow> nat \<Rightarrow> string list \<Rightarrow> (string \<times> dir_entry) list" where
  "insert_parts entries current index [] = entries"
| "insert_parts entries current index (p # ps) =
     (let path = under current p
      in insert_parts
           (if map_of entries path = None
            then AList.update path \<lparr>de_path = path, de_name = p, de_dir = (ps \<noteq> []), de_depth = index\<rparr> entries
            else entries)
           path (Suc index) ps)"

definition insert_with_ancestors :: "(string \<times> dir_entry) list \<Rightarrow> string \<Rightarrow> (string \<times> dir_entry) list" where
  "insert_with_ancestors entries path = insert_parts entries [] 0 (slash_parts path)"

definition deep_of :: "string list \<Rightarrow> dir_entry list" where
  "deep_of paths = sort_deep_entries (map snd (foldl insert_with_ancestors [] paths))"

definition list_git_deep :: "'w browse_env \<Rightarrow> 'w \<Rightarrow> string \<Rightarrow> (deep_listing, browse_error) result" where
  "list_git_deep E w root =
     map_ok (\<lambda>paths. \<lparr>dl_entries = List.take MAX_DEEP_ENTRIES (deep_of paths),
                      dl_truncated = (MAX_DEEP_ENTRIES < length (deep_of paths))\<rparr>)
       (git_files E w root [''ls-files'', ''-co'', ''--exclude-standard''])"

text \<open>The children of one directory go to the queue and the result until the result is full.\<close>

fun take_children :: "dir_entry list \<Rightarrow> string list \<Rightarrow> dir_entry list \<Rightarrow> bool \<times> string list \<times> dir_entry list" where
  "take_children [] queue found = (False, queue, found)"
| "take_children (c # cs) queue found =
     (if MAX_DEEP_ENTRIES \<le> length found then (True, queue, found)
      else take_children cs (if de_dir c then queue @ [de_path c] else queue) (found @ [c]))"

lemma take_children_room:
  "take_children cs queue found = (t, queue', found') \<Longrightarrow>
   length queue' + length found \<le> length queue + length found' \<and> length found \<le> length found'
     \<and> (length found \<le> MAX_DEEP_ENTRIES \<longrightarrow> length found' \<le> MAX_DEEP_ENTRIES)
     \<and> (MAX_DEEP_ENTRIES \<le> length found \<longrightarrow> length found' = length found)"
  by (induction cs queue found rule: take_children.induct) (force split: if_splits)+

lemma take_children_less:
  assumes "take_children cs queue found = (t, queue', found')"
  shows "2 * (MAX_DEEP_ENTRIES - length found') + length queue' < Suc (2 * (MAX_DEEP_ENTRIES - length found) + length queue)"
  using take_children_room [OF assms] by (cases "length found \<le> MAX_DEEP_ENTRIES") auto

function deep_loop :: "'w browse_env \<Rightarrow> string \<Rightarrow> 'w \<Rightarrow> string list \<Rightarrow> dir_entry list \<Rightarrow> bool \<times> dir_entry list" where
  "deep_loop E root w [] found = (False, found)"
| "deep_loop E root w (parent # queue) found =
     (case list_fs_children E w root parent of
        Err _ \<Rightarrow> deep_loop E root (fb_tick E (fb_tick E w)) queue found
      | Ok cs \<Rightarrow>
          (case take_children cs queue found of
             (True, _, found) \<Rightarrow> (True, found)
           | (False, queue, found) \<Rightarrow> deep_loop E root (fb_tick E (fb_tick E w)) queue found))"
  by pat_completeness auto

termination
  by (relation "measure (\<lambda>(E, root, w, queue, found). 2 * (MAX_DEEP_ENTRIES - length found) + length queue)")
    (auto dest!: take_children_less [OF sym])

definition list_fs_deep :: "'w browse_env \<Rightarrow> 'w \<Rightarrow> string \<Rightarrow> (deep_listing, browse_error) result" where
  "list_fs_deep E w root =
     (case deep_loop E root w [[]] [] of
        (truncated, found) \<Rightarrow> Ok \<lparr>dl_entries = sort_deep_entries found, dl_truncated = truncated\<rparr>)"

definition list_directory_files_deep_impl ::
  "'w browse_env \<Rightarrow> 'w \<Rightarrow> string \<Rightarrow> (deep_listing, browse_error) result" where
  "list_directory_files_deep_impl E w root =
     (if \<not> fb_is_dir E w root then Err RootMissing
      else let w = fb_tick E w
           in if is_git_worktree E w root then list_git_deep E (fb_tick E w) root
              else list_fs_deep E (fb_tick E w) root)"

subsection \<open>Reading a file\<close>

text \<open>\<open>rsplit_once('.')\<close>: what follows the last dot.\<close>

definition after_last_dot :: "string \<Rightarrow> string option" where
  "after_last_dot name = (if CHR ''.'' \<in> set name then Some (rev (takeWhile (\<lambda>c. c \<noteq> CHR ''.'') (rev name))) else None)"

definition image_mime_for_name :: "string \<Rightarrow> string option" where
  "image_mime_for_name name =
     (case after_last_dot name of
        None \<Rightarrow> None
      | Some e \<Rightarrow>
          map_of [(''png'', ''image/png''), (''jpg'', ''image/jpeg''), (''jpeg'', ''image/jpeg''), (''gif'', ''image/gif''),
                  (''webp'', ''image/webp''), (''bmp'', ''image/bmp''), (''ico'', ''image/x-icon''),
                  (''svg'', ''image/svg+xml''), (''avif'', ''image/avif'')] (map to_ascii_lowercase e))"

datatype file_kind = TooLarge | Image | Binary | Text

record file_content =
  fc_kind :: file_kind
  fc_content :: string
  fc_size :: u64
  fc_mime :: "string option"

definition file_result :: "file_kind \<Rightarrow> string \<Rightarrow> u64 \<Rightarrow> string option \<Rightarrow> (file_content, browse_error) result" where
  "file_result kind content len mime =
     Ok \<lparr>fc_kind = kind, fc_content = content, fc_size = len, fc_mime = mime\<rparr>"

definition last_part :: "string \<Rightarrow> string" where
  "last_part path = List.last (split_char (CHR ''/'') path)"

text \<open>Each look at the file is one of its own: its kind, its length, its head, its bytes.\<close>

definition read_classified :: "'w browse_env \<Rightarrow> 'w \<Rightarrow> string \<Rightarrow> string \<Rightarrow> (file_content, browse_error) result" where
  "read_classified E w relative full =
     (case fb_len E w full of
        None \<Rightarrow> Err NoMetadata
      | Some len \<Rightarrow>
          (case image_mime_for_name (last_part relative) of
             Some mime \<Rightarrow>
               if MAX_IMAGE_FILE_SIZE < len then file_result TooLarge [] len (Some mime)
               else (case fb_read E (fb_tick E w) full of
                       None \<Rightarrow> Err Unreadable
                     | Some bs \<Rightarrow> file_result Image (fb_base64 E bs) len (Some mime))
           | None \<Rightarrow>
               (case fb_head E (fb_tick E w) full BINARY_PROBE_BYTES of
                  None \<Rightarrow> Err Unreadable
                | Some probe \<Rightarrow>
                    if 0 \<in> set probe then file_result Binary [] len None
                    else if MAX_TEXT_FILE_SIZE < len then file_result TooLarge [] len None
                    else (case fb_read E (fb_tick E (fb_tick E w)) full of
                            None \<Rightarrow> Err Unreadable
                          | Some bs \<Rightarrow>
                              if 0 \<in> set bs then file_result Binary [] len None
                              else file_result Text (from_utf8_lossy bs) len None))))"

definition read_workspace_file_impl ::
  "'w browse_env \<Rightarrow> 'w \<Rightarrow> string \<Rightarrow> string \<Rightarrow> (file_content, browse_error) result" where
  "read_workspace_file_impl E w root path =
     (if \<not> fb_is_dir E w root then Err RootMissing
      else case normalize_parent_path (Some path) of
        Err e \<Rightarrow> Err e
      | Ok relative \<Rightarrow>
          if relative = [] then Err PathRequired
          else if \<not> fb_is_file E (fb_tick E w) (path_join root relative) then Err FileMissing
          else read_classified E (fb_tick E (fb_tick E w)) relative (path_join root relative))"

end
