(* ===== verification/FileBrowserProps.thy ===== *)
theory FileBrowserProps
  imports FileBrowser "HOL-Library.Multiset"
begin

text \<open>
  What the file browser guarantees: listings are trees, also where they are cut, their length is bounded, a file is
  classified by what it is, and one directory listed alone is what it is in the whole; and where the two differ.
\<close>

subsection \<open>Paths\<close>

lemma split_char_snoc:
  "c \<notin> set q \<Longrightarrow> split_char c (p @ c # q) = split_char c p @ [q]"
proof (induction p)
  case Nil
  then show ?case by (induction q) auto
next
  case (Cons x p)
  then show ?case by (cases "split_char c p") auto
qed

lemma split_char_whole: "c \<notin> set q \<Longrightarrow> split_char c q = [q]"
  by (induction q) auto

lemma slash_parts_under:
  "name \<noteq> [] \<Longrightarrow> CHR ''/'' \<notin> set name \<Longrightarrow> slash_parts (under parent name) = slash_parts parent @ [name]"
  by (simp add: slash_parts_def under_def split_char_snoc split_char_whole)

lemma slash_parts_Nil [simp]: "slash_parts [] = []"
  by (simp add: slash_parts_def)

lemma slash_parts_ok: "s \<in> set (slash_parts p) \<Longrightarrow> s \<noteq> [] \<and> CHR ''/'' \<notin> set s"
  using split_char_pieces by (auto simp: slash_parts_def)

lemma parent_of_under [simp]:
  assumes "name \<noteq> []" and "CHR ''/'' \<notin> set name"
  shows "parent_of (under parent name) = parent"
proof (cases "parent = []")
  case False
  have "dropWhile (\<lambda>c. c \<noteq> CHR ''/'') (rev name @ CHR ''/'' # rev parent) = CHR ''/'' # rev parent"
    using assms by (subst dropWhile_append2) auto
  then show ?thesis using False by (simp add: parent_of_def under_def)
qed (use assms in \<open>simp add: parent_of_def under_def\<close>)

lemma list_less_append: "(p :: 'a :: linorder list) < p @ x # xs"
  by (induction p) simp_all

lemma parent_of_less: "p \<noteq> [] \<Longrightarrow> parent_of p < p"
proof (cases "CHR ''/'' \<in> set p")
  case True
  then obtain a b where p: "p = a @ CHR ''/'' # b" "CHR ''/'' \<notin> set b" by (metis split_list_last)
  have "dropWhile (\<lambda>c. c \<noteq> CHR ''/'') (rev b @ CHR ''/'' # rev a) = CHR ''/'' # rev a"
    using p(2) by (subst dropWhile_append2) auto
  then have "parent_of p = a" by (simp add: parent_of_def p(1))
  then show ?thesis using list_less_append p(1) by simp
qed (cases p, simp_all add: parent_of_def)

subsection \<open>Trees\<close>

text \<open>A listing is a tree: the depth of an entry is the number of names above it, and its parent is the root or listed.\<close>

definition entry_ok :: "string set \<Rightarrow> dir_entry \<Rightarrow> bool" where
  "entry_ok paths e \<longleftrightarrow>
     slash_parts (de_path e) \<noteq> [] \<and> de_depth e = entry_depth (de_path e) \<and> parent_of (de_path e) \<in> insert [] paths"

definition listing_ok :: "dir_entry list \<Rightarrow> bool" where
  "listing_ok es \<longleftrightarrow> list_all (entry_ok (de_path ` set es)) es"

lemma entry_ok_mono: "entry_ok A e \<Longrightarrow> A \<subseteq> B \<Longrightarrow> entry_ok B e"
  by (auto simp: entry_ok_def)

text \<open>The entries found so far, by path.\<close>

definition entries_ok :: "(string \<times> dir_entry) list \<Rightarrow> bool" where
  "entries_ok es \<longleftrightarrow> distinct (map fst es) \<and> (\<forall>(k, e) \<in> set es. de_path e = k \<and> entry_ok (fst ` set es) e)"

lemma update_new: "k \<notin> fst ` set es \<Longrightarrow> AList.update k e es = es @ [(k, e)]"
  by (induction es) auto

lemma entries_ok_new:
  assumes "entries_ok es" and "k \<notin> fst ` set es" and "de_path e = k" and "entry_ok (insert k (fst ` set es)) e"
  shows "entries_ok (AList.update k e es)"
proof -
  have o: "de_path f = j \<and> entry_ok (insert k (fst ` set es)) f" if "(j, f) \<in> set es" for j f
    using assms(1) that entry_ok_mono [of "fst ` set es" f "insert k (fst ` set es)"] by (auto simp: entries_ok_def)
  have d: "distinct (map fst es)" using assms(1) by (simp add: entries_ok_def)
  show ?thesis
    unfolding entries_ok_def update_new [OF assms(2)] using assms(2-4) o d by auto
qed

lemma insert_parts_ok:
  assumes "entries_ok es" and "current \<in> insert [] (fst ` set es)"
    and "list_all (\<lambda>p. p \<noteq> [] \<and> CHR ''/'' \<notin> set p) ps" and "index = length (slash_parts current)"
  shows "entries_ok (insert_parts es current index ps)"
  using assms
proof (induction ps arbitrary: es current index)
  case (Cons p ps)
  let ?k = "under current p"
  let ?e = "\<lparr>de_path = ?k, de_name = p, de_dir = (ps \<noteq> []), de_depth = index\<rparr>"
  let ?es = "if map_of es ?k = None then AList.update ?k ?e es else es"
  have p: "p \<noteq> []" "CHR ''/'' \<notin> set p" using Cons.prems(3) by simp_all
  have "entry_ok (insert ?k (fst ` set es)) ?e"
    using Cons.prems(2,4) p by (auto simp: entry_ok_def entry_depth_def slash_parts_under)
  then have "entries_ok ?es"
    using Cons.prems(1) by (auto simp: map_of_eq_None_iff intro: entries_ok_new)
  moreover have "?k \<in> fst ` set ?es"
    by (cases "?k \<in> fst ` set es") (simp_all add: map_of_eq_None_iff update_new)
  ultimately show ?case
    using Cons.prems(3,4) p by (auto simp: Let_def slash_parts_under intro!: Cons.IH)
qed simp

lemma insert_all_ok: "entries_ok es \<Longrightarrow> entries_ok (foldl insert_with_ancestors es paths)"
proof (induction paths arbitrary: es)
  case (Cons p paths)
  have "list_all (\<lambda>p. p \<noteq> [] \<and> CHR ''/'' \<notin> set p) (slash_parts p)"
    using slash_parts_ok [of _ p] by (auto simp: list_all_iff)
  then have "entries_ok (insert_with_ancestors es p)"
    unfolding insert_with_ancestors_def using Cons.prems by (intro insert_parts_ok) simp_all
  then show ?case using Cons.IH by simp
qed simp

lemma entries_listing: "entries_ok es \<Longrightarrow> listing_ok (map snd es)"
proof -
  assume e: "entries_ok es"
  have "de_path ` set (map snd es) = fst ` set es" using e by (force simp: entries_ok_def)
  then show ?thesis using e by (auto simp: listing_ok_def list_all_iff entries_ok_def)
qed

lemma listing_ok_set: "set xs = set ys \<Longrightarrow> listing_ok xs = listing_ok ys"
  by (simp add: listing_ok_def list_all_iff)

text \<open>In the order of the deep listing a parent comes before its children, so what is cut off never leaves an orphan.\<close>

lemma take_sorted:
  assumes "sorted (map f xs)" and "y \<in> set (List.take n xs)" and "x \<in> set xs" and "f x < (f y :: 'b :: linorder)"
  shows "x \<in> set (List.take n xs)"
proof -
  obtain j where j: "j < n" "j < length xs" "y = xs ! j" using assms(2) by (auto simp: in_set_conv_nth)
  obtain i where i: "i < length xs" "x = xs ! i" using assms(3) by (auto simp: in_set_conv_nth)
  have "i < j"
  proof (rule ccontr)
    assume "\<not> i < j"
    then have "f y \<le> f x" using sorted_nth_mono [OF assms(1), of j i] i j by simp
    then show False using assms(4) by simp
  qed
  then have "List.take n xs ! i \<in> set (List.take n xs)" using i j by (intro nth_mem) simp
  then show ?thesis using i j \<open>i < j\<close> by simp
qed

lemma listing_ok_take:
  assumes "listing_ok es"
  shows "listing_ok (List.take n (sort_deep_entries es))"
proof -
  let ?k = "\<lambda>e. (parent_of (de_path e), \<not> de_dir e, de_name e, de_path e)"
  let ?t = "List.take n (sort_deep_entries es)"
  have s: "sorted (map ?k (sort_deep_entries es))" by (simp add: sort_deep_entries_def)
  have m: "set (sort_deep_entries es) = set es" by (simp add: sort_deep_entries_def)
  have "entry_ok (de_path ` set ?t) e" if e: "e \<in> set ?t" for e
  proof -
    have o: "entry_ok (de_path ` set es) e"
      using assms e m set_take_subset [of n "sort_deep_entries es"] by (auto simp: listing_ok_def list_all_iff)
    show ?thesis
    proof (cases "parent_of (de_path e) = []")
      case False
      then obtain d where d: "d \<in> set es" "de_path d = parent_of (de_path e)" using o by (auto simp: entry_ok_def)
      have "parent_of (de_path d) < de_path d" using d(2) False by (intro parent_of_less) simp
      then have "?k d < ?k e" by (simp add: d(2))
      then have "d \<in> set ?t" using take_sorted [OF s e] d(1) m by simp
      then have "de_path d \<in> de_path ` set ?t" by (rule imageI)
      then show ?thesis using o d(2) by (simp add: entry_ok_def)
    qed (use o in \<open>simp add: entry_ok_def\<close>)
  qed
  then show ?thesis by (simp add: listing_ok_def list_all_iff)
qed

subsection \<open>The walk over the file system\<close>

text \<open>The names the system gives have no slash.\<close>

definition names_ok :: "'w browse_env \<Rightarrow> bool" where
  "names_ok E \<longleftrightarrow> (\<forall>w dir es name d. fb_read_dir E w dir = Some es \<and> Some (name, d) \<in> set es \<longrightarrow> CHR ''/'' \<notin> set name)"

lemma fs_entries_Ok:
  "fs_entries parent es = Ok cs \<Longrightarrow> c \<in> set cs \<Longrightarrow>
   \<exists>name d. Some (name, d) \<in> set es \<and> name \<noteq> [] \<and> de_path c = under parent name
     \<and> de_depth c = entry_depth parent + (if parent = [] then 0 else 1)"
proof (induction parent es arbitrary: cs rule: fs_entries.induct)
  case (3 parent name dir es)
  show ?case
  proof (cases "name = []")
    case True
    then show ?thesis using 3 by fastforce
  next
    case False
    then obtain d ds where d: "dir = Some d" "fs_entries parent es = Ok ds" and
      cs: "cs = \<lparr>de_path = under parent name, de_name = name, de_dir = d,
                 de_depth = entry_depth parent + (if parent = [] then 0 else 1)\<rparr> # ds"
      using 3(3) by (auto simp: map_ok_eq_Ok split: option.splits)
    show ?thesis
    proof (cases "c \<in> set ds")
      case True
      then show ?thesis using 3(2) [OF False d] by fastforce
    next
      case no: False
      then show ?thesis using 3(4) False unfolding cs by auto
    qed
  qed
qed simp_all

lemma fs_children_ok:
  assumes "names_ok E" and "list_fs_children E w root parent = Ok cs" and "c \<in> set cs"
    and "parent = [] \<or> slash_parts parent \<noteq> []"
  shows "slash_parts (de_path c) \<noteq> [] \<and> de_depth c = entry_depth (de_path c) \<and> parent_of (de_path c) = parent"
proof -
  obtain dir es ds where r: "fb_read_dir E (fb_tick E w) dir = Some es" "fs_entries parent es = Ok ds" "cs = sort_entries ds"
    using assms(2) by (auto simp: list_fs_children_def Let_def map_ok_eq_Ok split: if_splits option.splits)
  have "c \<in> set ds" using assms(3) r(3) by (simp add: sort_entries_def)
  from fs_entries_Ok [OF r(2) this] obtain name d where n: "Some (name, d) \<in> set es" "name \<noteq> []"
    "de_path c = under parent name" "de_depth c = entry_depth parent + (if parent = [] then 0 else 1)" by blast
  have "CHR ''/'' \<notin> set name" using assms(1) r(1) n(1) unfolding names_ok_def by blast
  then show ?thesis
    using n assms(4) by (auto simp: slash_parts_under entry_depth_def Suc_diff_Suc)
qed

lemma take_children_found:
  "take_children cs queue found = (t, queue', found') \<Longrightarrow>
   \<exists>new. set new \<subseteq> set cs \<and> found' = found @ new \<and> set queue' \<subseteq> set queue \<union> de_path ` set new"
proof (induction cs queue found rule: take_children.induct)
  case (2 c cs queue found)
  show ?case
  proof (cases "MAX_DEEP_ENTRIES \<le> length found")
    case False
    then obtain new where "set new \<subseteq> set cs" "found' = (found @ [c]) @ new"
      "set queue' \<subseteq> set (if de_dir c then queue @ [de_path c] else queue) \<union> de_path ` set new"
      using 2 by fastforce
    then show ?thesis by (intro exI [of _ "c # new"]) (auto split: if_splits)
  qed (use 2 in simp)
qed simp

definition walk_ok :: "string list \<Rightarrow> dir_entry list \<Rightarrow> bool" where
  "walk_ok queue found \<longleftrightarrow> listing_ok found \<and> set queue \<subseteq> insert [] (de_path ` set found)"

lemma walk_ok_more:
  assumes "walk_ok (parent # queue) found" and "names_ok E" and "list_fs_children E w root parent = Ok cs"
    and "take_children cs queue found = (t, queue', found')"
  shows "walk_ok queue' found'"
proof -
  obtain new where n: "set new \<subseteq> set cs" "found' = found @ new" "set queue' \<subseteq> set queue \<union> de_path ` set new"
    using take_children_found [OF assms(4)] by blast
  have p: "parent \<in> insert [] (de_path ` set found)" using assms(1) by (simp add: walk_ok_def)
  then have "parent = [] \<or> slash_parts parent \<noteq> []"
    using assms(1) by (auto simp: walk_ok_def listing_ok_def list_all_iff entry_ok_def)
  then have "entry_ok (de_path ` set found') c" if "c \<in> set new" for c
    using fs_children_ok [OF assms(2,3)] n(1,2) p that by (fastforce simp: entry_ok_def)
  moreover have "entry_ok (de_path ` set found') c" if "c \<in> set found" for c
    using assms(1) that n(2) by (auto simp: walk_ok_def listing_ok_def list_all_iff intro: entry_ok_mono)
  ultimately have "listing_ok found'" using n(2) by (auto simp: listing_ok_def list_all_iff)
  moreover have "set queue' \<subseteq> insert [] (de_path ` set found')" using assms(1) n(2,3) by (auto simp: walk_ok_def)
  ultimately show ?thesis by (simp add: walk_ok_def)
qed

lemma deep_loop_ok:
  "names_ok E \<Longrightarrow> walk_ok queue found \<Longrightarrow> length found \<le> MAX_DEEP_ENTRIES \<Longrightarrow>
   listing_ok (snd (deep_loop E root w queue found)) \<and> length (snd (deep_loop E root w queue found)) \<le> MAX_DEEP_ENTRIES"
proof (induction E root w queue found rule: deep_loop.induct)
  case (2 E root w parent queue found)
  show ?case
  proof (cases "list_fs_children E w root parent")
    case (Err e)
    then show ?thesis using 2 by (auto simp: walk_ok_def)
  next
    case (Ok cs)
    obtain t queue' found' where t: "take_children cs queue found = (t, queue', found')" by (cases "take_children cs queue found")
    have o: "walk_ok queue' found'" by (rule walk_ok_more [OF 2(4,3) Ok t])
    have l: "length found' \<le> MAX_DEEP_ENTRIES" using take_children_room [OF t] 2(5) by simp
    show ?thesis
    proof (cases t)
      case True
      then show ?thesis using o l Ok t by (simp add: walk_ok_def)
    next
      case False
      then have "(False, queue', found') = take_children cs queue found" using t by simp
      from 2(1) [OF Ok this refl refl 2(3) o l] show ?thesis using Ok t False by simp
    qed
  qed
qed (simp add: walk_ok_def)

text \<open>
  C28. A listing of a whole workspace is a tree of at most 50000 entries, whether \<open>git\<close> names the files or the file system
  is walked, whatever changes during the walk, and also where it is cut off: each entry has the depth of its path, and its
  parent directory is the root or an entry.
\<close>

theorem deep_listing_is_a_tree:
  assumes "list_directory_files_deep_impl E w root = Ok l" and "names_ok E"
  shows "length (dl_entries l) \<le> MAX_DEEP_ENTRIES
    \<and> (\<forall>e \<in> set (dl_entries l). de_depth e = length (slash_parts (de_path e)) - 1
         \<and> parent_of (de_path e) \<in> insert [] (de_path ` set (dl_entries l)))"
proof -
  have "listing_ok (dl_entries l) \<and> length (dl_entries l) \<le> MAX_DEEP_ENTRIES"
  proof (cases "is_git_worktree E (fb_tick E w) root")
    case True
    then obtain paths where "dl_entries l = List.take MAX_DEEP_ENTRIES (deep_of paths)"
      using assms(1) by (auto simp: list_directory_files_deep_impl_def list_git_deep_def Let_def map_ok_eq_Ok split: if_splits)
    moreover have "listing_ok (map snd (foldl insert_with_ancestors [] paths))"
      by (intro entries_listing insert_all_ok) (simp add: entries_ok_def)
    ultimately show ?thesis by (simp add: deep_of_def listing_ok_take)
  next
    case False
    then have "dl_entries l = sort_deep_entries (snd (deep_loop E root (fb_tick E (fb_tick E w)) [[]] []))"
      using assms(1)
      by (auto simp: list_directory_files_deep_impl_def list_fs_deep_def Let_def split: if_splits prod.splits)
    moreover have "listing_ok (sort_deep_entries es) = listing_ok es" for es
      by (rule listing_ok_set) (simp add: sort_deep_entries_def)
    ultimately show ?thesis
      using deep_loop_ok [OF assms(2), of "[[]]" "[]"] by (simp add: sort_deep_entries_def walk_ok_def listing_ok_def)
  qed
  then show ?thesis by (auto simp: listing_ok_def list_all_iff entry_ok_def entry_depth_def)
qed

subsection \<open>A directory alone and in the whole\<close>

definition plain_part :: "string \<Rightarrow> bool" where
  "plain_part s \<longleftrightarrow> s \<noteq> [] \<and> CHR ''/'' \<notin> set s"

definition path_of :: "string list \<Rightarrow> string" where
  "path_of ps = foldl under [] ps"

lemma path_of_simps [simp]: "path_of [] = []" "path_of (ps @ [s]) = under (path_of ps) s"
  by (simp_all add: path_of_def)

lemma slash_parts_path_of [simp]: "list_all plain_part ps \<Longrightarrow> slash_parts (path_of ps) = ps"
  by (induction ps rule: rev_induct) (simp_all add: slash_parts_under plain_part_def)

lemma plain_slash_parts: "list_all plain_part (slash_parts p)"
  using slash_parts_ok [of _ p] by (auto simp: plain_part_def list_all_iff)

lemma path_of_inj: "list_all plain_part ps \<Longrightarrow> list_all plain_part qs \<Longrightarrow> path_of ps = path_of qs \<longleftrightarrow> ps = qs"
  using slash_parts_path_of by metis

text \<open>A path as \<open>git\<close> writes it: no empty name. Two paths are in conflict when one is a directory of the other.\<close>

definition git_path :: "string \<Rightarrow> bool" where
  "git_path p \<longleftrightarrow> p \<noteq> [] \<and> [] \<notin> set (split_char (CHR ''/'') p)"

definition no_conflict :: "string list \<Rightarrow> bool" where
  "no_conflict paths \<longleftrightarrow>
     (\<forall>p \<in> set paths. \<forall>q \<in> set paths. \<forall>s ss. slash_parts q \<noteq> slash_parts p @ s # ss)"

lemma git_path_parts: "git_path p \<Longrightarrow> slash_parts p = split_char (CHR ''/'') p"
  unfolding git_path_def slash_parts_def by (rule filter_True) auto

lemma split_char_mid: "split_char c (a @ c # b) = split_char c a @ split_char c b"
proof (induction a)
  case (Cons x a)
  then show ?case by (cases "split_char c a") auto
qed simp

lemma split_char_one: "(\<exists>s. split_char c p = [s]) \<longleftrightarrow> c \<notin> set p"
proof
  assume "\<exists>s. split_char c p = [s]"
  then obtain s where s: "split_char c p = [s]" by blast
  then have "p = s" using split_char_joins [of c p] by simp
  then show "c \<notin> set p" using split_char_pieces [of c p] s by simp
qed (auto simp: split_char_whole)

lemma git_path_child:
  assumes "git_path rem"
  shows "map_option (\<lambda>name. (name, CHR ''/'' \<in> set rem)) (find (\<lambda>s. s \<noteq> []) (split_char (CHR ''/'') rem))
    = Some (hd (slash_parts rem), tl (slash_parts rem) \<noteq> [])"
proof -
  obtain s ss where s: "split_char (CHR ''/'') rem = s # ss" by (cases "split_char (CHR ''/'') rem") auto
  have "(CHR ''/'' \<in> set rem) = (ss \<noteq> [])" using split_char_one [of "CHR ''/''" rem] s by auto
  moreover have "s \<noteq> []" using assms s by (auto simp: git_path_def)
  ultimately show ?thesis by (simp add: git_path_parts [OF assms] s)
qed

lemma slashed_path: "list_all plain_part qs \<Longrightarrow> qs \<noteq> [] \<Longrightarrow> concat (map (\<lambda>s. CHR ''/'' # s) qs) = CHR ''/'' # path_of qs"
proof (induction qs rule: rev_induct)
  case (snoc q qs)
  show ?case
  proof (cases "qs = []")
    case False
    have "path_of qs \<noteq> []" using slash_parts_path_of [of qs] snoc.prems(1) False by force
    then show ?thesis using snoc False by (simp add: under_def)
  qed (simp add: path_of_def under_def)
qed simp

lemma git_child_iff:
  assumes p: "git_path p" and pp: "list_all plain_part pp"
  shows "git_child (path_of pp) p = Some (name, dir) \<longleftrightarrow> (\<exists>ss. slash_parts p = pp @ name # ss \<and> dir = (ss \<noteq> []))"
proof (cases "path_of pp = []")
  case True
  then have "pp = []" using slash_parts_path_of [OF pp] by simp
  moreover have "slash_parts p \<noteq> []" by (simp add: git_path_parts [OF p])
  ultimately show ?thesis
    using git_path_child [OF p] by (cases "slash_parts p") (auto simp: git_child_def)
next
  case False
  let ?pre = "path_of pp @ ''/''"
  show ?thesis
  proof (cases "\<exists>rem. p = ?pre @ rem")
    case True
    then obtain rem where r: "p = ?pre @ rem" by blast
    have s: "split_char (CHR ''/'') p = split_char (CHR ''/'') (path_of pp) @ split_char (CHR ''/'') rem"
      using split_char_mid [of "CHR ''/''" "path_of pp" rem] by (simp add: r)
    have g: "git_path rem"
      using p s by (cases "rem = []") (auto simp: git_path_def)
    have "slash_parts p = pp @ slash_parts rem"
      using s slash_parts_path_of [OF pp] by (simp add: slash_parts_def)
    moreover have "git_child (path_of pp) p = Some (hd (slash_parts rem), tl (slash_parts rem) \<noteq> [])"
      using False git_path_child [OF g] r by (simp add: git_child_def strip_prefix_str_def starts_with_iff)
    moreover have "slash_parts rem \<noteq> []" by (simp add: git_path_parts [OF g])
    ultimately show ?thesis by (cases "slash_parts rem") auto
  next
    case no: False
    have "slash_parts p \<noteq> pp @ name # ss" for ss
    proof
      assume a: "slash_parts p = pp @ name # ss"
      have "pp \<noteq> []" using False by auto
      have "CHR ''/'' # p = concat (map (\<lambda>s. CHR ''/'' # s) (slash_parts p))"
        using split_char_joins [of "CHR ''/''" p] by (simp add: git_path_parts [OF p])
      also have "\<dots> = CHR ''/'' # ?pre @ path_of (name # ss)"
        using slashed_path [OF pp \<open>pp \<noteq> []\<close>] slashed_path [of "name # ss"] plain_slash_parts [of p] by (simp add: a)
      finally show False using no by auto
    qed
    then show ?thesis using False no by (auto simp: git_child_def strip_prefix_str_def starts_with_iff)
  qed
qed

text \<open>The entry of the directory or file at the name \<open>s\<close> after \<open>pp\<close>, and the ones a list of paths has.\<close>

definition entry_at :: "string list \<Rightarrow> string \<Rightarrow> bool \<Rightarrow> dir_entry" where
  "entry_at pp s dir = \<lparr>de_path = path_of (pp @ [s]), de_name = s, de_dir = dir, de_depth = length pp\<rparr>"

definition entries_of :: "string list \<Rightarrow> dir_entry set" where
  "entries_of paths = {e. \<exists>p \<in> set paths. \<exists>pp s ss. slash_parts p = pp @ s # ss \<and> e = entry_at pp s (ss \<noteq> [])}"

definition children_at :: "string list \<Rightarrow> string list \<Rightarrow> dir_entry set" where
  "children_at pp paths = {e. \<exists>p \<in> set paths. \<exists>s ss. slash_parts p = pp @ s # ss \<and> e = entry_at pp s (ss \<noteq> [])}"

lemma entries_keyed:
  assumes "no_conflict paths" and "e \<in> entries_of paths" and "f \<in> entries_of paths" and "de_path e = de_path f"
  shows "e = f"
proof -
  obtain p pp s ss where p: "p \<in> set paths" "slash_parts p = pp @ s # ss" "e = entry_at pp s (ss \<noteq> [])"
    using assms(2) by (auto simp: entries_of_def)
  obtain q qq t tt where q: "q \<in> set paths" "slash_parts q = qq @ t # tt" "f = entry_at qq t (tt \<noteq> [])"
    using assms(3) by (auto simp: entries_of_def)
  have "list_all plain_part (pp @ [s])" "list_all plain_part (qq @ [t])"
    using plain_slash_parts [of p] plain_slash_parts [of q] p(2) q(2) by simp_all
  moreover have "path_of (pp @ [s]) = path_of (qq @ [t])" using assms(4) p(3) q(3) by (simp add: entry_at_def)
  ultimately have e: "pp @ [s] = qq @ [t]" using path_of_inj by blast
  have "(ss = []) = (tt = [])"
  proof (rule ccontr)
    assume "(ss = []) \<noteq> (tt = [])"
    then obtain x xs where "ss = [] \<and> tt = x # xs \<or> tt = [] \<and> ss = x # xs" by (metis list.exhaust)
    then have "slash_parts q = slash_parts p @ x # xs \<or> slash_parts p = slash_parts q @ x # xs"
      using p(2) q(2) e by auto
    then show False using assms(1) p(1) q(1) unfolding no_conflict_def by blast
  qed
  then show ?thesis using e p(3) q(3) by simp
qed

lemma children_entries:
  assumes "list_all plain_part pp"
  shows "children_at pp paths = {e \<in> entries_of paths. parent_of (de_path e) = path_of pp}"
proof -
  have "parent_of (path_of (qq @ [s])) = path_of pp \<longleftrightarrow> qq = pp" if "slash_parts p = qq @ s # ss" for p qq s ss
    using plain_slash_parts [of p] that assms by (simp add: path_of_inj plain_part_def)
  then show ?thesis unfolding children_at_def entries_of_def entry_at_def by fastforce
qed

text \<open>The entries that are kept come from paths, and each beginning of a path is kept.\<close>

lemma insert_parts_step:
  "insert_parts es (path_of pp) (length pp) (p # ps) =
   insert_parts (if path_of (pp @ [p]) \<in> fst ` set es then es else es @ [(path_of (pp @ [p]), entry_at pp p (ps \<noteq> []))])
     (path_of (pp @ [p])) (length (pp @ [p])) ps"
  by (simp add: Let_def entry_at_def map_of_eq_None_iff update_new)

lemma insert_parts_set:
  assumes "set (map snd es) \<subseteq> A" and "\<And>qs s ss. ps = qs @ s # ss \<Longrightarrow> entry_at (pp @ qs) s (ss \<noteq> []) \<in> A"
  shows "set (map snd (insert_parts es (path_of pp) (length pp) ps)) \<subseteq> A"
  using assms
proof (induction ps arbitrary: es pp)
  case (Cons p ps)
  let ?es = "if path_of (pp @ [p]) \<in> fst ` set es then es else es @ [(path_of (pp @ [p]), entry_at pp p (ps \<noteq> []))]"
  have "entry_at pp p (ps \<noteq> []) \<in> A" using Cons.prems(2) [of "[]" p ps] by simp
  then have s: "set (map snd ?es) \<subseteq> A" using Cons.prems(1) by auto
  have "entry_at ((pp @ [p]) @ qs) s (ss \<noteq> []) \<in> A" if "ps = qs @ s # ss" for qs s ss
    using Cons.prems(2) [of "p # qs" s ss] that by simp
  from Cons.IH [OF s this] show ?case unfolding insert_parts_step by blast
qed simp

lemma insert_parts_keys:
  "fst ` set (insert_parts es (path_of pp) (length pp) ps) =
   fst ` set es \<union> (\<lambda>i. path_of (pp @ List.take (Suc i) ps)) ` {..<length ps}"
proof (induction ps arbitrary: es pp)
  case (Cons p ps)
  let ?es = "if path_of (pp @ [p]) \<in> fst ` set es then es else es @ [(path_of (pp @ [p]), entry_at pp p (ps \<noteq> []))]"
  have "fst ` set ?es = insert (path_of (pp @ [p])) (fst ` set es)" by auto
  then show ?case
    unfolding insert_parts_step Cons.IH by (auto simp: lessThan_Suc_eq_insert_0 image_image)
qed simp

lemma entry_of_path: "slash_parts p = pp @ s # ss \<Longrightarrow> entry_at pp s (ss \<noteq> []) \<in> entries_of [p]"
  unfolding entries_of_def by auto

lemma subset_step: "X \<subseteq> Y \<union> B \<Longrightarrow> Y \<subseteq> Z \<union> A \<Longrightarrow> X \<subseteq> Z \<union> (A \<union> B)"
  by blast

lemma deep_entries:
  "set (map snd (foldl insert_with_ancestors es paths)) \<subseteq> set (map snd es) \<union> entries_of paths
   \<and> fst ` set (foldl insert_with_ancestors es paths) = fst ` set es \<union> de_path ` entries_of paths"
proof (induction paths arbitrary: es)
  case (Cons p paths)
  let ?es = "insert_with_ancestors es p"
  have n: "entries_of (p # paths) = entries_of [p] \<union> entries_of paths" by (auto simp: entries_of_def)
  have "set (map snd (insert_parts es (path_of []) (length ([] :: string list)) (slash_parts p)))
      \<subseteq> set (map snd es) \<union> entries_of [p]"
    by (rule insert_parts_set) (auto simp: entries_of_def)
  then have "set (map snd ?es) \<subseteq> set (map snd es) \<union> entries_of [p]" by (simp add: insert_with_ancestors_def)
  moreover have "fst ` set ?es = fst ` set es \<union> de_path ` entries_of [p]"
  proof -
    have "(\<lambda>i. path_of (List.take (Suc i) (slash_parts p))) ` {..<length (slash_parts p)} = de_path ` entries_of [p]"
    proof (intro equalityI subsetI)
      fix x assume "x \<in> (\<lambda>i. path_of (List.take (Suc i) (slash_parts p))) ` {..<length (slash_parts p)}"
      then obtain i where i: "i < length (slash_parts p)" "x = path_of (List.take (Suc i) (slash_parts p))" by blast
      have "slash_parts p = List.take i (slash_parts p) @ slash_parts p ! i # drop (Suc i) (slash_parts p)"
        by (rule id_take_nth_drop [OF i(1)])
      then have "entry_at (List.take i (slash_parts p)) (slash_parts p ! i) (drop (Suc i) (slash_parts p) \<noteq> []) \<in> entries_of [p]"
        by (rule entry_of_path)
      moreover have "x = de_path (entry_at (List.take i (slash_parts p)) (slash_parts p ! i) (drop (Suc i) (slash_parts p) \<noteq> []))"
        using i by (simp add: entry_at_def take_Suc_conv_app_nth)
      ultimately show "x \<in> de_path ` entries_of [p]" by blast
    next
      fix x assume "x \<in> de_path ` entries_of [p]"
      then obtain pp s ss where "slash_parts p = pp @ s # ss" "x = path_of (pp @ [s])"
        by (auto simp: entries_of_def entry_at_def)
      then have "length pp < length (slash_parts p)" "x = path_of (List.take (Suc (length pp)) (slash_parts p))" by simp_all
      then show "x \<in> (\<lambda>i. path_of (List.take (Suc i) (slash_parts p))) ` {..<length (slash_parts p)}" by blast
    qed
    then show ?thesis
      using insert_parts_keys [of es "[]" "slash_parts p"] by (simp add: insert_with_ancestors_def)
  qed
  moreover have "set (map snd (foldl insert_with_ancestors ?es paths)) \<subseteq> set (map snd ?es) \<union> entries_of paths"
    "fst ` set (foldl insert_with_ancestors ?es paths) = fst ` set ?es \<union> de_path ` entries_of paths"
    using Cons.IH [of ?es] by (rule conjunct1, rule conjunct2)
  ultimately show ?case unfolding n foldl.simps image_Un
    by (intro conjI) (rule subset_step, assumption+, simp only: Un_assoc)
qed (simp add: entries_of_def)

lemma deep_entries_are:
  assumes "no_conflict paths"
  shows "set (deep_of paths) = entries_of paths \<and> distinct (map de_path (deep_of paths))"
proof -
  let ?m = "foldl insert_with_ancestors [] paths"
  have o: "entries_ok ?m" by (rule insert_all_ok) (simp add: entries_ok_def)
  have k: "map fst ?m = map de_path (map snd ?m)" using o by (auto simp: entries_ok_def)
  have s: "set (map snd ?m) \<subseteq> entries_of paths" and f: "fst ` set ?m = de_path ` entries_of paths"
    using deep_entries [of "[]" paths] by simp_all
  have "entries_of paths \<subseteq> set (map snd ?m)"
  proof
    fix e assume e: "e \<in> entries_of paths"
    then have "de_path e \<in> set (map de_path (map snd ?m))" using f unfolding k [symmetric] by simp
    then obtain d where d: "d \<in> set (map snd ?m)" "de_path e = de_path d" unfolding set_map [of de_path] by blast
    then have "e = d" using entries_keyed [OF assms e] s by blast
    then show "e \<in> set (map snd ?m)" using d(1) by simp
  qed
  moreover have "distinct (map de_path (map snd ?m))" using o unfolding k [symmetric] by (simp add: entries_ok_def)
  moreover have "set (sort_deep_entries es) = set es"
    "distinct (map de_path (sort_deep_entries es)) = distinct (map de_path es)" for es
    by (simp_all add: sort_deep_entries_def distinct_map)
  ultimately show ?thesis using s unfolding deep_of_def by blast
qed

text \<open>The children of one directory that are kept: each with the flag of a path that gives it.\<close>

definition child_value :: "string \<Rightarrow> (string \<times> dir_entry) list \<Rightarrow> string \<Rightarrow> bool \<Rightarrow> dir_entry" where
  "child_value parent es name dir =
     (case map_of es (under parent name) of
        Some e \<Rightarrow> if dir then e\<lparr>de_dir := True\<rparr> else e
      | None \<Rightarrow> \<lparr>de_path = under parent name, de_name = name, de_dir = dir, de_depth = entry_depth (under parent name)\<rparr>)"

lemma add_child_Some:
  "git_child parent p = Some (name, dir) \<Longrightarrow>
   add_child parent es p = AList.update (under parent name) (child_value parent es name dir) es"
  by (simp add: add_child_def child_value_def Let_def)

lemma update_in: "(k, e) \<in> set (AList.update j v es) \<Longrightarrow> k = j \<and> e = v \<or> (k, e) \<in> set es"
  by (induction es) (auto split: if_splits)

lemma update_keys: "fst ` set (AList.update j v es) = insert j (fst ` set es)"
  by (induction es) auto

definition kept_children :: "string list \<Rightarrow> string list \<Rightarrow> (string \<times> dir_entry) list \<Rightarrow> bool" where
  "kept_children pp paths es \<longleftrightarrow>
     distinct (map fst es) \<and> (\<forall>(k, e) \<in> set es. de_path e = k \<and> e \<in> children_at pp paths)"

lemma child_value_kept:
  assumes k: "kept_children pp paths es" and pp: "list_all plain_part pp" and p: "p \<in> set paths"
    and s: "slash_parts p = pp @ name # ss"
  shows "child_value (path_of pp) es name (ss \<noteq> []) \<in> children_at pp paths
    \<and> de_path (child_value (path_of pp) es name (ss \<noteq> [])) = under (path_of pp) name"
proof -
  have q: "list_all plain_part (pp @ [name])" using plain_slash_parts [of p] s by simp
  have new: "entry_at pp name (ss \<noteq> []) \<in> children_at pp paths" unfolding children_at_def using p s by blast
  show ?thesis
  proof (cases "map_of es (under (path_of pp) name)")
    case None
    have "entry_depth (path_of (pp @ [name])) = length pp"
      using slash_parts_path_of [OF q] by (simp add: entry_depth_def del: path_of_simps)
    then have "child_value (path_of pp) es name (ss \<noteq> []) = entry_at pp name (ss \<noteq> [])"
      by (simp add: child_value_def None entry_at_def)
    then show ?thesis using new by (simp add: entry_at_def)
  next
    case (Some e)
    from map_of_SomeD [OF this] k have e: "de_path e = under (path_of pp) name" "e \<in> children_at pp paths"
      by (auto simp: kept_children_def)
    then obtain r t tt where r: "slash_parts r = pp @ t # tt" "e = entry_at pp t (tt \<noteq> [])"
      by (auto simp: children_at_def)
    have "list_all plain_part (pp @ [t])" using plain_slash_parts [of r] r(1) by simp
    moreover have "path_of (pp @ [t]) = path_of (pp @ [name])" using e(1) r(2) by (simp add: entry_at_def)
    ultimately have "t = name" using path_of_inj [OF _ q] by blast
    then have "e\<lparr>de_dir := True\<rparr> = entry_at pp name True" by (simp add: r(2) entry_at_def)
    moreover have "de_path (entry_at pp name True) = under (path_of pp) name" by (simp add: entry_at_def)
    ultimately show ?thesis using e new by (cases "ss = []") (auto simp: child_value_def Some)
  qed
qed

lemma add_children:
  assumes pp: "list_all plain_part pp" and g: "\<forall>p \<in> set paths. git_path p"
  shows "set qs \<subseteq> set paths \<Longrightarrow> kept_children pp paths es \<Longrightarrow>
    kept_children pp paths (foldl (add_child (path_of pp)) es qs)
    \<and> fst ` set (foldl (add_child (path_of pp)) es qs) = fst ` set es \<union> de_path ` children_at pp qs"
proof (induction qs arbitrary: es)
  case (Cons p qs)
  have p: "p \<in> set paths" "git_path p" using Cons.prems(1) g by auto
  let ?es = "add_child (path_of pp) es p"
  have n: "children_at pp (p # qs) = children_at pp [p] \<union> children_at pp qs" by (auto simp: children_at_def)
  have "kept_children pp paths ?es \<and> fst ` set ?es = fst ` set es \<union> de_path ` children_at pp [p]"
  proof (cases "\<exists>name ss. slash_parts p = pp @ name # ss")
    case False
    then have "git_child (path_of pp) p = None" using git_child_iff [OF p(2) pp]
      by (cases "git_child (path_of pp) p") auto
    moreover have "children_at pp [p] = {}" using False by (auto simp: children_at_def)
    ultimately show ?thesis using Cons.prems(2) by (simp add: add_child_def)
  next
    case True
    then obtain name ss where s: "slash_parts p = pp @ name # ss" by blast
    then have c: "?es = AList.update (under (path_of pp) name) (child_value (path_of pp) es name (ss \<noteq> [])) es"
      using add_child_Some git_child_iff [OF p(2) pp] by blast
    have "de_path ` children_at pp [p] = {under (path_of pp) name}"
      using s by (auto simp: children_at_def entry_at_def)
    moreover have "kept_children pp paths ?es"
      using child_value_kept [OF Cons.prems(2) pp p(1) s] Cons.prems(2) update_in unfolding kept_children_def c
      by (fastforce simp: distinct_update)
    ultimately show ?thesis by (simp add: c update_keys)
  qed
  then show ?case using Cons.IH [of ?es] Cons.prems(1) unfolding n foldl.simps image_Un by (simp add: Un_assoc)
qed (simp add: children_at_def)

lemma keyed_set:
  assumes "A \<subseteq> K" and "\<And>e f. e \<in> K \<Longrightarrow> f \<in> K \<Longrightarrow> key e = key f \<Longrightarrow> e = f" and "B \<subseteq> K" and "key ` B \<subseteq> key ` A" and "A \<subseteq> B"
  shows "A = B"
proof
  show "B \<subseteq> A"
  proof
    fix b assume b: "b \<in> B"
    then obtain a where "a \<in> A" "key b = key a" using assms(4) by blast
    then show "b \<in> A" using assms(1-3) b by blast
  qed
qed (rule assms(5))

lemma children_are:
  assumes n: "no_conflict paths" and g: "\<forall>p \<in> set paths. git_path p" and pp: "list_all plain_part pp"
  defines "cs \<equiv> map snd (foldl (add_child (path_of pp)) [] paths)"
  shows "set cs = children_at pp paths \<and> distinct (map de_path cs)"
proof -
  let ?m = "foldl (add_child (path_of pp)) [] paths"
  have k: "kept_children pp paths ?m" and f: "fst ` set ?m = de_path ` children_at pp paths"
    using add_children [OF pp g, of paths "[]"] by (simp_all add: kept_children_def)
  have m: "map fst ?m = map de_path cs" using k by (auto simp: kept_children_def cs_def)
  have "set cs \<subseteq> children_at pp paths" using k by (auto simp: kept_children_def cs_def)
  moreover have "de_path ` children_at pp paths \<subseteq> de_path ` set cs" using f m by (metis set_map order_refl)
  moreover have "children_at pp paths \<subseteq> entries_of paths" using children_entries [OF pp] by blast
  ultimately have "set cs = children_at pp paths"
    using entries_keyed [OF n] by (intro keyed_set [where K = "entries_of paths" and key = de_path]) blast+
  moreover have "distinct (map de_path cs)" using k m by (simp add: kept_children_def)
  ultimately show ?thesis by blast
qed


text \<open>
  With a conflict it does not: a file in the place of a directory that \<open>git\<close> still tracks is listed as a directory
  when its directory is listed alone, and as a file with entries below it in the listing of the whole.
\<close>

theorem conflicting_paths_differ:
  "map de_dir (map snd (foldl (add_child []) [] [''a'', ''a/b''])) = [True]
   \<and> map (\<lambda>e. (de_path e, de_dir e)) (deep_of [''a'', ''a/b'']) = [(''a'', False), (''a/b'', False)]"
proof -
  have "map snd (foldl (add_child []) [] [''a'', ''a/b'']) = [\<lparr>de_path = ''a'', de_name = ''a'', de_dir = True, de_depth = 0\<rparr>]"
    by code_simp
  moreover have "map snd (foldl insert_with_ancestors [] [''a'', ''a/b'']) =
      [\<lparr>de_path = ''a'', de_name = ''a'', de_dir = False, de_depth = 0\<rparr>,
       \<lparr>de_path = ''a/b'', de_name = ''b'', de_dir = False, de_depth = 1\<rparr>]" by code_simp
  moreover have "parent_of ''a'' = []" "parent_of ''a/b'' = ''a''" by code_simp+
  ultimately show ?thesis by (simp add: deep_of_def sort_deep_entries_def)
qed

subsection \<open>Reading\<close>

lemma normal_parts_plain:
  "normal_parts cs = Some ps \<Longrightarrow> (\<And>s. Normal s \<in> set cs \<Longrightarrow> P s) \<Longrightarrow> list_all P ps"
  by (induction cs arbitrary: ps) (auto split: path_component.splits)

text \<open>
  A file is read only below the root by its path, and is what its result says: a text has no NUL and at most ten
  mebibytes, an image has an extension of one and at most twenty, and only these two have a content; what is too large
  is above its bound. The size is the one of a look before the read.
\<close>

theorem files_are_what_they_are_called:
  assumes "read_workspace_file_impl E w root path = Ok c"
  shows "\<exists>ps. ps \<noteq> [] \<and> list_all (\<lambda>s. s \<notin> {[], ''.'', ''..''} \<and> CHR ''/'' \<notin> set s) ps
    \<and> normalize_parent_path (Some path) = Ok (join_slash ps)
    \<and> (case fc_kind c of
         TooLarge \<Rightarrow> fc_content c = [] \<and> (if fc_mime c = None then MAX_TEXT_FILE_SIZE else MAX_IMAGE_FILE_SIZE) < fc_size c
       | Binary \<Rightarrow> fc_content c = [] \<and> fc_mime c = None
       | Image \<Rightarrow> fc_mime c \<noteq> None \<and> fc_size c \<le> MAX_IMAGE_FILE_SIZE
           \<and> (\<exists>v bs. fb_read E v (path_join root (join_slash ps)) = Some bs \<and> fc_content c = fb_base64 E bs)
       | Text \<Rightarrow> fc_mime c = None \<and> fc_size c \<le> MAX_TEXT_FILE_SIZE
           \<and> (\<exists>v bs. fb_read E v (path_join root (join_slash ps)) = Some bs \<and> 0 \<notin> set bs \<and> fc_content c = from_utf8_lossy bs))"
proof -
  obtain relative where n: "normalize_parent_path (Some path) = Ok relative" "relative \<noteq> []"
    and r: "read_classified E (fb_tick E (fb_tick E w)) relative (path_join root relative) = Ok c"
    using assms by (auto simp: read_workspace_file_impl_def split: if_splits result.splits)
  let ?raw = "trim_slashes path"
  obtain ps where p: "normal_parts (path_components ?raw) = Some ps" "relative = join_slash ps"
    using n by (auto simp: normalize_parent_path_def Let_def split: if_splits option.splits)
  have "s \<notin> {[], ''.'', ''..''} \<and> CHR ''/'' \<notin> set s" if "Normal s \<in> set (path_components ?raw)" for s
    using that split_char_pieces [of "CHR ''/''" ?raw] by (auto simp: path_components_def Let_def split: if_splits)
  then have "list_all (\<lambda>s. s \<notin> {[], ''.'', ''..''} \<and> CHR ''/'' \<notin> set s) ps" by (rule normal_parts_plain [OF p(1)])
  moreover have "ps \<noteq> []" using n(2) p(2) by auto
  moreover note n(1) [unfolded p(2)] r [unfolded p(2)]
  ultimately show ?thesis
    by (intro exI [of _ ps])
      (auto simp: read_classified_def file_result_def not_less Let_def split: option.splits if_splits; blast)
qed

subsection \<open>A sample workspace\<close>

definition sample_browse :: "bool \<Rightarrow> unit browse_env" where
  "sample_browse git =
     \<lparr>fb_tick = (\<lambda>w. w), fb_is_dir = (\<lambda>w p. True), fb_is_file = (\<lambda>w p. True),
      fb_git = (\<lambda>w root args. if git then Ok (True, bytes_of (if List.last args = ''a'' then ''a/b'' else ''a/b'' @ CHR 0x0A # ''c''), [])
                            else Err ''no git''),
      fb_read_dir = (\<lambda>w p. Some (if p = ''/r'' then [Some (''a'', Some True), Some (''c'', Some False)] else [])),
      fb_len = (\<lambda>w p. Some 2), fb_head = (\<lambda>w p n. Some [0x68, 0x69]), fb_read = (\<lambda>w p. Some [0x68, 0x69]),
      fb_base64 = (\<lambda>bs. [])\<rparr>"

lemma sample_out: "from_utf8_lossy (bytes_of ''a/b'') = ''a/b''"
    "from_utf8_lossy (bytes_of (''a/b'' @ CHR 0x0A # ''c'')) = ''a/b'' @ CHR 0x0A # ''c''"
  by (rule lossy_bytes_of, simp add: is_str_def bytes_of_def utf8_valid_ascii)+

lemma sample_git:
  "git_files (sample_browse True) () root [''ls-files'', ''-co'', ''--exclude-standard''] = Ok [''a/b'', ''c'']"
  "git_files (sample_browse True) () root [''ls-files'', ''-co'', ''--exclude-standard'', ''--'', ''a''] = Ok [''a/b'']"
  using sample_out by (simp_all add: git_files_def sample_browse_def lines_def chop_cr_def trim_end_matches_def Let_def)

theorem deep_listing_is_a_tree_witness:
  "\<exists>l. list_directory_files_deep_impl (sample_browse False) () ''/r'' = Ok l \<and> length (dl_entries l) \<le> MAX_DEEP_ENTRIES"
proof -
  obtain l where l: "list_directory_files_deep_impl (sample_browse False) () ''/r'' = Ok l"
    by (cases "deep_loop (sample_browse False) ''/r'' () [[]] []")
      (simp add: list_directory_files_deep_impl_def list_fs_deep_def is_git_worktree_def sample_browse_def Let_def)
  have "names_ok (sample_browse False)" by (auto simp: names_ok_def sample_browse_def split: if_splits)
  from l deep_listing_is_a_tree [OF l this] show ?thesis by blast
qed


theorem files_are_what_they_are_called_witness:
  "\<exists>c. read_workspace_file_impl (sample_browse True) () ''/r'' ''a/b'' = Ok c
     \<and> (\<exists>ps. ps \<noteq> [] \<and> normalize_parent_path (Some ''a/b'') = Ok (join_slash ps))"
proof -
  have n: "normalize_parent_path (Some ''a/b'') = Ok ''a/b''"
    by (simp add: normalize_parent_path_def trim_slashes_def trim_end_matches_def path_components_def starts_with_def unwrap_or_def)
  have "image_mime_for_name (last_part ''a/b'') = None"
    by (simp add: image_mime_for_name_def last_part_def after_last_dot_def)
  then obtain c where c: "read_workspace_file_impl (sample_browse True) () ''/r'' ''a/b'' = Ok c"
    by (simp add: read_workspace_file_impl_def n read_classified_def file_result_def sample_browse_def
        MAX_TEXT_FILE_SIZE_def)
  from c files_are_what_they_are_called [OF c] show ?thesis by blast
qed

end
