(* ===== verification/GitDiffProps.thy ===== *)
theory GitDiffProps
  imports GitDiff
begin

text \<open>
  What the diff model and its patches guarantee: the shape of a parsed diff, the effect of a patch on a file
  (against a reference reading of a unified diff), the conflict view, the content cache, accepted paths.
\<close>

subsection \<open>Parsed diffs\<close>

definition all_lines :: "file_diff \<Rightarrow> diff_line list" where
  "all_lines fd = concat (map dh_lines (fd_hunks fd))"

definition well_formed :: "file_diff \<Rightarrow> bool" where
  "well_formed fd \<longleftrightarrow>
     map dl_index (all_lines fd) = map word_of_nat [0..<length (all_lines fd)]
     \<and> list_all (\<lambda>l. dl_type l = ''add'' \<or> dl_type l = ''remove'' \<or> dl_type l = ''context'') (all_lines fd)
     \<and> (fd_status fd = ''added'' \<or> fd_status fd = ''deleted'' \<or> fd_status fd = ''renamed'' \<or> fd_status fd = ''modified'')"

definition counted :: "file_diff \<times> u32 \<Rightarrow> bool" where
  "counted s \<longleftrightarrow> well_formed (fst s) \<and> snd s = word_of_nat (length (all_lines (fst s)))"

lemma map_last_snoc [simp]: "map_last f (xs @ [x]) = xs @ [f x]"
  by (simp add: map_last_def)

lemma add_hunk_simps [simp]:
  "all_lines (add_hunk h fd) = all_lines fd" "fd_status (add_hunk h fd) = fd_status fd"
  "fd_path (add_hunk h fd) = fd_path fd" "fd_hunks (add_hunk h fd) \<noteq> []"
  "well_formed (add_hunk h fd) = well_formed fd"
  by (simp_all add: add_hunk_def new_hunk_def all_lines_def well_formed_def)

lemma push_line_counted:
  assumes "counted (fd, idx)" and "fd_hunks fd \<noteq> []" and "dl_index l = idx"
    and "dl_type l = ''add'' \<or> dl_type l = ''remove'' \<or> dl_type l = ''context''"
  shows "counted (fd\<lparr>fd_hunks := map_last (\<lambda>hk. hk\<lparr>dh_lines := dh_lines hk @ [l]\<rparr>) (fd_hunks fd)\<rparr>, idx + 1)"
proof -
  obtain hs hk where hs: "fd_hunks fd = hs @ [hk]" using assms(2) by (cases "fd_hunks fd" rule: rev_cases) auto
  have "all_lines (fd\<lparr>fd_hunks := map_last (\<lambda>hk. hk\<lparr>dh_lines := dh_lines hk @ [l]\<rparr>) (fd_hunks fd)\<rparr>)
      = all_lines fd @ [l]"
    by (simp add: all_lines_def hs)
  with assms show ?thesis by (auto simp: counted_def well_formed_def)
qed

lemma line_type_cases: "line_type_of c = ''add'' \<or> line_type_of c = ''remove'' \<or> line_type_of c = ''context''"
  by (simp add: line_type_of_def)

lemma file_event_counted: "counted s \<Longrightarrow> counted (file_event e s) \<and> fd_path (fst (file_event e s)) = fd_path (fst s)"
proof -
  assume c: "counted s"
  obtain fd idx where s: "s = (fd, idx)" by force
  let ?fd = "case de_hunk e of Some h \<Rightarrow> if need_hunk h fd then add_hunk h fd else fd | None \<Rightarrow> fd"
  let ?l = "\<lparr>dl_type = line_type_of (de_origin e), dl_content = from_utf8_lossy (de_content e),
     dl_old = de_old_lineno e, dl_new = de_new_lineno e, dl_index = idx\<rparr>"
  have c': "counted (?fd, idx)" "fd_path ?fd = fd_path fd"
    using c by (auto simp: s counted_def split: option.splits)
  have "counted (?fd\<lparr>fd_hunks := map_last (\<lambda>hk. hk\<lparr>dh_lines := dh_lines hk @ [?l]\<rparr>) (fd_hunks ?fd)\<rparr>, idx + 1)"
    if "fd_hunks ?fd \<noteq> []"
    by (rule push_line_counted [OF c'(1) that]) (simp_all add: line_type_cases)
  then have content: "counted (if fd_hunks ?fd = [] then (?fd, idx)
       else (?fd\<lparr>fd_hunks := map_last (\<lambda>hk. hk\<lparr>dh_lines := dh_lines hk @ [?l]\<rparr>) (fd_hunks ?fd)\<rparr>, idx + 1))"
    using c'(1) by (simp split del: if_split split: if_split)
  show ?thesis
  proof (cases "de_origin e = CHR ''H''")
    case True
    then show ?thesis using c by (cases "de_hunk e") (simp_all add: s file_event_def counted_def)
  next
    case False
    show ?thesis
    proof (cases "de_origin e \<in> {CHR ''+'', CHR ''-'', CHR '' ''}")
      case True
      with False have "file_event e s = (if fd_hunks ?fd = [] then (?fd, idx)
         else (?fd\<lparr>fd_hunks := map_last (\<lambda>hk. hk\<lparr>dh_lines := dh_lines hk @ [?l]\<rparr>) (fd_hunks ?fd)\<rparr>, idx + 1))"
        unfolding s file_event_def Let_def split by (simp only: if_False if_True)
      with content c'(2) show ?thesis by (simp add: s)
    next
      case False
      with \<open>de_origin e \<noteq> CHR ''H''\<close> show ?thesis using c by (simp add: s file_event_def)
    qed
  qed
qed

definition parsed_ok :: "file_diff list \<times> u32 \<Rightarrow> bool" where
  "parsed_ok s \<longleftrightarrow> list_all well_formed (fst s) \<and> (fst s = [] \<or> counted (last (fst s), snd s))
     \<and> successively (\<lambda>f g. fd_path f \<noteq> fd_path g) (fst s)"

lemma fresh_counted:
  "counted (\<lparr>fd_path = p, fd_old_path = q, fd_status = status_name d, fd_hunks = [], fd_display_line_count = 0\<rparr>, 0)"
  by (simp add: counted_def well_formed_def all_lines_def status_name_def split: delta_status.splits)

lemma parse_step_ok: "parsed_ok s \<Longrightarrow> parsed_ok (parse_step s e)"
proof -
  assume ok: "parsed_ok s"
  obtain fds idx where s: "s = (fds, idx)" by force
  let ?p = "from_utf8_lossy (unwrap_or [] (de_new_path e))"
  show ?thesis
  proof (cases "fds = [] \<or> fd_path (last fds) \<noteq> ?p")
    case True
    let ?f = "\<lparr>fd_path = ?p, fd_old_path = map_option from_utf8_lossy (de_old_path e),
        fd_status = status_name (de_status e), fd_hunks = [], fd_display_line_count = 0\<rparr>"
    obtain fd i where fe: "file_event e (?f, 0) = (fd, i)" by force
    have "counted (?f, 0)" by (rule fresh_counted)
    from file_event_counted [OF this, of e] fe have "counted (fd, i)" "fd_path fd = ?p" by auto
    moreover have "parse_step s e = (fds @ [fd], i)" using True by (simp add: s parse_step_def fe)
    ultimately show ?thesis using ok True
      by (auto simp: s parsed_ok_def successively_append_iff counted_def)
  next
    case False
    then obtain fs f where fds: "fds = fs @ [f]" by (cases fds rule: rev_cases) auto
    obtain fd i where fe: "file_event e (f, idx) = (fd, i)" by force
    have "counted (f, idx)" using ok by (simp add: s fds parsed_ok_def)
    from file_event_counted [OF this, of e] fe have "counted (fd, i)" "fd_path fd = fd_path f" by auto
    moreover have "parse_step s e = (fs @ [fd], i)" using False by (simp add: s fds parse_step_def fe)
    ultimately show ?thesis using ok
      by (auto simp: s fds parsed_ok_def successively_append_iff counted_def)
  qed
qed

lemma parse_ok: "parsed_ok (foldl parse_step s evs)" if "parsed_ok s"
  using that by (induction evs arbitrary: s) (simp_all add: parse_step_ok del: split_paired_All)



subsection \<open>Reading a patch\<close>

text \<open>
  A reference reader of a unified diff with one hunk: its text cut after every newline, two path lines and
  the range line dropped, a removal or context line belonging to the old text, an addition or context line to
  the new. \<open>patch_at\<close> applies it at a line position, \<open>unpatch_at\<close> in reverse.
\<close>

fun text_lines :: "string \<Rightarrow> string list" where
  "text_lines [] = []"
| "text_lines (c # cs) =
     (if c = CHR 0x0A then [c] # text_lines cs
      else case text_lines cs of [] \<Rightarrow> [[c]] | l # ls \<Rightarrow> (c # l) # ls)"

definition patch_body :: "string \<Rightarrow> string list" where "patch_body patch = drop 3 (text_lines patch)"

definition old_text :: "string \<Rightarrow> string list" where
  "old_text patch = map tl (filter (\<lambda>l. hd l \<noteq> CHR ''+'') (patch_body patch))"

definition new_text :: "string \<Rightarrow> string list" where
  "new_text patch = map tl (filter (\<lambda>l. hd l \<noteq> CHR ''-'') (patch_body patch))"

definition replace_at :: "string list \<Rightarrow> string list \<Rightarrow> nat \<Rightarrow> string list \<Rightarrow> string list option" where
  "replace_at old new k file =
     (if slice k (k + length old) file = old \<and> k + length old \<le> length file
      then Some (take k file @ new @ drop (k + length old) file) else None)"

definition patch_at :: "string \<Rightarrow> nat \<Rightarrow> string list \<Rightarrow> string list option" where
  "patch_at patch = replace_at (old_text patch) (new_text patch)"

definition unpatch_at :: "string \<Rightarrow> nat \<Rightarrow> string list \<Rightarrow> string list option" where
  "unpatch_at patch = replace_at (new_text patch) (old_text patch)"

definition is_line :: "string \<Rightarrow> bool" where "is_line l \<longleftrightarrow> (\<exists>t. l = t @ nl \<and> CHR 0x0A \<notin> set t)"

lemma text_lines_line: "CHR 0x0A \<notin> set t \<Longrightarrow> text_lines (t @ CHR 0x0A # rest) = (t @ nl) # text_lines rest"
  by (induction t) (auto simp: nl_def)

lemma text_lines_concat: "\<forall>l \<in> set ls. is_line l \<Longrightarrow> text_lines (concat ls) = ls"
  by (induction ls) (auto simp: is_line_def nl_def text_lines_line)

lemma is_line_with_nl: "is_line l \<Longrightarrow> with_nl l = l" "CHR 0x0A \<notin> set t \<Longrightarrow> is_line (with_nl t)"
  by (auto simp: is_line_def with_nl_def ends_nl_def nl_def) (metis last_in_set)

lemma is_line_Cons: "is_line l \<Longrightarrow> c \<noteq> CHR 0x0A \<Longrightarrow> is_line (c # l)"
  unfolding is_line_def by (metis append_Cons set_ConsD)

lemma digit_byte: "n < 10 \<Longrightarrow> (char_of (unat (0x30 + word_of_nat n :: u8)) :: char) \<noteq> CHR 0x0A"
proof -
  assume n: "n < 10"
  have "unat (0x30 + word_of_nat n :: u8) = 48 + n" using n by (simp add: unat_word_ariths unat_of_nat)
  then have h: "(of_char (char_of (unat (0x30 + word_of_nat n :: u8)) :: char) :: nat) = 48 + n" using n by simp
  show ?thesis
  proof
    assume e: "char_of (unat (0x30 + word_of_nat n :: u8)) = CHR 0x0A"
    from h have "(of_char (CHR 0x0A) :: nat) = 48 + n" unfolding e .
    then show False by simp
  qed
qed

lemma digits_no_nl: "CHR 0x0A \<notin> set (chars_of (dec_digits n))"
proof (induction n rule: dec_digits.induct)
  case (1 n)
  show ?case
  proof (cases "n < 10")
    case True
    then show ?thesis using digit_byte [of n] by (simp add: dec_digits.simps [of n] chars_of_def)
  next
    case False
    then show ?thesis using 1 [OF False] digit_byte [of "n mod 10"]
      by (simp add: dec_digits.simps [of n] chars_of_def)
  qed
qed

lemma range_no_nl: "CHR 0x0A \<notin> set (hunk_range a b c d)"
  using digits_no_nl by (auto simp: hunk_range_def show_u32_def)

text \<open>The three lines before the body.\<close>

lemma patch_body_image:
  assumes "CHR 0x0A \<notin> set file_path" "\<And>p. old_path = Some p \<Longrightarrow> CHR 0x0A \<notin> set p"
    and "CHR 0x0A \<notin> set header" "\<forall>l \<in> set body. is_line l"
  shows "patch_body (patch_paths file_path old_path @ header @ nl @ concat body) = body"
proof -
  have "CHR 0x0A \<notin> set (unwrap_or file_path old_path)" using assms by (cases old_path) auto
  then have "text_lines (''--- a/'' @ unwrap_or file_path old_path @ CHR 0x0A # ''+++ b/'' @ file_path @ CHR 0x0A #
        header @ CHR 0x0A # concat body)
      = [''--- a/'' @ unwrap_or file_path old_path @ nl, ''+++ b/'' @ file_path @ nl, header @ nl] @ body"
    using assms text_lines_line [of "''--- a/'' @ unwrap_or file_path old_path"]
      text_lines_line [of "''+++ b/'' @ file_path"] text_lines_concat [OF assms(4)]
    by (simp add: text_lines_line)
  then show ?thesis by (simp add: patch_body_def patch_paths_def nl_def)
qed

lemma replace_at_middle: "replace_at old new (length before) (before @ old @ after) = Some (before @ new @ after)"
  by (simp add: replace_at_def slice_def)

subsection \<open>Selected lines\<close>

definition old_side :: "diff_hunk \<Rightarrow> string list" where
  "old_side h = map dl_content (filter (\<lambda>l. dl_type l \<noteq> ''add'') (dh_lines h))"

definition new_side :: "diff_hunk \<Rightarrow> string list" where
  "new_side h = map dl_content (filter (\<lambda>l. dl_type l \<noteq> ''remove'') (dh_lines h))"

text \<open>The old side with just the selected changes made.\<close>

definition selected_side :: "u32 set \<Rightarrow> diff_hunk \<Rightarrow> string list" where
  "selected_side S h = map dl_content (filter (\<lambda>l.
     if dl_type l = ''add'' then dl_index l \<in> S else if dl_type l = ''remove'' then dl_index l \<notin> S else True) (dh_lines h))"

definition is_change :: "diff_line \<Rightarrow> bool" where
  "is_change l \<longleftrightarrow> dl_type l = ''add'' \<or> dl_type l = ''remove''"

fun selected_body :: "u32 set \<Rightarrow> diff_line list \<Rightarrow> string list" where
  "selected_body S [] = []"
| "selected_body S (l # ls) =
     (if dl_type l = ''add'' \<and> dl_index l \<notin> S then []
      else [format_patch_line (if dl_index l \<in> S then line_prefix l else CHR '' '') (dl_content l)])
     @ selected_body S ls"

lemma with_nl_Cons [simp]: "c \<noteq> CHR 0x0A \<Longrightarrow> with_nl (c # s) = c # with_nl s"
  by (simp add: with_nl_def ends_nl_def)

lemma line_prefix_simps [simp]:
  "line_prefix l \<noteq> CHR 0x0A" "line_prefix l = CHR ''+'' \<longleftrightarrow> dl_type l = ''add''"
  "line_prefix l = CHR ''-'' \<longleftrightarrow> dl_type l = ''remove''"
  by (simp_all add: line_prefix_def)

lemma select_line_tuple [simp]:
  "select_line S (out, m, n, ch) l =
     (if dl_type l = ''add'' \<and> dl_index l \<notin> S then (out, m, n, ch)
      else (out @ [format_patch_line (if dl_index l \<in> S then line_prefix l else CHR '' '') (dl_content l)],
            if dl_type l = ''add'' then m else m + 1,
            if dl_type l = ''remove'' \<and> dl_index l \<in> S then n else n + 1,
            ch \<or> is_change l \<and> dl_index l \<in> S))"
  by (simp add: select_line_def line_prefix_def is_change_def)

lemma select_fold:
  "foldl (select_line S) (out, m, n, ch) ls =
     (out @ selected_body S ls,
      m + word_of_nat (length (filter (\<lambda>l. dl_type l \<noteq> ''add'') ls)),
      n + word_of_nat (length (filter (\<lambda>l. if dl_type l = ''add'' then dl_index l \<in> S
            else if dl_type l = ''remove'' then dl_index l \<notin> S else True) ls)),
      ch \<or> (\<exists>l \<in> set ls. is_change l \<and> dl_index l \<in> S))"
proof (induction ls arbitrary: out m n ch)
  case (Cons l ls)
  show ?case by (simp add: Cons.IH ac_simps)
qed simp

lemma build_selective_patch_result:
  "build_selective_patch file_path old_path h S =
     (if \<exists>l \<in> set (dh_lines h). is_change l \<and> dl_index l \<in> S
      then Ok (patch_paths file_path old_path
             @ hunk_range (dh_old_start h) (word_of_nat (length (old_side h)))
                 (dh_new_start h) (word_of_nat (length (selected_side S h)))
             @ nl @ concat (selected_body S (dh_lines h)))
      else Err NoChangesSelected)"
  by (simp add: build_selective_patch_def select_fold old_side_def selected_side_def)

lemma selected_body_lines: "\<forall>l \<in> set ls. is_line (dl_content l) \<Longrightarrow> \<forall>b \<in> set (selected_body S ls). is_line b"
  by (induction ls) (auto simp: format_patch_line_def is_line_with_nl(1) intro: is_line_Cons)

lemma selected_body_sides:
  assumes "\<forall>l \<in> set ls. is_line (dl_content l)"
  shows "map tl (filter (\<lambda>b. hd b \<noteq> CHR ''+'') (selected_body S ls))
      = map dl_content (filter (\<lambda>l. dl_type l \<noteq> ''add'') ls)"
    and "map tl (filter (\<lambda>b. hd b \<noteq> CHR ''-'') (selected_body S ls))
      = map dl_content (filter (\<lambda>l. if dl_type l = ''add'' then dl_index l \<in> S
            else if dl_type l = ''remove'' then dl_index l \<notin> S else True) ls)"
  using assms by (induction ls) (simp_all add: format_patch_line_def is_line_with_nl(1) line_prefix_def)

definition whole_lines :: "diff_hunk \<Rightarrow> bool" where
  "whole_lines h \<longleftrightarrow> (\<forall>l \<in> set (dh_lines h). is_line (dl_content l))"

definition plain_paths :: "string \<Rightarrow> string option \<Rightarrow> bool" where
  "plain_paths file_path old_path \<longleftrightarrow>
     CHR 0x0A \<notin> set file_path \<and> (case old_path of None \<Rightarrow> True | Some p \<Rightarrow> CHR 0x0A \<notin> set p)"

lemma selective_patch_texts:
  assumes "build_selective_patch file_path old_path h S = Ok patch"
    and "whole_lines h" and "plain_paths file_path old_path"
  shows "old_text patch = old_side h" and "new_text patch = selected_side S h"
proof -
  have b: "patch_body patch = selected_body S (dh_lines h)"
    using assms by (auto simp: build_selective_patch_result whole_lines_def plain_paths_def split: if_splits
        intro!: patch_body_image range_no_nl selected_body_lines)
  show "old_text patch = old_side h" "new_text patch = selected_side S h"
    using selected_body_sides [of "dh_lines h" S] assms(2)
    by (simp_all add: old_text_def new_text_def b old_side_def selected_side_def whole_lines_def)
qed


text \<open>
  C13. Staging selected lines stages exactly the selection. For a hunk whose lines all end in a newline, the
  patch built for a set of line indices, read back as a unified diff, turns the old text of the hunk at its
  place in the file into that text with just the selected additions inserted and just the selected removals
  taken out; the counts in its range line are the lengths of the two texts; selecting every change gives the
  new side of the hunk, and a patch is refused exactly when no selected line is a change.
\<close>

theorem staged_selection_is_exact:
  assumes "build_selective_patch file_path old_path h S = Ok patch"
    and "whole_lines h" and "plain_paths file_path old_path"
  shows "patch_at patch (length before) (before @ old_side h @ after) = Some (before @ selected_side S h @ after)
    \<and> (\<exists>rest. patch = patch_paths file_path old_path
           @ hunk_range (dh_old_start h) (word_of_nat (length (old_side h)))
               (dh_new_start h) (word_of_nat (length (selected_side S h))) @ nl @ rest)
    \<and> ((\<forall>l \<in> set (dh_lines h). is_change l \<longrightarrow> dl_index l \<in> S) \<longrightarrow> selected_side S h = new_side h)
    \<and> (build_selective_patch file_path old_path h S' = Err NoChangesSelected
           \<longleftrightarrow> (\<forall>l \<in> set (dh_lines h). dl_index l \<in> S' \<longrightarrow> \<not> is_change l))"
proof (intro conjI impI)
  show "patch_at patch (length before) (before @ old_side h @ after) = Some (before @ selected_side S h @ after)"
    unfolding patch_at_def selective_patch_texts [OF assms] by (rule replace_at_middle)
  show "\<exists>rest. patch = patch_paths file_path old_path
           @ hunk_range (dh_old_start h) (word_of_nat (length (old_side h)))
               (dh_new_start h) (word_of_nat (length (selected_side S h))) @ nl @ rest"
    using assms(1) by (auto simp: build_selective_patch_result split: if_splits)
  show "selected_side S h = new_side h" if "\<forall>l \<in> set (dh_lines h). is_change l \<longrightarrow> dl_index l \<in> S"
    unfolding selected_side_def new_side_def
    by (intro arg_cong [where f = "map dl_content"] filter_cong refl) (use that in \<open>auto simp: is_change_def\<close>)
  show "build_selective_patch file_path old_path h S' = Err NoChangesSelected
           \<longleftrightarrow> (\<forall>l \<in> set (dh_lines h). dl_index l \<in> S' \<longrightarrow> \<not> is_change l)"
    by (auto simp: build_selective_patch_result)
qed

definition sample_line :: "string \<Rightarrow> string \<Rightarrow> u32 \<Rightarrow> diff_line" where
  "sample_line t c i = \<lparr>dl_type = t, dl_content = c @ nl, dl_old = None, dl_new = None, dl_index = i\<rparr>"

definition sample_hunk :: diff_hunk where
  "sample_hunk = \<lparr>dh_header = ''@@ -7,3 +7,4 @@'',
     dh_lines = [sample_line ''context'' ''a'' 0, sample_line ''remove'' ''b'' 1, sample_line ''add'' ''x'' 2,
                 sample_line ''add'' ''y'' 3, sample_line ''context'' ''c'' 4],
     dh_old_start = 7, dh_old_count = 3, dh_new_start = 7, dh_new_count = 4\<rparr>"

lemma sample_hunk_ok:
  "whole_lines sample_hunk" "plain_paths ''f'' None"
  "old_side sample_hunk = [''a'' @ nl, ''b'' @ nl, ''c'' @ nl]"
  "new_side sample_hunk = [''a'' @ nl, ''x'' @ nl, ''y'' @ nl, ''c'' @ nl]"
  "selected_side {2} sample_hunk = [''a'' @ nl, ''b'' @ nl, ''x'' @ nl, ''c'' @ nl]"
  "\<exists>l \<in> set (dh_lines sample_hunk). is_change l \<and> dl_index l = 2"
  by (auto simp: sample_hunk_def sample_line_def whole_lines_def is_line_def plain_paths_def old_side_def new_side_def
      selected_side_def is_change_def nl_def)

theorem staged_selection_is_exact_witness:
  "patch_at (case build_selective_patch ''f'' None sample_hunk {2} of Ok p \<Rightarrow> p | Err _ \<Rightarrow> []) 1
     [''top'', ''a'' @ nl, ''b'' @ nl, ''c'' @ nl, ''end'']
   = Some [''top'', ''a'' @ nl, ''b'' @ nl, ''x'' @ nl, ''c'' @ nl, ''end'']"
proof -
  obtain p where p: "build_selective_patch ''f'' None sample_hunk {2} = Ok p"
    using sample_hunk_ok(6) by (simp add: build_selective_patch_result)
  from staged_selection_is_exact [OF p sample_hunk_ok(1,2), of "[''top'']" "[''end'']"] show ?thesis
    by (simp add: p sample_hunk_ok)
qed

subsection \<open>Whole hunks\<close>

lemma hunk_patch_texts:
  assumes "whole_lines h" "plain_paths file_path old_path" "CHR 0x0A \<notin> set (dh_header h)"
  shows "old_text (build_hunk_patch file_path old_path h) = old_side h"
    and "new_text (build_hunk_patch file_path old_path h) = new_side h"
proof -
  let ?body = "map (\<lambda>l. line_prefix l # with_nl (dl_content l)) (dh_lines h)"
  have "with_nl (dh_header h) = dh_header h @ nl"
    using assms(3) by (auto simp: with_nl_def ends_nl_def nl_def dest: last_in_set)
  then have b: "patch_body (build_hunk_patch file_path old_path h) = ?body"
    using assms by (auto simp: build_hunk_patch_def whole_lines_def plain_paths_def is_line_with_nl(1)
        intro!: patch_body_image [where body = ?body, simplified] is_line_Cons)
  have "map tl (filter (\<lambda>b. hd b \<noteq> CHR ''+'') ?body) = map with_nl (old_side h)"
    "map tl (filter (\<lambda>b. hd b \<noteq> CHR ''-'') ?body) = map with_nl (new_side h)"
    by (simp_all add: old_side_def new_side_def filter_map comp_def)
  moreover have "map with_nl (old_side h) = old_side h" "map with_nl (new_side h) = new_side h"
    using assms(1) by (auto simp: whole_lines_def old_side_def new_side_def is_line_with_nl(1) intro!: map_idI)
  ultimately show "old_text (build_hunk_patch file_path old_path h) = old_side h"
    "new_text (build_hunk_patch file_path old_path h) = new_side h"
    by (simp_all add: old_text_def new_text_def b)
qed

text \<open>
  Unstaging or discarding a whole hunk undoes staging it. The patch of a hunk, whose lines end in a newline,
  turns its old side into its new side where it stands in the file, and applied in reverse at that place it
  restores the file; staging all its lines one by one has the same effect.
\<close>

theorem hunk_patch_undoes_itself:
  assumes "whole_lines h" and "plain_paths file_path old_path" and "CHR 0x0A \<notin> set (dh_header h)"
  shows "patch_at (build_hunk_patch file_path old_path h) (length before) (before @ old_side h @ after)
           = Some (before @ new_side h @ after)
       \<and> unpatch_at (build_hunk_patch file_path old_path h) (length before) (before @ new_side h @ after)
           = Some (before @ old_side h @ after)"
  by (simp add: patch_at_def unpatch_at_def hunk_patch_texts [OF assms] replace_at_middle)

theorem hunk_patch_undoes_itself_witness:
  "unpatch_at (build_hunk_patch ''f'' None sample_hunk) 0 [''a'' @ nl, ''x'' @ nl, ''y'' @ nl, ''c'' @ nl, ''end'']
     = Some [''a'' @ nl, ''b'' @ nl, ''c'' @ nl, ''end'']"
  using hunk_patch_undoes_itself [OF sample_hunk_ok(1,2), of "[]" "[''end'']"]
  by (simp add: sample_hunk_ok) (simp add: sample_hunk_def)


subsection \<open>Selected lines in reverse\<close>

lemma slice_nth: "slice k (k + n) xs = ys \<Longrightarrow> k + n \<le> length xs \<Longrightarrow> i < n \<Longrightarrow> xs ! (k + i) = ys ! i"
  by (auto simp: slice_def)

lemma anchored_occurrence:
  assumes d: "distinct (before @ N @ after)" and occ: "slice k (k + length T) (before @ N @ after) = T"
    "k + length T \<le> length (before @ N @ after)"
    and ends: "T \<noteq> []" "N \<noteq> []" "hd T = hd N" "last T = last N"
  shows "T = N"
proof -
  let ?F = "before @ N @ after"
  have idx: "i = j" if "?F ! i = ?F ! j" "i < length ?F" "j < length ?F" for i j
    using nth_eq_iff_index_eq [OF d that(2,3)] that(1) by blast
  have "?F ! (k + 0) = hd T" using slice_nth [OF occ, of 0] ends(1) by (simp add: hd_conv_nth)
  moreover have "?F ! length before = hd N" using ends(2) by (simp add: nth_append hd_conv_nth)
  ultimately have k: "k = length before"
    using idx [of k "length before"] ends occ(2) by (cases N; cases T) auto
  have "?F ! (k + (length T - 1)) = last T"
    using slice_nth [OF occ, of "length T - 1"] ends(1) by (simp add: last_conv_nth)
  moreover have "?F ! (length before + (length N - 1)) = last N"
    using ends(2) by (simp add: nth_append last_conv_nth)
  ultimately have e: "?F ! (k + (length T - 1)) = ?F ! (length before + (length N - 1))" using ends(4) by simp
  have pos: "0 < length T" "0 < length N" using ends(1,2) by simp_all
  have b1: "k + (length T - 1) < length ?F" using occ(2) pos by linarith
  have b2: "length before + (length N - 1) < length ?F" using pos(2) unfolding length_append by linarith
  have "k + (length T - 1) = length before + (length N - 1)" by (rule idx [OF e b1 b2])
  then have "length T = length N" using k pos by linarith
  with occ(1) k show ?thesis by (simp add: slice_def)
qed

lemma reverse_needs_everything:
  assumes "build_selective_patch file_path old_path h S = Ok patch"
    and "whole_lines h" and "plain_paths file_path old_path"
    and lines: "dh_lines h = first # mid @ [final]" "\<not> is_change first" "\<not> is_change final"
    and distinct: "distinct (map dl_content (dh_lines h))" "distinct (before @ new_side h @ after)"
    and l: "l \<in> set (dh_lines h)" "is_change l" "dl_index l \<notin> S"
  shows "unpatch_at patch k (before @ new_side h @ after) = None"
proof (rule ccontr)
  let ?P = "\<lambda>l. if dl_type l = ''add'' then dl_index l \<in> S else if dl_type l = ''remove'' then dl_index l \<notin> S else True"
  assume "unpatch_at patch k (before @ new_side h @ after) \<noteq> None"
  then have occ: "slice k (k + length (selected_side S h)) (before @ new_side h @ after) = selected_side S h"
      "k + length (selected_side S h) \<le> length (before @ new_side h @ after)"
    by (auto simp: unpatch_at_def replace_at_def selective_patch_texts [OF assms(1-3)] split: if_splits)
  have sides: "selected_side S h = dl_content first # map dl_content (filter ?P mid) @ [dl_content final]"
    "new_side h = dl_content first # map dl_content (filter (\<lambda>l. dl_type l \<noteq> ''remove'') mid) @ [dl_content final]"
    using lines by (auto simp: selected_side_def new_side_def is_change_def)
  have "selected_side S h = new_side h"
    by (rule anchored_occurrence [OF distinct(2) occ]) (simp_all add: sides)
  then have eq: "dl_content ` {l \<in> set (dh_lines h). ?P l} = dl_content ` {l \<in> set (dh_lines h). dl_type l \<noteq> ''remove''}"
    by (simp only: selected_side_def new_side_def flip: set_filter list.set_map)
  have inj: "inj_on dl_content (set (dh_lines h))" using distinct(1) by (simp add: distinct_map)
  have "{l \<in> set (dh_lines h). ?P l} = {l \<in> set (dh_lines h). dl_type l \<noteq> ''remove''}"
    using inj_on_image_eq_iff [OF inj, of "{l \<in> set (dh_lines h). ?P l}" "{l \<in> set (dh_lines h). dl_type l \<noteq> ''remove''}"] eq
    by auto
  with l show False by (auto simp: is_change_def set_eq_iff split: if_splits)
qed

text \<open>What \<open>git apply --cached --reverse\<close> needs: the new text of the patch occurs in the staged file.\<close>

definition reverse_apply_checks :: "'w git_env \<Rightarrow> ('w \<Rightarrow> string list) \<Rightarrow> bool" where
  "reverse_apply_checks G staged \<longleftrightarrow>
     (\<forall>patch w. fst (gv_git G [''apply'', ''--cached'', ''--reverse''] patch w)
        \<longrightarrow> (\<exists>k. unpatch_at patch k (staged w) \<noteq> None))"

text \<open>
  C14. Part of a hunk can not be unstaged. \<open>unstage_lines_impl\<close> builds the patch for the staging direction and runs
  it in reverse: it turns an unselected removal into context and drops an unselected addition, although
  the staged file lacks the one and holds the other. So, when the hunk starts and ends with a context line,
  no line occurs twice and some change of the hunk is not selected, the text the reverse patch looks for is
  nowhere in the staged file: with a \<open>git apply\<close> that refuses a patch whose text it does not find, the
  operation fails. \<open>discard_lines_impl\<close> builds its patch in the same way.
\<close>

theorem partial_unstage_is_refused:
  assumes "get_staged_diff G w file_path = Ok diff" and "get_hunk diff i = Ok h"
    and "reverse_apply_checks G staged" and "staged w = before @ new_side h @ after"
    and "whole_lines h" and "plain_paths file_path (fd_old_path diff)"
    and "dh_lines h = first # mid @ [final]" "\<not> is_change first" "\<not> is_change final"
    and "distinct (map dl_content (dh_lines h))" "distinct (staged w)"
    and "l \<in> set (dh_lines h)" "is_change l" "dl_index l \<notin> set sel"
  shows "\<exists>e. fst (unstage_lines_impl G file_path i sel w) = Err e"
proof (cases "build_selective_patch file_path (fd_old_path diff) h (set sel)")
  case (Ok patch)
  have "\<And>k. unpatch_at patch k (staged w) = None"
    using reverse_needs_everything [OF Ok assms(5-10), of before after l] assms(4,11-14) by simp
  then have "\<not> fst (gv_git G [''apply'', ''--cached'', ''--reverse''] patch w)"
    using assms(3) unfolding reverse_apply_checks_def by metis
  then show ?thesis
    by (simp add: unstage_lines_impl_def line_operation_def assms(1,2) Ok apply_patch_def case_prod_unfold)
qed (simp add: unstage_lines_impl_def line_operation_def assms(1,2))

text \<open>A repository with one staged file whose hunk is \<open>sample_hunk\<close>; \<open>git\<close> checks the patch.\<close>

definition sample_event :: "char \<Rightarrow> string \<Rightarrow> diff_event" where
  "sample_event c t = \<lparr>de_new_path = Some (bytes_of ''f''), de_old_path = None, de_status = DModified,
     de_hunk = Some \<lparr>hi_header = bytes_of ''@@ -7,3 +7,4 @@'', hi_old_start = 7, hi_old_lines = 3,
       hi_new_start = 7, hi_new_lines = 4\<rparr>,
     de_origin = c, de_content = bytes_of t, de_old_lineno = None, de_new_lineno = None\<rparr>"

definition sample_events :: "diff_event list" where
  "sample_events = [sample_event (CHR ''F'') [], sample_event (CHR ''H'') [],
     sample_event (CHR '' '') (''a'' @ nl), sample_event (CHR ''-'') (''b'' @ nl), sample_event (CHR ''+'') (''x'' @ nl),
     sample_event (CHR ''+'') (''y'' @ nl), sample_event (CHR '' '') (''c'' @ nl)]"

definition sample_file :: "string list" where
  "sample_file = [''top'' @ nl] @ new_side sample_hunk @ [''end'' @ nl]"

definition no_flags :: status_flags where
  "no_flags = \<lparr>sf_conflicted = False, sf_index_new = False, sf_index_modified = True, sf_index_deleted = False,
     sf_index_renamed = False, sf_wt_new = False, sf_wt_modified = False, sf_wt_deleted = False, sf_wt_renamed = False\<rparr>"

definition sample_git :: "unit git_env" where
  "sample_git = \<lparr>gv_open = (\<lambda>_. True), gv_statuses = (\<lambda>_. Some [(Some ''f'', no_flags)]),
     gv_status_file = (\<lambda>_ _. Some no_flags), gv_staged_diff = (\<lambda>_ _. Some sample_events),
     gv_unstaged_diff = (\<lambda>_ _. Some (0, Some [])), gv_unstaged_all = (\<lambda>_. Some []),
     gv_tree_diff = (\<lambda>_ _ _ _. Some []), gv_head = (\<lambda>_. None), gv_head_tree = (\<lambda>_. None),
     gv_revwalk = (\<lambda>_ _. None), gv_commit = (\<lambda>_ _. None), gv_tree_entry = (\<lambda>_ _ _. None),
     gv_index_entry = (\<lambda>_. Some (\<lambda>_. None)), gv_blob = (\<lambda>_ _. None), gv_exists = (\<lambda>_ _. True),
     gv_metadata = (\<lambda>_ _. None), gv_read = (\<lambda>_ _. None),
     gv_git = (\<lambda>args patch w. (list_ex (\<lambda>k. unpatch_at patch k sample_file \<noteq> None) [0..<10] \<and> args \<noteq> [], w)),
     gv_remove = (\<lambda>_ w. (True, w))\<rparr>"

lemma sample_git_simps [simp]:
  "gv_open sample_git w" "gv_staged_diff sample_git w p = Some sample_events"
  "gv_git sample_git args patch w = (list_ex (\<lambda>k. unpatch_at patch k sample_file \<noteq> None) [0..<10] \<and> args \<noteq> [], w)"
  by (simp_all add: sample_git_def)

lemma sample_parse:
  "parse_diff sample_events = [\<lparr>fd_path = ''f'', fd_old_path = None, fd_status = ''modified'',
     fd_hunks = [sample_hunk], fd_display_line_count = 0\<rparr>]"
  by code_simp


lemma sample_hunk_lines:
  "dh_lines sample_hunk = sample_line ''context'' ''a'' 0 #
     [sample_line ''remove'' ''b'' 1, sample_line ''add'' ''x'' 2, sample_line ''add'' ''y'' 3]
     @ [sample_line ''context'' ''c'' 4]"
  "distinct (map dl_content (dh_lines sample_hunk))"
  "\<not> is_change (sample_line ''context'' t i)" "is_change (sample_line ''add'' t i)"
  by (simp_all add: sample_hunk_def sample_line_def is_change_def nl_def)

lemma sample_file_distinct: "distinct ([''top'' @ nl] @ new_side sample_hunk @ [''end'' @ nl])"
  by (simp add: sample_hunk_ok nl_def)

theorem partial_unstage_is_refused_witness:
  "\<exists>e. fst (unstage_lines_impl sample_git ''f'' 0 [2] ()) = Err e"
proof -
  let ?d = "\<lparr>fd_path = ''f'', fd_old_path = None, fd_status = ''modified'', fd_hunks = [sample_hunk],
     fd_display_line_count = 0\<rparr>"
  have d: "get_staged_diff sample_git () ''f'' = Ok ?d"
    by (simp add: get_staged_diff_def first_diff_def sample_parse)
  have h: "get_hunk ?d 0 = Ok sample_hunk" by (simp add: get_hunk_def)
  have g: "reverse_apply_checks sample_git (\<lambda>_. sample_file)"
    by (auto simp: reverse_apply_checks_def list_ex_iff)
  show ?thesis
    by (rule partial_unstage_is_refused [OF d h g, where before = "[''top'' @ nl]" and after = "[''end'' @ nl]"
          and l = "sample_line ''add'' ''y'' 3", OF _ sample_hunk_ok(1) _ sample_hunk_lines(1)])
      (use sample_file_distinct in \<open>simp_all add: sample_file_def sample_hunk_lines plain_paths_def\<close>,
        simp_all add: sample_hunk_lines(1) sample_line_def)
qed


subsection \<open>Conflicts\<close>

text \<open>
  The invariant of the loop at \<open>index\<close>: the ranges so far are ordered, do not touch, lie within the file and before
  \<open>index\<close>, and every opening marker before \<open>index\<close> is in one.
\<close>

definition in_ranges :: "nat \<Rightarrow> (nat \<times> nat) list \<Rightarrow> bool" where
  "in_ranges i rs \<longleftrightarrow> (\<exists>r \<in> set rs. fst r \<le> i \<and> i < snd r)"

definition ranges_ok :: "nat \<Rightarrow> (nat \<times> nat) list \<Rightarrow> bool" where
  "ranges_ok n rs \<longleftrightarrow> successively (\<lambda>r s. snd r < fst s) rs \<and> (\<forall>r \<in> set rs. fst r < snd r \<and> snd r \<le> n)"

definition covers :: "string list \<Rightarrow> nat \<Rightarrow> (nat \<times> nat) list \<Rightarrow> bool" where
  "covers ls index rs \<longleftrightarrow> ranges_ok (length ls) rs \<and> (rs = [] \<or> snd (last rs) \<le> index)
     \<and> (\<forall>i < min index (length ls). opens_conflict (ls ! i) \<longrightarrow> in_ranges i rs)"

lemma conflict_end_le: "conflict_end ls index \<le> length ls"
  by (simp add: conflict_end_def)

lemma push_range_covers:
  assumes c: "covers ls index rs" and i: "index < length ls"
  shows "covers ls (conflict_end ls index) (push_range (index - CONFLICT_CONTEXT_LINES, conflict_end ls index) rs)"
proof -
  let ?e = "conflict_end ls index"
  have e: "index < ?e" "?e \<le> length ls" using conflict_end_gt [OF i] conflict_end_le by auto
  have old: "in_ranges j rs" if "j < index" "opens_conflict (ls ! j)" for j
    using c i that by (auto simp: covers_def)
  show ?thesis
  proof (cases rs rule: rev_cases)
    case Nil
    have "in_ranges j [(index - CONFLICT_CONTEXT_LINES, ?e)]" if "j < ?e" "opens_conflict (ls ! j)" for j
      using old [of j] that by (cases "j < index") (auto simp: in_ranges_def Nil)
    moreover have "index - CONFLICT_CONTEXT_LINES < ?e" using e(1) by linarith
    ultimately show ?thesis
      using e(2) by (auto simp: push_range_def Nil covers_def ranges_ok_def)
  next
    case (snoc qs q)
    have q: "snd q \<le> index" "fst q < snd q" using c by (auto simp: snoc covers_def ranges_ok_def)
    show ?thesis
    proof (cases "index - CONFLICT_CONTEXT_LINES \<le> snd q")
      case True
      then have p: "push_range (index - CONFLICT_CONTEXT_LINES, ?e) rs = qs @ [(fst q, ?e)]"
        using q(1) e(1) by (simp add: push_range_def snoc max_def)
      have "in_ranges j (qs @ [(fst q, ?e)])" if "j < ?e" "opens_conflict (ls ! j)" for j
      proof (cases "j < index")
        case True
        with old that q e(1) show ?thesis by (fastforce simp: in_ranges_def snoc)
      next
        case False
        with that q show ?thesis by (auto simp: in_ranges_def)
      qed
      with c e q show ?thesis unfolding p
        by (auto simp: covers_def ranges_ok_def snoc successively_append_iff)
    next
      case False
      then have p: "push_range (index - CONFLICT_CONTEXT_LINES, ?e) rs = rs @ [(index - CONFLICT_CONTEXT_LINES, ?e)]"
        by (simp add: push_range_def snoc)
      have "in_ranges j (rs @ [(index - CONFLICT_CONTEXT_LINES, ?e)])" if "j < ?e" "opens_conflict (ls ! j)" for j
        using old [of j] that by (cases "j < index") (auto simp: in_ranges_def)
      with c e False show ?thesis unfolding p
        by (auto simp: covers_def ranges_ok_def snoc successively_append_iff)
    qed
  qed
qed

lemma conflict_loop_covers: "covers ls index rs \<Longrightarrow> covers ls (max index (length ls)) (conflict_loop ls index rs)"
proof (induction ls index rs rule: conflict_loop.induct)
  case (1 ls index rs)
  show ?case
  proof (cases "length ls \<le> index")
    case True
    with 1(3) show ?thesis by (simp add: conflict_loop.simps [of ls index] max_def)
  next
    case False
    show ?thesis
    proof (cases "opens_conflict (ls ! index)")
      case True
      with 1(2) [OF False] False push_range_covers [OF 1(3)] conflict_end_le [of ls index] show ?thesis
        by (simp add: conflict_loop.simps [of ls index] max_def)
    next
      case no: False
      have "covers ls (index + 1) rs"
        using 1(3) no by (auto simp: covers_def less_Suc_eq)
      with 1(1) [OF False no] False no show ?thesis
        by (simp add: conflict_loop.simps [of ls index] max_def split: if_splits)
    qed
  qed
qed

text \<open>
  The conflict view shows ordered, disjoint pieces of the file and every place where a conflict opens. For
  every file the ranges are ascending with a gap between neighbours, non-empty and within the file; every line
  with an opening marker lies in one of them; a non-empty file has at least one; and the hunks built from
  them hold exactly those lines, numbered by their position.
\<close>

theorem conflict_view_covers_markers:
  "ranges_ok (length ls) (conflicted_context_ranges ls)
   \<and> (\<forall>i < length ls. opens_conflict (ls ! i) \<longrightarrow> in_ranges i (conflicted_context_ranges ls))
   \<and> (ls \<noteq> [] \<longrightarrow> conflicted_context_ranges ls \<noteq> [])
   \<and> map (\<lambda>h. map dl_content (dh_lines h)) (build_conflicted_hunks ls)
       = map (\<lambda>(s, e). slice s e ls) (conflicted_context_ranges ls)
   \<and> map (\<lambda>h. map dl_index (dh_lines h)) (build_conflicted_hunks ls)
       = map (\<lambda>(s, e). map word_of_nat [s..<e]) (conflicted_context_ranges ls)"
proof -
  have "covers ls 0 []" by (simp add: covers_def ranges_ok_def)
  from conflict_loop_covers [OF this] have c: "covers ls (length ls) (conflict_loop ls 0 [])" by simp
  then have ok: "ranges_ok (length ls) (conflicted_context_ranges ls)"
    by (auto simp: conflicted_context_ranges_def Let_def covers_def ranges_ok_def)
  moreover have "\<forall>i < length ls. opens_conflict (ls ! i) \<longrightarrow> in_ranges i (conflicted_context_ranges ls)"
    using c by (auto simp: conflicted_context_ranges_def Let_def covers_def in_ranges_def)
  moreover have "map dl_content (dh_lines (conflicted_hunk ls (s, e))) = slice s e ls"
    if "e \<le> length ls" for s e
    using that by (auto simp: conflicted_hunk_def Let_def slice_def intro!: nth_equalityI)
  moreover have "map dl_index (dh_lines (conflicted_hunk ls (s, e))) = map word_of_nat [s..<e]" for s e
    by (auto simp: conflicted_hunk_def Let_def intro!: nth_equalityI)
  moreover have "ls \<noteq> [] \<longrightarrow> conflicted_context_ranges ls \<noteq> []"
    by (simp add: conflicted_context_ranges_def Let_def)
  ultimately show ?thesis
    by (auto simp: build_conflicted_hunks_def ranges_ok_def)
qed

theorem conflict_view_covers_markers_witness:
  "in_ranges 4 (conflicted_context_ranges [''a'', ''b'', ''c'', ''d'', ''<<<<<<< HEAD'', ''x'', ''>>>>>>> other''])"
  using conflict_view_covers_markers [of "[''a'', ''b'', ''c'', ''d'', ''<<<<<<< HEAD'', ''x'', ''>>>>>>> other'']"]
  by (simp add: opens_conflict_def starts_with_def)


lemma conflict_skip:
  "\<forall>l \<in> set mid. \<not> opens_conflict l \<Longrightarrow>
   conflict_loop (pre @ mid @ post) (length pre) rs = conflict_loop (pre @ mid @ post) (length pre + length mid) rs"
proof (induction mid arbitrary: pre)
  case (Cons l mid)
  have "conflict_loop (pre @ (l # mid) @ post) (length pre) rs = conflict_loop ((pre @ [l]) @ mid @ post) (length (pre @ [l])) rs"
    using Cons.prems by (subst conflict_loop.simps) (simp add: nth_append)
  with Cons.IH [of "pre @ [l]"] Cons.prems show ?case by simp
qed simp

lemma conflict_skip_end:
  assumes "ls = pre @ mid" "n = length pre" "\<forall>l \<in> set mid. \<not> opens_conflict l"
  shows "conflict_loop ls n rs = rs"
  using conflict_skip [OF assms(3), of pre "[]" rs] assms(1,2) by (simp add: conflict_loop.simps [of _ "length _ + length _"])

text \<open>
  A conflict that opens right after another is cut off. When the second conflict opens at most two lines
  below the closing marker of the first, its opening marker falls into the context lines of the first and the
  loop continues behind them: the only range ends three lines below the first closing marker, so of
  a longer second conflict the end, with its closing marker, is in no hunk.
\<close>

theorem close_conflict_is_cut:
  assumes "\<forall>l \<in> set (A @ B' @ [c'] @ rest). \<not> opens_conflict l" "opens_conflict x" "closes_conflict c"
    and "\<forall>l \<in> set B. \<not> closes_conflict l" "length gap \<le> 2" "3 \<le> length (gap @ x' # B')"
  shows "conflicted_context_ranges (A @ [x] @ B @ [c] @ gap @ [x'] @ B' @ [c'] @ rest)
       = [(length A - 3, length A + length B + 5)]
    \<and> \<not> in_ranges (length A + length B + length gap + length B' + 3)
          (conflicted_context_ranges (A @ [x] @ B @ [c] @ gap @ [x'] @ B' @ [c'] @ rest))"
proof -
  let ?tail = "gap @ [x'] @ B' @ [c'] @ rest"
  let ?ls = "A @ [x] @ B @ [c] @ ?tail"
  have stop: "takeWhile (\<lambda>l. \<not> closes_conflict l) (B @ c # ?tail) = B"
    using assms(3,4) by (simp add: takeWhile_append)
  have ce: "conflict_end ?ls (length A) = length A + length B + 5"
    using assms(6) stop by (simp add: conflict_end_def CONFLICT_CONTEXT_LINES_def)
  have "?ls = (A @ [x] @ B @ [c] @ take 3 ?tail) @ drop 3 ?tail"
    by (simp only: append_assoc append_take_drop_id)
  moreover have "length A + length B + 5 = length (A @ [x] @ B @ [c] @ take 3 ?tail)"
    using assms(6) by simp
  moreover have "\<forall>l \<in> set (drop 3 ?tail). \<not> opens_conflict l"
  proof -
    have "drop 3 ?tail = drop (3 - length (gap @ [x'])) (B' @ [c'] @ rest)"
    proof -
      have "drop 3 ((gap @ [x']) @ B' @ [c'] @ rest) = drop (3 - length (gap @ [x'])) (B' @ [c'] @ rest)"
        using assms(5) unfolding drop_append by simp
      then show ?thesis by simp
    qed
    then have "set (drop 3 ?tail) \<subseteq> set (B' @ [c'] @ rest)" by (metis set_drop_subset)
    then show ?thesis using assms(1) unfolding set_append by blast
  qed
  ultimately have after: "conflict_loop ?ls (length A + length B + 5) rs = rs" for rs
    by (rule conflict_skip_end)
  have "conflict_loop ?ls 0 [] = conflict_loop ?ls (length A) []"
    using conflict_skip [of A "[]" "[x] @ B @ [c] @ ?tail" "[]"] assms(1) by simp
  also have "\<dots> = [(length A - 3, length A + length B + 5)]"
    using assms(2) by (subst conflict_loop.simps)
      (simp add: ce after push_range_def CONFLICT_CONTEXT_LINES_def del: append.simps append_assoc add: nth_append)
  finally have r: "conflicted_context_ranges ?ls = [(length A - 3, length A + length B + 5)]"
    by (simp add: conflicted_context_ranges_def)
  then show ?thesis using assms(6) by (simp add: in_ranges_def)
qed

theorem close_conflict_is_cut_witness:
  "conflicted_context_ranges [''a'', ''<<<<<<< HEAD'', ''b'', ''>>>>>>> one'', ''d'', ''<<<<<<< HEAD'', ''e'', ''f'', ''>>>>>>> two'']
     = [(0, 7)]"
  using close_conflict_is_cut [of "[''a'']" "[''e'', ''f'']" "''>>>>>>> two''" "[]" "''<<<<<<< HEAD''" "''>>>>>>> one''"
      "[''b'']" "[''d'']" "''<<<<<<< HEAD''"]
  by (simp add: opens_conflict_def closes_conflict_def starts_with_def)


subsection \<open>Counting lines\<close>

lemma tail_high: "(\<And>p b. p \<in> set ps \<Longrightarrow> p b \<Longrightarrow> 0x80 \<le> b) \<Longrightarrow>
   snd (utf8_tail ps n bs) = n + k \<Longrightarrow> \<forall>b \<in> set (take k bs). 0x80 \<le> b"
proof (induction ps n bs arbitrary: k rule: utf8_tail.induct)
  case (3 p ps n b bs)
  show ?case
  proof (cases "p b")
    case True
    with 3 utf8_tail_ge [of "Suc n" ps bs] obtain j where j: "k = Suc j" by (cases k) auto
    with True 3(1) [of j] 3(2,3) show ?thesis by auto
  qed (use 3 in auto)
qed auto

lemma broken_piece_high: "\<not> fst (utf8_next bs) \<Longrightarrow> \<forall>b \<in> set (take (snd (utf8_next bs)) bs). 0x80 \<le> b"
proof (cases bs)
  case (Cons b r)
  assume broken: "\<not> fst (utf8_next bs)"
  have b: "0x80 \<le> b"
    using broken by (cases "b < 0x80") (auto simp: Cons utf8_wants_def not_less)
  show ?thesis
  proof (cases "utf8_wants b")
    case None
    then show ?thesis using b by (simp add: Cons)
  next
    case (Some ps)
    have high: "0x80 \<le> c" if "p \<in> set ps" "p c" for p c
      using Some that
      by (auto simp: utf8_wants_def cont_byte_def second3_def second4_def word_le_nat_alt split: if_splits)
    obtain k where k: "snd (utf8_tail ps 1 r) = 1 + k"
      using utf8_tail_ge [of 1 ps r] by (metis le_Suc_ex)
    have "\<forall>b \<in> set (take k r). 0x80 \<le> b" by (rule tail_high [OF high k])
    then show ?thesis using b k Some by (simp add: Cons)
  qed
qed simp

lemma high_no_nl: "\<forall>b \<in> set bs. 0x80 \<le> b \<Longrightarrow> (0x0A :: u8) \<notin> set bs"
  by (auto dest: bspec)

lemma count_lossy: "count_list (from_utf8_lossy_bytes bs) 0x0A = count_list bs 0x0A"
proof (induction bs rule: from_utf8_lossy_bytes.induct)
  case (1 bs)
  show ?case
  proof (cases "bs = []")
    case False
    let ?k = "snd (utf8_next bs)"
    have "count_list bs 0x0A = count_list (take ?k bs) 0x0A + count_list (drop ?k bs) 0x0A"
      by (metis append_take_drop_id count_list_append)
    moreover have "count_list (take ?k bs) 0x0A = 0" if "\<not> fst (utf8_next bs)"
      using high_no_nl [OF broken_piece_high [OF that]] by (simp add: count_list_0_iff)
    ultimately show ?thesis using 1 [OF False] by (simp add: lossy_step [OF False])
  qed simp
qed

lemma lossy_eq_Nil [simp]: "from_utf8_lossy_bytes bs = [] \<longleftrightarrow> bs = []"
  using utf8_next_pos [of bs] by (cases "bs = []") (auto simp: lossy_step)

lemma last_lossy: "bs \<noteq> [] \<Longrightarrow> last (from_utf8_lossy_bytes bs) = 0x0A \<longleftrightarrow> last bs = 0x0A"
proof (induction bs rule: from_utf8_lossy_bytes.induct)
  case (1 bs)
  let ?k = "snd (utf8_next bs)"
  have parts: "bs = take ?k bs @ drop ?k bs" "take ?k bs \<noteq> []" using utf8_next_pos [OF 1(2)] 1(2) by auto
  show ?case
  proof (cases "drop ?k bs = []")
    case True
    then have all: "take ?k bs = bs" by simp
    have "last bs \<noteq> 0x0A" if "\<not> fst (utf8_next bs)"
      using high_no_nl [OF broken_piece_high [OF that]] 1(2) unfolding all by (metis last_in_set)
    then show ?thesis using True by (simp add: lossy_step [OF 1(2)] all del: drop_eq_Nil take_all_iff)
  next
    case False
    have "last bs = last (drop ?k bs)" using False by (simp add: last_drop)
    with 1(1) [OF 1(2) False] False show ?thesis
      by (simp add: lossy_step [OF 1(2)] last_append del: drop_eq_Nil)
  qed
qed

lemma split_char_count: "length (split_char c s) = Suc (count_list s c)"
proof (induction s)
  case (Cons x s)
  then show ?case by (cases "split_char c s") auto
qed simp

lemma split_char_last: "last (split_char c s) = [] \<longleftrightarrow> s = [] \<or> last s = c"
proof (induction s)
  case (Cons x s)
  obtain p ps where ps: "split_char c s = p # ps" by (cases "split_char c s") simp_all
  have "ps \<noteq> []" if "s \<noteq> []" "last s = c"
  proof -
    have "c \<in> set s" using that last_in_set by blast
    then have "0 < count_list s c" by (simp add: count_list_0_iff flip: neq0_conv)
    then show ?thesis using split_char_count [of c s] ps by auto
  qed
  with Cons ps show ?case by (cases "s = []") auto
qed simp

lemma length_lines:
  "length (lines s) = (if s = [] then 0 else if last s = CHR 0x0A then count_list s (CHR 0x0A) else Suc (count_list s (CHR 0x0A)))"
  by (simp add: lines_def Let_def split_char_count split_char_last)

lemma nl_byte: "char_of (unat (b :: u8)) = CHR 0x0A \<longleftrightarrow> b = 0x0A"
proof -
  have "CHR 0x0A = char_of (unat (0x0A :: u8))" by code_simp
  then show ?thesis using byte_roundtrip by metis
qed

lemma count_chars_of: "count_list (chars_of bs) (CHR 0x0A) = count_list bs 0x0A"
  by (induction bs) (auto simp: chars_of_def nl_byte simp del: char_of_mod_256)

lemma last_chars_of: "bs \<noteq> [] \<Longrightarrow> last (chars_of bs) = CHR 0x0A \<longleftrightarrow> last bs = 0x0A"
  by (simp add: chars_of_def last_map nl_byte)

lemma count_lines_decode: "count_lines bs = word_of_nat (length (decode_lines bs))"
proof (cases "bs = []")
  case False
  then have "chars_of (from_utf8_lossy_bytes bs) \<noteq> []" by (simp add: chars_of_def)
  with False show ?thesis
    by (simp add: count_lines_def decode_lines_def from_utf8_lossy_def length_lines count_chars_of count_lossy
        last_chars_of last_lossy)
qed (simp add: count_lines_def decode_lines_def from_utf8_lossy_def lines_def Let_def chars_of_def)


subsection \<open>The content cache\<close>

definition cache_ok :: "'w git_env \<Rightarrow> 'w \<Rightarrow> content_cache \<Rightarrow> bool" where
  "cache_ok G w cache \<longleftrightarrow> length cache \<le> FILE_CONTENT_CACHE_LIMIT \<and> distinct (map fst cache)
     \<and> (\<forall>src c. map_of cache src = Some c \<longrightarrow>
          (\<exists>bs. read_source_bytes G w src = Ok bs \<and> cc_line_count c = count_lines bs
             \<and> (cc_lines c = None \<or> cc_lines c = Some (decode_lines bs))))"

text \<open>An operation that threads the cache and answers \<open>r\<close> whatever a sound cache holds.\<close>

definition answers :: "'w git_env \<Rightarrow> 'w \<Rightarrow> (content_cache \<Rightarrow> 'a \<times> content_cache) \<Rightarrow> 'a \<Rightarrow> bool" where
  "answers G w f r \<longleftrightarrow> (\<forall>cache. cache_ok G w cache \<longrightarrow> fst (f cache) = r \<and> cache_ok G w (snd (f cache)))"

lemma cache_ok_Nil: "cache_ok G w []"
  by (simp add: cache_ok_def)

lemma length_update: "length (AList.update k v xs) = (if map_of xs k = None then Suc (length xs) else length xs)"
  by (induction xs) (auto simp: map_of_eq_None_iff)

lemma cache_ok_insert:
  assumes "cache_ok G w cache" "read_source_bytes G w src = Ok bs" "n = count_lines bs"
    "ls = None \<or> ls = Some (decode_lines bs)"
  shows "cache_ok G w (cache_file_content src \<lparr>cc_line_count = n, cc_lines = ls\<rparr> cache)"
proof -
  let ?c = "if FILE_CONTENT_CACHE_LIMIT \<le> length cache \<and> map_of cache src = None then [] else cache"
  have ok: "cache_ok G w ?c" and room: "map_of ?c src = None \<Longrightarrow> length ?c < FILE_CONTENT_CACHE_LIMIT"
    using assms(1) by (auto simp: cache_ok_def FILE_CONTENT_CACHE_LIMIT_def)
  show ?thesis
    unfolding cache_file_content_def Let_def cache_ok_def
  proof (intro conjI allI impI)
    show "length (AList.update src \<lparr>cc_line_count = n, cc_lines = ls\<rparr> ?c) \<le> FILE_CONTENT_CACHE_LIMIT"
      using ok room unfolding length_update by (cases "map_of ?c src = None") (auto simp: cache_ok_def)
    show "distinct (map fst (AList.update src \<lparr>cc_line_count = n, cc_lines = ls\<rparr> ?c))"
      using ok by (intro distinct_update) (simp add: cache_ok_def)
    show "\<exists>bs. read_source_bytes G w s = Ok bs \<and> cc_line_count c = count_lines bs
        \<and> (cc_lines c = None \<or> cc_lines c = Some (decode_lines bs))"
      if "map_of (AList.update src \<lparr>cc_line_count = n, cc_lines = ls\<rparr> ?c) s = Some c" for s c
      using that ok assms(2-4) unfolding update_conv' cache_ok_def
      by (cases "s = src") (auto simp del: if_split_asm split: if_split_asm)
  qed
qed

lemma answers_count: "answers G w (count_lines_for_source G w src) (map_ok count_lines (read_source_bytes G w src))"
  unfolding answers_def
proof (intro allI impI)
  fix cache assume ok: "cache_ok G w cache"
  show "fst (count_lines_for_source G w src cache) = map_ok count_lines (read_source_bytes G w src)
      \<and> cache_ok G w (snd (count_lines_for_source G w src cache))"
  proof (cases "map_of cache src")
    case None
    with ok show ?thesis
      by (cases "read_source_bytes G w src") (simp_all add: count_lines_for_source_def cache_ok_insert)
  next
    case (Some c)
    with ok show ?thesis unfolding cache_ok_def count_lines_for_source_def by fastforce
  qed
qed

lemma answers_slice:
  "answers G w (slice_lines_for_source G w src s n) (map_ok (\<lambda>bs. slice_lines (decode_lines bs) s n) (read_source_bytes G w src))"
  unfolding answers_def
proof (intro allI impI)
  fix cache assume ok: "cache_ok G w cache"
  show "fst (slice_lines_for_source G w src s n cache)
        = map_ok (\<lambda>bs. slice_lines (decode_lines bs) s n) (read_source_bytes G w src)
      \<and> cache_ok G w (snd (slice_lines_for_source G w src s n cache))"
  proof (cases "Option.bind (map_of cache src) cc_lines")
    case None
    with ok show ?thesis
      by (cases "read_source_bytes G w src")
        (simp_all add: slice_lines_for_source_def Let_def cache_ok_insert count_lines_decode)
  next
    case (Some ls)
    then obtain c where "map_of cache src = Some c" "cc_lines c = Some ls" by (auto simp: bind_eq_Some_conv)
    with ok Some show ?thesis unfolding cache_ok_def slice_lines_for_source_def by fastforce
  qed
qed

lemma answers_const: "answers G w (\<lambda>cache. (r, cache)) r"
  by (simp add: answers_def)

lemma answers_bind:
  assumes "answers G w f r" and "\<And>a. answers G w (g a) (s a)"
  shows "answers G w (\<lambda>cache. let (a, cache) = f cache in g a cache) (s r)"
  using assms by (fastforce simp: answers_def case_prod_unfold)

lemma answers_map:
  assumes "answers G w f r" shows "answers G w (\<lambda>cache. let (a, cache) = f cache in (h a, cache)) (h r)"
  by (rule answers_bind [OF assms answers_const])

lemma answers_case:
  assumes "answers G w f r" and "\<And>e. answers G w (g (Err e)) (s (Err e))" "\<And>a. answers G w (g (Ok a)) (s (Ok a))"
  shows "answers G w (\<lambda>cache. case f cache of (x, cache) \<Rightarrow> g x cache) (s r)"
proof -
  have "answers G w (g a) (s a)" for a using assms(2,3) by (cases a) auto
  from answers_bind [OF assms(1) this] show ?thesis by (simp add: Let_def)
qed

lemma answers_if: "answers G w f r \<Longrightarrow> answers G w g s \<Longrightarrow> answers G w (\<lambda>c. if b then f c else g c) (if b then r else s)"
  by simp

lemma answers_display: "\<exists>r. answers G w (count_display G w source_of fd) r"
proof (cases "should_track_display_line_count (fd_status fd)")
  case True
  show ?thesis
  proof (cases "source_of fd")
    case (Ok src)
    with True answers_map [OF answers_count [of G w src]] show ?thesis
      unfolding count_display_def by fastforce
  next
    case (Err e)
    with True answers_const show ?thesis unfolding count_display_def by fastforce
  qed
next
  case False
  with answers_const show ?thesis unfolding count_display_def by fastforce
qed

lemma answers_displays: "\<exists>r. answers G w (count_displays G w source_of fds) r"
proof (induction fds)
  case Nil
  show ?case by (auto simp: answers_def)
next
  case (Cons fd fds)
  from Cons.IH obtain s where s: "answers G w (count_displays G w source_of fds) s" by blast
  obtain r where r: "answers G w (count_display G w source_of fd) r"
    using answers_display [of G w source_of fd] by blast
  have eq: "count_displays G w source_of (fd # fds) = (\<lambda>cache. case count_display G w source_of fd cache of (x, cache) \<Rightarrow>
      (\<lambda>x cache. case x of Err e \<Rightarrow> (Err e, cache)
         | Ok fd \<Rightarrow> (let (r, cache) = count_displays G w source_of fds cache in (map_ok ((#) fd) r, cache))) x cache)"
    by (auto simp: fun_eq_iff split: result.splits prod.splits)
  have "answers G w (count_displays G w source_of (fd # fds))
      (case r of Err e \<Rightarrow> Err e | Ok fd \<Rightarrow> map_ok ((#) fd) s)"
    unfolding eq by (rule answers_case [OF r]) (simp_all add: answers_const answers_map [OF s, unfolded Let_def])
  then show ?case by blast
qed


lemma answers_counted_first: "\<exists>r. answers G w (counted_first G w wt path st evs) r"
proof (cases evs)
  case None
  then show ?thesis unfolding counted_first_def using answers_const by fastforce
next
  case (Some es)
  obtain r where "answers G w (count_displays G w
      (\<lambda>fd. get_working_display_source G w wt (fd_path fd) st) (parse_diff es)) r"
    using answers_displays [of G w _ "parse_diff es"] by blast
  from answers_map [OF this] Some show ?thesis unfolding counted_first_def by fastforce
qed

lemma answers_conflicted: "\<exists>r. answers G w (get_conflicted_working_diff G w wt path) r"
proof (cases "validate_repo_relative_path path")
  case (Err e)
  then show ?thesis unfolding get_conflicted_working_diff_def using answers_const by fastforce
next
  case (Ok u)
  show ?thesis
  proof (cases "read_workdir_source G w wt path")
    case (Err e)
    with Ok show ?thesis unfolding get_conflicted_working_diff_def using answers_const by fastforce
  next
    case src: (Ok src)
    from answers_map [OF answers_slice [of G w src 1 "- 1"]] Ok src show ?thesis
      unfolding get_conflicted_working_diff_def by fastforce
  qed
qed

lemma answers_working_diff: "\<exists>r. answers G w (get_working_diff_impl G w wt path) r"
proof -
  obtain p st where p: "strip_staged path = (p, st)" by force
  let ?find = "\<lambda>full. find (\<lambda>f. fd_path f = p) (parse_diff full)"
  show ?thesis
  proof (cases "gv_open G w \<and> \<not> (\<not> st \<and> is_conflicted G w p) \<and> \<not> st")
    case False
    then show ?thesis
      using answers_conflicted [of G w wt p] answers_counted_first [of G w wt p True "gv_staged_diff G w p"]
        answers_const [of G w "Err RepoError"]
      unfolding get_working_diff_impl_def p by (cases "gv_open G w"; cases st) auto
  next
    case True
    then have eq: "get_working_diff_impl G w wt path = (case gv_unstaged_diff G w p of
        None \<Rightarrow> (\<lambda>cache. (Err RepoError, cache))
      | Some (deltas, evs) \<Rightarrow>
          if deltas = 0 \<and> is_untracked G w p then
            (case gv_unstaged_all G w of
               None \<Rightarrow> (\<lambda>cache. (Err RepoError, cache))
             | Some full \<Rightarrow> (case ?find full of
                 Some fd \<Rightarrow> count_display G w (\<lambda>fd. get_working_display_source G w wt (fd_path fd) st) fd
               | None \<Rightarrow> counted_first G w wt p False evs))
          else counted_first G w wt p False evs)"
      by (auto simp: fun_eq_iff get_working_diff_impl_def p split: option.splits)
    show ?thesis unfolding eq
      using answers_const [of G w "Err RepoError"] answers_counted_first [of G w wt p False]
        answers_display [of G w "\<lambda>fd. get_working_display_source G w wt (fd_path fd) st"]
      by (auto split: option.splits prod.splits)
  qed
qed

lemma answers_commit_diff: "\<exists>r. answers G w (get_commit_diff_impl G w commit) r"
proof -
  have "get_commit_diff_impl G w commit = (if \<not> gv_open G w then (\<lambda>cache. (Err RepoError, cache))
     else case gv_commit G w commit of None \<Rightarrow> (\<lambda>cache. (Err RepoError, cache))
     | Some c \<Rightarrow> (case gv_tree_diff G w (cd_parent_tree c) (cd_tree c) [] of
         None \<Rightarrow> (\<lambda>cache. (Err RepoError, cache))
       | Some evs \<Rightarrow> count_displays G w (\<lambda>fd. get_commit_display_source G w c (fd_path fd) (fd_old_path fd)) (parse_diff evs)))"
    by (auto simp: fun_eq_iff get_commit_diff_impl_def split: option.splits)
  then show ?thesis
    using answers_const [of G w "Err RepoError"] answers_displays [of G w] by (auto split: option.splits)
qed

lemma answers_working_context: "\<exists>r. answers G w (get_working_diff_context_impl G w wt path s n) r"
proof -
  obtain p st where p: "strip_staged path = (p, st)" by force
  have "get_working_diff_context_impl G w wt path s n =
     (case validate_repo_relative_path p of Err e \<Rightarrow> (\<lambda>cache. (Err e, cache))
      | Ok _ \<Rightarrow> if \<not> gv_open G w then (\<lambda>cache. (Err RepoError, cache))
          else case ensure_working_diff_path_allowed G w p st of Err e \<Rightarrow> (\<lambda>cache. (Err e, cache))
          | Ok _ \<Rightarrow> (case get_working_display_source G w wt p st of Err e \<Rightarrow> (\<lambda>cache. (Err e, cache))
               | Ok src \<Rightarrow> slice_lines_for_source G w src s n))"
    by (auto simp: fun_eq_iff get_working_diff_context_impl_def p split: result.splits)
  then show ?thesis
    by (auto split: result.splits intro: exI answers_const answers_slice)
qed

text \<open>
  C15. The content cache is invisible. In a state of the repository in which every entry of the cache agrees with
  the content of its source, a working diff, a commit diff and a context query return the same whatever
  the cache holds, line counts taken from decoded lines and line counts taken from newline bytes being
  equal also for files that are not UTF-8; the cache stays sound and never has more than 256 entries.
\<close>

theorem content_cache_is_transparent:
  assumes "cache_ok G w c" and "cache_ok G w c'"
  shows "fst (get_working_diff_impl G w wt path c) = fst (get_working_diff_impl G w wt path c')
    \<and> fst (get_commit_diff_impl G w commit c) = fst (get_commit_diff_impl G w commit c')
    \<and> fst (get_working_diff_context_impl G w wt path s n c) = fst (get_working_diff_context_impl G w wt path s n c')
    \<and> cache_ok G w (snd (get_working_diff_impl G w wt path c)) \<and> cache_ok G w (snd (get_commit_diff_impl G w commit c))
    \<and> cache_ok G w (snd (get_working_diff_context_impl G w wt path s n c))
    \<and> length (snd (get_working_diff_impl G w wt path c)) \<le> 256"
proof -
  obtain r1 r2 r3 where "answers G w (get_working_diff_impl G w wt path) r1"
    "answers G w (get_commit_diff_impl G w commit) r2" "answers G w (get_working_diff_context_impl G w wt path s n) r3"
    using answers_working_diff answers_commit_diff answers_working_context by metis
  with assms have "fst (get_working_diff_impl G w wt path c) = fst (get_working_diff_impl G w wt path c')"
    "fst (get_commit_diff_impl G w commit c) = fst (get_commit_diff_impl G w commit c')"
    "fst (get_working_diff_context_impl G w wt path s n c) = fst (get_working_diff_context_impl G w wt path s n c')"
    "cache_ok G w (snd (get_working_diff_impl G w wt path c))" "cache_ok G w (snd (get_commit_diff_impl G w commit c))"
    "cache_ok G w (snd (get_working_diff_context_impl G w wt path s n c))"
    unfolding answers_def by metis+
  then show ?thesis by (simp add: cache_ok_def FILE_CONTENT_CACHE_LIMIT_def)
qed

theorem content_cache_is_transparent_witness:
  "fst (get_working_diff_impl sample_git () ''/w'' ''staged:f'' [(Missing, \<lparr>cc_line_count = 0, cc_lines = Some []\<rparr>)])
     = fst (get_working_diff_impl sample_git () ''/w'' ''staged:f'' [])"
proof -
  have "cache_ok sample_git () [(Missing, \<lparr>cc_line_count = 0, cc_lines = Some []\<rparr>)]"
    by (simp add: cache_ok_def FILE_CONTENT_CACHE_LIMIT_def read_source_bytes_def count_lines_def decode_lines_def
        from_utf8_lossy_def lines_def chars_of_def)
  from content_cache_is_transparent [OF this cache_ok_Nil] show ?thesis by blast
qed


subsection \<open>Paths\<close>

text \<open>Where a path leads from a directory, a directory being its names with the innermost first.\<close>

fun descend :: "string list \<Rightarrow> path_component \<Rightarrow> string list" where
  "descend dir RootDir = []"
| "descend dir CurDir = dir"
| "descend dir ParentDir = tl dir"
| "descend dir (Normal s) = s # dir"

lemma validate_components_Ok:
  "validate_components path has_normal cs = Ok () \<longleftrightarrow>
     list_all (\<lambda>c. c \<noteq> RootDir \<and> c \<noteq> ParentDir) cs \<and> (has_normal \<or> (\<exists>s. Normal s \<in> set cs))"
  by (induction path has_normal cs rule: validate_components.induct) auto

lemma descend_below:
  "list_all (\<lambda>c. c \<noteq> RootDir \<and> c \<noteq> ParentDir) cs \<Longrightarrow>
   foldl descend dir cs = rev (concat (map (\<lambda>c. case c of Normal s \<Rightarrow> [s] | _ \<Rightarrow> []) cs)) @ dir"
  by (induction cs arbitrary: dir) (auto split: path_component.splits)

lemma split_char_absolute: "starts_with ''/'' p \<longleftrightarrow> p \<noteq> [] \<and> hd (split_char (CHR ''/'') p) = []"
proof (cases p)
  case (Cons x xs)
  then show ?thesis
    by (cases "split_char (CHR ''/'') xs") (auto simp: starts_with_def)
qed (simp add: starts_with_def)

text \<open>
  An accepted path stays inside the repository. \<open>validate_repo_relative_path\<close> accepts exactly the non-empty
  paths that do not start with a slash, have no segment \<open>..\<close> and have a segment other than a dot; followed
  from any directory, such a path leads to a proper descendant of it, through the path's own segments.
\<close>

theorem accepted_paths_stay_inside:
  "(validate_repo_relative_path p = Ok () \<longleftrightarrow>
      \<not> starts_with ''/'' p \<and> ''..'' \<notin> set (split_char (CHR ''/'') p)
      \<and> (\<exists>s \<in> set (split_char (CHR ''/'') p). s \<noteq> [] \<and> s \<noteq> ''.'' \<and> s \<noteq> ''..''))
   \<and> (validate_repo_relative_path p = Ok () \<longrightarrow>
       (\<exists>below. below \<noteq> [] \<and> set below \<subseteq> set (split_char (CHR ''/'') p)
          \<and> foldl descend root (path_components p) = below @ root))"
proof -
  let ?segs = "split_char (CHR ''/'') p"
  let ?cs = "path_components p"
  have norm: "Normal s \<in> set ?cs \<longleftrightarrow> s \<in> set ?segs \<and> s \<noteq> [] \<and> s \<noteq> ''.'' \<and> s \<noteq> ''..''" for s
    by (auto simp: path_components_def Let_def image_iff)
  have root: "RootDir \<in> set ?cs \<longleftrightarrow> starts_with ''/'' p" and par: "ParentDir \<in> set ?cs \<longleftrightarrow> ''..'' \<in> set ?segs"
    by (auto simp: path_components_def Let_def image_iff)
  have all: "list_all (\<lambda>c. c \<noteq> RootDir \<and> c \<noteq> ParentDir) ?cs \<longleftrightarrow> \<not> starts_with ''/'' p \<and> ''..'' \<notin> set ?segs"
    unfolding root [symmetric] par [symmetric] by (auto simp: list_all_iff)
  have ok: "validate_repo_relative_path p = Ok () \<longleftrightarrow>
      p \<noteq> [] \<and> list_all (\<lambda>c. c \<noteq> RootDir \<and> c \<noteq> ParentDir) ?cs \<and> (\<exists>s. Normal s \<in> set ?cs)"
    by (simp add: validate_repo_relative_path_def validate_components_Ok)
  have first: "validate_repo_relative_path p = Ok () \<longleftrightarrow>
      \<not> starts_with ''/'' p \<and> ''..'' \<notin> set ?segs \<and> (\<exists>s \<in> set ?segs. s \<noteq> [] \<and> s \<noteq> ''.'' \<and> s \<noteq> ''..'')"
    unfolding ok all norm by (cases p) auto
  let ?below = "rev (concat (map (\<lambda>c. case c of Normal s \<Rightarrow> [s] | _ \<Rightarrow> []) ?cs))"
  have "foldl descend root ?cs = ?below @ root \<and> ?below \<noteq> [] \<and> set ?below \<subseteq> set ?segs"
    if "validate_repo_relative_path p = Ok ()"
  proof (intro conjI)
    show "foldl descend root ?cs = ?below @ root" using that descend_below ok by blast
    from that obtain s where "Normal s \<in> set ?cs" using ok by blast
    then show "?below \<noteq> []" by (auto intro!: bexI [of _ "Normal s"])
    show "set ?below \<subseteq> set ?segs" using norm by (auto split: path_component.splits)
  qed
  with first show ?thesis by blast
qed

theorem accepted_paths_stay_inside_witness:
  "validate_repo_relative_path ''./a//b/.'' = Ok ()
   \<and> foldl descend [''w''] (path_components ''./a//b/.'') = [''b'', ''a'', ''w'']
   \<and> validate_repo_relative_path ''a/../b'' = Err (InvalidPath ''a/../b'')"
  using accepted_paths_stay_inside [of "''./a//b/.''" "[''w'']"]
  by (simp add: validate_repo_relative_path_def path_components_def starts_with_def)

subsection \<open>Discarding\<close>

text \<open>
  A discard whose checkout fails deletes the file. \<open>discard_file_impl\<close> takes every failure of
  \<open>git checkout -- path\<close>, an index lock as well as an untracked path, as a sign that the path is untracked and
  removes what it names, without asking for its status and without the path check of the context queries;
  \<open>remove_untracked_files_impl\<close> refuses the same path and removes nothing.
\<close>

theorem failed_checkout_removes_the_path:
  assumes "gv_git G [''checkout'', ''--'', p] [] w = (False, w')" and "gv_exists G w' (path_join wt p)"
    and "gv_open G w" and "\<not> is_untracked G w p"
  shows "discard_file_impl G wt p w
        = (if fst (gv_remove G (path_join wt p) w') then Ok () else Err IoError, snd (gv_remove G (path_join wt p) w'))
    \<and> remove_untracked_files_impl G wt [p] w = (Err (NotUntracked p), w)"
  using assms by (simp add: discard_file_impl_def run_git_def remove_path_def remove_untracked_files_impl_def case_prod_unfold)

definition locked_git :: "unit git_env" where
  "locked_git = sample_git\<lparr>gv_git := (\<lambda>args patch w. (False, w))\<rparr>"

theorem failed_checkout_removes_the_path_witness:
  "discard_file_impl locked_git ''/w'' ''src/main.rs'' () = (Ok (), ())"
proof -
  have "gv_git locked_git [''checkout'', ''--'', ''src/main.rs''] [] () = (False, ())"
    "gv_exists locked_git () (path_join ''/w'' ''src/main.rs'')" "gv_open locked_git ()"
    "\<not> is_untracked locked_git () ''src/main.rs''"
    by (simp_all add: locked_git_def sample_git_def is_untracked_def no_flags_def)
  from failed_checkout_removes_the_path [OF this] show ?thesis
    by (simp add: locked_git_def sample_git_def)
qed

end
