(* ===== verification/TerminalGc.thy ===== *)
theory TerminalGc
  imports Client HistoryLog "HOL-Library.List_Lexorder" "HOL-Library.Char_ord"
begin

text \<open>
  Terminal garbage collection: \<open>run_terminal_gc\<close> of \<open>grove-core/src/pty.rs\<close> with the planners it
  calls, the history planner of \<open>grove-core/src/daemon/gc.rs\<close>, the session names that attribute a
  session to a worktree, and the delta filter of \<open>poll_bell_events\<close>.

  The pane registry is a map; the daemon's replies, the file system, \<open>ps\<close> and \<open>kill\<close> are fields of
  \<open>gc_env\<close>. SHA-256 is a parameter. A \<open>BTreeSet\<close> is the sorted list of its elements.
\<close>

subsection \<open>Session names\<close>

definition WORKTREE_HASH_LEN :: nat where "WORKTREE_HASH_LEN = 12"
definition PANE_PREFIX_LEN :: nat where "PANE_PREFIX_LEN = 8"
definition PANE_HASH_LEN :: nat where "PANE_HASH_LEN = 4"

definition short_hash :: "(bytes \<Rightarrow> bytes) \<Rightarrow> string \<Rightarrow> nat \<Rightarrow> string" where
  "short_hash sha input n = take n (hex_lower (sha (bytes_of input)))"

definition pane_short_id :: "(bytes \<Rightarrow> bytes) \<Rightarrow> string \<Rightarrow> string" where
  "pane_short_id sha pane_id =
     (let prefix = take PANE_PREFIX_LEN (map to_ascii_lowercase (filter is_ascii_alphanumeric pane_id));
          h = short_hash sha pane_id PANE_HASH_LEN
      in if prefix = [] then h else prefix @ h)"

definition grove_session_name :: "(bytes \<Rightarrow> bytes) \<Rightarrow> string \<Rightarrow> string \<Rightarrow> string" where
  "grove_session_name sha worktree_path pane_id =
     ''grove-'' @ short_hash sha worktree_path WORKTREE_HASH_LEN @ ''-'' @ pane_short_id sha pane_id"

definition session_worktree_prefix :: "(bytes \<Rightarrow> bytes) \<Rightarrow> string \<Rightarrow> string" where
  "session_worktree_prefix sha worktree_path =
     ''grove-'' @ short_hash sha worktree_path WORKTREE_HASH_LEN @ ''-''"

subsection \<open>The plan\<close>

record terminal_gc_session_info =
  gs_session_name :: string
  gs_worktree_path :: string
  gs_attached :: bool
  gs_pane_pid :: "u32 option"

record terminal_gc_plan =
  gp_stale_worktree_paths :: "string list"
  gp_stale_session_names :: "string list"
  gp_stale_session_pane_pids :: "u32 list"
  gp_skipped_attached_worktree_paths :: "string list"

definition btree_set :: "'a::linorder list \<Rightarrow> 'a list" where
  "btree_set xs = sort (remdups xs)"

definition daemon_gc_session_infos ::
  "(bytes \<Rightarrow> bytes) \<Rightarrow> session_info list \<Rightarrow> string list \<Rightarrow> string list \<Rightarrow> terminal_gc_session_info list" where
  "daemon_gc_session_infos sha sessions referenced_paths attached =
     List.map_filter (\<lambda>s.
       case find (\<lambda>path. starts_with (session_worktree_prefix sha path) (si_session_id s)) referenced_paths of
         None \<Rightarrow> None
       | Some path \<Rightarrow>
           Some \<lparr>gs_session_name = si_session_id s, gs_worktree_path = path,
                 gs_attached = (si_session_id s \<in> set attached), gs_pane_pid = si_pid s\<rparr>) sessions"

definition build_terminal_gc_plan ::
  "(string \<Rightarrow> bool) \<Rightarrow> string list \<Rightarrow> terminal_gc_session_info list \<Rightarrow> terminal_gc_plan" where
  "build_terminal_gc_plan exists_path referenced_paths infos =
     (let missing = btree_set (filter (\<lambda>p. \<not> exists_path p) (referenced_paths @ map gs_worktree_path infos));
          attached_here = (\<lambda>p. \<exists>s \<in> set infos. gs_worktree_path s = p \<and> gs_attached s);
          stale = filter (\<lambda>p. \<not> attached_here p) missing;
          doomed = concat (map (\<lambda>p. filter (\<lambda>s. gs_worktree_path s = p \<and> \<not> gs_attached s) infos) stale)
      in \<lparr>gp_stale_worktree_paths = stale,
          gp_stale_session_names = btree_set (map gs_session_name doomed),
          gp_stale_session_pane_pids = btree_set (List.map_filter gs_pane_pid doomed),
          gp_skipped_attached_worktree_paths = filter attached_here missing\<rparr>)"

subsection \<open>The registry\<close>

record pty_instance =
  pi_session_name :: string
  pi_worktree_path :: string
  pi_reader_exited :: bool
  pi_last_ai_status :: "string option"

type_synonym registry = "(string \<times> pty_instance) list"

record registry_reap_entry =
  re_pty_id :: string
  re_session_name :: string
  re_reader_exited :: bool

record registry_reap_plan =
  rp_reap_candidates :: "(string \<times> string) list"
  rp_dead_reader_pty_ids :: "string list"

definition registry_snapshot :: "registry \<Rightarrow> registry_reap_entry list" where
  "registry_snapshot reg =
     map (\<lambda>(i, p). \<lparr>re_pty_id = i, re_session_name = pi_session_name p, re_reader_exited = pi_reader_exited p\<rparr>) reg"

definition build_registry_reap_plan :: "registry_reap_entry list \<Rightarrow> string list \<Rightarrow> registry_reap_plan" where
  "build_registry_reap_plan snapshot known =
     \<lparr>rp_reap_candidates =
        map (\<lambda>e. (re_pty_id e, re_session_name e)) (filter (\<lambda>e. re_session_name e \<notin> set known) snapshot),
      rp_dead_reader_pty_ids =
        map re_pty_id (filter (\<lambda>e. re_session_name e \<in> set known \<and> re_reader_exited e) snapshot)\<rparr>"

definition reap_dead_registry_entries :: "(string \<times> string) list \<Rightarrow> registry \<Rightarrow> string list \<times> registry" where
  "reap_dead_registry_entries candidates reg =
     foldl (\<lambda>(reaped, reg) (pty_id, name).
              if map_of reg pty_id = None then (reaped, reg)
              else (reaped @ [pty_id], AList.delete pty_id reg)) ([], reg) candidates"

definition drop_registry_entries_for_session :: "string \<Rightarrow> registry \<Rightarrow> registry" where
  "drop_registry_entries_for_session name reg = filter (\<lambda>(i, p). pi_session_name p \<noteq> name) reg"

definition ids_for_worktree :: "string \<Rightarrow> registry \<Rightarrow> string list" where
  "ids_for_worktree worktree_path reg =
     map fst (filter (\<lambda>(i, p). pi_worktree_path p = worktree_path) reg)"


subsection \<open>Layouts\<close>

text \<open>\<open>serde_json::Value\<close>; the fields of an object have distinct keys.\<close>

datatype json_value =
  JNull | JBool bool | JNumber int | JString string | JArray "json_value list" | JObject "(string \<times> json_value) list"

fun js_field :: "string \<Rightarrow> json_value \<Rightarrow> json_value option" where
  "js_field key (JObject obj) = map_of obj key"
| "js_field key v = None"

fun as_str :: "json_value \<Rightarrow> string option" where
  "as_str (JString s) = Some s"
| "as_str v = None"

fun as_array :: "json_value \<Rightarrow> json_value list option" where
  "as_array (JArray vs) = Some vs"
| "as_array v = None"

definition str_field :: "string \<Rightarrow> json_value \<Rightarrow> string option" where
  "str_field key v = Option.bind (js_field key v) as_str"

definition children :: "json_value \<Rightarrow> json_value list" where
  "children v = unwrap_or [] (Option.bind (js_field ''children'' v) as_array)"

lemma as_array_Some: "as_array v = Some vs \<longleftrightarrow> v = JArray vs"
  by (cases v) auto

lemma children_size: "c \<in> set (children v) \<Longrightarrow> size c < size v"
proof -
  assume c: "c \<in> set (children v)"
  then obtain cs where "Option.bind (js_field ''children'' v) as_array = Some cs" and cs: "c \<in> set cs"
    by (cases "Option.bind (js_field ''children'' v) as_array") (simp_all add: children_def)
  then obtain obj where v: "v = JObject obj" and m: "map_of obj ''children'' = Some (JArray cs)"
    by (cases v) (auto simp: bind_eq_Some_conv as_array_Some)
  have "size c < size (JArray cs)"
    using size_list_estimation' [OF cs order_refl, of size] by simp
  moreover have "size (JArray cs) < size (JObject obj)"
    using size_list_estimation' [OF map_of_SomeD [OF m] order_refl, of "size_prod (\<lambda>_. 0) size"]
    by simp
  ultimately show ?thesis by (simp add: v)
qed

function collect_layout_session_ids :: "(bytes \<Rightarrow> bytes) \<Rightarrow> string \<Rightarrow> json_value \<Rightarrow> string list" where
  "collect_layout_session_ids sha worktree_path node =
     (case node of
        JObject obj \<Rightarrow>
          if str_field ''type'' node \<in> {Some ''horizontal'', Some ''vertical''}
          then concat (map (collect_layout_session_ids sha worktree_path) (children node))
          else (case str_field ''id'' node of
                  Some pane_id \<Rightarrow> [grove_session_name sha worktree_path pane_id]
                | None \<Rightarrow> [])
      | _ \<Rightarrow> [])"
  by pat_completeness auto
termination
  by (relation "measure (\<lambda>(sha, w, node). size node)") (auto dest: children_size)

declare collect_layout_session_ids.simps [simp del]

definition panel_layout_session_ids :: "(bytes \<Rightarrow> bytes) \<Rightarrow> string \<Rightarrow> json_value \<Rightarrow> string list" where
  "panel_layout_session_ids sha base_dir panels =
     (case Option.bind (Option.bind (js_field ''globalTerminal'' panels) (js_field ''tabs'')) as_array of
        None \<Rightarrow> []
      | Some tabs \<Rightarrow>
          List.map_filter (\<lambda>tab.
            if str_field ''mirrorPtyId'' tab \<noteq> None then None
            else map_option (grove_session_name sha base_dir) (str_field ''paneId'' tab)) tabs)"

subsection \<open>Session histories\<close>

text \<open>\<open>daemon/gc.rs\<close>. Durations are in nanoseconds.\<close>

definition GC_MIN_AGE :: nat where "GC_MIN_AGE = 5 * 60 * 1000000000"

definition known_session_ids :: "session_info list \<Rightarrow> string list" where
  "known_session_ids sessions = map si_session_id sessions"

definition live_session_ids :: "session_info list \<Rightarrow> string list" where
  "live_session_ids sessions = map si_session_id (filter si_is_alive sessions)"

record history_dir_info =
  hd_session_id :: string
  hd_age :: nat

record history_gc_input =
  hg_dirs :: "history_dir_info list"
  hg_daemon_session_ids :: "string list"
  hg_referenced_session_ids :: "string list"
  hg_any_app_connected :: bool
  hg_min_age :: nat

definition plan_history_gc :: "history_gc_input \<Rightarrow> string list" where
  "plan_history_gc input =
     (if hg_any_app_connected input then []
      else map hd_session_id
             (filter (\<lambda>d. hd_session_id d \<notin> set (hg_daemon_session_ids input)
                        \<and> hd_session_id d \<notin> set (hg_referenced_session_ids input)
                        \<and> hg_min_age input \<le> hd_age d) (hg_dirs input)))"

definition percent_encode_session_id :: "string \<Rightarrow> string" where
  "percent_encode_session_id session_id =
     chars_of (concat (map (\<lambda>b.
       if is_ascii_alphanumeric (char_of (unat b)) \<or> b \<in> {0x2D, 0x2E, 0x5F, 0x7E} then [b]
       else [0x25, hex_upper (drop_bit 4 b), hex_upper (b AND 0x0F)]) (bytes_of session_id)))"

text \<open>\<open>u8::from_str_radix\<close> of two characters takes a plus sign for the first.\<close>

definition from_str_radix16 :: "u8 \<Rightarrow> u8 \<Rightarrow> u8 option" where
  "from_str_radix16 a b =
     (if a = 0x2B then from_hex b
      else case (from_hex a, from_hex b) of (Some hi, Some lo) \<Rightarrow> Some (push_bit 4 hi OR lo) | _ \<Rightarrow> None)"

fun percent_decode_session_bytes :: "bytes \<Rightarrow> bytes option" where
  "percent_decode_session_bytes [] = Some []"
| "percent_decode_session_bytes (b # rest) =
     (if b = 0x25 then
        (case rest of
           a # c # rest' \<Rightarrow>
             (case from_str_radix16 a c of
                None \<Rightarrow> None
              | Some v \<Rightarrow> map_option ((#) v) (percent_decode_session_bytes rest'))
         | _ \<Rightarrow> None)
      else map_option ((#) b) (percent_decode_session_bytes rest))"

definition percent_decode_session_id :: "string \<Rightarrow> string option" where
  "percent_decode_session_id segment = Option.bind (percent_decode_session_bytes (bytes_of segment)) from_utf8"

text \<open>An entry of the history root: its name, whether it is a directory, its age if readable.\<close>

definition collect_history_dirs :: "(bytes \<times> bool \<times> nat option) list \<Rightarrow> history_dir_info list" where
  "collect_history_dirs entries =
     List.map_filter (\<lambda>(file_name, is_dir, age).
       if \<not> is_dir then None
       else case Option.bind (from_utf8 file_name) percent_decode_session_id of
              None \<Rightarrow> None
            | Some sid \<Rightarrow> Some \<lparr>hd_session_id = sid, hd_age = unwrap_or 0 age\<rparr>) entries"

subsection \<open>Processes\<close>

record process_snapshot =
  ps_pid :: u32
  ps_ppid :: u32
  ps_command_line :: string

fun join_words :: "string list \<Rightarrow> string" where
  "join_words [] = []"
| "join_words [w] = w"
| "join_words (w # ws) = w @ '' '' @ join_words ws"

definition parse_process_line :: "string \<Rightarrow> process_snapshot option" where
  "parse_process_line line =
     (case split_whitespace (trim line) of
        p # q # command \<Rightarrow>
          (case (parse_u32 p, parse_u32 q) of
             (Some pid, Some ppid) \<Rightarrow>
               if join_words command = [] then None
               else Some \<lparr>ps_pid = pid, ps_ppid = ppid, ps_command_line = join_words command\<rparr>
           | _ \<Rightarrow> None)
      | _ \<Rightarrow> None)"

definition parse_process_snapshots :: "string \<Rightarrow> process_snapshot list" where
  "parse_process_snapshots out = List.map_filter parse_process_line (lines out)"

text \<open>The walk over the process tree; the head of the list is the top of the stack.\<close>

definition children_of :: "process_snapshot list \<Rightarrow> u32 \<Rightarrow> u32 list" where
  "children_of processes pid = map ps_pid (filter (\<lambda>p. ps_ppid p = pid) processes)"

function tree_walk :: "process_snapshot list \<Rightarrow> u32 list \<Rightarrow> u32 list \<Rightarrow> u32 list" where
  "tree_walk processes [] seen = seen"
| "tree_walk processes (pid # stack) seen =
     (if pid \<in> set seen then tree_walk processes stack seen
      else tree_walk processes (rev (children_of processes pid) @ stack) (pid # seen))"
  by pat_completeness auto
termination
proof (relation "measures [\<lambda>(ps, stack, seen). card (UNIV - set seen), \<lambda>(ps, stack, seen). length stack]")
  fix ps :: "process_snapshot list" and pid :: u32 and stack seen :: "u32 list"
  assume "pid \<notin> set seen"
  then have "card (UNIV - set (pid # seen)) < card (UNIV - set seen)"
    by (intro psubset_card_mono) auto
  then show "((ps, rev (children_of ps pid) @ stack, pid # seen), (ps, pid # stack, seen))
      \<in> measures [\<lambda>(ps, stack, seen). card (UNIV - set seen), \<lambda>(ps, stack, seen). length stack]"
    by simp
qed simp_all

text \<open>Each root pid has a stack of its own; a listing that fails gives no candidates.\<close>

definition collect_process_tree_candidates :: "process_snapshot list option \<Rightarrow> u32 list \<Rightarrow> u32 list" where
  "collect_process_tree_candidates listing root_pids =
     (case listing of
        None \<Rightarrow> []
      | Some processes \<Rightarrow> btree_set (foldl (\<lambda>seen root. tree_walk processes [root] seen) [] root_pids))"


subsection \<open>The collection\<close>

datatype kill_result = KillDone | NoSuchProcess | KillFailed

record gc_env =
  ge_sha :: "bytes \<Rightarrow> bytes"
  ge_exists :: "string \<Rightarrow> bool"
  ge_exists_later :: "string \<Rightarrow> bool"
  ge_terminal_layouts :: "(string \<times> json_value) list option"
  ge_panel_layouts :: "(string \<times> json_value) list option"
  ge_snapshot_worktrees :: "string list option"
  ge_terminal_layouts_later :: "(string \<times> json_value) list option"
  ge_panel_layouts_later :: "json_value option"
  ge_base_dir :: string
  ge_client :: bool
  ge_connected_clients :: "u64 option"
  ge_sessions :: "session_info list option"
  ge_remove_config :: "nat \<Rightarrow> string \<Rightarrow> bool"
  ge_kill :: "string \<Rightarrow> bool"
  ge_ps :: "nat \<Rightarrow> string option"
  ge_signal :: "u32 \<Rightarrow> string \<Rightarrow> kill_result"
  ge_runtime_dir :: bool
  ge_history :: "(bytes \<times> bool \<times> nat option) list option"

record terminal_gc_report =
  gr_stale_worktree_paths :: "string list"
  gr_stale_session_names :: "string list"
  gr_skipped_attached_worktree_paths :: "string list"
  gr_dead_reader_pty_ids :: "string list"
  gr_reaped_pty_ids :: "string list"
  gr_pruned_worktree_paths :: "string list"
  gr_killed_session_names :: "string list"
  gr_leftover_process_ids :: "u32 list"

definition no_report :: terminal_gc_report where
  "no_report = \<lparr>gr_stale_worktree_paths = [], gr_stale_session_names = [], gr_skipped_attached_worktree_paths = [],
     gr_dead_reader_pty_ids = [], gr_reaped_pty_ids = [], gr_pruned_worktree_paths = [],
     gr_killed_session_names = [], gr_leftover_process_ids = []\<rparr>"

text \<open>What a collection does to the world, in order.\<close>

record gc_state =
  gt_registry :: registry
  gt_unconfigured :: "(nat \<times> string) list"
  gt_kill_requests :: "string list"
  gt_signals :: "(u32 \<times> string) list"
  gt_removed_dirs :: "string list"

definition collect_referenced_worktree_paths :: "gc_env \<Rightarrow> string list option" where
  "collect_referenced_worktree_paths G =
     (case (ge_terminal_layouts G, ge_panel_layouts G, ge_snapshot_worktrees G) of
        (Some layouts, Some panels, Some snapshots) \<Rightarrow>
          Some (btree_set (map fst layouts @ filter (starts_with ''/'') (map fst panels) @ snapshots))
      | _ \<Rightarrow> None)"

definition collect_referenced_session_ids :: "gc_env \<Rightarrow> string list \<Rightarrow> string list" where
  "collect_referenced_session_ids G referenced_paths =
     (let existing = filter (ge_exists_later G) referenced_paths in
      (case ge_terminal_layouts_later G of
         None \<Rightarrow> []
       | Some layouts \<Rightarrow>
           concat (map (\<lambda>(w, layout). if w \<in> set existing then collect_layout_session_ids (ge_sha G) w layout else [])
             layouts))
      @ (case ge_panel_layouts_later G of
           None \<Rightarrow> []
         | Some panels \<Rightarrow> panel_layout_session_ids (ge_sha G) (ge_base_dir G) panels))"

text \<open>The three removals for a worktree; the first that fails ends the collection with its error.\<close>

fun prune_worktrees :: "gc_env \<Rightarrow> string list \<Rightarrow> string list \<Rightarrow> gc_state \<Rightarrow> (string list, unit) result \<times> gc_state" where
  "prune_worktrees G [] pruned st = (Ok pruned, st)"
| "prune_worktrees G (w # ws) pruned st =
     (let tried = (if \<not> ge_remove_config G 0 w then [0] else if \<not> ge_remove_config G 1 w then [0, 1] else [0, 1, 2]);
          st = st\<lparr>gt_unconfigured := gt_unconfigured st @ map (\<lambda>k. (k, w)) tried\<rparr>
      in if ge_remove_config G 0 w \<and> ge_remove_config G 1 w \<and> ge_remove_config G 2 w
         then prune_worktrees G ws (pruned @ [w]) st else (Err (), st))"

fun kill_sessions :: "gc_env \<Rightarrow> string list \<Rightarrow> string list \<Rightarrow> gc_state \<Rightarrow> string list \<times> gc_state" where
  "kill_sessions G [] killed st = (killed, st)"
| "kill_sessions G (name # names) killed st =
     (let st = st\<lparr>gt_kill_requests := gt_kill_requests st @ [name]\<rparr>
      in if ge_kill G name
         then kill_sessions G names (killed @ [name])
                (st\<lparr>gt_registry := drop_registry_entries_for_session name (gt_registry st)\<rparr>)
         else kill_sessions G names killed st)"

fun signal_processes :: "gc_env \<Rightarrow> string \<Rightarrow> u32 list \<Rightarrow> gc_state \<Rightarrow> bool \<times> gc_state" where
  "signal_processes G sig [] st = (True, st)"
| "signal_processes G sig (pid # pids) st =
     (let st = st\<lparr>gt_signals := gt_signals st @ [(pid, sig)]\<rparr>
      in if ge_signal G pid sig = KillFailed then (False, st) else signal_processes G sig pids st)"

definition list_processes :: "gc_env \<Rightarrow> nat \<Rightarrow> process_snapshot list option" where
  "list_processes G n = map_option parse_process_snapshots (ge_ps G n)"

definition live_among :: "process_snapshot list \<Rightarrow> u32 list \<Rightarrow> u32 list" where
  "live_among processes pids = filter (\<lambda>pid. pid \<in> ps_pid ` set processes) pids"

definition terminate_leftover_processes :: "gc_env \<Rightarrow> u32 list \<Rightarrow> gc_state \<Rightarrow> u32 list \<times> gc_state" where
  "terminate_leftover_processes G candidates st =
     (if candidates = [] then ([], st)
      else case list_processes G 1 of
        None \<Rightarrow> ([], st)
      | Some processes \<Rightarrow>
          let leftover = live_among processes candidates in
          if leftover = [] then (leftover, st)
          else case signal_processes G ''-TERM'' leftover st of
            (False, st) \<Rightarrow> (leftover, st)
          | (True, st) \<Rightarrow>
              (case list_processes G 2 of
                 None \<Rightarrow> (leftover, st)
               | Some processes \<Rightarrow>
                   let still_running = live_among processes leftover
                   in (leftover, if still_running \<noteq> [] then snd (signal_processes G ''-KILL'' still_running st) else st)))"

definition prune_daemon_history_dirs :: "gc_env \<Rightarrow> string list \<Rightarrow> string list \<Rightarrow> gc_state \<Rightarrow> gc_state" where
  "prune_daemon_history_dirs G known referenced_paths st =
     (if \<not> ge_runtime_dir G then st
      else case ge_history G of
        None \<Rightarrow> st
      | Some entries \<Rightarrow>
          let dirs = collect_history_dirs entries in
          if dirs = [] then st
          else
            let plan = plan_history_gc
                  \<lparr>hg_dirs = dirs, hg_daemon_session_ids = known,
                   hg_referenced_session_ids = collect_referenced_session_ids G referenced_paths,
                   hg_any_app_connected = False, hg_min_age = GC_MIN_AGE\<rparr>
            in st\<lparr>gt_removed_dirs := gt_removed_dirs st @ map percent_encode_session_id plan\<rparr>)"

definition run_terminal_gc_without_daemon ::
  "gc_env \<Rightarrow> string list \<Rightarrow> bool \<Rightarrow> gc_state \<Rightarrow> (terminal_gc_report, unit) result \<times> gc_state" where
  "run_terminal_gc_without_daemon G referenced_paths dry_run st =
     (let stale = gp_stale_worktree_paths (build_terminal_gc_plan (ge_exists G) referenced_paths []);
          report = no_report\<lparr>gr_stale_worktree_paths := stale\<rparr>
      in if dry_run then (Ok report, st)
         else case prune_worktrees G stale [] st of
           (Err e, st) \<Rightarrow> (Err e, st)
         | (Ok pruned, st) \<Rightarrow> (Ok (report\<lparr>gr_pruned_worktree_paths := pruned\<rparr>), st))"

text \<open>The part after the plans and the dry-run exit.\<close>

definition collect_garbage ::
  "gc_env \<Rightarrow> string list \<Rightarrow> session_info list \<Rightarrow> terminal_gc_plan \<Rightarrow> registry_reap_plan \<Rightarrow> terminal_gc_report
   \<Rightarrow> gc_state \<Rightarrow> (terminal_gc_report, unit) result \<times> gc_state" where
  "collect_garbage G referenced_paths sessions plan reap_plan report st =
     (let (reaped, reg) = reap_dead_registry_entries (rp_reap_candidates reap_plan) (gt_registry st);
          st = st\<lparr>gt_registry := reg\<rparr>; report = report\<lparr>gr_reaped_pty_ids := reaped\<rparr>;
          candidates = collect_process_tree_candidates (list_processes G 0) (gp_stale_session_pane_pids plan)
      in case prune_worktrees G (gp_stale_worktree_paths plan) [] st of
           (Err e, st) \<Rightarrow> (Err e, st)
         | (Ok pruned, st) \<Rightarrow>
             let (killed, st) = kill_sessions G (gp_stale_session_names plan) [] st;
                 (leftover, st) = terminate_leftover_processes G candidates st;
                 st = prune_daemon_history_dirs G (known_session_ids sessions) referenced_paths st
             in (Ok (report\<lparr>gr_pruned_worktree_paths := pruned, gr_killed_session_names := killed,
                           gr_leftover_process_ids := leftover\<rparr>), st))"

definition run_terminal_gc :: "gc_env \<Rightarrow> bool \<Rightarrow> gc_state \<Rightarrow> (terminal_gc_report, unit) result \<times> gc_state" where
  "run_terminal_gc G dry_run st =
     (case collect_referenced_worktree_paths G of
        None \<Rightarrow> (Err (), st)
      | Some referenced_paths \<Rightarrow>
          let snapshot = registry_snapshot (gt_registry st) in
          if \<not> ge_client G then run_terminal_gc_without_daemon G referenced_paths dry_run st
          else if (case ge_connected_clients G of Some count \<Rightarrow> 1 < count | None \<Rightarrow> False) then (Ok no_report, st)
          else case ge_sessions G of
            None \<Rightarrow> (Err (), st)
          | Some sessions \<Rightarrow>
              let infos = daemon_gc_session_infos (ge_sha G) sessions referenced_paths (map re_session_name snapshot);
                  plan = build_terminal_gc_plan (ge_exists G) referenced_paths infos;
                  reap_plan = build_registry_reap_plan snapshot (known_session_ids sessions);
                  report = no_report\<lparr>gr_stale_worktree_paths := gp_stale_worktree_paths plan,
                     gr_stale_session_names := gp_stale_session_names plan,
                     gr_skipped_attached_worktree_paths := gp_skipped_attached_worktree_paths plan,
                     gr_dead_reader_pty_ids := rp_dead_reader_pty_ids reap_plan\<rparr>
              in if dry_run
                 then (Ok (report\<lparr>gr_reaped_pty_ids := map fst (rp_reap_candidates reap_plan)\<rparr>), st)
                 else collect_garbage G referenced_paths sessions plan reap_plan report st)"

subsection \<open>Status deltas\<close>

record pty_bell_event =
  pb_pty_id :: string
  pb_bell :: bool
  pb_ai_status :: "string option"

definition bell_delta ::
  "string \<Rightarrow> bool \<Rightarrow> string option \<Rightarrow> string option \<Rightarrow> pty_bell_event option \<times> string option" where
  "bell_delta pty_id bell ai_status last_ai_status =
     (let ai_changed = ai_status \<noteq> last_ai_status
      in (if bell \<or> ai_changed then Some \<lparr>pb_pty_id = pty_id, pb_bell = bell, pb_ai_status = ai_status\<rparr> else None,
          if ai_changed then ai_status else last_ai_status))"

text \<open>One poll; \<open>rows\<close> is the daemon's reply, keyed by session.\<close>

fun poll_registry ::
  "(string \<times> bool \<times> string option) list \<Rightarrow> registry \<Rightarrow> pty_bell_event list \<times> registry" where
  "poll_registry rows [] = ([], [])"
| "poll_registry rows ((pty_id, p) # reg) =
     (let (bell, status) = unwrap_or (False, None) (map_of rows (pi_session_name p));
          (ev, last) = bell_delta pty_id bell status (pi_last_ai_status p);
          (evs, reg') = poll_registry rows reg
      in (case ev of Some e \<Rightarrow> e # evs | None \<Rightarrow> evs, (pty_id, p\<lparr>pi_last_ai_status := last\<rparr>) # reg'))"

definition poll_bell_events ::
  "(string \<times> bool \<times> string option) list option \<Rightarrow> registry \<Rightarrow> (pty_bell_event list, unit) result \<times> registry" where
  "poll_bell_events reply reg =
     (if reg = [] then (Ok [], reg)
      else case reply of
        None \<Rightarrow> (Err (), reg)
      | Some rows \<Rightarrow> (let (evs, reg) = poll_registry rows reg in (Ok evs, reg)))"


subsection \<open>The process tree\<close>

definition child_of :: "process_snapshot list \<Rightarrow> (u32 \<times> u32) set" where
  "child_of processes = (\<lambda>p. (ps_ppid p, ps_pid p)) ` set processes"

lemma children_of_image: "set (children_of processes pid) = child_of processes `` {pid}"
  by (auto simp: children_of_def child_of_def image_iff)

lemma tree_walk_closed:
  assumes "\<And>x. x \<in> set seen \<Longrightarrow> child_of ps `` {x} \<subseteq> set seen \<union> set stack"
  shows "set seen \<union> set stack \<subseteq> set (tree_walk ps stack seen)
    \<and> child_of ps `` set (tree_walk ps stack seen) \<subseteq> set (tree_walk ps stack seen)"
  using assms
proof (induction ps stack seen rule: tree_walk.induct)
  case (1 ps seen)
  then show ?case by auto
next
  case (2 ps pid stack seen)
  show ?case
  proof (cases "pid \<in> set seen")
    case True
    moreover have "set seen \<union> set (pid # stack) = set seen \<union> set stack" using True by auto
    ultimately show ?thesis using 2(1) [OF True] 2(3) by simp
  next
    case False
    have "child_of ps `` {x} \<subseteq> set (pid # seen) \<union> set (rev (children_of ps pid) @ stack)" if "x \<in> set (pid # seen)" for x
      using that 2(3) [of x] by (cases "x = pid") (auto simp: children_of_image)
    from 2(2) [OF False this] False show ?thesis by auto
  qed
qed

lemma tree_walk_within:
  "set (tree_walk ps stack seen) \<subseteq> set seen \<union> (child_of ps)\<^sup>* `` set stack"
proof (induction ps stack seen rule: tree_walk.induct)
  case (2 ps pid stack seen)
  show ?case
  proof (cases "pid \<in> set seen")
    case False
    have "(child_of ps)\<^sup>* `` set (children_of ps pid) \<subseteq> (child_of ps)\<^sup>* `` {pid}"
      by (auto simp: children_of_image intro: converse_rtrancl_into_rtrancl)
    with False 2(2) [OF False] show ?thesis by auto
  qed (use 2(1) in auto)
qed simp

declare tree_walk.simps [simp del]

lemma tree_walk_reaches:
  assumes "child_of ps `` set seen \<subseteq> set seen"
  shows "set (tree_walk ps [root] seen) = set seen \<union> (child_of ps)\<^sup>* `` {root}"
    and "child_of ps `` set (tree_walk ps [root] seen) \<subseteq> set (tree_walk ps [root] seen)"
proof -
  have c: "set seen \<union> {root} \<subseteq> set (tree_walk ps [root] seen)"
    "child_of ps `` set (tree_walk ps [root] seen) \<subseteq> set (tree_walk ps [root] seen)"
    using tree_walk_closed [of seen ps "[root]"] assms by auto
  from c(2) have "(child_of ps)\<^sup>* `` set (tree_walk ps [root] seen) \<subseteq> set (tree_walk ps [root] seen)"
    by (rule Image_closed_trancl [THEN equalityD1])
  with c(1) tree_walk_within [of ps "[root]" seen]
  show "set (tree_walk ps [root] seen) = set seen \<union> (child_of ps)\<^sup>* `` {root}" by auto
  show "child_of ps `` set (tree_walk ps [root] seen) \<subseteq> set (tree_walk ps [root] seen)" by (rule c(2))
qed

lemma tree_walks_reach:
  "child_of ps `` set seen \<subseteq> set seen \<Longrightarrow>
   set (foldl (\<lambda>seen root. tree_walk ps [root] seen) seen roots) = set seen \<union> (child_of ps)\<^sup>* `` set roots"
proof (induction roots arbitrary: seen)
  case (Cons r roots)
  show ?case
    using Cons.IH [OF tree_walk_reaches(2) [OF Cons.prems, of r]] tree_walk_reaches(1) [OF Cons.prems, of r] by auto
qed simp

lemma btree_set [simp]: "set (btree_set xs) = set xs" "sorted (btree_set xs)" "distinct (btree_set xs)"
  by (simp_all add: btree_set_def)

lemma candidates_set:
  "set (collect_process_tree_candidates (Some ps) roots) = (child_of ps)\<^sup>* `` set roots"
  using tree_walks_reach [of ps "[]" roots] by (simp add: collect_process_tree_candidates_def)

subsection \<open>What a collection may destroy\<close>

text \<open>
  \<open>doomed_session\<close>: the daemon lists the session, its name carries the prefix of a referenced worktree
  whose directory is gone, and no session of that worktree has a pane in this app. \<open>doomed_dir\<close>: the
  history directory of a session that the daemon does not know, no layout of an existing worktree
  names, and that was untouched for five minutes.
\<close>

definition attributed :: "gc_env \<Rightarrow> string list \<Rightarrow> string \<Rightarrow> string option" where
  "attributed G refs sid = find (\<lambda>path. starts_with (session_worktree_prefix (ge_sha G) path) sid) refs"

definition doomed :: "gc_env \<Rightarrow> registry \<Rightarrow> string list \<Rightarrow> session_info list \<Rightarrow> session_info \<Rightarrow> bool" where
  "doomed G reg refs sessions s \<longleftrightarrow> s \<in> set sessions \<and>
     (\<exists>w \<in> set refs. attributed G refs (si_session_id s) = Some w \<and> \<not> ge_exists G w
        \<and> (\<forall>s' \<in> set sessions. attributed G refs (si_session_id s') = Some w \<longrightarrow>
              si_session_id s' \<notin> pi_session_name ` snd ` set reg))"

definition may_collect :: "gc_env \<Rightarrow> bool \<Rightarrow> string list \<Rightarrow> session_info list \<Rightarrow> bool" where
  "may_collect G dry_run refs sessions \<longleftrightarrow>
     \<not> dry_run \<and> ge_client G \<and> (\<forall>n. ge_connected_clients G = Some n \<longrightarrow> n \<le> 1)
     \<and> collect_referenced_worktree_paths G = Some refs \<and> ge_sessions G = Some sessions"

lemma map_filter_set: "set (List.map_filter f xs) = {y. \<exists>x \<in> set xs. f x = Some y}"
  by (auto simp: List.map_filter_def image_iff split: option.splits) (metis option.sel)

lemma infos_set:
  "i \<in> set (daemon_gc_session_infos (ge_sha G) sessions refs att) \<longleftrightarrow>
     (\<exists>s \<in> set sessions. \<exists>w. attributed G refs (si_session_id s) = Some w
        \<and> i = \<lparr>gs_session_name = si_session_id s, gs_worktree_path = w,
               gs_attached = (si_session_id s \<in> set att), gs_pane_pid = si_pid s\<rparr>)"
  by (auto simp: daemon_gc_session_infos_def map_filter_set attributed_def split: option.splits)

lemma attributed_in: "attributed G refs sid = Some w \<Longrightarrow> w \<in> set refs"
  by (auto simp: attributed_def find_Some_iff)

lemma plan_doomed:
  fixes G :: gc_env and refs sessions reg
  defines "infos \<equiv> daemon_gc_session_infos (ge_sha G) sessions refs (map re_session_name (registry_snapshot reg))"
  defines "plan \<equiv> build_terminal_gc_plan (ge_exists G) refs infos"
  shows "name \<in> set (gp_stale_session_names plan) \<Longrightarrow> \<exists>s. doomed G reg refs sessions s \<and> name = si_session_id s"
    and "pid \<in> set (gp_stale_session_pane_pids plan) \<Longrightarrow> \<exists>s. doomed G reg refs sessions s \<and> si_pid s = Some pid"
proof -
  have names: "set (map re_session_name (registry_snapshot reg)) = pi_session_name ` snd ` set reg"
  proof -
    have "map re_session_name (registry_snapshot reg) = map (pi_session_name \<circ> snd) reg"
      by (auto simp: registry_snapshot_def)
    then show ?thesis by (simp add: image_comp)
  qed
  have stale: "\<exists>s. doomed G reg refs sessions s \<and> gs_session_name i = si_session_id s \<and> gs_pane_pid i = si_pid s"
    if i: "i \<in> set infos" and gone: "\<not> ge_exists G w" and w: "gs_worktree_path i = w"
      and none: "\<not> (\<exists>j \<in> set infos. gs_worktree_path j = w \<and> gs_attached j)" for i w
  proof -
    from i obtain s where s: "s \<in> set sessions" "attributed G refs (si_session_id s) = Some w"
      "gs_session_name i = si_session_id s" "gs_pane_pid i = si_pid s"
      using w unfolding infos_def infos_set by auto
    moreover have "si_session_id s' \<notin> pi_session_name ` snd ` set reg"
      if "s' \<in> set sessions" "attributed G refs (si_session_id s') = Some w" for s'
    proof
      assume "si_session_id s' \<in> pi_session_name ` snd ` set reg"
      then have "\<lparr>gs_session_name = si_session_id s', gs_worktree_path = w, gs_attached = True, gs_pane_pid = si_pid s'\<rparr>
          \<in> set infos"
        unfolding infos_def infos_set names
        by (intro bexI [OF _ that(1)] exI [of _ w]) (simp add: that(2))
      with none show False by (auto dest: bspec)
    qed
    ultimately have "doomed G reg refs sessions s"
      unfolding doomed_def using gone attributed_in [OF s(2)] by blast
    with s(3,4) show ?thesis by blast
  qed
  show "\<exists>s. doomed G reg refs sessions s \<and> name = si_session_id s" if "name \<in> set (gp_stale_session_names plan)"
  proof -
    from that obtain i where "i \<in> set infos" "\<not> ge_exists G (gs_worktree_path i)" "name = gs_session_name i"
      "\<not> (\<exists>j \<in> set infos. gs_worktree_path j = gs_worktree_path i \<and> gs_attached j)"
      by (auto simp: plan_def build_terminal_gc_plan_def Let_def)
    with stale [of i "gs_worktree_path i"] show ?thesis by metis
  qed
  show "\<exists>s. doomed G reg refs sessions s \<and> si_pid s = Some pid" if "pid \<in> set (gp_stale_session_pane_pids plan)"
  proof -
    from that obtain i where "i \<in> set infos" "\<not> ge_exists G (gs_worktree_path i)" "gs_pane_pid i = Some pid"
      "\<not> (\<exists>j \<in> set infos. gs_worktree_path j = gs_worktree_path i \<and> gs_attached j)"
      by (auto simp: plan_def build_terminal_gc_plan_def Let_def map_filter_set)
    with stale [of i "gs_worktree_path i"] show ?thesis by metis
  qed
qed


lemma prune_frame [simp]:
  "gt_kill_requests (snd (prune_worktrees G ws pruned st)) = gt_kill_requests st"
  "gt_signals (snd (prune_worktrees G ws pruned st)) = gt_signals st"
  "gt_removed_dirs (snd (prune_worktrees G ws pruned st)) = gt_removed_dirs st"
  "gt_registry (snd (prune_worktrees G ws pruned st)) = gt_registry st"
  by (induction G ws pruned st rule: prune_worktrees.induct) (auto simp: Let_def)

lemma kill_frame [simp]:
  "gt_kill_requests (snd (kill_sessions G names killed st)) = gt_kill_requests st @ names"
  "gt_signals (snd (kill_sessions G names killed st)) = gt_signals st"
  "gt_removed_dirs (snd (kill_sessions G names killed st)) = gt_removed_dirs st"
  by (induction G names killed st rule: kill_sessions.induct) (auto simp: Let_def)

lemma signal_frame [simp]:
  "gt_kill_requests (snd (signal_processes G sig pids st)) = gt_kill_requests st"
  "gt_removed_dirs (snd (signal_processes G sig pids st)) = gt_removed_dirs st"
  by (induction G sig pids st rule: signal_processes.induct) (auto simp: Let_def)

lemma signal_delta:
  "\<exists>sg. gt_signals (snd (signal_processes G sig pids st)) = gt_signals st @ sg \<and> fst ` set sg \<subseteq> set pids"
proof (induction G sig pids st rule: signal_processes.induct)
  case (2 G sig pid pids st)
  then show ?case
    by (cases "ge_signal G pid sig = KillFailed") (force simp: Let_def)+
qed simp

lemma live_among_set [simp]: "set (live_among ps pids) = set pids \<inter> ps_pid ` set ps"
  by (auto simp: live_among_def)

lemma terminate_frame [simp]:
  "gt_kill_requests (snd (terminate_leftover_processes G cs st)) = gt_kill_requests st"
  "gt_removed_dirs (snd (terminate_leftover_processes G cs st)) = gt_removed_dirs st"
  by (auto simp: terminate_leftover_processes_def Let_def split: option.splits bool.splits prod.splits)
    (metis signal_frame snd_conv)+

lemma terminate_delta:
  "\<exists>sg. gt_signals (snd (terminate_leftover_processes G cs st)) = gt_signals st @ sg
     \<and> (\<forall>pid \<in> fst ` set sg. pid \<in> set cs
          \<and> (\<exists>ps. list_processes G 1 = Some ps \<and> pid \<in> ps_pid ` set ps))"
proof (cases "list_processes G 1")
  case (Some ps)
  let ?left = "live_among ps cs"
  obtain ok st1 where s1: "signal_processes G ''-TERM'' ?left st = (ok, st1)" by force
  obtain g1 where g1: "gt_signals st1 = gt_signals st @ g1" "fst ` set g1 \<subseteq> set ?left"
    using signal_delta [of G "''-TERM''" ?left st] s1 by auto
  have "\<exists>g2. gt_signals (snd (terminate_leftover_processes G cs st)) = gt_signals st @ g2 \<and> fst ` set g2 \<subseteq> set ?left"
  proof (cases "cs = [] \<or> ?left = [] \<or> \<not> ok \<or> list_processes G 2 = None")
    case True
    then show ?thesis using g1 s1 Some by (auto simp: terminate_leftover_processes_def Let_def split: bool.splits)
  next
    case False
    then obtain ps2 where ps2: "list_processes G 2 = Some ps2" by auto
    obtain g2 where "gt_signals (snd (signal_processes G ''-KILL'' (live_among ps2 ?left) st1)) = gt_signals st1 @ g2"
      "fst ` set g2 \<subseteq> set (live_among ps2 ?left)"
      using signal_delta by blast
    then show ?thesis using False Some g1 s1 ps2
      by (cases "live_among ps2 ?left = []")
         (auto simp: terminate_leftover_processes_def Let_def image_Un intro: exI [of _ "g1 @ g2"])
  qed
  then obtain g2 where g2: "gt_signals (snd (terminate_leftover_processes G cs st)) = gt_signals st @ g2"
    "fst ` set g2 \<subseteq> set ?left" by blast
  show ?thesis
    by (intro exI [of _ g2] conjI ballI) (use g2 Some in \<open>auto dest: subsetD\<close>)
qed (simp add: terminate_leftover_processes_def)


definition doomed_dir :: "gc_env \<Rightarrow> string list \<Rightarrow> session_info list \<Rightarrow> string \<Rightarrow> bool" where
  "doomed_dir G refs sessions sid \<longleftrightarrow>
     sid \<notin> si_session_id ` set sessions \<and> sid \<notin> set (collect_referenced_session_ids G refs)
     \<and> (\<exists>entries d. ge_history G = Some entries \<and> d \<in> set (collect_history_dirs entries)
           \<and> hd_session_id d = sid \<and> GC_MIN_AGE \<le> hd_age d)"

definition doomed_process :: "gc_env \<Rightarrow> registry \<Rightarrow> string list \<Rightarrow> session_info list \<Rightarrow> u32 \<Rightarrow> bool" where
  "doomed_process G reg refs sessions pid \<longleftrightarrow>
     (\<exists>s pane before. doomed G reg refs sessions s \<and> si_pid s = Some pane
        \<and> list_processes G 0 = Some before \<and> (pane, pid) \<in> (child_of before)\<^sup>*
        \<and> (\<exists>now. list_processes G 1 = Some now \<and> pid \<in> ps_pid ` set now))"

lemma prune_dirs_frame [simp]:
  "gt_kill_requests (prune_daemon_history_dirs G known refs st) = gt_kill_requests st"
  "gt_signals (prune_daemon_history_dirs G known refs st) = gt_signals st"
  by (auto simp: prune_daemon_history_dirs_def Let_def split: option.splits)

lemma prune_dirs_delta:
  "\<exists>ds. gt_removed_dirs (prune_daemon_history_dirs G (known_session_ids sessions) refs st) = gt_removed_dirs st @ ds
     \<and> set ds \<subseteq> percent_encode_session_id ` Collect (doomed_dir G refs sessions)"
proof (cases "ge_history G")
  case (Some entries)
  show ?thesis
  proof (cases "ge_runtime_dir G \<and> collect_history_dirs entries \<noteq> []")
    case True
    with Some show ?thesis
      by (auto simp: prune_daemon_history_dirs_def Let_def plan_history_gc_def doomed_dir_def known_session_ids_def
          intro!: imageI)
  qed (auto simp: prune_daemon_history_dirs_def Let_def Some)
qed (simp add: prune_daemon_history_dirs_def)

lemma collect_garbage_delta:
  fixes G :: gc_env and refs sessions reg
  defines "infos \<equiv> daemon_gc_session_infos (ge_sha G) sessions refs (map re_session_name (registry_snapshot reg))"
  defines "plan \<equiv> build_terminal_gc_plan (ge_exists G) refs infos"
  shows "\<exists>ks sg ds.
     gt_kill_requests (snd (collect_garbage G refs sessions plan rp report st)) = gt_kill_requests st @ ks
   \<and> gt_signals (snd (collect_garbage G refs sessions plan rp report st)) = gt_signals st @ sg
   \<and> gt_removed_dirs (snd (collect_garbage G refs sessions plan rp report st)) = gt_removed_dirs st @ ds
   \<and> set ks \<subseteq> si_session_id ` Collect (doomed G reg refs sessions)
   \<and> fst ` set sg \<subseteq> Collect (doomed_process G reg refs sessions)
   \<and> set ds \<subseteq> percent_encode_session_id ` Collect (doomed_dir G refs sessions)"
proof -
  obtain reaped reg' where reap: "reap_dead_registry_entries (rp_reap_candidates rp) (gt_registry st) = (reaped, reg')"
    by force
  let ?st0 = "st\<lparr>gt_registry := reg'\<rparr>"
  let ?cs = "collect_process_tree_candidates (list_processes G 0) (gp_stale_session_pane_pids plan)"
  obtain r st1 where pr: "prune_worktrees G (gp_stale_worktree_paths plan) [] ?st0 = (r, st1)" by force
  have st1: "gt_kill_requests st1 = gt_kill_requests st" "gt_signals st1 = gt_signals st"
    "gt_removed_dirs st1 = gt_removed_dirs st"
    using prune_frame(1-3) [of G "gp_stale_worktree_paths plan" "[]" ?st0] pr by simp_all
  show ?thesis
  proof (cases r)
    case (Err e)
    then show ?thesis using st1 by (simp add: collect_garbage_def reap pr)
  next
    case (Ok pruned)
    let ?st2 = "snd (kill_sessions G (gp_stale_session_names plan) [] st1)"
    let ?st3 = "snd (terminate_leftover_processes G ?cs ?st2)"
    have eq: "snd (collect_garbage G refs sessions plan rp report st)
        = prune_daemon_history_dirs G (known_session_ids sessions) refs ?st3"
      by (simp add: collect_garbage_def reap pr Ok case_prod_unfold Let_def)
    obtain sg where sg: "gt_signals ?st3 = gt_signals ?st2 @ sg" and pids: "\<forall>pid \<in> fst ` set sg. pid \<in> set ?cs
          \<and> (\<exists>ps. list_processes G 1 = Some ps \<and> pid \<in> ps_pid ` set ps)"
      using terminate_delta by blast
    have "fst ` set sg \<subseteq> Collect (doomed_process G reg refs sessions)"
    proof
      fix pid assume pid: "pid \<in> fst ` set sg"
      with pids have c: "pid \<in> set ?cs" and now: "\<exists>ps. list_processes G 1 = Some ps \<and> pid \<in> ps_pid ` set ps"
        by auto
      obtain before where b: "list_processes G 0 = Some before"
        using c by (cases "list_processes G 0") (auto simp: collect_process_tree_candidates_def)
      with c obtain pane where "pane \<in> set (gp_stale_session_pane_pids plan)" "(pane, pid) \<in> (child_of before)\<^sup>*"
        by (auto simp: candidates_set)
      with plan_doomed(2) [of pane G refs sessions reg] b now
      show "pid \<in> Collect (doomed_process G reg refs sessions)"
        unfolding doomed_process_def plan_def infos_def by blast
    qed
    moreover have "set (gp_stale_session_names plan) \<subseteq> si_session_id ` Collect (doomed G reg refs sessions)"
      using plan_doomed(1) [of _ G refs sessions reg] unfolding plan_def infos_def by blast
    moreover obtain ds where "gt_removed_dirs (prune_daemon_history_dirs G (known_session_ids sessions) refs ?st3)
        = gt_removed_dirs ?st3 @ ds" "set ds \<subseteq> percent_encode_session_id ` Collect (doomed_dir G refs sessions)"
      using prune_dirs_delta by blast
    ultimately show ?thesis unfolding eq using sg st1
      by (intro exI [of _ "gp_stale_session_names plan"] exI [of _ sg] exI [of _ ds]) simp
  qed
qed



text \<open>
  The leftover candidates are exactly the descendants. For every listing of the processes, even
  one in which parent links form cycles, the walk with the stack and the set of seen pids ends and
  collects the pids that some stale shell reaches through parent links, each once and in ascending order;
  when the listing could not be read there are none.
\<close>

theorem process_tree_is_the_closure:
  "set (collect_process_tree_candidates (Some ps) roots)
       = {pid. \<exists>root \<in> set roots. (root, pid) \<in> ((\<lambda>p. (ps_ppid p, ps_pid p)) ` set ps)\<^sup>*}
   \<and> sorted (collect_process_tree_candidates (Some ps) roots)
   \<and> distinct (collect_process_tree_candidates (Some ps) roots)
   \<and> collect_process_tree_candidates None roots = []"
  unfolding candidates_set by (auto simp: child_of_def collect_process_tree_candidates_def)

subsection \<open>The status the renderer shows\<close>

definition renderer :: "(string \<Rightarrow> string option) \<Rightarrow> pty_bell_event list \<Rightarrow> string \<Rightarrow> string option" where
  "renderer view evs = foldl (\<lambda>v e. v(pb_pty_id e := pb_ai_status e)) view evs"

definition reported :: "(string \<times> bool \<times> string option) list \<Rightarrow> pty_instance \<Rightarrow> bool \<times> string option" where
  "reported rows p = unwrap_or (False, None) (map_of rows (pi_session_name p))"

lemma bell_delta_cases [simp]:
  "snd (bell_delta i bell status old) = status"
  "fst (bell_delta i bell status old) =
     (if bell \<or> status \<noteq> old then Some \<lparr>pb_pty_id = i, pb_bell = bell, pb_ai_status = status\<rparr> else None)"
  by (simp_all add: bell_delta_def Let_def)

lemma poll_registry_result:
  "poll_registry rows reg =
     (List.map_filter (\<lambda>(i, p). fst (bell_delta i (fst (reported rows p)) (snd (reported rows p)) (pi_last_ai_status p))) reg,
      map (\<lambda>(i, p). (i, p\<lparr>pi_last_ai_status := snd (reported rows p)\<rparr>)) reg)"
proof (induction reg)
  case (Cons a reg)
  obtain j q where a: "a = (j, q)" by force
  show ?case by (simp add: a Cons.IH case_prod_unfold Let_def reported_def List.map_filter_def)
qed (simp add: List.map_filter_def)

lemma map_filter_if:
  "set (List.map_filter (\<lambda>(i, p). if Q i p then Some (f i p) else None) xs) = {f i p | i p. (i, p) \<in> set xs \<and> Q i p}"
proof (intro set_eqI iffI)
  fix y assume "y \<in> {f i p | i p. (i, p) \<in> set xs \<and> Q i p}"
  then obtain i p where "y = f i p" "(i, p) \<in> set xs" "Q i p" by blast
  then show "y \<in> set (List.map_filter (\<lambda>(i, p). if Q i p then Some (f i p) else None) xs)"
    unfolding map_filter_set by (auto intro!: bexI [of _ "(i, p)"])
qed (auto simp: map_filter_set split: if_splits, blast?)

lemma poll_events:
  "set (fst (poll_registry rows reg)) =
     {\<lparr>pb_pty_id = i, pb_bell = fst (reported rows p), pb_ai_status = snd (reported rows p)\<rparr> | i p.
        (i, p) \<in> set reg \<and> (fst (reported rows p) \<or> snd (reported rows p) \<noteq> pi_last_ai_status p)}"
  unfolding poll_registry_result fst_conv bell_delta_cases map_filter_if by blast

lemma renderer_other: "i \<notin> pb_pty_id ` set evs \<Longrightarrow> renderer view evs i = view i"
  by (induction evs arbitrary: view) (auto simp: renderer_def)

lemma renderer_poll:
  assumes "distinct (map fst reg)" "\<forall>(i, p) \<in> set reg. view i = pi_last_ai_status p" "(i, p) \<in> set reg"
  shows "renderer view (fst (poll_registry rows reg)) i = snd (reported rows p)"
  using assms
proof (induction reg arbitrary: view)
  case (Cons a reg)
  obtain j q where a: "a = (j, q)" by force
  let ?ev = "fst (bell_delta j (fst (reported rows q)) (snd (reported rows q)) (pi_last_ai_status q))"
  let ?v = "renderer view (case ?ev of None \<Rightarrow> [] | Some e \<Rightarrow> [e])"
  have head: "?v = view(j := snd (reported rows q))"
    using Cons.prems(2) by (auto simp: renderer_def a fun_eq_iff)
  have run: "renderer view (fst (poll_registry rows (a # reg))) = renderer ?v (fst (poll_registry rows reg))"
    by (auto simp: poll_registry_result a List.map_filter_def renderer_def split: option.splits)
  have rest: "\<forall>(k, p) \<in> set reg. ?v k = pi_last_ai_status p"
  proof clarify
    fix k r assume kr: "(k, r) \<in> set reg"
    moreover have "k \<noteq> j" using Cons.prems(1) kr by (force simp: a)
    ultimately show "?v k = pi_last_ai_status r" using Cons.prems(2) unfolding head by auto
  qed
  show ?case
  proof (cases "(i, p) \<in> set reg")
    case True
    with Cons.IH [of ?v] Cons.prems(1) rest show ?thesis unfolding run by simp
  next
    case False
    with Cons.prems(3) have ip: "i = j" "p = q" by (auto simp: a)
    have "i \<notin> pb_pty_id ` set (fst (poll_registry rows reg))"
      using Cons.prems(1) by (force simp: poll_events ip a)
    then show ?thesis unfolding run head by (simp add: renderer_other ip)
  qed
qed simp


definition sample_pane :: "string \<Rightarrow> string option \<Rightarrow> pty_instance" where
  "sample_pane name status =
     \<lparr>pi_session_name = name, pi_worktree_path = ''/w'', pi_reader_exited = False, pi_last_ai_status = status\<rparr>"


end
