(* ===== verification/Launcher.thy ===== *)
theory Launcher
  imports TerminalGc GitProject Protocol
begin

text \<open>
  \<open>grove-agent\<close>: the launcher that finds the real agent and becomes it, the plan of its arguments and the relay of
  hook events; and what \<open>grove-core/src/tool_hooks.rs\<close> installs for it.

  A process sees an environment, a file system and its own executable. \<open>serde_json\<close> is a parameter.
\<close>

subsection \<open>The process\<close>

text \<open>\<open>lp_head\<close> is what the one read of at most 4096 bytes of a file gives, \<open>None\<close> if it can not be opened or read;
  \<open>lp_text\<close> is \<open>read_to_string\<close>.\<close>

record launch_process =
  lp_env :: "string \<Rightarrow> string option"
  lp_home :: "string option"
  lp_current_exe :: "string option"
  lp_canonical :: "string \<Rightarrow> string option"
  lp_executable :: "string \<Rightarrow> bool"
  lp_is_file :: "string \<Rightarrow> bool"
  lp_head :: "string \<Rightarrow> bytes option"
  lp_text :: "string \<Rightarrow> string option"
  lp_parse :: "string \<Rightarrow> json_value option"
  lp_render :: "json_value \<Rightarrow> string"

definition WRAPPER_MARKER :: string where "WRAPPER_MARKER = ''GROVE_AGENT_WRAPPER''"
definition SKIP_ENV :: string where "SKIP_ENV = ''GROVE_AGENT_SKIP''"
definition DEPTH_ENV :: string where "DEPTH_ENV = ''GROVE_AGENT_DEPTH''"
definition BIN_DIR_ENV :: string where "BIN_DIR_ENV = ''GROVE_BIN_DIR''"
definition DEPTH_CAP :: u32 where "DEPTH_CAP = 8"

text \<open>\<open>split_paths\<close> and \<open>join_paths\<close>: a path with a colon can not be joined.\<close>

definition split_paths :: "string \<Rightarrow> string list" where
  "split_paths s = split_char (CHR '':'') s"

fun join_colon :: "string list \<Rightarrow> string" where
  "join_colon [] = []"
| "join_colon [s] = s"
| "join_colon (s # ss) = s @ CHR '':'' # join_colon ss"

definition join_paths :: "string list \<Rightarrow> string option" where
  "join_paths ps = (if list_ex (\<lambda>p. CHR '':'' \<in> set p) ps then None else Some (join_colon ps))"

subsection \<open>Resolving\<close>

record resolve_ctx =
  rc_path :: "string list"
  rc_grove_bin :: "string option"
  rc_self_dir :: "string option"
  rc_self_exe :: "string option"
  rc_skip :: "string list"
  rc_depth :: u32

definition grove_bin_dir :: "launch_process \<Rightarrow> string option" where
  "grove_bin_dir P =
     (case lp_env P BIN_DIR_ENV of
        Some d \<Rightarrow> if d \<noteq> [] then Some d
                  else map_option (\<lambda>h. path_join (path_join h ''.grove'') ''bin'') (lp_home P)
      | None \<Rightarrow> map_option (\<lambda>h. path_join (path_join h ''.grove'') ''bin'') (lp_home P))"

definition from_env :: "launch_process \<Rightarrow> resolve_ctx" where
  "from_env P =
     (let self_exe = Option.bind (lp_current_exe P) (lp_canonical P)
      in \<lparr>rc_path = (case lp_env P ''PATH'' of Some s \<Rightarrow> split_paths s | None \<Rightarrow> []),
          rc_grove_bin = Option.bind (grove_bin_dir P) (lp_canonical P),
          rc_self_dir = Option.bind self_exe path_parent,
          rc_self_exe = self_exe,
          rc_skip = (case lp_env P SKIP_ENV of Some s \<Rightarrow> split_paths s | None \<Rightarrow> []),
          rc_depth = unwrap_or 0 (Option.bind (lp_env P DEPTH_ENV) parse_u32)\<rparr>)"

definition is_grove_wrapper :: "launch_process \<Rightarrow> string \<Rightarrow> bool" where
  "is_grove_wrapper P path \<longleftrightarrow>
     (case lp_head P path of None \<Rightarrow> False | Some bs \<Rightarrow> contains_str WRAPPER_MARKER (from_utf8_lossy bs))"

text \<open>One directory of the search: the candidate it offers.\<close>

definition candidate_in :: "launch_process \<Rightarrow> string \<Rightarrow> resolve_ctx \<Rightarrow> string \<Rightarrow> string option" where
  "candidate_in P tool ctx dir =
     (let canon_dir = lp_canonical P dir; c = path_join dir tool; canon = lp_canonical P c
      in if canon_dir \<noteq> None \<and> (canon_dir = rc_grove_bin ctx \<or> canon_dir = rc_self_dir ctx) then None
         else if \<not> lp_executable P c then None
         else if canon \<noteq> None \<and> canon = rc_self_exe ctx then None
         else if canon \<noteq> None \<and> rc_depth ctx < DEPTH_CAP \<and> the canon \<in> set (rc_skip ctx) then None
         else if is_grove_wrapper P c then None
         else Some c)"

fun find_in_dirs :: "launch_process \<Rightarrow> string \<Rightarrow> resolve_ctx \<Rightarrow> string list \<Rightarrow> string option" where
  "find_in_dirs P tool ctx [] = None"
| "find_in_dirs P tool ctx (dir # dirs) =
     (case candidate_in P tool ctx dir of Some c \<Rightarrow> Some c | None \<Rightarrow> find_in_dirs P tool ctx dirs)"

definition find_real_binary :: "launch_process \<Rightarrow> string \<Rightarrow> resolve_ctx \<Rightarrow> string option" where
  "find_real_binary P tool ctx = find_in_dirs P tool ctx (rc_path ctx)"

definition child_path :: "launch_process \<Rightarrow> resolve_ctx \<Rightarrow> string option" where
  "child_path P ctx =
     (if rc_depth ctx < DEPTH_CAP then None
      else join_paths (filter (\<lambda>dir. lp_canonical P dir \<noteq> rc_grove_bin ctx) (rc_path ctx)))"

definition child_skip :: "launch_process \<Rightarrow> resolve_ctx \<Rightarrow> string \<Rightarrow> string option" where
  "child_skip P ctx chosen =
     join_paths (case lp_canonical P chosen of
        Some canon \<Rightarrow> if canon \<in> set (rc_skip ctx) then rc_skip ctx else rc_skip ctx @ [canon]
      | None \<Rightarrow> rc_skip ctx)"

subsection \<open>What the hooks say\<close>

definition HOOK_EVENTS :: "string list" where
  "HOOK_EVENTS = [''SessionStart'', ''UserPromptSubmit'', ''PreToolUse'', ''PermissionRequest'', ''PostToolUse'', ''Stop'']"

definition HOOK_TIMEOUT_SECS :: int where "HOOK_TIMEOUT_SECS = 5"

text \<open>\<open>str::replace\<close> of one character.\<close>

definition replace_char :: "char \<Rightarrow> string \<Rightarrow> string \<Rightarrow> string" where
  "replace_char c r s = concat (map (\<lambda>x. if x = c then r else [x]) s)"

definition backslash :: char where "backslash = CHR 0x5C"

definition hook_command :: "string \<Rightarrow> string" where
  "hook_command agent_bin =
     quote_char # replace_char quote_char [quote_char, backslash, quote_char, quote_char] agent_bin @ quote_char # '' event''"

definition hook_group :: "string \<Rightarrow> json_value" where
  "hook_group command =
     JArray [JObject
       [(''matcher'', JString []),
        (''hooks'', JArray [JObject [(''type'', JString ''command''), (''command'', JString command),
                                     (''timeout'', JNumber HOOK_TIMEOUT_SECS)]])]]"

definition claude_hook_groups :: "string \<Rightarrow> (string \<times> json_value) list" where
  "claude_hook_groups agent_bin = map (\<lambda>e. (e, hook_group (hook_command agent_bin))) HOOK_EVENTS"

definition toml_escape :: "string \<Rightarrow> string" where
  "toml_escape s = replace_char dquote_char [backslash, dquote_char] (replace_char backslash [backslash, backslash] s)"

definition codex_hook_config_args :: "string \<Rightarrow> string list" where
  "codex_hook_config_args agent_bin =
     concat (map (\<lambda>e. [''-c'', ''hooks.'' @ e @ ''=[{hooks=[{type='' @ [dquote_char] @ ''command'' @ [dquote_char]
       @ '',command='' @ [dquote_char] @ toml_escape (hook_command agent_bin) @ [dquote_char] @ '',timeout=5}]}]'']) HOOK_EVENTS)"

subsection \<open>Planning the arguments\<close>

datatype settings_slot = SpaceSlot nat | EqSlot nat

definition slot_step :: "string list \<Rightarrow> settings_slot option \<Rightarrow> nat \<Rightarrow> settings_slot option" where
  "slot_step args found i =
     (if args ! i = ''--settings'' \<and> i + 1 < length args then Some (SpaceSlot i)
      else if starts_with ''--settings='' (args ! i) then Some (EqSlot i) else found)"

definition last_settings_slot :: "string list \<Rightarrow> settings_slot option" where
  "last_settings_slot args = foldl (slot_step args) None [0..<length args]"

definition trim_start :: "string \<Rightarrow> string" where
  "trim_start s = chars_of (drop_any white_space (bytes_of s))"

definition load_settings :: "launch_process \<Rightarrow> string \<Rightarrow> (string \<times> json_value) list option" where
  "load_settings P raw =
     (case (if starts_with ''{'' (trim_start raw) then Some raw else lp_text P raw) of
        None \<Rightarrow> None
      | Some text \<Rightarrow> (case lp_parse P text of Some (JObject kvs) \<Rightarrow> Some kvs | _ \<Rightarrow> None))"

definition merge_event :: "(string \<times> json_value) list \<Rightarrow> string \<times> json_value \<Rightarrow> (string \<times> json_value) list" where
  "merge_event hooks g =
     (let user = (case map_of hooks (fst g) of Some (JArray gs) \<Rightarrow> gs | _ \<Rightarrow> []);
          grove = (case snd g of JArray gs \<Rightarrow> gs | _ \<Rightarrow> [])
      in AList.update (fst g) (JArray (user @ grove)) hooks)"

definition merge_hook_groups ::
  "(string \<times> json_value) list \<Rightarrow> (string \<times> json_value) list \<Rightarrow> (string \<times> json_value) list" where
  "merge_hook_groups base groups =
     (let hooks = (case map_of base ''hooks'' of Some (JObject kvs) \<Rightarrow> kvs | _ \<Rightarrow> [])
      in AList.update ''hooks'' (JObject (foldl merge_event hooks groups)) base)"

definition slot_value :: "string list \<Rightarrow> settings_slot \<Rightarrow> string" where
  "slot_value args s =
     (case s of SpaceSlot i \<Rightarrow> args ! (i + 1) | EqSlot i \<Rightarrow> drop (length ''--settings='') (args ! i))"

definition set_slot_value :: "string list \<Rightarrow> settings_slot \<Rightarrow> string \<Rightarrow> string list" where
  "set_slot_value args s v =
     (case s of SpaceSlot i \<Rightarrow> args[i + 1 := v] | EqSlot i \<Rightarrow> args[i := ''--settings='' @ v])"

definition plan_claude_settings :: "launch_process \<Rightarrow> string list \<Rightarrow> (string \<times> json_value) list \<Rightarrow> string list" where
  "plan_claude_settings P user_args groups =
     (case last_settings_slot user_args of
        None \<Rightarrow> [''--settings'', lp_render P (JObject [(''hooks'', JObject groups)])] @ user_args
      | Some s \<Rightarrow>
          (case load_settings P (slot_value user_args s) of
             None \<Rightarrow> user_args
           | Some base \<Rightarrow> set_slot_value user_args s (lp_render P (JObject (merge_hook_groups base groups)))))"

definition plan_argv :: "launch_process \<Rightarrow> string \<Rightarrow> string list \<Rightarrow> string \<Rightarrow> string option \<Rightarrow> string list" where
  "plan_argv P tool user_args agent_bin claude_plugin =
     (if tool = ''claude'' then
        (case claude_plugin of
           Some dir \<Rightarrow> [''--plugin-dir'', dir] @ user_args
         | None \<Rightarrow> plan_claude_settings P user_args (claude_hook_groups agent_bin))
      else if tool = ''codex'' then codex_hook_config_args agent_bin @ user_args
      else user_args)"

subsection \<open>Launching\<close>

definition claude_plugin_dir :: "launch_process \<Rightarrow> string option" where
  "claude_plugin_dir P =
     map_option (\<lambda>h. path_join (path_join (path_join h ''.grove'') ''plugins'') ''grove-status'') (lp_home P)"

definition claude_plugin_is_installed :: "launch_process \<Rightarrow> bool" where
  "claude_plugin_is_installed P \<longleftrightarrow>
     (case claude_plugin_dir P of
        Some d \<Rightarrow> lp_is_file P (path_join (path_join d ''.claude-plugin'') ''plugin.json'') | None \<Rightarrow> False)"

definition agent_bin_path :: "launch_process \<Rightarrow> string" where
  "agent_bin_path P = (case grove_bin_dir P of Some d \<Rightarrow> path_join d ''grove-agent'' | None \<Rightarrow> ''grove-agent'')"

definition user_args_of :: "string list \<Rightarrow> string list" where
  "user_args_of rest = (if ''--'' \<in> set rest then tl (dropWhile (\<lambda>a. a \<noteq> ''--'') rest) else rest)"

text \<open>A NUL ends a C string.\<close>

definition cstring :: "string \<Rightarrow> string" where
  "cstring s = takeWhile (\<lambda>c. c \<noteq> CHR 0x00) s"

text \<open>The claim asks the daemon when the three variables of the pane are set.\<close>

definition claim_wanted :: "launch_process \<Rightarrow> bool" where
  "claim_wanted P \<longleftrightarrow>
     lp_env P ''GROVE_DAEMON_SOCK'' \<noteq> None \<and> lp_env P ''GROVE_SESSION_KEY'' \<noteq> None \<and> lp_env P ''GROVE_SESSION_ID'' \<noteq> None"

definition set_opt :: "string \<Rightarrow> string option \<Rightarrow> (string \<Rightarrow> string option) \<Rightarrow> string \<Rightarrow> string option" where
  "set_opt k v env = (case v of None \<Rightarrow> env | Some s \<Rightarrow> env(k \<mapsto> s))"

definition child_env ::
  "launch_process \<Rightarrow> resolve_ctx \<Rightarrow> string \<Rightarrow> string option \<Rightarrow> string \<Rightarrow> string option" where
  "child_env P ctx real claim_id =
     set_opt ''PATH'' (child_path P ctx)
       (set_opt SKIP_ENV (child_skip P ctx real)
         ((set_opt ''GROVE_CLAIM_ID'' claim_id (lp_env P))
            (DEPTH_ENV \<mapsto> chars_of (dec_digits (unat (rc_depth ctx + 1))))))"

text \<open>How a launch ends: an exit code, or the program, its arguments and its environment. \<open>claim\<close> is the id the daemon
  answers within the budget. The depth wraps, as in a release build.\<close>

datatype launch_end =
  Exit nat | Become string "string list" "string \<Rightarrow> string option"

definition launch :: "launch_process \<Rightarrow> string option \<Rightarrow> string list \<Rightarrow> launch_end" where
  "launch P claim args =
     (case args of
        [] \<Rightarrow> Exit 2
      | tool # rest \<Rightarrow>
          (let ctx = from_env P in
           case find_real_binary P tool ctx of
             None \<Rightarrow> Exit 127
           | Some real \<Rightarrow>
               (let plugin = (if claude_plugin_is_installed P then claude_plugin_dir P else None);
                    argv = plan_argv P tool (user_args_of rest) (agent_bin_path P) plugin;
                    claim_id = (if claim_wanted P then claim else None)
                in Become (cstring real) (map cstring (tool # argv)) (child_env P ctx real claim_id))))"

subsection \<open>The relay of events\<close>

definition parse_hook_event :: "(string \<Rightarrow> json_value option) \<Rightarrow> string \<Rightarrow> (string \<times> string option) option" where
  "parse_hook_event parse raw =
     (case parse raw of
        None \<Rightarrow> None
      | Some payload \<Rightarrow>
          (case Option.bind (js_field ''hook_event_name'' payload) as_str of
             None \<Rightarrow> None
           | Some e \<Rightarrow> Some (e, Option.bind (js_field ''tool_name'' payload) as_str)))"

text \<open>At most a mebibyte of stdin is read; \<open>None\<close> is a read that fails. What is cut there may end inside a character,
  and then it is no text.\<close>

definition MAX_STDIN :: nat where "MAX_STDIN = 1048576"

definition read_hook_event :: "launch_process \<Rightarrow> bytes option \<Rightarrow> (string \<times> string option) option" where
  "read_hook_event P stdin =
     Option.bind stdin (\<lambda>bs. Option.bind (from_utf8 (List.take MAX_STDIN bs)) (parse_hook_event (lp_parse P)))"

text \<open>The socket, the key, and the parameters of the one call.\<close>

definition relay :: "launch_process \<Rightarrow> bytes option \<Rightarrow> u64 \<Rightarrow> (string \<times> string \<times> agent_event_params) option" where
  "relay P stdin at_ns =
     (case read_hook_event P stdin of
        None \<Rightarrow> None
      | Some (e, tool_name) \<Rightarrow>
          (case (lp_env P ''GROVE_DAEMON_SOCK'', lp_env P ''GROVE_SESSION_KEY'', lp_env P ''GROVE_SESSION_ID'',
                 lp_env P ''GROVE_CLAIM_ID'') of
             (Some socket, Some key, Some session_id, Some claim_id) \<Rightarrow>
               Some (socket, key, \<lparr>ev_session_id = session_id, ev_claim_id = claim_id, ev_event = e,
                                  ev_tool_name = tool_name, ev_at_ns = at_ns\<rparr>)
           | _ \<Rightarrow> None))"

subsection \<open>Installing the plugin\<close>

text \<open>The probe looks for the tool outside of grove; the directories are compared as they are written.\<close>

definition is_own_bin :: "launch_process \<Rightarrow> string \<Rightarrow> bool" where
  "is_own_bin P dir \<longleftrightarrow>
     (case lp_home P of None \<Rightarrow> False | Some h \<Rightarrow> same_path dir (path_join (path_join h ''.grove'') ''bin''))"

definition find_real_binary_outside_grove :: "launch_process \<Rightarrow> string list \<Rightarrow> string \<Rightarrow> string option" where
  "find_real_binary_outside_grove P enriched_path tool =
     find (\<lambda>c. lp_executable P c \<and> \<not> is_grove_wrapper P c)
       (map (\<lambda>dir. path_join dir tool) (filter (\<lambda>dir. \<not> is_own_bin P dir) enriched_path))"

text \<open>\<open>help\<close> is the standard output of \<open>claude --help\<close>, \<open>None\<close> if it can not be run.\<close>

definition claude_supports_plugin_dir :: "launch_process \<Rightarrow> string list \<Rightarrow> (string \<Rightarrow> bytes option) \<Rightarrow> bool" where
  "claude_supports_plugin_dir P enriched_path help =
     (case Option.bind (find_real_binary_outside_grove P enriched_path ''claude'') help of
        None \<Rightarrow> False | Some out \<Rightarrow> contains_str ''--plugin-dir'' (from_utf8_lossy out))"

text \<open>Size and modification time of a file, \<open>None\<close> where they can not be read.\<close>

definition agent_copy_is_current :: "(nat \<times> int option) option \<Rightarrow> (nat \<times> int option) option \<Rightarrow> bool" where
  "agent_copy_is_current src dst =
     (case (src, dst) of
        (Some (n, t), Some (m, u)) \<Rightarrow>
          n = m \<and> (case (t, u) of (Some a, Some b) \<Rightarrow> a \<le> b | _ \<Rightarrow> False)
      | _ \<Rightarrow> False)"

text \<open>
  The files as another process sees them. Writing a file truncates it first, and each system call may fail
  (\<open>fails\<close> counts them): the result is the states passed through, the last one last, and whether all went well.
\<close>

type_synonym files = "string \<Rightarrow> string option"

datatype file_op = MakeDirs string | WriteFile string string | RemoveTree string

fun op_states :: "file_op \<Rightarrow> files \<Rightarrow> files list" where
  "op_states (MakeDirs p) fs = [fs]"
| "op_states (WriteFile p text) fs = [fs(p \<mapsto> []), fs(p \<mapsto> text)]"
| "op_states (RemoveTree p) fs = [\<lambda>q. if starts_with (p @ ''/'') q then None else fs q]"

fun run_ops :: "(nat \<Rightarrow> bool) \<Rightarrow> nat \<Rightarrow> file_op list \<Rightarrow> files \<Rightarrow> bool \<times> files list" where
  "run_ops fails n [] fs = (True, [])"
| "run_ops fails n (f # ops) fs =
     (if fails n then (False, [])
      else let r = run_ops fails (Suc n) ops (List.last (op_states f fs)) in (fst r, op_states f fs @ snd r))"

definition plugin_manifest :: string where
  "plugin_manifest =
     map (\<lambda>c. if c = quote_char then dquote_char else c)
       (''{'' @ [quote_char] @ ''name'' @ [quote_char] @ '':'' @ [quote_char] @ ''grove-status'' @ [quote_char] @ '',''
        @ [quote_char] @ ''version'' @ [quote_char] @ '':'' @ [quote_char] @ ''1.0.0'' @ [quote_char] @ '',''
        @ [quote_char] @ ''description'' @ [quote_char] @ '':'' @ [quote_char] @ ''Grove agent status hooks'' @ [quote_char] @ ''}'')"

definition plugin_root :: "string \<Rightarrow> string" where
  "plugin_root home = path_join (path_join (path_join home ''.grove'') ''plugins'') ''grove-status''"

definition plugin_hooks_path :: "string \<Rightarrow> string" where
  "plugin_hooks_path home = path_join (path_join (plugin_root home) ''hooks'') ''hooks.json''"

definition plugin_manifest_path :: "string \<Rightarrow> string" where
  "plugin_manifest_path home = path_join (path_join (plugin_root home) ''.claude-plugin'') ''plugin.json''"

definition plugin_hooks_text :: "(json_value \<Rightarrow> string) \<Rightarrow> string \<Rightarrow> string" where
  "plugin_hooks_text render home =
     render (JObject [(''hooks'', JObject (claude_hook_groups
       (path_join (path_join (path_join home ''.grove'') ''bin'') ''grove-agent'')))])"

definition install_claude_plugin ::
  "(json_value \<Rightarrow> string) \<Rightarrow> string \<Rightarrow> bool \<Rightarrow> bool \<Rightarrow> file_op list" where
  "install_claude_plugin render home supported dir_exists =
     (if \<not> supported then (if dir_exists then [RemoveTree (plugin_root home)] else [])
      else [MakeDirs (path_join (plugin_root home) ''.claude-plugin''), MakeDirs (path_join (plugin_root home) ''hooks''),
            WriteFile (plugin_hooks_path home) (plugin_hooks_text render home),
            WriteFile (plugin_manifest_path home) plugin_manifest])"

end
