(* ===== verification/LauncherProps.thy ===== *)
theory LauncherProps
  imports Launcher
begin

text \<open>
  What the launcher guarantees: which binary it becomes, how long a chain of launches can get, what it leaves of the
  arguments and the settings of the user, what crosses the wire; and where it loses an agent or an event.
\<close>

subsection \<open>Lists of paths and numbers in the environment\<close>

lemma split_char_append:
  "c \<notin> set p \<Longrightarrow> split_char c (p @ c # s) = p # split_char c s"
  by (induction p) auto

lemma split_char_plain: "c \<notin> set p \<Longrightarrow> split_char c p = [p]"
  by (induction p) auto

lemma split_join_colon:
  "ps \<noteq> [] \<Longrightarrow> \<forall>p \<in> set ps. CHR '':'' \<notin> set p \<Longrightarrow> split_paths (join_colon ps) = ps"
  by (induction ps rule: join_colon.induct) (auto simp: split_paths_def split_char_append split_char_plain)

lemma split_paths_pieces: "p \<in> set (split_paths s) \<Longrightarrow> CHR '':'' \<notin> set p"
  using split_char_pieces by (auto simp: split_paths_def)

lemma join_paths_Some:
  "\<forall>p \<in> set ps. CHR '':'' \<notin> set p \<Longrightarrow> join_paths ps = Some (join_colon ps)"
  by (auto simp: join_paths_def list_ex_iff)

lemma digits_val_append:
  "digits_val acc (s @ t) = (case digits_val acc s of None \<Rightarrow> None | Some n \<Rightarrow> digits_val n t)"
  by (induction s arbitrary: acc) (auto split: option.splits)

lemma digit_val_dec: "d < 10 \<Longrightarrow> digit_val (char_of (unat (0x30 + word_of_nat d :: u8))) = Some d"
  by (simp add: digit_val_def unat_word_ariths unat_of_nat of_char_of)

lemma digits_val_dec: "digits_val 0 (chars_of (dec_digits n)) = Some n"
proof (induction n rule: dec_digits.induct)
  case (1 n)
  show ?case
  proof (cases "n < 10")
    case True
    then show ?thesis by (subst dec_digits.simps) (simp add: chars_of_def digit_val_dec)
  next
    case False
    then show ?thesis using 1
      by (subst dec_digits.simps) (simp add: chars_of_def digits_val_append digit_val_dec)
  qed
qed

lemma dec_first: "n < 10 \<Longrightarrow> hd (chars_of (dec_digits n)) \<noteq> CHR ''+''"
proof -
  assume n: "n < 10"
  have "digit_val (CHR ''+'') = None" by (simp add: digit_val_def)
  then have "char_of (unat (0x30 + word_of_nat n :: u8)) \<noteq> CHR ''+''" using digit_val_dec [OF n] by force
  then show ?thesis using n by (subst dec_digits.simps) (simp add: chars_of_def)
qed

lemma dec_hd: "hd (chars_of (dec_digits n)) \<noteq> CHR ''+''"
proof (induction n rule: dec_digits.induct)
  case (1 n)
  show ?case
  proof (cases "n < 10")
    case True
    then show ?thesis by (rule dec_first)
  next
    case False
    then show ?thesis using 1 by (subst dec_digits.simps) (simp add: chars_of_def hd_append)
  qed
qed

lemma parse_u32_dec: "parse_u32 (chars_of (dec_digits (unat w))) = Some w"
proof -
  let ?s = "chars_of (dec_digits (unat w))"
  have "int (unat w) \<le> 2 ^ 32 - 1" using unsigned_less [of w, where ?'a = int] by simp
  moreover have "hd ?s \<noteq> CHR ''+''" "?s \<noteq> []" by (rule dec_hd) (simp add: chars_of_def)
  ultimately have "parse_signed 0 (2 ^ 32 - 1) ?s = Some (int (unat w))"
    unfolding parse_signed_def Let_def by (simp add: digits_val_dec)
  then show ?thesis by (simp add: parse_u32_def)
qed

subsection \<open>The binary\<close>

lemma find_in_dirs_Some:
  "find_in_dirs P tool ctx dirs = Some c \<Longrightarrow>
   \<exists>us dir vs. dirs = us @ dir # vs \<and> candidate_in P tool ctx dir = Some c
     \<and> list_all (\<lambda>d. candidate_in P tool ctx d = None) us"
proof (induction dirs)
  case (Cons d ds)
  show ?case
  proof (cases "candidate_in P tool ctx d")
    case None
    then obtain us dir vs where "ds = us @ dir # vs" "candidate_in P tool ctx dir = Some c"
      "list_all (\<lambda>d. candidate_in P tool ctx d = None) us" using Cons by auto
    then show ?thesis using None by (intro exI [of _ "d # us"]) auto
  next
    case (Some e)
    then have "d # ds = [] @ d # ds \<and> candidate_in P tool ctx d = Some c
      \<and> list_all (\<lambda>d. candidate_in P tool ctx d = None) []" using Cons.prems by simp
    then show ?thesis by blast
  qed
qed simp

lemma find_in_dirs_None:
  "list_all (\<lambda>d. candidate_in P tool ctx d = None) dirs \<Longrightarrow> find_in_dirs P tool ctx dirs = None"
  by (induction dirs) auto

text \<open>What may be become: nothing of grove's own, by its directory, its identity, its content or the chain so far.\<close>

definition not_groves :: "launch_process \<Rightarrow> resolve_ctx \<Rightarrow> string \<Rightarrow> string \<Rightarrow> bool" where
  "not_groves P ctx dir c \<longleftrightarrow>
     lp_executable P c \<and> \<not> is_grove_wrapper P c
     \<and> (lp_canonical P dir = None \<or> lp_canonical P dir \<notin> {rc_grove_bin ctx, rc_self_dir ctx})
     \<and> (case lp_canonical P c of
          None \<Rightarrow> True
        | Some canon \<Rightarrow> rc_self_exe ctx \<noteq> Some canon \<and> (DEPTH_CAP \<le> rc_depth ctx \<or> canon \<notin> set (rc_skip ctx)))"

lemma candidate_in_Some:
  "candidate_in P tool ctx dir = Some c \<longleftrightarrow> c = path_join dir tool \<and> not_groves P ctx dir c"
  by (auto simp: candidate_in_def not_groves_def Let_def split: option.splits)

text \<open>
  C23. The launcher never becomes grove itself. What it becomes is executable, without the marker of a wrapper, not in
  grove's directory or in its own, not its own executable, and below the cap none that this chain has become already;
  and it is the first such file on the path.
\<close>

theorem resolved_binary_is_not_groves:
  assumes "find_real_binary P tool ctx = Some c"
  shows "\<exists>us dir vs. rc_path ctx = us @ dir # vs \<and> c = path_join dir tool \<and> not_groves P ctx dir c
    \<and> list_all (\<lambda>d. \<not> not_groves P ctx d (path_join d tool)) us"
proof -
  have "candidate_in P tool ctx d = None \<longleftrightarrow> \<not> not_groves P ctx d (path_join d tool)" for d
    using candidate_in_Some [of P tool ctx d] by (cases "candidate_in P tool ctx d") auto
  then show ?thesis
    using find_in_dirs_Some [of P tool ctx "rc_path ctx" c] assms by (simp add: find_real_binary_def candidate_in_Some)
qed

subsection \<open>Chains of launches\<close>

text \<open>
  A launch becomes a program that launches by name again, with the environment it was given: grove is reached again
  when its directory is on that path. \<open>P\<close> is the first launcher of the chain, and \<open>n\<close> counts the hops.
\<close>

definition reaches_grove :: "launch_process \<Rightarrow> bool" where
  "reaches_grove P \<longleftrightarrow>
     (\<exists>b. rc_grove_bin (from_env P) = Some b \<and> (\<exists>dir \<in> set (rc_path (from_env P)). lp_canonical P dir = Some b))"

inductive launch_chain :: "launch_process \<Rightarrow> nat \<Rightarrow> launch_process \<Rightarrow> bool" for P where
  start: "launch_chain P 0 P"
| again: "launch_chain P n Q \<Longrightarrow> reaches_grove Q \<Longrightarrow> launch Q claim args = Become real argv env \<Longrightarrow>
    launch_chain P (Suc n) (Q\<lparr>lp_env := env\<rparr>)"

lemma Become_env:
  "launch P claim args = Become real argv env \<Longrightarrow>
   \<exists>tool rest r c. args = tool # rest \<and> find_real_binary P tool (from_env P) = Some r
     \<and> real = cstring r \<and> env = child_env P (from_env P) r c"
  by (auto simp: launch_def Let_def split: list.splits option.splits)

lemmas env_names = DEPTH_ENV_def SKIP_ENV_def BIN_DIR_ENV_def

lemma child_env_bin [simp]: "child_env P ctx r c BIN_DIR_ENV = lp_env P BIN_DIR_ENV"
  by (simp add: child_env_def set_opt_def env_names split: option.splits)

lemma child_env_depth [simp]: "child_env P ctx r c DEPTH_ENV = Some (chars_of (dec_digits (unat (rc_depth ctx + 1))))"
  by (simp add: child_env_def set_opt_def env_names split: option.splits)

lemma child_env_path [simp]:
  "child_env P ctx r c ''PATH'' = (case child_path P ctx of None \<Rightarrow> lp_env P ''PATH'' | Some p \<Rightarrow> Some p)"
  by (simp add: child_env_def set_opt_def env_names split: option.splits)

lemma child_env_skip [simp]:
  "child_env P ctx r c SKIP_ENV = (case child_skip P ctx r of None \<Rightarrow> lp_env P SKIP_ENV | Some p \<Rightarrow> Some p)"
  by (simp add: child_env_def set_opt_def env_names split: option.splits)

lemma child_bin [simp]:
  "rc_grove_bin (from_env (P\<lparr>lp_env := child_env P ctx r c\<rparr>)) = rc_grove_bin (from_env P)"
  "rc_self_dir (from_env (P\<lparr>lp_env := child_env P ctx r c\<rparr>)) = rc_self_dir (from_env P)"
  "rc_self_exe (from_env (P\<lparr>lp_env := child_env P ctx r c\<rparr>)) = rc_self_exe (from_env P)"
  by (simp_all add: from_env_def grove_bin_dir_def Let_def split: option.split)

lemma child_depth [simp]: "rc_depth (from_env (P\<lparr>lp_env := child_env P ctx r c\<rparr>)) = rc_depth ctx + 1"
  by (simp add: from_env_def Let_def parse_u32_dec unwrap_or_def)

lemma path_pieces: "p \<in> set (rc_path (from_env P)) \<Longrightarrow> CHR '':'' \<notin> set p"
  using split_paths_pieces by (auto simp: from_env_def Let_def split: option.splits)

lemma capped_path:
  assumes "\<not> rc_depth (from_env P) < DEPTH_CAP"
    and "lp_canonical P [] = None"
  shows "\<not> reaches_grove (P\<lparr>lp_env := child_env P (from_env P) r c\<rparr>)"
proof -
  let ?keep = "filter (\<lambda>dir. lp_canonical P dir \<noteq> rc_grove_bin (from_env P)) (rc_path (from_env P))"
  let ?Q = "P\<lparr>lp_env := child_env P (from_env P) r c\<rparr>"
  have k: "\<forall>p \<in> set ?keep. CHR '':'' \<notin> set p" using path_pieces by auto
  have c: "child_path P (from_env P) = Some (join_colon ?keep)"
    using assms(1) join_paths_Some [OF k] by (simp add: child_path_def)
  have "rc_path (from_env ?Q) = (if ?keep = [] then [[]] else ?keep)"
    using split_join_colon [of ?keep] k c by (simp add: from_env_def Let_def split_paths_def)
  then show ?thesis using assms(2) by (auto simp: reaches_grove_def split: if_splits)
qed

lemma chain_depth:
  assumes "launch_chain P n Q" and "lp_canonical P [] = None"
  defines "d \<equiv> unat (rc_depth (from_env P))"
  shows "lp_canonical Q = lp_canonical P \<and> n + min 8 d \<le> 9
    \<and> (reaches_grove Q \<longrightarrow> unat (rc_depth (from_env Q)) = d + n \<and> (n = 0 \<or> d + n \<le> 8))"
  using assms(1)
proof induction
  case start
  then show ?case by (simp add: d_def)
next
  case (again n Q claim args real argv env)
  then obtain r c where e: "env = child_env Q (from_env Q) r c" using Become_env by blast
  have d: "unat (rc_depth (from_env Q)) = d + n" "n = 0 \<or> d + n \<le> 8" using again by simp_all
  show ?case
  proof (cases "rc_depth (from_env Q) < DEPTH_CAP")
    case True
    then have "d + n < 8" using d(1) by (simp add: DEPTH_CAP_def word_less_nat_alt)
    moreover from this have "unat (rc_depth (from_env Q) + 1) = d + n + 1"
      using d(1) by (simp add: unat_word_ariths)
    ultimately show ?thesis using again.IH by (simp add: e)
  next
    case False
    then have "8 \<le> d + n" using d(1) by (simp add: DEPTH_CAP_def word_less_nat_alt)
    moreover have "\<not> reaches_grove (Q\<lparr>lp_env := env\<rparr>)"
      unfolding e using capped_path False again.IH assms(2) by simp
    ultimately show ?thesis using again.IH d(2) by auto
  qed
qed

text \<open>
  C24. A chain of launches ends. However the programs on the path bounce back by name, grove is launched at most nine
  more times from a depth of zero, and fewer from a higher one: at the cap its directory is gone from the path.
\<close>

theorem launch_chain_is_bounded:
  assumes "launch_chain P n Q" and "lp_canonical P [] = None"
  shows "n + min 8 (unat (rc_depth (from_env P))) \<le> 9"
  using chain_depth [OF assms] by simp

subsection \<open>The same agent inside the agent\<close>

lemma child_skips:
  assumes "lp_canonical P r = Some canon" and "CHR '':'' \<notin> set canon"
  shows "set (rc_skip (from_env (P\<lparr>lp_env := child_env P (from_env P) r c\<rparr>)))
    = insert canon (set (rc_skip (from_env P)))"
proof -
  let ?s = "if canon \<in> set (rc_skip (from_env P)) then rc_skip (from_env P) else rc_skip (from_env P) @ [canon]"
  have p: "\<forall>p \<in> set ?s. CHR '':'' \<notin> set p"
    using split_paths_pieces assms(2) by (auto simp: from_env_def Let_def split: option.splits if_splits)
  have n: "?s \<noteq> []" by auto
  have "child_skip P (from_env P) r = Some (join_colon ?s)"
    using assms(1) join_paths_Some [OF p] by (simp add: child_skip_def)
  then have "rc_skip (from_env (P\<lparr>lp_env := child_env P (from_env P) r c\<rparr>)) = ?s"
    using split_join_colon [OF n p] by (simp add: from_env_def Let_def)
  then show ?thesis by auto
qed

text \<open>With more to skip, below the cap, nothing becomes a candidate, and what is skipped now is none.\<close>

lemma skipping_more:
  assumes "not_groves (P\<lparr>lp_env := env\<rparr>) ctx' dir x"
    and "rc_grove_bin ctx' = rc_grove_bin ctx" "rc_self_dir ctx' = rc_self_dir ctx" "rc_self_exe ctx' = rc_self_exe ctx"
    and "set (rc_skip ctx') = insert canon (set (rc_skip ctx))" "lp_canonical P r = Some canon"
    and "\<not> DEPTH_CAP \<le> rc_depth ctx'"
  shows "not_groves P ctx dir x \<and> x \<noteq> r"
proof -
  have w: "is_grove_wrapper (P\<lparr>lp_env := env\<rparr>) x = is_grove_wrapper P x" by (simp add: is_grove_wrapper_def)
  have "lp_executable P x \<and> \<not> is_grove_wrapper P x
    \<and> (lp_canonical P dir = None \<or> lp_canonical P dir \<notin> {rc_grove_bin ctx, rc_self_dir ctx})
    \<and> (case lp_canonical P x of None \<Rightarrow> True | Some c \<Rightarrow> rc_self_exe ctx \<noteq> Some c \<and> c \<notin> insert canon (set (rc_skip ctx)))"
    using assms(1,7) unfolding not_groves_def w assms(2-5) [symmetric] by (simp split: option.splits)
  then show ?thesis using assms(6) unfolding not_groves_def by (cases "lp_canonical P x"; cases "x = r"; simp)
qed

text \<open>
  C25. An agent can not be started from inside itself. The skip list is inherited by everything that the agent starts,
  not only by a shim that re-executes its name: if the path has one binary of that name besides grove's, the first
  launch becomes it, and a launch of the same name in its environment finds nothing and ends with 127.
\<close>

theorem nested_launch_finds_nothing:
  assumes "launch P claim (tool # rest) = Become real argv env"
    and "find_real_binary P tool (from_env P) = Some r"
    and "lp_canonical P r = Some canon" and "CHR '':'' \<notin> set canon"
    and "rc_depth (from_env P) + 1 < DEPTH_CAP" and "rc_depth (from_env P) < DEPTH_CAP"
    and "\<forall>dir \<in> set (rc_path (from_env P)). candidate_in P tool (from_env P) dir \<in> {None, Some r}"
  shows "launch (P\<lparr>lp_env := env\<rparr>) claim' (tool # rest') = Exit 127"
proof -
  obtain c where e: "env = child_env P (from_env P) r c" using Become_env [OF assms(1)] assms(2) by auto
  let ?Q = "P\<lparr>lp_env := env\<rparr>"
  have "child_path P (from_env P) = None" using assms(6) by (simp add: child_path_def)
  then have p: "rc_path (from_env ?Q) = rc_path (from_env P)" by (simp add: e from_env_def Let_def)
  have "candidate_in ?Q tool (from_env ?Q) dir = None" if "dir \<in> set (rc_path (from_env P))" for dir
  proof (rule ccontr)
    assume "candidate_in ?Q tool (from_env ?Q) dir \<noteq> None"
    then obtain x where "candidate_in ?Q tool (from_env ?Q) dir = Some x" by blast
    then have "x = path_join dir tool \<and> not_groves ?Q (from_env ?Q) dir x" by (rule candidate_in_Some [THEN iffD1])
    then have x: "x = path_join dir tool" "not_groves ?Q (from_env ?Q) dir x" by blast+
    have s: "set (rc_skip (from_env ?Q)) = insert canon (set (rc_skip (from_env P)))"
      unfolding e by (rule child_skips [OF assms(3,4)])
    have d: "rc_depth (from_env ?Q) = rc_depth (from_env P) + 1" by (simp add: e)
    have "not_groves P (from_env P) dir x \<and> x \<noteq> r"
      using x(2) by (rule skipping_more) (use assms s d in \<open>simp_all add: e\<close>)
    then have "candidate_in P tool (from_env P) dir = Some x" "x \<noteq> r"
      using x(1) by (blast intro: candidate_in_Some [THEN iffD2])+
    then show False using that assms(7) by auto
  qed
  then have "find_real_binary ?Q tool (from_env ?Q) = None"
    by (simp add: find_real_binary_def p find_in_dirs_None list_all_iff)
  then show ?thesis by (simp add: launch_def Let_def)
qed

subsection \<open>Arguments and settings\<close>

lemma slot_fold:
  assumes "foldl (slot_step args) found is = Some s"
    and "\<forall>i \<in> set is. i < length args" and "P = (\<lambda>s. case s of
      SpaceSlot i \<Rightarrow> i + 1 < length args \<and> args ! i = ''--settings''
    | EqSlot i \<Rightarrow> i < length args \<and> starts_with ''--settings='' (args ! i))"
    and "\<forall>t. found = Some t \<longrightarrow> P t"
  shows "P s"
  using assms(1,2,4)
proof (induction "is" arbitrary: found)
  case (Cons i "is")
  have "\<forall>t. slot_step args found i = Some t \<longrightarrow> P t"
    using Cons.prems(2,3) by (auto simp: slot_step_def assms(3))
  then show ?case using Cons by auto
qed simp

lemma last_settings_slot_ok:
  "last_settings_slot args = Some s \<Longrightarrow>
   case s of SpaceSlot i \<Rightarrow> i + 1 < length args \<and> args ! i = ''--settings''
   | EqSlot i \<Rightarrow> i < length args \<and> starts_with ''--settings='' (args ! i)"
  unfolding last_settings_slot_def
  by (rule slot_fold [where P = "\<lambda>s. case s of SpaceSlot i \<Rightarrow> i + 1 < length args \<and> args ! i = ''--settings''
    | EqSlot i \<Rightarrow> i < length args \<and> starts_with ''--settings='' (args ! i)"]) auto

text \<open>The position of the value of a \<open>--settings\<close>, and how a new value looks there.\<close>

definition settings_value_at :: "string list \<Rightarrow> nat \<Rightarrow> string \<Rightarrow> bool" where
  "settings_value_at args i v \<longleftrightarrow> i < length args \<and>
     (0 < i \<and> args ! (i - 1) = ''--settings''
      \<or> starts_with ''--settings='' (args ! i) \<and> starts_with ''--settings='' v)"

lemma set_slot_value_at:
  assumes "last_settings_slot args = Some s"
  shows "\<exists>i w. settings_value_at args i w \<and> set_slot_value args s v = args[i := w]"
proof (cases s)
  case (SpaceSlot i)
  then have "settings_value_at args (i + 1) v" using last_settings_slot_ok [OF assms] by (simp add: settings_value_at_def)
  then show ?thesis unfolding SpaceSlot set_slot_value_def settings_slot.case by blast
next
  case (EqSlot i)
  moreover have "starts_with ''--settings='' (''--settings='' @ v)" unfolding starts_with_iff by blast
  ultimately have "settings_value_at args i (''--settings='' @ v)"
    using last_settings_slot_ok [OF assms] by (simp add: settings_value_at_def)
  then show ?thesis unfolding EqSlot set_slot_value_def settings_slot.case by blast
qed

text \<open>
  C27. The launcher takes no argument of the user away. What the agent gets ends with the arguments as they were typed,
  or is these with one value of a \<open>--settings\<close> rewritten, and that only for a claude without the plugin.
\<close>

theorem user_arguments_survive:
  "(\<exists>own. plan_argv P tool args agent_bin plugin = own @ args)
   \<or> tool = ''claude'' \<and> plugin = None
     \<and> (\<exists>i v. settings_value_at args i v \<and> plan_argv P tool args agent_bin plugin = args[i := v])"
  using set_slot_value_at
  by (auto simp: plan_argv_def plan_claude_settings_def split: option.splits)

definition object_at :: "string \<Rightarrow> (string \<times> json_value) list \<Rightarrow> (string \<times> json_value) list" where
  "object_at k kvs = (case map_of kvs k of Some (JObject m) \<Rightarrow> m | _ \<Rightarrow> [])"

definition array_at :: "string \<Rightarrow> (string \<times> json_value) list \<Rightarrow> json_value list" where
  "array_at k kvs = (case map_of kvs k of Some (JArray vs) \<Rightarrow> vs | _ \<Rightarrow> [])"

lemma merge_events:
  "distinct (map fst groups) \<Longrightarrow> map_of (foldl merge_event hooks groups) e =
   (case map_of groups e of
      None \<Rightarrow> map_of hooks e
    | Some g \<Rightarrow> Some (JArray (array_at e hooks @ (case g of JArray gs \<Rightarrow> gs | _ \<Rightarrow> []))))"
proof (induction groups arbitrary: hooks)
  case (Cons g gs)
  have m: "map_of (merge_event hooks g) = (map_of hooks)(fst g \<mapsto>
      JArray (array_at (fst g) hooks @ (case snd g of JArray gs \<Rightarrow> gs | _ \<Rightarrow> [])))"
    by (simp add: merge_event_def update_conv' array_at_def)
  have n: "map_of gs (fst g) = None" using Cons.prems by (simp add: map_of_eq_None_iff)
  have i: "map_of (foldl merge_event (merge_event hooks g) gs) e =
    (case map_of gs e of
       None \<Rightarrow> map_of (merge_event hooks g) e
     | Some g' \<Rightarrow> Some (JArray (array_at e (merge_event hooks g) @ (case g' of JArray gs \<Rightarrow> gs | _ \<Rightarrow> []))))"
    using Cons.prems by (intro Cons.IH) simp
  show ?case
  proof (cases "e = fst g")
    case True
    then show ?thesis using i n m by (cases g) simp
  next
    case False
    then have "array_at e (merge_event hooks g) = array_at e hooks" by (simp add: array_at_def m)
    moreover have "map_of (merge_event hooks g) e = map_of hooks e" using False by (simp add: m)
    moreover have "map_of (g # gs) e = map_of gs e" using False by (cases g) simp
    ultimately show ?thesis using i by (simp split: option.split)
  qed
qed simp

text \<open>
  Merging grove's hooks into the settings of the user takes nothing away: every other setting and every event
  grove does not hook is as it was, and an event it hooks has the groups of the user, in their order, and then its own.
\<close>

theorem settings_merge_keeps_the_users_hooks:
  "\<exists>hooks. map_of (merge_hook_groups base (claude_hook_groups agent_bin)) =
       (map_of base)(''hooks'' \<mapsto> JObject hooks)
     \<and> (\<forall>e. map_of hooks e =
         (if e \<in> set HOOK_EVENTS
          then Some (JArray (array_at e (object_at ''hooks'' base)
            @ [JObject [(''matcher'', JString []), (''hooks'', JArray [JObject [(''type'', JString ''command''),
                (''command'', JString (hook_command agent_bin)), (''timeout'', JNumber 5)]])]]))
          else map_of (object_at ''hooks'' base) e))"
proof -
  have g: "map_of (claude_hook_groups agent_bin) e =
      (if e \<in> set HOOK_EVENTS then Some (hook_group (hook_command agent_bin)) else None)" for e
    by (auto simp: claude_hook_groups_def HOOK_EVENTS_def)
  have d: "distinct (map fst (claude_hook_groups agent_bin))"
    by (simp add: claude_hook_groups_def HOOK_EVENTS_def)
  show ?thesis
    by (rule exI [of _ "foldl merge_event (object_at ''hooks'' base) (claude_hook_groups agent_bin)"])
      (simp add: merge_hook_groups_def update_conv' object_at_def [symmetric] merge_events [OF d] g hook_group_def
        HOOK_TIMEOUT_SECS_def)
qed

subsection \<open>The hook command\<close>

text \<open>
  How a shell reads a command line of single quotes, backslashes and blanks, and how TOML reads a basic string after its
  opening quote: its value, and what follows the closing one. Other escapes are none that the launcher writes.
\<close>

fun sh_words :: "bool \<Rightarrow> string option \<Rightarrow> string \<Rightarrow> string list option" where
  "sh_words quoted w [] = (if quoted then None else Some (case w of None \<Rightarrow> [] | Some v \<Rightarrow> [v]))"
| "sh_words True w (c # cs) =
     (if c = quote_char then sh_words False w cs else sh_words True (Some (unwrap_or [] w @ [c])) cs)"
| "sh_words False w (c # cs) =
     (if c = quote_char then sh_words True (Some (unwrap_or [] w)) cs
      else if c = backslash then
        (case cs of [] \<Rightarrow> None | d # ds \<Rightarrow> sh_words False (Some (unwrap_or [] w @ [d])) ds)
      else if c = CHR '' '' then
        map_option (\<lambda>ws. (case w of None \<Rightarrow> ws | Some v \<Rightarrow> v # ws)) (sh_words False None cs)
      else sh_words False (Some (unwrap_or [] w @ [c])) cs)"

fun toml_basic :: "string \<Rightarrow> (string \<times> string) option" where
  "toml_basic [] = None"
| "toml_basic (c # cs) =
     (if c = dquote_char then Some ([], cs)
      else if c = backslash then
        (case cs of
           [] \<Rightarrow> None
         | d # ds \<Rightarrow> if d = backslash \<or> d = dquote_char then map_option (apfst ((#) d)) (toml_basic ds) else None)
      else map_option (apfst ((#) c)) (toml_basic cs))"

lemma special_chars [simp]:
  "quote_char \<noteq> backslash" "backslash \<noteq> quote_char" "dquote_char \<noteq> backslash" "backslash \<noteq> dquote_char"
  "quote_char \<noteq> CHR '' ''" "backslash \<noteq> CHR '' ''" "dquote_char \<noteq> quote_char" "quote_char \<noteq> dquote_char"
  by (simp_all add: quote_char_def backslash_def dquote_char_def)

lemma replace_char_Cons [simp]:
  "replace_char c r [] = []" "replace_char c r (x # xs) = (if x = c then r else [x]) @ replace_char c r xs"
  by (simp_all add: replace_char_def)

lemma replace_char_append [simp]: "replace_char c r (a @ b) = replace_char c r a @ replace_char c r b"
  by (simp add: replace_char_def)

lemma toml_escape_reads:
  "toml_basic (toml_escape s @ dquote_char # rest) = Some (s, rest)"
  by (induction s) (simp_all add: toml_escape_def)

lemma sh_quoted_reads:
  "sh_words True (Some acc) (replace_char quote_char [quote_char, backslash, quote_char, quote_char] s @ quote_char # rest) =
   sh_words False (Some (acc @ s)) rest"
  by (induction s arbitrary: acc) (simp_all add: unwrap_or_def)

lemma hook_command_reads: "sh_words False None (hook_command agent_bin) = Some [agent_bin, ''event'']"
proof -
  have "sh_words False (Some agent_bin) '' event'' = Some [agent_bin, ''event'']"
    by (simp add: unwrap_or_def quote_char_def backslash_def)
  then show ?thesis using sh_quoted_reads [of "[]" agent_bin "'' event''"]
    by (simp add: hook_command_def unwrap_or_def)
qed

text \<open>
  The hook that codex is given is the program and its one argument, whatever characters the path of the program
  has: each of its arguments holds a TOML string whose value a shell reads as these two words.
\<close>

theorem codex_hooks_name_the_program:
  "\<forall>i < length HOOK_EVENTS. \<exists>text rest.
     codex_hook_config_args agent_bin ! (2 * i) = ''-c''
     \<and> codex_hook_config_args agent_bin ! (2 * i + 1) =
         ''hooks.'' @ HOOK_EVENTS ! i @ ''=[{hooks=[{type='' @ [dquote_char] @ ''command'' @ [dquote_char] @ '',command=''
           @ dquote_char # text
     \<and> toml_basic text = Some (hook_command agent_bin, rest) \<and> rest = '',timeout=5}]}]''
     \<and> sh_words False None (hook_command agent_bin) = Some [agent_bin, ''event'']"
proof -
  let ?t = "toml_escape (hook_command agent_bin) @ dquote_char # '',timeout=5}]}]''"
  have "toml_basic ?t = Some (hook_command agent_bin, '',timeout=5}]}]'')" by (rule toml_escape_reads)
  moreover have "codex_hook_config_args agent_bin ! (2 * i) = ''-c''
      \<and> codex_hook_config_args agent_bin ! (2 * i + 1) =
         ''hooks.'' @ HOOK_EVENTS ! i @ ''=[{hooks=[{type='' @ [dquote_char] @ ''command'' @ [dquote_char] @ '',command=''
           @ dquote_char # ?t" if "i < length HOOK_EVENTS" for i
    using that by (auto simp: HOOK_EVENTS_def codex_hook_config_args_def less_Suc_eq numeral_2_eq_2)
  ultimately show ?thesis using hook_command_reads by blast
qed

subsection \<open>The relay\<close>

text \<open>
  Nothing but the event and the tool crosses the wire: two payloads that agree in \<open>hook_event_name\<close> and \<open>tool_name\<close>
  give the same call, whatever else they hold.
\<close>

theorem relay_sends_two_fields_only:
  assumes "from_utf8 (List.take MAX_STDIN bs) = Some s" and "from_utf8 (List.take MAX_STDIN cs) = Some t"
    and "lp_parse P s = Some u" and "lp_parse P t = Some v"
    and "js_field ''hook_event_name'' u = js_field ''hook_event_name'' v"
    and "js_field ''tool_name'' u = js_field ''tool_name'' v"
  shows "relay P (Some bs) at_ns = relay P (Some cs) at_ns"
proof -
  have "read_hook_event P (Some bs) = read_hook_event P (Some cs)"
    using assms by (simp add: read_hook_event_def parse_hook_event_def split: option.split)
  then show ?thesis by (simp add: relay_def)
qed

text \<open>
  An event with a payload of more than a mebibyte is dropped, even though the two fields are in its head: what is
  read of it is cut off, and a text cut off is no JSON.
\<close>

theorem large_payload_drops_the_event:
  assumes "MAX_STDIN < length text"
    and "\<And>s t. text = s @ t \<Longrightarrow> t \<noteq> [] \<Longrightarrow> lp_parse P s = None"
  shows "relay P (Some (bytes_of text)) at_ns = None"
proof -
  have "parse_hook_event (lp_parse P) s = None" if "from_utf8 (List.take MAX_STDIN (bytes_of text)) = Some s" for s
  proof -
    have "bytes_of s = List.take MAX_STDIN (bytes_of text)" using that by (simp add: from_utf8_Some)
    then have "chars_of (bytes_of s) = chars_of (bytes_of (List.take MAX_STDIN text))"
      by (simp add: bytes_of_def take_map)
    then have "text = s @ drop MAX_STDIN text" by simp
    then have "lp_parse P s = None" using assms by (intro assms(2)) auto
    then show ?thesis by (simp add: parse_hook_event_def)
  qed
  then show ?thesis by (cases "from_utf8 (List.take MAX_STDIN (bytes_of text))") (auto simp: relay_def read_hook_event_def)
qed

subsection \<open>Installing the plugin\<close>

lemma path_join_ends: "\<exists>base'. path_join base p = base' @ p"
  by (auto simp: path_join_def)

lemma plugin_paths: "plugin_hooks_path home \<noteq> plugin_manifest_path home"
proof
  assume e: "plugin_hooks_path home = plugin_manifest_path home"
  obtain a b where "plugin_hooks_path home = a @ ''hooks.json''" "plugin_manifest_path home = b @ ''plugin.json''"
    using path_join_ends unfolding plugin_hooks_path_def plugin_manifest_path_def by metis
  then have "rev (a @ ''hooks.json'') = rev (b @ ''plugin.json'')" using e by simp
  then show False by simp
qed

text \<open>
  A first installation of the plugin is never seen half done: in each state that another process can see, also where
  a system call failed, the manifest is there only with the complete file of hooks.
\<close>

theorem fresh_plugin_is_never_half_installed:
  assumes "fs (plugin_manifest_path home) = None"
  shows "list_all (\<lambda>fs'. fs' (plugin_manifest_path home) = None
      \<or> fs' (plugin_hooks_path home) = Some (plugin_hooks_text render home))
    (snd (run_ops fails 0 (install_claude_plugin render home True exists) fs))"
  using assms plugin_paths [of home] by (auto simp: install_claude_plugin_def Let_def)

text \<open>
  A later installation is: at each start of the application the file of hooks is truncated and written again while
  the manifest of the time before says that the plugin is complete.
\<close>

theorem reinstalled_plugin_is_seen_half_written:
  assumes "fs (plugin_manifest_path home) = Some manifest" and "\<And>n. \<not> fails n"
  shows "\<exists>fs' \<in> set (snd (run_ops fails 0 (install_claude_plugin render home True exists) fs)).
    fs' (plugin_manifest_path home) = Some manifest \<and> fs' (plugin_hooks_path home) = Some []"
  using assms plugin_paths [of home] by (simp add: install_claude_plugin_def Let_def)

subsection \<open>A sample process\<close>

text \<open>
  Two directories on the path: grove's, with its wrapper, and one with the real binary. The parser takes a text that
  ends with a brace for a session that starts.
\<close>

definition sample_env :: "string \<Rightarrow> string option" where
  "sample_env = map_of [(''PATH'', ''/g:/u''), (BIN_DIR_ENV, ''/g''), (''GROVE_DAEMON_SOCK'', ''/s''),
     (''GROVE_SESSION_KEY'', ''k''), (''GROVE_SESSION_ID'', ''i''), (''GROVE_CLAIM_ID'', ''c'')]"

definition sample_process :: launch_process where
  "sample_process =
     \<lparr>lp_env = sample_env, lp_home = Some ''/h'', lp_current_exe = Some ''/g/grove-agent'',
      lp_canonical = (\<lambda>p. if p = [] then None else Some p),
      lp_executable = (\<lambda>p. p \<in> {''/g/claude'', ''/u/claude''}), lp_is_file = (\<lambda>p. False),
      lp_head = (\<lambda>p. Some []), lp_text = (\<lambda>p. None),
      lp_parse = (\<lambda>s. if s \<noteq> [] \<and> List.last s = CHR ''}''
                       then Some (JObject [(''hook_event_name'', JString ''SessionStart''), (''cwd'', JString s)]) else None),
      lp_render = (\<lambda>v. ''{}'')\<rparr>"

lemma sample_ctx:
  "from_env sample_process =
     \<lparr>rc_path = [''/g'', ''/u''], rc_grove_bin = Some ''/g'', rc_self_dir = Some ''/g'', rc_self_exe = Some ''/g/grove-agent'',
      rc_skip = [], rc_depth = 0\<rparr>"
  by code_simp

lemma sample_finds: "find_real_binary sample_process ''claude'' (from_env sample_process) = Some ''/u/claude''"
  unfolding sample_ctx
  by (simp add: find_real_binary_def candidate_in_def sample_process_def path_join_def starts_with_def
      is_grove_wrapper_def contains_str_def from_utf8_lossy_def chars_of_def WRAPPER_MARKER_def DEPTH_CAP_def)

lemma sample_launch:
  "\<exists>argv env. launch sample_process claim (''claude'' # rest) = Become (cstring ''/u/claude'') argv env"
  by (simp add: launch_def Let_def sample_finds)

theorem resolved_binary_is_not_groves_witness:
  "\<exists>us dir vs. rc_path (from_env sample_process) = us @ dir # vs \<and> ''/u/claude'' = path_join dir ''claude''
     \<and> not_groves sample_process (from_env sample_process) dir ''/u/claude''
     \<and> list_all (\<lambda>d. \<not> not_groves sample_process (from_env sample_process) d (path_join d ''claude'')) us"
  by (rule resolved_binary_is_not_groves [OF sample_finds])

lemma sample_reaches: "reaches_grove sample_process"
  unfolding reaches_grove_def sample_ctx by (simp add: sample_process_def)

theorem launch_chain_is_bounded_witness:
  "\<exists>Q. launch_chain sample_process 1 Q \<and> 1 + min 8 (unat (rc_depth (from_env sample_process))) \<le> 9"
proof -
  obtain argv env where "launch sample_process None [''claude''] = Become (cstring ''/u/claude'') argv env"
    using sample_launch by blast
  then have c: "launch_chain sample_process 1 (sample_process\<lparr>lp_env := env\<rparr>)"
    using launch_chain.again [OF launch_chain.start sample_reaches] by simp
  have "lp_canonical sample_process [] = None" by (simp add: sample_process_def)
  from c launch_chain_is_bounded [OF c this] show ?thesis by blast
qed

lemma sample_candidates:
  "\<forall>dir \<in> set (rc_path (from_env sample_process)).
     candidate_in sample_process ''claude'' (from_env sample_process) dir \<in> {None, Some ''/u/claude''}"
  unfolding sample_ctx
  by (simp add: candidate_in_def sample_process_def path_join_def starts_with_def
      is_grove_wrapper_def contains_str_def from_utf8_lossy_def chars_of_def WRAPPER_MARKER_def DEPTH_CAP_def)

theorem nested_launch_finds_nothing_witness:
  "\<exists>argv env. launch sample_process None [''claude''] = Become (cstring ''/u/claude'') argv env
     \<and> launch (sample_process\<lparr>lp_env := env\<rparr>) None [''claude'', ''-p''] = Exit 127"
proof -
  obtain argv env where l: "launch sample_process None [''claude''] = Become (cstring ''/u/claude'') argv env"
    using sample_launch by blast
  have "launch (sample_process\<lparr>lp_env := env\<rparr>) None (''claude'' # [''-p'']) = Exit 127"
    by (rule nested_launch_finds_nothing [OF l sample_finds _ _ _ _ sample_candidates, of "''/u/claude''"])
      (simp add: sample_process_def, simp, simp_all add: sample_ctx DEPTH_CAP_def)
  with l show ?thesis by blast
qed

theorem codex_hooks_name_the_program_witness:
  "\<exists>text rest. codex_hook_config_args ''/g/grove-agent'' ! 0 = ''-c''
     \<and> toml_basic text = Some (hook_command ''/g/grove-agent'', rest)
     \<and> sh_words False None (hook_command ''/g/grove-agent'') = Some [''/g/grove-agent'', ''event'']"
  using codex_hooks_name_the_program [of "''/g/grove-agent''", rule_format, of 0] by (auto simp: HOOK_EVENTS_def)

lemma sample_text: "from_utf8 (List.take MAX_STDIN (bytes_of s)) = Some s"
  if "length s \<le> MAX_STDIN" "is_str s"
  using that by (simp add: bytes_of_def from_utf8_bytes_of [unfolded bytes_of_def])

theorem relay_sends_two_fields_only_witness:
  "relay sample_process (Some (bytes_of ''secret}'')) 7 = relay sample_process (Some (bytes_of ''}'')) 7"
proof -
  have a: "from_utf8 (List.take MAX_STDIN (bytes_of ''secret}'')) = Some ''secret}''"
    "from_utf8 (List.take MAX_STDIN (bytes_of ''}'')) = Some ''}''"
    by (rule sample_text; simp add: MAX_STDIN_def is_str_def bytes_of_def utf8_valid_ascii)+
  let ?v = "\<lambda>s. JObject [(''hook_event_name'', JString ''SessionStart''), (''cwd'', JString s)]"
  show ?thesis
    by (rule relay_sends_two_fields_only [OF a, where u = "?v ''secret}''" and v = "?v ''}''"])
      (simp_all add: sample_process_def)
qed

theorem large_payload_drops_the_event_witness:
  "relay sample_process (Some (bytes_of (replicate (MAX_STDIN + 5) (CHR ''x'') @ ''}''))) 7 = None"
proof (rule large_payload_drops_the_event)
  show "MAX_STDIN < length (replicate (MAX_STDIN + 5) (CHR ''x'') @ ''}'')" by simp
next
  fix s t :: string
  assume "replicate (MAX_STDIN + 5) (CHR ''x'') @ ''}'' = s @ t" and "t \<noteq> []"
  then have "replicate (MAX_STDIN + 5) (CHR ''x'') = s @ butlast t"
    by (metis butlast_append butlast_snoc)
  then have "set s \<subseteq> {CHR ''x''}" by (metis Un_upper1 set_append set_replicate_Suc set_replicate_conv_if empty_subsetI subset_trans)
  then have "s \<noteq> [] \<Longrightarrow> List.last s \<noteq> CHR ''}''" using last_in_set [of s] by fastforce
  then show "lp_parse sample_process s = None" by (auto simp: sample_process_def)
qed

theorem fresh_plugin_is_never_half_installed_witness:
  "list_all (\<lambda>fs'. fs' (plugin_manifest_path ''/h'') = None
      \<or> fs' (plugin_hooks_path ''/h'') = Some (plugin_hooks_text (\<lambda>v. ''{}'') ''/h''))
    (snd (run_ops (\<lambda>n. n = 3) 0 (install_claude_plugin (\<lambda>v. ''{}'') ''/h'' True False) (\<lambda>p. None)))"
  by (rule fresh_plugin_is_never_half_installed) simp

theorem reinstalled_plugin_is_seen_half_written_witness:
  "\<exists>fs' \<in> set (snd (run_ops (\<lambda>n. False) 0 (install_claude_plugin (\<lambda>v. ''{}'') ''/h'' True True) (\<lambda>p. Some ''{}''))).
    fs' (plugin_manifest_path ''/h'') = Some ''{}'' \<and> fs' (plugin_hooks_path ''/h'') = Some []"
  by (rule reinstalled_plugin_is_seen_half_written) simp_all

end
