(* ===== verification/ProjectOps.thy ===== *)
theory ProjectOps
  imports GitProject
begin

text \<open>
  The operations of \<open>grove-core/src/git_project.rs\<close> on projects, worktrees and the source repository, and the
  two of \<open>git_diff.rs\<close> that update a worktree from its default branch. The warnings on standard error are left
  out.
\<close>

subsection \<open>Sequencing\<close>

text \<open>The \<open>?\<close> of Rust, with the world passed along.\<close>

definition try_then ::
  "('a, 'e) result \<times> 'w \<Rightarrow> ('a \<Rightarrow> 'w \<Rightarrow> ('b, 'e) result \<times> 'w) \<Rightarrow> ('b, 'e) result \<times> 'w" where
  "try_then m f = (case m of (Err e, w) \<Rightarrow> (Err e, w) | (Ok a, w) \<Rightarrow> f a w)"

lemma try_then_simps [simp]:
  "try_then (Ok a, w) f = f a w"
  "try_then (Err e, w) f = (Err e, w)"
  by (simp_all add: try_then_def)

lemma try_then_Ok: "try_then m f = (Ok b, w) \<longleftrightarrow> (\<exists>a w'. m = (Ok a, w') \<and> f a w' = (Ok b, w))"
  by (cases m; cases "fst m") auto

text \<open>Commands run one after the other up to the first failure.\<close>

fun run_gits :: "'w project_env \<Rightarrow> string \<Rightarrow> string list list \<Rightarrow> 'w \<Rightarrow> (unit, project_error) result \<times> 'w" where
  "run_gits E cwd [] w = (Ok (), w)"
| "run_gits E cwd (args # rest) w = try_then (run_git E cwd args w) (\<lambda>_. run_gits E cwd rest)"

text \<open>\<open>iter_mut().find\<close> and a change of the entry found.\<close>

fun update_entry :: "string \<Rightarrow> (project_entry \<Rightarrow> project_entry) \<Rightarrow> project_entry list \<Rightarrow> project_entry list option" where
  "update_entry i f [] = None"
| "update_entry i f (p # ps) = (if pj_id p = i then Some (f p # ps) else map_option ((#) p) (update_entry i f ps))"

definition edit_project_in ::
  "'w project_env \<Rightarrow> grove_config \<Rightarrow> string \<Rightarrow> (project_entry \<Rightarrow> project_entry) \<Rightarrow> 'w
   \<Rightarrow> (unit, project_error) result \<times> 'w" where
  "edit_project_in E c i f w =
     (case update_entry i f (gc_projects c) of
        None \<Rightarrow> (Err (ProjectNotFound i), w)
      | Some ps \<Rightarrow> save E (c\<lparr>gc_projects := ps\<rparr>) w)"

definition edit_project ::
  "'w project_env \<Rightarrow> string \<Rightarrow> (project_entry \<Rightarrow> project_entry) \<Rightarrow> 'w \<Rightarrow> (unit, project_error) result \<times> 'w" where
  "edit_project E i f w = edit_project_in E (load_config E w) i f w"

subsection \<open>Projects\<close>

record project =
  pr_id :: string
  pr_name :: string
  pr_url :: string
  pr_org :: string
  pr_repo :: string
  pr_source_path :: string
  pr_worktrees :: "worktree list"
  pr_source_has_changes :: bool
  pr_source_behind_remote :: bool
  pr_base_branch :: "string option"
  pr_resolved_default_branch :: string
  pr_collapsed :: bool
  pr_focused :: bool
  pr_category_id :: string

definition has_local_source_changes :: "'w project_env \<Rightarrow> 'w \<Rightarrow> string \<Rightarrow> bool" where
  "has_local_source_changes E w source \<longleftrightarrow> pv_opens E w source \<and> pv_dirty E w source"

definition source_remote_refresh_due :: "'w project_env \<Rightarrow> 'w \<Rightarrow> string \<Rightarrow> bool" where
  "source_remote_refresh_due E w source \<longleftrightarrow>
     pv_opens E w source \<and> (case pv_fetch_age E w source of Some age \<Rightarrow> 60 \<le> age | None \<Rightarrow> True)"

definition maybe_fetch_source_remote :: "'w project_env \<Rightarrow> string \<Rightarrow> 'w \<Rightarrow> (unit, project_error) result \<times> 'w" where
  "maybe_fetch_source_remote E source w =
     (if source_remote_refresh_due E w source
      then run_git E source [''fetch'', ''origin'', ''--prune'', ''--quiet''] w else (Ok (), w))"

definition source_head_differs_from_remote :: "'w project_env \<Rightarrow> 'w \<Rightarrow> string \<Rightarrow> string \<Rightarrow> bool" where
  "source_head_differs_from_remote E w source default_branch \<longleftrightarrow>
     pv_opens E w source
     \<and> (case (pv_head E w source, pv_remote_head E w source (''refs/remotes/origin/'' @ default_branch)) of
          (Some h, Some r) \<Rightarrow> h \<noteq> r | _ \<Rightarrow> False)"

definition check_source_behind_remote :: "'w project_env \<Rightarrow> string \<Rightarrow> string \<Rightarrow> 'w \<Rightarrow> bool \<times> 'w" where
  "check_source_behind_remote E source_path default_branch w =
     (if \<not> pv_exists E w source_path then (False, w)
      else let (_, w) = maybe_fetch_source_remote E source_path w
           in (source_head_differs_from_remote E w source_path default_branch, w))"

definition project_from_entry :: "'w project_env \<Rightarrow> project_entry \<Rightarrow> 'w \<Rightarrow> project \<times> 'w" where
  "project_from_entry E entry w =
     (let (worktrees, w) = resolve_project_worktrees E entry w;
          source = pj_source_path entry;
          has_changes = (pv_exists E w source \<and> has_local_source_changes E w source);
          (branch, w) = remote_default_branch E source w;
          branch = (case branch of Ok b \<Rightarrow> b | Err _ \<Rightarrow> ''main'');
          (behind, w) = check_source_behind_remote E source branch w
      in (\<lparr>pr_id = pj_id entry, pr_name = pj_name entry, pr_url = pj_url entry, pr_org = pj_org entry,
           pr_repo = pj_repo entry, pr_source_path = source, pr_worktrees = worktrees,
           pr_source_has_changes = has_changes, pr_source_behind_remote = behind,
           pr_base_branch = pj_base_branch entry, pr_resolved_default_branch = branch,
           pr_collapsed = pj_collapsed entry, pr_focused = pj_focused entry,
           pr_category_id = unwrap_or DEFAULT_PROJECT_CATEGORY_ID (pj_category_id entry)\<rparr>, w))"

definition ok_project :: "'w project_env \<Rightarrow> project_entry \<Rightarrow> 'w \<Rightarrow> (project, project_error) result \<times> 'w" where
  "ok_project E entry w = (let (p, w) = project_from_entry E entry w in (Ok p, w))"

text \<open>The entries of several projects are read by worker threads; each result goes to the place of its entry. Here
  they are read one after the other.\<close>

fun projects_from_entries :: "'w project_env \<Rightarrow> project_entry list \<Rightarrow> 'w \<Rightarrow> project list \<times> 'w" where
  "projects_from_entries E [] w = ([], w)"
| "projects_from_entries E (e # es) w =
     (let (p, w) = project_from_entry E e w; (ps, w) = projects_from_entries E es w in (p # ps, w))"

definition list_projects_impl :: "'w project_env \<Rightarrow> 'w \<Rightarrow> (project list, project_error) result \<times> 'w" where
  "list_projects_impl E w =
     try_then (load_reconciled_config E w)
       (\<lambda>c w. let (ps, w) = projects_from_entries E (gc_projects c) w in (Ok ps, w))"

definition recover_existing_project ::
  "'w project_env \<Rightarrow> string \<Rightarrow> string \<Rightarrow> string option \<Rightarrow> 'w \<Rightarrow> (project, project_error) result \<times> 'w" where
  "recover_existing_project E source_dir fallback_url fallback_name w =
     try_then (load_reconciled_config E w) (\<lambda>c w.
       case find_matching_project (gc_projects c) source_dir (Some fallback_url) of
         Some existing \<Rightarrow> ok_project E existing w
       | None \<Rightarrow>
           if \<not> pv_opens E w source_dir then (Err (RepoUnavailable source_dir), w)
           else try_then
                  (case project_entry_from_source E source_dir w of
                     (Ok e, w) \<Rightarrow> (Ok e, w)
                   | (Err _, w) \<Rightarrow> project_entry_from_url E fallback_url source_dir fallback_name w)
                  (\<lambda>entry w. try_then (register_project_entry E entry w) (ok_project E)))"

text \<open>The project of a source directory that is registered or on disk already.\<close>

definition existing_project ::
  "'w project_env \<Rightarrow> string \<Rightarrow> string \<Rightarrow> string option \<Rightarrow> 'w \<Rightarrow> (project option, project_error) result \<times> 'w" where
  "existing_project E source_dir url name w =
     try_then (load_reconciled_config E w) (\<lambda>c w.
       case find_matching_project (gc_projects c) source_dir (Some url) of
         Some existing \<Rightarrow> (let (p, w) = project_from_entry E existing w in (Ok (Some p), w))
       | None \<Rightarrow>
           if pv_is_dir E w source_dir
           then try_then (recover_existing_project E source_dir url name w) (\<lambda>p w. (Ok (Some p), w))
           else (Ok None, w))"

definition make_dirs :: "'w project_env \<Rightarrow> string \<Rightarrow> string \<Rightarrow> 'w \<Rightarrow> (unit, project_error) result \<times> 'w" where
  "make_dirs E a b w =
     (let (ok, w) = pv_mkdir E a w in
      if \<not> ok then (Err (MkdirFailed a), w)
      else let (ok, w) = pv_mkdir E b w in (if ok then Ok () else Err (MkdirFailed b), w))"

definition clone_into ::
  "'w project_env \<Rightarrow> string \<Rightarrow> string \<Rightarrow> 'w \<Rightarrow> (project, project_error) result \<times> 'w" where
  "clone_into E url proj_dir w =
     (let source_dir = path_join proj_dir SOURCE_WORKTREE_NAME;
          (out, w) = pv_git E [] [''clone'', url, source_dir] w
      in case out of
           NotRun e \<Rightarrow> (Err (GitError (''Failed to run git clone: '' @ e)), w)
         | Ran code _ stderr \<Rightarrow>
             if code \<noteq> Some 0
             then (Err (GitError (''git clone failed: '' @ trim (from_utf8_lossy stderr))), pv_remove_dir E proj_dir w)
             else try_then (project_entry_from_url E url source_dir None w)
                    (\<lambda>e w. try_then (register_project_entry E e w) (ok_project E)))"

definition add_project_impl :: "'w project_env \<Rightarrow> string \<Rightarrow> 'w \<Rightarrow> (project, project_error) result \<times> 'w" where
  "add_project_impl E url w =
     (case parse_git_url url of
        Err e \<Rightarrow> (Err e, w)
      | Ok (host, org, repo) \<Rightarrow>
          (let proj_dir = project_dir E host org repo w
           in try_then (existing_project E (path_join proj_dir SOURCE_WORKTREE_NAME) url None w) (\<lambda>known w.
                case known of
                  Some p \<Rightarrow> (Ok p, w)
                | None \<Rightarrow>
                    try_then (make_dirs E proj_dir (path_join proj_dir ''worktrees'') w)
                      (\<lambda>_. clone_into E url proj_dir))))"

datatype clone_outcome = AlreadyExists project | Cloning string string string string

definition start_clone_impl :: "'w project_env \<Rightarrow> string \<Rightarrow> 'w \<Rightarrow> (clone_outcome, project_error) result \<times> 'w" where
  "start_clone_impl E url w =
     (case parse_git_url url of
        Err e \<Rightarrow> (Err e, w)
      | Ok (host, org, repo) \<Rightarrow>
          (let proj_dir = project_dir E host org repo w
           in try_then (existing_project E (path_join proj_dir SOURCE_WORKTREE_NAME) url None w) (\<lambda>known w.
                case known of
                  Some p \<Rightarrow> (Ok (AlreadyExists p), w)
                | None \<Rightarrow>
                    try_then (make_dirs E proj_dir (path_join proj_dir ''worktrees'') w)
                      (\<lambda>_ w. let (i, w) = pv_uuid E w in (Ok (Cloning i url org repo), w)))))"

definition run_clone_impl :: "'w project_env \<Rightarrow> string \<Rightarrow> 'w \<Rightarrow> (project, project_error) result \<times> 'w" where
  "run_clone_impl E url w =
     (case parse_git_url url of
        Err e \<Rightarrow> (Err e, w)
      | Ok (host, org, repo) \<Rightarrow> clone_into E url (project_dir E host org repo w) w)"

definition create_project_impl ::
  "'w project_env \<Rightarrow> string \<Rightarrow> string \<Rightarrow> 'w \<Rightarrow> (project, project_error) result \<times> 'w" where
  "create_project_impl E name remote_url w =
     (case parse_git_url remote_url of
        Err e \<Rightarrow> (Err e, w)
      | Ok (host, org, repo) \<Rightarrow>
          (let proj_dir = project_dir E host org repo w; source_dir = path_join proj_dir SOURCE_WORKTREE_NAME
           in try_then (existing_project E source_dir remote_url (Some name) w) (\<lambda>known w.
                case known of
                  Some p \<Rightarrow> (Ok p, w)
                | None \<Rightarrow>
                    try_then (make_dirs E source_dir (path_join proj_dir ''worktrees'') w) (\<lambda>_ w.
                    try_then (run_gits E source_dir [[''init''], [''remote'', ''add'', ''origin'', remote_url]] w) (\<lambda>_ w.
                    let readme = path_join source_dir ''README.md'';
                        (ok, w) = pv_write_file E readme (''# '' @ name @ [CHR 0x0A]) w
                    in if \<not> ok then (Err (WriteFailed readme), w)
                       else try_then (run_gits E source_dir
                              [[''add'', ''README.md''], [''commit'', ''-m'', ''Initial commit''], [''branch'', ''-M'', ''main'']] w)
                              (\<lambda>_ w. let (_, w) = run_git E source_dir [''push'', ''-u'', ''origin'', ''main''] w
                                in try_then (project_entry_from_url E remote_url source_dir (Some name) w)
                                     (\<lambda>e w. try_then (register_project_entry E e w) (ok_project E))))))))"

fun remove_first :: "('a \<Rightarrow> bool) \<Rightarrow> 'a list \<Rightarrow> 'a list" where
  "remove_first P [] = []"
| "remove_first P (x # xs) = (if P x then xs else x # remove_first P xs)"

definition remove_project_impl :: "'w project_env \<Rightarrow> string \<Rightarrow> 'w \<Rightarrow> (unit, project_error) result \<times> 'w" where
  "remove_project_impl E project_id w =
     (let c = load_config E w in
      case find (\<lambda>p. pj_id p = project_id) (gc_projects c) of
        None \<Rightarrow> (Err (ProjectNotFound project_id), w)
      | Some entry \<Rightarrow>
          (case managed_source_dir E entry w of
             Err e \<Rightarrow> (Err e, w)
           | Ok source \<Rightarrow>
               (case path_parent source of
                  None \<Rightarrow> (Err (InvalidManagedPath source), w)
                | Some dir \<Rightarrow>
                    try_then (save E (c\<lparr>gc_projects := remove_first (\<lambda>p. pj_id p = project_id) (gc_projects c)\<rparr>) w)
                      (\<lambda>_ w. (Ok (), pv_remove_dir E dir w)))))"

definition reorder_entries :: "project_entry list \<Rightarrow> string list \<Rightarrow> project_entry list" where
  "reorder_entries ps ids =
     List.map_filter (\<lambda>i. find (\<lambda>e. pj_id e = i) ps) ids @ filter (\<lambda>e. pj_id e \<notin> set ids) ps"

definition reorder_projects_impl :: "'w project_env \<Rightarrow> string list \<Rightarrow> 'w \<Rightarrow> (unit, project_error) result \<times> 'w" where
  "reorder_projects_impl E ids w =
     try_then (load_reconciled_config E w) (\<lambda>c. save E (c\<lparr>gc_projects := reorder_entries (gc_projects c) ids\<rparr>))"

subsection \<open>Files outside the index\<close>

definition is_env_relevant_pattern :: "string \<Rightarrow> bool" where
  "is_env_relevant_pattern pattern \<longleftrightarrow>
     \<not> list_ex (\<lambda>s. eq_ignore_ascii_case (trim_end_matches ''/'' pattern) s)
        [''node_modules'', ''Pods'', ''vendor'', ''.gradle'', ''venv'', ''.venv'', ''target'', ''build'', ''.build'',
         ''DerivedData'', ''.next'', ''.nuxt'', ''__pycache__'']"

definition collect_gitignore_patterns :: "string \<Rightarrow> string list" where
  "collect_gitignore_patterns content =
     filter (\<lambda>l. l \<noteq> [] \<and> \<not> starts_with ''#'' l \<and> \<not> starts_with ''!'' l \<and> is_env_relevant_pattern l)
       (map trim (lines content))"

definition patterns_in :: "'w project_env \<Rightarrow> 'w \<Rightarrow> string \<Rightarrow> string list" where
  "patterns_in E w path = (case pv_read_file E w path of Some s \<Rightarrow> collect_gitignore_patterns s | None \<Rightarrow> [])"

text \<open>A \<open>BTreeSet\<close> as a sorted list without duplicates.\<close>

definition list_gitignore_patterns_impl ::
  "'w project_env \<Rightarrow> string \<Rightarrow> 'w \<Rightarrow> (string list, project_error) result \<times> 'w" where
  "list_gitignore_patterns_impl E project_id w =
     try_then (find_project_entry E project_id w) (\<lambda>entry w.
       case managed_source_dir E entry w of
         Err e \<Rightarrow> (Err e, w)
       | Ok source_dir \<Rightarrow>
           (let root = patterns_in E w (path_join source_dir ''.gitignore'')
            in try_then (run_git_output E source_dir [''ls-files'', ''--cached'', ''--'', ''*/.gitignore''] w) (\<lambda>files w.
               let nested = concat (map (\<lambda>p. patterns_in E w (path_join source_dir p)) (trimmed_lines files))
               in try_then (run_git_output E source_dir [''rev-parse'', ''--git-dir''] w) (\<lambda>git_dir w.
                  let exclude = patterns_in E w (path_join source_dir (path_join (trim git_dir) ''info/exclude''))
                  in (Ok (sort (remdups (root @ nested @ exclude))), w)))))"

text \<open>A line of \<open>git check-ignore -v\<close>: the pattern and the path.\<close>

definition ignored_file :: "string \<Rightarrow> (string \<times> string) option" where
  "ignored_file line =
     (case split_once (CHR 0x09) line of
        None \<Rightarrow> None
      | Some (rule_part, rel_path) \<Rightarrow>
          (let rel_path = trim rel_path;
               pattern = (case Option.bind (split_once (CHR '':'') rule_part) (\<lambda>(_, r). split_once (CHR '':'') r) of
                            Some (_, p) \<Rightarrow> trim p | None \<Rightarrow> [])
           in if rel_path = [] \<or> contains_str ''..'' rel_path then None else Some (pattern, rel_path)))"

fun sync_lines ::
  "'w project_env \<Rightarrow> string \<Rightarrow> string \<Rightarrow> string list \<Rightarrow> string list \<Rightarrow> 'w \<Rightarrow> (unit, project_error) result \<times> 'w" where
  "sync_lines E source_dir worktree_dir include [] w = (Ok (), w)"
| "sync_lines E source_dir worktree_dir include (line # rest) w =
     (case ignored_file line of
        None \<Rightarrow> sync_lines E source_dir worktree_dir include rest w
      | Some (pattern, rel_path) \<Rightarrow>
          if pattern \<notin> set include \<or> \<not> pv_is_file E w (path_join source_dir rel_path)
          then sync_lines E source_dir worktree_dir include rest w
          else
            (let src = path_join source_dir rel_path; dst = path_join worktree_dir rel_path;
                 (made, w) = (case path_parent dst of Some parent \<Rightarrow> pv_mkdir E parent w | None \<Rightarrow> (True, w))
             in if \<not> made then (Err (EnvSyncFailed dst), w)
                else let (copied, w) = pv_copy E src dst w in
                  if \<not> copied then (Err (EnvSyncFailed dst), w)
                  else sync_lines E source_dir worktree_dir include rest w))"

fun join_lines :: "string list \<Rightarrow> string" where
  "join_lines [] = []"
| "join_lines [l] = l"
| "join_lines (l # ls) = l @ [CHR 0x0A] @ join_lines ls"

definition sync_env_files ::
  "'w project_env \<Rightarrow> string \<Rightarrow> string \<Rightarrow> string list \<Rightarrow> 'w \<Rightarrow> (unit, project_error) result \<times> 'w" where
  "sync_env_files E source_dir worktree_dir include w =
     (if include = [] then (Ok (), w)
      else try_then (run_git_output E source_dir [''ls-files'', ''--others'', ''--ignored'', ''--exclude-standard''] w) (\<lambda>out w.
        let files = filter (\<lambda>l. \<not> contains_str ''..'' l) (trimmed_lines out)
        in if files = [] then (Ok (), w)
           else case pv_check_ignore E source_dir (join_lines files) w of
             None \<Rightarrow> (Err (EnvSyncFailed source_dir), w)
           | Some stdout \<Rightarrow> sync_lines E source_dir worktree_dir include (lines (from_utf8_lossy stdout)) w))"

subsection \<open>Adding worktrees\<close>

definition find_worktree_named :: "worktree list \<Rightarrow> string \<Rightarrow> worktree option" where
  "find_worktree_named wts name = find (\<lambda>t. wt_name t = name) wts"

definition save_stacked_parent_metadata ::
  "'w project_env \<Rightarrow> string \<Rightarrow> string \<Rightarrow> string \<Rightarrow> 'w \<Rightarrow> (unit, project_error) result \<times> 'w" where
  "save_stacked_parent_metadata E project_id child parent w =
     edit_project E project_id (\<lambda>p. p\<lparr>pj_stacked_parents := AList.update child parent (pj_stacked_parents p)\<rparr>) w"

definition rollback_stacked_parent_metadata :: "'w project_env \<Rightarrow> string \<Rightarrow> string \<Rightarrow> string \<Rightarrow> 'w \<Rightarrow> 'w" where
  "rollback_stacked_parent_metadata E project_id child parent w =
     (let c = load_config E w in
      case find (\<lambda>p. pj_id p = project_id) (gc_projects c) of
        None \<Rightarrow> w
      | Some p \<Rightarrow>
          if map_of (pj_stacked_parents p) child \<noteq> Some parent then w
          else snd (edit_project_in E c project_id
                 (\<lambda>p. p\<lparr>pj_stacked_parents := AList.delete child (pj_stacked_parents p)\<rparr>) w))"

definition cleanup_failed_stacked_worktree_add :: "'w project_env \<Rightarrow> string \<Rightarrow> string \<Rightarrow> string \<Rightarrow> 'w \<Rightarrow> 'w" where
  "cleanup_failed_stacked_worktree_add E source worktree_path branch_name w =
     (let w = (if pv_exists E w worktree_path
               then snd (run_git E source [''worktree'', ''remove'', worktree_path, ''--force''] w) else w)
      in snd (run_git E source [''branch'', ''-D'', branch_name] w))"

definition git_is_ancestor ::
  "'w project_env \<Rightarrow> string \<Rightarrow> string \<Rightarrow> string \<Rightarrow> 'w \<Rightarrow> (bool, string) result \<times> 'w" where
  "git_is_ancestor E cwd ancestor descendant w =
     (let (out, w) = pv_git E cwd [''merge-base'', ''--is-ancestor'', ancestor, descendant] w
      in (case out of
            NotRun e \<Rightarrow> Err (''Failed to run git merge-base: '' @ e)
          | Ran code _ stderr \<Rightarrow>
              if code = Some 0 then Ok True
              else if code = Some 1 then Ok False
              else Err (''git merge-base failed: '' @ trim (from_utf8_lossy stderr)), w))"

definition run_worktree_add ::
  "'w project_env \<Rightarrow> string \<Rightarrow> string list \<Rightarrow> string \<Rightarrow> 'w \<Rightarrow> (unit, project_error) result \<times> 'w" where
  "run_worktree_add E cwd args branch_name w =
     (case run_git E cwd args w of
        (Ok _, w) \<Rightarrow> (Ok (), w)
      | (Err e, w) \<Rightarrow> (Err (humanize_worktree_add_error branch_name e), w))"

definition worktree_path_of :: "string \<Rightarrow> string \<Rightarrow> string" where
  "worktree_path_of source name = path_join (path_join (unwrap_or source (path_parent source)) ''worktrees'') name"

text \<open>The source repository of a managed project, which must exist.\<close>

definition existing_source ::
  "'w project_env \<Rightarrow> string \<Rightarrow> 'w \<Rightarrow> (project_entry \<times> string, project_error) result \<times> 'w" where
  "existing_source E project_id w =
     try_then (find_project_entry E project_id w) (\<lambda>entry w.
       case managed_source_dir E entry w of
         Err e \<Rightarrow> (Err e, w)
       | Ok source \<Rightarrow>
           if \<not> pv_exists E w source then (Err (SourceMissing (pj_source_path entry)), w) else (Ok (entry, source), w))"

text \<open>A failed sync of files is a warning.\<close>

definition sync_env_of :: "'w project_env \<Rightarrow> project_entry \<Rightarrow> string \<Rightarrow> string \<Rightarrow> 'w \<Rightarrow> 'w" where
  "sync_env_of E entry source_dir worktree_dir w =
     (case pj_env_sync entry of None \<Rightarrow> w | Some include \<Rightarrow> snd (sync_env_files E source_dir worktree_dir include w))"

text \<open>The arguments of \<open>git worktree add\<close>: the local branch, else the one of origin, else a new one.\<close>

definition worktree_add_args ::
  "'w project_env \<Rightarrow> string \<Rightarrow> string list \<Rightarrow> string \<Rightarrow> string \<Rightarrow> string \<Rightarrow> 'w \<Rightarrow> string list \<times> 'w" where
  "worktree_add_args E source local_branches default_branch path name w =
     (if name \<in> set local_branches then ([''worktree'', ''add'', path, name], w)
      else let (r, w) = run_git_output E source [''rev-parse'', ''--verify'', ''origin/'' @ name] w
           in ([''worktree'', ''add'', path, ''-b'', name, ''origin/'' @ (if is_ok r then name else default_branch)], w))"

definition add_worktree_impl :: "'w project_env \<Rightarrow> string \<Rightarrow> string \<Rightarrow> 'w \<Rightarrow> (worktree, project_error) result \<times> 'w" where
  "add_worktree_impl E project_id name w =
     (case validate_branch_name name of
        Err e \<Rightarrow> (Err e, w)
      | Ok _ \<Rightarrow>
          try_then (existing_source E project_id w) (\<lambda>(entry, source) w.
          let (_, w) = run_git E source [''fetch'', ''--prune'', ''origin''] w
          in try_then (default_branch_of E source (pj_base_branch entry) w) (\<lambda>default_branch w.
             let path = worktree_path_of source name
             in try_then (local_branch_names E source w) (\<lambda>local_branches w.
                case find_branch_prefix_conflict local_branches name of
                  Some b \<Rightarrow> (Err (BranchPrefixConflict name b), w)
                | None \<Rightarrow>
                    (let (args, w) = worktree_add_args E source local_branches default_branch path name w
                     in try_then (run_worktree_add E source args name w) (\<lambda>_ w.
                        let w = sync_env_of E entry source path w
                        in try_then
                             (edit_project E project_id
                                (\<lambda>p. p\<lparr>pj_stacked_parents := AList.delete name (pj_stacked_parents p)\<rparr>) w)
                             (\<lambda>_ w. (Ok \<lparr>wt_name = name, wt_path = path, wt_branch = name, wt_stack_parent = None,
                                          wt_warning = None\<rparr>, w))))))))"

text \<open>The warning of a stacked worktree whose branch comes from origin.\<close>

definition stack_warning :: "string \<Rightarrow> string \<Rightarrow> (bool, string) result \<Rightarrow> string option" where
  "stack_warning remote_branch parent_name r =
     (case r of
        Ok True \<Rightarrow> None
      | Ok False \<Rightarrow> Some (''Created stacked worktree from '' @ remote_branch
          @ '', but it is not a descendant of parent '' @ [quote_char] @ parent_name @ [quote_char] @ ''.'')
      | Err e \<Rightarrow> Some (''Created stacked worktree from '' @ remote_branch
          @ '', but Grove could not verify its parent ancestry: '' @ e))"

definition add_stacked_worktree_impl ::
  "'w project_env \<Rightarrow> string \<Rightarrow> string \<Rightarrow> string \<Rightarrow> 'w \<Rightarrow> (worktree, project_error) result \<times> 'w" where
  "add_stacked_worktree_impl E project_id parent_name name w =
     (case validate_branch_name name of
        Err e \<Rightarrow> (Err e, w)
      | Ok _ \<Rightarrow>
          try_then (existing_source E project_id w) (\<lambda>(entry, source) w.
          let (_, w) = run_git E source [''fetch'', ''--prune'', ''origin''] w;
              (wts, w) = resolve_project_worktrees E entry w
          in case find_worktree_named wts parent_name of
               None \<Rightarrow> (Err (ParentNotFound parent_name), w)
             | Some parent \<Rightarrow>
                 if \<not> pv_exists E w (wt_path parent) then (Err (ParentPathMissing (wt_path parent)), w)
                 else
                   (let path = worktree_path_of source name
                    in try_then (local_branch_names E source w) (\<lambda>local_branches w.
                       case find_branch_prefix_conflict local_branches name of
                         Some b \<Rightarrow> (Err (BranchPrefixConflict name b), w)
                       | None \<Rightarrow>
                           if name \<in> set local_branches then (Err (BranchExists name), w)
                           else try_then (run_git_output E (wt_path parent) [''rev-parse'', ''HEAD''] w) (\<lambda>parent_head w.
                             try_then (remote_branch_names E source w) (\<lambda>remote_branches w.
                             let remote_exists = name \<in> set remote_branches;
                                 (warning, w) =
                                   (if remote_exists
                                    then let (r, w) = git_is_ancestor E source parent_head (''origin/'' @ name) w
                                         in (stack_warning (''origin/'' @ name) parent_name r, w)
                                    else (None, w));
                                 base_ref = (if remote_exists then ''origin/'' @ name else parent_head)
                             in try_then (save_stacked_parent_metadata E project_id name parent_name w) (\<lambda>_ w.
                                case run_worktree_add E source [''worktree'', ''add'', path, ''-b'', name, base_ref] name w of
                                  (Err e, w) \<Rightarrow>
                                    (Err e, cleanup_failed_stacked_worktree_add E source path name
                                              (rollback_stacked_parent_metadata E project_id name parent_name w))
                                | (Ok _, w) \<Rightarrow>
                                    (Ok \<lparr>wt_name = name, wt_path = path, wt_branch = name,
                                         wt_stack_parent = Some parent_name, wt_warning = warning\<rparr>,
                                     sync_env_of E entry (wt_path parent) path w))))))))"

text \<open>\<open>worktree_lifecycle.rs\<close>: every handler runs, also after one that failed.\<close>

definition lifecycle_cleanup :: "(string \<Rightarrow> 'w \<Rightarrow> (unit, string) result \<times> 'w) list \<Rightarrow> string \<Rightarrow> 'w \<Rightarrow> 'w" where
  "lifecycle_cleanup resources path w = foldl (\<lambda>w on_remove. snd (on_remove path w)) w resources"

definition remove_worktree_impl :: "'w project_env \<Rightarrow> string \<Rightarrow> string \<Rightarrow> 'w \<Rightarrow> (unit, project_error) result \<times> 'w" where
  "remove_worktree_impl E project_id worktree_name w =
     try_then (existing_source E project_id w) (\<lambda>(entry, source) w.
       let (wts, w) = resolve_project_worktrees E entry w;
           children = direct_stacked_children wts (pj_stacked_parents entry) worktree_name
       in if children \<noteq> [] then (Err (HasStackedChildren worktree_name children), w)
          else
            (let path = worktree_path_of source worktree_name;
                 w = lifecycle_cleanup (pv_resources E) path w
             in try_then (run_git E source [''worktree'', ''remove'', path, ''--force''] w) (\<lambda>_ w.
                let (_, w) = run_git E source [''branch'', ''-D'', worktree_name] w
                in edit_project E project_id
                     (\<lambda>p. p\<lparr>pj_worktree_order := filter (\<lambda>n. n \<noteq> worktree_name) (pj_worktree_order p),
                            pj_stacked_parents := AList.delete worktree_name (pj_stacked_parents p)\<rparr>) w)))"

definition list_worktrees_impl :: "'w project_env \<Rightarrow> string \<Rightarrow> 'w \<Rightarrow> (worktree list, project_error) result \<times> 'w" where
  "list_worktrees_impl E project_id w =
     try_then (find_project_entry E project_id w)
       (\<lambda>entry w. let (wts, w) = resolve_project_worktrees E entry w in (Ok wts, w))"

subsection \<open>Settings of a project\<close>

definition set_worktree_order_impl ::
  "'w project_env \<Rightarrow> string \<Rightarrow> string list \<Rightarrow> 'w \<Rightarrow> (unit, project_error) result \<times> 'w" where
  "set_worktree_order_impl E i order w = edit_project E i (\<lambda>p. p\<lparr>pj_worktree_order := order\<rparr>) w"

definition get_remote_branches_impl :: "'w project_env \<Rightarrow> string \<Rightarrow> 'w \<Rightarrow> (string list, project_error) result \<times> 'w" where
  "get_remote_branches_impl E i w =
     try_then (existing_source E i w) (\<lambda>(entry, source) w.
       let (_, w) = maybe_fetch_source_remote E source w
       in try_then (remote_branch_names E source w) (\<lambda>bs w. (Ok (sort bs), w)))"

definition set_project_collapsed_impl :: "'w project_env \<Rightarrow> string \<Rightarrow> bool \<Rightarrow> 'w \<Rightarrow> (unit, project_error) result \<times> 'w" where
  "set_project_collapsed_impl E i b w = edit_project E i (\<lambda>p. p\<lparr>pj_collapsed := b\<rparr>) w"

definition set_project_focus_impl :: "'w project_env \<Rightarrow> string \<Rightarrow> bool \<Rightarrow> 'w \<Rightarrow> (unit, project_error) result \<times> 'w" where
  "set_project_focus_impl E i b w = edit_project E i (\<lambda>p. p\<lparr>pj_focused := b\<rparr>) w"

definition rename_project_impl :: "'w project_env \<Rightarrow> string \<Rightarrow> string \<Rightarrow> 'w \<Rightarrow> (unit, project_error) result \<times> 'w" where
  "rename_project_impl E i name w =
     (if trim name = [] then (Err EmptyProjectName, w) else edit_project E i (\<lambda>p. p\<lparr>pj_name := trim name\<rparr>) w)"

definition set_project_category_impl ::
  "'w project_env \<Rightarrow> string \<Rightarrow> string \<Rightarrow> 'w \<Rightarrow> (unit, project_error) result \<times> 'w" where
  "set_project_category_impl E i category w =
     try_then (load_reconciled_config E w) (\<lambda>c w.
       let n = normalize_project_category_id (Some category) (category_ids c)
       in if trim category \<noteq> DEFAULT_PROJECT_CATEGORY_ID \<and> n = None then (Err (CategoryNotFound (trim category)), w)
          else edit_project_in E c i (\<lambda>p. p\<lparr>pj_category_id := n\<rparr>) w)"

definition delete_project_category_impl :: "'w project_env \<Rightarrow> string \<Rightarrow> 'w \<Rightarrow> (unit, project_error) result \<times> 'w" where
  "delete_project_category_impl E category w =
     (let category = trim category in
      if category = [] \<or> category = DEFAULT_PROJECT_CATEGORY_ID then (Err DefaultCategory, w)
      else try_then (load_reconciled_config E w) (\<lambda>c w.
        let p = normalized (unwrap_or default_preferences (gc_preferences c));
            cats = filter (\<lambda>x. pc_id x \<noteq> category) (pf_categories p)
        in if length cats = length (pf_categories p) then (Err (CategoryNotFound category), w)
           else save E (c\<lparr>gc_projects := map (\<lambda>e. if pj_category_id e = Some category then e\<lparr>pj_category_id := None\<rparr> else e)
                             (gc_projects c),
                          gc_preferences := Some (p\<lparr>pf_categories := cats\<rparr>)\<rparr>) w))"

definition set_base_branch_impl ::
  "'w project_env \<Rightarrow> string \<Rightarrow> string option \<Rightarrow> 'w \<Rightarrow> (unit, project_error) result \<times> 'w" where
  "set_base_branch_impl E i branch w =
     try_then
       (case branch of
          None \<Rightarrow> (Ok (), w)
        | Some b \<Rightarrow>
            try_then (existing_source E i w) (\<lambda>(entry, source) w.
              let (r, w) = run_git E source [''show-ref'', ''--verify'', ''refs/remotes/origin/'' @ b] w
              in (if is_ok r then Ok () else Err (BaseBranchNotFound b), w)))
       (\<lambda>_. edit_project E i (\<lambda>p. p\<lparr>pj_base_branch := branch\<rparr>))"

definition set_env_sync_impl ::
  "'w project_env \<Rightarrow> string \<Rightarrow> string list \<Rightarrow> 'w \<Rightarrow> (unit, project_error) result \<times> 'w" where
  "set_env_sync_impl E i include w =
     edit_project E i (\<lambda>p. p\<lparr>pj_env_sync := (if include = [] then None else Some include)\<rparr>) w"

definition get_env_sync_impl :: "'w project_env \<Rightarrow> string \<Rightarrow> 'w \<Rightarrow> (string list option, project_error) result \<times> 'w" where
  "get_env_sync_impl E i w = try_then (find_project_entry E i w) (\<lambda>entry w. (Ok (pj_env_sync entry), w))"

subsection \<open>Source synchronisation\<close>

definition is_source_dirty_impl :: "'w project_env \<Rightarrow> string \<Rightarrow> 'w \<Rightarrow> (bool, project_error) result \<times> 'w" where
  "is_source_dirty_impl E i w =
     try_then (find_project_entry E i w) (\<lambda>entry w.
       case managed_source_dir E entry w of
         Err e \<Rightarrow> (Err e, w)
       | Ok source \<Rightarrow> (Ok (pv_exists E w source \<and> has_local_source_changes E w source), w))"

definition create_source_sync_stash ::
  "'w project_env \<Rightarrow> string \<Rightarrow> 'w \<Rightarrow> (string option, project_error) result \<times> 'w" where
  "create_source_sync_stash E source w =
     (if \<not> has_local_source_changes E w source then (Ok None, w)
      else let (i, w) = pv_uuid E w
           in try_then (run_git E source
                [''stash'', ''push'', ''--include-untracked'', ''-m'', ''grove-source-sync-'' @ i] w) (\<lambda>_ w.
              try_then (run_git_output E source [''rev-parse'', ''-q'', ''--verify'', ''refs/stash''] w)
                (\<lambda>r w. (Ok (Some r), w))))"

definition stash_line :: "string \<Rightarrow> string \<Rightarrow> string option" where
  "stash_line stash_ref line =
     (case split_whitespace line of
        hash # selector # _ \<Rightarrow> if hash = stash_ref then Some selector else None | _ \<Rightarrow> None)"

definition resolve_stash_selector ::
  "'w project_env \<Rightarrow> string \<Rightarrow> string \<Rightarrow> 'w \<Rightarrow> (string, project_error) result \<times> 'w" where
  "resolve_stash_selector E source stash_ref w =
     try_then (run_git_output E source [''stash'', ''list'', ''--format=%H %gd''] w) (\<lambda>out w.
       case List.map_filter (stash_line stash_ref) (lines out) of
         s # _ \<Rightarrow> (Ok s, w) | [] \<Rightarrow> (Err (StashGone stash_ref), w))"

text \<open>The context of the two errors is left to the caller.\<close>

definition restore_source_sync_stash ::
  "'w project_env \<Rightarrow> string \<Rightarrow> string \<Rightarrow> 'w \<Rightarrow> (unit, project_error) result \<times> 'w" where
  "restore_source_sync_stash E source stash_ref w =
     (let (r, w) = run_git E source [''stash'', ''apply'', stash_ref] w in
      if \<not> is_ok r then (Err (RestoreFailed source stash_ref), w)
      else try_then (resolve_stash_selector E source stash_ref w) (\<lambda>selector w.
        let (r, w) = run_git E source [''stash'', ''drop'', selector] w
        in (if is_ok r then Ok () else Err (DropFailed stash_ref selector), w)))"

text \<open>The error of a failed step, after the stash has been restored.\<close>

definition restore_after_error ::
  "'w project_env \<Rightarrow> string \<Rightarrow> string option \<Rightarrow> project_error \<Rightarrow> 'w \<Rightarrow> (unit, project_error) result \<times> 'w" where
  "restore_after_error E source stash base w =
     (case stash of
        None \<Rightarrow> (Err base, w)
      | Some s \<Rightarrow>
          (case restore_source_sync_stash E source s w of
             (Ok _, w) \<Rightarrow> (Err base, w)
           | (Err e, w) \<Rightarrow> (Err (SyncAndRestoreFailed s base e), w)))"

definition refresh_source_repo ::
  "'w project_env \<Rightarrow> string \<Rightarrow> string option \<Rightarrow> 'w \<Rightarrow> (unit, project_error) result \<times> 'w" where
  "refresh_source_repo E source base_branch w =
     try_then (default_branch_of E source base_branch w) (\<lambda>default_branch w.
     try_then (create_source_sync_stash E source w) (\<lambda>stash w.
       case run_git E source [''checkout'', default_branch] w of
         (Err e, w) \<Rightarrow> restore_after_error E source stash (SyncFailed ''checkout'' e) w
       | (Ok _, w) \<Rightarrow>
       (case run_git E source [''fetch'', ''--prune'', ''origin''] w of
          (Err e, w) \<Rightarrow> restore_after_error E source stash (SyncFailed ''fetch'' e) w
        | (Ok _, w) \<Rightarrow>
        (case run_git E source [''pull'', ''--rebase'', ''origin'', default_branch] w of
           (Err e, w) \<Rightarrow>
             restore_after_error E source stash (SyncFailed ''rebase'' e)
               (snd (run_git E source [''rebase'', ''--abort''] w))
         | (Ok _, w) \<Rightarrow>
             (case stash of None \<Rightarrow> (Ok (), w) | Some s \<Rightarrow> restore_source_sync_stash E source s w)))))"

definition refresh_project_impl :: "'w project_env \<Rightarrow> string \<Rightarrow> 'w \<Rightarrow> (project, project_error) result \<times> 'w" where
  "refresh_project_impl E i w =
     try_then (existing_source E i w) (\<lambda>(entry, source) w.
       try_then (refresh_source_repo E source (pj_base_branch entry) w) (\<lambda>_. ok_project E entry))"

subsection \<open>Pull requests of a worktree\<close>

definition gh_prefix :: "string \<Rightarrow> string" where
  "gh_prefix org = (case github_token_override_env org of Some env \<Rightarrow> ''GH_TOKEN=$'' @ env @ '' '' | None \<Rightarrow> [])"

definition pr_fields :: string where "pr_fields = ''url,state,headRefName,headRefOid,mergedAt,updatedAt''"

definition pr_list_command :: "string \<Rightarrow> string \<Rightarrow> string \<Rightarrow> string \<Rightarrow> string" where
  "pr_list_command host org repo branch =
     gh_prefix org @ ''gh pr list -R '' @ shell_quote (github_repo_selector host org repo)
     @ '' --state all --head '' @ shell_quote branch @ '' --json '' @ pr_fields"

definition pr_create_command :: "string \<Rightarrow> string \<Rightarrow> string \<Rightarrow> string \<Rightarrow> string \<Rightarrow> string" where
  "pr_create_command worktree host org repo branch =
     ''cd '' @ shell_quote worktree @ '' && '' @ gh_prefix org @ ''gh pr create -R ''
     @ shell_quote (github_repo_selector host org repo) @ '' --head '' @ shell_quote branch @ '' --web''"

definition ls_remote_command :: "string \<Rightarrow> string" where
  "ls_remote_command worktree =
     ''git -C '' @ shell_quote worktree @ '' ls-remote origin '' @ shell_quote ''refs/pull/*/head''"

definition github_pull_request_via_cli ::
  "'w project_env \<Rightarrow> string \<Rightarrow> string \<Rightarrow> string \<Rightarrow> string \<Rightarrow> string \<Rightarrow> 'w
   \<Rightarrow> ((string \<times> pr_status) option, project_error) result \<times> 'w" where
  "github_pull_request_via_cli E host org repo branch head_oid w =
     (let (out, w) = pv_gh E org None
        [''pr'', ''list'', ''--repo'', github_repo_selector host org repo, ''--state'', ''all'', ''--head'', branch,
         ''--json'', pr_fields] w
      in (case out of
            NotRun e \<Rightarrow> Err (GhFailed e)
          | Ran code stdout stderr \<Rightarrow>
              if code \<noteq> Some 0 then Err (GhFailed (trim (from_utf8_lossy stderr)))
              else case pv_parse_prs E stdout of
                None \<Rightarrow> Err (GhFailed (from_utf8_lossy stdout))
              | Some prs \<Rightarrow> Ok (select_github_pull_request prs branch head_oid), w))"

definition github_pull_request_via_interactive_shell ::
  "'w project_env \<Rightarrow> string \<Rightarrow> string \<Rightarrow> string \<Rightarrow> string \<Rightarrow> string \<Rightarrow> 'w
   \<Rightarrow> ((string \<times> pr_status) option, project_error) result \<times> 'w" where
  "github_pull_request_via_interactive_shell E host org repo branch head_oid w =
     (case pv_shell E (pr_list_command host org repo branch) w of
        (Err e, w) \<Rightarrow> (Err (GhFailed e), w)
      | (Ok out, w) \<Rightarrow>
          (case pv_parse_prs E (bytes_of out) of
             None \<Rightarrow> (Err (GhFailed out), w)
           | Some prs \<Rightarrow> (Ok (select_github_pull_request prs branch head_oid), w)))"

text \<open>\<open>or_else\<close>.\<close>

definition try_else :: "('a, 'e) result \<times> 'w \<Rightarrow> ('w \<Rightarrow> ('a, 'f) result \<times> 'w) \<Rightarrow> ('a, 'f) result \<times> 'w" where
  "try_else m f = (case m of (Ok a, w) \<Rightarrow> (Ok a, w) | (Err _, w) \<Rightarrow> f w)"

definition shell_result :: "(string, string) result \<times> 'w \<Rightarrow> (string, project_error) result \<times> 'w" where
  "shell_result m = (case m of (Ok s, w) \<Rightarrow> (Ok s, w) | (Err e, w) \<Rightarrow> (Err (GhFailed e), w))"

text \<open>gh first, then the pull refs of the remote; an object id is its text.\<close>

definition get_worktree_pr_url_impl ::
  "'w project_env \<Rightarrow> (string \<Rightarrow> string option) \<Rightarrow> string \<Rightarrow> 'w
   \<Rightarrow> ((string \<times> pr_status) option, project_error) result \<times> 'w" where
  "get_worktree_pr_url_impl E oid_from_str worktree w =
     (if \<not> pv_opens E w worktree then (Err (RepoUnavailable worktree), w)
      else case pv_head_ref E w worktree of
        None \<Rightarrow> (Err (HeadUnreadable worktree), w)
      | Some (shorthand, is_branch) \<Rightarrow>
          (case (if shorthand = Some [] then None else shorthand) of
             None \<Rightarrow> (Ok None, w)
           | Some branch \<Rightarrow>
               if \<not> is_branch then (Ok None, w)
               else case pv_head E w worktree of
                 None \<Rightarrow> (Err (HeadUnreadable worktree), w)
               | Some head_oid \<Rightarrow>
                   (case remote_url_for_repo E w worktree of
                      Err e \<Rightarrow> (Err e, w)
                    | Ok url \<Rightarrow>
                        (case github_remote url of
                           None \<Rightarrow> (Ok None, w)
                         | Some (host, org, repo) \<Rightarrow>
                             (case try_else (github_pull_request_via_cli E host org repo branch head_oid w)
                                     (github_pull_request_via_interactive_shell E host org repo branch head_oid) of
                                (Ok pr, w) \<Rightarrow> (Ok pr, w)
                              | (Err _, w) \<Rightarrow>
                                  (case try_else (run_git_output E worktree [''ls-remote'', ''origin'', ''refs/pull/*/head''] w)
                                          (\<lambda>w. shell_result (pv_shell E (ls_remote_command worktree) w)) of
                                     (Err _, w) \<Rightarrow> (Ok None, w)
                                   | (Ok out, w) \<Rightarrow>
                                       (Ok (map_option (\<lambda>n. (canonical_pull_request_url host org repo n, PrUnknown))
                                              (find_pull_request_number_for_head
                                                 (parse_pull_request_head_refs oid_from_str out) head_oid)), w)))))))"

definition create_github_pull_request_via_cli ::
  "'w project_env \<Rightarrow> string \<Rightarrow> string \<Rightarrow> string \<Rightarrow> string \<Rightarrow> string \<Rightarrow> 'w \<Rightarrow> (unit, project_error) result \<times> 'w" where
  "create_github_pull_request_via_cli E worktree host org repo branch w =
     (let (out, w) = pv_gh E org (Some worktree)
        [''pr'', ''create'', ''--repo'', github_repo_selector host org repo, ''--head'', branch, ''--web''] w
      in (case out of
            NotRun e \<Rightarrow> Err (GhFailed e)
          | Ran code _ stderr \<Rightarrow> if code = Some 0 then Ok () else Err (GhFailed (trim (from_utf8_lossy stderr))), w))"

definition create_worktree_pr_impl :: "'w project_env \<Rightarrow> string \<Rightarrow> 'w \<Rightarrow> (unit, project_error) result \<times> 'w" where
  "create_worktree_pr_impl E worktree w =
     (if \<not> pv_opens E w worktree then (Err (RepoUnavailable worktree), w)
      else case pv_head_ref E w worktree of
        None \<Rightarrow> (Err (HeadUnreadable worktree), w)
      | Some (shorthand, is_branch) \<Rightarrow>
          (case (if shorthand = Some [] then None else shorthand) of
             None \<Rightarrow> (Err (DetachedHead worktree), w)
           | Some branch \<Rightarrow>
               if \<not> is_branch then (Err (DetachedHead worktree), w)
               else case remote_url_for_repo E w worktree of
                 Err _ \<Rightarrow> (Err (NoRemoteUrl worktree), w)
               | Ok url \<Rightarrow>
                   (case github_remote url of
                      None \<Rightarrow> (Err (NotGithub url), w)
                    | Some (host, org, repo) \<Rightarrow>
                        try_else (create_github_pull_request_via_cli E worktree host org repo branch w)
                          (\<lambda>w. try_then (shell_result (pv_shell E (pr_create_command worktree host org repo branch) w))
                             (\<lambda>_ w. (Ok (), w))))))"

subsection \<open>The default branch in a worktree\<close>

text \<open>\<open>git_diff.rs\<close>; its runner of git is the one above.\<close>

definition get_behind_count_impl ::
  "'w project_env \<Rightarrow> string \<Rightarrow> 'w \<Rightarrow> (u32 \<times> string, project_error) result \<times> 'w" where
  "get_behind_count_impl E worktree w =
     try_then (remote_default_branch E worktree w) (\<lambda>b w.
     try_then (run_git_output E worktree [''rev-list'', ''--count'', ''HEAD..origin/'' @ b] w) (\<lambda>out w.
       case parse_u32 out of None \<Rightarrow> (Err (GitError out), w) | Some n \<Rightarrow> (Ok (n, b), w)))"

definition merge_default_branch_impl :: "'w project_env \<Rightarrow> string \<Rightarrow> 'w \<Rightarrow> (unit, project_error) result \<times> 'w" where
  "merge_default_branch_impl E worktree w =
     try_then (remote_default_branch E worktree w) (\<lambda>b w.
     try_then (run_git E worktree [''fetch'', ''origin''] w) (\<lambda>_ w.
       case run_git E worktree [''merge'', ''origin/'' @ b, ''--no-edit''] w of
         (Ok _, w) \<Rightarrow> (Ok (), w)
       | (Err e, w) \<Rightarrow> (Err (SyncFailed ''merge'' e), snd (run_git E worktree [''merge'', ''--abort''] w))))"

end
