(* ===== verification/Missions.thy ===== *)
theory Missions
  imports ProjectOps
begin

text \<open>
  \<open>grove-core/src/mission.rs\<close> and \<open>note.rs\<close>: the missions, which are directories of worktrees of several projects, with
  their store, and the notes.

  The environment adds to that of the projects the home directory, the write lock, serde, the listing of a
  directory, renaming and removal, and the random numbers. An interleaving with another caller is a sequence of
  operations on the world.
\<close>

subsection \<open>Data\<close>

record mission_project =
  mp_project_id :: string
  mp_branch :: string
  mp_path :: string

record mission =
  mn_id :: string
  mn_name :: string
  mn_branch_name :: "string option"
  mn_projects :: "mission_project list"
  mn_dir :: string
  mn_collapsed :: bool

record persisted_mission =
  pm_id :: string
  pm_name :: string
  pm_branch_name :: "string option"
  pm_projects :: "mission_project list"
  pm_collapsed :: bool

datatype mission_error =
  NoHome | LockPoisoned | SaveFailed string | MissionNotFound string | AlreadyInMission | NotInMission string
| NoSource string | DirFailed string | BranchTaken string | GitProblem project_error | RemoveFailed string
| NotesUnreadable string

text \<open>\<open>ms_lock\<close> is false when the mutex is poisoned; \<open>ms_read_dir\<close> gives the names of the entries of a directory.\<close>

record 'w mission_env = "'w project_env" +
  ms_home :: "string option"
  ms_lock :: "'w \<Rightarrow> bool"
  ms_parse :: "string \<Rightarrow> persisted_mission list option"
  ms_render :: "persisted_mission list \<Rightarrow> string"
  ms_read_dir :: "'w \<Rightarrow> string \<Rightarrow> string list option"
  ms_rename :: "string \<Rightarrow> string \<Rightarrow> 'w \<Rightarrow> bool \<times> 'w"
  ms_remove_file :: "string \<Rightarrow> 'w \<Rightarrow> 'w"
  ms_remove_dir :: "string \<Rightarrow> 'w \<Rightarrow> bool \<times> 'w"
  ms_random :: "'w \<Rightarrow> u32 \<times> 'w"
  nt_parse :: "string \<Rightarrow> (string \<times> string) list option"
  nt_render :: "(string \<times> string) list \<Rightarrow> string"

text \<open>The part of the environment that the operations on projects take.\<close>

definition projects_env :: "'w mission_env \<Rightarrow> 'w project_env" where
  "projects_env E = project_env.truncate E"

definition grove_data_path :: "'w mission_env \<Rightarrow> string \<Rightarrow> string option" where
  "grove_data_path E name = map_option (\<lambda>h. path_join (path_join h ''.grove'') name) (ms_home E)"

definition missions_path :: "'w mission_env \<Rightarrow> string option" where
  "missions_path E = grove_data_path E ''missions.json''"

definition missions_dir :: "'w mission_env \<Rightarrow> string option" where
  "missions_dir E = map_option (\<lambda>h. path_join (path_join h ''.grove'') ''missions'') (ms_home E)"

subsection \<open>The store\<close>

definition mission_of :: "persisted_mission \<Rightarrow> mission" where
  "mission_of p =
     \<lparr>mn_id = pm_id p, mn_name = pm_name p, mn_branch_name = pm_branch_name p, mn_projects = pm_projects p,
      mn_dir = [], mn_collapsed = pm_collapsed p\<rparr>"

definition persisted_of :: "mission \<Rightarrow> persisted_mission" where
  "persisted_of m =
     \<lparr>pm_id = mn_id m, pm_name = mn_name m, pm_branch_name = mn_branch_name m, pm_projects = mn_projects m,
      pm_collapsed = mn_collapsed m\<rparr>"

text \<open>A file that exists: its text must be readable and parse.\<close>

definition load_json_file_or_default ::
  "'w mission_env \<Rightarrow> (string \<Rightarrow> 'a option) \<Rightarrow> 'a \<Rightarrow> string \<Rightarrow> 'w \<Rightarrow> 'a option" where
  "load_json_file_or_default E parse dflt path w =
     (if \<not> pv_exists E w path then Some dflt else Option.bind (pv_read_file E w path) parse)"

definition load_missions_from_path :: "'w mission_env \<Rightarrow> string \<Rightarrow> 'w \<Rightarrow> mission list" where
  "load_missions_from_path E path w =
     (if \<not> pv_exists E w path then []
      else map mission_of (unwrap_or [] (load_json_file_or_default E (ms_parse E) [] path w)))"

text \<open>The path ends in \<open>.json\<close>, so the temporary file is the path with \<open>.tmp\<close> after it.\<close>

definition save_missions_atomic ::
  "'w mission_env \<Rightarrow> string \<Rightarrow> persisted_mission list \<Rightarrow> 'w \<Rightarrow> (unit, mission_error) result \<times> 'w" where
  "save_missions_atomic E path persisted w =
     (let (made, w) = (case path_parent path of Some p \<Rightarrow> pv_mkdir E p w | None \<Rightarrow> (True, w));
          tmp = path @ ''.tmp''
      in if \<not> made then (Err (DirFailed path), w)
         else let (ok, w) = pv_write_file E tmp (ms_render E persisted) w in
           if \<not> ok then (Err (SaveFailed tmp), w)
           else let (ok, w) = ms_rename E tmp path w in
             if ok then (Ok (), w) else (Err (SaveFailed path), ms_remove_file E tmp w))"

definition save_missions_to_path ::
  "'w mission_env \<Rightarrow> string \<Rightarrow> mission list \<Rightarrow> 'w \<Rightarrow> (unit, mission_error) result \<times> 'w" where
  "save_missions_to_path E path store w = save_missions_atomic E path (map persisted_of store) w"

definition save_missions :: "'w mission_env \<Rightarrow> mission list \<Rightarrow> 'w \<Rightarrow> (unit, mission_error) result \<times> 'w" where
  "save_missions E store w =
     (case missions_path E of None \<Rightarrow> (Err NoHome, w) | Some path \<Rightarrow> save_missions_to_path E path store w)"

subsection \<open>Loading\<close>

text \<open>Projects that are gone leave their missions; directories of no mission are removed.\<close>

definition keep_projects :: "string list \<Rightarrow> mission \<Rightarrow> mission" where
  "keep_projects ids m = m\<lparr>mn_projects := filter (\<lambda>p. mp_project_id p \<in> set ids) (mn_projects m)\<rparr>"

definition remove_unknown :: "'w mission_env \<Rightarrow> string \<Rightarrow> string list \<Rightarrow> string list \<Rightarrow> 'w \<Rightarrow> 'w" where
  "remove_unknown E dir known names w =
     foldl (\<lambda>w name. if name \<in> set known then w else snd (ms_remove_dir E (path_join dir name) w)) w names"

definition reconcile_missions ::
  "'w mission_env \<Rightarrow> string \<Rightarrow> string list \<Rightarrow> mission list \<Rightarrow> 'w \<Rightarrow> (bool \<times> mission list) \<times> 'w" where
  "reconcile_missions E dir ids store w =
     (let changed = list_ex (\<lambda>m. length (mn_projects (keep_projects ids m)) \<noteq> length (mn_projects m)) store;
          store = map (keep_projects ids) store;
          w = (if pv_exists E w dir
               then (case ms_read_dir E w dir of
                       Some names \<Rightarrow> remove_unknown E dir (map mn_id store) names w
                     | None \<Rightarrow> w)
               else w)
      in ((changed, store), w))"

definition load_missions_with_paths ::
  "'w mission_env \<Rightarrow> string \<Rightarrow> string \<Rightarrow> string list \<Rightarrow> 'w \<Rightarrow> mission list \<times> 'w" where
  "load_missions_with_paths E path dir ids w =
     (let ((changed, store), w) = reconcile_missions E dir ids (load_missions_from_path E path w) w;
          (store, w) =
            (if changed \<and> ms_lock E w
             then let ((changed, fresh), w) = reconcile_missions E dir ids (load_missions_from_path E path w) w
                  in (fresh, if changed then snd (save_missions_to_path E path fresh w) else w)
             else (store, w))
      in (map (\<lambda>m. m\<lparr>mn_dir := path_join dir (mn_id m)\<rparr>) store, w))"

definition load_missions :: "'w mission_env \<Rightarrow> 'w \<Rightarrow> mission list \<times> 'w" where
  "load_missions E w =
     load_missions_with_paths E (unwrap_or [] (missions_path E)) (unwrap_or [] (missions_dir E))
       (map pj_id (gc_projects (load_config E w))) w"

subsection \<open>Operations\<close>

text \<open>Under the write lock, with the path of the store and the directory of the missions.\<close>

definition under_lock ::
  "'w mission_env \<Rightarrow> (string \<Rightarrow> string \<Rightarrow> 'w \<Rightarrow> ('a, mission_error) result \<times> 'w) \<Rightarrow> 'w \<Rightarrow> ('a, mission_error) result \<times> 'w" where
  "under_lock E f w =
     (if \<not> ms_lock E w then (Err LockPoisoned, w)
      else case (missions_path E, missions_dir E) of
        (Some path, Some dir) \<Rightarrow> f path dir w | _ \<Rightarrow> (Err NoHome, w))"

text \<open>\<open>{:08x}\<close>.\<close>

definition hex_digit :: "nat \<Rightarrow> char" where "hex_digit n = ''0123456789abcdef'' ! n"

definition hex8 :: "u32 \<Rightarrow> string" where
  "hex8 n = map (\<lambda>i. hex_digit (unat n div 16 ^ i mod 16)) (rev [0..<8])"

partial_function (option) fresh_id ::
  "'w mission_env \<Rightarrow> string list \<Rightarrow> string \<Rightarrow> 'w \<Rightarrow> (string \<times> 'w) option" where
  "fresh_id E known dir w =
     (case ms_random E w of
        (n, w) \<Rightarrow> if hex8 n \<in> set known \<or> pv_exists E w (path_join dir (hex8 n)) then fresh_id E known dir w
                  else Some (hex8 n, w))"

declare fresh_id.simps [code]

definition normalize_branch_name :: "string option \<Rightarrow> (string option, mission_error) result" where
  "normalize_branch_name branch =
     (case branch of
        None \<Rightarrow> Ok None
      | Some b \<Rightarrow>
          if trim b = [] then Ok None
          else case validate_branch_name (trim b) of Ok _ \<Rightarrow> Ok (Some (trim b)) | Err e \<Rightarrow> Err (GitProblem e))"

definition default_mission_branch_name :: "string \<Rightarrow> string" where
  "default_mission_branch_name i = ''mission/'' @ i"

definition git_of ::
  "'w mission_env \<Rightarrow> string \<Rightarrow> string list \<Rightarrow> 'w \<Rightarrow> (unit, mission_error) result \<times> 'w" where
  "git_of E cwd args w =
     (case run_git (projects_env E) cwd args w of (Ok _, w) \<Rightarrow> (Ok (), w) | (Err e, w) \<Rightarrow> (Err (GitProblem e), w))"

definition branch_already_exists :: "'w mission_env \<Rightarrow> string \<Rightarrow> string \<Rightarrow> 'w \<Rightarrow> bool \<times> 'w" where
  "branch_already_exists E source branch w =
     (let (r, w) = git_of E source [''show-ref'', ''--verify'', ''refs/heads/'' @ branch] w in
      if is_ok r then (True, w)
      else let (r, w) = git_of E source [''show-ref'', ''--verify'', ''refs/remotes/origin/'' @ branch] w in (is_ok r, w))"

definition create_mission_with_paths ::
  "'w mission_env \<Rightarrow> string \<Rightarrow> string \<Rightarrow> string \<Rightarrow> string option \<Rightarrow> 'w
   \<Rightarrow> ((mission, mission_error) result \<times> 'w) option" where
  "create_mission_with_paths E path dir name branch w =
     (let store = load_missions_from_path E path w in
      case normalize_branch_name branch of
        Err e \<Rightarrow> Some (Err e, w)
      | Ok branch \<Rightarrow>
          map_option (\<lambda>(i, w).
            let mdir = path_join dir i; (made, w) = pv_mkdir E mdir w in
            if \<not> made then (Err (DirFailed mdir), w)
            else let m = \<lparr>mn_id = i, mn_name = name, mn_branch_name = branch, mn_projects = [], mn_dir = mdir,
                          mn_collapsed = False\<rparr>
                 in try_then (save_missions_to_path E path (store @ [m]) w) (\<lambda>_ w. (Ok m, w)))
            (fresh_id E (map mn_id store) dir w))"

fun update_mission :: "string \<Rightarrow> (mission \<Rightarrow> mission) \<Rightarrow> mission list \<Rightarrow> mission list" where
  "update_mission i f [] = []"
| "update_mission i f (m # ms) = (if mn_id m = i then f m # ms else m # update_mission i f ms)"

definition find_mission :: "string \<Rightarrow> mission list \<Rightarrow> (mission, mission_error) result" where
  "find_mission i store =
     (case find (\<lambda>m. mn_id m = i) store of None \<Rightarrow> Err (MissionNotFound i) | Some m \<Rightarrow> Ok m)"

definition add_worktree_for ::
  "'w mission_env \<Rightarrow> mission \<Rightarrow> string \<Rightarrow> string \<Rightarrow> string \<Rightarrow> 'w \<Rightarrow> (unit, mission_error) result \<times> 'w" where
  "add_worktree_for E m source branch worktree_path w =
     (if mn_branch_name m \<noteq> None
      then let (taken, w) = branch_already_exists E source branch w in
        if taken then (Err (BranchTaken branch), w)
        else git_of E source [''worktree'', ''add'', ''-b'', branch, worktree_path] w
      else let (r, w) = git_of E source [''rev-parse'', ''--verify'', branch] w in
        if is_ok r then git_of E source [''worktree'', ''add'', worktree_path, branch] w
        else git_of E source [''worktree'', ''add'', ''-b'', branch, worktree_path] w)"

definition add_project_to_mission_with_paths ::
  "'w mission_env \<Rightarrow> string \<Rightarrow> string \<Rightarrow> string \<Rightarrow> string \<Rightarrow> string \<Rightarrow> string \<Rightarrow> 'w
   \<Rightarrow> (mission_project, mission_error) result \<times> 'w" where
  "add_project_to_mission_with_paths E path dir mission_id project_id source repo w =
     (let store = load_missions_from_path E path w in
      case find_mission mission_id store of
        Err e \<Rightarrow> (Err e, w)
      | Ok m \<Rightarrow>
          if list_ex (\<lambda>p. mp_project_id p = project_id) (mn_projects m) then (Err AlreadyInMission, w)
          else
            (let branch = unwrap_or (default_mission_branch_name mission_id) (mn_branch_name m);
                 worktree_path = path_join (path_join dir mission_id) repo
             in if \<not> pv_exists E w source then (Err (NoSource source), w)
                else
                  (let (made, w) = (case path_parent worktree_path of Some p \<Rightarrow> pv_mkdir E p w | None \<Rightarrow> (True, w)) in
                   if \<not> made then (Err (DirFailed worktree_path), w)
                   else try_then (add_worktree_for E m source branch worktree_path w) (\<lambda>_ w.
                     let p = \<lparr>mp_project_id = project_id, mp_branch = branch, mp_path = worktree_path\<rparr>
                     in try_then
                          (save_missions_to_path E path
                             (update_mission mission_id (\<lambda>m. m\<lparr>mn_projects := mn_projects m @ [p]\<rparr>) store) w)
                          (\<lambda>_ w. (Ok p, w))))))"

definition add_project_to_mission ::
  "'w mission_env \<Rightarrow> string \<Rightarrow> string \<Rightarrow> 'w \<Rightarrow> (mission_project, mission_error) result \<times> 'w" where
  "add_project_to_mission E mission_id project_id w =
     under_lock E (\<lambda>path dir w.
       case find_project_entry_by_id E project_id w of
         None \<Rightarrow> (Err (GitProblem (ProjectNotFound project_id)), w)
       | Some entry \<Rightarrow>
           try_then (add_project_to_mission_with_paths E path dir mission_id project_id (pj_source_path entry) (pj_repo entry) w)
             (\<lambda>p w. (Ok p, sync_env_of (projects_env E) entry (pj_source_path entry) (mp_path p) w))) w"

definition remove_mission_worktree :: "'w mission_env \<Rightarrow> string \<Rightarrow> string \<Rightarrow> string \<Rightarrow> 'w \<Rightarrow> 'w" where
  "remove_mission_worktree E source worktree_path branch w =
     (let w = (if pv_exists E w source
               then snd (git_of E source [''branch'', ''-D'', branch]
                      (snd (git_of E source [''worktree'', ''remove'', worktree_path, ''--force''] w)))
               else w)
      in if pv_exists E w worktree_path then snd (ms_remove_dir E worktree_path w) else w)"

definition remove_project_from_mission_with_paths ::
  "'w mission_env \<Rightarrow> string \<Rightarrow> string \<Rightarrow> string \<Rightarrow> 'w \<Rightarrow> (unit, mission_error) result \<times> 'w" where
  "remove_project_from_mission_with_paths E path mission_id project_id w =
     (let store = load_missions_from_path E path w in
      case find_mission mission_id store of
        Err e \<Rightarrow> (Err e, w)
      | Ok m \<Rightarrow>
          (case find (\<lambda>p. mp_project_id p = project_id) (mn_projects m) of
             None \<Rightarrow> (Err (NotInMission project_id), w)
           | Some p \<Rightarrow>
               (let w = lifecycle_cleanup (pv_resources E) (mp_path p) w;
                    w = (case find_project_entry_by_id E project_id w of
                           Some entry \<Rightarrow> remove_mission_worktree E (pj_source_path entry) (mp_path p) (mp_branch p) w
                         | None \<Rightarrow> if pv_exists E w (mp_path p) then snd (ms_remove_dir E (mp_path p) w) else w)
                in save_missions_to_path E path
                     (update_mission mission_id
                        (\<lambda>m. m\<lparr>mn_projects := filter (\<lambda>p. mp_project_id p \<noteq> project_id) (mn_projects m)\<rparr>) store) w)))"

definition remove_project_from_mission ::
  "'w mission_env \<Rightarrow> string \<Rightarrow> string \<Rightarrow> 'w \<Rightarrow> (unit, mission_error) result \<times> 'w" where
  "remove_project_from_mission E mission_id project_id w =
     under_lock E (\<lambda>path dir. remove_project_from_mission_with_paths E path mission_id project_id) w"

definition set_mission_collapsed ::
  "'w mission_env \<Rightarrow> string \<Rightarrow> bool \<Rightarrow> 'w \<Rightarrow> (unit, mission_error) result \<times> 'w" where
  "set_mission_collapsed E i collapsed w =
     under_lock E (\<lambda>path dir w.
       let store = load_missions_from_path E path w in
       case find_mission i store of
         Err e \<Rightarrow> (Err e, w)
       | Ok _ \<Rightarrow> save_missions_to_path E path (update_mission i (\<lambda>m. m\<lparr>mn_collapsed := collapsed\<rparr>) store) w) w"

definition create_mission ::
  "'w mission_env \<Rightarrow> string \<Rightarrow> string option \<Rightarrow> 'w \<Rightarrow> ((mission, mission_error) result \<times> 'w) option" where
  "create_mission E name branch w =
     (if \<not> ms_lock E w then Some (Err LockPoisoned, w)
      else case (missions_path E, missions_dir E) of
        (Some path, Some dir) \<Rightarrow> create_mission_with_paths E path dir name branch w
      | _ \<Rightarrow> Some (Err NoHome, w))"

fun remove_all_projects ::
  "'w mission_env \<Rightarrow> string \<Rightarrow> string \<Rightarrow> string list \<Rightarrow> 'w \<Rightarrow> (unit, mission_error) result \<times> 'w" where
  "remove_all_projects E path mission_id [] w = (Ok (), w)"
| "remove_all_projects E path mission_id (p # ps) w =
     try_then (remove_project_from_mission_with_paths E path mission_id p w)
       (\<lambda>_. remove_all_projects E path mission_id ps)"

definition delete_mission_with_lifecycle ::
  "'w mission_env \<Rightarrow> string \<Rightarrow> string \<Rightarrow> string \<Rightarrow> 'w \<Rightarrow> (unit, mission_error) result \<times> 'w" where
  "delete_mission_with_lifecycle E path dir i w =
     (case find_mission i (load_missions_from_path E path w) of
        Err e \<Rightarrow> (Err e, w)
      | Ok m \<Rightarrow>
          try_then (remove_all_projects E path i (map mp_project_id (mn_projects m)) w) (\<lambda>_ w.
            let mdir = path_join dir i;
                w = lifecycle_cleanup (pv_resources E) mdir w;
                (removed, w) = (if pv_exists E w mdir then ms_remove_dir E mdir w else (True, w))
            in if \<not> removed then (Err (RemoveFailed mdir), w)
               else save_missions_to_path E path (filter (\<lambda>m. mn_id m \<noteq> i) (load_missions_from_path E path w)) w))"

definition delete_mission :: "'w mission_env \<Rightarrow> string \<Rightarrow> 'w \<Rightarrow> (unit, mission_error) result \<times> 'w" where
  "delete_mission E i w = under_lock E (\<lambda>path dir. delete_mission_with_lifecycle E path dir i) w"

subsection \<open>Notes\<close>

definition save_json_file :: "'w mission_env \<Rightarrow> string \<Rightarrow> string \<Rightarrow> 'w \<Rightarrow> (unit, mission_error) result \<times> 'w" where
  "save_json_file E path content w =
     (let (made, w) = (case path_parent path of Some p \<Rightarrow> pv_mkdir E p w | None \<Rightarrow> (True, w)) in
      if \<not> made then (Err (DirFailed path), w)
      else let (ok, w) = pv_write_file E path content w in (if ok then Ok () else Err (SaveFailed path), w))"

definition load_notes :: "'w mission_env \<Rightarrow> 'w \<Rightarrow> ((string \<times> string) list, mission_error) result" where
  "load_notes E w =
     (case grove_data_path E ''notes.json'' of
        None \<Rightarrow> Err NoHome
      | Some path \<Rightarrow>
          (case load_json_file_or_default E (nt_parse E) [] path w of
             None \<Rightarrow> Err (NotesUnreadable path) | Some notes \<Rightarrow> Ok notes))"

definition change_notes ::
  "'w mission_env \<Rightarrow> ((string \<times> string) list \<Rightarrow> (string \<times> string) list) \<Rightarrow> 'w \<Rightarrow> (unit, mission_error) result \<times> 'w" where
  "change_notes E f w =
     (case load_notes E w of
        Err e \<Rightarrow> (Err e, w)
      | Ok notes \<Rightarrow> save_json_file E (the (grove_data_path E ''notes.json'')) (nt_render E (f notes)) w)"

definition save_note :: "'w mission_env \<Rightarrow> string \<Rightarrow> string \<Rightarrow> 'w \<Rightarrow> (unit, mission_error) result \<times> 'w" where
  "save_note E key content w =
     change_notes E (\<lambda>notes. if trim content = [] then AList.delete key notes else AList.update key content notes) w"

definition delete_note :: "'w mission_env \<Rightarrow> string \<Rightarrow> 'w \<Rightarrow> (unit, mission_error) result \<times> 'w" where
  "delete_note E key w = change_notes E (AList.delete key) w"

end
