(* ===== verification/MissionProps.thy ===== *)
theory MissionProps
  imports Missions
begin

text \<open>
  What \<open>mission.rs\<close> and \<open>note.rs\<close> guarantee: fresh ids, a store that stays well formed and refines the list of missions,
  notes that are not lost; and where directories and projects of missions get lost.
\<close>

subsection \<open>Fresh ids\<close>

text \<open>The \<open>k\<close>-th number drawn, and the world after it.\<close>

fun draw :: "'w mission_env \<Rightarrow> nat \<Rightarrow> 'w \<Rightarrow> u32 \<times> 'w" where
  "draw E 0 w = ms_random E w"
| "draw E (Suc k) w = draw E k (snd (ms_random E w))"

definition id_taken :: "'w mission_env \<Rightarrow> string list \<Rightarrow> string \<Rightarrow> u32 \<times> 'w \<Rightarrow> bool" where
  "id_taken E known dir d \<longleftrightarrow> hex8 (fst d) \<in> set known \<or> pv_exists E (snd d) (path_join dir (hex8 (fst d)))"

lemma fresh_id_free:
  "\<not> id_taken E known dir (draw E k w) \<Longrightarrow>
   \<exists>j \<le> k. \<not> id_taken E known dir (draw E j w)
     \<and> fresh_id E known dir w = Some (hex8 (fst (draw E j w)), snd (draw E j w))"
proof (induction k arbitrary: w)
  case 0
  then show ?case by (subst fresh_id.simps) (simp add: id_taken_def case_prod_unfold)
next
  case (Suc k)
  show ?case
  proof (cases "id_taken E known dir (draw E 0 w)")
    case True
    then have "fresh_id E known dir w = fresh_id E known dir (snd (ms_random E w))"
      by (subst fresh_id.simps) (simp add: id_taken_def case_prod_unfold)
    moreover obtain j where "j \<le> k" "\<not> id_taken E known dir (draw E j (snd (ms_random E w)))"
      "fresh_id E known dir (snd (ms_random E w)) =
         Some (hex8 (fst (draw E j (snd (ms_random E w)))), snd (draw E j (snd (ms_random E w))))"
      using Suc by auto
    ultimately have "Suc j \<le> Suc k \<and> \<not> id_taken E known dir (draw E (Suc j) w)
      \<and> fresh_id E known dir w = Some (hex8 (fst (draw E (Suc j) w)), snd (draw E (Suc j) w))" by simp
    then show ?thesis by blast
  next
    case False
    then have "fresh_id E known dir w = Some (hex8 (fst (draw E 0 w)), snd (draw E 0 w))"
      by (subst fresh_id.simps) (simp add: id_taken_def case_prod_unfold)
    then show ?thesis using False by blast
  qed
qed

lemma fresh_id_Some:
  "fresh_id E known dir w = Some d \<Longrightarrow> fst d \<notin> set known \<and> \<not> pv_exists E (snd d) (path_join dir (fst d))"
  by (rule fresh_id.raw_induct [where P = "\<lambda>E known dir w d. fst d \<notin> set known \<and> \<not> pv_exists E (snd d) (path_join dir (fst d))"])
    (auto split: prod.splits if_splits)


subsection \<open>The store as a list of missions\<close>

text \<open>What is written is what is read: the missions without their directories, which are not stored.\<close>

definition reads_missions_back :: "'w mission_env \<Rightarrow> string \<Rightarrow> bool" where
  "reads_missions_back E path \<longleftrightarrow>
     (\<forall>ms w w'. save_missions_to_path E path ms w = (Ok (), w') \<longrightarrow>
        load_missions_from_path E path w' = map (\<lambda>m. m\<lparr>mn_dir := []\<rparr>) ms)"

lemma mission_of_persisted [simp]: "mission_of (persisted_of m) = m\<lparr>mn_dir := []\<rparr>"
  by (simp add: mission_of_def persisted_of_def)

text \<open>
  The store keeps every mission with all of it but the directory, which is computed: parsing back what was
  rendered gives the missions that were saved, whenever the writes and the rename succeed and the file reads as it
  was written.
\<close>

theorem saved_missions_read_back:
  assumes "save_missions_to_path E path ms w = (Ok (), w')"
    and "pv_exists E w' path" and "pv_read_file E w' path = Some (ms_render E (map persisted_of ms))"
    and "ms_parse E (ms_render E (map persisted_of ms)) = Some (map persisted_of ms)"
  shows "load_missions_from_path E path w' = map (\<lambda>m. m\<lparr>mn_dir := []\<rparr>) ms"
  using assms(2-) by (simp add: load_missions_from_path_def load_json_file_or_default_def o_def)

definition store_ok :: "mission list \<Rightarrow> bool" where
  "store_ok ms \<longleftrightarrow> distinct (map mn_id ms) \<and> list_all (\<lambda>m. distinct (map mp_project_id (mn_projects m)) \<and> mn_dir m = []) ms"

lemma loaded_dirs: "m \<in> set (load_missions_from_path E path w) \<Longrightarrow> mn_dir m = []"
  by (auto simp: load_missions_from_path_def mission_of_def split: if_splits)

lemma update_mission_ids [simp]: "(\<And>m. mn_id (f m) = mn_id m) \<Longrightarrow> map mn_id (update_mission i f ms) = map mn_id ms"
  by (induction ms) auto

lemma update_mission_all:
  "list_all P ms \<Longrightarrow> (\<And>m. m \<in> set ms \<Longrightarrow> find (\<lambda>m. mn_id m = i) ms = Some m \<Longrightarrow> P m \<Longrightarrow> P (f m)) \<Longrightarrow>
   list_all P (update_mission i f ms)"
  by (induction ms) (auto split: if_splits)

lemma clear_dirs: "list_all (\<lambda>m. mn_dir m = []) ms \<Longrightarrow> map (\<lambda>m. m\<lparr>mn_dir := []\<rparr>) ms = ms"
  by (induction ms) auto

lemma update_dirs:
  "list_all (\<lambda>m. mn_dir m = []) ms \<Longrightarrow> (\<And>m. mn_dir (f m) = mn_dir m) \<Longrightarrow>
   map (\<lambda>m. m\<lparr>mn_dir := []\<rparr>) (update_mission i f ms) = update_mission i f ms"
  by (rule clear_dirs) (rule update_mission_all, auto)

lemma loaded_all_dirs: "list_all (\<lambda>m. mn_dir m = []) (load_missions_from_path E path w)"
  using loaded_dirs by (auto simp: list_all_iff)

lemma find_mission_Ok: "find_mission i ms = Ok m \<longleftrightarrow> find (\<lambda>m. mn_id m = i) ms = Some m"
  by (auto simp: find_mission_def split: option.splits)

lemma add_project_refines:
  assumes law: "reads_missions_back E path"
    and a: "add_project_to_mission_with_paths E path dir i j source repo w = (Ok p, w')"
  shows "load_missions_from_path E path w' =
      update_mission i (\<lambda>m. m\<lparr>mn_projects := mn_projects m @ [p]\<rparr>) (load_missions_from_path E path w)
    \<and> mp_project_id p = j
    \<and> (store_ok (load_missions_from_path E path w) \<longrightarrow> store_ok (load_missions_from_path E path w'))"
proof -
  let ?S = "load_missions_from_path E path w" and ?add = "\<lambda>m. m\<lparr>mn_projects := mn_projects m @ [p]\<rparr>"
  obtain m v where m: "find_mission i ?S = Ok m" "\<not> list_ex (\<lambda>p. mp_project_id p = j) (mn_projects m)"
    and p: "mp_project_id p = j" and s: "save_missions_to_path E path (update_mission i ?add ?S) v = (Ok (), w')"
    using a by (auto simp: add_project_to_mission_with_paths_def Let_def try_then_Ok
        split: result.splits if_splits prod.splits)
  have l: "load_missions_from_path E path w' = update_mission i ?add ?S"
    using law s update_dirs [OF loaded_all_dirs, of ?add] by (simp add: reads_missions_back_def)
  have "list_all (\<lambda>m. distinct (map mp_project_id (mn_projects m)) \<and> mn_dir m = []) (update_mission i ?add ?S)"
    if "store_ok ?S"
    using that m p by (intro update_mission_all) (auto simp: store_ok_def list_ex_iff find_mission_Ok)
  then show ?thesis using p by (simp add: store_ok_def l)
qed

lemma remove_project_refines:
  assumes law: "reads_missions_back E path"
    and r: "remove_project_from_mission_with_paths E path i j w = (Ok (), w')"
  shows "load_missions_from_path E path w' =
      update_mission i (\<lambda>m. m\<lparr>mn_projects := filter (\<lambda>p. mp_project_id p \<noteq> j) (mn_projects m)\<rparr>)
        (load_missions_from_path E path w)
    \<and> (store_ok (load_missions_from_path E path w) \<longrightarrow> store_ok (load_missions_from_path E path w'))"
proof -
  let ?S = "load_missions_from_path E path w"
  let ?del = "\<lambda>m. m\<lparr>mn_projects := filter (\<lambda>p. mp_project_id p \<noteq> j) (mn_projects m)\<rparr>"
  obtain v where s: "save_missions_to_path E path (update_mission i ?del ?S) v = (Ok (), w')"
    using r by (auto simp: remove_project_from_mission_with_paths_def Let_def split: result.splits option.splits)
  have l: "load_missions_from_path E path w' = update_mission i ?del ?S"
    using law s update_dirs [OF loaded_all_dirs, of ?del] by (simp add: reads_missions_back_def)
  have "list_all (\<lambda>m. distinct (map mp_project_id (mn_projects m)) \<and> mn_dir m = []) (update_mission i ?del ?S)"
    if "store_ok ?S"
    using that by (intro update_mission_all) (auto simp: store_ok_def distinct_map_filter)
  then show ?thesis by (simp add: store_ok_def l)
qed

text \<open>
  A mission gets each project at most once. Adding a project that is done appends exactly one entry to that
  mission, for a project that had none there, and changes nothing else in the store; removing one takes exactly
  its entry out. Both keep ids of missions, and of the projects in a mission, distinct.
\<close>

theorem mission_changes_refine_the_list:
  assumes law: "reads_missions_back E path"
  shows "(add_project_to_mission_with_paths E path dir i j source repo w = (Ok p, w') \<longrightarrow>
      load_missions_from_path E path w' =
        update_mission i (\<lambda>m. m\<lparr>mn_projects := mn_projects m @ [p]\<rparr>) (load_missions_from_path E path w)
      \<and> mp_project_id p = j
      \<and> (store_ok (load_missions_from_path E path w) \<longrightarrow> store_ok (load_missions_from_path E path w')))
    \<and> (remove_project_from_mission_with_paths E path i j w = (Ok (), u) \<longrightarrow>
      load_missions_from_path E path u =
        update_mission i (\<lambda>m. m\<lparr>mn_projects := filter (\<lambda>p. mp_project_id p \<noteq> j) (mn_projects m)\<rparr>)
          (load_missions_from_path E path w)
      \<and> (store_ok (load_missions_from_path E path w) \<longrightarrow> store_ok (load_missions_from_path E path u)))"
  using add_project_refines [OF law] remove_project_refines [OF law] by blast

subsection \<open>Loading\<close>

lemma keep_projects_none [simp]: "mn_projects (keep_projects [] m) = []"
  by (simp add: keep_projects_def)

lemma reconciled_missions:
  "fst (reconcile_missions E dir ids store w)
     = (list_ex (\<lambda>m. length (mn_projects (keep_projects ids m)) \<noteq> length (mn_projects m)) store, map (keep_projects ids) store)"
  by (simp add: reconcile_missions_def Let_def)

text \<open>
  A store that can not be read costs every mission its directory. \<open>load_missions\<close>, which only lists, takes an
  unreadable or unparsable \<open>missions.json\<close> for an empty one, and so every directory of the missions for one of no
  mission: it removes them all, with the worktrees and the work in them.
\<close>

theorem unreadable_store_costs_every_directory:
  assumes "pv_exists E w path" and "load_json_file_or_default E (ms_parse E) [] path w = None"
    and "pv_exists E w dir" and "ms_read_dir E w dir = Some names"
  shows "load_missions_with_paths E path dir ids w
    = ([], foldl (\<lambda>w name. snd (ms_remove_dir E (path_join dir name) w)) w names)"
  using assms
  by (simp add: load_missions_with_paths_def load_missions_from_path_def reconcile_missions_def remove_unknown_def Let_def)

text \<open>
  A configuration that can not be parsed empties every mission: it reads as one without projects, so listing
  the missions drops all their projects, and writes the store without them.
\<close>

theorem unparsable_config_empties_missions:
  assumes "cf_exists E w" and "cf_parse E (unwrap_or [] (cf_read E w)) = None"
  shows "list_all (\<lambda>m. mn_projects m = []) (fst (load_missions E w))"
proof -
  have "gc_projects (load_config E w) = []" using assms by (simp add: load_config_def default_config_def)
  then show ?thesis
    by (auto simp: load_missions_def load_missions_with_paths_def Let_def case_prod_unfold reconciled_missions list_all_iff)
qed

subsection \<open>Notes\<close>

text \<open>
  Notes are not lost: a file of notes that can not be read is left alone by every change, with an error; else
  a change that is done reads back as the notes before with just that note changed.
\<close>

theorem notes_are_kept:
  assumes "grove_data_path E ''notes.json'' = Some path"
    and "\<And>notes v v'. save_json_file E path (nt_render E notes) v = (Ok (), v') \<Longrightarrow> load_notes E v' = Ok notes"
  shows "(\<not> is_ok (load_notes E w) \<longrightarrow> snd (save_note E key content w) = w \<and> \<not> is_ok (fst (save_note E key content w)))
    \<and> (\<forall>ns w'. load_notes E w = Ok ns \<and> save_note E key content w = (Ok (), w') \<longrightarrow>
         (\<exists>notes'. load_notes E w' = Ok notes' \<and>
            map_of notes' = (map_of ns)(key := if trim content = [] then None else Some content)))"
proof (intro conjI impI allI)
  assume "\<not> is_ok (load_notes E w)"
  then show "snd (save_note E key content w) = w" "\<not> is_ok (fst (save_note E key content w))"
    by (cases "load_notes E w"; simp add: save_note_def change_notes_def)+
next
  fix ns w' assume a: "load_notes E w = Ok ns \<and> save_note E key content w = (Ok (), w')"
  let ?n = "if trim content = [] then AList.delete key ns else AList.update key content ns"
  have "load_notes E w' = Ok ?n"
    by (rule assms(2) [where v = w]) (use a assms(1) in \<open>auto simp: save_note_def change_notes_def\<close>)
  moreover have "map_of ?n = (map_of ns)(key := if trim content = [] then None else Some content)"
    by (simp add: update_conv' delete_conv')
  ultimately show "\<exists>notes'. load_notes E w' = Ok notes' \<and>
      map_of notes' = (map_of ns)(key := if trim content = [] then None else Some content)" by blast
qed

subsection \<open>A sample directory of missions\<close>

text \<open>The world: the names in the directory of the missions, the temporary file and the store; an empty text is no file.\<close>

record mission_world =
  mw_names :: "string list"
  mw_tmp :: string
  mw_file :: string

definition sample_dir :: string where "sample_dir = ''/h/.grove/missions''"
definition sample_path :: string where "sample_path = ''/h/.grove/missions.json''"

definition sample_mission :: "mission_project list \<Rightarrow> persisted_mission" where
  "sample_mission ps = \<lparr>pm_id = ''m'', pm_name = ''M'', pm_branch_name = None, pm_projects = ps, pm_collapsed = False\<rparr>"

definition sample_part :: mission_project where
  "sample_part = \<lparr>mp_project_id = ''p'', mp_branch = ''mission/m'', mp_path = ''/h/.grove/missions/m/r''\<rparr>"

text \<open>\<open>b\<close> is the store with an empty mission \<open>m\<close>, \<open>c\<close> the one with a project in it; only \<open>c\<close> and the text \<open>d\<close> of other
  stores can be written, where \<open>other\<close> says so.\<close>

definition sample_mission_env :: "bool \<Rightarrow> mission_world mission_env" where
  "sample_mission_env other =
     \<lparr>cf_exists = (\<lambda>w. True), cf_read = (\<lambda>w. None), cf_write = (\<lambda>s w. (True, w)), cf_parse = (\<lambda>s. None),
      cf_render = (\<lambda>c. []), cf_default_base_dir = [],
      cf_detected_theme = \<lparr>tt_colors = [], tt_font_family = [], tt_font_size = 0\<rparr>,
      pv_git = (\<lambda>cwd args w. (Ran (Some 0) [] [], w)),
      pv_is_dir = (\<lambda>w p. True), pv_is_file = (\<lambda>w p. False),
      pv_exists = (\<lambda>w p. p = ''/s'' \<or> p = sample_dir \<or> p = sample_path \<and> mw_file w \<noteq> [] \<or> p \<in> path_join sample_dir ` set (mw_names w)),
      pv_canonicalize = (\<lambda>w p. None), pv_child_dirs = (\<lambda>w p. []), pv_remotes = (\<lambda>w p. None),
      pv_created = (\<lambda>w p. 0), pv_dirty = (\<lambda>w p. True), pv_opens = (\<lambda>w p. True), pv_fetch_age = (\<lambda>w p. Some 0),
      pv_head = (\<lambda>w p. None), pv_remote_head = (\<lambda>w p r. None), pv_uuid = (\<lambda>w. (''u'', w)),
      pv_mkdir = (\<lambda>p w. (True, if starts_with (sample_dir @ ''/'') p \<and> drop (length sample_dir + 1) p \<notin> set (mw_names w)
                               then w\<lparr>mw_names := mw_names w @ [drop (length sample_dir + 1) p]\<rparr> else w)),
      pv_remove_dir = (\<lambda>p w. w),
      pv_write_file = (\<lambda>p s w. (other \<or> s = ''c'', w\<lparr>mw_tmp := s\<rparr>)), pv_check_ignore = (\<lambda>p s w. None),
      pv_copy = (\<lambda>a b w. (True, w)), pv_resources = [],
      pv_read_file = (\<lambda>w p. if p = sample_path then Some (mw_file w) else None), pv_head_ref = (\<lambda>w p. None),
      pv_gh = (\<lambda>org cwd args w. (NotRun [], w)), pv_shell = (\<lambda>c w. (Err [], w)), pv_parse_prs = (\<lambda>b. None),
      ms_home = Some ''/h'', ms_lock = (\<lambda>w. True),
      ms_parse = (\<lambda>s. if s = ''b'' then Some [sample_mission []] else if s = ''c'' then Some [sample_mission [sample_part]] else None),
      ms_render = (\<lambda>ms. if ms = [sample_mission [sample_part]] then ''c'' else ''d''),
      ms_read_dir = (\<lambda>w p. Some (mw_names w)),
      ms_rename = (\<lambda>a b w. (True, w\<lparr>mw_file := mw_tmp w, mw_tmp := []\<rparr>)), ms_remove_file = (\<lambda>p w. w),
      ms_remove_dir = (\<lambda>p w. (True, w\<lparr>mw_names := filter (\<lambda>n. path_join sample_dir n \<noteq> p) (mw_names w)\<rparr>)),
      ms_random = (\<lambda>w. (7, w)), nt_parse = (\<lambda>s. None), nt_render = (\<lambda>ns. [])\<rparr>"

definition sample_mission_world :: "string \<Rightarrow> mission_world" where
  "sample_mission_world file = \<lparr>mw_names = [''m''], mw_tmp = [], mw_file = file\<rparr>"

lemma sample_reads_back: "reads_missions_back (sample_mission_env False) sample_path"
  unfolding reads_missions_back_def
proof (intro allI impI)
  fix ms w w' assume s: "save_missions_to_path (sample_mission_env False) sample_path ms w = (Ok (), w')"
  have p: "path_parent sample_path = Some ''/h/.grove''" "\<not> starts_with (sample_dir @ ''/'') ''/h/.grove''" by code_simp+
  have w: "map persisted_of ms = [sample_mission [sample_part]]" "mw_file w' = ''c''"
    using s by (auto simp: save_missions_to_path_def save_missions_atomic_def sample_mission_env_def p Let_def split: if_splits)
  then have "load_missions_from_path (sample_mission_env False) sample_path w' = map mission_of (map persisted_of ms)"
    by (simp add: load_missions_from_path_def load_json_file_or_default_def sample_mission_env_def sample_path_def sample_dir_def)
  then show "load_missions_from_path (sample_mission_env False) sample_path w' = map (\<lambda>m. m\<lparr>mn_dir := []\<rparr>) ms"
    by (simp add: o_def)
qed

lemma sample_add:
  "add_project_to_mission_with_paths (sample_mission_env False) sample_path sample_dir ''m'' ''p'' ''/s'' ''r'' (sample_mission_world ''b'')
    = (Ok sample_part, sample_mission_world ''c'')"
  by code_simp

theorem mission_changes_refine_the_list_witness:
  "load_missions_from_path (sample_mission_env False) sample_path (sample_mission_world ''c'')
     = update_mission ''m'' (\<lambda>m. m\<lparr>mn_projects := mn_projects m @ [sample_part]\<rparr>)
         (load_missions_from_path (sample_mission_env False) sample_path (sample_mission_world ''b''))
   \<and> store_ok (load_missions_from_path (sample_mission_env False) sample_path (sample_mission_world ''c''))"
proof -
  have "store_ok (load_missions_from_path (sample_mission_env False) sample_path (sample_mission_world ''b''))" by code_simp
  then show ?thesis
    using mission_changes_refine_the_list [OF sample_reads_back, of sample_dir "''m''" "''p''" "''/s''" "''r''"
        "sample_mission_world ''b''" sample_part "sample_mission_world ''c''"] sample_add by blast
qed

theorem saved_missions_read_back_witness:
  "load_missions_from_path (sample_mission_env False) sample_path (sample_mission_world ''c'')
     = map (\<lambda>m. m\<lparr>mn_dir := []\<rparr>) [mission_of (sample_mission [sample_part])]"
proof (rule saved_missions_read_back)
  show "save_missions_to_path (sample_mission_env False) sample_path [mission_of (sample_mission [sample_part])]
      (sample_mission_world ''b'') = (Ok (), sample_mission_world ''c'')" by code_simp
  show "pv_exists (sample_mission_env False) (sample_mission_world ''c'') sample_path" by code_simp
  show "pv_read_file (sample_mission_env False) (sample_mission_world ''c'') sample_path
      = Some (ms_render (sample_mission_env False) (map persisted_of [mission_of (sample_mission [sample_part])]))" by code_simp
  show "ms_parse (sample_mission_env False)
        (ms_render (sample_mission_env False) (map persisted_of [mission_of (sample_mission [sample_part])]))
      = Some (map persisted_of [mission_of (sample_mission [sample_part])])" by code_simp
qed

theorem unreadable_store_costs_every_directory_witness:
  "fst (load_missions_with_paths (sample_mission_env False) sample_path sample_dir [] (sample_mission_world ''x'')) = []
   \<and> mw_names (snd (load_missions_with_paths (sample_mission_env False) sample_path sample_dir [] (sample_mission_world ''x''))) = []"
proof -
  have "load_missions_with_paths (sample_mission_env False) sample_path sample_dir [] (sample_mission_world ''x'')
    = ([], foldl (\<lambda>w name. snd (ms_remove_dir (sample_mission_env False) (path_join sample_dir name) w)) (sample_mission_world ''x'') [''m''])"
    by (rule unreadable_store_costs_every_directory) code_simp+
  moreover have "mw_names (foldl (\<lambda>w name. snd (ms_remove_dir (sample_mission_env False) (path_join sample_dir name) w))
      (sample_mission_world ''x'') [''m'']) = []" by code_simp
  ultimately show ?thesis by simp
qed

theorem unparsable_config_empties_missions_witness:
  "map mn_projects (fst (load_missions (sample_mission_env True) (sample_mission_world ''c''))) = [[]]"
proof -
  have "list_all (\<lambda>m. mn_projects m = []) (fst (load_missions (sample_mission_env True) (sample_mission_world ''c'')))"
    by (rule unparsable_config_empties_missions) (simp_all add: sample_mission_env_def)
  moreover have "length (fst (load_missions (sample_mission_env True) (sample_mission_world ''c''))) = 1" by code_simp
  ultimately show ?thesis by (cases "fst (load_missions (sample_mission_env True) (sample_mission_world ''c''))") auto
qed

lemma hex8_7: "hex8 7 = ''00000007''"
  by (simp add: hex8_def hex_digit_def upt_rec)

lemma sample_fresh: "fresh_id (sample_mission_env other) [] sample_dir (sample_mission_world f) = Some (''00000007'', sample_mission_world f)"
proof -
  have h: "hex8 7 = ''00000007''" by (rule hex8_7)
  have p: "\<not> pv_exists (sample_mission_env other) (sample_mission_world f) (path_join sample_dir ''00000007'')"
    by (simp add: sample_mission_env_def sample_mission_world_def path_join_def sample_dir_def sample_path_def starts_with_def)
  have r: "ms_random (sample_mission_env other) w = (7, w)" for w by (simp add: sample_mission_env_def)
  show ?thesis by (subst fresh_id.simps) (simp add: r h p)
qed


text \<open>
  A listing between the creation of the directory of a mission and the write of the store, which the lock does not
  prevent, removes the directory: the mission is in the store without it.
\<close>

theorem listing_during_creation_removes_the_directory:
  "let E = sample_mission_env True; w = sample_mission_world [];
       m = \<lparr>mn_id = ''00000007'', mn_name = ''N'', mn_branch_name = None, mn_projects = [],
            mn_dir = path_join sample_dir ''00000007'', mn_collapsed = False\<rparr>;
       made = snd (pv_mkdir E (mn_dir m) w);
       listed = snd (load_missions_with_paths E sample_path sample_dir [] made);
       saved = save_missions_to_path E sample_path [m] listed
   in fresh_id E [] sample_dir w = Some (mn_id m, w) \<and> pv_exists E made (mn_dir m)
      \<and> fst saved = Ok () \<and> \<not> pv_exists E (snd saved) (mn_dir m)"
  unfolding Let_def
proof (intro conjI)
  show "fresh_id (sample_mission_env True) [] sample_dir (sample_mission_world []) = Some (mn_id
      \<lparr>mn_id = ''00000007'', mn_name = ''N'', mn_branch_name = None, mn_projects = [],
            mn_dir = path_join sample_dir ''00000007'', mn_collapsed = False\<rparr>, sample_mission_world [])"
    by (simp add: sample_fresh)
qed code_simp+

definition sample_note_env :: "mission_world mission_env" where
  "sample_note_env = (sample_mission_env False)\<lparr>pv_exists := (\<lambda>w p. mw_file w \<noteq> []),
     pv_write_file := (\<lambda>p s w. (s = ''k'', w\<lparr>mw_file := s\<rparr>)),
     pv_read_file := (\<lambda>w p. Some (mw_file w)),
     nt_parse := (\<lambda>s. if s = ''k'' then Some [(''a'', ''t'')] else None),
     nt_render := (\<lambda>ns. if ns = [(''a'', ''t'')] then ''k'' else [])\<rparr>"

theorem notes_are_kept_witness:
  "\<exists>ns. load_notes sample_note_env (sample_mission_world ''k'') = Ok ns \<and> map_of ns ''a'' = Some ''t''"
proof -
  have p: "grove_data_path sample_note_env ''notes.json'' = Some ''/h/.grove/notes.json''" by code_simp
  have q: "path_parent ''/h/.grove/notes.json'' = Some ''/h/.grove''" "\<not> starts_with (sample_dir @ ''/'') ''/h/.grove''" by code_simp+
  have r: "load_notes sample_note_env v' = Ok ns"
    if "save_json_file sample_note_env ''/h/.grove/notes.json'' (nt_render sample_note_env ns) v = (Ok (), v')" for ns v v'
    using that p by (auto simp: save_json_file_def load_notes_def load_json_file_or_default_def sample_note_env_def
        sample_mission_env_def q Let_def split: if_splits)
  have l: "load_notes sample_note_env (sample_mission_world []) = Ok []" by code_simp
  have s: "save_note sample_note_env ''a'' ''t'' (sample_mission_world []) = (Ok (), sample_mission_world ''k'')" by code_simp
  have t: "trim ''t'' \<noteq> []" by code_simp
  have "\<forall>ns w'. load_notes sample_note_env (sample_mission_world []) = Ok ns
      \<and> save_note sample_note_env ''a'' ''t'' (sample_mission_world []) = (Ok (), w') \<longrightarrow>
      (\<exists>notes'. load_notes sample_note_env w' = Ok notes'
         \<and> map_of notes' = (map_of ns)(''a'' := if trim ''t'' = [] then None else Some ''t''))"
    by (rule conjunct2 [OF notes_are_kept [OF p]]) (rule r)
  then show ?thesis using l s t by fastforce
qed

end
