(* ===== verification/ProcessEnv.thy ===== *)
theory ProcessEnv
  imports Launcher
begin

text \<open>
  The environment of the programs that the app starts (\<open>grove-core/src/process_env.rs\<close>): where \<open>PATH\<close> and
  \<open>SSH_AUTH_SOCK\<close> come from when a graphical session has given the app little of either.

  The process, \<open>launchctl\<close>, \<open>ps\<close>, the user's shell and the file system are functions; what is resolved once is cached
  for the life of the process, so a lookup is a snapshot.
\<close>

subsection \<open>Values and their sources\<close>

definition normalize_env_value :: "string option \<Rightarrow> string option" where
  "normalize_env_value v = Option.bind v (\<lambda>s. if trim s = [] then None else Some (trim s))"

text \<open>The output of a program: whether it succeeded and its standard output, \<open>None\<close> if it did not start.\<close>

definition launchctl_getenv :: "(bool \<times> bytes) option \<Rightarrow> string option" where
  "launchctl_getenv outcome =
     (case outcome of
        None \<Rightarrow> None
      | Some (success, out) \<Rightarrow> if success then normalize_env_value (Some (from_utf8_lossy out)) else None)"

definition parse_env_var_from_ps_output :: "string \<Rightarrow> string \<Rightarrow> string option" where
  "parse_env_var_from_ps_output out key =
     Option.bind (List.find (\<lambda>seg. starts_with (key @ ''='') seg) (split_whitespace out))
       (\<lambda>seg. normalize_env_value (strip_prefix_str (key @ ''='') seg))"

text \<open>What \<open>ps\<close> says of a process: its parent, and its command with its environment.\<close>

record ps_world =
  ps_parent :: "u32 \<Rightarrow> (bool \<times> bytes) option"
  ps_eww :: "u32 \<Rightarrow> (bool \<times> bytes) option"

definition process_parent_id :: "ps_world \<Rightarrow> u32 \<Rightarrow> u32 option" where
  "process_parent_id W pid =
     (case ps_parent W pid of
        None \<Rightarrow> None
      | Some (success, out) \<Rightarrow> if success then parse_u32 (trim (from_utf8_lossy out)) else None)"

definition process_env_var :: "ps_world \<Rightarrow> u32 \<Rightarrow> string \<Rightarrow> string option" where
  "process_env_var W pid key =
     (case ps_eww W pid of
        None \<Rightarrow> None
      | Some (success, out) \<Rightarrow> if success then parse_env_var_from_ps_output (from_utf8_lossy out) key else None)"

fun ancestor_loop :: "ps_world \<Rightarrow> string \<Rightarrow> nat \<Rightarrow> u32 \<Rightarrow> string option" where
  "ancestor_loop W key 0 pid = None"
| "ancestor_loop W key (Suc n) pid =
     (case process_parent_id W pid of
        None \<Rightarrow> None
      | Some parent \<Rightarrow>
          if parent \<le> 1 then None
          else case process_env_var W parent key of
            Some v \<Rightarrow> Some v
          | None \<Rightarrow> ancestor_loop W key n parent)"

definition ancestor_process_env_var :: "ps_world \<Rightarrow> u32 \<Rightarrow> string \<Rightarrow> string option" where
  "ancestor_process_env_var W own_pid key = ancestor_loop W key 8 own_pid"

datatype env_value_source = Process | Launchctl | AncestorProcess | InteractiveShell

subsection \<open>The user's shell\<close>

definition PATH_MARKER :: string where "PATH_MARKER = ''__GROVE_PATH__''"
definition ENV_MARKER :: string where "ENV_MARKER = ''__GROVE_ENV__''"

definition SHELL_ENV_KEYS :: "string list" where
  "SHELL_ENV_KEYS = [''PATH'', ''SSH_AUTH_SOCK'', ''GH_TOKEN_SENDBIRD'', ''GH_TOKEN_SENDBIRD_PLAYGROUND'',
     ''GH_TOKEN_RICH_AUTOMATION'']"

definition LOGIN_SHELL_TIMEOUT :: nat where "LOGIN_SHELL_TIMEOUT = 2000"
definition LOGIN_SHELL_COMMAND_TIMEOUT :: nat where "LOGIN_SHELL_COMMAND_TIMEOUT = 15000"
definition LOGIN_SHELL_RETRY_ATTEMPTS :: nat where "LOGIN_SHELL_RETRY_ATTEMPTS = 4"

definition grove_real_zdotdir :: "string option \<Rightarrow> string option \<Rightarrow> string option \<Rightarrow> string" where
  "grove_real_zdotdir zdotdir grove_zsh home =
     (let real = unwrap_or [] zdotdir
      in if real \<noteq> [] \<and> grove_zsh \<noteq> Some real then real else unwrap_or [] home)"

text \<open>The arguments of the shell and the variables set for it.\<close>

definition shell_command ::
  "string option \<Rightarrow> string option \<Rightarrow> string option \<Rightarrow> bool \<Rightarrow> string \<Rightarrow> string list \<times> (string \<times> string) list" where
  "shell_command zdotdir grove_zsh home interactive command =
     (if interactive
      then ([''-i'', ''-c'', command],
            case grove_zsh of
              None \<Rightarrow> []
            | Some z \<Rightarrow> [(''GROVE_REAL_ZDOTDIR'', grove_real_zdotdir zdotdir grove_zsh home), (''ZDOTDIR'', z)])
      else ([''-l'', ''-c'', command], []))"

definition is_posix_like_shell :: "string \<Rightarrow> bool" where
  "is_posix_like_shell shell \<longleftrightarrow>
     unwrap_or [] (path_file_name shell) \<in> {''bash'', ''zsh'', ''sh'', ''dash'', ''ksh''}"

text \<open>
  The child that runs the command, in a world \<open>'w\<close>: how it ended, if it did; the time since its start in
  milliseconds; a sleep; the kill of its group. Its outputs are read when it has ended.
\<close>

record 'w shell_world =
  sw_spawn :: "string \<Rightarrow> string list \<times> (string \<times> string) list \<Rightarrow> 'w \<Rightarrow> bool \<times> 'w"
  sw_try_wait :: "'w \<Rightarrow> (bool option, string) result"
  sw_elapsed :: "'w \<Rightarrow> nat"
  sw_sleep :: "nat \<Rightarrow> 'w \<Rightarrow> 'w"
  sw_kill :: "'w \<Rightarrow> 'w"
  sw_output :: "'w \<Rightarrow> (bytes \<times> bytes) option"

datatype shell_error = UnsupportedShell string | NotLaunched | NotPolled string | NotRead | Failed string | TimedOut bool

datatype polled = Ended bool | Overdue | Broken string

text \<open>The poll: \<open>None\<close> is a loop that never returns.\<close>

partial_function (option) poll_child :: "'w shell_world \<Rightarrow> nat \<Rightarrow> 'w \<Rightarrow> (polled \<times> 'w) option" where
  "poll_child E limit w =
     (case sw_try_wait E w of
        Err e \<Rightarrow> Some (Broken e, w)
      | Ok (Some success) \<Rightarrow> Some (Ended success, w)
      | Ok None \<Rightarrow>
          if limit \<le> sw_elapsed E w then Some (Overdue, sw_kill E w) else poll_child E limit (sw_sleep E 50 w))"

definition shell_output ::
  "'w shell_world \<Rightarrow> string option \<Rightarrow> (string \<Rightarrow> bool \<Rightarrow> string list \<times> (string \<times> string) list) \<Rightarrow> string \<Rightarrow> bool \<Rightarrow> 'w
   \<Rightarrow> ((string, shell_error) result \<times> 'w) option" where
  "shell_output E shell_var arguments command interactive w =
     (let shell = unwrap_or ''/bin/zsh'' shell_var in
      if \<not> is_posix_like_shell shell then Some (Err (UnsupportedShell shell), w)
      else case sw_spawn E shell (arguments command interactive) w of
        (False, w) \<Rightarrow> Some (Err NotLaunched, w)
      | (True, w) \<Rightarrow>
          map_option (\<lambda>(p, w).
            (case p of
               Broken e \<Rightarrow> Err (NotPolled e)
             | Overdue \<Rightarrow> Err (TimedOut interactive)
             | Ended success \<Rightarrow>
                 (case sw_output E w of
                    None \<Rightarrow> Err NotRead
                  | Some (out, err) \<Rightarrow>
                      if success then Ok (from_utf8_lossy out) else Err (Failed (trim (from_utf8_lossy err)))), w))
            (poll_child E LOGIN_SHELL_COMMAND_TIMEOUT w))"

text \<open>\<open>str::rfind\<close>: the last position.\<close>

definition rfind_str :: "string \<Rightarrow> string \<Rightarrow> nat option" where
  "rfind_str p s = map_option (\<lambda>i. length s - length p - i) (find_str (rev p) (rev s))"

text \<open>The text between the first start tag and the last end tag.\<close>

definition between_tags :: "string \<Rightarrow> string \<Rightarrow> string option" where
  "between_tags marker out =
     (case find_str (marker @ [CHR 0x0A]) out of
        None \<Rightarrow> None
      | Some i \<Rightarrow>
          (case rfind_str (CHR 0x0A # marker) out of
             None \<Rightarrow> None
           | Some e \<Rightarrow>
               (let start = i + length marker + 1
                in if e \<le> start then None else Some (List.take (e - start) (drop start out)))))"

definition parse_path_marker :: "string \<Rightarrow> string option" where
  "parse_path_marker out = normalize_env_value (between_tags PATH_MARKER out)"

definition env_line :: "string \<Rightarrow> (string \<times> string) option" where
  "env_line line =
     Option.bind (split_once (CHR ''='') line)
       (\<lambda>(key, v). map_option (\<lambda>v. (key, v)) (normalize_env_value (Some v)))"

text \<open>A later line of a key replaces an earlier one.\<close>

definition parse_env_marker_output :: "string \<Rightarrow> (string \<times> string) list" where
  "parse_env_marker_output out =
     (case between_tags ENV_MARKER out of
        None \<Rightarrow> []
      | Some body \<Rightarrow> foldl (\<lambda>env (k, v). AList.update k v env) [] (List.map_filter env_line (lines body)))"

text \<open>What the shell is given to print its variables between two markers, and to print its path.\<close>

definition shell_env_snapshot_command :: string where
  "shell_env_snapshot_command =
     (let newline = [CHR 0x5C] @ ''n''; q = [quote_char]; d = [dquote_char]
      in ''printf '' @ q @ ''%s'' @ newline @ q @ '' '' @ shell_quote ENV_MARKER @ ''; for key in ''
         @ join_words (map shell_quote SHELL_ENV_KEYS) @ ''; do value='' @ d @ ''$(/usr/bin/printenv '' @ d @ ''$key'' @ d
         @ '' 2>/dev/null || true)'' @ d @ ''; printf '' @ q @ ''%s=%s'' @ newline @ q @ '' '' @ d @ ''$key'' @ d @ '' '' @ d
         @ ''$value'' @ d @ ''; done; printf '' @ q @ ''%s'' @ newline @ q @ '' '' @ shell_quote ENV_MARKER)"

definition login_path_command :: string where
  "login_path_command =
     (let newline = [CHR 0x5C] @ ''n''; q = [quote_char]; d = [dquote_char]
      in ''printf '' @ q @ newline @ PATH_MARKER @ newline @ ''%s'' @ newline @ PATH_MARKER @ q @ '' '' @ d
         @ ''$(/usr/bin/printenv PATH)'' @ d)"

definition resolve_login_shell_path_once ::
  "'w shell_world \<Rightarrow> string option \<Rightarrow> 'w \<Rightarrow> (string option \<times> 'w) option" where
  "resolve_login_shell_path_once E shell_var w =
     (case shell_var of
        None \<Rightarrow> Some (None, w)
      | Some shell \<Rightarrow>
          if \<not> is_posix_like_shell shell then Some (None, w)
          else case sw_spawn E shell ([''-l'', ''-c'', login_path_command], []) w of
            (False, w) \<Rightarrow> Some (None, w)
          | (True, w) \<Rightarrow>
              map_option (\<lambda>(p, w).
                (case p of
                   Ended _ \<Rightarrow> Option.bind (sw_output E w) (\<lambda>(out, err). Option.bind (from_utf8 out) parse_path_marker)
                 | _ \<Rightarrow> None, w))
                (poll_child E LOGIN_SHELL_TIMEOUT w))"

definition resolve_interactive_shell_env_once ::
  "'w shell_world \<Rightarrow> string option \<Rightarrow> (string \<Rightarrow> bool \<Rightarrow> string list \<times> (string \<times> string) list) \<Rightarrow> 'w
   \<Rightarrow> ((string \<times> string) list option \<times> 'w) option" where
  "resolve_interactive_shell_env_once E shell_var arguments w =
     map_option (\<lambda>(r, w). (case r of Ok out \<Rightarrow> Some (parse_env_marker_output out) | Err _ \<Rightarrow> None, w))
       (shell_output E shell_var arguments shell_env_snapshot_command True w)"

text \<open>\<open>resolver\<close> is one attempt; \<open>pause\<close> the sleep after one that failed, except the last.\<close>

fun resolve_with_retry :: "nat \<Rightarrow> ('w \<Rightarrow> 'w) \<Rightarrow> ('w \<Rightarrow> 'a option \<times> 'w) \<Rightarrow> 'w \<Rightarrow> 'a option \<times> 'w" where
  "resolve_with_retry 0 pause resolver w = (None, w)"
| "resolve_with_retry (Suc n) pause resolver w =
     (case resolver w of
        (Some v, w) \<Rightarrow> (Some v, w)
      | (None, w) \<Rightarrow> resolve_with_retry n pause resolver (if n = 0 then w else pause w))"

subsection \<open>Merging paths\<close>

definition add_candidate :: "string list \<Rightarrow> string \<Rightarrow> string list" where
  "add_candidate merged entry =
     (if trim entry = [] \<or> trim entry \<in> set merged then merged else merged @ [trim entry])"

definition path_entries :: "string option \<Rightarrow> string list" where
  "path_entries candidate = (case candidate of None \<Rightarrow> [] | Some s \<Rightarrow> split_paths s)"

definition merge_path_candidates :: "string option \<Rightarrow> string option \<Rightarrow> string option" where
  "merge_path_candidates primary secondary =
     (let merged = foldl add_candidate [] (path_entries primary @ path_entries secondary)
      in if merged = [] then None else Some (join_colon merged))"

subsection \<open>Choosing\<close>

text \<open>\<open>EnvSourceLookup\<close>.\<close>

record env_lookup =
  el_process :: "string \<Rightarrow> string option"
  el_launchctl :: "string \<Rightarrow> string option"
  el_ancestor :: "string \<Rightarrow> string option"
  el_interactive :: "string \<Rightarrow> string option"
  el_login_path :: "string option"
  el_well_known :: "string option"

record env_snapshot =
  es_process :: "string option"
  es_launchctl :: "string option"
  es_ancestor :: "string option"
  es_interactive :: "string option"
  es_login :: "string option"
  es_well_known :: "string option"

definition collect_env_snapshot :: "env_lookup \<Rightarrow> string \<Rightarrow> bool \<Rightarrow> bool \<Rightarrow> bool \<Rightarrow> bool \<Rightarrow> env_snapshot" where
  "collect_env_snapshot L key launchctl ancestor interactive login =
     \<lparr>es_process = normalize_env_value (el_process L key),
      es_launchctl = (if launchctl then el_launchctl L key else None),
      es_ancestor = (if ancestor then el_ancestor L key else None),
      es_interactive = (if interactive then el_interactive L key else None),
      es_login = (if login then el_login_path L else None),
      es_well_known = el_well_known L\<rparr>"

definition preferred_env_var_selection :: "env_snapshot \<Rightarrow> (env_value_source \<times> string) option" where
  "preferred_env_var_selection S =
     (case es_process S of
        Some v \<Rightarrow> Some (Process, v)
      | None \<Rightarrow> map_option (Pair InteractiveShell) (es_interactive S))"

definition preferred_env_var :: "env_lookup \<Rightarrow> string \<Rightarrow> string option" where
  "preferred_env_var L key =
     map_option snd (preferred_env_var_selection (collect_env_snapshot L key False False True False))"

text \<open>\<open>is_socket\<close> says of a path that it names a socket.\<close>

definition validated_shell_ssh_auth_sock :: "(string \<Rightarrow> bool) \<Rightarrow> string option \<Rightarrow> string option" where
  "validated_shell_ssh_auth_sock is_socket v =
     Option.bind (normalize_env_value v) (\<lambda>s. if is_socket s then Some s else None)"

definition preferred_ssh_auth_sock_selection ::
  "(string \<Rightarrow> bool) \<Rightarrow> env_snapshot \<Rightarrow> (env_value_source \<times> string) option" where
  "preferred_ssh_auth_sock_selection is_socket S =
     (case es_process S of
        Some v \<Rightarrow> Some (Process, v)
      | None \<Rightarrow>
          (case es_launchctl S of
             Some v \<Rightarrow> Some (Launchctl, v)
           | None \<Rightarrow>
               (case validated_shell_ssh_auth_sock is_socket (es_ancestor S) of
                  Some v \<Rightarrow> Some (AncestorProcess, v)
                | None \<Rightarrow>
                    map_option (Pair InteractiveShell) (validated_shell_ssh_auth_sock is_socket (es_interactive S)))))"

definition preferred_ssh_auth_sock :: "(string \<Rightarrow> bool) \<Rightarrow> env_lookup \<Rightarrow> string option" where
  "preferred_ssh_auth_sock is_socket L =
     map_option snd (preferred_ssh_auth_sock_selection is_socket (collect_env_snapshot L ''SSH_AUTH_SOCK'' True True True False))"

definition build_enriched_path :: "string option \<Rightarrow> string \<Rightarrow> string" where
  "build_enriched_path home base =
     (case home of None \<Rightarrow> base | Some h \<Rightarrow> path_join h ''.grove/bin'' @ '':'' @ base)"

text \<open>The directories of macOS and of other systems that exist.\<close>

definition WELL_KNOWN_BIN_DIRS :: "string list" where
  "WELL_KNOWN_BIN_DIRS = [''/opt/homebrew/bin'', ''/opt/homebrew/sbin'', ''/usr/local/bin'', ''/usr/local/sbin'']"

definition other_bin_dirs :: "string option \<Rightarrow> string list" where
  "other_bin_dirs home =
     [''/usr/local/bin''] @ (case home of None \<Rightarrow> [] | Some h \<Rightarrow> [path_join h ''.local/bin'']) @ [''/snap/bin'']"

definition well_known_path_suffix :: "(string \<Rightarrow> bool) \<Rightarrow> string list \<Rightarrow> string option" where
  "well_known_path_suffix is_dir dirs =
     (let there = filter is_dir dirs in if there = [] then None else Some (join_colon there))"

definition merged_path_value :: "env_snapshot \<Rightarrow> string option" where
  "merged_path_value S =
     merge_path_candidates
       (merge_path_candidates (merge_path_candidates (es_process S) (es_interactive S)) (es_login S))
       (es_well_known S)"

record path_diagnostics =
  pd_process_env :: "string option"
  pd_interactive_shell_env :: "string option"
  pd_login_shell_env :: "string option"
  pd_preferred :: "(env_value_source \<times> string) option"
  pd_merged_base_value :: string
  pd_final_value :: string

text \<open>\<open>raw\<close> is the variable as it is in the process.\<close>

definition path_diagnostics_of :: "string option \<Rightarrow> string option \<Rightarrow> env_lookup \<Rightarrow> path_diagnostics" where
  "path_diagnostics_of home raw L =
     (let S = collect_env_snapshot L ''PATH'' False False True True;
          base = unwrap_or (unwrap_or [] raw) (merged_path_value S)
      in \<lparr>pd_process_env = es_process S, pd_interactive_shell_env = es_interactive S, pd_login_shell_env = es_login S,
          pd_preferred = preferred_env_var_selection S, pd_merged_base_value = base,
          pd_final_value = build_enriched_path home base\<rparr>)"

definition enriched_path :: "string option \<Rightarrow> string option \<Rightarrow> env_lookup \<Rightarrow> string" where
  "enriched_path home raw L = pd_final_value (path_diagnostics_of home raw L)"

definition subprocess_env_pairs ::
  "string option \<Rightarrow> string option \<Rightarrow> (string \<Rightarrow> bool) \<Rightarrow> env_lookup \<Rightarrow> (string \<times> string) list" where
  "subprocess_env_pairs home raw is_socket L =
     (''PATH'', enriched_path home raw L)
     # (case preferred_ssh_auth_sock is_socket L of None \<Rightarrow> [] | Some s \<Rightarrow> [(''SSH_AUTH_SOCK'', s)])"

end
