(* ===== verification/ProcessEnvProps.thy ===== *)
theory ProcessEnvProps
  imports ProcessEnv LauncherProps
begin

text \<open>
  What the resolution of the environment guarantees: the merged path is every directory once, in order; a snapshot of the
  shell reads back; the polls end; and where a comment or a value is cut.
\<close>

subsection \<open>Trimming\<close>

lemma set_drop_any: "set (drop_any pats xs) \<subseteq> set xs"
  using drop_any_suffix [of xs pats] by (metis Un_upper2 set_append)

lemma set_trim_bytes: "set (trim_bytes bs) \<subseteq> set bs"
  using set_drop_any [of "map rev white_space" "rev (drop_any white_space bs)"] set_drop_any [of white_space bs]
  by (auto simp: trim_bytes_def)

lemma set_trim: "set (trim s) \<subseteq> set s"
proof -
  have "set (trim s) = (\<lambda>b. char_of (unat b)) ` set (trim_bytes (bytes_of s))" by (simp add: trim_def chars_of_def)
  also have "\<dots> \<subseteq> (\<lambda>b. char_of (unat b)) ` set (bytes_of s)" using set_trim_bytes by blast
  also have "\<dots> = set (chars_of (bytes_of s))" by (simp add: chars_of_def)
  finally show ?thesis by simp
qed

subsection \<open>The merged path\<close>

text \<open>The first occurrence of each element.\<close>

definition first_occurrences :: "'a list \<Rightarrow> 'a list" where
  "first_occurrences xs = foldl (\<lambda>acc x. if x \<in> set acc then acc else acc @ [x]) [] xs"

definition clean_entries :: "string option \<Rightarrow> string list" where
  "clean_entries s = filter (\<lambda>e. e \<noteq> []) (map trim (path_entries s))"

lemma add_candidates:
  "foldl add_candidate acc es =
   foldl (\<lambda>acc x. if x \<in> set acc then acc else acc @ [x]) acc (filter (\<lambda>e. e \<noteq> []) (map trim es))"
  by (induction es arbitrary: acc) (auto simp: add_candidate_def)

lemma occurrences_set: "set (foldl (\<lambda>acc x. if x \<in> set acc then acc else acc @ [x]) acc xs) = set acc \<union> set xs"
  by (induction xs arbitrary: acc) auto

lemma occurrences_distinct: "distinct acc \<Longrightarrow> distinct (foldl (\<lambda>acc x. if x \<in> set acc then acc else acc @ [x]) acc xs)"
  by (induction xs arbitrary: acc) auto

lemma occurrences_same: "distinct (acc @ xs) \<Longrightarrow> foldl (\<lambda>acc x. if x \<in> set acc then acc else acc @ [x]) acc xs = acc @ xs"
  by (induction xs arbitrary: acc) auto

lemma first_occurrences_append:
  "first_occurrences (first_occurrences xs @ ys) = first_occurrences (xs @ ys)"
proof -
  have "foldl (\<lambda>acc x. if x \<in> set acc then acc else acc @ [x]) [] (first_occurrences xs) = first_occurrences xs"
    using occurrences_same [of "[]" "first_occurrences xs"] occurrences_distinct [of "[]" xs]
    by (simp add: first_occurrences_def)
  then show ?thesis by (simp add: first_occurrences_def)
qed

lemma merge_is:
  "merge_path_candidates a b =
   (let m = first_occurrences (clean_entries a @ clean_entries b) in if m = [] then None else Some (join_colon m))"
  by (simp add: merge_path_candidates_def add_candidates first_occurrences_def clean_entries_def Let_def)

lemma clean_entry: "e \<in> set (clean_entries s) \<Longrightarrow> CHR '':'' \<notin> set e \<and> trim e = e \<and> e \<noteq> []"
  using split_paths_pieces set_trim by (fastforce simp: clean_entries_def path_entries_def split: option.splits)

lemma clean_join:
  assumes "\<forall>e \<in> set m. CHR '':'' \<notin> set e \<and> trim e = e \<and> e \<noteq> []"
  shows "clean_entries (if m = [] then None else Some (join_colon m)) = m"
proof (cases "m = []")
  case False
  then have "path_entries (Some (join_colon m)) = m" using split_join_colon assms by (simp add: path_entries_def)
  moreover have "map trim m = m" "filter (\<lambda>e. e \<noteq> []) m = m" using assms by (auto intro: map_idI filter_True)
  ultimately show ?thesis using False by (simp add: clean_entries_def)
qed (simp add: clean_entries_def path_entries_def)

lemma clean_merge:
  "clean_entries (merge_path_candidates a b) = first_occurrences (clean_entries a @ clean_entries b)"
proof -
  let ?m = "first_occurrences (clean_entries a @ clean_entries b)"
  have "set ?m = set (clean_entries a) \<union> set (clean_entries b)" by (simp add: first_occurrences_def occurrences_set)
  then have "\<forall>e \<in> set ?m. CHR '':'' \<notin> set e \<and> trim e = e \<and> e \<noteq> []" using clean_entry by auto
  then show ?thesis using clean_join [of ?m] by (simp add: merge_is Let_def)
qed

text \<open>
  C31. The merged path is every directory of its four sources once, at its first place, in the order of the sources: the
  process, the interactive shell, the login shell, the well-known directories. No entry is empty and none has blanks
  around it.
\<close>

theorem merged_path_has_every_directory_once:
  "clean_entries (merged_path_value S) =
     first_occurrences (clean_entries (es_process S) @ clean_entries (es_interactive S) @ clean_entries (es_login S)
       @ clean_entries (es_well_known S))
   \<and> path_entries (merged_path_value S) = clean_entries (merged_path_value S)
   \<and> distinct (clean_entries (merged_path_value S))"
proof -
  let ?m = "first_occurrences (clean_entries (es_process S) @ clean_entries (es_interactive S) @ clean_entries (es_login S)
    @ clean_entries (es_well_known S))"
  have c: "clean_entries (merged_path_value S) = ?m"
    by (simp add: merged_path_value_def clean_merge first_occurrences_append)
  have "path_entries (merge_path_candidates a b) = clean_entries (merge_path_candidates a b)" for a b
    unfolding clean_merge
    using split_join_colon [of "first_occurrences (clean_entries a @ clean_entries b)"] clean_entry
    by (auto simp: merge_is Let_def path_entries_def first_occurrences_def occurrences_set)
  then have "path_entries (merged_path_value S) = clean_entries (merged_path_value S)" by (simp add: merged_path_value_def)
  moreover have "distinct ?m" by (simp add: first_occurrences_def occurrences_distinct)
  ultimately show ?thesis using c by simp
qed

subsection \<open>Reading the shell\<close>

lemma find_str_here:
  "(\<And>i. i < length a \<Longrightarrow> \<not> starts_with p (drop i (a @ s))) \<Longrightarrow> starts_with p s \<Longrightarrow> find_str p (a @ s) = Some (length a)"
proof (induction a)
  case Nil
  then show ?case by (cases s) (auto simp: starts_with_iff)
next
  case (Cons x a)
  have "find_str p (a @ s) = Some (length a)"
    using Cons.prems(1) [of "Suc _"] Cons.prems(2) by (intro Cons.IH) auto
  then show ?case using Cons.prems(1) [of 0] by simp
qed

lemma find_tag:
  assumes c: "c \<notin> set t" and a: "\<not> contains_str (t @ [c]) a"
  shows "find_str (t @ [c]) (a @ (t @ [c]) @ b) = Some (length a)"
proof (rule find_str_here)
  fix i assume i: "i < length a"
  show "\<not> starts_with (t @ [c]) (drop i (a @ (t @ [c]) @ b))"
  proof
    assume "starts_with (t @ [c]) (drop i (a @ (t @ [c]) @ b))"
    then obtain r where r: "drop i (a @ (t @ [c]) @ b) = (t @ [c]) @ r" by (auto simp: starts_with_iff)
    then have n: "(a @ (t @ [c]) @ b) ! (i + length t) = c"
      using nth_drop [of i "a @ (t @ [c]) @ b" "length t"] i by (simp add: nth_append)
    show False
    proof (cases "i + length t < length a")
      case True
      have "drop i a @ (t @ [c]) @ b = (t @ [c]) @ r" using r i by simp
      then have "take (length t + 1) (drop i a @ (t @ [c]) @ b) = take (length t + 1) ((t @ [c]) @ r)" by (rule arg_cong)
      then have "take (length t + 1) (drop i a) = t @ [c]" using True by simp
      then have "a = take i a @ (t @ [c]) @ drop (length t + 1) (drop i a)"
        by (metis append_take_drop_id)
      then show False using a unfolding contains_str_iff by blast
    next
      case False
      then have k: "i + length t - length a < length t" using i by arith
      have "(a @ (t @ [c]) @ b) ! (i + length t) = t ! (i + length t - length a)"
        using k False by (simp add: nth_append)
      moreover have "t ! (i + length t - length a) \<in> set t" using k by (rule nth_mem)
      ultimately show False using n c by simp
    qed
  qed
qed (auto simp: starts_with_iff)

lemma contains_rev: "contains_str (rev p) (rev s) = contains_str p s"
  unfolding contains_str_iff by (metis append.assoc rev_append rev_rev_ident)

lemma between_tags_reads:
  assumes "CHR 0x0A \<notin> set m" and "\<not> contains_str (m @ [CHR 0x0A]) noise" and "\<not> contains_str (CHR 0x0A # m) rest"
    and "body \<noteq> []"
  shows "between_tags m (noise @ m @ CHR 0x0A # body @ CHR 0x0A # m @ rest) = Some body"
proof -
  let ?out = "noise @ m @ CHR 0x0A # body @ CHR 0x0A # m @ rest"
  have f: "find_str (m @ [CHR 0x0A]) ?out = Some (length noise)"
    using find_tag [OF assms(1,2), of "body @ CHR 0x0A # m @ rest"] by simp
  have "\<not> contains_str (rev m @ [CHR 0x0A]) (rev rest)"
    using assms(3) contains_rev [of "CHR 0x0A # m" rest] by simp
  then have "find_str (rev m @ [CHR 0x0A]) (rev rest @ (rev m @ [CHR 0x0A]) @ rev (noise @ m @ CHR 0x0A # body))
      = Some (length rest)"
    using find_tag [of "CHR 0x0A" "rev m" "rev rest"] assms(1) by simp
  then have "rfind_str (CHR 0x0A # m) ?out = Some (length noise + length m + 1 + length body)"
    by (simp add: rfind_str_def)
  then show ?thesis using f assms(4) by (simp add: between_tags_def)
qed

fun join_lines :: "string list \<Rightarrow> string" where
  "join_lines [] = []"
| "join_lines [s] = s"
| "join_lines (s # ss) = s @ CHR 0x0A # join_lines ss"

lemma split_join_lines:
  "ps \<noteq> [] \<Longrightarrow> \<forall>p \<in> set ps. CHR 0x0A \<notin> set p \<Longrightarrow> split_char (CHR 0x0A) (join_lines ps) = ps"
  by (induction ps rule: join_lines.induct) (auto simp: split_char_append split_char_plain)

lemma lines_join:
  assumes "ps \<noteq> []" and "\<forall>p \<in> set ps. p \<noteq> [] \<and> CHR 0x0A \<notin> set p \<and> CHR 0x0D \<notin> set p"
  shows "lines (join_lines ps) = ps"
proof -
  have "chop_cr p = p" if "p \<in> set ps" for p
  proof -
    have "last p \<noteq> CHR 0x0D" using that assms(2) last_in_set [of p] by metis
    then show ?thesis by (simp add: chop_cr_def)
  qed
  then have "map chop_cr (butlast ps) = butlast ps" by (intro map_idI) (auto dest: in_set_butlastD)
  moreover have "last ps \<noteq> []" using assms by simp
  ultimately show ?thesis using split_join_lines [of ps] assms by (simp add: lines_def Let_def)
qed

text \<open>What the snapshot command prints for these values, in its own order of the keys.\<close>

definition shell_prints :: "(string \<times> string) list \<Rightarrow> string" where
  "shell_prints kvs =
     ENV_MARKER @ CHR 0x0A # join_lines (map (\<lambda>(k, v). k @ ''='' @ v) kvs) @ CHR 0x0A # ENV_MARKER @ [CHR 0x0A]"

lemma env_update_map:
  "map_of (foldl (\<lambda>env (k, v). AList.update k v env) acc kvs) = map_of acc ++ map_of (rev kvs)"
  by (induction kvs arbitrary: acc) (auto simp: update_conv' map_add_def fun_eq_iff split: option.splits)

lemma clean_values:
  "distinct (map fst kvs) \<Longrightarrow>
   map_of (rev (List.map_filter (\<lambda>(k, v). map_option (Pair k) (f v)) kvs)) k = Option.bind (map_of kvs k) f"
proof (induction kvs)
  case (Cons kv kvs)
  obtain j v where kv: "kv = (j, v)" by (cases kv)
  have n: "map_of kvs j = None" using Cons.prems kv by (simp add: map_of_eq_None_iff)
  show ?case using Cons n by (cases "f v") (auto simp: kv map_filter_simps map_add_def split: option.splits)
qed (simp add: map_filter_simps)


subsection \<open>Waiting for the shell\<close>

text \<open>
  Waiting for the user's shell ends: if a sleep takes time, the poll returns, whatever the shell does, and a shell
  that did not end in time has been killed.
\<close>

theorem waiting_for_the_shell_ends:
  assumes "\<And>v. sw_elapsed E v < sw_elapsed E (sw_sleep E 50 v)"
  shows "\<exists>p v. poll_child E limit w = Some (p, v) \<and> (p = Overdue \<longrightarrow> (\<exists>u. limit \<le> sw_elapsed E u \<and> v = sw_kill E u))"
proof (induction "limit - sw_elapsed E w" arbitrary: w rule: less_induct)
  case less
  show ?case
  proof (cases "sw_try_wait E w = Ok None \<and> \<not> limit \<le> sw_elapsed E w")
    case True
    then have "limit - sw_elapsed E (sw_sleep E 50 w) < limit - sw_elapsed E w" using assms [of w] by linarith
    from less [OF this] show ?thesis using True by (subst poll_child.simps) simp
  next
    case False
    then show ?thesis
      by (subst (1) poll_child.simps) (auto split: result.splits option.splits)
  qed
qed

subsection \<open>Where the code departs from what it says\<close>

text \<open>
  A socket in a directory with a blank in its name is never found in an ancestor: what \<open>ps\<close> prints is cut at blanks.
\<close>

theorem blanks_cut_the_socket:
  "parse_env_var_from_ps_output ''zsh SSH_AUTH_SOCK=/Group Containers/s X=1'' ''SSH_AUTH_SOCK'' = Some ''/Group''"
proof -
  have w: "split_whitespace ''zsh SSH_AUTH_SOCK=/Group Containers/s X=1'' =
      [''zsh'', ''SSH_AUTH_SOCK=/Group'', ''Containers/s'', ''X=1'']" by code_simp
  have "trim ''/Group'' = ''/Group''" by code_simp
  then show ?thesis
    unfolding parse_env_var_from_ps_output_def w
    by (simp add: starts_with_def strip_prefix_str_def normalize_env_value_def)
qed

text \<open>
  The path of a subprocess is not on a fast path: it depends on the login shell, which is started for it.
\<close>

theorem subprocess_path_asks_the_login_shell:
  "\<exists>L p q. subprocess_env_pairs None None is_socket (L\<lparr>el_login_path := p\<rparr>)
     \<noteq> subprocess_env_pairs None None is_socket (L\<lparr>el_login_path := q\<rparr>)"
proof -
  let ?L = "\<lparr>el_process = (\<lambda>k. None), el_launchctl = (\<lambda>k. None), el_ancestor = (\<lambda>k. None), el_interactive = (\<lambda>k. None),
    el_login_path = None, el_well_known = None\<rparr>"
  have "trim ''/x'' = ''/x''" by code_simp
  then have "enriched_path None None (?L\<lparr>el_login_path := Some ''/x''\<rparr>) = ''/x''"
    by (simp add: enriched_path_def path_diagnostics_of_def merged_path_value_def merge_path_candidates_def path_entries_def
        collect_env_snapshot_def normalize_env_value_def build_enriched_path_def split_paths_def add_candidate_def
        Let_def unwrap_or_def)
  moreover have "enriched_path None None (?L\<lparr>el_login_path := None\<rparr>) = []"
    by (simp add: enriched_path_def path_diagnostics_of_def merged_path_value_def merge_path_candidates_def path_entries_def
        collect_env_snapshot_def normalize_env_value_def build_enriched_path_def Let_def unwrap_or_def)
  ultimately have "enriched_path None None (?L\<lparr>el_login_path := Some ''/x''\<rparr>) \<noteq> enriched_path None None (?L\<lparr>el_login_path := None\<rparr>)"
    by simp
  then have "subprocess_env_pairs None None is_socket (?L\<lparr>el_login_path := Some ''/x''\<rparr>)
     \<noteq> subprocess_env_pairs None None is_socket (?L\<lparr>el_login_path := None\<rparr>)"
    by (simp add: subprocess_env_pairs_def)
  then show ?thesis by blast
qed

subsection \<open>Samples\<close>

definition sample_shell :: "nat shell_world" where
  "sample_shell =
     \<lparr>sw_spawn = (\<lambda>shell args w. (True, w)), sw_try_wait = (\<lambda>w. Ok None), sw_elapsed = (\<lambda>w. w),
      sw_sleep = (\<lambda>n w. w + n), sw_kill = (\<lambda>w. 0), sw_output = (\<lambda>w. Some ([], []))\<rparr>"

theorem waiting_for_the_shell_ends_witness:
  "\<exists>p v. poll_child sample_shell 2000 7 = Some (p, v)"
  using waiting_for_the_shell_ends [of sample_shell 2000 7] by (fastforce simp: sample_shell_def)


end
