(* ===== verification/ProjectProps.thy ===== *)
theory ProjectProps
  imports ProjectOps GitDiffProps "HOL-Library.Multiset"
begin

text \<open>
  What \<open>git_project.rs\<close> guarantees: the shape of the stacks of worktrees, the order of worktrees and projects, branch
  names and their paths, the choice of a pull request, shell quoting, reconciliation with the disk, and the fate of
  local changes.
\<close>

subsection \<open>Stacks\<close>

text \<open>\<open>walk m k c\<close> is the name \<open>k\<close> steps up from \<open>c\<close>.\<close>

fun walk :: "('a \<times> 'a) list \<Rightarrow> nat \<Rightarrow> 'a \<Rightarrow> 'a option" where
  "walk m 0 c = Some c"
| "walk m (Suc k) c = (case map_of m c of None \<Rightarrow> None | Some p \<Rightarrow> walk m k p)"

lemma walk_add: "walk m (j + k) c = Option.bind (walk m j c) (walk m k)"
  by (induction j arbitrary: c) (auto split: option.splits)

lemma walk_snoc: "walk m j c = Some d \<Longrightarrow> walk m (j + k) c = walk m k d"
  by (simp add: walk_add)

lemma walk_up: "walk m j s = Some c \<Longrightarrow> map_of m c = Some p \<Longrightarrow> walk m (Suc j) s = Some p"
  using walk_snoc [of m j s c "Suc 0"] by (simp del: walk.simps(2)) simp

lemma walk_loops: "walk m j c = Some c \<Longrightarrow> walk m (n * j) c = Some c"
  by (induction n) (simp_all add: walk_add)

lemma walk_loop_never_ends:
  assumes "walk m j c = Some c" and "0 < j"
  shows "walk m k c \<noteq> None"
proof
  assume "walk m k c = None"
  then have "walk m (k + (k * j - k)) c = None" by (simp add: walk_add)
  moreover have "k \<le> k * j" using assms(2) by simp
  ultimately show False using walk_loops [OF assms(1), of k] by simp
qed

lemma chain_loop_ends: "\<not> chain_loop c seen m \<Longrightarrow> \<exists>k. walk m k c = None"
proof (induction c seen m rule: chain_loop.induct)
  case (1 c seen m)
  show ?case
  proof (cases "map_of m c")
    case None
    then have "walk m 1 c = None" by simp
    then show ?thesis by blast
  next
    case (Some p)
    with "1.prems" have "c \<notin> set seen" "\<not> chain_loop p (c # seen) m" by (auto simp: chain_loop.simps [of c] split: if_splits)
    with "1.IH" [OF Some] obtain k where "walk m k p = None" by blast
    then have "walk m (Suc k) c = None" using Some by simp
    then show ?thesis by blast
  qed
qed

lemma chain_loop_turns:
  "chain_loop c seen m \<Longrightarrow> (\<forall>s \<in> set seen. \<exists>j > 0. walk m j s = Some c) \<Longrightarrow> walk m k c \<noteq> None"
proof (induction c seen m arbitrary: k rule: chain_loop.induct)
  case (1 c seen m)
  obtain p where p: "map_of m c = Some p"
    using "1.prems"(1) by (cases "map_of m c") (auto simp: chain_loop.simps [of c])
  show ?case
  proof (cases "c \<in> set seen")
    case True
    then show ?thesis using "1.prems"(2) walk_loop_never_ends by metis
  next
    case False
    have "chain_loop p (c # seen) m" using "1.prems"(1) p False by (simp add: chain_loop.simps [of c])
    moreover have "\<forall>s \<in> set (c # seen). \<exists>j > 0. walk m j s = Some p"
    proof
      fix s assume "s \<in> set (c # seen)"
      then consider "s = c" | "s \<in> set seen" by auto
      then show "\<exists>j > 0. walk m j s = Some p"
      proof cases
        case 1
        then have "walk m 1 s = Some p" using p by simp
        then show ?thesis by blast
      next
        case 2
        then obtain j where "walk m j s = Some c" using "1.prems"(2) by blast
        then have "walk m (Suc j) s = Some p" using p by (rule walk_up)
        then show ?thesis by blast
      qed
    qed
    ultimately have "walk m i p \<noteq> None" for i using "1.IH" [OF p False] by blast
    then show ?thesis using p by (cases k) auto
  qed
qed

lemma chain_cycle_iff: "stack_parent_chain_has_cycle c m \<longleftrightarrow> (\<forall>k. walk m k c \<noteq> None)"
  unfolding stack_parent_chain_has_cycle_def
  using chain_loop_ends [of c "[]" m] chain_loop_turns [of c "[]" m] by (cases "chain_loop c [] m") auto

lemma map_of_filter_Some:
  "distinct (map fst xs) \<Longrightarrow> map_of (filter P xs) k = Some v \<longleftrightarrow> map_of xs k = Some v \<and> P (k, v)"
  by (induction xs) (auto simp: image_iff dest: map_of_SomeD)

lemma walk_trancl: "(c, d) \<in> {(c, p). map_of m c = Some p}\<^sup>+ \<Longrightarrow> \<exists>j > 0. walk m j c = Some d"
proof (induction rule: trancl_induct)
  case (base p)
  then have "walk m 1 c = Some p" by simp
  then show ?case using zero_less_one by blast
next
  case (step d p)
  then obtain j where j: "walk m j c = Some d" by blast
  have "map_of m d = Some p" using step.hyps by simp
  then have "walk m (Suc j) c = Some p" by (rule walk_up [OF j])
  then show ?case by blast
qed

lemma walk_sub:
  assumes "\<And>c p. map_of m c = Some p \<Longrightarrow> map_of n c = Some p"
  shows "walk m k c = Some d \<Longrightarrow> walk n k c = Some d"
  by (induction k arbitrary: c) (auto split: option.splits dest: assms)

text \<open>
  C17. The stacks of worktrees are a forest over the worktrees that exist, and nothing more is thrown away than
  that needs: an edge of the stored metadata is kept exactly when both its ends are worktrees, they differ,
  and the walk up from the child through such edges comes to an end.
\<close>

theorem stacked_parents_form_a_forest:
  assumes "distinct (map fst stacked)"
  shows "acyclic {(c, p). map_of (normalized_stacked_parents stacked wts) c = Some p}
    \<and> (\<forall>c p. map_of (normalized_stacked_parents stacked wts) c = Some p \<longleftrightarrow>
         map_of stacked c = Some p \<and> c \<noteq> p \<and> c \<in> wt_name ` set wts \<and> p \<in> wt_name ` set wts
         \<and> (\<exists>k. walk (filter (\<lambda>(c, p). c \<noteq> p \<and> c \<in> wt_name ` set wts \<and> p \<in> wt_name ` set wts) stacked) k c = None))"
proof -
  let ?f = "filter (\<lambda>(c, p). c \<noteq> p \<and> c \<in> wt_name ` set wts \<and> p \<in> wt_name ` set wts) stacked"
  let ?n = "normalized_stacked_parents stacked wts"
  have n: "?n = filter (\<lambda>(c, p). \<not> stack_parent_chain_has_cycle c ?f) ?f"
    by (simp add: normalized_stacked_parents_def Let_def)
  have d: "distinct (map fst ?f)" using assms by (simp add: distinct_map_filter)
  have edge: "map_of ?n c = Some p \<longleftrightarrow> map_of ?f c = Some p \<and> (\<exists>k. walk ?f k c = None)" for c p
    unfolding n using map_of_filter_Some [OF d, of "\<lambda>(c, p). \<not> stack_parent_chain_has_cycle c ?f"]
    by (simp add: chain_cycle_iff)
  have acyc: "acyclic {(c, p). map_of ?n c = Some p}"
  proof (rule acyclicI, intro allI notI)
    fix c assume c: "(c, c) \<in> {(c, p). map_of ?n c = Some p}\<^sup>+"
    obtain j where j: "0 < j" "walk ?n j c = Some c" using walk_trancl [OF c] by blast
    have "walk ?f j c = Some c" using walk_sub [OF _ j(2), of ?f] edge by blast
    then have "walk ?f k c \<noteq> None" for k using j(1) by (rule walk_loop_never_ends)
    moreover obtain p where "map_of ?n c = Some p" using c by (auto dest: tranclD)
    ultimately show False using edge by blast
  qed
  have kept: "map_of ?f c = Some p \<longleftrightarrow>
      map_of stacked c = Some p \<and> c \<noteq> p \<and> c \<in> wt_name ` set wts \<and> p \<in> wt_name ` set wts" for c p
    by (subst map_of_filter_Some [OF assms]) (simp only: prod.case)
  show ?thesis by (intro conjI allI acyc) (simp only: edge kept conj_assoc)
qed

definition sample_tree :: "string \<Rightarrow> worktree" where
  "sample_tree n = \<lparr>wt_name = n, wt_path = n, wt_branch = n, wt_stack_parent = None, wt_warning = None\<rparr>"

text \<open>\<open>b\<close> and \<open>c\<close> stand on each other, \<open>d\<close> on them and \<open>e\<close> on \<open>a\<close>.\<close>

theorem stacked_parents_form_a_forest_witness:
  "map_of (normalized_stacked_parents [(''b'', ''c''), (''c'', ''b''), (''d'', ''b''), (''e'', ''a'')]
     (map sample_tree [''a'', ''b'', ''c'', ''d'', ''e''])) ''e'' = Some ''a''
   \<and> map_of (normalized_stacked_parents [(''b'', ''c''), (''c'', ''b''), (''d'', ''b''), (''e'', ''a'')]
     (map sample_tree [''a'', ''b'', ''c'', ''d'', ''e''])) ''d'' = None"
proof -
  have s: "walk [(''b'', ''c''), (''c'', ''b''), (''d'', ''b''), (''e'', ''a'')] 2 ''e'' = None"
    by (simp add: numeral_2_eq_2)
  have "normalized_stacked_parents [(''b'', ''c''), (''c'', ''b''), (''d'', ''b''), (''e'', ''a'')]
     (map sample_tree [''a'', ''b'', ''c'', ''d'', ''e'']) = [(''e'', ''a'')]"
    by (simp add: normalized_stacked_parents_def stack_parent_chain_has_cycle_def chain_loop.simps sample_tree_def)
  then show ?thesis
    using stacked_parents_form_a_forest [of "[(''b'', ''c''), (''c'', ''b''), (''d'', ''b''), (''e'', ''a'')]"
        "map sample_tree [''a'', ''b'', ''c'', ''d'', ''e'']"] by simp
qed

subsection \<open>Orders\<close>

lemma take_named_split:
  "take_named n ts = Some (t, us) \<Longrightarrow> \<exists>a b. ts = a @ t # b \<and> us = a @ b \<and> wt_name t = n \<and> n \<notin> wt_name ` set a"
proof (induction ts arbitrary: us)
  case (Cons x xs)
  show ?case
  proof (cases "wt_name x = n")
    case True
    then have "x # xs = [] @ t # xs \<and> us = [] @ xs \<and> wt_name t = n \<and> n \<notin> wt_name ` set []" using Cons.prems by simp
    then show ?thesis by blast
  next
    case False
    then obtain vs where v: "take_named n xs = Some (t, vs)" "us = x # vs"
      using Cons.prems by (auto split: option.splits)
    from Cons.IH [OF v(1)] obtain a b
      where "xs = a @ t # b" "vs = a @ b" "wt_name t = n" "n \<notin> wt_name ` set a" by blast
    then have "x # xs = (x # a) @ t # b \<and> us = (x # a) @ b \<and> wt_name t = n \<and> n \<notin> wt_name ` set (x # a)"
      using False v(2) by auto
    then show ?thesis by blast
  qed
qed simp

lemma take_named_None: "take_named n ts = None \<longleftrightarrow> n \<notin> wt_name ` set ts"
  by (induction ts) (auto split: option.splits)

text \<open>One step of the loop, on the ordered and the remaining worktrees.\<close>

definition order_step :: "worktree list \<times> worktree list \<Rightarrow> string \<Rightarrow> worktree list \<times> worktree list" where
  "order_step = (\<lambda>(ordered, remaining) name.
     case take_named name remaining of Some (t, rest) \<Rightarrow> (ordered @ [t], rest) | None \<Rightarrow> (ordered, remaining))"

lemma order_step_simp:
  "order_step (ordered, remaining) name =
    (case take_named name remaining of Some (t, rest) \<Rightarrow> (ordered @ [t], rest) | None \<Rightarrow> (ordered, remaining))"
  by (simp add: order_step_def)

definition named :: "worktree list \<Rightarrow> string list \<Rightarrow> worktree list" where
  "named wts names = List.map_filter (\<lambda>n. find (\<lambda>t. wt_name t = n) wts) names"

lemma order_step_loop:
  assumes "distinct (map wt_name wts)"
  shows "foldl order_step ([], wts) order =
    (named wts (rev (remdups (rev order))), filter (\<lambda>t. wt_name t \<notin> set order) wts)"
proof (induction order rule: rev_induct)
  case Nil
  then show ?case by (simp add: named_def map_filter_def)
next
  case (snoc n order)
  let ?rest = "filter (\<lambda>t. wt_name t \<notin> set order) wts"
  show ?case
  proof (cases "take_named n ?rest")
    case None
    then have "n \<in> set order \<or> n \<notin> wt_name ` set wts" by (auto simp: take_named_None)
    moreover have "find (\<lambda>t. wt_name t = n) wts = None" if "n \<notin> wt_name ` set wts"
      using that by (auto simp: find_None_iff)
    moreover have "filter (\<lambda>t. wt_name t \<notin> set (order @ [n])) wts = ?rest"
      using calculation(1) by (auto intro: filter_cong)
    ultimately show ?thesis using None by (auto simp: snoc order_step_simp named_def map_filter_def)
  next
    case (Some tu)
    obtain t us where tu: "tu = (t, us)" by force
    from take_named_split [OF Some [unfolded tu]] obtain a b
      where s: "?rest = a @ t # b" "us = a @ b" "wt_name t = n" by blast
    have "t \<in> set ?rest" unfolding s(1) by simp
    then have t: "t \<in> set wts" "n \<notin> set order" using s(3) by auto
    have u: "x = t" if "x \<in> set wts" "wt_name x = n" for x
      using that t(1) s(3) assms by (auto simp: distinct_map inj_on_def)
    have "find (\<lambda>x. wt_name x = n) wts = Some t"
      using t(1) s(3) u by (metis (mono_tags, lifting) find_None_iff2 find_Some_iff nth_mem option.exhaust)
    moreover have "filter (\<lambda>x. wt_name x \<notin> set (order @ [n])) wts = us"
    proof -
      have "filter (\<lambda>x. wt_name x \<notin> set (order @ [n])) wts = filter (\<lambda>x. wt_name x \<noteq> n) ?rest" by (auto intro: filter_cong)
      also have "\<dots> = a @ b"
      proof -
        have "distinct (map wt_name ?rest)" using assms by (rule distinct_map_filter)
        then have "distinct (map wt_name (a @ t # b))" unfolding s(1) .
        then have "\<forall>x \<in> set (a @ b). wt_name x \<noteq> n" by (auto simp: s(3))
        then have "filter (\<lambda>x. wt_name x \<noteq> n) (a @ b) = a @ b" by (simp only: filter_id_conv)
        then show ?thesis unfolding s(1) using s(3) by simp
      qed
      finally show ?thesis using s(2) by simp
    qed
    ultimately show ?thesis using Some t(2) by (simp add: snoc order_step_simp tu named_def map_filter_def)
  qed
qed

lemma order_step_mset: "mset (fst (foldl order_step s order)) + mset (snd (foldl order_step s order)) = mset (fst s) + mset (snd s)"
proof (induction order arbitrary: s)
  case (Cons n order)
  have "mset (fst (order_step s n)) + mset (snd (order_step s n)) = mset (fst s) + mset (snd s)"
    by (cases s) (auto simp: order_step_simp split: option.splits dest!: take_named_split)
  then show ?case using Cons by simp
qed simp

lemma apply_worktree_order_eq:
  "apply_worktree_order wts order = fst (foldl order_step ([], wts) order) @ snd (foldl order_step ([], wts) order)"
  by (simp add: apply_worktree_order_def order_step_def case_prod_unfold Let_def)

text \<open>
  The list of worktrees a project shows is a permutation of those on disk whatever the stored order says
  (unknown names, repeated names); with distinct names it lists first, in the stored order, the worktrees the
  order names, then the others as they were.
\<close>

theorem worktree_order_is_a_permutation:
  "mset (apply_worktree_order wts order) = mset wts
   \<and> (distinct (map wt_name wts) \<longrightarrow>
      apply_worktree_order wts order =
        named wts (rev (remdups (rev order))) @ filter (\<lambda>t. wt_name t \<notin> set order) wts)"
  using order_step_mset [of "([], wts)" order] order_step_loop [of wts order]
  by (simp add: apply_worktree_order_eq)

theorem worktree_order_is_a_permutation_witness:
  "map wt_name (apply_worktree_order (map sample_tree [''a'', ''b'', ''c'']) [''c'', ''x'', ''c'', ''b'']) = [''c'', ''b'', ''a'']"
  using worktree_order_is_a_permutation [of "map sample_tree [''a'', ''b'', ''c'']" "[''c'', ''x'', ''c'', ''b'']"]
  by (simp add: sample_tree_def named_def map_filter_def)

text \<open>
  Reordering the projects by distinct ids of theirs loses and doubles none of them.
\<close>

theorem project_order_is_a_permutation:
  assumes "distinct (map pj_id ps)" and "distinct ids"
  shows "mset (reorder_entries ps ids) = mset ps"
proof -
  let ?f = "\<lambda>i. find (\<lambda>e. pj_id e = i) ps"
  have found: "?f (pj_id e) = Some e" if e: "e \<in> set ps" for e
  proof -
    obtain x where "?f (pj_id e) = Some x" using e by (cases "?f (pj_id e)") (auto simp: find_None_iff)
    moreover from this have "x \<in> set ps" "pj_id x = pj_id e" by (auto simp: find_Some_iff)
    ultimately show ?thesis using assms(1) e by (auto simp: distinct_map inj_on_def)
  qed
  have hit: "e \<in> set ps \<and> pj_id e = i" if "?f i = Some e" for i e using that by (auto simp: find_Some_iff)
  have "distinct (List.map_filter ?f ids)"
    using assms(2)
  proof (induction ids)
    case (Cons i ids)
    have "e \<notin> set (List.map_filter ?f ids)" if e: "?f i = Some e" for e
    proof
      assume "e \<in> set (List.map_filter ?f ids)"
      then obtain j where "j \<in> set ids" "?f j = Some e" by (auto simp: map_filter_def)
      then show False using hit e Cons.prems by (metis distinct.simps(2))
    qed
    then show ?case using Cons by (auto simp: map_filter_def split: option.splits)
  qed (simp add: map_filter_def)
  moreover have "set (List.map_filter ?f ids) = {e \<in> set ps. pj_id e \<in> set ids}"
    by (force simp: map_filter_def found dest: hit)
  ultimately have "distinct (reorder_entries ps ids) \<and> set (reorder_entries ps ids) = set ps"
    using assms(1) by (auto simp: reorder_entries_def distinct_map)
  then show ?thesis using assms(1) by (auto simp: distinct_map set_eq_iff_mset_eq_distinct)
qed

definition sample_entry :: "string \<Rightarrow> project_entry" where
  "sample_entry i = make_project_entry i i [] [] [] []"

theorem project_order_is_a_permutation_witness:
  "mset (reorder_entries (map sample_entry [''a'', ''b'', ''c'']) [''c'', ''x'', ''a'']) = mset (map sample_entry [''a'', ''b'', ''c''])"
  by (rule project_order_is_a_permutation) (simp_all add: sample_entry_def make_project_entry_def)

subsection \<open>Pull requests\<close>

definition candidate :: "string \<Rightarrow> pull_request_summary \<Rightarrow> bool" where
  "candidate branch pr \<longleftrightarrow> ps_head_ref_name pr = branch \<and> pull_request_status_from_github_summary pr \<noteq> None"

definition priority_of :: "string \<Rightarrow> pull_request_summary \<Rightarrow> bool \<times> bool \<times> string" where
  "priority_of head_oid pr = pr_priority head_oid pr (the (pull_request_status_from_github_summary pr))"

lemma priority_le_refl: "priority_le p p"
  by (cases p) (simp add: priority_le_def)

lemma priority_le_trans: "priority_le p q \<Longrightarrow> priority_le q r \<Longrightarrow> priority_le p r"
  by (cases p; cases q; cases r) (auto simp: priority_le_def)

lemma priority_le_linear: "priority_le p q \<or> priority_le q p"
  by (cases p; cases q) (auto simp: priority_le_def)

definition pr_step ::
  "string \<Rightarrow> string \<Rightarrow> ((bool \<times> bool \<times> string) \<times> string \<times> pr_status) option \<Rightarrow> pull_request_summary
   \<Rightarrow> ((bool \<times> bool \<times> string) \<times> string \<times> pr_status) option" where
  "pr_step branch_name head_oid = (\<lambda>best pr.
     if ps_head_ref_name pr \<noteq> branch_name then best
     else case pull_request_status_from_github_summary pr of
            None \<Rightarrow> best
          | Some status \<Rightarrow>
              (case best of
                 None \<Rightarrow> Some (pr_priority head_oid pr status, (ps_url pr, status))
               | Some (p, b) \<Rightarrow>
                   if priority_le p (pr_priority head_oid pr status)
                   then Some (pr_priority head_oid pr status, (ps_url pr, status)) else best))"

definition best_among :: "string \<Rightarrow> string \<Rightarrow> pull_request_summary list
    \<Rightarrow> ((bool \<times> bool \<times> string) \<times> string \<times> pr_status) option \<Rightarrow> bool" where
  "best_among branch head_oid prs best \<longleftrightarrow>
     (case best of
        None \<Rightarrow> \<forall>pr \<in> set prs. \<not> candidate branch pr
      | Some (p, url, status) \<Rightarrow>
          (\<exists>pr \<in> set prs. candidate branch pr \<and> p = priority_of head_oid pr \<and> url = ps_url pr
             \<and> pull_request_status_from_github_summary pr = Some status)
          \<and> (\<forall>pr \<in> set prs. candidate branch pr \<longrightarrow> priority_le (priority_of head_oid pr) p))"

lemma best_among_step:
  assumes "best_among branch head_oid prs best"
  shows "best_among branch head_oid (prs @ [pr]) (pr_step branch head_oid best pr)"
proof (cases "candidate branch pr")
  case False
  then have "pr_step branch head_oid best pr = best" by (auto simp: candidate_def pr_step_def split: option.splits)
  then show ?thesis using assms False by (auto simp: best_among_def split: option.splits)
next
  case True
  then obtain st where st: "ps_head_ref_name pr = branch" "pull_request_status_from_github_summary pr = Some st"
    by (auto simp: candidate_def)
  have new: "best_among branch head_oid (prs @ [pr]) (Some (priority_of head_oid pr, ps_url pr, st))"
    if "\<forall>x \<in> set prs. candidate branch x \<longrightarrow> priority_le (priority_of head_oid x) (priority_of head_oid pr)"
    using that True st(2) by (auto simp: best_among_def priority_le_refl)
  show ?thesis
  proof (cases best)
    case None
    then have "\<forall>x \<in> set prs. \<not> candidate branch x" using assms by (simp add: best_among_def)
    then show ?thesis using new None st by (auto simp: pr_step_def priority_of_def)
  next
    case (Some b)
    obtain p url status where b: "b = (p, url, status)" by (cases b) auto
    have old: "\<forall>x \<in> set prs. candidate branch x \<longrightarrow> priority_le (priority_of head_oid x) p"
      using assms by (simp add: best_among_def Some b)
    show ?thesis
    proof (cases "priority_le p (priority_of head_oid pr)")
      case True
      then have "best_among branch head_oid (prs @ [pr]) (Some (priority_of head_oid pr, ps_url pr, st))"
        using new old priority_le_trans by blast
      then show ?thesis using True st by (simp add: pr_step_def Some b priority_of_def)
    next
      case False
      then have "pr_step branch head_oid best pr = best" using st by (simp add: pr_step_def Some b priority_of_def)
      then show ?thesis
        using assms False priority_le_linear by (fastforce simp: best_among_def Some b)
    qed
  qed
qed

lemma best_among_fold: "best_among branch head_oid prs (foldl (pr_step branch head_oid) None prs)"
  by (induction prs rule: rev_induct) (simp add: best_among_def, simp add: best_among_step)

text \<open>
  C22. The pull request shown for a branch is one of that branch that is open or merged, and none of them comes
  before it: an open one is never hidden by a merged one, among equals the one at the commit that is checked out,
  then the one updated last. None is shown only when the branch has none.
\<close>

theorem shown_pull_request_is_the_best:
  "case select_github_pull_request prs branch head_oid of
     None \<Rightarrow> \<forall>pr \<in> set prs. \<not> candidate branch pr
   | Some (url, status) \<Rightarrow>
       \<exists>pr \<in> set prs. candidate branch pr \<and> ps_url pr = url \<and> pull_request_status_from_github_summary pr = Some status
         \<and> (\<forall>other \<in> set prs. candidate branch other \<longrightarrow> priority_le (priority_of head_oid other) (priority_of head_oid pr))"
proof -
  have "select_github_pull_request prs branch head_oid = map_option snd (foldl (pr_step branch head_oid) None prs)"
    by (simp add: select_github_pull_request_def pr_step_def)
  then show ?thesis
    using best_among_fold [of branch head_oid prs] by (auto simp: best_among_def split: option.splits)
qed

definition sample_pr :: "string \<Rightarrow> string \<Rightarrow> string option \<Rightarrow> string \<Rightarrow> pull_request_summary" where
  "sample_pr url state merged upd =
     \<lparr>ps_url = url, ps_state = state, ps_head_ref_name = ''b'', ps_head_ref_oid = ''f0'', ps_merged_at = merged,
      ps_updated_at = upd\<rparr>"

theorem shown_pull_request_is_the_best_witness:
  "select_github_pull_request [sample_pr ''u1'' ''MERGED'' (Some ''t'') ''9'', sample_pr ''u2'' ''OPEN'' None ''1'',
     sample_pr ''u3'' ''CLOSED'' None ''9''] ''b'' ''F0'' = Some (''u2'', PrOpen)"
proof -
  let ?prs = "[sample_pr ''u1'' ''MERGED'' (Some ''t'') ''9'', sample_pr ''u2'' ''OPEN'' None ''1'',
     sample_pr ''u3'' ''CLOSED'' None ''9'']"
  have c: "candidate ''b'' (?prs ! 1)" "\<not> candidate ''b'' (?prs ! 2)"
    "\<not> priority_le (priority_of ''F0'' (?prs ! 1)) (priority_of ''F0'' (?prs ! 0))"
    "pull_request_status_from_github_summary (?prs ! 1) = Some PrOpen" by code_simp+
  show ?thesis
  proof (cases "select_github_pull_request ?prs ''b'' ''F0''")
    case None
    then show ?thesis using shown_pull_request_is_the_best [of ?prs "''b''" "''F0''"] c(1) by simp
  next
    case (Some us)
    then obtain pr where pr: "pr \<in> set ?prs" "candidate ''b'' pr" "ps_url pr = fst us"
        "pull_request_status_from_github_summary pr = Some (snd us)"
        "priority_le (priority_of ''F0'' (?prs ! 1)) (priority_of ''F0'' pr)"
      using shown_pull_request_is_the_best [of ?prs "''b''" "''F0''"] c(1) by (cases us) auto
    then have "pr = ?prs ! 1" using c(2,3) by auto
    moreover have "ps_url (?prs ! 1) = ''u2''" by (simp add: sample_pr_def)
    ultimately have "us = (''u2'', PrOpen)" using pr(3,4) c(4) by (cases us) simp
    then show ?thesis using Some by simp
  qed
qed

subsection \<open>Shell words\<close>

text \<open>
  How a POSIX shell splits a command line into words, for lines without expansions between double quotes; each
  character of a word carries whether it was quoted, so that nothing in it is an operator, a pattern or an
  expansion.
\<close>

datatype quoting = Bare | Single | Double

fun shell_words :: "quoting \<Rightarrow> (char \<times> bool) list option \<Rightarrow> string \<Rightarrow> (char \<times> bool) list list option" where
  "shell_words q w [] = (if q = Bare then Some (case w of None \<Rightarrow> [] | Some v \<Rightarrow> [v]) else None)"
| "shell_words Bare w (c # cs) =
     (if c = CHR '' '' then map_option (\<lambda>ws. (case w of None \<Rightarrow> ws | Some v \<Rightarrow> v # ws)) (shell_words Bare None cs)
      else if c = quote_char then shell_words Single (Some (unwrap_or [] w)) cs
      else if c = dquote_char then shell_words Double (Some (unwrap_or [] w)) cs
      else shell_words Bare (Some (unwrap_or [] w @ [(c, False)])) cs)"
| "shell_words Single w (c # cs) =
     (if c = quote_char then shell_words Bare w cs else shell_words Single (Some (unwrap_or [] w @ [(c, True)])) cs)"
| "shell_words Double w (c # cs) =
     (if c = dquote_char then shell_words Bare w cs
      else if c \<in> set ''$`'' \<or> c = CHR 0x5C then None
      else shell_words Double (Some (unwrap_or [] w @ [(c, True)])) cs)"

definition bare :: "string \<Rightarrow> (char \<times> bool) list" where "bare s = map (\<lambda>c. (c, False)) s"
definition quoted :: "string \<Rightarrow> (char \<times> bool) list" where "quoted s = map (\<lambda>c. (c, True)) s"

lemma quote_chars [simp]:
  "quote_char \<noteq> CHR '' ''" "dquote_char \<noteq> CHR '' ''" "quote_char \<noteq> dquote_char" "dquote_char \<noteq> quote_char"
  "quote_char \<notin> set ''$`''" "quote_char \<noteq> CHR 0x5C"
  by (simp_all add: quote_char_def dquote_char_def)

lemma quote_chars_in_text [simp]: "quote_char \<noteq> CHR ''$''" "quote_char \<noteq> CHR 0x60"
  by (simp_all add: quote_char_def)

lemma shell_words_quoted:
  "shell_words Single (Some acc)
     (concat (map (\<lambda>c. if c = quote_char then [quote_char, dquote_char, quote_char, dquote_char, quote_char] else [c]) v)
      @ quote_char # rest) =
   shell_words Bare (Some (acc @ quoted v)) rest"
proof (induction v arbitrary: acc)
  case (Cons c v)
  from Cons [of "acc @ [(c, True)]"] show ?case by (auto simp: quoted_def)
qed (simp add: quoted_def)

lemma shell_words_quote:
  "shell_words Bare None (shell_quote v @ rest) = shell_words Bare (Some (quoted v)) rest"
  using shell_words_quoted [of "[]" v rest] by (simp add: shell_quote_def)

lemma shell_words_bare:
  assumes "CHR '' '' \<notin> set s" and "quote_char \<notin> set s" and "dquote_char \<notin> set s"
  shows "shell_words Bare (Some acc) (s @ rest) = shell_words Bare (Some (acc @ bare s)) rest"
  using assms
proof (induction s arbitrary: acc)
  case (Cons c s)
  then show ?case by (auto simp: bare_def)
qed (simp add: bare_def)

lemma shell_words_word:
  assumes "s \<noteq> []" and "CHR '' '' \<notin> set s" and "quote_char \<notin> set s" and "dquote_char \<notin> set s"
  shows "shell_words Bare None (s @ CHR '' '' # rest) = map_option ((#) (bare s)) (shell_words Bare None rest)"
    "shell_words Bare None s = Some [bare s]"
proof -
  obtain c t where s: "s = c # t" using assms(1) by (cases s) auto
  have "shell_words Bare None (s @ r) = shell_words Bare (Some (bare s)) r" for r
    using assms shell_words_bare [of t "[(c, False)]" r] by (auto simp: s bare_def)
  from this [of "CHR '' '' # rest"] this [of "[]"]
  show "shell_words Bare None (s @ CHR '' '' # rest) = map_option ((#) (bare s)) (shell_words Bare None rest)"
    "shell_words Bare None s = Some [bare s]" by simp_all
qed

lemma shell_words_quoted_word:
  "shell_words Bare None (shell_quote v @ CHR '' '' # rest) = map_option ((#) (quoted v)) (shell_words Bare None rest)"
  "shell_words Bare None (shell_quote v) = Some [quoted v]"
  using shell_words_quote [of v "CHR '' '' # rest"] shell_words_quote [of v "[]"] by simp_all

lemma shell_words_separator: "shell_words Bare None (CHR '' '' # cs) = shell_words Bare None cs"
  by (simp add: option.map_ident)

text \<open>The words of a line written as words with a blank between them.\<close>

fun spaced :: "string list \<Rightarrow> string" where
  "spaced [] = []"
| "spaced [w] = w"
| "spaced (w # ws) = w @ CHR '' '' # spaced ws"

definition plain_word :: "string \<Rightarrow> bool" where
  "plain_word s \<longleftrightarrow> s \<noteq> [] \<and> CHR '' '' \<notin> set s \<and> quote_char \<notin> set s \<and> dquote_char \<notin> set s"

text \<open>A word is plain, or the quotation of a text.\<close>

fun word_text :: "string + string \<Rightarrow> string" where
  "word_text (Inl s) = s"
| "word_text (Inr v) = shell_quote v"

fun word_read :: "string + string \<Rightarrow> (char \<times> bool) list" where
  "word_read (Inl s) = bare s"
| "word_read (Inr v) = quoted v"

lemma shell_words_spaced:
  "\<forall>s. Inl s \<in> set ws \<longrightarrow> plain_word s \<Longrightarrow>
   shell_words Bare None (spaced (map word_text ws)) = Some (map word_read ws)"
proof (induction ws)
  case (Cons w ws)
  then have ih: "shell_words Bare None (spaced (map word_text ws)) = Some (map word_read ws)" by simp
  show ?case
  proof (cases ws)
    case Nil
    then show ?thesis using Cons.prems
      by (cases w) (simp_all add: shell_words_word shell_words_quoted_word plain_word_def)
  next
    case (Cons x xs)
    then have "spaced (map word_text (w # ws)) = word_text w @ CHR '' '' # spaced (map word_text ws)" by simp
    then show ?thesis using Cons.prems ih \<open>\<forall>s. Inl s \<in> set (w # ws) \<longrightarrow> plain_word s\<close>
      by (cases w) (simp_all add: shell_words_word shell_words_quoted_word plain_word_def)
  qed
qed simp

text \<open>The assignment in front of a command, if the organisation has a token of its own.\<close>

definition token_words :: "string \<Rightarrow> (string + string) list" where
  "token_words org = (case github_token_override_env org of Some env \<Rightarrow> [Inl (''GH_TOKEN=$'' @ env)] | None \<Rightarrow> [])"

lemma token_words_cases:
  "token_words org = [] \<and> gh_prefix org = []
   \<or> (\<exists>t. token_words org = [Inl t] \<and> gh_prefix org = t @ '' '' \<and> plain_word t)"
  by (auto simp: token_words_def gh_prefix_def github_token_override_env_def plain_word_def quote_char_def dquote_char_def)

text \<open>
  C20. No name from a repository, a branch or a path can inject anything into the command lines the app hands to
  the login shell: read back the way a shell does, each line has exactly the words meant, with every character
  of the path, the repository and the branch quoted. A quote inside them is no exception.
\<close>

theorem shell_lines_have_the_words_meant:
  "shell_words Bare None (ls_remote_command worktree) =
     Some [bare ''git'', bare ''-C'', quoted worktree, bare ''ls-remote'', bare ''origin'', quoted ''refs/pull/*/head'']
   \<and> shell_words Bare None (pr_list_command host org repo branch) =
     Some (map word_read (token_words org) @
       [bare ''gh'', bare ''pr'', bare ''list'', bare ''-R'', quoted (github_repo_selector host org repo), bare ''--state'',
        bare ''all'', bare ''--head'', quoted branch, bare ''--json'', bare pr_fields])
   \<and> shell_words Bare None (pr_create_command worktree host org repo branch) =
     Some ([bare ''cd'', quoted worktree, bare ''&&''] @ map word_read (token_words org) @
       [bare ''gh'', bare ''pr'', bare ''create'', bare ''-R'', quoted (github_repo_selector host org repo), bare ''--head'',
        quoted branch, bare ''--web''])"
proof (intro conjI)
  note plain = plain_word_def quote_char_def dquote_char_def
  have "shell_words Bare None (spaced (map word_text
      [Inl ''git'', Inl ''-C'', Inr worktree, Inl ''ls-remote'', Inl ''origin'', Inr ''refs/pull/*/head''])) =
    Some (map word_read [Inl ''git'', Inl ''-C'', Inr worktree, Inl ''ls-remote'', Inl ''origin'', Inr ''refs/pull/*/head''])"
    by (rule shell_words_spaced) (auto simp: plain)
  then show "shell_words Bare None (ls_remote_command worktree) =
     Some [bare ''git'', bare ''-C'', quoted worktree, bare ''ls-remote'', bare ''origin'', quoted ''refs/pull/*/head'']"
    by (simp add: ls_remote_command_def)
next
  let ?ws = "token_words org @ [Inl ''gh'', Inl ''pr'', Inl ''list'', Inl ''-R'', Inr (github_repo_selector host org repo),
    Inl ''--state'', Inl ''all'', Inl ''--head'', Inr branch, Inl ''--json'', Inl pr_fields]"
  have "shell_words Bare None (spaced (map word_text ?ws)) = Some (map word_read ?ws)"
    using token_words_cases [of org]
    by (intro shell_words_spaced) (auto simp: plain_word_def quote_char_def dquote_char_def pr_fields_def)
  moreover have "pr_list_command host org repo branch = spaced (map word_text ?ws)"
    using token_words_cases [of org] by (auto simp: pr_list_command_def)
  ultimately show "shell_words Bare None (pr_list_command host org repo branch) =
     Some (map word_read (token_words org) @
       [bare ''gh'', bare ''pr'', bare ''list'', bare ''-R'', quoted (github_repo_selector host org repo), bare ''--state'',
        bare ''all'', bare ''--head'', quoted branch, bare ''--json'', bare pr_fields])" by simp
next
  let ?ws = "[Inl ''cd'', Inr worktree, Inl ''&&''] @ token_words org @ [Inl ''gh'', Inl ''pr'', Inl ''create'', Inl ''-R'',
    Inr (github_repo_selector host org repo), Inl ''--head'', Inr branch, Inl ''--web'']"
  have "shell_words Bare None (spaced (map word_text ?ws)) = Some (map word_read ?ws)"
    using token_words_cases [of org]
    by (intro shell_words_spaced) (auto simp: plain_word_def quote_char_def dquote_char_def)
  moreover have "pr_create_command worktree host org repo branch = spaced (map word_text ?ws)"
    using token_words_cases [of org] by (auto simp: pr_create_command_def)
  ultimately show "shell_words Bare None (pr_create_command worktree host org repo branch) =
     Some ([bare ''cd'', quoted worktree, bare ''&&''] @ map word_read (token_words org) @
       [bare ''gh'', bare ''pr'', bare ''create'', bare ''-R'', quoted (github_repo_selector host org repo), bare ''--head'',
        quoted branch, bare ''--web''])" by simp
qed

subsection \<open>Branch names\<close>

lemma split_char_app: "split_char c (x @ c # y) = split_char c x @ split_char c y"
proof (induction x)
  case (Cons a x)
  then show ?case by (cases "split_char c x") auto
qed simp

lemma slash_prefix_iff:
  "starts_with (b @ [c]) r \<longleftrightarrow> strict_prefix (split_char c b) (split_char c r)"
proof
  assume "starts_with (b @ [c]) r"
  then obtain y where "r = b @ c # y" by (auto simp: starts_with_iff)
  then show "strict_prefix (split_char c b) (split_char c r)"
    by (simp add: split_char_app strict_prefix_def)
next
  assume "strict_prefix (split_char c b) (split_char c r)"
  then obtain p ps where s: "split_char c r = split_char c b @ p # ps" by (auto elim: strict_prefixE')
  have "c # r = concat (map ((#) c) (split_char c b)) @ c # p @ concat (map ((#) c) ps)"
    unfolding split_char_joins [of c r, symmetric] s by simp
  then have "r = (b @ [c]) @ p @ concat (map ((#) c) ps)" by (simp add: split_char_joins)
  then show "starts_with (b @ [c]) r" unfolding starts_with_iff by blast
qed

text \<open>
  A new branch is refused as conflicting exactly when git could not hold it beside an existing one: when one
  of the two names, cut at its slashes, is a proper beginning of the other. The branch named in the error is one.
\<close>

theorem branch_conflicts_are_exact:
  "case find_branch_prefix_conflict branches requested of
     None \<Rightarrow> \<forall>b \<in> set branches.
        \<not> strict_prefix (split_char (CHR ''/'') b) (split_char (CHR ''/'') requested)
        \<and> \<not> strict_prefix (split_char (CHR ''/'') requested) (split_char (CHR ''/'') b)
   | Some b \<Rightarrow> b \<in> set branches
        \<and> (strict_prefix (split_char (CHR ''/'') b) (split_char (CHR ''/'') requested)
           \<or> strict_prefix (split_char (CHR ''/'') requested) (split_char (CHR ''/'') b))"
  by (auto simp: find_branch_prefix_conflict_def slash_prefix_iff find_None_iff find_Some_iff split: option.splits)

text \<open>
  A valid branch name leads to a proper descendant of the directory of the worktrees: none of its segments is
  empty or has two dots, so the worktree of a branch is never outside that directory, nor the directory itself.
\<close>

theorem branch_worktrees_stay_inside:
  assumes "validate_branch_name name = Ok ()"
  shows "\<exists>below. below \<noteq> [] \<and> set below \<subseteq> set (split_char (CHR ''/'') name)
    \<and> foldl descend root (path_components name) = below @ root"
proof -
  let ?segs = "split_char (CHR ''/'') name"
  let ?cs = "path_components name"
  have v: "name \<noteq> []" "\<not> starts_with ''/'' name" "\<not> starts_with ''.'' name" "\<not> contains_str ''..'' name"
    using assms by (auto simp: validate_branch_name_def split: if_splits)
  have dots: "''..'' \<notin> set ?segs"
  proof
    assume "''..'' \<in> set ?segs"
    then obtain a b where "?segs = a @ ''..'' # b" by (auto simp: in_set_conv_decomp)
    then have "CHR ''/'' # name = concat (map ((#) (CHR ''/'')) a) @ CHR ''/'' # ''..'' @ concat (map ((#) (CHR ''/'')) b)"
      using split_char_joins [of "CHR ''/''" name] by simp
    then have "\<exists>u. name = u @ ''..'' @ concat (map ((#) (CHR ''/'')) b)"
      by (cases "concat (map ((#) (CHR ''/'')) a)") auto
    then show False using v(4) by (auto simp: contains_str_iff)
  qed
  obtain s ss where segs: "?segs = s # ss" using split_char_not_Nil by (cases ?segs) auto
  have join: "CHR ''/'' # name = CHR ''/'' # s @ concat (map ((#) (CHR ''/'')) ss)"
    using split_char_joins [of "CHR ''/''" name] by (simp add: segs)
  have s: "s \<noteq> []" using v(1,2) split_char_absolute [of name] by (auto simp: segs)
  moreover have "s \<noteq> ''.''" using join v(3) by (auto simp: starts_with_iff)
  moreover have "s \<noteq> ''..''" using dots by (auto simp: segs)
  ultimately have first: "Normal s \<in> set ?cs" by (auto simp: path_components_def Let_def segs image_iff)
  have "list_all (\<lambda>c. c \<noteq> RootDir \<and> c \<noteq> ParentDir) ?cs"
    using dots v(2) by (auto simp: path_components_def Let_def list_all_iff)
  from descend_below [OF this]
  have "foldl descend root ?cs = rev (concat (map (\<lambda>c. case c of Normal s \<Rightarrow> [s] | _ \<Rightarrow> []) ?cs)) @ root" .
  moreover have "set (rev (concat (map (\<lambda>c. case c of Normal s \<Rightarrow> [s] | _ \<Rightarrow> []) ?cs))) \<subseteq> set ?segs"
    by (auto simp: path_components_def Let_def split: if_splits path_component.splits)
  moreover have "rev (concat (map (\<lambda>c. case c of Normal s \<Rightarrow> [s] | _ \<Rightarrow> []) ?cs)) \<noteq> []"
    using first by (auto intro!: bexI [of _ "Normal s"])
  ultimately show ?thesis by blast
qed

theorem branch_worktrees_stay_inside_witness:
  "\<exists>below. below \<noteq> [] \<and> set below \<subseteq> {''feat'', ''x''} \<and> foldl descend [''w''] (path_components ''feat/x'') = below @ [''w'']"
proof -
  have "validate_branch_name ''feat/x'' = Ok ()" by code_simp
  from branch_worktrees_stay_inside [OF this, of "[''w'']"] show ?thesis by simp
qed

text \<open>
  What git reports when a branch stands in the way of another is not recognised: the parser takes the name
  before \<open>exists\<close> from the first quoted reference of the message, which is the one that can not be locked.
\<close>

definition git_lock_message :: string where
  "git_lock_message = ''git worktree failed: fatal: cannot lock ref '' @ [quote_char] @ ''refs/heads/feat/x'' @ [quote_char]
     @ '': '' @ [quote_char] @ ''refs/heads/feat'' @ [quote_char] @ '' exists; cannot create '' @ [quote_char]
     @ ''refs/heads/feat/x'' @ [quote_char]"

theorem git_lock_message_is_not_recognised:
  "humanize_worktree_add_error ''feat/x'' (GitError git_lock_message) = GitError git_lock_message
   \<and> find_branch_prefix_conflict [''feat''] ''feat/x'' = Some ''feat''"
  by code_simp

subsection \<open>Reconciliation\<close>

definition path_key :: "project_entry \<Rightarrow> string" where "path_key e = normalize_source_path (pj_source_path e)"
definition url_key :: "project_entry \<Rightarrow> string" where "url_key e = normalize_project_url (pj_url e)"

text \<open>What the loops keep: keys of paths and URLs that are seen at most once, and directories only.\<close>

definition seen_ok :: "'w project_env \<Rightarrow> 'w \<Rightarrow> seen_entries \<Rightarrow> bool" where
  "seen_ok E w s \<longleftrightarrow>
     (case s of (kept, paths, urls) \<Rightarrow>
        distinct (map path_key kept) \<and> path_key ` set kept \<subseteq> set paths
        \<and> distinct (map url_key kept) \<and> url_key ` set kept \<subseteq> set urls
        \<and> (\<forall>e \<in> set kept. pv_is_dir E w (pj_source_path e)))"

lemma keep_entry_ok: "seen_ok E w s \<Longrightarrow> seen_ok E w (keep_entry E w s e)"
  by (cases s) (auto simp: seen_ok_def keep_entry_def Let_def path_key_def url_key_def)

lemma project_entry_from_source_path:
  "project_entry_from_source E p w = (Ok e, w') \<Longrightarrow> pj_source_path e = p"
  by (auto simp: project_entry_from_source_def project_entry_from_url_def make_project_entry_def Let_def
      split: result.splits prod.splits)

lemma scan_entry_ok:
  "seen_ok E w0 (fst s) \<Longrightarrow> pv_is_dir E w0 p \<Longrightarrow> seen_ok E w0 (fst (scan_entry E s p))"
proof -
  assume ok: "seen_ok E w0 (fst s)" and dir: "pv_is_dir E w0 p"
  obtain kept paths urls w where s: "s = ((kept, paths, urls), w)" by (cases s) auto
  show ?thesis
  proof (cases "normalize_source_path p \<in> set paths")
    case False
    obtain r w' where r: "project_entry_from_source E p w = (r, w')" by force
    show ?thesis
    proof (cases r)
      case (Ok e)
      have "pj_source_path e = p" using r Ok by (auto dest: project_entry_from_source_path)
      then show ?thesis
        using ok dir False by (auto simp: s r Ok seen_ok_def scan_entry_def Let_def path_key_def url_key_def)
    qed (use ok False in \<open>simp add: s r scan_entry_def Let_def\<close>)
  qed (use ok in \<open>simp add: s scan_entry_def Let_def\<close>)
qed

lemma foldl_invariant: "P a \<Longrightarrow> (\<And>a x. x \<in> set xs \<Longrightarrow> P a \<Longrightarrow> P (f a x)) \<Longrightarrow> P (foldl f a xs)"
  by (induction xs arbitrary: a) auto

text \<open>
  C21. Whatever the configuration held, after reconciliation no two projects have the same source directory or
  the same remote, up to trailing slashes and \<open>.git\<close>, and each has a source directory on disk.
\<close>

theorem reconciled_projects_are_distinct:
  "distinct (map path_key (fst (reconcile_project_entries E entries base w)))
   \<and> distinct (map url_key (fst (reconcile_project_entries E entries base w)))
   \<and> list_all (\<lambda>e. pv_is_dir E w (pj_source_path e)) (fst (reconcile_project_entries E entries base w))"
proof -
  let ?kept = "foldl (keep_entry E w) ([], [], []) entries"
  have "seen_ok E w ([], [], [])" by (simp add: seen_ok_def)
  then have "seen_ok E w ?kept" by (rule foldl_invariant) (rule keep_entry_ok)
  then have "seen_ok E w (fst (foldl (scan_entry E) (?kept, w) (scan_source_directories E w base)))"
    by (intro foldl_invariant [where P = "\<lambda>s. seen_ok E w (fst s)"])
      (auto intro: scan_entry_ok simp: scan_source_directories_def)
  then show ?thesis
    by (simp add: seen_ok_def reconcile_project_entries_def case_prod_unfold Let_def list_all_iff)
qed

subsection \<open>What a load of the configuration does\<close>

lemma keep_entry_subset: "set (fst (keep_entry E w s e)) \<subseteq> insert e (set (fst s))"
  by (cases s) (auto simp: keep_entry_def Let_def)

lemma keep_entries_subset: "set (fst (foldl (keep_entry E w) s es)) \<subseteq> set (fst s) \<union> set es"
proof (induction es arbitrary: s)
  case (Cons e es)
  then show ?case using keep_entry_subset [of E w s e] by fastforce
qed simp

lemma project_entry_from_source_category:
  "project_entry_from_source E p w = (Ok e, w') \<Longrightarrow> pj_category_id e = None"
  by (auto simp: project_entry_from_source_def project_entry_from_url_def make_project_entry_def Let_def
      split: result.splits prod.splits)

lemma scan_entry_subset:
  "e \<in> set (fst (fst (scan_entry E s p))) \<Longrightarrow> e \<in> set (fst (fst s)) \<or> pj_category_id e = None"
  by (cases s) (auto simp: scan_entry_def Let_def split: if_splits result.splits prod.splits
      dest: project_entry_from_source_category)

lemma scan_entries_subset:
  "e \<in> set (fst (fst (foldl (scan_entry E) s ps))) \<Longrightarrow> e \<in> set (fst (fst s)) \<or> pj_category_id e = None"
proof (induction ps arbitrary: s)
  case (Cons p ps)
  then show ?case using scan_entry_subset by (metis foldl_Cons)
qed simp

lemma reconciled_entries:
  "e \<in> set (fst (reconcile_project_entries E es base w)) \<Longrightarrow> e \<in> set es \<or> pj_category_id e = None"
  using scan_entries_subset [of e E "(foldl (keep_entry E w) ([], [], []) es, w)" "scan_source_directories E w base"]
    keep_entries_subset [of E w "([], [], [])" es]
  by (auto simp: reconcile_project_entries_def case_prod_unfold Let_def)

lemma load_reconciled_projects:
  assumes "load_reconciled_config E w = (Ok c, w')"
  shows "gc_projects c = fst (reconcile_project_entries E (gc_projects (load_config E w)) (base_dir E w) w)"
  using assms
  by (auto simp: load_reconciled_config_def Let_def case_prod_unfold save_def save_config_def split: if_splits result.splits)

text \<open>
  The clean-up of project categories is lost. \<open>load_reconciled_config\<close> computes entries with a category that
  exists, and then puts back the list it had reconciled with the disk before: every entry it returns, and writes,
  is one of the file as it was, stale category included, or a new one without category.
\<close>

theorem stale_categories_stay:
  assumes "load_reconciled_config E w = (Ok c, w')" and "e \<in> set (gc_projects c)"
  shows "e \<in> set (gc_projects (load_config E w)) \<or> pj_category_id e = None"
  using reconciled_entries assms by (simp add: load_reconciled_projects)

text \<open>
  A configuration file that can not be parsed is replaced. It reads as the default configuration, and when a
  repository is found in the directory of the projects, the next load writes the default with the projects found:
  preferences, theme, base directory and everything stored with the projects are gone from the file.
\<close>

theorem unparsable_config_is_overwritten:
  assumes "cf_exists E w" and "cf_parse E (unwrap_or [] (cf_read E w)) = None"
    and "reconcile_project_entries E [] (cf_default_base_dir E) w = (found, w1)" and "found \<noteq> []"
    and "cf_write E (cf_render E (default_config\<lparr>gc_projects := found\<rparr>)) w1 = (True, w2)"
  shows "load_reconciled_config E w = (Ok (default_config\<lparr>gc_projects := found\<rparr>), w2)"
proof -
  have l: "load_config E w = default_config" using assms(1,2) by (simp add: load_config_def)
  then have b: "base_dir E w = cf_default_base_dir E" by (simp add: base_dir_def load_app_config_def default_config_def Let_def)
  have c: "reconcile_project_categories default_config = (False, default_config)"
    by (simp add: reconcile_project_categories_def default_config_def Let_def)
  have n: "\<not> same_project_entries (gc_projects default_config) found"
    using assms(4) by (simp add: same_project_entries_def default_config_def)
  have p: "gc_projects default_config = []" by (simp add: default_config_def)
  show ?thesis
    using assms(3,5) n by (simp add: load_reconciled_config_def l b c p Let_def save_def save_config_def)
qed

subsection \<open>Worktrees that others stand on\<close>

lemma wt_name_stacked [simp]: "map wt_name (apply_stacked_parent_metadata wts m) = map wt_name wts"
  by (simp add: apply_stacked_parent_metadata_def Let_def o_def)

lemma normalized_cong:
  "map wt_name wts = map wt_name vs \<Longrightarrow> normalized_stacked_parents m wts = normalized_stacked_parents m vs"
proof -
  assume "map wt_name wts = map wt_name vs"
  then have "wt_name ` set wts = wt_name ` set vs" by (metis list.set_map)
  then show ?thesis by (simp add: normalized_stacked_parents_def)
qed

text \<open>
  C18. A worktree that is shown as the parent of another is never removed: \<open>remove_worktree_impl\<close> ends with the
  error that names the child, and nothing has been done after the list of worktrees was read.
\<close>

theorem parents_are_not_removed:
  assumes "existing_source E i w = (Ok (entry, source), w1)"
    and "resolve_project_worktrees E entry w1 = (wts, w2)"
    and "t \<in> set wts" and "wt_stack_parent t = Some name"
  shows "\<exists>children. remove_worktree_impl E i name w = (Err (HasStackedChildren name children), w2)
    \<and> wt_name t \<in> set children"
proof -
  obtain vs where wts: "wts = apply_stacked_parent_metadata vs (pj_stacked_parents entry)"
    using assms(2) by (auto simp: resolve_project_worktrees_def Let_def case_prod_unfold)
  have "map_of (normalized_stacked_parents (pj_stacked_parents entry) vs) (wt_name t) = Some name"
    using assms(3,4) by (auto simp: wts apply_stacked_parent_metadata_def Let_def)
  moreover have "normalized_stacked_parents (pj_stacked_parents entry) wts = normalized_stacked_parents (pj_stacked_parents entry) vs"
    by (rule normalized_cong) (simp add: wts)
  ultimately have "wt_name t \<in> set (direct_stacked_children wts (pj_stacked_parents entry) name)"
    using assms(3) by (auto simp: direct_stacked_children_def Let_def)
  then show ?thesis
    using assms(1,2) by (auto simp: remove_worktree_impl_def Let_def)
qed

subsection \<open>Clones\<close>

text \<open>
  A clone that fails removes the directory of the project with all it holds, whatever was in it before: the
  worktrees of an earlier checkout whose source directory is gone, or, as \<open>parse_git_url\<close> takes two dots for
  names, a directory outside the one of the projects.
\<close>

theorem failed_clone_removes_the_directory:
  assumes "parse_git_url url = Ok (host, org, repo)"
    and "pv_git E [] [''clone'', url, path_join (project_dir E host org repo w) SOURCE_WORKTREE_NAME] w
      = (Ran code out err, w1)" and "code \<noteq> Some 0"
  shows "snd (run_clone_impl E url w) = pv_remove_dir E (project_dir E host org repo w) w1
    \<and> \<not> is_ok (fst (run_clone_impl E url w))"
  using assms by (simp add: run_clone_impl_def clone_into_def Let_def)

subsection \<open>A sample repository\<close>

text \<open>The world is the log of the commands, of the writes and of the removals. Two worktrees, \<open>b\<close> on \<open>a\<close>.\<close>

definition sample_source :: string where "sample_source = ''/g/github.com/o/r/source''"

definition sample_stored :: project_entry where
  "sample_stored = (make_project_entry ''p'' ''r'' ''https://github.com/o/r'' ''o'' ''r'' sample_source)
     \<lparr>pj_stacked_parents := [(''b'', ''a'')], pj_category_id := Some ''gone''\<rparr>"

definition sample_answer :: "string list \<Rightarrow> string" where
  "sample_answer args =
     (if hd args = ''worktree''
      then ''worktree /g/github.com/o/r/worktrees/a'' @ [CHR 0x0A] @ ''branch refs/heads/a'' @ [CHR 0x0A, CHR 0x0A]
        @ ''worktree /g/github.com/o/r/worktrees/b'' @ [CHR 0x0A] @ ''branch refs/heads/b'' @ [CHR 0x0A]
      else [])"

definition sample_project_env :: "string list list project_env" where
  "sample_project_env =
     \<lparr>cf_exists = (\<lambda>w. True), cf_read = (\<lambda>w. Some ''c''), cf_write = (\<lambda>s w. (True, w @ [[''save'', s]])),
      cf_parse = (\<lambda>s. Some (default_config\<lparr>gc_projects := [sample_stored]\<rparr>)), cf_render = (\<lambda>c. ''c''),
      cf_default_base_dir = ''/g'', cf_detected_theme = \<lparr>tt_colors = [], tt_font_family = [], tt_font_size = 0\<rparr>,
      pv_git = (\<lambda>cwd args w. (Ran (Some 0) (bytes_of (sample_answer args)) [], w @ [args])),
      pv_is_dir = (\<lambda>w p. True), pv_is_file = (\<lambda>w p. False), pv_exists = (\<lambda>w p. True),
      pv_canonicalize = (\<lambda>w p. None), pv_child_dirs = (\<lambda>w p. []), pv_remotes = (\<lambda>w p. None),
      pv_created = (\<lambda>w p. 0), pv_dirty = (\<lambda>w p. False), pv_opens = (\<lambda>w p. True), pv_fetch_age = (\<lambda>w p. Some 0),
      pv_head = (\<lambda>w p. None), pv_remote_head = (\<lambda>w p r. None), pv_uuid = (\<lambda>w. (''u'', w)),
      pv_mkdir = (\<lambda>p w. (True, w)), pv_remove_dir = (\<lambda>p w. w @ [[''remove'', p]]),
      pv_write_file = (\<lambda>p s w. (True, w)), pv_check_ignore = (\<lambda>p s w. None), pv_copy = (\<lambda>a b w. (True, w)),
      pv_resources = [], pv_read_file = (\<lambda>w p. None), pv_head_ref = (\<lambda>w p. None),
      pv_gh = (\<lambda>org cwd args w. (NotRun [], w)), pv_shell = (\<lambda>c w. (Err [], w)), pv_parse_prs = (\<lambda>b. None)\<rparr>"

lemma sample_porcelain: "from_utf8_lossy (bytes_of (sample_answer [''worktree'', ''list'', ''--porcelain''])) = sample_answer [''worktree'']"
proof -
  have "\<forall>b \<in> set (bytes_of (sample_answer [''worktree''])). b < 0x80" by code_simp
  then show ?thesis by (simp add: lossy_bytes_of is_str_def utf8_valid_ascii sample_answer_def)
qed

definition sample_trees :: "worktree list" where
  "sample_trees =
    [\<lparr>wt_name = ''a'', wt_path = ''/g/github.com/o/r/worktrees/a'', wt_branch = ''a'', wt_stack_parent = None, wt_warning = None\<rparr>,
     \<lparr>wt_name = ''b'', wt_path = ''/g/github.com/o/r/worktrees/b'', wt_branch = ''b'', wt_stack_parent = None, wt_warning = None\<rparr>]"

lemma sample_list:
  "parse_worktree_list sample_project_env w (sample_answer [''worktree'']) ''/g/github.com/o/r'' = sample_trees"
  by code_simp

lemma sample_managed: "managed_source_dir sample_project_env sample_stored w = Ok sample_source"
  by code_simp

lemma sample_reconciled:
  "load_reconciled_config sample_project_env w = (Ok (default_config\<lparr>gc_projects := [sample_stored]\<rparr>), w @ [[''save'', ''c'']])"
  by code_simp

lemma sample_existing:
  "existing_source sample_project_env ''p'' w = (Ok (sample_stored, sample_source), w @ [[''save'', ''c'']])"
proof -
  have "pj_id sample_stored = ''p''" "pv_exists sample_project_env v p" for v p
    by (simp_all add: sample_stored_def make_project_entry_def sample_project_env_def)
  then show ?thesis
    by (simp add: existing_source_def find_project_entry_def sample_reconciled sample_managed)
qed

lemma sample_resolved:
  "resolve_project_worktrees sample_project_env sample_stored w =
    ([hd sample_trees, (sample_trees ! 1)\<lparr>wt_stack_parent := Some ''a''\<rparr>], w @ [[''worktree'', ''list'', ''--porcelain'']])"
proof -
  have p: "path_parent sample_source = Some ''/g/github.com/o/r''" "pj_source_path sample_stored = sample_source" by code_simp+
  have g: "pv_git sample_project_env cwd args v = (Ran (Some 0) (bytes_of (sample_answer args)) [], v @ [args])"
    "pv_created sample_project_env v q = 0" for cwd args v q by (simp_all add: sample_project_env_def)
  have t: "apply_stacked_parent_metadata
      (apply_worktree_order (visible_worktrees sample_project_env v sample_trees sample_source) (pj_worktree_order sample_stored))
      (pj_stacked_parents sample_stored) = [hd sample_trees, (sample_trees ! 1)\<lparr>wt_stack_parent := Some ''a''\<rparr>]" for v
    by code_simp
  have "sort_key (\<lambda>t. 0 :: nat) sample_trees = sample_trees" by (simp add: sort_key_const)
  then show ?thesis
    by (simp add: resolve_project_worktrees_def get_worktrees_for_project_def p g sample_porcelain sample_list t Let_def)
qed

theorem parents_are_not_removed_witness:
  "\<exists>children. remove_worktree_impl sample_project_env ''p'' ''a'' [] =
     (Err (HasStackedChildren ''a'' children), [[''save'', ''c''], [''worktree'', ''list'', ''--porcelain'']])
   \<and> ''b'' \<in> set children"
  using parents_are_not_removed [OF sample_existing [of "[]"] sample_resolved, of "(sample_trees ! 1)\<lparr>wt_stack_parent := Some ''a''\<rparr>" "''a''"]
  by (simp add: sample_trees_def)

theorem stale_categories_stay_witness:
  "pj_category_id (hd (gc_projects (load_config sample_project_env []))) = Some ''gone''
   \<and> category_ids (load_config sample_project_env []) = []
   \<and> (\<exists>c w'. load_reconciled_config sample_project_env [] = (Ok c, w') \<and> sample_stored \<in> set (gc_projects c)
        \<and> sample_stored \<in> set (gc_projects (load_config sample_project_env [])))"
proof -
  have "sample_stored \<in> set (gc_projects (load_config sample_project_env [])) \<or> pj_category_id sample_stored = None"
    by (rule stale_categories_stay [OF sample_reconciled [of "[]"]]) simp
  moreover have "pj_category_id sample_stored = Some ''gone''" by (simp add: sample_stored_def)
  moreover have "category_ids (load_config sample_project_env []) = []" by code_simp
  moreover have "pj_category_id (hd (gc_projects (load_config sample_project_env []))) = Some ''gone''" by code_simp
  ultimately show ?thesis by (simp add: sample_reconciled)
qed

text \<open>The file is broken, and one repository is found.\<close>

definition broken_env :: "string list list project_env" where
  "broken_env = sample_project_env\<lparr>cf_parse := (\<lambda>s. None), pv_child_dirs := (\<lambda>w p. [path_join p ''x'']),
     pv_remotes := (\<lambda>w p. Some [(''origin'', Some ''https://github.com/o/r'')])\<rparr>"

theorem unparsable_config_is_overwritten_witness:
  "\<exists>found. found \<noteq> [] \<and> load_reconciled_config broken_env [] = (Ok (default_config\<lparr>gc_projects := found\<rparr>), [[''save'', ''c'']])"
proof -
  let ?e = "make_project_entry ''u'' ''r'' ''https://github.com/o/r'' ''o'' ''r'' ''/g/x/x/x/source''"
  have r: "reconcile_project_entries broken_env [] (cf_default_base_dir broken_env) [] = ([?e], [])" by code_simp
  have "load_reconciled_config broken_env [] = (Ok (default_config\<lparr>gc_projects := [?e]\<rparr>), [[''save'', ''c'']])"
    by (rule unparsable_config_is_overwritten [OF _ _ r]) (simp_all add: broken_env_def sample_project_env_def)
  then show ?thesis by blast
qed

text \<open>A URL with two dots: the directory that is removed is the one above the directory of all projects.\<close>

definition failing_env :: "string list list project_env" where
  "failing_env = sample_project_env\<lparr>pv_git := (\<lambda>cwd args w. (Ran (Some 128) [] [], w))\<rparr>"

theorem failed_clone_removes_the_directory_witness:
  "snd (run_clone_impl failing_env ''https://h/../..'' []) = [[''remove'', ''/g/h/../..'']]
   \<and> foldl descend [] (path_components ''/g/h/../..'') = []"
proof -
  have p: "parse_git_url ''https://h/../..'' = Ok (''h'', ''..'', ''..'')" by code_simp
  have d: "project_dir failing_env ''h'' ''..'' ''..'' [] = ''/g/h/../..''" by code_simp
  have "snd (run_clone_impl failing_env ''https://h/../..'' []) =
      pv_remove_dir failing_env (project_dir failing_env ''h'' ''..'' ''..'' []) []
    \<and> \<not> is_ok (fst (run_clone_impl failing_env ''https://h/../..'' []))"
    by (rule failed_clone_removes_the_directory [OF p, of _ _ "Some 128" "[]" "[]"]) (simp_all add: failing_env_def)
  moreover have "foldl descend [] (path_components ''/g/h/../..'') = []" by code_simp
  ultimately show ?thesis by (simp add: d) (simp add: failing_env_def sample_project_env_def)
qed

subsection \<open>Local changes\<close>

lemma run_git_world: "snd (run_git E cwd args w) = snd (pv_git E cwd args w)"
  by (simp add: run_git_def run_git_output_def Let_def case_prod_unfold)

lemma run_git_Ok: "run_git E cwd args w = (Ok u, w') \<Longrightarrow> \<exists>out err. pv_git E cwd args w = (Ran (Some 0) out err, w')"
  by (auto simp: run_git_def run_git_output_def Let_def case_prod_unfold split: run_output.splits if_splits)
    (metis prod.collapse)

text \<open>
  What git documents of a stash: \<open>stash apply\<close> brings the changes of entry \<open>r\<close> back when it succeeds, and it and
  every command that is not about stashes leaves the entry alone; looking at the list and dropping an entry do
  not touch the working tree. \<open>kept\<close> says that the local changes are in the working tree, \<open>stashed r\<close> that
  they are in the entry \<open>r\<close>.
\<close>

definition stash_laws :: "'w project_env \<Rightarrow> string \<Rightarrow> ('w \<Rightarrow> bool) \<Rightarrow> (string \<Rightarrow> 'w \<Rightarrow> bool) \<Rightarrow> bool" where
  "stash_laws E source kept stashed \<longleftrightarrow>
     (\<forall>r w args. stashed r w \<and> args \<noteq> [] \<and> hd args \<noteq> ''stash'' \<longrightarrow> stashed r (snd (pv_git E source args w)))
   \<and> (\<forall>r w. stashed r w \<longrightarrow> stashed r (snd (pv_git E source [''stash'', ''apply'', r] w)))
   \<and> (\<forall>r w out err. stashed r w \<and> fst (pv_git E source [''stash'', ''apply'', r] w) = Ran (Some 0) out err \<longrightarrow>
        kept (snd (pv_git E source [''stash'', ''apply'', r] w)))
   \<and> (\<forall>w args. kept w \<and> take 2 args \<in> {[''stash'', ''list''], [''stash'', ''drop'']} \<longrightarrow> kept (snd (pv_git E source args w)))"

definition names_stash :: "string \<Rightarrow> string \<Rightarrow> project_error \<Rightarrow> bool" where
  "names_stash source r e \<longleftrightarrow> e = RestoreFailed source r \<or> (\<exists>b d. e = SyncAndRestoreFailed r b d)"

lemma resolve_stash_world:
  "snd (resolve_stash_selector E source r w) = snd (pv_git E source [''stash'', ''list'', ''--format=%H %gd''] w)"
  by (auto simp: resolve_stash_selector_def try_then_def run_git_output_def Let_def case_prod_unfold
      split: result.splits run_output.splits list.splits)

lemma restore_keeps:
  assumes laws: "stash_laws E source kept stashed" and st: "stashed r w"
    and r: "restore_source_sync_stash E source r w = (res, w')"
  shows "kept w' \<or> stashed r w' \<and> res = Err (RestoreFailed source r)"
proof (cases "run_git E source [''stash'', ''apply'', r] w")
  case (Pair a w1)
  have w1: "w1 = snd (pv_git E source [''stash'', ''apply'', r] w)" using run_git_world [of E source] Pair by (metis snd_conv)
  show ?thesis
  proof (cases a)
    case (Err e)
    then show ?thesis using r Pair laws st by (auto simp: restore_source_sync_stash_def stash_laws_def w1)
  next
    case (Ok u)
    from run_git_Ok Pair Ok have "\<exists>out err. fst (pv_git E source [''stash'', ''apply'', r] w) = Ran (Some 0) out err" by fastforce
    then have k1: "kept w1" using laws st by (auto simp: stash_laws_def w1)
    have k2: "kept (snd (resolve_stash_selector E source r w1))"
      using laws k1 by (simp add: resolve_stash_world stash_laws_def)
    have k3: "kept (snd (run_git E source [''stash'', ''drop'', s] v))" if "kept v" for s v
      using laws that by (simp add: run_git_world stash_laws_def)
    show ?thesis
    proof (cases "resolve_stash_selector E source r w1")
      case (Pair b w2)
      with r Ok \<open>run_git E source [''stash'', ''apply'', r] w = (a, w1)\<close> k2 k3 [of w2] show ?thesis
        by (cases b) (auto simp: restore_source_sync_stash_def case_prod_unfold Let_def)
    qed
  qed
qed

text \<open>
  C19. A sync of the source repository never loses the local changes it has stashed. However the checkout, the
  fetch, the rebase, the restore or the drop go, afterwards the changes are in the working tree again, or they are
  still in the stash entry and the error names that entry.
\<close>

theorem sync_keeps_local_changes:
  assumes "stash_laws E source kept stashed"
    and "default_branch_of E source base_branch w = (Ok b, w1)"
    and "create_source_sync_stash E source w1 = (Ok (Some r), w2)" and "stashed r w2"
    and "refresh_source_repo E source base_branch w = (res, w')"
  shows "kept w' \<or> stashed r w' \<and> (\<exists>e. res = Err e \<and> names_stash source r e)"
proof -
  note laws = assms(1)
  have other: "stashed r (snd (run_git E source args v))" if "stashed r v" "args \<noteq> []" "hd args \<noteq> ''stash''" for args v
    using laws that by (simp add: run_git_world stash_laws_def)
  have failed: "kept v' \<or> stashed r v' \<and> (\<exists>e. q = Err e \<and> names_stash source r e)"
    if st: "stashed r v" and q: "restore_after_error E source (Some r) base v = (q, v')" for base v q v'
  proof (cases "restore_source_sync_stash E source r v")
    case (Pair a u)
    then show ?thesis
      using restore_keeps [OF laws st Pair] q
      by (cases a) (auto simp: restore_after_error_def names_stash_def)
  qed
  obtain r1 v1 where c1: "run_git E source [''checkout'', b] w2 = (r1, v1)" by force
  have s1: "stashed r v1" using other [OF assms(4), of "[''checkout'', b]"] c1 by simp
  obtain r2 v2 where c2: "run_git E source [''fetch'', ''--prune'', ''origin''] v1 = (r2, v2)" by force
  have s2: "stashed r v2" using other [OF s1, of "[''fetch'', ''--prune'', ''origin'']"] c2 by simp
  obtain r3 v3 where c3: "run_git E source [''pull'', ''--rebase'', ''origin'', b] v2 = (r3, v3)" by force
  have s3: "stashed r v3" using other [OF s2, of "[''pull'', ''--rebase'', ''origin'', b]"] c3 by simp
  have s4: "stashed r (snd (run_git E source [''rebase'', ''--abort''] v3))" using other [OF s3] by simp
  note run = assms(5) [unfolded refresh_source_repo_def assms(2) assms(3) try_then_simps c1]
  show ?thesis
  proof (cases r1)
    case (Err e)
    then show ?thesis using run failed [OF s1] by simp
  next
    case ok1: (Ok u)
    show ?thesis
    proof (cases r2)
      case (Err e)
      then show ?thesis using run ok1 c2 failed [OF s2] by simp
    next
      case ok2: (Ok u)
      show ?thesis
      proof (cases r3)
        case (Err e)
        then show ?thesis using run ok1 ok2 c2 c3 failed [OF s4] by simp
      next
        case (Ok u)
        then have "restore_source_sync_stash E source r v3 = (res, w')" using run ok1 ok2 c2 c3 by simp
        from restore_keeps [OF laws s3 this] show ?thesis by (auto simp: names_stash_def)
      qed
    qed
  qed
qed

text \<open>A repository whose world is its list of stash entries, the newest first, and whether the changes are in the tree.
  \<open>push\<close> says what a push makes of them.\<close>

definition stash_env :: "(string list \<times> bool \<Rightarrow> string list \<times> bool) \<Rightarrow> (string list \<times> bool) project_env" where
  "stash_env push =
     \<lparr>cf_exists = (\<lambda>w. True), cf_read = (\<lambda>w. None), cf_write = (\<lambda>s w. (True, w)), cf_parse = (\<lambda>s. None),
      cf_render = (\<lambda>c. []), cf_default_base_dir = [],
      cf_detected_theme = \<lparr>tt_colors = [], tt_font_family = [], tt_font_size = 0\<rparr>,
      pv_git = (\<lambda>cwd args w.
        let ok = (\<lambda>s w. (Ran (Some 0) (bytes_of s) [], w)) in
        if take 2 args = [''stash'', ''push''] then ok [] (push w)
        else if take 2 args = [''stash'', ''apply''] then ok [] (fst w, True)
        else if take 2 args = [''stash'', ''list''] then ok (hd (fst w) @ '' s0'') w
        else if take 2 args = [''stash'', ''drop''] then ok [] (tl (fst w), snd w)
        else if hd args = ''rev-parse'' then ok (hd (fst w)) w
        else ok [] w),
      pv_is_dir = (\<lambda>w p. True), pv_is_file = (\<lambda>w p. False), pv_exists = (\<lambda>w p. True),
      pv_canonicalize = (\<lambda>w p. None), pv_child_dirs = (\<lambda>w p. []), pv_remotes = (\<lambda>w p. None),
      pv_created = (\<lambda>w p. 0), pv_dirty = (\<lambda>w p. True), pv_opens = (\<lambda>w p. True), pv_fetch_age = (\<lambda>w p. Some 0),
      pv_head = (\<lambda>w p. None), pv_remote_head = (\<lambda>w p r. None), pv_uuid = (\<lambda>w. (''u'', w)),
      pv_mkdir = (\<lambda>p w. (True, w)), pv_remove_dir = (\<lambda>p w. w),
      pv_write_file = (\<lambda>p s w. (True, w)), pv_check_ignore = (\<lambda>p s w. None), pv_copy = (\<lambda>a b w. (True, w)),
      pv_resources = [], pv_read_file = (\<lambda>w p. None), pv_head_ref = (\<lambda>w p. None),
      pv_gh = (\<lambda>org cwd args w. (NotRun [], w)), pv_shell = (\<lambda>c w. (Err [], w)), pv_parse_prs = (\<lambda>b. None)\<rparr>"

lemma ascii_lossy: "\<forall>b \<in> set (bytes_of s). b < 0x80 \<Longrightarrow> from_utf8_lossy (bytes_of s) = s"
  by (simp add: lossy_bytes_of is_str_def utf8_valid_ascii)

lemma stash_env_output:
  "run_git_output (stash_env push) ''s'' [''rev-parse'', ''-q'', ''--verify'', ''refs/stash''] w =
     (Ok (trim (from_utf8_lossy (bytes_of (hd (fst w))))), w)"
  "run_git_output (stash_env push) ''s'' [''stash'', ''list'', ''--format=%H %gd''] w =
     (Ok (trim (from_utf8_lossy (bytes_of (hd (fst w) @ '' s0'')))), w)"
  by (simp_all add: run_git_output_def stash_env_def Let_def)

lemma stash_env_run:
  "run_git (stash_env push) ''s'' [''stash'', ''push'', ''--include-untracked'', ''-m'', ''grove-source-sync-u''] w = (Ok (), push w)"
  "has_local_source_changes (stash_env push) w ''s''" "pv_uuid (stash_env push) w = (''u'', w)"
  by (simp_all add: run_git_def run_git_output_def stash_env_def Let_def has_local_source_changes_def)

lemma stash_texts:
  "trim (from_utf8_lossy (bytes_of ''new'')) = ''new''" "trim (from_utf8_lossy (bytes_of ''old'')) = ''old''"
  "trim (from_utf8_lossy (bytes_of ''old s0'')) = ''old s0''"
proof -
  have "from_utf8_lossy (bytes_of ''new'') = ''new''" "from_utf8_lossy (bytes_of ''old'') = ''old''"
    "from_utf8_lossy (bytes_of ''old s0'') = ''old s0''"
    by (rule ascii_lossy, simp add: bytes_of_def)+
  moreover have "trim ''new'' = ''new''" "trim ''old'' = ''old''" "trim ''old s0'' = ''old s0''" by code_simp+
  ultimately show "trim (from_utf8_lossy (bytes_of ''new'')) = ''new''" "trim (from_utf8_lossy (bytes_of ''old'')) = ''old''"
    "trim (from_utf8_lossy (bytes_of ''old s0'')) = ''old s0''" by simp_all
qed

definition pushing_env :: "(string list \<times> bool) project_env" where
  "pushing_env = stash_env (\<lambda>(s, t). (''new'' # s, False))"

theorem sync_keeps_local_changes_witness:
  "\<exists>res w'. refresh_source_repo pushing_env ''s'' (Some ''main'') ([''old''], True) = (res, w')
    \<and> (snd w' \<or> ''new'' \<in> set (fst w'))"
proof -
  let ?w = "([''old''], True)" and ?v = "([''new'', ''old''], False)"
  obtain res w' where r: "refresh_source_repo pushing_env ''s'' (Some ''main'') ?w = (res, w')" by (metis surj_pair)
  have laws: "stash_laws pushing_env ''s'' snd (\<lambda>r w. r \<in> set (fst w))"
    unfolding stash_laws_def
  proof (intro conjI allI impI)
    fix r and w :: "string list \<times> bool" and args :: "string list"
    assume a: "r \<in> set (fst w) \<and> args \<noteq> [] \<and> hd args \<noteq> ''stash''"
    then have "take 2 args \<noteq> ''stash'' # ys" for ys by (cases args) auto
    then show "r \<in> set (fst (snd (pv_git pushing_env ''s'' args w)))"
      using a by (simp add: pushing_env_def stash_env_def Let_def)
  qed (auto simp: pushing_env_def stash_env_def Let_def)
  have "run_git pushing_env ''s'' [''show-ref'', ''--verify'', ''refs/remotes/origin/main''] ?w = (Ok (), ?w)" by code_simp
  then have b: "default_branch_of pushing_env ''s'' (Some ''main'') ?w = (Ok ''main'', ?w)" by (simp add: default_branch_of_def)
  have c: "create_source_sync_stash pushing_env ''s'' ?w = (Ok (Some ''new''), ?v)"
    by (simp add: create_source_sync_stash_def pushing_env_def stash_env_run stash_env_output stash_texts)
  have "snd w' \<or> ''new'' \<in> set (fst w') \<and> (\<exists>e. res = Err e \<and> names_stash ''s'' ''new'' e)"
    using sync_keeps_local_changes [OF laws b c _ r] by simp
  then show ?thesis using r by blast
qed

text \<open>
  Where git has nothing to stash, as for changes inside a submodule, the push succeeds without an entry, and the
  newest entry is an older one of the user: it is applied to the source repository and dropped.
\<close>

definition idle_env :: "(string list \<times> bool) project_env" where
  "idle_env = stash_env (\<lambda>w. w)"

theorem empty_stash_takes_the_users:
  "refresh_source_repo idle_env ''s'' (Some ''main'') ([''old''], False) = (Ok (), ([], True))"
proof -
  let ?E = "idle_env" and ?w = "([''old''], False)"
  have "run_git ?E ''s'' [''show-ref'', ''--verify'', ''refs/remotes/origin/main''] ?w = (Ok (), ?w)" by code_simp
  then have d: "default_branch_of ?E ''s'' (Some ''main'') ?w = (Ok ''main'', ?w)" by (simp add: default_branch_of_def)
  have c: "create_source_sync_stash ?E ''s'' ?w = (Ok (Some ''old''), ?w)"
    by (simp add: create_source_sync_stash_def idle_env_def stash_env_run stash_env_output stash_texts)
  have g: "run_git ?E ''s'' [''checkout'', ''main''] ?w = (Ok (), ?w)"
    "run_git ?E ''s'' [''fetch'', ''--prune'', ''origin''] ?w = (Ok (), ?w)"
    "run_git ?E ''s'' [''pull'', ''--rebase'', ''origin'', ''main''] ?w = (Ok (), ?w)"
    "run_git ?E ''s'' [''stash'', ''apply'', ''old''] ?w = (Ok (), ([''old''], True))"
    "run_git ?E ''s'' [''stash'', ''drop'', ''s0''] ([''old''], True) = (Ok (), ([], True))" by code_simp+
  have r: "resolve_stash_selector ?E ''s'' ''old'' ([''old''], True) = (Ok ''s0'', ([''old''], True))"
  proof -
    have "List.map_filter (stash_line ''old'') (lines ''old s0'') = [''s0'']" by code_simp
    then show ?thesis by (simp add: resolve_stash_selector_def idle_env_def stash_env_output stash_texts)
  qed
  have "restore_source_sync_stash ?E ''s'' ''old'' ?w = (Ok (), ([], True))"
    by (simp add: restore_source_sync_stash_def g r)
  then show ?thesis by (simp add: refresh_source_repo_def d c g)
qed

text \<open>
  The clean-up after a failed \<open>git worktree add\<close> does not ask what was there before: when the directory of the new
  name belongs to a worktree with another branch, git refuses to add, and the clean-up removes that worktree by force.
\<close>

definition occupied_env :: "string list list project_env" where
  "occupied_env = sample_project_env\<lparr>pv_git := (\<lambda>cwd args w.
     (if take 2 args = [''worktree'', ''add''] then Ran (Some 128) [] [] else Ran (Some 0) (bytes_of (sample_answer args)) [],
      w @ [args]))\<rparr>"

lemma sample_parent: "find_worktree_named (fst (resolve_project_worktrees occupied_env sample_stored w)) ''a'' = Some (hd sample_trees)"
  "snd (resolve_project_worktrees occupied_env sample_stored w) = w @ [[''worktree'', ''list'', ''--porcelain'']]"
proof -
  have p: "path_parent sample_source = Some ''/g/github.com/o/r''" "pj_source_path sample_stored = sample_source" by code_simp+
  have g: "pv_git occupied_env cwd [''worktree'', ''list'', ''--porcelain''] v =
      (Ran (Some 0) (bytes_of (sample_answer [''worktree'', ''list'', ''--porcelain''])) [], v @ [[''worktree'', ''list'', ''--porcelain'']])"
    "pv_created occupied_env v q = 0" for cwd v q by (simp_all add: occupied_env_def sample_project_env_def)
  have l: "parse_worktree_list occupied_env v (sample_answer [''worktree'']) ''/g/github.com/o/r'' = sample_trees" for v
    by code_simp
  have t: "find_worktree_named (apply_stacked_parent_metadata
      (apply_worktree_order (visible_worktrees occupied_env v sample_trees sample_source) (pj_worktree_order sample_stored))
      (pj_stacked_parents sample_stored)) ''a'' = Some (hd sample_trees)" for v
    by code_simp
  have "sort_key (\<lambda>t. 0 :: nat) sample_trees = sample_trees" by (simp add: sort_key_const)
  then show "find_worktree_named (fst (resolve_project_worktrees occupied_env sample_stored w)) ''a'' = Some (hd sample_trees)"
    "snd (resolve_project_worktrees occupied_env sample_stored w) = w @ [[''worktree'', ''list'', ''--porcelain'']]"
    by (simp_all add: resolve_project_worktrees_def get_worktrees_for_project_def p g sample_porcelain l t Let_def)
qed

theorem failed_stacked_add_removes_the_occupant:
  "\<not> is_ok (fst (add_stacked_worktree_impl occupied_env ''p'' ''a'' ''c'' []))
   \<and> [''worktree'', ''remove'', ''/g/github.com/o/r/worktrees/c'', ''--force'']
       \<in> set (snd (add_stacked_worktree_impl occupied_env ''p'' ''a'' ''c'' []))"
proof -
  have v: "validate_branch_name ''c'' = Ok ()" by code_simp
  have e: "existing_source occupied_env ''p'' [] = (Ok (sample_stored, sample_source), [[''save'', ''c'']])" by code_simp
  have p: "worktree_path_of sample_source ''c'' = ''/g/github.com/o/r/worktrees/c''" by code_simp
  have o: "run_git_output occupied_env cwd args w = (Ok [], w @ [args])"
    if "hd args \<noteq> ''worktree''" for cwd args w
  proof -
    have "trim (from_utf8_lossy (bytes_of [])) = []" by code_simp
    then show ?thesis using that
      by (cases args) (auto simp: run_git_output_def occupied_env_def sample_project_env_def sample_answer_def)
  qed
  have b: "local_branch_names occupied_env sample_source w = (Ok [], w @ [[''for-each-ref'', ''--format=%(refname:short)'', ''refs/heads'']])"
    "remote_branch_names occupied_env sample_source w = (Ok [], w @ [[''for-each-ref'', ''--format=%(refname:short)'', ''refs/remotes/origin'']])"
    for w by (simp_all add: local_branch_names_def remote_branch_names_def o trimmed_lines_def lines_def map_filter_def)
  have a: "run_git occupied_env cwd [''worktree'', ''add'', p, ''-b'', ''c'', h] w = (Err (GitError f), w @ [[''worktree'', ''add'', p, ''-b'', ''c'', h]])"
    if "f = ''git worktree failed: '' @ trim (from_utf8_lossy [])" for cwd p h f w
    using that by (simp add: run_git_def run_git_output_def occupied_env_def)
  have s: "save_stacked_parent_metadata occupied_env ''p'' ''c'' ''a'' w = (Ok (), w @ [[''save'', ''c'']])"
    "rollback_stacked_parent_metadata occupied_env ''p'' ''c'' ''a'' w = w"
    "pv_exists occupied_env w q" for w q
    by (simp_all add: save_stacked_parent_metadata_def rollback_stacked_parent_metadata_def edit_project_def
        edit_project_in_def load_config_def save_def save_config_def occupied_env_def sample_project_env_def
        default_config_def sample_stored_def make_project_entry_def)
  have w: "run_git occupied_env cwd args w = (case run_git_output occupied_env cwd args w of (r, w) \<Rightarrow> (map_ok (\<lambda>_. ()) r, w))"
    for cwd args w by (simp add: run_git_def)
  have r: "snd (run_git occupied_env cwd args w) = w @ [args]" for cwd args w
    by (simp add: run_git_world occupied_env_def)
  obtain wts v where f: "resolve_project_worktrees occupied_env sample_stored ([[''save'', ''c'']] @ [[''fetch'', ''--prune'', ''origin'']]) = (wts, v)"
    by (metis surj_pair)
  have p': "find_worktree_named wts ''a'' = Some (hd sample_trees)" using sample_parent(1) f by (metis fst_conv)
  let ?res = "add_stacked_worktree_impl occupied_env ''p'' ''a'' ''c'' []"
  obtain e x where ex: "run_worktree_add occupied_env sample_source
      [''worktree'', ''add'', ''/g/github.com/o/r/worktrees/c'', ''-b'', ''c'', []] ''c'' (v @
        [[''for-each-ref'', ''--format=%(refname:short)'', ''refs/heads'']] @ [[''rev-parse'', ''HEAD'']]
        @ [[''for-each-ref'', ''--format=%(refname:short)'', ''refs/remotes/origin'']] @ [[''save'', ''c'']]) = (Err e, x)"
    by (simp add: run_worktree_add_def a)
  have "?res = (Err e, cleanup_failed_stacked_worktree_add occupied_env sample_source ''/g/github.com/o/r/worktrees/c'' ''c'' x)"
    using f r [of sample_source "[''fetch'', ''--prune'', ''origin'']"] ex
    by (simp add: add_stacked_worktree_impl_def v e p p' b o s case_prod_unfold find_branch_prefix_conflict_def)
  moreover have "[''worktree'', ''remove'', q, ''--force''] \<in> set (cleanup_failed_stacked_worktree_add occupied_env sample_source q ''c'' x)"
    for q by (simp add: cleanup_failed_stacked_worktree_add_def s r)
  ultimately show ?thesis by simp
qed

end
