(* ===== verification/PtyApp.thy ===== *)
theory PtyApp
  imports OutputPath TerminalGc ProcessEnv Config GitProject
begin

text \<open>
  The pane registry of the app: \<open>grove-core/src/pty.rs\<close> above the daemon client. A pane's adapter and the state it
  tracks are shared by the client's subscription, the registry and the running operations; here they are one cell of a
  list, and the others hold its index. The daemon and the file system are fields of \<open>pty_env\<close>, over a world \<open>'w\<close>; an
  operation that awaits a reply while frames can arrive is cut at the reply. Poisoned locks are recovered, so a lock is
  not seen. The operations of \<open>TerminalGc\<close> act on \<open>registry_view\<close>.
\<close>

subsection \<open>The tracked state\<close>

definition MAX_SCROLLBACK_BYTES :: nat where "MAX_SCROLLBACK_BYTES = 256 * 1024"

record hydration_seed =
  hs_bytes :: bytes
  hs_truncated :: bool

record create_pty_restore =
  cr_last_known_cwd :: "string option"
  cr_scrollback :: "string option"
  cr_scrollback_truncated :: "bool option"

record runtime_state =
  rs_launch_cwd :: string
  rs_process_id :: "u32 option"
  rs_session_name :: string
  rs_last_known_cwd :: "string option"
  rs_cols :: u16
  rs_rows :: u16
  rs_scrollback :: ring
  rs_last_ai_status :: "string option"
  rs_reader_exited :: bool

definition append_scrollback :: "runtime_state \<Rightarrow> bytes \<Rightarrow> runtime_state" where
  "append_scrollback r chunk =
     r\<lparr>rs_scrollback := append_scrollback_capped (rs_scrollback r) chunk MAX_SCROLLBACK_BYTES\<rparr>"

definition non_blank :: "string \<Rightarrow> string option" where
  "non_blank s = (if trim s = [] then None else Some (trim s))"

definition apply_restore :: "create_pty_restore \<Rightarrow> runtime_state \<Rightarrow> runtime_state" where
  "apply_restore restore r =
     (let r = r\<lparr>rs_last_known_cwd := Option.bind (cr_last_known_cwd restore) non_blank,
                rs_scrollback := (rs_scrollback r)\<lparr>rg_truncated := unwrap_or False (cr_scrollback_truncated restore)\<rparr>\<rparr>
      in case cr_scrollback restore of None \<Rightarrow> r | Some text \<Rightarrow> append_scrollback r (bytes_of text))"

definition apply_seed :: "hydration_seed \<Rightarrow> runtime_state \<Rightarrow> runtime_state" where
  "apply_seed h r =
     append_scrollback (r\<lparr>rs_scrollback := (rs_scrollback r)\<lparr>rg_truncated := hs_truncated h\<rparr>\<rparr>) (hs_bytes h)"

definition new_runtime_state ::
  "string \<Rightarrow> u32 option \<Rightarrow> string \<Rightarrow> u16 \<Rightarrow> u16 \<Rightarrow> create_pty_restore option \<Rightarrow> hydration_seed option \<Rightarrow> runtime_state" where
  "new_runtime_state launch_cwd process_id session_name cols rows restore seed =
     (let r = \<lparr>rs_launch_cwd = launch_cwd, rs_process_id = process_id, rs_session_name = session_name,
               rs_last_known_cwd = None, rs_cols = cols, rs_rows = rows, rs_scrollback = new_ring,
               rs_last_ai_status = None, rs_reader_exited = False\<rparr>;
          r = (case restore of None \<Rightarrow> r | Some x \<Rightarrow> apply_restore x r)
      in case seed of None \<Rightarrow> r | Some h \<Rightarrow> apply_seed h r)"

subsection \<open>Panes, registry, subscribers\<close>

record pane =
  pa_pty_id :: string
  pa_session_id :: string
  pa_adapter :: adapter
  pa_state :: runtime_state

text \<open>
  \<open>DaemonSinkAdapter::ingest\<close>: each chunk goes to the scrollback and then to the sink; the sink has got
  \<open>ad_ingested\<close>.
\<close>

definition absorb :: "adapter \<Rightarrow> pane \<Rightarrow> pane" where
  "absorb a p =
     p\<lparr>pa_adapter := a,
       pa_state := foldl append_scrollback (pa_state p) (drop (length (ad_ingested (pa_adapter p))) (ad_ingested a))\<rparr>"

record live_pane =
  lp_session_name :: string
  lp_worktree_path :: string
  lp_pane :: nat

record app =
  ap_panes :: "pane list"
  ap_registry :: "(string \<times> live_pane) list"
  ap_subscribers :: "(string \<times> nat) list"
  ap_sleep_restore :: "string list"

definition set_state :: "nat \<Rightarrow> (runtime_state \<Rightarrow> runtime_state) \<Rightarrow> app \<Rightarrow> app" where
  "set_state ref f s =
     (if ref < length (ap_panes s)
      then s\<lparr>ap_panes := (ap_panes s)[ref := (ap_panes s ! ref)\<lparr>pa_state := f (pa_state (ap_panes s ! ref))\<rparr>]\<rparr>
      else s)"

definition app_unsubscribe :: "string \<Rightarrow> app \<Rightarrow> app" where
  "app_unsubscribe sid s = s\<lparr>ap_subscribers := AList.delete sid (ap_subscribers s)\<rparr>"

definition unregister :: "string \<Rightarrow> app \<Rightarrow> app" where
  "unregister i s = s\<lparr>ap_registry := AList.delete i (ap_registry s)\<rparr>"

definition app_teardown :: "nat \<Rightarrow> app \<Rightarrow> app" where
  "app_teardown ref s =
     (let p = ap_panes s ! ref
      in app_unsubscribe (pa_session_id p) (unregister (pa_pty_id p) (set_state ref (\<lambda>r. r\<lparr>rs_reader_exited := True\<rparr>) s)))"

text \<open>What the registry is to terminal garbage collection and to the status poll.\<close>

definition registry_view :: "app \<Rightarrow> registry" where
  "registry_view s =
     map (\<lambda>(i, l). (i, \<lparr>pi_session_name = lp_session_name l, pi_worktree_path = lp_worktree_path l,
                        pi_reader_exited = rs_reader_exited (pa_state (ap_panes s ! lp_pane l)),
                        pi_last_ai_status = rs_last_ai_status (pa_state (ap_panes s ! lp_pane l))\<rparr>)) (ap_registry s)"

subsection \<open>The stream\<close>

definition stream_data :: "string \<Rightarrow> u64 \<Rightarrow> bytes \<Rightarrow> app \<Rightarrow> app" where
  "stream_data sid seq data s =
     (case map_of (ap_subscribers s) sid of
        None \<Rightarrow> s
      | Some ref \<Rightarrow>
          let p = ap_panes s ! ref
          in s\<lparr>ap_panes := (ap_panes s)[ref := absorb (on_data seq data (pa_adapter p)) p]\<rparr>)"

definition stream_exit :: "string \<Rightarrow> app \<Rightarrow> app" where
  "stream_exit sid s =
     (case map_of (ap_subscribers s) sid of
        None \<Rightarrow> s
      | Some ref \<Rightarrow>
          let p = ap_panes s ! ref;
              s' = s\<lparr>ap_panes := (ap_panes s)[ref := p\<lparr>pa_adapter := on_exit (pa_adapter p)\<rparr>]\<rparr>
          in (case ad_gate (pa_adapter p) of Closed frames exited \<Rightarrow> s' | Open \<Rightarrow> app_teardown ref s'))"

subsection \<open>The world\<close>

datatype pty_error =
  ArgRequired string | PtyExists string | CwdEmpty | CwdMissing string | CwdNotDir string | CwdRoot string
| NoClient string | DaemonError client_error | PtyNotFound string | LaunchCwdRequired string | PaneIdRequired
| DuplicatePaneId string | StoreError config_error

text \<open>
  \<open>pe_client_error\<close> is the failure of \<open>get_or_init_client\<close>, if it fails; \<open>pe_global_client\<close> says whether a client was
  ever made. Both may differ from one world to the next.
\<close>

record 'w pty_env =
  pe_sha256 :: "bytes \<Rightarrow> bytes"
  pe_exists :: "'w \<Rightarrow> string \<Rightarrow> bool"
  pe_is_dir :: "'w \<Rightarrow> string \<Rightarrow> bool"
  pe_scrollback_bytes :: "'w \<Rightarrow> u64"
  pe_child_env :: "'w \<Rightarrow> string \<Rightarrow> (string \<times> string) list"
  pe_client_error :: "'w \<Rightarrow> string option"
  pe_global_client :: "'w \<Rightarrow> bool"
  pe_write :: "string \<Rightarrow> bytes \<Rightarrow> 'w \<Rightarrow> (unit, client_error) result \<times> 'w"
  pe_resize :: "string \<Rightarrow> u16 \<Rightarrow> u16 \<Rightarrow> 'w \<Rightarrow> (unit, client_error) result \<times> 'w"
  pe_applied_size :: "string \<Rightarrow> 'w \<Rightarrow> (u16 \<times> u16, client_error) result \<times> 'w"
  pe_clear_history :: "string \<Rightarrow> 'w \<Rightarrow> (unit, client_error) result \<times> 'w"
  pe_kill :: "string \<Rightarrow> 'w \<Rightarrow> (unit, client_error) result \<times> 'w"
  pe_cwd :: "string \<Rightarrow> 'w \<Rightarrow> (string option, client_error) result \<times> 'w"

subsection \<open>Creating a pane\<close>

record create_pty_request =
  cq_pty_id :: string
  cq_pane_id :: string
  cq_worktree_path :: string
  cq_cwd :: string
  cq_cols :: u16
  cq_rows :: u16
  cq_restore :: "create_pty_restore option"

datatype session_state = Attached | Created
datatype hydration_source = TmuxCapture | DaemonSnapshot

record initial_hydration =
  ih_text :: string
  ih_truncated :: bool
  ih_source :: hydration_source
  ih_snapshot_cols :: "u16 option"
  ih_snapshot_rows :: "u16 option"
  ih_pending_escape_tail_ansi :: "string option"
  ih_kitty_keyboard_flags :: "u32 option"
  ih_is_alternate_screen :: "bool option"
  ih_is_cold_restore :: "bool option"

record create_pty_result =
  cp_session_state :: session_state
  cp_initial_hydration :: "initial_hydration option"

definition required_arg :: "string \<Rightarrow> string \<Rightarrow> (string, pty_error) result" where
  "required_arg name v = (if trim v = [] then Err (ArgRequired name) else Ok (trim v))"

definition validate_pty_cwd :: "'w pty_env \<Rightarrow> 'w \<Rightarrow> string \<Rightarrow> (unit, pty_error) result" where
  "validate_pty_cwd E w cwd =
     (let p = trim cwd in
      if p = [] then Err CwdEmpty
      else if \<not> pe_exists E w p then Err (CwdMissing p)
      else if \<not> pe_is_dir E w p then Err (CwdNotDir p)
      else if (case path_parent p of None \<Rightarrow> True | Some parent \<Rightarrow> same_path parent p) then Err (CwdRoot p)
      else Ok ())"

definition warm_initial_hydration :: "warm_reattach \<Rightarrow> initial_hydration" where
  "warm_initial_hydration warm =
     \<lparr>ih_text = wa_snapshot warm, ih_truncated = False, ih_source = DaemonSnapshot,
      ih_snapshot_cols = Some (wa_cols warm), ih_snapshot_rows = Some (wa_rows warm),
      ih_pending_escape_tail_ansi = wa_pending_escape_tail_ansi warm,
      ih_kitty_keyboard_flags = wa_kitty_keyboard_flags warm,
      ih_is_alternate_screen = Some (wa_is_alternate_screen warm), ih_is_cold_restore = None\<rparr>"

definition cold_initial_hydration :: "cold_restore_payload \<Rightarrow> initial_hydration" where
  "cold_initial_hydration cold =
     \<lparr>ih_text = cw_snapshot cold, ih_truncated = False, ih_source = DaemonSnapshot,
      ih_snapshot_cols = Some (cw_cols cold), ih_snapshot_rows = Some (cw_rows cold),
      ih_pending_escape_tail_ansi = cw_pending_escape_tail_ansi cold, ih_kitty_keyboard_flags = None,
      ih_is_alternate_screen = Some (cw_is_alternate_screen cold), ih_is_cold_restore = Some True\<rparr>"

text \<open>State of the session, hydration and sequence number of the snapshot.\<close>

definition attached_as :: "create_or_attach_result \<Rightarrow> session_state \<times> initial_hydration option \<times> u64 option" where
  "attached_as outcome =
     (case (ca_warm_reattach outcome, ca_cold_restore outcome) of
        (Some warm, _) \<Rightarrow> (Attached, Some (warm_initial_hydration warm), Some (wa_output_sequence warm))
      | (None, Some cold) \<Rightarrow> (Attached, Some (cold_initial_hydration cold), None)
      | (None, None) \<Rightarrow> (Created, None, None))"

fun runtime_restore_seed :: "session_state \<Rightarrow> create_pty_restore option \<Rightarrow> create_pty_restore option" where
  "runtime_restore_seed Created restore = restore"
| "runtime_restore_seed Attached restore = None"

text \<open>What \<open>create\<close> holds while it awaits the reply.\<close>

record creating =
  cg_pty_id :: string
  cg_worktree_path :: string
  cg_cwd :: string
  cg_restore :: "create_pty_restore option"
  cg_pane :: nat
  cg_request :: create_or_attach

definition app_subscribe :: "string \<Rightarrow> nat \<Rightarrow> app \<Rightarrow> app" where
  "app_subscribe sid ref s = s\<lparr>ap_subscribers := AList.update sid ref (ap_subscribers s)\<rparr>"

definition begin_create :: "'w pty_env \<Rightarrow> 'w \<Rightarrow> string \<Rightarrow> string \<Rightarrow> string \<Rightarrow> string \<Rightarrow> create_pty_request \<Rightarrow> app
  \<Rightarrow> creating \<times> app" where
  "begin_create E w pty_id pane_id worktree_path cwd q s =
     (let session = grove_session_name (pe_sha256 E) worktree_path pane_id;
          ref = length (ap_panes s);
          p = \<lparr>pa_pty_id = pty_id, pa_session_id = session, pa_adapter = new_adapter,
               pa_state = new_runtime_state cwd None session (cq_cols q) (cq_rows q) None None\<rparr>
      in (\<lparr>cg_pty_id = pty_id, cg_worktree_path = worktree_path, cg_cwd = cwd, cg_restore = cq_restore q, cg_pane = ref,
           cg_request = \<lparr>co_session_id = session, co_cwd = Some cwd, co_cols = cq_cols q, co_rows = cq_rows q,
                         co_env = pe_child_env E w session, co_scrollback_bytes = Some (pe_scrollback_bytes E w)\<rparr>\<rparr>,
          app_subscribe session ref (s\<lparr>ap_panes := ap_panes s @ [p]\<rparr>)))"

text \<open>\<open>create\<close> up to its request.\<close>

definition create_pty_begin ::
  "'w pty_env \<Rightarrow> 'w \<Rightarrow> create_pty_request \<Rightarrow> app \<Rightarrow> (creating, pty_error) result \<times> app" where
  "create_pty_begin E w q s =
     (case required_arg ''ptyId'' (cq_pty_id q) of
        Err e \<Rightarrow> (Err e, s)
      | Ok pty_id \<Rightarrow>
     (case required_arg ''paneId'' (cq_pane_id q) of
        Err e \<Rightarrow> (Err e, s)
      | Ok pane_id \<Rightarrow>
     (case required_arg ''worktreePath'' (cq_worktree_path q) of
        Err e \<Rightarrow> (Err e, s)
      | Ok worktree_path \<Rightarrow>
     (case required_arg ''cwd'' (cq_cwd q) of
        Err e \<Rightarrow> (Err e, s)
      | Ok cwd \<Rightarrow>
          if map_of (ap_registry s) pty_id \<noteq> None then (Err (PtyExists pty_id), s)
          else (case validate_pty_cwd E w cwd of
                  Err e \<Rightarrow> (Err e, s)
                | Ok _ \<Rightarrow>
                    (case pe_client_error E w of
                       Some e \<Rightarrow> (Err (NoClient e), s)
                     | None \<Rightarrow>
                         (let (g, s) = begin_create E w pty_id pane_id worktree_path cwd q s in (Ok g, s))))))))"

text \<open>And after its reply: the gate is opened and the pane registered in one step.\<close>

definition open_pane :: "creating \<Rightarrow> u64 option \<Rightarrow> app \<Rightarrow> app" where
  "open_pane g snapshot_seq s =
     (let p = ap_panes s ! cg_pane g;
          (exited, a) = open_gate snapshot_seq (pa_adapter p);
          live = \<lparr>lp_session_name = co_session_id (cg_request g), lp_worktree_path = cg_worktree_path g, lp_pane = cg_pane g\<rparr>;
          s = s\<lparr>ap_panes := (ap_panes s)[cg_pane g := absorb a p],
                ap_registry := (if exited then ap_registry s else AList.update (cg_pty_id g) live (ap_registry s))\<rparr>
      in if exited then app_teardown (cg_pane g) s else s)"

definition create_pty_end ::
  "creating \<Rightarrow> (create_or_attach_result, client_error) result \<Rightarrow> app \<Rightarrow> (create_pty_result, pty_error) result \<times> app" where
  "create_pty_end g reply s =
     (case reply of
        Err e \<Rightarrow> (Err (DaemonError e), app_unsubscribe (co_session_id (cg_request g)) s)
      | Ok outcome \<Rightarrow>
          (let (state, hydration, snapshot_seq) = attached_as outcome;
               seed = map_option (\<lambda>h. \<lparr>hs_bytes = bytes_of (ih_text h), hs_truncated = ih_truncated h\<rparr>) hydration;
               fresh = new_runtime_state (cg_cwd g) None (co_session_id (cg_request g)) (co_cols (cg_request g))
                         (co_rows (cg_request g)) (runtime_restore_seed state (cg_restore g)) seed
           in (Ok \<lparr>cp_session_state = state, cp_initial_hydration = hydration\<rparr>,
               open_pane g snapshot_seq (set_state (cg_pane g) (\<lambda>_. fresh) s))))"

subsection \<open>Operations on a pane\<close>

definition session_id_for :: "string \<Rightarrow> app \<Rightarrow> string option" where
  "session_id_for i s = map_option lp_session_name (map_of (ap_registry s) i)"

definition require_session_id :: "string \<Rightarrow> app \<Rightarrow> (string, pty_error) result" where
  "require_session_id i s = (case session_id_for i s of Some sid \<Rightarrow> Ok sid | None \<Rightarrow> Err (PtyNotFound i))"

text \<open>A call of the daemon through the client, which may not come up.\<close>

definition with_client :: "'w pty_env \<Rightarrow> ('w \<Rightarrow> ('a, client_error) result \<times> 'w) \<Rightarrow> 'w \<Rightarrow> ('a, pty_error) result \<times> 'w" where
  "with_client E call w =
     (case pe_client_error E w of
        Some e \<Rightarrow> (Err (NoClient e), w)
      | None \<Rightarrow> (case call w of (Ok x, w) \<Rightarrow> (Ok x, w) | (Err e, w) \<Rightarrow> (Err (DaemonError e), w)))"

definition pty_write :: "'w pty_env \<Rightarrow> string \<Rightarrow> bytes \<Rightarrow> app \<Rightarrow> 'w \<Rightarrow> (unit, pty_error) result \<times> 'w" where
  "pty_write E i data s w =
     (case require_session_id i s of Err e \<Rightarrow> (Err e, w) | Ok sid \<Rightarrow> with_client E (pe_write E sid data) w)"

definition pty_resize :: "'w pty_env \<Rightarrow> string \<Rightarrow> u16 \<Rightarrow> u16 \<Rightarrow> app \<Rightarrow> 'w \<Rightarrow> (unit, pty_error) result \<times> app \<times> 'w" where
  "pty_resize E i cols rows s w =
     (case require_session_id i s of
        Err e \<Rightarrow> (Err e, s, w)
      | Ok sid \<Rightarrow>
          (let s = (case map_of (ap_registry s) i of
                      None \<Rightarrow> s
                    | Some l \<Rightarrow> set_state (lp_pane l) (\<lambda>r. r\<lparr>rs_cols := cols, rs_rows := rows\<rparr>) s);
               (r, w) = with_client E (pe_resize E sid cols rows) w
           in (r, s, w)))"

definition SESSION_NOT_FOUND_MESSAGE :: string where "SESSION_NOT_FOUND_MESSAGE = ''SessionNotFound''"

definition is_session_missing :: "client_error \<Rightarrow> bool" where
  "is_session_missing e = (case e of RpcFailed r \<Rightarrow> re_message r = SESSION_NOT_FOUND_MESSAGE | _ \<Rightarrow> False)"

definition applied_pty_size :: "'w pty_env \<Rightarrow> string \<Rightarrow> app \<Rightarrow> 'w \<Rightarrow> ((u16 \<times> u16) option, pty_error) result \<times> 'w" where
  "applied_pty_size E i s w =
     (case session_id_for i s of
        None \<Rightarrow> (Ok None, w)
      | Some sid \<Rightarrow>
          (case with_client E (pe_applied_size E sid) w of
             (Ok (cols, rows), w) \<Rightarrow> (if 0 < cols \<and> 0 < rows then Ok (Some (cols, rows)) else Ok None, w)
           | (Err (DaemonError e), w) \<Rightarrow> (if is_session_missing e then Ok None else Err (DaemonError e), w)
           | (Err e, w) \<Rightarrow> (Err e, w)))"

definition clear_tracked :: "nat \<Rightarrow> app \<Rightarrow> app" where
  "clear_tracked ref = set_state ref (\<lambda>r. r\<lparr>rs_scrollback := \<lparr>rg_buf = [], rg_truncated = False\<rparr>\<rparr>)"

definition clear_scrollback :: "'w pty_env \<Rightarrow> string \<Rightarrow> app \<Rightarrow> 'w \<Rightarrow> (unit, pty_error) result \<times> app \<times> 'w" where
  "clear_scrollback E i s w =
     (case map_of (ap_registry s) i of
        None \<Rightarrow> (Err (PtyNotFound i), s, w)
      | Some l \<Rightarrow>
          (case with_client E (pe_clear_history E (lp_session_name l)) w of
             (Err e, w) \<Rightarrow> (Err e, s, w)
           | (Ok _, w) \<Rightarrow> (Ok (), clear_tracked (lp_pane l) s, w)))"

subsection \<open>Closing\<close>

text \<open>What \<open>close\<close> does once the kill has been answered, or has failed.\<close>

definition close_end :: "string \<Rightarrow> string \<Rightarrow> app \<Rightarrow> app" where
  "close_end i sid s =
     (let s' = unregister i s
      in if map_of (ap_registry s) i \<noteq> None
         then (app_unsubscribe sid s')\<lparr>ap_sleep_restore := removeAll sid (ap_sleep_restore s')\<rparr>
         else s')"

definition pty_close :: "'w pty_env \<Rightarrow> string \<Rightarrow> app \<Rightarrow> 'w \<Rightarrow> (unit, pty_error) result \<times> app \<times> 'w" where
  "pty_close E i s w =
     (case require_session_id i s of
        Err e \<Rightarrow> (Err e, s, w)
      | Ok sid \<Rightarrow>
          (case pe_client_error E w of
             Some e \<Rightarrow> (Err (NoClient e), s, w)
           | None \<Rightarrow>
               (let (killed, w) = pe_kill E sid w
                in (case killed of Ok _ \<Rightarrow> Ok () | Err e \<Rightarrow> Err (DaemonError e), close_end i sid s, w))))"

definition close_ptys_for_worktree :: "'w pty_env \<Rightarrow> string \<Rightarrow> app \<Rightarrow> 'w \<Rightarrow> app \<times> 'w" where
  "close_ptys_for_worktree E worktree_path s w =
     foldl (\<lambda>(s, w) i. snd (pty_close E i s w)) (s, w) (ids_for_worktree worktree_path (registry_view s))"

definition close_ptys_for_worktree_blocking :: "'w pty_env \<Rightarrow> string \<Rightarrow> app \<Rightarrow> 'w \<Rightarrow> app \<times> 'w" where
  "close_ptys_for_worktree_blocking E worktree_path s w =
     (let ids = ids_for_worktree worktree_path (registry_view s) in
      if ids = [] then (s, w)
      else
        (let sessions = List.map_filter (\<lambda>i. map_option (Pair i) (session_id_for i s)) ids;
             s = foldl (\<lambda>s (i, sid). unregister i s) s sessions
         in if \<not> pe_global_client E w then (s, w)
            else foldl (\<lambda>(s, w) (i, sid). let (r, w) = pe_kill E sid w in (app_unsubscribe sid s, w)) (s, w) sessions))"

text \<open>What the clean-ups of \<open>TerminalGc\<close> leave of the registry.\<close>

definition keep_entries :: "registry \<Rightarrow> app \<Rightarrow> app" where
  "keep_entries reg s = s\<lparr>ap_registry := filter (\<lambda>(i, l). i \<in> fst ` set reg) (ap_registry s)\<rparr>"

subsection \<open>The environment of a pane's shell\<close>

definition to_ascii_uppercase :: "char \<Rightarrow> char" where
  "to_ascii_uppercase c = (let n = of_char c :: nat in if 97 \<le> n \<and> n \<le> 122 then char_of (n - 32) else c)"

definition is_utf8_locale :: "string \<Rightarrow> bool" where
  "is_utf8_locale locale =
     (let upper = map to_ascii_uppercase locale in contains_str ''UTF-8'' upper \<or> contains_str ''UTF8'' upper)"

definition is_usable_locale :: "string \<Rightarrow> bool" where
  "is_usable_locale locale = (map to_ascii_uppercase locale \<notin> {''UTF-8'', ''UTF8''})"

fun locale_of :: "bool \<Rightarrow> string option list \<Rightarrow> string" where
  "locale_of macos [] = (if macos then ''en_US.UTF-8'' else ''C.UTF-8'')"
| "locale_of macos (None # vs) = locale_of macos vs"
| "locale_of macos (Some v # vs) =
     (let t = trim v in if t \<noteq> [] \<and> is_utf8_locale t \<and> is_usable_locale t then t else locale_of macos vs)"

definition preferred_utf8_locale :: "bool \<Rightarrow> (string \<Rightarrow> string option) \<Rightarrow> string" where
  "preferred_utf8_locale macos var = locale_of macos (map var [''LC_ALL'', ''LC_CTYPE'', ''LANG''])"

text \<open>What the environment is made of; \<open>pi_base\<close> is the runtime directory and \<open>pi_token\<close> the text of the token file.\<close>

record pane_inputs =
  pn_subprocess :: "(string \<times> string) list"
  pn_app_version :: string
  pn_macos :: bool
  pn_var :: "string \<Rightarrow> string option"
  pn_bin_dir :: "string option"
  pn_base :: "path_parts option"
  pn_token :: "string option"
  pn_overlay :: "string option"
  pn_home :: "string option"

definition portable_terminal_env_pairs :: "pane_inputs \<Rightarrow> (string \<times> string) list" where
  "portable_terminal_env_pairs I =
     (let locale = preferred_utf8_locale (pn_macos I) (pn_var I)
      in pn_subprocess I
         @ [(''TERM'', ''xterm-256color''), (''TERM_PROGRAM'', ''Grove''), (''TERM_PROGRAM_VERSION'', pn_app_version I),
            (''LC_ALL'', locale), (''LANG'', locale), (''LC_CTYPE'', locale)])"

definition prepend_path_entry :: "string \<Rightarrow> string \<Rightarrow> string" where
  "prepend_path_entry dir path =
     join_colon (dir # filter (\<lambda>entry. entry \<noteq> [] \<and> entry \<noteq> dir) (split_char CHR '':'' path))"

definition daemon_socket_for_env :: "pane_inputs \<Rightarrow> string option" where
  "daemon_socket_for_env I =
     Option.bind (pn_base I) (\<lambda>base. map_option join_slash (socket_as_path (daemon_socket_path base)))"

definition session_key_for_env :: "(bytes \<Rightarrow> bytes) \<Rightarrow> string \<Rightarrow> pane_inputs \<Rightarrow> string option" where
  "session_key_for_env sha session I =
     (case (pn_base I, pn_token I) of
        (Some base, Some token) \<Rightarrow> if trim token = [] then None else Some (derive_session_key sha (trim token) session)
      | _ \<Rightarrow> None)"

definition pty_real_zdotdir :: "pane_inputs \<Rightarrow> string" where
  "pty_real_zdotdir I =
     (let real = unwrap_or [] (pn_var I ''ZDOTDIR'')
      in if real \<noteq> [] \<and> pn_overlay I \<noteq> Some real then real else unwrap_or [] (pn_home I))"

definition daemon_child_env :: "(bytes \<Rightarrow> bytes) \<Rightarrow> pane_inputs \<Rightarrow> string \<Rightarrow> (string \<times> string) list" where
  "daemon_child_env sha I session =
     (let env = portable_terminal_env_pairs I @ [(''GROVE_SESSION_ID'', session)];
          env = (case pn_bin_dir I of
                   None \<Rightarrow> env
                 | Some bin_dir \<Rightarrow>
                     filter (\<lambda>(key, _). key \<noteq> ''PATH'') env
                     @ [(''PATH'', prepend_path_entry bin_dir (unwrap_or [] (map_of env ''PATH''))), (''GROVE_BIN_DIR'', bin_dir)]);
          env = env @ (case daemon_socket_for_env I of None \<Rightarrow> [] | Some socket \<Rightarrow> [(''GROVE_DAEMON_SOCK'', socket)]);
          env = env @ (case session_key_for_env sha session I of None \<Rightarrow> [] | Some key \<Rightarrow> [(''GROVE_SESSION_KEY'', key)])
      in env @ (case pn_overlay I of
                  None \<Rightarrow> []
                | Some zdotdir \<Rightarrow> [(''GROVE_REAL_ZDOTDIR'', pty_real_zdotdir I), (''ZDOTDIR'', zdotdir)]))"

subsection \<open>Snapshots of terminal sessions\<close>

record pane_snapshot_input =
  sn_pane_id :: string
  sn_pty_id :: "string option"
  sn_launch_cwd :: "string option"

datatype restore_cwd_source = LaunchCwd | LastKnownCwd

record pane_snapshot =
  ps_pane_id :: string
  ps_scrollback :: string
  ps_scrollback_truncated :: bool
  ps_launch_cwd :: string
  ps_last_known_cwd :: "string option"
  ps_restore_cwd :: string
  ps_restore_cwd_source :: restore_cwd_source

record terminal_session_snapshot =
  ts_worktree_path :: string
  ts_panes :: "pane_snapshot list"

record save_snapshot_request =
  sv_worktree_path :: string
  sv_panes :: "pane_snapshot_input list"

definition runtime_snapshot_for_pty :: "string \<Rightarrow> app \<Rightarrow> runtime_state option" where
  "runtime_snapshot_for_pty i s = map_option (\<lambda>l. pa_state (ap_panes s ! lp_pane l)) (map_of (ap_registry s) i)"

definition cache_last_known_cwd :: "string \<Rightarrow> string \<Rightarrow> app \<Rightarrow> app" where
  "cache_last_known_cwd i cwd s =
     (case map_of (ap_registry s) i of
        None \<Rightarrow> s
      | Some l \<Rightarrow> set_state (lp_pane l) (\<lambda>r. r\<lparr>rs_last_known_cwd := Some cwd\<rparr>) s)"

definition daemon_session_cwd :: "'w pty_env \<Rightarrow> string \<Rightarrow> 'w \<Rightarrow> string option \<times> 'w" where
  "daemon_session_cwd E sid w =
     (case with_client E (pe_cwd E sid) w of
        (Ok (Some cwd), w) \<Rightarrow> (non_blank cwd, w)
      | (_, w) \<Rightarrow> (None, w))"

text \<open>The tracked state is copied before the daemon is asked for the directory.\<close>

definition build_pane_snapshot ::
  "'w pty_env \<Rightarrow> pane_snapshot_input \<Rightarrow> app \<Rightarrow> 'w \<Rightarrow> (pane_snapshot, pty_error) result \<times> app \<times> 'w" where
  "build_pane_snapshot E input s w =
     (let runtime = Option.bind (sn_pty_id input) (\<lambda>i. if trim i = [] then None else runtime_snapshot_for_pty i s)
      in case (case runtime of Some r \<Rightarrow> Some (rs_launch_cwd r) | None \<Rightarrow> Option.bind (sn_launch_cwd input) non_blank) of
           None \<Rightarrow> (Err (LaunchCwdRequired (sn_pane_id input)), s, w)
         | Some launch_cwd \<Rightarrow>
             (let (live, w) = (case runtime of Some r \<Rightarrow> daemon_session_cwd E (rs_session_name r) w | None \<Rightarrow> (None, w));
                  known = (case live of Some cwd \<Rightarrow> Some cwd | None \<Rightarrow> Option.bind runtime rs_last_known_cwd);
                  s = (case (sn_pty_id input, known) of (Some i, Some cwd) \<Rightarrow> cache_last_known_cwd i cwd s | _ \<Rightarrow> s)
              in (Ok \<lparr>ps_pane_id = trim (sn_pane_id input),
                      ps_scrollback = (case runtime of Some r \<Rightarrow> from_utf8_lossy (rg_buf (rs_scrollback r)) | None \<Rightarrow> []),
                      ps_scrollback_truncated = (case runtime of Some r \<Rightarrow> rg_truncated (rs_scrollback r) | None \<Rightarrow> False),
                      ps_launch_cwd = launch_cwd, ps_last_known_cwd = known,
                      ps_restore_cwd = unwrap_or launch_cwd known,
                      ps_restore_cwd_source = (if known = None then LaunchCwd else LastKnownCwd)\<rparr>, s, w)))"

fun build_panes ::
  "'w pty_env \<Rightarrow> string list \<Rightarrow> pane_snapshot_input list \<Rightarrow> app \<Rightarrow> 'w
   \<Rightarrow> (pane_snapshot list, pty_error) result \<times> app \<times> 'w" where
  "build_panes E seen [] s w = (Ok [], s, w)"
| "build_panes E seen (pane # panes) s w =
     (let pane_id = trim (sn_pane_id pane) in
      if pane_id = [] then (Err PaneIdRequired, s, w)
      else if pane_id \<in> set seen then (Err (DuplicatePaneId pane_id), s, w)
      else (case build_pane_snapshot E pane s w of
              (Err e, s, w) \<Rightarrow> (Err e, s, w)
            | (Ok p, s, w) \<Rightarrow>
                (let (r, s, w) = build_panes E (pane_id # seen) panes s w in (map_ok (Cons p) r, s, w))))"

text \<open>The store is a file of the world; the layouts of \<open>Config\<close> know how a worktree is removed from it.\<close>

definition save_terminal_session_snapshot ::
  "'w pty_env \<Rightarrow> (string \<Rightarrow> string option) \<Rightarrow> (terminal_session_snapshot snapshot_store, 'w) json_store
   \<Rightarrow> save_snapshot_request \<Rightarrow> app \<Rightarrow> 'w \<Rightarrow> (terminal_session_snapshot, pty_error) result \<times> app \<times> 'w" where
  "save_terminal_session_snapshot E canonicalize J q s w =
     (let path = trim (sv_worktree_path q) in
      if path = [] then (Err (ArgRequired ''worktreePath''), s, w)
      else if sv_panes q = [] then
        (case remove_snapshot_for_worktree canonicalize J path w of
           (Err e, w) \<Rightarrow> (Err (StoreError e), s, w)
         | (Ok _, w) \<Rightarrow> (Ok \<lparr>ts_worktree_path = path, ts_panes = []\<rparr>, s, w))
      else
        (case build_panes E [] (sv_panes q) s w of
           (Err e, s, w) \<Rightarrow> (Err e, s, w)
         | (Ok panes, s, w) \<Rightarrow>
             (let snapshot = \<lparr>ts_worktree_path = path, ts_panes = panes\<rparr>
              in case update_snapshot_store default_snapshot_store J
                        (\<lambda>store. Ok (store\<lparr>ss_worktrees := AList.update path snapshot (ss_worktrees store)\<rparr>, ())) w of
                   (Err e, w) \<Rightarrow> (Err (StoreError e), s, w)
                 | (Ok _, w) \<Rightarrow> (Ok snapshot, s, w))))"

definition load_terminal_session_snapshot ::
  "(terminal_session_snapshot snapshot_store, 'w) json_store \<Rightarrow> string \<Rightarrow> 'w
   \<Rightarrow> (terminal_session_snapshot option, pty_error) result \<times> 'w" where
  "load_terminal_session_snapshot J worktree_path w =
     (case load_snapshot_store default_snapshot_store J w of
        (Err e, w) \<Rightarrow> (Err (StoreError e), w)
      | (Ok store, w) \<Rightarrow> (Ok (map_of (ss_worktrees store) worktree_path), w))"

end
