(* ===== verification/PtyAppProps.thy ===== *)
theory PtyAppProps
  imports PtyApp ProcessEnvProps
begin

text \<open>
  What the pane registry guarantees: an invariant of every interleaving of its operations with the stream, the mirror of
  an attached pane, the environment of its shell, the snapshots; and what a second pane on the same session does.
\<close>

subsection \<open>Interleavings\<close>

text \<open>
  The app with the creations that await their reply. The world is any at each step, and \<open>close\<close> and the clean-up of the
  registry may end at any time.
\<close>

inductive app_step :: "'w pty_env \<Rightarrow> app \<times> creating list \<Rightarrow> app \<times> creating list \<Rightarrow> bool" for E where
  begin_step: "create_pty_begin E w q s = (Ok g, s') \<Longrightarrow> app_step E (s, gs) (s', g # gs)"
| reply_step: "g \<in> set gs \<Longrightarrow> create_pty_end g reply s = (r, s') \<Longrightarrow> app_step E (s, gs) (s', remove1 g gs)"
| data_step: "app_step E (s, gs) (stream_data sid seq data s, gs)"
| exit_step: "app_step E (s, gs) (stream_exit sid s, gs)"
| resize_step: "pty_resize E i cols rows s w = (r, s', w') \<Longrightarrow> app_step E (s, gs) (s', gs)"
| clear_step: "clear_scrollback E i s w = (r, s', w') \<Longrightarrow> app_step E (s, gs) (s', gs)"
| close_step: "app_step E (s, gs) (close_end i sid s, gs)"
| remove_step: "close_ptys_for_worktree_blocking E path s w = (s', w') \<Longrightarrow> app_step E (s, gs) (s', gs)"
| snapshot_step: "save_terminal_session_snapshot E canonicalize J q s w = (r, s', w') \<Longrightarrow> app_step E (s, gs) (s', gs)"
| clean_step: "app_step E (s, gs) (keep_entries reg s, gs)"

definition app_start :: "app \<times> creating list \<Rightarrow> bool" where
  "app_start x \<longleftrightarrow> x = (\<lparr>ap_panes = [], ap_registry = [], ap_subscribers = [], ap_sleep_restore = []\<rparr>, [])"

definition entry_ok :: "(bytes \<Rightarrow> bytes) \<Rightarrow> pane list \<Rightarrow> string \<Rightarrow> live_pane \<Rightarrow> bool" where
  "entry_ok sha ps i l \<longleftrightarrow>
     lp_pane l < length ps \<and> pa_pty_id (ps ! lp_pane l) = i \<and> pa_session_id (ps ! lp_pane l) = lp_session_name l
     \<and> (\<exists>pane_id. lp_session_name l = grove_session_name sha (lp_worktree_path l) pane_id)
     \<and> ad_gate (pa_adapter (ps ! lp_pane l)) = Open \<and> \<not> rs_reader_exited (pa_state (ps ! lp_pane l))"

definition creating_ok :: "(bytes \<Rightarrow> bytes) \<Rightarrow> pane list \<Rightarrow> creating \<Rightarrow> bool" where
  "creating_ok sha ps g \<longleftrightarrow>
     cg_pane g < length ps \<and> pa_pty_id (ps ! cg_pane g) = cg_pty_id g
     \<and> pa_session_id (ps ! cg_pane g) = co_session_id (cg_request g)
     \<and> (\<exists>pane_id. co_session_id (cg_request g) = grove_session_name sha (cg_worktree_path g) pane_id)"

definition scrollback_ok :: "runtime_state \<Rightarrow> bool" where
  "scrollback_ok r \<longleftrightarrow> length (rg_buf (rs_scrollback r)) \<le> MAX_SCROLLBACK_BYTES"

definition panes_ok :: "pane list \<Rightarrow> bool" where
  "panes_ok ps \<longleftrightarrow> list_all (\<lambda>p. scrollback_ok (pa_state p)) ps"

definition subscribers_ok :: "pane list \<Rightarrow> (string \<times> nat) list \<Rightarrow> bool" where
  "subscribers_ok ps subs \<longleftrightarrow> (\<forall>sid ref. map_of subs sid = Some ref \<longrightarrow> ref < length ps \<and> pa_session_id (ps ! ref) = sid)"

definition registry_ok :: "(bytes \<Rightarrow> bytes) \<Rightarrow> pane list \<Rightarrow> (string \<times> live_pane) list \<Rightarrow> bool" where
  "registry_ok sha ps reg \<longleftrightarrow> distinct (map fst reg) \<and> (\<forall>(i, l) \<in> set reg. entry_ok sha ps i l)"

definition app_inv :: "(bytes \<Rightarrow> bytes) \<Rightarrow> app \<times> creating list \<Rightarrow> bool" where
  "app_inv sha x \<longleftrightarrow>
     panes_ok (ap_panes (fst x)) \<and> subscribers_ok (ap_panes (fst x)) (ap_subscribers (fst x))
     \<and> registry_ok sha (ap_panes (fst x)) (ap_registry (fst x)) \<and> list_all (creating_ok sha (ap_panes (fst x))) (snd x)"

subsection \<open>Changes of a pane\<close>

text \<open>A change that keeps what the others rely on.\<close>

definition keeps :: "pane \<Rightarrow> pane \<Rightarrow> bool" where
  "keeps p p' \<longleftrightarrow>
     pa_pty_id p' = pa_pty_id p \<and> pa_session_id p' = pa_session_id p
     \<and> (ad_gate (pa_adapter p) = Open \<longrightarrow> ad_gate (pa_adapter p') = Open)
     \<and> (rs_reader_exited (pa_state p') \<longrightarrow> rs_reader_exited (pa_state p)) \<and> scrollback_ok (pa_state p')"

lemma max_scrollback_pos [simp]: "0 < MAX_SCROLLBACK_BYTES"
  by (simp add: MAX_SCROLLBACK_BYTES_def)

lemma append_scrollback_simps [simp]:
  "rs_reader_exited (append_scrollback r c) = rs_reader_exited r"
  "rs_session_name (append_scrollback r c) = rs_session_name r"
  by (simp_all add: append_scrollback_def)

lemma append_scrollback_ok: "scrollback_ok r \<Longrightarrow> scrollback_ok (append_scrollback r c)"
  by (simp add: scrollback_ok_def append_scrollback_def append_scrollback_buf)

lemma appends_ok: "scrollback_ok r \<Longrightarrow> scrollback_ok (foldl append_scrollback r cs)"
  by (induction cs arbitrary: r) (simp_all add: append_scrollback_ok)

lemma appends_exited [simp]: "rs_reader_exited (foldl append_scrollback r cs) = rs_reader_exited r"
  by (induction cs arbitrary: r) simp_all

lemma appends_buf:
  "scrollback_ok r \<Longrightarrow>
   rg_buf (rs_scrollback (foldl append_scrollback r cs)) = last_n MAX_SCROLLBACK_BYTES (rg_buf (rs_scrollback r) @ concat cs)"
proof (induction cs arbitrary: r)
  case Nil
  then show ?case by (simp add: scrollback_ok_def last_n_def)
next
  case (Cons c cs)
  have "rg_buf (rs_scrollback (append_scrollback r c)) = last_n MAX_SCROLLBACK_BYTES (rg_buf (rs_scrollback r) @ c)"
    using Cons.prems by (simp add: append_scrollback_def scrollback_ok_def append_scrollback_buf)
  then show ?case
    using Cons.IH [of "append_scrollback r c"] append_scrollback_ok [OF Cons.prems]
    by (simp add: last_n_append_last_n)
qed

lemma new_state_simps [simp]:
  "rs_reader_exited (new_runtime_state cwd pid sid c r restore seed) = False"
  "scrollback_ok (new_runtime_state cwd pid sid c r restore seed)"
proof -
  have ok: "scrollback_ok (apply_restore x r) \<and> scrollback_ok (apply_seed h r)" if "scrollback_ok r" for x h r
    using that by (auto simp: apply_restore_def apply_seed_def Let_def scrollback_ok_def append_scrollback_def
        append_scrollback_buf last_n_def split: option.split)
  show "scrollback_ok (new_runtime_state cwd pid sid c r restore seed)"
    unfolding new_runtime_state_def Let_def
    by (auto split: option.split intro!: conjunct1 [OF ok] conjunct2 [OF ok]) (auto simp: scrollback_ok_def new_ring_def)
  show "rs_reader_exited (new_runtime_state cwd pid sid c r restore seed) = False"
    by (simp add: new_runtime_state_def apply_restore_def apply_seed_def Let_def split: option.split)
qed

lemma keeps_absorb:
  "scrollback_ok (pa_state p) \<Longrightarrow> (ad_gate (pa_adapter p) = Open \<Longrightarrow> ad_gate a = Open) \<Longrightarrow> keeps p (absorb a p)"
  by (simp add: keeps_def absorb_def appends_ok)

lemma entry_ok_update:
  "entry_ok sha ps i l \<Longrightarrow> ref < length ps \<Longrightarrow> keeps (ps ! ref) p' \<Longrightarrow> entry_ok sha (ps[ref := p']) i l"
  by (auto simp: entry_ok_def keeps_def nth_list_update)

lemma creating_ok_update:
  "creating_ok sha ps g \<Longrightarrow> ref < length ps \<Longrightarrow> pa_pty_id p' = pa_pty_id (ps ! ref) \<Longrightarrow>
   pa_session_id p' = pa_session_id (ps ! ref) \<Longrightarrow> creating_ok sha (ps[ref := p']) g"
  by (auto simp: creating_ok_def nth_list_update)

lemma subscribers_ok_update:
  "subscribers_ok ps subs \<Longrightarrow> ref < length ps \<Longrightarrow> pa_session_id p' = pa_session_id (ps ! ref) \<Longrightarrow>
   subscribers_ok (ps[ref := p']) subs"
  by (auto simp: subscribers_ok_def nth_list_update)

lemma panes_ok_update: "panes_ok ps \<Longrightarrow> scrollback_ok (pa_state p') \<Longrightarrow> panes_ok (ps[ref := p'])"
  by (auto simp: panes_ok_def list_all_iff dest!: subsetD [OF set_update_subset_insert])

lemma panes_ok_nth: "panes_ok ps \<Longrightarrow> ref < length ps \<Longrightarrow> scrollback_ok (pa_state (ps ! ref))"
  by (auto simp: panes_ok_def list_all_iff)

lemma app_inv_update:
  assumes "app_inv sha (s, gs)" "ref < length (ap_panes s)" "keeps (ap_panes s ! ref) p'"
  shows "app_inv sha (s\<lparr>ap_panes := (ap_panes s)[ref := p']\<rparr>, gs)"
  using assms
  by (auto simp: app_inv_def registry_ok_def list_all_iff keeps_def intro: panes_ok_update subscribers_ok_update
      entry_ok_update [unfolded keeps_def] creating_ok_update)

lemma app_inv_set_state:
  assumes "app_inv sha (s, gs)"
    and "\<And>r. rs_reader_exited (f r) \<Longrightarrow> rs_reader_exited r" and "\<And>r. scrollback_ok r \<Longrightarrow> scrollback_ok (f r)"
  shows "app_inv sha (set_state ref f s, gs)"
proof (cases "ref < length (ap_panes s)")
  case True
  moreover have "scrollback_ok (pa_state (ap_panes s ! ref))"
    using assms(1) True by (simp add: app_inv_def panes_ok_nth)
  ultimately show ?thesis
    using assms by (auto simp: set_state_def keeps_def intro!: app_inv_update)
qed (use assms(1) in \<open>simp add: set_state_def\<close>)

subsection \<open>Changes of the registry and of the subscriptions\<close>

lemma delete_keys_distinct: "distinct (map fst m) \<Longrightarrow> distinct (map fst (AList.delete k m))"
  by (simp add: distinct_delete)

lemma set_delete: "set (AList.delete k m) = {x \<in> set m. fst x \<noteq> k}"
  by (auto simp: AList.delete_eq)

lemma app_inv_unregister: "app_inv sha (s, gs) \<Longrightarrow> app_inv sha (unregister i s, gs)"
  by (auto simp: app_inv_def unregister_def registry_ok_def distinct_delete set_delete)

lemma app_inv_unsubscribe: "app_inv sha (s, gs) \<Longrightarrow> app_inv sha (app_unsubscribe sid s, gs)"
  by (auto simp: app_inv_def app_unsubscribe_def subscribers_ok_def delete_conv split: if_splits)

lemma app_inv_sleep: "app_inv sha (s\<lparr>ap_sleep_restore := x\<rparr>, gs) = app_inv sha (s, gs)"
  by (simp add: app_inv_def)


lemma set_update_entry:
  "x \<in> set (AList.update k v m) \<Longrightarrow> x = (k, v) \<or> x \<in> set m"
  by (induction m) (auto split: if_splits)


subsection \<open>Every operation keeps the invariant\<close>

lemma create_begin_inv:
  assumes "app_inv (pe_sha256 E) (s, gs)" "create_pty_begin E w q s = (Ok g, s')"
  shows "app_inv (pe_sha256 E) (s', g # gs)"
proof -
  obtain pty_id pane_id path cwd where g: "begin_create E w pty_id pane_id path cwd q s = (g, s')"
    using assms(2) by (auto simp: create_pty_begin_def split: result.splits if_splits option.splits prod.splits)
  define session where "session = grove_session_name (pe_sha256 E) path pane_id"
  define p where "p = \<lparr>pa_pty_id = pty_id, pa_session_id = session, pa_adapter = new_adapter,
    pa_state = new_runtime_state cwd None session (cq_cols q) (cq_rows q) None None\<rparr>"
  have p: "pa_pty_id p = cg_pty_id g" "pa_session_id p = session" "scrollback_ok (pa_state p)"
    and sid: "session = co_session_id (cg_request g)" "\<exists>n. co_session_id (cg_request g) = grove_session_name (pe_sha256 E) (cg_worktree_path g) n"
    and ref: "cg_pane g = length (ap_panes s)"
    and s': "s' = app_subscribe session (length (ap_panes s)) (s\<lparr>ap_panes := ap_panes s @ [p]\<rparr>)"
    using g by (auto simp: begin_create_def Let_def p_def session_def)
  have "registry_ok sha (ap_panes s @ [p]) (ap_registry s)" if "registry_ok sha (ap_panes s) (ap_registry s)" for sha
    using that by (auto simp: registry_ok_def entry_ok_def nth_append)
  moreover have "creating_ok sha (ap_panes s @ [p]) h" if "creating_ok sha (ap_panes s) h" for sha h
    using that by (auto simp: creating_ok_def nth_append)
  moreover have "creating_ok (pe_sha256 E) (ap_panes s @ [p]) g"
    using p sid ref by (auto simp: creating_ok_def)
  moreover have "subscribers_ok (ap_panes s @ [p]) (AList.update session (length (ap_panes s)) (ap_subscribers s))"
    if "subscribers_ok (ap_panes s) (ap_subscribers s)"
    using that p by (auto simp: subscribers_ok_def update_conv' nth_append less_Suc_eq split: if_splits)
  ultimately show ?thesis
    using assms(1) p by (simp add: s' app_subscribe_def app_inv_def panes_ok_def list_all_iff)
qed

lemma app_inv_teardown:
  assumes inv: "app_inv sha (s, gs)" and ref: "ref < length (ap_panes s)"
  shows "app_inv sha (app_teardown ref s, gs)"
proof -
  let ?p = "ap_panes s ! ref"
  let ?p' = "?p\<lparr>pa_state := (pa_state ?p)\<lparr>rs_reader_exited := True\<rparr>\<rparr>"
  have "entry_ok sha ((ap_panes s)[ref := ?p']) i l"
    if "entry_ok sha (ap_panes s) i l" "i \<noteq> pa_pty_id ?p" for i l
    using that ref by (auto simp: entry_ok_def nth_list_update)
  moreover have "scrollback_ok (pa_state ?p')"
    using inv ref panes_ok_nth by (auto simp: app_inv_def scrollback_ok_def)
  ultimately show ?thesis
    using inv ref
    by (auto simp: app_inv_def app_teardown_def Let_def app_unsubscribe_def unregister_def set_state_def registry_ok_def
        distinct_delete set_delete subscribers_ok_def delete_conv' nth_list_update list_all_iff
        intro: panes_ok_update creating_ok_update split: if_splits)
qed

lemma on_data_gate [simp]: "ad_gate a = Open \<Longrightarrow> ad_gate (on_data q d a) = Open"
  by (simp add: on_data_def ingest_def)

lemma subscriber_pane: "app_inv sha (s, gs) \<Longrightarrow> map_of (ap_subscribers s) sid = Some ref \<Longrightarrow> ref < length (ap_panes s)"
  by (auto simp: app_inv_def subscribers_ok_def)

lemma pane_scrollback: "app_inv sha (s, gs) \<Longrightarrow> ref < length (ap_panes s) \<Longrightarrow> scrollback_ok (pa_state (ap_panes s ! ref))"
  by (simp add: app_inv_def panes_ok_nth)

lemma stream_data_inv:
  assumes inv: "app_inv sha (s, gs)"
  shows "app_inv sha (stream_data sid q d s, gs)"
proof (cases "map_of (ap_subscribers s) sid")
  case None
  then show ?thesis using inv by (simp add: stream_data_def)
next
  case (Some ref)
  then have ref: "ref < length (ap_panes s)" using inv subscriber_pane by blast
  have "keeps (ap_panes s ! ref) (absorb (on_data q d (pa_adapter (ap_panes s ! ref))) (ap_panes s ! ref))"
    using inv ref by (auto intro: keeps_absorb pane_scrollback)
  then show ?thesis using Some app_inv_update [OF inv ref] by (simp add: stream_data_def Let_def)
qed

lemma stream_exit_inv:
  assumes inv: "app_inv sha (s, gs)"
  shows "app_inv sha (stream_exit sid s, gs)"
proof (cases "map_of (ap_subscribers s) sid")
  case None
  then show ?thesis using inv by (simp add: stream_exit_def)
next
  case (Some ref)
  then have ref: "ref < length (ap_panes s)" using inv by (auto simp: app_inv_def subscribers_ok_def)
  let ?p = "ap_panes s ! ref"
  have "scrollback_ok (pa_state ?p)" using inv ref by (auto simp: app_inv_def panes_ok_nth)
  then have "keeps ?p (?p\<lparr>pa_adapter := on_exit (pa_adapter ?p)\<rparr>)"
    by (simp add: keeps_def on_exit_def teardown_def)
  then have "app_inv sha (s\<lparr>ap_panes := (ap_panes s)[ref := ?p\<lparr>pa_adapter := on_exit (pa_adapter ?p)\<rparr>]\<rparr>, gs)"
    using inv ref by (rule app_inv_update [rotated 2])
  then show ?thesis
    using Some ref by (auto simp: stream_exit_def Let_def split: replay_gate.split intro: app_inv_teardown)
qed

lemma open_gate_open [simp]: "ad_gate (snd (open_gate q a)) = Open"
  by (auto simp: open_gate_def Let_def teardown_def split: replay_gate.split)

lemma open_pane_inv:
  assumes inv: "app_inv sha (s, gs)" and g: "creating_ok sha (ap_panes s) g"
    and live: "\<not> rs_reader_exited (pa_state (ap_panes s ! cg_pane g))"
  shows "app_inv sha (open_pane g q s, gs)"
proof -
  let ?p = "ap_panes s ! cg_pane g"
  obtain exited a where o: "open_gate q (pa_adapter ?p) = (exited, a)" by fastforce
  then have a: "ad_gate a = Open" using open_gate_open [of q "pa_adapter ?p"] by simp
  have ref: "cg_pane g < length (ap_panes s)" using g by (simp add: creating_ok_def)
  have "keeps ?p (absorb a ?p)" using inv ref a by (auto simp: app_inv_def panes_ok_nth intro: keeps_absorb)
  then have inv1: "app_inv sha (s\<lparr>ap_panes := (ap_panes s)[cg_pane g := absorb a ?p]\<rparr>, gs)"
    using inv ref by (rule app_inv_update [rotated 2])
  show ?thesis
  proof (cases exited)
    case True
    then show ?thesis using inv1 ref o by (simp add: open_pane_def Let_def app_inv_teardown)
  next
    case False
    let ?l = "\<lparr>lp_session_name = co_session_id (cg_request g), lp_worktree_path = cg_worktree_path g, lp_pane = cg_pane g\<rparr>"
    have "entry_ok sha ((ap_panes s)[cg_pane g := absorb a ?p]) (cg_pty_id g) ?l"
      using g a live by (auto simp: entry_ok_def creating_ok_def absorb_def)
    then have "registry_ok sha ((ap_panes s)[cg_pane g := absorb a ?p]) (AList.update (cg_pty_id g) ?l (ap_registry s))"
      using inv1 by (auto simp: app_inv_def registry_ok_def distinct_update dest!: set_update_entry)
    then show ?thesis using inv1 o False by (simp add: open_pane_def Let_def app_inv_def)
  qed
qed


lemma create_end_inv:
  assumes inv: "app_inv sha (s, gs)" and g: "g \<in> set gs" and "create_pty_end g reply s = (r, s')"
  shows "app_inv sha (s', remove1 g gs)"
proof -
  have shrink: "app_inv sha (t, remove1 g gs)" if "app_inv sha (t, gs)" for t
    using that by (auto simp: app_inv_def list_all_iff dest!: notin_set_remove1 [THEN contrapos_nn] intro: ccontr)
  show ?thesis
  proof (cases reply)
    case (Err e)
    then show ?thesis using assms by (auto simp: create_pty_end_def intro!: shrink app_inv_unsubscribe)
  next
    case (Ok outcome)
    then obtain q fresh where s': "s' = open_pane g q (set_state (cg_pane g) (\<lambda>_. fresh) s)"
      and fresh: "\<not> rs_reader_exited fresh" "scrollback_ok fresh"
      using assms(3) by (auto simp: create_pty_end_def Let_def split: prod.splits)
    let ?s = "set_state (cg_pane g) (\<lambda>_. fresh) s"
    have g': "creating_ok sha (ap_panes ?s) g"
      using inv g by (auto simp: app_inv_def list_all_iff set_state_def intro!: creating_ok_update)
    moreover have "app_inv sha (?s, gs)" using inv fresh by (intro app_inv_set_state) auto
    moreover have "\<not> rs_reader_exited (pa_state (ap_panes ?s ! cg_pane g))"
      using g' fresh by (auto simp: set_state_def creating_ok_def split: if_splits)
    ultimately show ?thesis unfolding s' by (intro shrink open_pane_inv)
  qed
qed

lemma resize_inv:
  "app_inv sha (s, gs) \<Longrightarrow> pty_resize E i c r s w = (x, s', w') \<Longrightarrow> app_inv sha (s', gs)"
  by (auto simp: pty_resize_def Let_def scrollback_ok_def split: result.splits option.splits prod.splits intro!: app_inv_set_state)

lemma clear_inv:
  "app_inv sha (s, gs) \<Longrightarrow> clear_scrollback E i s w = (x, s', w') \<Longrightarrow> app_inv sha (s', gs)"
  by (auto simp: clear_scrollback_def clear_tracked_def scrollback_ok_def
      split: result.splits option.splits prod.splits intro!: app_inv_set_state)

lemma close_end_inv: "app_inv sha (s, gs) \<Longrightarrow> app_inv sha (close_end i sid s, gs)"
  by (simp add: close_end_def Let_def app_inv_sleep app_inv_unsubscribe app_inv_unregister)

lemma remove_inv:
  assumes "app_inv sha (s, gs)" "close_ptys_for_worktree_blocking E p s w = (s', w')"
  shows "app_inv sha (s', gs)"
proof -
  have un: "app_inv sha (t, gs) \<Longrightarrow> app_inv sha (foldl (\<lambda>s (i, sid). unregister i s) t xs, gs)" for t xs
    by (induction xs arbitrary: t) (auto intro: app_inv_unregister)
  have kill: "app_inv sha (t, gs) \<Longrightarrow>
      app_inv sha (fst (foldl (\<lambda>(s, w) (i, sid). let (r, w) = pe_kill E sid w in (app_unsubscribe sid s, w)) (t, v) xs), gs)"
    for t v xs
    by (induction xs arbitrary: t v) (auto simp: Let_def split: prod.split intro: app_inv_unsubscribe)
  show ?thesis
    using assms un [OF assms(1)] kill [OF un [OF assms(1)]]
    unfolding close_ptys_for_worktree_blocking_def Let_def by (cases "pe_global_client E w") (auto split: if_splits dest!: sym [of _ "(s', w')"] arg_cong [where f = fst])
qed

lemma cache_inv: "app_inv sha (s, gs) \<Longrightarrow> app_inv sha (cache_last_known_cwd i c s, gs)"
  by (auto simp: cache_last_known_cwd_def scrollback_ok_def split: option.split intro!: app_inv_set_state)

lemma build_snapshot_inv:
  "app_inv sha (s, gs) \<Longrightarrow> build_pane_snapshot E input s w = (r, s', w') \<Longrightarrow> app_inv sha (s', gs)"
  by (auto simp: build_pane_snapshot_def Let_def split: option.splits prod.splits intro: cache_inv)

lemma build_panes_inv:
  "app_inv sha (s, gs) \<Longrightarrow> build_panes E seen ps s w = (r, s', w') \<Longrightarrow> app_inv sha (s', gs)"
  by (induction ps arbitrary: seen s w r)
     (auto simp: Let_def split: if_splits prod.splits result.splits dest: build_snapshot_inv)

lemma snapshot_inv:
  "app_inv sha (s, gs) \<Longrightarrow> save_terminal_session_snapshot E can J q s w = (r, s', w') \<Longrightarrow> app_inv sha (s', gs)"
  by (auto simp: save_terminal_session_snapshot_def Let_def split: if_splits prod.splits result.splits dest: build_panes_inv)

lemma clean_inv: "app_inv sha (s, gs) \<Longrightarrow> app_inv sha (keep_entries reg s, gs)"
  by (auto simp: app_inv_def keep_entries_def registry_ok_def intro: distinct_map_filter)

lemma app_step_inv: "app_step E x y \<Longrightarrow> app_inv (pe_sha256 E) x \<Longrightarrow> app_inv (pe_sha256 E) y"
  by (induction rule: app_step.induct)
     (auto intro: create_begin_inv create_end_inv stream_data_inv stream_exit_inv resize_inv clear_inv close_end_inv
        remove_inv snapshot_inv clean_inv)

interpretation pty_app: invariant_system app_start "app_step E" "app_inv (pe_sha256 E)" for E :: "'w pty_env"
proof
  fix x assume "app_start x"
  then show "app_inv (pe_sha256 E) x"
    by (simp add: app_start_def app_inv_def panes_ok_def subscribers_ok_def registry_ok_def)
qed (rule app_step_inv)



subsection \<open>The mirror of an attached pane\<close>

definition stream_frames :: "(string \<times> u64 \<times> bytes) list \<Rightarrow> app \<Rightarrow> app" where
  "stream_frames fs s = foldl (\<lambda>s (sid, seq, data). stream_data sid seq data s) s fs"

definition frames_of :: "string \<Rightarrow> (string \<times> u64 \<times> bytes) list \<Rightarrow> (u64 \<times> bytes) list" where
  "frames_of sid fs = map snd (filter (\<lambda>f. fst f = sid) fs)"

definition feed :: "(u64 \<times> bytes) list \<Rightarrow> pane \<Rightarrow> pane" where
  "feed fs p = foldl (\<lambda>p (seq, data). absorb (on_data seq data (pa_adapter p)) p) p fs"

lemma feed_simps [simp]: "feed [] p = p" "feed ((q, d) # fs) p = feed fs (absorb (on_data q d (pa_adapter p)) p)"
  by (simp_all add: feed_def)

lemma absorb_ids [simp]:
  "pa_pty_id (absorb a p) = pa_pty_id p" "pa_session_id (absorb a p) = pa_session_id p" "pa_adapter (absorb a p) = a"
  by (simp_all add: absorb_def)

lemma stream_frames_pane:
  assumes "subscribers_ok (ap_panes s) (ap_subscribers s)" "map_of (ap_subscribers s) sid = Some ref"
  shows "ap_panes (stream_frames fs s) ! ref = feed (frames_of sid fs) (ap_panes s ! ref)
    \<and> length (ap_panes (stream_frames fs s)) = length (ap_panes s)
    \<and> ap_subscribers (stream_frames fs s) = ap_subscribers s
    \<and> subscribers_ok (ap_panes (stream_frames fs s)) (ap_subscribers s)
    \<and> ap_registry (stream_frames fs s) = ap_registry s"
  using assms
proof (induction fs arbitrary: s)
  case Nil
  then show ?case by (simp add: stream_frames_def frames_of_def)
next
  case (Cons f fs)
  obtain t q d where f: "f = (t, q, d)" by (cases f)
  let ?s = "stream_data t q d s"
  have subs: "ap_subscribers ?s = ap_subscribers s" "ap_registry ?s = ap_registry s" "length (ap_panes ?s) = length (ap_panes s)"
    by (auto simp: stream_data_def Let_def split: option.split)
  have ref: "ref < length (ap_panes s)" "pa_session_id (ap_panes s ! ref) = sid"
    using Cons.prems by (auto simp: subscribers_ok_def)
  have ok: "subscribers_ok (ap_panes ?s) (ap_subscribers ?s)"
    using Cons.prems(1) by (auto simp: stream_data_def Let_def subscribers_ok_def nth_list_update split: option.split)
  have pane: "ap_panes ?s ! ref
      = (if t = sid then absorb (on_data q d (pa_adapter (ap_panes s ! ref))) (ap_panes s ! ref) else ap_panes s ! ref)"
    using Cons.prems ref by (auto simp: stream_data_def Let_def subscribers_ok_def nth_list_update split: option.split)
  have "stream_frames (f # fs) s = stream_frames fs ?s" by (simp add: stream_frames_def f)
  then show ?case
    using Cons.IH [OF ok] Cons.prems(2) pane subs by (simp add: frames_of_def f)
qed

lemma feed_closed:
  "ad_gate (pa_adapter p) = Closed early e \<Longrightarrow>
   pa_adapter (feed fs p) = (pa_adapter p)\<lparr>ad_gate := Closed (early @ fs) e\<rparr> \<and> pa_state (feed fs p) = pa_state p
   \<and> pa_pty_id (feed fs p) = pa_pty_id p \<and> pa_session_id (feed fs p) = pa_session_id p"
proof (induction fs arbitrary: p early)
  case Nil
  then show ?case by (cases "pa_adapter p") simp
next
  case (Cons f fs)
  obtain q d where f: "f = (q, d)" by (cases f)
  let ?p = "absorb (on_data q d (pa_adapter p)) p"
  have "ad_gate (pa_adapter ?p) = Closed (early @ [(q, d)]) e" "pa_state ?p = pa_state p"
    using Cons.prems by (simp_all add: on_data_def absorb_def)
  then show ?case using Cons.IH [of ?p] Cons.prems by (simp add: f on_data_def)
qed

lemma feed_open:
  "ad_gate (pa_adapter p) = Open \<Longrightarrow> scrollback_ok (pa_state p) \<Longrightarrow>
   concat (ad_ingested (pa_adapter (feed fs p))) = concat (ad_ingested (pa_adapter p)) @ concat (map snd fs)
   \<and> rg_buf (rs_scrollback (pa_state (feed fs p)))
      = last_n MAX_SCROLLBACK_BYTES (rg_buf (rs_scrollback (pa_state p)) @ concat (map snd fs))"
proof (induction fs arbitrary: p)
  case Nil
  then show ?case by (simp add: scrollback_ok_def last_n_def)
next
  case (Cons f fs)
  obtain q d where f: "f = (q, d)" by (cases f)
  let ?p = "absorb (on_data q d (pa_adapter p)) p"
  have p: "ad_gate (pa_adapter ?p) = Open" "concat (ad_ingested (pa_adapter ?p)) = concat (ad_ingested (pa_adapter p)) @ d"
    "pa_state ?p = append_scrollback (pa_state p) d"
    using Cons.prems by (simp_all add: on_data_def ingest_def absorb_def)
  moreover have "scrollback_ok (append_scrollback (pa_state p) d)" using Cons.prems append_scrollback_ok by blast
  moreover have "rg_buf (rs_scrollback (append_scrollback (pa_state p) d))
      = last_n MAX_SCROLLBACK_BYTES (rg_buf (rs_scrollback (pa_state p)) @ d)"
    using appends_buf [of "pa_state p" "[d]"] Cons.prems by simp
  ultimately show ?case
    using Cons.IH [of ?p] by (simp add: f last_n_append_last_n)
qed


lemma begun_pane:
  assumes "create_pty_begin E w q s = (Ok g, s1)" "subscribers_ok (ap_panes s) (ap_subscribers s)"
  shows "subscribers_ok (ap_panes s1) (ap_subscribers s1)"
    and "map_of (ap_subscribers s1) (co_session_id (cg_request g)) = Some (cg_pane g)"
    and "cg_pane g < length (ap_panes s1)"
    and "pa_adapter (ap_panes s1 ! cg_pane g) = new_adapter"
    and "pa_session_id (ap_panes s1 ! cg_pane g) = co_session_id (cg_request g)"
proof -
  obtain pty_id pane_id path cwd where "begin_create E w pty_id pane_id path cwd q s = (g, s1)"
    using assms(1) by (auto simp: create_pty_begin_def split: result.splits if_splits option.splits prod.splits)
  note b = this [unfolded begin_create_def Let_def app_subscribe_def prod.inject]
  show "subscribers_ok (ap_panes s1) (ap_subscribers s1)"
    using assms(2) b by (auto simp: subscribers_ok_def update_conv' nth_append less_Suc_eq split: if_splits)
  show "map_of (ap_subscribers s1) (co_session_id (cg_request g)) = Some (cg_pane g)"
    "cg_pane g < length (ap_panes s1)" "pa_adapter (ap_panes s1 ! cg_pane g) = new_adapter"
    "pa_session_id (ap_panes s1 ! cg_pane g) = co_session_id (cg_request g)"
    using b by (auto simp: update_conv' nth_append dest!: sym [of _ g] sym [of _ s1])
qed

lemma open_gate_warm:
  assumes "a = new_adapter\<lparr>ad_gate := Closed early False\<rparr>" "stamped_from base early"
  shows "fst (open_gate (Some q) a) = False" "ad_gate (snd (open_gate (Some q) a)) = Open"
    and "concat (ad_ingested (snd (open_gate (Some q) a))) = drop (unat q - base) (concat (map snd early))"
  using assms release_frames_ingested [OF assms(2)] by (simp_all add: open_gate_def Let_def new_adapter_def)

lemma seeded_buf:
  "rg_buf (rs_scrollback (new_runtime_state cwd pid sid c r None (Some h))) = last_n MAX_SCROLLBACK_BYTES (hs_bytes h)"
  by (simp add: new_runtime_state_def apply_seed_def append_scrollback_def append_scrollback_buf new_ring_def)



subsection \<open>The environment of the shell\<close>

lemma prepend_split:
  assumes "CHR '':'' \<notin> set dir"
  shows "split_char CHR '':'' (prepend_path_entry dir path)
    = dir # filter (\<lambda>e. e \<noteq> [] \<and> e \<noteq> dir) (split_char CHR '':'' path)"
proof -
  have "\<forall>p \<in> set (dir # filter (\<lambda>e. e \<noteq> [] \<and> e \<noteq> dir) (split_char CHR '':'' path)). CHR '':'' \<notin> set p"
    using assms split_char_pieces by auto
  then show ?thesis
    using split_join_colon [of "dir # filter (\<lambda>e. e \<noteq> [] \<and> e \<noteq> dir) (split_char CHR '':'' path)"]
    by (simp add: prepend_path_entry_def split_paths_def)
qed

lemma prepend_again:
  "CHR '':'' \<notin> set dir \<Longrightarrow> prepend_path_entry dir (prepend_path_entry dir path) = prepend_path_entry dir path"
  by (subst prepend_path_entry_def) (simp add: prepend_split, simp add: prepend_path_entry_def)

lemma locale_of_ok: "is_utf8_locale (locale_of m vs) \<and> is_usable_locale (locale_of m vs)"
proof (induction m vs rule: locale_of.induct)
  case (1 m)
  have "is_utf8_locale ''en_US.UTF-8'' \<and> is_usable_locale ''en_US.UTF-8''
      \<and> is_utf8_locale ''C.UTF-8'' \<and> is_usable_locale ''C.UTF-8''" by code_simp
  then show ?case by simp
next
  case (3 m v vs)
  then show ?case by (simp add: Let_def)
qed simp

text \<open>
  The shell of a pane gets no variable twice; its path starts with grove's own directory, which is nowhere else on it,
  before the directories of the enriched path, so that attaching again changes nothing; the locale is one of UTF-8 and is
  the same in its three variables; the daemon's token is not there, only the key derived for this session.
\<close>

theorem shell_environment_is_well_formed:
  assumes "pn_subprocess I = subprocess_env_pairs home raw is_socket L"
    and "pn_bin_dir I = Some dir" "CHR '':'' \<notin> set dir"
  shows "let env = daemon_child_env sha I session
    in distinct (map fst env)
     \<and> (\<exists>path. map_of env ''PATH'' = Some path \<and> prepend_path_entry dir path = path
          \<and> split_char CHR '':'' path = dir # filter (\<lambda>e. e \<noteq> [] \<and> e \<noteq> dir) (split_char CHR '':'' (enriched_path home raw L)))
     \<and> (\<exists>lc. map_of env ''LC_ALL'' = Some lc \<and> map_of env ''LANG'' = Some lc \<and> map_of env ''LC_CTYPE'' = Some lc
          \<and> is_utf8_locale lc \<and> is_usable_locale lc)
     \<and> map_of env ''GROVE_SESSION_ID'' = Some session
     \<and> map_of env ''GROVE_SESSION_KEY''
       = (case (pn_base I, pn_token I) of
            (Some base, Some token) \<Rightarrow> if trim token = [] then None else Some (derive_session_key sha (trim token) session)
          | _ \<Rightarrow> None)"
proof -
  let ?ssh = "case preferred_ssh_auth_sock is_socket L of None \<Rightarrow> [] | Some s \<Rightarrow> [(''SSH_AUTH_SOCK'', s)]"
  let ?lc = "preferred_utf8_locale (pn_macos I) (pn_var I)"
  let ?path = "prepend_path_entry dir (enriched_path home raw L)"
  have env: "daemon_child_env sha I session =
    ?ssh @ [(''TERM'', ''xterm-256color''), (''TERM_PROGRAM'', ''Grove''), (''TERM_PROGRAM_VERSION'', pn_app_version I),
            (''LC_ALL'', ?lc), (''LANG'', ?lc), (''LC_CTYPE'', ?lc), (''GROVE_SESSION_ID'', session),
            (''PATH'', ?path), (''GROVE_BIN_DIR'', dir)]
    @ (case daemon_socket_for_env I of None \<Rightarrow> [] | Some socket \<Rightarrow> [(''GROVE_DAEMON_SOCK'', socket)])
    @ (case session_key_for_env sha session I of None \<Rightarrow> [] | Some key \<Rightarrow> [(''GROVE_SESSION_KEY'', key)])
    @ (case pn_overlay I of None \<Rightarrow> [] | Some z \<Rightarrow> [(''GROVE_REAL_ZDOTDIR'', pty_real_zdotdir I), (''ZDOTDIR'', z)])"
    by (simp add: daemon_child_env_def portable_terminal_env_pairs_def subprocess_env_pairs_def assms(1,2) Let_def
        split: option.split)
  have "prepend_path_entry dir ?path = ?path" using assms(3) by (rule prepend_again)
  moreover have "is_utf8_locale ?lc \<and> is_usable_locale ?lc" by (simp only: preferred_utf8_locale_def locale_of_ok)
  moreover have "distinct (map fst (daemon_child_env sha I session))"
    unfolding env by (simp add: image_iff split: option.split)
  moreover have "map_of (daemon_child_env sha I session) ''PATH'' = Some ?path"
    "map_of (daemon_child_env sha I session) ''LC_ALL'' = Some ?lc"
    "map_of (daemon_child_env sha I session) ''LANG'' = Some ?lc"
    "map_of (daemon_child_env sha I session) ''LC_CTYPE'' = Some ?lc"
    "map_of (daemon_child_env sha I session) ''GROVE_SESSION_ID'' = Some session"
    "map_of (daemon_child_env sha I session) ''GROVE_SESSION_KEY'' = session_key_for_env sha session I"
    unfolding env by (simp_all split: option.split)
  ultimately show ?thesis
    using prepend_split [OF assms(3)] by (simp add: Let_def session_key_for_env_def)
qed

subsection \<open>Snapshots\<close>

lemma built_panes:
  "build_panes E seen inputs s w = (Ok panes, s', w') \<Longrightarrow>
   map ps_pane_id panes = map (\<lambda>p. trim (sn_pane_id p)) inputs \<and> distinct (map ps_pane_id panes)
   \<and> set (map ps_pane_id panes) \<inter> set seen = {} \<and> [] \<notin> set (map ps_pane_id panes)"
proof (induction inputs arbitrary: seen s w panes s' w')
  case Nil
  then show ?case by simp
next
  case (Cons i rest_in)
  obtain p s1 w1 rest s2 w2 where p: "build_pane_snapshot E i s w = (Ok p, s1, w1)"
    and r: "build_panes E (trim (sn_pane_id i) # seen) rest_in s1 w1 = (Ok rest, s2, w2)" and panes: "panes = p # rest"
    and new: "trim (sn_pane_id i) \<noteq> []" "trim (sn_pane_id i) \<notin> set seen"
    using Cons.prems by (auto simp: Let_def map_ok_eq_Ok split: if_splits result.splits prod.splits)
  have "ps_pane_id p = trim (sn_pane_id i)"
    using p by (auto simp: build_pane_snapshot_def Let_def split: option.splits prod.splits)
  moreover have "ps_pane_id ` set rest = (\<lambda>p. trim (sn_pane_id p)) ` set rest_in"
    using Cons.IH [OF r] by (metis set_map)
  ultimately show ?case using Cons.IH [OF r] new panes by auto
qed



text \<open>
  What a snapshot saves of a live pane is what a new shell of the pane starts from: created again with it, and the
  daemon reporting a session of its own, the mirror is the saved one byte for byte, if it is valid UTF-8, with its
  truncation mark and its directory.
\<close>

theorem restored_pane_shows_the_saved_scrollback:
  assumes "build_pane_snapshot E input s w = (Ok snap, s1, w1)"
    and "sn_pty_id input = Some i" "trim i \<noteq> []" "runtime_snapshot_for_pty i s = Some old"
    and "utf8_valid (rg_buf (rs_scrollback old))" "scrollback_ok old"
    and "cr_scrollback restore = Some (ps_scrollback snap)"
      "cr_scrollback_truncated restore = Some (ps_scrollback_truncated snap)"
      "cr_last_known_cwd restore = ps_last_known_cwd snap"
    and "ps_last_known_cwd snap = Some dir" "trim dir = dir" "dir \<noteq> []"
  shows "let new = new_runtime_state cwd None sid cols rows (runtime_restore_seed Created (Some restore)) None
    in rs_scrollback new = rs_scrollback old \<and> rs_last_known_cwd new = Some dir"
proof -
  have p: "ps_scrollback snap = chars_of (rg_buf (rs_scrollback old))"
    "ps_scrollback_truncated snap = rg_truncated (rs_scrollback old)"
    using assms(1-5) by (auto simp: build_pane_snapshot_def Let_def from_utf8_lossy_def lossy_valid_id
        split: option.splits prod.splits)
  let ?r = "rs_scrollback old"
  have "append_scrollback_capped \<lparr>rg_buf = [], rg_truncated = rg_truncated ?r\<rparr> (rg_buf ?r) MAX_SCROLLBACK_BYTES = ?r"
    using assms(6) by (cases ?r) (auto simp: append_scrollback_capped_def scrollback_ok_def Let_def)
  then show ?thesis
    using assms(7-12) p
    by (simp add: new_runtime_state_def apply_restore_def append_scrollback_def new_ring_def Let_def non_blank_def)
qed

subsection \<open>Two panes on one session\<close>

text \<open>A daemon that answers everything, and a file system with one directory; the world is the list of killed sessions.\<close>

definition sample_pty_env :: "string list pty_env" where
  "sample_pty_env =
     \<lparr>pe_sha256 = (\<lambda>bs. replicate 32 (word_of_nat (length bs))), pe_exists = (\<lambda>w p. True), pe_is_dir = (\<lambda>w p. True),
      pe_scrollback_bytes = (\<lambda>w. 4096), pe_child_env = (\<lambda>w sid. []), pe_client_error = (\<lambda>w. None),
      pe_global_client = (\<lambda>w. True), pe_write = (\<lambda>sid d w. (Ok (), w)), pe_resize = (\<lambda>sid c r w. (Ok (), w)),
      pe_applied_size = (\<lambda>sid w. (Ok (80, 24), w)), pe_clear_history = (\<lambda>sid w. (Ok (), w)),
      pe_kill = (\<lambda>sid w. (Ok (), w @ [sid])), pe_cwd = (\<lambda>sid w. (Ok (Some ''/w''), w))\<rparr>"

definition sample_request :: "string \<Rightarrow> create_pty_request" where
  "sample_request i =
     \<lparr>cq_pty_id = i, cq_pane_id = ''p'', cq_worktree_path = ''/w'', cq_cwd = ''/w'', cq_cols = 80, cq_rows = 24,
      cq_restore = None\<rparr>"

definition fresh_session :: create_or_attach_result where
  "fresh_session = \<lparr>ca_is_new = True, ca_is_cold_restore = False, ca_cold_restore = None, ca_warm_reattach = None\<rparr>"

definition empty_app :: app where
  "empty_app = \<lparr>ap_panes = [], ap_registry = [], ap_subscribers = [], ap_sleep_restore = []\<rparr>"

definition sample_session :: string where
  "sample_session = grove_session_name (pe_sha256 sample_pty_env) ''/w'' ''p''"

text \<open>The whole of \<open>create\<close>, with nothing between request and reply.\<close>

definition created :: "string \<Rightarrow> (create_or_attach_result, client_error) result \<Rightarrow> app \<Rightarrow> app" where
  "created i reply s =
     (case create_pty_begin sample_pty_env [] (sample_request i) s of
        (Err e, s) \<Rightarrow> s
      | (Ok g, s) \<Rightarrow> snd (create_pty_end g reply s))"

lemma sample_trims:
  "trim ''a'' = ''a''" "trim ''b'' = ''b''" "trim ''p'' = ''p''" "trim ''/w'' = ''/w''"
  by code_simp+

lemma sample_root: "(case path_parent ''/w'' of None \<Rightarrow> True | Some parent \<Rightarrow> same_path parent ''/w'') = False"
  by code_simp

lemma created_eq:
  assumes "trim i = i" "i \<noteq> []" "map_of (ap_registry s) i = None"
  shows "created i reply s =
    (let ref = length (ap_panes s);
         st = new_runtime_state ''/w'' None sample_session 80 24 None None;
         p = \<lparr>pa_pty_id = i, pa_session_id = sample_session, pa_adapter = new_adapter, pa_state = st\<rparr>;
         s = app_subscribe sample_session ref (s\<lparr>ap_panes := ap_panes s @ [p]\<rparr>)
     in case reply of
          Err e \<Rightarrow> app_unsubscribe sample_session s
        | Ok r \<Rightarrow> snd (create_pty_end \<lparr>cg_pty_id = i, cg_worktree_path = ''/w'', cg_cwd = ''/w'', cg_restore = None, cg_pane = ref,
             cg_request = \<lparr>co_session_id = sample_session, co_cwd = Some ''/w'', co_cols = 80, co_rows = 24, co_env = [],
                           co_scrollback_bytes = Some 4096\<rparr>\<rparr> (Ok r) s))"
  using assms sample_root
  by (simp add: created_def create_pty_begin_def required_arg_def sample_request_def sample_trims validate_pty_cwd_def
      begin_create_def Let_def create_pty_end_def sample_pty_env_def sample_session_def split: result.split)


text \<open>
  The session of a pane is named after its worktree and pane id, not after its pty id: closing a pty whose pane was
  opened again under another id kills the session of the new one and takes its subscription, while its entry stays.
\<close>

theorem closing_an_old_pane_kills_its_successor:
  assumes "map_of (ap_registry s) old = Some l" "map_of (ap_registry s) new = Some l'" "new \<noteq> old"
    and "lp_session_name l' = lp_session_name l" "pe_client_error E w = None"
  shows "let (r, s', w') = pty_close E old s w
    in w' = snd (pe_kill E (lp_session_name l') w) \<and> map_of (ap_registry s') new = Some l'
     \<and> map_of (ap_subscribers s') (lp_session_name l') = None"
  using assms
  by (simp add: pty_close_def require_session_id_def session_id_for_def Let_def close_end_def unregister_def
      app_unsubscribe_def delete_conv' case_prod_unfold)

text \<open>
  And a second create that fails takes the stream of the pane that is open: the subscription of the session is
  replaced at its begin and removed at its end, and no frame reaches the registered pane any more.
\<close>

theorem failed_create_silences_the_open_pane:
  assumes "create_pty_begin E w q s = (Ok g, s1)" "create_pty_end g (Err e) s1 = (r, s2)"
    and "map_of (ap_registry s) i = Some l" "lp_session_name l = co_session_id (cg_request g)"
  shows "map_of (ap_registry s2) i = Some l \<and> stream_data (lp_session_name l) seq data s2 = s2"
proof -
  obtain pty_id pane_id path cwd where "begin_create E w pty_id pane_id path cwd q s = (g, s1)"
    using assms(1) by (auto simp: create_pty_begin_def split: result.splits if_splits option.splits prod.splits)
  then have "ap_registry s1 = ap_registry s" by (auto simp: begin_create_def Let_def app_subscribe_def)
  moreover have "s2 = app_unsubscribe (lp_session_name l) s1" using assms(2,4) by (simp add: create_pty_end_def)
  ultimately show ?thesis
    using assms(3) by (simp add: app_unsubscribe_def stream_data_def delete_conv')
qed

text \<open>
  The root of the file system is refused as a working directory, but not under the name of its own parent.
\<close>

theorem dotted_root_is_accepted:
  "validate_pty_cwd sample_pty_env w ''/'' = Err (CwdRoot ''/'') \<and> validate_pty_cwd sample_pty_env w ''/..'' = Ok ()"
proof -
  have "trim ''/'' = ''/''" "trim ''/..'' = ''/..''" by code_simp+
  moreover have "(case path_parent ''/'' of None \<Rightarrow> True | Some parent \<Rightarrow> same_path parent ''/'')"
    "\<not> (case path_parent ''/..'' of None \<Rightarrow> True | Some parent \<Rightarrow> same_path parent ''/..'')" by code_simp+
  ultimately show ?thesis by (simp add: validate_pty_cwd_def sample_pty_env_def)
qed

subsection \<open>Witnesses\<close>

definition app_a :: app where "app_a = created ''a'' (Ok fresh_session) empty_app"
definition app_ab :: app where "app_ab = created ''b'' (Ok fresh_session) app_a"

definition sample_pane :: "string \<Rightarrow> pane" where
  "sample_pane i =
     \<lparr>pa_pty_id = i, pa_session_id = sample_session, pa_adapter = new_adapter\<lparr>ad_gate := Open, ad_registered := True\<rparr>,
      pa_state = new_runtime_state ''/w'' None sample_session 80 24 None None\<rparr>"

lemma app_a_eq:
  "app_a = \<lparr>ap_panes = [sample_pane ''a''],
     ap_registry = [(''a'', \<lparr>lp_session_name = sample_session, lp_worktree_path = ''/w'', lp_pane = 0\<rparr>)],
     ap_subscribers = [(sample_session, 0)], ap_sleep_restore = []\<rparr>"
  by (simp add: app_a_def created_eq sample_trims empty_app_def Let_def create_pty_end_def attached_as_def fresh_session_def
      set_state_def open_pane_def open_gate_def new_adapter_def absorb_def app_subscribe_def sample_pane_def)

lemma app_ab_eq:
  "app_ab = \<lparr>ap_panes = [sample_pane ''a'', sample_pane ''b''],
     ap_registry = [(''a'', \<lparr>lp_session_name = sample_session, lp_worktree_path = ''/w'', lp_pane = 0\<rparr>),
                    (''b'', \<lparr>lp_session_name = sample_session, lp_worktree_path = ''/w'', lp_pane = 1\<rparr>)],
     ap_subscribers = [(sample_session, 1)], ap_sleep_restore = []\<rparr>"
  by (simp add: app_ab_def app_a_eq created_eq sample_trims Let_def create_pty_end_def attached_as_def fresh_session_def
      set_state_def open_pane_def open_gate_def new_adapter_def absorb_def app_subscribe_def sample_pane_def)

lemma sample_pane_simps [simp]:
  "pa_pty_id (sample_pane i) = i" "pa_session_id (sample_pane i) = sample_session"
  by (simp_all add: sample_pane_def)

theorem closing_an_old_pane_kills_its_successor_witness:
  "let (r, s', w') = pty_close sample_pty_env ''a'' app_ab []
   in w' = [sample_session] \<and> session_id_for ''b'' s' = Some sample_session
    \<and> map_of (ap_subscribers s') sample_session = None"
proof -
  let ?l = "\<lambda>n. \<lparr>lp_session_name = sample_session, lp_worktree_path = ''/w'', lp_pane = n\<rparr>"
  have "pe_client_error sample_pty_env [] = None" by (simp add: sample_pty_env_def)
  then show ?thesis
    using closing_an_old_pane_kills_its_successor [of app_ab "''a''" "?l 0" "''b''" "?l 1" sample_pty_env "[]"]
    by (simp add: app_ab_eq case_prod_unfold Let_def session_id_for_def) (simp add: sample_pty_env_def)
qed

definition begun_b :: "creating \<times> app" where
  "begun_b = begin_create sample_pty_env [] ''b'' ''p'' ''/w'' ''/w'' (sample_request ''b'') app_a"

lemma begun_b: "create_pty_begin sample_pty_env [] (sample_request ''b'') app_a = (Ok (fst begun_b), snd begun_b)"
  using sample_root
  by (simp add: begun_b_def create_pty_begin_def required_arg_def sample_request_def sample_trims validate_pty_cwd_def
      app_a_eq) (simp add: sample_pty_env_def Let_def case_prod_unfold)

lemma begun_b_session: "co_session_id (cg_request (fst begun_b)) = sample_session"
  by (simp add: begun_b_def begin_create_def Let_def sample_session_def)

theorem failed_create_silences_the_open_pane_witness:
  "session_id_for ''a'' (snd (create_pty_end (fst begun_b) (Err ConnectionLost) (snd begun_b))) = Some sample_session
   \<and> stream_data sample_session 1 [1] (snd (create_pty_end (fst begun_b) (Err ConnectionLost) (snd begun_b)))
     = snd (create_pty_end (fst begun_b) (Err ConnectionLost) (snd begun_b))"
proof -
  let ?l = "\<lparr>lp_session_name = sample_session, lp_worktree_path = ''/w'', lp_pane = 0\<rparr>"
  show ?thesis
    using failed_create_silences_the_open_pane
      [OF begun_b surjective_pairing [of "create_pty_end (fst begun_b) (Err ConnectionLost) (snd begun_b)"], of "''a''" ?l 1 "[1]"]
    by (simp add: app_a_eq begun_b_session session_id_for_def)
qed


definition begun_a :: "creating \<times> app" where
  "begun_a = begin_create sample_pty_env [] ''a'' ''p'' ''/w'' ''/w'' (sample_request ''a'') empty_app"

lemma begun_a: "create_pty_begin sample_pty_env [] (sample_request ''a'') empty_app = (Ok (fst begun_a), snd begun_a)"
  using sample_root
  by (simp add: begun_a_def create_pty_begin_def required_arg_def sample_request_def sample_trims validate_pty_cwd_def
      empty_app_def) (simp add: sample_pty_env_def Let_def case_prod_unfold)

lemma begun_a_session: "co_session_id (cg_request (fst begun_a)) = sample_session" "cg_pane (fst begun_a) = 0"
  "cg_pty_id (fst begun_a) = ''a''" "cg_worktree_path (fst begun_a) = ''/w''"
  by (simp_all add: begun_a_def begin_create_def Let_def sample_session_def empty_app_def)

lemma empty_start: "app_start (empty_app, [])"
  by (simp add: app_start_def empty_app_def)

lemma a_reachable: "(app_step sample_pty_env)\<^sup>*\<^sup>* (empty_app, []) (app_a, [])"
proof -
  have "app_step sample_pty_env (empty_app, []) (snd begun_a, [fst begun_a])" by (rule begin_step) (rule begun_a)
  moreover have "app_a = snd (create_pty_end (fst begun_a) (Ok fresh_session) (snd begun_a))"
    by (simp add: app_a_def created_def begun_a)
  then have "create_pty_end (fst begun_a) (Ok fresh_session) (snd begun_a)
      = (fst (create_pty_end (fst begun_a) (Ok fresh_session) (snd begun_a)), app_a)" by (metis prod.collapse)
  then have "app_step sample_pty_env (snd begun_a, [fst begun_a]) (app_a, remove1 (fst begun_a) [fst begun_a])"
    by (rule reply_step [rotated]) simp
  ultimately show ?thesis by (simp add: converse_rtranclp_into_rtranclp)
qed


definition warm_session :: create_or_attach_result where
  "warm_session = \<lparr>ca_is_new = False, ca_is_cold_restore = False, ca_cold_restore = None,
     ca_warm_reattach = Some \<lparr>wa_snapshot = ''hi'', wa_cols = 80, wa_rows = 24, wa_is_alternate_screen = False,
       wa_output_sequence = 3, wa_pending_escape_tail_ansi = None, wa_kitty_keyboard_flags = None, wa_cwd = None,
       wa_last_title = None, wa_emulator_degraded = False\<rparr>\<rparr>"


definition sample_inputs :: pane_inputs where
  "sample_inputs = \<lparr>pn_subprocess = subprocess_env_pairs None (Some ''/usr/bin:/b'') (\<lambda>p. False)
       \<lparr>el_process = (\<lambda>k. None), el_launchctl = (\<lambda>k. None), el_ancestor = (\<lambda>k. None), el_interactive = (\<lambda>k. None),
        el_login_path = None, el_well_known = None\<rparr>,
     pn_app_version = ''1.0'', pn_macos = True, pn_var = (\<lambda>k. None), pn_bin_dir = Some ''/b'', pn_base = None,
     pn_token = None, pn_overlay = None, pn_home = None\<rparr>"

theorem shell_environment_is_well_formed_witness:
  "distinct (map fst (daemon_child_env id sample_inputs ''s''))
   \<and> map_of (daemon_child_env id sample_inputs ''s'') ''GROVE_SESSION_ID'' = Some ''s''"
proof -
  have "pn_bin_dir sample_inputs = Some ''/b''" "CHR '':'' \<notin> set ''/b''" by (simp_all add: sample_inputs_def)
  note e = shell_environment_is_well_formed [OF _ this]
  show ?thesis
    using e [of None "Some ''/usr/bin:/b''" "\<lambda>p. False" "\<lparr>el_process = (\<lambda>k. None), el_launchctl = (\<lambda>k. None),
        el_ancestor = (\<lambda>k. None), el_interactive = (\<lambda>k. None), el_login_path = None, el_well_known = None\<rparr>" id "''s''"]
    by (simp add: Let_def) (simp add: sample_inputs_def)
qed


definition sample_snapshot :: terminal_session_snapshot where
  "sample_snapshot = \<lparr>ts_worktree_path = ''/w'', ts_panes =
     [\<lparr>ps_pane_id = ''p'', ps_scrollback = [], ps_scrollback_truncated = False, ps_launch_cwd = ''/w'', ps_last_known_cwd = None,
       ps_restore_cwd = ''/w'', ps_restore_cwd_source = LaunchCwd\<rparr>]\<rparr>"

definition one_snapshot :: "terminal_session_snapshot snapshot_store" where
  "one_snapshot = default_snapshot_store\<lparr>ss_worktrees := [(''/w'', sample_snapshot)]\<rparr>"

text \<open>A file that can hold one store.\<close>

definition sample_store :: "(terminal_session_snapshot snapshot_store, string list) json_store" where
  "sample_store = \<lparr>js_exists = (\<lambda>w. w \<noteq> []), js_read = (\<lambda>w. if w = [] then None else Some (hd w)),
     js_write = (\<lambda>t w. (t = ''s'', [t])), js_parse = (\<lambda>t. if t = ''s'' then Some one_snapshot else None),
     js_parse_first = (\<lambda>t. None), js_render = (\<lambda>x. if x = one_snapshot then ''s'' else [])\<rparr>"

lemma sample_saves:
  "save_terminal_session_snapshot sample_pty_env (\<lambda>p. None) sample_store
     \<lparr>sv_worktree_path = ''/w'', sv_panes = [\<lparr>sn_pane_id = ''p'', sn_pty_id = None, sn_launch_cwd = Some ''/w''\<rparr>]\<rparr> empty_app []
   = (Ok sample_snapshot, empty_app, [''s''])"
  by (simp add: save_terminal_session_snapshot_def sample_trims build_pane_snapshot_def Let_def non_blank_def
      update_snapshot_store_def load_snapshot_store_def save_layouts_impl_def sample_store_def one_snapshot_def
      sample_snapshot_def default_snapshot_store_def)


theorem restored_pane_shows_the_saved_scrollback_witness:
  "let old = (pa_state (sample_pane ''a''))\<lparr>rs_scrollback := \<lparr>rg_buf = [0x68], rg_truncated = True\<rparr>\<rparr>;
       new = new_runtime_state ''/w'' None sample_session 80 24 (runtime_restore_seed Created
         (Some \<lparr>cr_last_known_cwd = Some ''/w'', cr_scrollback = Some ''h'', cr_scrollback_truncated = Some True\<rparr>)) None
   in rs_scrollback new = rs_scrollback old \<and> rs_last_known_cwd new = Some ''/w''"
proof -
  let ?old = "(pa_state (sample_pane ''a''))\<lparr>rs_scrollback := \<lparr>rg_buf = [0x68], rg_truncated = True\<rparr>\<rparr>"
  let ?s = "set_state 0 (\<lambda>_. ?old) app_a"
  let ?i = "\<lparr>sn_pane_id = ''p'', sn_pty_id = Some ''a'', sn_launch_cwd = None\<rparr>"
  let ?snap = "\<lparr>ps_pane_id = ''p'', ps_scrollback = ''h'', ps_scrollback_truncated = True, ps_launch_cwd = ''/w'',
    ps_last_known_cwd = Some ''/w'', ps_restore_cwd = ''/w'', ps_restore_cwd_source = LastKnownCwd\<rparr>"
  have v: "utf8_valid [0x68]" "from_utf8_lossy [0x68] = ''h''" by code_simp+
  have r: "runtime_snapshot_for_pty ''a'' ?s = Some ?old"
    by (simp add: runtime_snapshot_for_pty_def app_a_eq set_state_def)
  have c: "rs_launch_cwd ?old = ''/w''" "rs_session_name ?old = sample_session"
    by (simp_all add: sample_pane_def new_runtime_state_def)
  have "\<exists>s1 w1. build_pane_snapshot sample_pty_env ?i ?s [] = (Ok ?snap, s1, w1)"
    using r c v
    by (simp add: build_pane_snapshot_def sample_trims Let_def daemon_session_cwd_def with_client_def non_blank_def)
       (simp add: sample_pty_env_def non_blank_def sample_trims)
  then obtain s1 w1 where b: "build_pane_snapshot sample_pty_env ?i ?s [] = (Ok ?snap, s1, w1)" by blast
  show ?thesis
    using restored_pane_shows_the_saved_scrollback [OF b _ _ r, of "\<lparr>cr_last_known_cwd = Some ''/w'', cr_scrollback = Some ''h'',
        cr_scrollback_truncated = Some True\<rparr>" "''/w''" "''/w''" sample_session 80 24] v
    by (simp add: sample_trims scrollback_ok_def MAX_SCROLLBACK_BYTES_def)
qed


subsection \<open>Removing a worktree\<close>

lemma unregister_many:
  "ap_registry (foldl (\<lambda>s (i, sid). unregister i s) s xs) = filter (\<lambda>(i, l). i \<notin> fst ` set xs) (ap_registry s)
   \<and> ap_sleep_restore (foldl (\<lambda>s (i, sid). unregister i s) s xs) = ap_sleep_restore s"
proof (induction xs arbitrary: s)
  case Nil
  then show ?case by (simp add: case_prod_unfold)
next
  case (Cons x xs)
  then show ?case
    by (auto simp: unregister_def AList.delete_eq filter_filter case_prod_unfold intro!: filter_cong)
qed

lemma kill_many:
  "ap_registry (fst (foldl (\<lambda>(s, w) (i, sid). let (r, w) = pe_kill E sid w in (app_unsubscribe sid s, w)) (s, w) xs))
     = ap_registry s
   \<and> snd (foldl (\<lambda>(s, w) (i, sid). let (r, w) = pe_kill E sid w in (app_unsubscribe sid s, w)) (s, w) xs)
     = foldl (\<lambda>w sid. snd (pe_kill E sid w)) w (map snd xs)"
  by (induction xs arbitrary: s w) (auto simp: Let_def case_prod_unfold app_unsubscribe_def)

text \<open>
  Removing a worktree takes exactly its panes out of the registry, and its sessions are killed, each pane's once and
  in order, unless no client was ever made; whether a kill succeeds makes no difference.
\<close>

theorem removed_worktree_loses_its_panes:
  assumes "distinct (map fst (ap_registry s))" "close_ptys_for_worktree_blocking E path s w = (s', w')"
  shows "ap_registry s' = filter (\<lambda>(i, l). lp_worktree_path l \<noteq> path) (ap_registry s)
    \<and> w' = (if pe_global_client E w
             then foldl (\<lambda>w sid. snd (pe_kill E sid w)) w
                    (map (\<lambda>(i, l). lp_session_name l) (filter (\<lambda>(i, l). lp_worktree_path l = path) (ap_registry s)))
             else w)"
proof -
  let ?mine = "filter (\<lambda>(i, l). lp_worktree_path l = path) (ap_registry s)"
  let ?sessions = "List.map_filter (\<lambda>i. map_option (Pair i) (session_id_for i s)) (map fst ?mine)"
  have ids: "ids_for_worktree path (registry_view s) = map fst ?mine"
    by (simp add: ids_for_worktree_def registry_view_def filter_map o_def case_prod_unfold)
  have "List.map_filter (\<lambda>i. map_option (Pair i) (session_id_for i s)) (map fst m) = map (\<lambda>(i, l). (i, lp_session_name l)) m"
    if "set m \<subseteq> set (ap_registry s)" for m
    using that
  proof (induction m)
    case (Cons x m)
    then have "map_of (ap_registry s) (fst x) = Some (snd x)" using assms(1) by (auto intro: map_of_is_SomeI)
    then show ?case using Cons by (simp add: map_filter_simps session_id_for_def case_prod_unfold)
  qed (simp add: map_filter_simps)
  then have sessions: "?sessions = map (\<lambda>(i, l). (i, lp_session_name l)) ?mine" by auto
  have "i \<in> fst ` set ?sessions \<longleftrightarrow> lp_worktree_path l = path" if "(i, l) \<in> set (ap_registry s)" for i l
    using that assms(1) by (force simp: sessions dest: eq_key_imp_eq_value)
  then have left: "filter (\<lambda>(i, l). i \<notin> fst ` set ?sessions) (ap_registry s)
      = filter (\<lambda>(i, l). lp_worktree_path l \<noteq> path) (ap_registry s)"
    by (intro filter_cong) auto
  show ?thesis
  proof (cases "?mine = []")
    case True
    then have "(s', w') = (s, w)" using assms(2) ids by (simp add: close_ptys_for_worktree_blocking_def)
    moreover have "filter (\<lambda>(i, l). lp_worktree_path l \<noteq> path) (ap_registry s) = ap_registry s"
      using True by (auto simp: filter_empty_conv intro: filter_True)
    ultimately show ?thesis using True by simp
  next
    case False
    then show ?thesis
      using assms(2) ids unregister_many [of s ?sessions] left sessions
        kill_many [of E "foldl (\<lambda>s (i, sid). unregister i s) s ?sessions" w ?sessions]
      by (auto simp: close_ptys_for_worktree_blocking_def Let_def o_def case_prod_unfold split: if_splits dest!: arg_cong [where f = fst] arg_cong [where f = snd])
  qed
qed

theorem removed_worktree_loses_its_panes_witness:
  "ap_registry (fst (close_ptys_for_worktree_blocking sample_pty_env ''/w'' app_a [])) = []
   \<and> snd (close_ptys_for_worktree_blocking sample_pty_env ''/w'' app_a []) = [sample_session]"
  using removed_worktree_loses_its_panes [OF _ surjective_pairing, of app_a sample_pty_env "''/w''" "[]"]
  by (simp add: app_a_eq sample_pty_env_def)

end
