(* ===== verification/Supervisor.thy ===== *)
theory Supervisor
  imports Protocol "HOL-Library.Signed_Division" "HOL-Library.Sublist"
begin

text \<open>
  The daemon supervisor, \<open>grove-core/src/daemon/supervisor.rs\<close>: the adoption gate \<open>ensure_running\<close>,
  \<open>restart_daemon\<close>, the probes, the kill of a stale daemon by verified pid, the spawn.

  The world moves while the supervisor looks at it. \<open>hs_time\<close> counts the supervisor's observations
  and system calls; the environment \<open>sup_env\<close> says what each of them gives at its time, and how the
  other processes have changed the files since the one before. The kernel, the daemon's answers, the
  code signature, \<open>serde_json\<close> and the random source are fields of it. A turn of a polling loop ends
  by sleeping, so a loop with a deadline has at most deadline over sleep turns; the environment may
  let the deadline pass earlier.
\<close>

subsection \<open>State\<close>

datatype platform = Linux | MacOS | OtherUnix
datatype signal = SIGTERM | SIGKILL
datatype child_state = Running | Exited string | WaitFailed

text \<open>What the kernel and \<open>ps\<close> say of a process; \<open>None\<close> is a file or a process that is not there.\<close>

record process_table =
  pt_exists :: "u32 \<Rightarrow> bool"
  pt_proc_cmdline :: "u32 \<Rightarrow> bytes option"
  pt_proc_started :: "u32 \<Rightarrow> u64 option"
  pt_ps_command :: "u32 \<Rightarrow> bytes option"
  pt_ps_lstart :: "u32 \<Rightarrow> bytes option"

text \<open>The files the supervisor works on: those under the base directory, and the bundle's binary.\<close>

record run_files =
  rf_token :: "bytes option"
  rf_pid :: "bytes option"
  rf_socket :: bool
  rf_bin :: "bytes option"
  rf_log :: "bytes option"
  rf_source :: "bytes option"

record spawned =
  sd_path :: path_parts
  sd_image :: "bytes option"
  sd_token :: string

record host =
  hs_time :: nat
  hs_files :: run_files
  hs_requests :: "string list"
  hs_signals :: "(nat \<times> u32 \<times> signal) list"
  hs_spawns :: "spawned list"
  hs_killed_children :: "u32 list"

record 'v sup_env =
  sv_platform :: platform
  sv_debug_assertions :: bool
  sv_processes :: "nat \<Rightarrow> process_table"
  sv_others :: "nat \<Rightarrow> run_files \<Rightarrow> run_files"
  sv_io :: "nat \<Rightarrow> bool"
  sv_connects :: "nat \<Rightarrow> bool"
  sv_hello :: "nat \<Rightarrow> string \<Rightarrow> string option"
  sv_replies :: "nat \<Rightarrow> string \<Rightarrow> string list"
  sv_child :: "nat \<Rightarrow> child_state"
  sv_child_pid :: "nat \<Rightarrow> u32"
  sv_deadline :: "nat \<Rightarrow> bool"
  sv_random :: "nat \<Rightarrow> bytes"
  sv_codesign :: "bytes \<Rightarrow> bool"
  sv_hello_text :: "hello \<Rightarrow> string option"
  sv_ack :: "string \<Rightarrow> hello_ack option"
  sv_message_text :: "'v control_message \<Rightarrow> string option"
  sv_message :: "string \<Rightarrow> 'v control_message option"
  sv_pid_text :: "daemon_pid_file \<Rightarrow> string"
  sv_pid_parse :: "string \<Rightarrow> daemon_pid_file option"
  sv_null :: 'v
  sv_kill_sessions :: 'v
  sv_array :: "'v \<Rightarrow> 'v list option"
  sv_bool :: "'v \<Rightarrow> string \<Rightarrow> bool option"
  sv_str :: "'v \<Rightarrow> string \<Rightarrow> string option"

definition tick :: "'v sup_env \<Rightarrow> host \<Rightarrow> host" where
  "tick E h = h\<lparr>hs_time := Suc (hs_time h), hs_files := sv_others E (hs_time h) (hs_files h)\<rparr>"

text \<open>An observation, and a change of the files that takes effect if the call succeeds.\<close>

definition look :: "'v sup_env \<Rightarrow> (nat \<Rightarrow> run_files \<Rightarrow> 'a) \<Rightarrow> host \<Rightarrow> 'a \<times> host" where
  "look E f h = (f (hs_time h) (hs_files h), tick E h)"

definition edit :: "'v sup_env \<Rightarrow> (run_files \<Rightarrow> run_files) \<Rightarrow> host \<Rightarrow> bool \<times> host" where
  "edit E f h =
     (let done = sv_io E (hs_time h)
      in (done, tick E (if done then h\<lparr>hs_files := f (hs_files h)\<rparr> else h)))"

definition path_str :: "path_parts \<Rightarrow> string" where
  "path_str ps = concat (map (\<lambda>p. ''/'' @ p) ps)"

definition socket_path_for :: "path_parts \<Rightarrow> path_parts" where
  "socket_path_for base = unwrap_or [] (socket_as_path (daemon_socket_path base))"

subsection \<open>Limits\<close>

definition KILL_TURNS :: nat where "KILL_TURNS = 3000 div 100"
definition READINESS_TURNS :: nat where "READINESS_TURNS = 10000 div 50"
definition START_TIME_TOLERANCE_MS :: int where "START_TIME_TOLERANCE_MS = 1500"
definition LOG_TAIL_BYTES :: nat where "LOG_TAIL_BYTES = 4096"

subsection \<open>Configuration and results\<close>

record ensure_running_config =
  er_base_dir :: path_parts
  er_bin_source_path :: path_parts
  er_app_version :: string

datatype ensure_outcome = Adopted | AdoptedDegraded | AdoptedUnresponsive | Spawned | Replaced

record ensure_result =
  en_outcome :: ensure_outcome
  en_socket_path :: path_parts
  en_token_path :: path_parts

record restart_outcome =
  ro_result :: ensure_result
  ro_prior_session_ids :: "string list"

datatype supervisor_error =
  Io | TokenGen | BinaryVerify string | SpawnFailed string "string option" | ReadinessTimeout "string option"

datatype daemon_health = Healthy | PtySpawnUnhealthy | HelloRejected | Unreachable
datatype probe_error = ProbeRejected | ProbeUnreachable

subsection \<open>Probes\<close>

definition read_token :: "'v sup_env \<Rightarrow> host \<Rightarrow> string option \<times> host" where
  "read_token E =
     look E (\<lambda>t fs. case Option.bind (rf_token fs) from_utf8 of
                      None \<Rightarrow> None
                    | Some token \<Rightarrow> (let token = trim token in if token = [] then None else Some token))"

text \<open>\<open>RawControl::connect\<close>: no answer within the deadline is the same as no connection.\<close>

definition raw_connect :: "'v sup_env \<Rightarrow> string \<Rightarrow> host \<Rightarrow> (unit, probe_error) result \<times> host" where
  "raw_connect E token =
     look E (\<lambda>t fs.
       case encode_ndjson_line (sv_hello_text E)
              \<lparr>hl_version = GROVE_DAEMON_PROTOCOL_VERSION, hl_token = token,
               hl_client_id = ''grove-supervisor'', hl_kind = Control\<rparr> of
         Err _ \<Rightarrow> Err ProbeUnreachable
       | Ok line \<Rightarrow>
           (case sv_hello E t line of
              None \<Rightarrow> Err ProbeUnreachable
            | Some ack_line \<Rightarrow>
                if ack_line = [] then Err ProbeUnreachable
                else (case decode_ndjson_line (sv_ack E) ack_line of
                        Err _ \<Rightarrow> Err ProbeUnreachable
                      | Ok ack \<Rightarrow> if ha_ok ack then Ok () else Err ProbeRejected)))"

text \<open>The reply to request 1 among the lines that arrive before the end, an error or the deadline.\<close>

fun find_reply :: "'v sup_env \<Rightarrow> string list \<Rightarrow> ('v, probe_error) result" where
  "find_reply E [] = Err ProbeUnreachable"
| "find_reply E (l # ls) =
     (case decode_ndjson_line (sv_message E) l of
        Ok (Reply r) \<Rightarrow>
          if rr_id r = 1 then
            (if rr_error r \<noteq> None then Err ProbeUnreachable else Ok (unwrap_or (sv_null E) (rr_result r)))
          else find_reply E ls
      | _ \<Rightarrow> find_reply E ls)"

definition raw_request :: "'v sup_env \<Rightarrow> string \<Rightarrow> 'v \<Rightarrow> host \<Rightarrow> ('v, probe_error) result \<times> host" where
  "raw_request E m params h =
     (case encode_ndjson_line (sv_message_text E) (Request \<lparr>rq_id = 1, rq_method = m, rq_params = params\<rparr>) of
        Err _ \<Rightarrow> (Err ProbeUnreachable, h)
      | Ok line \<Rightarrow>
          look E (\<lambda>t fs. find_reply E (sv_replies E t line)) (h\<lparr>hs_requests := hs_requests h @ [m]\<rparr>))"

definition probe_health :: "'v sup_env \<Rightarrow> host \<Rightarrow> daemon_health \<times> host" where
  "probe_health E h =
     (case read_token E h of
        (None, h) \<Rightarrow> (Unreachable, h)
      | (Some token, h) \<Rightarrow>
          (case raw_connect E token h of
             (Err ProbeRejected, h) \<Rightarrow> (HelloRejected, h)
           | (Err ProbeUnreachable, h) \<Rightarrow> (Unreachable, h)
           | (Ok _, h) \<Rightarrow>
               (case raw_request E ''checkPtySpawnHealth'' (sv_null E) h of
                  (Ok v, h) \<Rightarrow>
                    (if unwrap_or False (sv_bool E v ''ok'') then Healthy else PtySpawnUnhealthy, h)
                | (Err _, h) \<Rightarrow> (Unreachable, h))))"

text \<open>The answer of \<open>listSessions\<close> over a throwaway connection, for the two callers that want it.\<close>

definition session_list :: "'v sup_env \<Rightarrow> host \<Rightarrow> 'v option \<times> host" where
  "session_list E h =
     (case read_token E h of
        (None, h) \<Rightarrow> (None, h)
      | (Some token, h) \<Rightarrow>
          (case raw_connect E token h of
             (Err _, h) \<Rightarrow> (None, h)
           | (Ok _, h) \<Rightarrow>
               (case raw_request E ''listSessions'' (sv_null E) h of
                  (Err _, h) \<Rightarrow> (None, h)
                | (Ok v, h) \<Rightarrow> (Some v, h))))"

definition alive_session_count :: "'v sup_env \<Rightarrow> host \<Rightarrow> nat option \<times> host" where
  "alive_session_count E h =
     (case session_list E h of
        (None, h) \<Rightarrow> (None, h)
      | (Some v, h) \<Rightarrow>
          (map_option (\<lambda>arr. length (filter (\<lambda>s. unwrap_or False (sv_bool E s ''isAlive'')) arr)) (sv_array E v), h))"

definition list_session_ids :: "'v sup_env \<Rightarrow> host \<Rightarrow> string list \<times> host" where
  "list_session_ids E h =
     (case session_list E h of
        (None, h) \<Rightarrow> ([], h)
      | (Some v, h) \<Rightarrow> (unwrap_or [] (map_option (List.map_filter (\<lambda>s. sv_str E s ''sessionId'')) (sv_array E v)), h))"

definition request_shutdown :: "'v sup_env \<Rightarrow> host \<Rightarrow> host" where
  "request_shutdown E h =
     (case read_token E h of
        (None, h) \<Rightarrow> h
      | (Some token, h) \<Rightarrow>
          (case raw_connect E token h of
             (Err _, h) \<Rightarrow> h
           | (Ok _, h) \<Rightarrow> snd (raw_request E ''shutdown'' (sv_kill_sessions E) h)))"

definition probe_socket :: "'v sup_env \<Rightarrow> host \<Rightarrow> bool \<times> host" where
  "probe_socket E h =
     (let (present, h) = look E (\<lambda>t fs. rf_socket fs) h
      in if \<not> present then (False, h) else look E (\<lambda>t fs. sv_connects E t) h)"


subsection \<open>The identity of a process\<close>

definition get_cmdline :: "'v sup_env \<Rightarrow> nat \<Rightarrow> u32 \<Rightarrow> string option" where
  "get_cmdline E t pid =
     (case sv_platform E of
        Linux \<Rightarrow>
          map_option (\<lambda>bs. map (\<lambda>c. if c = CHR 0x00 then CHR '' '' else c) (from_utf8_lossy bs))
            (pt_proc_cmdline (sv_processes E t) pid)
      | _ \<Rightarrow>
          (case pt_ps_command (sv_processes E t) pid of
             None \<Rightarrow> None
           | Some out \<Rightarrow> (let s = trim (from_utf8_lossy out) in if s = [] then None else Some s)))"

definition month_index :: "string \<Rightarrow> int option" where
  "month_index m =
     map_of [(''Jan'', 1), (''Feb'', 2), (''Mar'', 3), (''Apr'', 4), (''May'', 5), (''Jun'', 6), (''Jul'', 7),
             (''Aug'', 8), (''Sep'', 9), (''Oct'', 10), (''Nov'', 11), (''Dec'', 12)] m"

text \<open>
  Division of \<open>i64\<close> rounds towards zero. The numbers are those of a date \<open>ps\<close> printed, far from the
  bounds of \<open>i64\<close>, so they are integers here.
\<close>

definition days_from_civil :: "int \<Rightarrow> int \<Rightarrow> int \<Rightarrow> int" where
  "days_from_civil y m d =
     (let y = (if m \<le> 2 then y - 1 else y);
          era = (if 0 \<le> y then y else y - 399) sdiv 400;
          yoe = y - era * 400;
          mp = (if 2 < m then m - 3 else m + 9);
          doy = (153 * mp + 2) sdiv 5 + d - 1;
          doe = yoe * 365 + yoe sdiv 4 - yoe sdiv 100 + doy
      in era * 146097 + doe - 719468)"

definition parse_lstart_to_ms :: "string \<Rightarrow> u64 option" where
  "parse_lstart_to_ms s =
     (let parts = split_whitespace s in
      if length parts < 5 then None
      else
        case (month_index (parts ! 1), parse_i64 (parts ! 2), parse_i64 (parts ! 4)) of
          (Some month, Some day, Some year) \<Rightarrow>
            (let hms = split_char (CHR '':'') (parts ! 3) in
             if length hms \<noteq> 3 then None
             else
               case (parse_i64 (hms ! 0), parse_i64 (hms ! 1), parse_i64 (hms ! 2)) of
                 (Some hh, Some mi, Some se) \<Rightarrow>
                   (let days = days_from_civil year month day;
                        secs = days * 86400 + hh * 3600 + mi * 60 + se
                    in if secs < 0 then None else Some (word_of_int secs * 1000))
               | _ \<Rightarrow> None)
        | _ \<Rightarrow> None)"

definition get_process_started_at_ms :: "'v sup_env \<Rightarrow> nat \<Rightarrow> u32 \<Rightarrow> u64 option" where
  "get_process_started_at_ms E t pid =
     (case sv_platform E of
        Linux \<Rightarrow> pt_proc_started (sv_processes E t) pid
      | MacOS \<Rightarrow>
          Option.bind (pt_ps_lstart (sv_processes E t) pid) (\<lambda>out. parse_lstart_to_ms (trim (from_utf8_lossy out)))
      | OtherUnix \<Rightarrow> None)"

definition start_time_matches :: "'v sup_env \<Rightarrow> nat \<Rightarrow> u32 \<Rightarrow> u64 option \<Rightarrow> bool" where
  "start_time_matches E t pid expected =
     (case (get_process_started_at_ms E t pid, expected) of
        (Some actual, Some expected) \<Rightarrow> \<bar>sint (actual - expected)\<bar> \<le> START_TIME_TOLERANCE_MS
      | _ \<Rightarrow> True)"

text \<open>The three checks are three observations.\<close>

definition is_daemon_process ::
  "'v sup_env \<Rightarrow> path_parts \<Rightarrow> u32 \<Rightarrow> u64 option \<Rightarrow> host \<Rightarrow> bool \<times> host" where
  "is_daemon_process E socket pid expected h =
     (let (alive, h) = look E (\<lambda>t fs. pt_exists (sv_processes E t) pid) h in
      if \<not> alive then (False, h)
      else
        let (cmdline, h) = look E (\<lambda>t fs. get_cmdline E t pid) h in
        case cmdline of
          None \<Rightarrow> (False, h)
        | Some c \<Rightarrow>
            if \<not> sublist (path_str socket) c then (False, h)
            else look E (\<lambda>t fs. start_time_matches E t pid expected) h)"

definition read_pid_file :: "'v sup_env \<Rightarrow> host \<Rightarrow> daemon_pid_file option \<times> host" where
  "read_pid_file E =
     look E (\<lambda>t fs. Option.bind (Option.bind (rf_pid fs) from_utf8) (parse_pid_file (sv_pid_parse E)))"

definition is_stale_for_current :: "'v sup_env \<Rightarrow> path_parts \<Rightarrow> string \<Rightarrow> host \<Rightarrow> bool \<times> host" where
  "is_stale_for_current E socket current h =
     (case read_pid_file E h of
        (None, h) \<Rightarrow> (False, h)
      | (Some p, h) \<Rightarrow>
          (case is_daemon_process E socket (dp_pid p) (dp_started_at_ms p) h of
             (False, h) \<Rightarrow> (False, h)
           | (True, h) \<Rightarrow> (case dp_app_version p of Some recorded \<Rightarrow> recorded \<noteq> current | None \<Rightarrow> True, h)))"

subsection \<open>Killing a stale daemon\<close>

definition send_signal :: "'v sup_env \<Rightarrow> u32 \<Rightarrow> signal \<Rightarrow> host \<Rightarrow> host" where
  "send_signal E pid s h = tick E (h\<lparr>hs_signals := hs_signals h @ [(hs_time h, pid, s)]\<rparr>)"

text \<open>The wait for the exit; \<open>n\<close> is how many sleeps still fit before the deadline.\<close>

fun wait_exit :: "'v sup_env \<Rightarrow> u32 \<Rightarrow> nat \<Rightarrow> host \<Rightarrow> bool \<times> host" where
  "wait_exit E pid 0 h = (False, h)"
| "wait_exit E pid (Suc n) h =
     (if sv_deadline E (hs_time h) then (False, h)
      else
        let (alive, h) = look E (\<lambda>t fs. pt_exists (sv_processes E t) pid) h
        in if \<not> alive then (True, h) else wait_exit E pid n h)"

definition kill_recorded :: "'v sup_env \<Rightarrow> path_parts \<Rightarrow> daemon_pid_file \<Rightarrow> host \<Rightarrow> bool \<times> host" where
  "kill_recorded E socket p h =
     (case is_daemon_process E socket (dp_pid p) (dp_started_at_ms p) h of
        (False, h) \<Rightarrow> (False, h)
      | (True, h) \<Rightarrow>
          (let (exited, h) = wait_exit E (dp_pid p) KILL_TURNS (send_signal E (dp_pid p) SIGTERM h) in
           if exited then (True, h)
           else
             case is_daemon_process E socket (dp_pid p) (dp_started_at_ms p) h of
               (True, h) \<Rightarrow> (True, send_signal E (dp_pid p) SIGKILL h)
             | (False, h) \<Rightarrow> (True, h)))"

definition kill_stale :: "'v sup_env \<Rightarrow> path_parts \<Rightarrow> host \<Rightarrow> bool \<times> host" where
  "kill_stale E socket h =
     (let (parsed, h) = read_pid_file E h;
          (killed, h) = (case parsed of None \<Rightarrow> (False, h) | Some p \<Rightarrow> kill_recorded E socket p h);
          (_, h) = edit E (\<lambda>fs. fs\<lparr>rf_pid := None\<rparr>) h;
          (socket_live, h) = look E (\<lambda>t fs. sv_connects E t) h;
          (present, h) = look E (\<lambda>t fs. rf_socket fs) h;
          (_, h) = (if present \<and> (killed \<or> \<not> socket_live) then edit E (\<lambda>fs. fs\<lparr>rf_socket := False\<rparr>) h
                    else (False, h))
      in (killed, h))"


subsection \<open>The daemon's binary\<close>

definition mach_o_magics :: "bytes list" where
  "mach_o_magics =
     [[0xCF, 0xFA, 0xED, 0xFE], [0xCE, 0xFA, 0xED, 0xFE], [0xFE, 0xED, 0xFA, 0xCF],
      [0xFE, 0xED, 0xFA, 0xCE], [0xCA, 0xFE, 0xBA, 0xBE], [0xBE, 0xBA, 0xFE, 0xCA]]"

definition is_mach_o :: "bytes \<Rightarrow> bool" where
  "is_mach_o content \<longleftrightarrow> 4 \<le> length content \<and> take 4 content \<in> set mach_o_magics"

definition files_identical :: "run_files \<Rightarrow> bool" where
  "files_identical fs =
     (case (rf_source fs, rf_bin fs) of (Some x, Some y) \<Rightarrow> x = y | _ \<Rightarrow> False)"

definition verified_image :: "'v sup_env \<Rightarrow> bytes option \<Rightarrow> bool" where
  "verified_image E img = (case img of None \<Rightarrow> False | Some b \<Rightarrow> sv_codesign E b \<and> is_mach_o b)"

definition prepare_binary_with_policy ::
  "'v sup_env \<Rightarrow> path_parts \<Rightarrow> path_parts \<Rightarrow> bool \<Rightarrow> bool \<Rightarrow> host
   \<Rightarrow> (path_parts, supervisor_error) result \<times> host" where
  "prepare_binary_with_policy E source base force allow_unverified h =
     (let (there, h) = look E (\<lambda>t fs. rf_source fs \<noteq> None) h in
      if \<not> there then (Err (BinaryVerify (path_str source)), h)
      else
        let dest = daemon_bin_path base;
            (same, h) = (if force then (False, h) else look E (\<lambda>t fs. files_identical fs) h);
            (copied, h) =
              (if same then (True, h)
               else let (source_left, h) = look E (\<lambda>t fs. rf_source fs \<noteq> None) h
                    in if source_left then edit E (\<lambda>fs. fs\<lparr>rf_bin := rf_source fs\<rparr>) h else (False, h))
        in if \<not> copied then (Err Io, h)
           else if sv_platform E = MacOS then
             (let (good, h) = look E (\<lambda>t fs. verified_image E (rf_bin fs)) h in
              if good then (Ok dest, h)
              else if \<not> allow_unverified then (Err (BinaryVerify (path_str dest)), h)
              else (Ok source, h))
           else (Ok dest, h))"

definition prepare_binary ::
  "'v sup_env \<Rightarrow> path_parts \<Rightarrow> path_parts \<Rightarrow> bool \<Rightarrow> host \<Rightarrow> (path_parts, supervisor_error) result \<times> host" where
  "prepare_binary E source base force = prepare_binary_with_policy E source base force (sv_debug_assertions E)"

subsection \<open>Spawning\<close>

definition generate_token :: "'v sup_env \<Rightarrow> nat \<Rightarrow> string" where
  "generate_token E t = hex_lower (sv_random E t)"

definition read_log_tail :: "'v sup_env \<Rightarrow> host \<Rightarrow> string option \<times> host" where
  "read_log_tail E =
     look E (\<lambda>t fs.
       case rf_log fs of
         None \<Rightarrow> None
       | Some data \<Rightarrow>
           (let tail = trim (from_utf8_lossy (last_n LOG_TAIL_BYTES data)) in if tail = [] then None else Some tail))"

definition try_hello :: "'v sup_env \<Rightarrow> string \<Rightarrow> host \<Rightarrow> bool \<times> host" where
  "try_hello E token h = (let (r, h) = raw_connect E token h in (is_ok r, h))"

definition write_ready_pid_file ::
  "'v sup_env \<Rightarrow> u32 \<Rightarrow> path_parts \<Rightarrow> string \<Rightarrow> host \<Rightarrow> bool \<times> host" where
  "write_ready_pid_file E pid bin app_version h =
     (let (recorded, h) = read_pid_file E h;
          (started, h) = look E (\<lambda>t fs. get_process_started_at_ms E t pid) h;
          pid_file = \<lparr>dp_pid = pid,
                      dp_started_at_ms = (case started of Some ms \<Rightarrow> Some ms | None \<Rightarrow> Option.bind recorded dp_started_at_ms),
                      dp_bin_path = Some (path_str bin), dp_app_version = Some app_version\<rparr>
      in edit E (\<lambda>fs. fs\<lparr>rf_pid := Some (bytes_of (serialize_pid_file (sv_pid_text E) pid_file))\<rparr>) h)"

text \<open>The readiness loop; \<open>n\<close> is how many sleeps still fit before the deadline.\<close>

fun await_ready ::
  "'v sup_env \<Rightarrow> u32 \<Rightarrow> path_parts \<Rightarrow> string \<Rightarrow> string \<Rightarrow> nat \<Rightarrow> host \<Rightarrow> (unit, supervisor_error) result \<times> host" where
  "await_ready E pid bin app_version token n h =
     (case look E (\<lambda>t fs. sv_child E t) h of
        (Exited status, h) \<Rightarrow>
          (let (tail, h) = read_log_tail E h
           in (Err (SpawnFailed (''daemon exited during startup with '' @ status) tail), h))
      | (WaitFailed, h) \<Rightarrow> (Err Io, h)
      | (Running, h) \<Rightarrow>
          (case try_hello E token h of
             (True, h) \<Rightarrow> (Ok (), snd (write_ready_pid_file E pid bin app_version h))
           | (False, h) \<Rightarrow>
               (case n of
                  Suc m \<Rightarrow>
                    if sv_deadline E (hs_time h) then
                      (let h = h\<lparr>hs_killed_children := hs_killed_children h @ [pid]\<rparr>;
                           (tail, h) = read_log_tail E h in (Err (ReadinessTimeout tail), h))
                    else await_ready E pid bin app_version token m h
                | 0 \<Rightarrow>
                    (let h = h\<lparr>hs_killed_children := hs_killed_children h @ [pid]\<rparr>;
                         (tail, h) = read_log_tail E h in (Err (ReadinessTimeout tail), h)))))"

text \<open>The child's image is what the chosen path holds when the command is spawned.\<close>

definition image_at :: "path_parts \<Rightarrow> path_parts \<Rightarrow> run_files \<Rightarrow> bytes option" where
  "image_at base path fs = (if path = daemon_bin_path base then rf_bin fs else rf_source fs)"

definition spawn_daemon ::
  "'v sup_env \<Rightarrow> ensure_running_config \<Rightarrow> bool \<Rightarrow> host \<Rightarrow> (unit, supervisor_error) result \<times> host" where
  "spawn_daemon E cfg force_recopy h =
     (let token = generate_token E (hs_time h);
          (stored, h) = edit E (\<lambda>fs. fs\<lparr>rf_token := Some (bytes_of token)\<rparr>) h
      in if \<not> stored then (Err TokenGen, h)
         else
           case prepare_binary E (er_bin_source_path cfg) (er_base_dir cfg) force_recopy h of
             (Err e, h) \<Rightarrow> (Err e, h)
           | (Ok bin, h) \<Rightarrow>
               (let (opened, h) = edit E (\<lambda>fs. fs\<lparr>rf_log := Some (unwrap_or [] (rf_log fs))\<rparr>) h in
                if \<not> opened then (Err Io, h)
                else
                  let ((started, pid, img), h) =
                        look E (\<lambda>t fs. (sv_io E t, sv_child_pid E t, image_at (er_base_dir cfg) bin fs)) h
                  in if \<not> started then (Err Io, h)
                     else await_ready E pid bin (er_app_version cfg) token READINESS_TURNS
                            (h\<lparr>hs_spawns := hs_spawns h @ [\<lparr>sd_path = bin, sd_image = img, sd_token = token\<rparr>]\<rparr>)))"

subsection \<open>The adoption gate\<close>

definition make_result :: "ensure_outcome \<Rightarrow> path_parts \<Rightarrow> ensure_result" where
  "make_result outcome base =
     \<lparr>en_outcome = outcome, en_socket_path = socket_path_for base, en_token_path = daemon_token_path base\<rparr>"

definition spawn_as ::
  "'v sup_env \<Rightarrow> ensure_running_config \<Rightarrow> bool \<Rightarrow> ensure_outcome \<Rightarrow> host
   \<Rightarrow> (ensure_result, supervisor_error) result \<times> host" where
  "spawn_as E cfg force outcome h =
     (case spawn_daemon E cfg force h of
        (Err e, h) \<Rightarrow> (Err e, h)
      | (Ok _, h) \<Rightarrow> (Ok (make_result outcome (er_base_dir cfg)), h))"

definition ensure_running ::
  "'v sup_env \<Rightarrow> ensure_running_config \<Rightarrow> host \<Rightarrow> (ensure_result, supervisor_error) result \<times> host" where
  "ensure_running E cfg h =
     (let base = er_base_dir cfg; socket = socket_path_for base;
          (created, h) = edit E (\<lambda>fs. fs) h
      in if \<not> created then (Err Io, h)
         else
           case probe_health E h of
             (Healthy, h) \<Rightarrow>
               (case is_stale_for_current E socket (er_app_version cfg) h of
                  (True, h) \<Rightarrow>
                    (let h = request_shutdown E h; (_, h) = kill_stale E socket h
                     in spawn_as E cfg False Replaced h)
                | (False, h) \<Rightarrow> (Ok (make_result Adopted base), h))
           | (health, h) \<Rightarrow>
               (let (count, h) = alive_session_count E h in
                case count of
                  Some (Suc _) \<Rightarrow>
                    (Ok (make_result (if health = PtySpawnUnhealthy then AdoptedDegraded else Adopted) base), h)
                | _ \<Rightarrow>
                    (let (wedged, h) = (if count = None \<and> health \<noteq> HelloRejected then probe_socket E h else (False, h)) in
                     if wedged then (Ok (make_result AdoptedUnresponsive base), h)
                     else
                       let (killed, h) = kill_stale E socket h
                       in spawn_as E cfg False (if killed \<or> health = HelloRejected then Replaced else Spawned) h)))"

text \<open>\<open>Supervisor::ensure_running\<close>: the gate makes the callers run one after the other.\<close>

definition ensure_all ::
  "'v sup_env \<Rightarrow> ensure_running_config \<Rightarrow> nat \<Rightarrow> host \<Rightarrow> (ensure_result, supervisor_error) result list \<times> host" where
  "ensure_all E cfg callers h =
     fold (\<lambda>_ (rs, h). let (r, h) = ensure_running E cfg h in (rs @ [r], h)) [0..<callers] ([], h)"

definition restart_daemon ::
  "'v sup_env \<Rightarrow> ensure_running_config \<Rightarrow> host \<Rightarrow> (restart_outcome, supervisor_error) result \<times> host" where
  "restart_daemon E cfg h =
     (let base = er_base_dir cfg; (created, h) = edit E (\<lambda>fs. fs) h in
      if \<not> created then (Err Io, h)
      else
        let (prior, h) = list_session_ids E h;
            h = request_shutdown E h;
            (_, h) = kill_stale E (socket_path_for base) h
        in case spawn_as E cfg True Replaced h of
             (Err e, h) \<Rightarrow> (Err e, h)
           | (Ok r, h) \<Rightarrow> (Ok \<lparr>ro_result = r, ro_prior_session_ids = prior\<rparr>, h))"


subsection \<open>What an operation leaves alone\<close>

text \<open>\<open>probes h M h'\<close>: between \<open>h\<close> and \<open>h'\<close> at most requests with a method in \<open>M\<close> were sent.\<close>

definition probes :: "host \<Rightarrow> string set \<Rightarrow> host \<Rightarrow> bool" where
  "probes h M h' \<longleftrightarrow> (\<exists>ms. hs_requests h' = hs_requests h @ ms \<and> set ms \<subseteq> M)
     \<and> hs_signals h' = hs_signals h \<and> hs_spawns h' = hs_spawns h"

named_theorems host_simps

lemma tick_simps [host_simps]:
  "hs_requests (tick E h) = hs_requests h" "hs_signals (tick E h) = hs_signals h"
  "hs_spawns (tick E h) = hs_spawns h" "hs_time (tick E h) = Suc (hs_time h)"
  "hs_files (tick E h) = sv_others E (hs_time h) (hs_files h)"
  by (simp_all add: tick_def)

lemma look_simps [host_simps]:
  "fst (look E f h) = f (hs_time h) (hs_files h)" "snd (look E f h) = tick E h"
  by (simp_all add: look_def)

lemma edit_simps [host_simps]:
  "hs_requests (snd (edit E f h)) = hs_requests h" "hs_signals (snd (edit E f h)) = hs_signals h"
  "hs_spawns (snd (edit E f h)) = hs_spawns h" "fst (edit E f h) = sv_io E (hs_time h)"
  "hs_time (snd (edit E f h)) = Suc (hs_time h)"
  by (simp_all add: edit_def Let_def host_simps)

lemma token_simps [host_simps]: "snd (read_token E h) = tick E h"
  by (simp add: read_token_def host_simps)

lemma connect_simps [host_simps]: "snd (raw_connect E token h) = tick E h"
  by (simp add: raw_connect_def host_simps)

lemma pid_file_simps [host_simps]: "snd (read_pid_file E h) = tick E h"
  by (simp add: read_pid_file_def host_simps)

definition sent :: "'v sup_env \<Rightarrow> string \<Rightarrow> 'v \<Rightarrow> string list" where
  "sent E m params =
     (if is_ok (encode_ndjson_line (sv_message_text E) (Request \<lparr>rq_id = 1, rq_method = m, rq_params = params\<rparr>))
      then [m] else [])"

lemma request_simps [host_simps]:
  "hs_requests (snd (raw_request E m params h)) = hs_requests h @ sent E m params"
  "hs_signals (snd (raw_request E m params h)) = hs_signals h"
  "hs_spawns (snd (raw_request E m params h)) = hs_spawns h"
  by (simp_all add: raw_request_def sent_def host_simps split: result.split)

lemma probesI:
  assumes "hs_requests h' = hs_requests h \<or> hs_requests h' = hs_requests h @ sent E m params"
    and "hs_signals h' = hs_signals h" and "hs_spawns h' = hs_spawns h"
  shows "probes h {m} h'"
  using assms by (auto simp: probes_def sent_def split: if_splits)

lemma probes_trans [trans]: "probes a M b \<Longrightarrow> probes b N c \<Longrightarrow> probes a (M \<union> N) c"
  by (fastforce simp: probes_def)

lemma probes_quiet:
  "hs_requests h' = hs_requests h \<Longrightarrow> hs_signals h' = hs_signals h \<Longrightarrow> hs_spawns h' = hs_spawns h
   \<Longrightarrow> probes h {} h'"
  by (simp add: probes_def)

lemma probe_health_probes: "probes h {''checkPtySpawnHealth''} (snd (probe_health E h))"
  by (rule probesI [where E = E and params = "sv_null E"])
    (auto simp: probe_health_def case_prod_unfold host_simps
      split: option.splits result.splits probe_error.splits)

lemma session_list_probes: "probes h {''listSessions''} (snd (session_list E h))"
  by (rule probesI [where E = E and params = "sv_null E"])
    (auto simp: session_list_def case_prod_unfold host_simps split: option.splits result.splits)

lemma count_probes: "probes h {''listSessions''} (snd (alive_session_count E h))"
  using session_list_probes [of h E] by (simp add: alive_session_count_def case_prod_unfold split: option.split)

lemma ids_probes: "probes h {''listSessions''} (snd (list_session_ids E h))"
  using session_list_probes [of h E] by (simp add: list_session_ids_def case_prod_unfold split: option.split)

lemma shutdown_probes: "probes h {''shutdown''} (request_shutdown E h)"
  by (rule probesI [where E = E and params = "sv_kill_sessions E"])
    (auto simp: request_shutdown_def case_prod_unfold host_simps split: option.splits result.splits)

lemma socket_probes: "probes h {} (snd (probe_socket E h))"
  by (rule probes_quiet) (simp_all add: probe_socket_def case_prod_unfold Let_def host_simps)

lemma identity_simps [host_simps]:
  "hs_requests (snd (is_daemon_process E socket pid started h)) = hs_requests h"
  "hs_signals (snd (is_daemon_process E socket pid started h)) = hs_signals h"
  "hs_spawns (snd (is_daemon_process E socket pid started h)) = hs_spawns h"
  by (simp_all add: is_daemon_process_def case_prod_unfold Let_def host_simps split: option.split)

lemma stale_probes: "probes h {} (snd (is_stale_for_current E socket v h))"
  by (rule probes_quiet)
    (simp_all add: is_stale_for_current_def case_prod_unfold host_simps split: option.split bool.split)

subsection \<open>Signals\<close>

text \<open>What the three observations of a successful identity check saw, from time \<open>t\<close> on.\<close>

definition identified :: "'v sup_env \<Rightarrow> path_parts \<Rightarrow> u32 \<Rightarrow> u64 option \<Rightarrow> nat \<Rightarrow> bool" where
  "identified E socket pid started t \<longleftrightarrow>
     pt_exists (sv_processes E t) pid
     \<and> (\<exists>c. get_cmdline E (Suc t) pid = Some c \<and> sublist (path_str socket) c)
     \<and> start_time_matches E (Suc (Suc t)) pid started"

lemma identity_True:
  assumes "fst (is_daemon_process E socket pid started h)"
  shows "identified E socket pid started (hs_time h)"
    and "hs_time (snd (is_daemon_process E socket pid started h)) = hs_time h + 3"
  using assms
  by (auto simp: is_daemon_process_def identified_def case_prod_unfold Let_def host_simps
      split: option.splits if_splits)

lemma signal_simps [host_simps]:
  "hs_requests (send_signal E pid s h) = hs_requests h"
  "hs_signals (send_signal E pid s h) = hs_signals h @ [(hs_time h, pid, s)]"
  "hs_spawns (send_signal E pid s h) = hs_spawns h"
  by (simp_all add: send_signal_def host_simps)

lemma wait_simps [host_simps]:
  "hs_requests (snd (wait_exit E pid n h)) = hs_requests h"
  "hs_signals (snd (wait_exit E pid n h)) = hs_signals h"
  "hs_spawns (snd (wait_exit E pid n h)) = hs_spawns h"
  by (induction n arbitrary: h) (simp_all add: case_prod_unfold Let_def host_simps)


lemma kill_recorded_unfold:
  "kill_recorded E socket p h =
     (let i = is_daemon_process E socket (dp_pid p) (dp_started_at_ms p) h in
      if \<not> fst i then (False, snd i)
      else
        let w = wait_exit E (dp_pid p) KILL_TURNS (send_signal E (dp_pid p) SIGTERM (snd i)) in
        if fst w then (True, snd w)
        else
          let j = is_daemon_process E socket (dp_pid p) (dp_started_at_ms p) (snd w)
          in (True, if fst j then send_signal E (dp_pid p) SIGKILL (snd j) else snd j))"
  by (simp add: kill_recorded_def case_prod_unfold Let_def split: bool.split)

lemma kill_recorded_quiet [host_simps]:
  "hs_requests (snd (kill_recorded E socket p h)) = hs_requests h"
  "hs_spawns (snd (kill_recorded E socket p h)) = hs_spawns h"
  by (simp_all add: kill_recorded_unfold Let_def host_simps)

lemma kill_recorded_signals:
  "\<exists>new. hs_signals (snd (kill_recorded E socket p h)) = hs_signals h @ new
     \<and> map (\<lambda>(t, q, s). s) new \<in> {[], [SIGTERM], [SIGTERM, SIGKILL]}
     \<and> list_all (\<lambda>(t, q, s). q = dp_pid p \<and> 3 \<le> t \<and> identified E socket q (dp_started_at_ms p) (t - 3)) new"
proof -
  let ?i = "is_daemon_process E socket (dp_pid p) (dp_started_at_ms p) h"
  let ?w = "wait_exit E (dp_pid p) KILL_TURNS (send_signal E (dp_pid p) SIGTERM (snd ?i))"
  let ?j = "is_daemon_process E socket (dp_pid p) (dp_started_at_ms p) (snd ?w)"
  let ?first = "(hs_time (snd ?i), dp_pid p, SIGTERM)" and ?kill = "(hs_time (snd ?j), dp_pid p, SIGKILL)"
  consider "\<not> fst ?i" | "fst ?i" "fst ?w \<or> \<not> fst ?j" | "fst ?i" "\<not> fst ?w" "fst ?j" by blast
  then show ?thesis
  proof cases
    case 1
    then show ?thesis by (intro exI [of _ "[]"]) (simp add: kill_recorded_unfold host_simps)
  next
    case 2
    then show ?thesis
      using identity_True [OF 2(1)]
      by (intro exI [of _ "[?first]"]) (auto simp: kill_recorded_unfold Let_def host_simps)
  next
    case 3
    then show ?thesis
      using identity_True [OF 3(1)] identity_True [OF 3(3)]
      by (intro exI [of _ "[?first, ?kill]"]) (simp add: kill_recorded_unfold Let_def host_simps)
  qed
qed

lemma kill_stale_unfold:
  "kill_stale E socket h =
     (let k = (case fst (read_pid_file E h) of
                 None \<Rightarrow> (False, tick E h) | Some p \<Rightarrow> kill_recorded E socket p (tick E h));
          e = edit E (\<lambda>fs. fs\<lparr>rf_pid := None\<rparr>) (snd k);
          live = sv_connects E (hs_time (snd e));
          h2 = tick E (snd e);
          present = rf_socket (hs_files h2)
      in (fst k, if present \<and> (fst k \<or> \<not> live)
                 then snd (edit E (\<lambda>fs. fs\<lparr>rf_socket := False\<rparr>) (tick E h2)) else tick E h2))"
  by (auto simp: kill_stale_def case_prod_unfold Let_def host_simps split: option.split)

lemma kill_stale_quiet [host_simps]:
  "hs_requests (snd (kill_stale E socket h)) = hs_requests h"
  "hs_spawns (snd (kill_stale E socket h)) = hs_spawns h"
  by (simp_all add: kill_stale_unfold Let_def host_simps split: option.split)

text \<open>A signal sent to the process of the pid file that is there at \<open>k\<close>, right after an identity check.\<close>

definition verified_signal :: "'v sup_env \<Rightarrow> path_parts \<Rightarrow> host \<Rightarrow> nat \<times> u32 \<times> signal \<Rightarrow> bool" where
  "verified_signal E socket k = (\<lambda>(t, pid, s).
     case fst (read_pid_file E k) of
       None \<Rightarrow> False
     | Some p \<Rightarrow> pid = dp_pid p \<and> 3 \<le> t \<and> identified E socket pid (dp_started_at_ms p) (t - 3))"

lemma kill_stale_signals:
  "\<exists>new. hs_signals (snd (kill_stale E socket h)) = hs_signals h @ new
     \<and> map (\<lambda>(t, q, s). s) new \<in> {[], [SIGTERM], [SIGTERM, SIGKILL]}
     \<and> list_all (verified_signal E socket h) new"
proof (cases "fst (read_pid_file E h)")
  case None
  then show ?thesis by (intro exI [of _ "[]"]) (simp add: kill_stale_unfold Let_def host_simps)
next
  case (Some p)
  then show ?thesis
    using kill_recorded_signals [of E socket p "tick E h"]
    by (simp add: kill_stale_unfold Let_def host_simps verified_signal_def)
qed

subsection \<open>Spawns\<close>

lemma log_tail_simps [host_simps]: "snd (read_log_tail E h) = tick E h"
  by (simp add: read_log_tail_def host_simps)

lemma hello_simps [host_simps]: "snd (try_hello E token h) = tick E h"
  by (simp add: try_hello_def case_prod_unfold host_simps)

declare await_ready.simps [simp del]

text \<open>One turn of the loop, with its continuation \<open>k\<close>.\<close>

definition give_up :: "'v sup_env \<Rightarrow> u32 \<Rightarrow> host \<Rightarrow> (unit, supervisor_error) result \<times> host" where
  "give_up E pid h =
     (let (tail, h) = read_log_tail E (h\<lparr>hs_killed_children := hs_killed_children h @ [pid]\<rparr>)
      in (Err (ReadinessTimeout tail), h))"

definition ready_turn ::
  "'v sup_env \<Rightarrow> u32 \<Rightarrow> path_parts \<Rightarrow> string \<Rightarrow> string \<Rightarrow> host
   \<Rightarrow> (host \<Rightarrow> (unit, supervisor_error) result \<times> host) \<Rightarrow> (unit, supervisor_error) result \<times> host" where
  "ready_turn E pid bin v token h k =
     (case sv_child E (hs_time h) of
        Exited status \<Rightarrow>
          (Err (SpawnFailed (''daemon exited during startup with '' @ status) (fst (read_log_tail E (tick E h)))),
           tick E (tick E h))
      | WaitFailed \<Rightarrow> (Err Io, tick E h)
      | Running \<Rightarrow>
          if fst (try_hello E token (tick E h))
          then (Ok (), snd (write_ready_pid_file E pid bin v (tick E (tick E h))))
          else k (tick E (tick E h)))"

lemma await_turns:
  "await_ready E pid bin v token 0 h = ready_turn E pid bin v token h (give_up E pid)"
  "await_ready E pid bin v token (Suc n) h =
     ready_turn E pid bin v token h
       (\<lambda>h. if sv_deadline E (hs_time h) then give_up E pid h else await_ready E pid bin v token n h)"
  by (subst await_ready.simps;
      simp add: ready_turn_def give_up_def case_prod_unfold Let_def host_simps split: child_state.split bool.split)+

lemma give_up_simps [host_simps]:
  "hs_requests (snd (give_up E pid h)) = hs_requests h" "hs_signals (snd (give_up E pid h)) = hs_signals h"
  "hs_spawns (snd (give_up E pid h)) = hs_spawns h"
  by (simp_all add: give_up_def case_prod_unfold host_simps)

lemma ready_file_simps [host_simps]:
  "hs_requests (snd (write_ready_pid_file E pid bin v h)) = hs_requests h"
  "hs_signals (snd (write_ready_pid_file E pid bin v h)) = hs_signals h"
  "hs_spawns (snd (write_ready_pid_file E pid bin v h)) = hs_spawns h"
  by (simp_all add: write_ready_pid_file_def case_prod_unfold Let_def host_simps)

lemma await_simps [host_simps]:
  "hs_requests (snd (await_ready E pid bin v token n h)) = hs_requests h"
  "hs_signals (snd (await_ready E pid bin v token n h)) = hs_signals h"
  "hs_spawns (snd (await_ready E pid bin v token n h)) = hs_spawns h"
  by (induction n arbitrary: h)
    (simp_all add: await_turns ready_turn_def host_simps split: child_state.split)

lemma prepare_simps [host_simps]:
  "hs_requests (snd (prepare_binary E source base force h)) = hs_requests h"
  "hs_signals (snd (prepare_binary E source base force h)) = hs_signals h"
  "hs_spawns (snd (prepare_binary E source base force h)) = hs_spawns h"
  by (simp_all add: prepare_binary_def prepare_binary_with_policy_def case_prod_unfold Let_def host_simps)

lemma spawn_simps [host_simps]:
  "hs_requests (snd (spawn_as E cfg force outcome h)) = hs_requests h"
  "hs_signals (snd (spawn_as E cfg force outcome h)) = hs_signals h"
  by (simp_all add: spawn_as_def spawn_daemon_def case_prod_unfold Let_def host_simps
      split: result.split)


subsection \<open>The gate\<close>

lemma ensure_running_unfold:
  "ensure_running E cfg h =
     (let base = er_base_dir cfg; socket = socket_path_for base;
          h0 = snd (edit E (\<lambda>fs. fs) h); p = probe_health E h0;
          st = is_stale_for_current E socket (er_app_version cfg) (snd p);
          c = alive_session_count E (snd p);
          w = (if fst c = None \<and> fst p \<noteq> HelloRejected then probe_socket E (snd c) else (False, snd c));
          k = kill_stale E socket (snd w)
      in if \<not> sv_io E (hs_time h) then (Err Io, h0)
         else if fst p = Healthy then
           if fst st then spawn_as E cfg False Replaced (snd (kill_stale E socket (request_shutdown E (snd st))))
           else (Ok (make_result Adopted base), snd st)
         else if \<exists>n. fst c = Some (Suc n) then
           (Ok (make_result (if fst p = PtySpawnUnhealthy then AdoptedDegraded else Adopted) base), snd c)
         else if fst w then (Ok (make_result AdoptedUnresponsive base), snd w)
         else spawn_as E cfg False (if fst k \<or> fst p = HelloRejected then Replaced else Spawned) (snd k))"
  by (auto simp: ensure_running_def case_prod_unfold Let_def host_simps
      split: daemon_health.split option.split nat.split bool.split)

lemma restart_daemon_unfold:
  "snd (restart_daemon E cfg h) =
     (let h0 = snd (edit E (\<lambda>fs. fs) h);
          k = request_shutdown E (snd (list_session_ids E h0))
      in if \<not> sv_io E (hs_time h) then h0
         else snd (spawn_as E cfg True Replaced (snd (kill_stale E (socket_path_for (er_base_dir cfg)) k))))"
  by (simp add: restart_daemon_def case_prod_unfold Let_def host_simps split: result.split)

text \<open>What entitles \<open>ensure_running\<close> to replace the daemon it finds.\<close>

definition may_replace :: "'v sup_env \<Rightarrow> ensure_running_config \<Rightarrow> host \<Rightarrow> bool" where
  "may_replace E cfg h \<longleftrightarrow>
     (let p = probe_health E (snd (edit E (\<lambda>fs. fs) h)); c = alive_session_count E (snd p)
      in if fst p = Healthy
         then fst (is_stale_for_current E (socket_path_for (er_base_dir cfg)) (er_app_version cfg) (snd p))
         else fst c = Some 0 \<or> fst c = None \<and> (fst p = HelloRejected \<or> \<not> fst (probe_socket E (snd c))))"

definition disturbed :: "host \<Rightarrow> host \<Rightarrow> bool" where
  "disturbed h h' \<longleftrightarrow> \<not> probes h {''checkPtySpawnHealth'', ''listSessions''} h'"

lemma probes_mono: "probes h M h' \<Longrightarrow> M \<subseteq> N \<Longrightarrow> probes h N h'"
  by (fastforce simp: probes_def)

lemma edit_probes: "probes h {} (snd (edit E f h))"
  by (rule probes_quiet) (simp_all add: host_simps)

lemma gate_probes:
  fixes E :: "'v sup_env" and h :: host and f v socket
  defines "p \<equiv> snd (probe_health E (snd (edit E f h)))"
  defines "c \<equiv> snd (alive_session_count E p)"
  shows "probes h {''checkPtySpawnHealth''} p"
    and "probes h {''checkPtySpawnHealth''} (snd (is_stale_for_current E socket v p))"
    and "probes h {''checkPtySpawnHealth'', ''listSessions''} c"
    and "probes h {''checkPtySpawnHealth'', ''listSessions''} (snd (probe_socket E c))"
proof -
  show p: "probes h {''checkPtySpawnHealth''} p"
    using probes_trans [OF edit_probes probe_health_probes] by (simp add: p_def)
  show "probes h {''checkPtySpawnHealth''} (snd (is_stale_for_current E socket v p))"
    using probes_trans [OF p stale_probes] by simp
  show c: "probes h {''checkPtySpawnHealth'', ''listSessions''} c"
    using probes_trans [OF p count_probes] by (simp add: c_def insert_commute)
  show "probes h {''checkPtySpawnHealth'', ''listSessions''} (snd (probe_socket E c))"
    using probes_trans [OF c socket_probes] by simp
qed

lemma ensure_running_cases:
  assumes "h' = snd (ensure_running E cfg h)"
  obtains "\<not> disturbed h h'"
    "sv_io E (hs_time h) \<Longrightarrow> \<exists>r. fst (ensure_running E cfg h) = Ok r
       \<and> en_outcome r \<in> {Adopted, AdoptedDegraded, AdoptedUnresponsive}"
  | k outcome where "may_replace E cfg h" "hs_signals k = hs_signals h" "hs_spawns k = hs_spawns h"
    "ensure_running E cfg h =
       spawn_as E cfg False outcome (snd (kill_stale E (socket_path_for (er_base_dir cfg)) k))"
    "outcome \<in> {Replaced, Spawned}"
proof -
  let ?socket = "socket_path_for (er_base_dir cfg)"
  let ?h0 = "snd (edit E (\<lambda>fs. fs) h)"
  let ?p = "probe_health E ?h0"
  let ?st = "is_stale_for_current E ?socket (er_app_version cfg) (snd ?p)"
  let ?c = "alive_session_count E (snd ?p)"
  let ?w = "if fst ?c = None \<and> fst ?p \<noteq> HelloRejected then probe_socket E (snd ?c) else (False, snd ?c)"
  note gp = gate_probes [where h = h and E = E and f = "\<lambda>fs. fs"]
  have pw: "probes h {''checkPtySpawnHealth'', ''listSessions''} (snd ?w)" using gp(3,4) by simp
  have e0: "\<not> disturbed h ?h0" using probes_mono [OF edit_probes] by (auto simp: disturbed_def)
  consider "\<not> sv_io E (hs_time h)"
    | "sv_io E (hs_time h)" "fst ?p = Healthy" "\<not> fst ?st"
    | "sv_io E (hs_time h)" "fst ?p = Healthy" "fst ?st"
    | n where "sv_io E (hs_time h)" "fst ?p \<noteq> Healthy" "fst ?c = Some (Suc n)"
    | "sv_io E (hs_time h)" "fst ?p \<noteq> Healthy" "\<nexists>n. fst ?c = Some (Suc n)" "fst ?w"
    | "sv_io E (hs_time h)" "fst ?p \<noteq> Healthy" "\<nexists>n. fst ?c = Some (Suc n)" "\<not> fst ?w"
    by blast
  then show thesis
  proof cases
    case 1
    with e0 show ?thesis by (intro that(1)) (simp_all add: ensure_running_unfold Let_def assms)
  next
    case 2
    have "\<not> disturbed h (snd ?st)" using probes_mono [OF gp(2)] by (auto simp: disturbed_def)
    with 2 show ?thesis
      by (intro that(1)) (auto simp: ensure_running_unfold Let_def assms make_result_def)
  next
    case 3
    have "probes h {''checkPtySpawnHealth'', ''shutdown''} (request_shutdown E (snd ?st))"
      using probes_trans [OF gp(2) shutdown_probes] by (simp add: insert_commute)
    with 3 show ?thesis
      by (intro that(2) [of "request_shutdown E (snd ?st)" Replaced])
        (simp_all add: ensure_running_unfold Let_def may_replace_def probes_def)
  next
    case 4
    then show ?thesis
      using gp(3)
      by (intro that(1)) (auto simp: ensure_running_unfold Let_def assms make_result_def disturbed_def split: if_splits)
  next
    case 5
    then show ?thesis
      using pw by (intro that(1)) (auto simp: ensure_running_unfold Let_def assms make_result_def disturbed_def)
  next
    case 6
    have "fst ?c = Some 0 \<or> fst ?c = None"
      using 6(3) by (cases "fst ?c"; metis not0_implies_Suc option.exhaust)
    then have m: "may_replace E cfg h"
      using 6 by (auto simp: may_replace_def Let_def split: if_splits)
    show ?thesis
    proof (rule that(2) [OF m, of "snd ?w"
          "if fst (kill_stale E ?socket (snd ?w)) \<or> fst ?p = HelloRejected then Replaced else Spawned"])
      show "hs_signals (snd ?w) = hs_signals h" "hs_spawns (snd ?w) = hs_spawns h"
        using pw by (simp_all only: probes_def)
      show "ensure_running E cfg h = spawn_as E cfg False
          (if fst (kill_stale E ?socket (snd ?w)) \<or> fst ?p = HelloRejected then Replaced else Spawned)
          (snd (kill_stale E ?socket (snd ?w)))"
        using 6 by (simp only: ensure_running_unfold Let_def if_True if_False not_False_eq_True) simp
    qed simp
  qed
qed


subsection \<open>The binary that runs\<close>

lemma prepare_release:
  assumes "sv_platform E = MacOS" and "\<not> sv_debug_assertions E"
    and keep: "\<And>t fs. rf_bin (sv_others E t fs) = rf_bin fs"
    and "fst (prepare_binary E source base force h) = Ok bin"
  shows "bin = daemon_bin_path base"
    and "verified_image E (rf_bin (hs_files (snd (prepare_binary E source base force h))))"
  using assms
  by (auto simp: prepare_binary_def prepare_binary_with_policy_def case_prod_unfold Let_def host_simps
      split: if_splits)

definition runs_verified :: "'v sup_env \<Rightarrow> path_parts \<Rightarrow> host \<Rightarrow> host \<Rightarrow> bool" where
  "runs_verified E base h h' \<longleftrightarrow>
     (\<exists>new. hs_spawns h' = hs_spawns h @ new
        \<and> list_all (\<lambda>s. sd_path s = daemon_bin_path base \<and> verified_image E (sd_image s)) new)"

lemma runs_verified_same: "hs_spawns h' = hs_spawns h \<Longrightarrow> runs_verified E base h h'"
  by (simp add: runs_verified_def)

lemma edit_keeps_bin:
  "(\<And>t fs. rf_bin (sv_others E t fs) = rf_bin fs) \<Longrightarrow> (\<And>fs. rf_bin (f fs) = rf_bin fs) \<Longrightarrow>
   rf_bin (hs_files (snd (edit E f h))) = rf_bin (hs_files h)"
  by (simp add: edit_def Let_def host_simps)

lemma spawn_runs_verified:
  assumes "sv_platform E = MacOS" and "\<not> sv_debug_assertions E"
    and keep: "\<And>t fs. rf_bin (sv_others E t fs) = rf_bin fs"
  shows "runs_verified E (er_base_dir cfg) h (snd (spawn_as E cfg force outcome h))"
proof -
  let ?p = "prepare_binary E (er_bin_source_path cfg) (er_base_dir cfg) force
      (snd (edit E (\<lambda>fs. fs\<lparr>rf_token := Some (bytes_of (generate_token E (hs_time h)))\<rparr>) h))"
  have "verified_image E (rf_bin (hs_files (snd (edit E (\<lambda>fs. fs\<lparr>rf_log := Some (unwrap_or [] (rf_log fs))\<rparr>) (snd ?p)))))"
    if "fst ?p = Ok bin" for bin
    using prepare_release(2) [OF assms that] by (simp add: edit_keeps_bin [OF keep])
  then show ?thesis
    using prepare_release(1) [OF assms]
    by (auto simp: spawn_as_def spawn_daemon_def case_prod_unfold Let_def host_simps runs_verified_def image_at_def
        split: result.splits)
qed

subsection \<open>The calendar\<close>

definition leap :: "int \<Rightarrow> bool" where
  "leap y \<longleftrightarrow> 4 dvd y \<and> (\<not> 100 dvd y \<or> 400 dvd y)"

definition month_length :: "int \<Rightarrow> int \<Rightarrow> int" where
  "month_length y m = (if m = 2 then (if leap y then 29 else 28) else if m \<in> {4, 6, 9, 11} then 30 else 31)"

fun next_day :: "int \<times> int \<times> int \<Rightarrow> int \<times> int \<times> int" where
  "next_day (y, m, d) =
     (if d < month_length y m then (y, m, d + 1) else if m < 12 then (y, m + 1, 1) else (y + 1, 1, 1))"

definition valid_date :: "int \<times> int \<times> int \<Rightarrow> bool" where
  "valid_date = (\<lambda>(y, m, d). 1 \<le> m \<and> m \<le> 12 \<and> 1 \<le> d \<and> d \<le> month_length y m)"

lemma sdiv_nonneg: "0 \<le> a \<Longrightarrow> 0 < b \<Longrightarrow> (a :: int) sdiv b = a div b"
  by (cases "a = 0") (simp_all add: signed_divide_int_def)

lemma era_floor: "(if 0 \<le> y then y else y - 399) sdiv 400 = (y :: int) div 400"
proof (cases "0 \<le> y")
  case False
  have "(y - 399) sdiv 400 = - ((399 - y) div 400)"
    using False by (simp add: signed_divide_int_def)
  with False show ?thesis by simp
qed (simp add: sdiv_nonneg)

text \<open>The days before year \<open>Y\<close> of a calendar whose years start in March, so that the leap day is the last.\<close>

definition year_days :: "int \<Rightarrow> int" where
  "year_days Y = 365 * Y + Y div 4 - Y div 100 + Y div 400"

lemma era_days:
  "Y div 400 * 146097 + ((Y - Y div 400 * 400) * 365 + (Y - Y div 400 * 400) sdiv 4
     - (Y - Y div 400 * 400) sdiv 100) = year_days Y"
proof -
  define e n where "e = Y div 400" and "n = Y mod 400"
  then have Y: "Y = n + 4 * (100 * e)" and e: "Y div 400 = e" and n: "0 \<le> n" by simp_all
  have "Y div 4 = 100 * e + n div 4" unfolding Y by simp
  moreover have "Y div 100 = 4 * e + n div 100" unfolding Y using div_mult_self2 [of 100 n "4 * e"] by simp
  moreover have "Y - Y div 400 * 400 = n" unfolding e using Y by simp
  ultimately have "year_days Y = 365 * Y + (100 * e + n div 4) - (4 * e + n div 100) + e"
    unfolding year_days_def e by simp
  moreover have "n sdiv 4 = n div 4" "n sdiv 100 = n div 100" using n by (simp_all add: sdiv_nonneg)
  ultimately show ?thesis
    unfolding \<open>Y - Y div 400 * 400 = n\<close> e using Y by simp
qed

lemma days_closed_form:
  "2 < m \<Longrightarrow> days_from_civil y m d = year_days y + (153 * (m - 3) + 2) div 5 + d - 1 - 719468"
  "1 \<le> m \<Longrightarrow> m \<le> 2 \<Longrightarrow> days_from_civil y m d = year_days (y - 1) + (153 * (m + 9) + 2) div 5 + d - 1 - 719468"
proof -
  have "(153 * (m - 3) + 2) sdiv 5 = (153 * (m - 3) + 2) div 5" if "2 < m"
    using that by (intro sdiv_nonneg) simp_all
  then show "days_from_civil y m d = year_days y + (153 * (m - 3) + 2) div 5 + d - 1 - 719468" if "2 < m"
    unfolding days_from_civil_def Let_def era_floor using that era_days [of y] by simp
  have "(153 * (m + 9) + 2) sdiv 5 = (153 * (m + 9) + 2) div 5" if "1 \<le> m"
    using that by (intro sdiv_nonneg) simp_all
  then show "days_from_civil y m d = year_days (y - 1) + (153 * (m + 9) + 2) div 5 + d - 1 - 719468"
    if "1 \<le> m" "m \<le> 2"
    unfolding days_from_civil_def Let_def era_floor using that era_days [of "y - 1"] by simp
qed

lemma div_step:
  assumes "0 < (b :: int)"
  shows "y div b = (y - 1) div b + (if b dvd y then 1 else 0)"
proof (cases "b dvd y")
  case True
  then obtain k where k: "y = b * k" by blast
  have "(y - 1) div b = k - 1"
    by (rule int_div_pos_eq [where r = "b - 1"]) (use assms k in \<open>simp_all add: algebra_simps\<close>)
  with True k assms show ?thesis by simp
next
  case False
  then have r: "0 < y mod b" using assms by (simp add: dvd_eq_mod_eq_0 order_less_le)
  have "(y - 1) div b = y div b"
    by (rule int_div_pos_eq [where r = "y mod b - 1"])
      (use r pos_mod_bound [OF assms, of y] in \<open>simp_all add: algebra_simps\<close>)
  with False show ?thesis by simp
qed

lemma leap_count:
  "(if 4 dvd y then 1 else 0) - (if 100 dvd y then 1 else 0) + (if 400 dvd y then 1 else 0)
     = (if leap y then 1 else (0 :: int))"
proof -
  have "400 dvd y \<Longrightarrow> 100 dvd y" by (erule dvd_trans [rotated]) simp
  moreover have "100 dvd y \<Longrightarrow> 4 dvd y" by (erule dvd_trans [rotated]) simp
  moreover have "(c \<Longrightarrow> b) \<Longrightarrow> (b \<Longrightarrow> a) \<Longrightarrow>
      (if a then 1 else 0) - (if b then 1 else 0) + (if c then 1 else 0) = (if a \<and> (\<not> b \<or> c) then 1 else (0 :: int))"
    for a b c by auto
  ultimately show ?thesis unfolding leap_def by blast
qed

lemma year_step: "year_days y = year_days (y - 1) + 365 + (if leap y then 1 else 0)"
proof -
  have sums: "365 * y + a4 - a100 + a400 = 365 * (y - 1) + b4 - b100 + b400 + 365 + l"
    if "a4 = b4 + i4" "a100 = b100 + i100" "a400 = b400 + i400" "i4 - i100 + i400 = l"
    for a4 a100 a400 b4 b100 b400 i4 i100 i400 l :: int
    using that by simp
  show ?thesis
    unfolding year_days_def by (rule sums [OF div_step div_step div_step leap_count]) simp_all
qed

lemma months: "1 \<le> (m :: int) \<Longrightarrow> m \<le> 12 \<Longrightarrow> m \<in> {1, 2, 3, 4, 5, 6, 7, 8, 9, 10, 11, 12}"
  by simp presburger

lemma days_next_day:
  assumes "valid_date (y, m, d)" and "next_day (y, m, d) = (y', m', d')"
  shows "valid_date (y', m', d') \<and> days_from_civil y' m' d' = days_from_civil y m d + 1"
proof -
  have r: "1 \<le> m" "m \<le> 12" "1 \<le> d" "d \<le> month_length y m" using assms(1) by (simp_all add: valid_date_def)
  have v: "valid_date (y', m', d')"
    using r assms(2) by (auto simp: valid_date_def month_length_def split: if_splits)
  have "days_from_civil y' m' d' = days_from_civil y m d + 1"
  proof (cases "d < month_length y m")
    case True
    then show ?thesis using r assms(2) by (cases "2 < m") (auto simp: days_closed_form)
  next
    case False
    then have d: "d = month_length y m" using r(4) by simp
    from months [OF r(1,2)] consider "m = 2" | "m = 12" | "m \<in> {1, 3, 4, 5, 6, 7, 8, 9, 10, 11}" by auto
    then show ?thesis
    proof cases
      case 1
      have "(y', m', d') = (y, 3, 1)" using 1 d assms(2) by (simp split: if_splits)
      moreover have "d = (if leap y then 29 else 28)" using d 1 by (simp add: month_length_def)
      ultimately show ?thesis
        using year_step [of y] 1 by (simp add: days_closed_form split: if_splits)
    next
      case 2
      then show ?thesis
        using d assms(2) by (auto simp: days_closed_form month_length_def)
    next
      case 3
      then show ?thesis
        using d assms(2) by (auto simp: days_closed_form month_length_def)
    qed
  qed
  with v show ?thesis by simp
qed


subsection \<open>Properties\<close>


text \<open>
  C10. A daemon that is not healthy is left alone, whatever else is wrong with it, when it lists a live
  session, or when it cannot be asked but neither refused the hello nor stopped accepting connections;
  a healthy one when it is not stale. Left alone means: no signal, no spawn, no request but the two
  probes, and the outcome is one of the three adoptions.
\<close>

theorem undecided_daemons_are_adopted:
  assumes "\<not> may_replace E cfg h"
  shows "probes h {''checkPtySpawnHealth'', ''listSessions''} (snd (ensure_running E cfg h))
    \<and> (sv_io E (hs_time h) \<longrightarrow>
         (\<exists>r. fst (ensure_running E cfg h) = Ok r
            \<and> en_outcome r \<in> {Adopted, AdoptedDegraded, AdoptedUnresponsive}))"
  by (rule ensure_running_cases [OF refl, where E = E and cfg = cfg and h = h]) (use assms in \<open>auto simp: disturbed_def\<close>)

text \<open>
  A healthy daemon of another version is told to shut down with its sessions, without being asked
  whether it has live ones: the two requests are the health probe and the shutdown. The module's
  own invariant says a daemon is never killed unless it is stale and free of sessions.
\<close>

theorem upgrade_kills_live_sessions:
  assumes "sv_io E (hs_time h)" and "probe_health E (snd (edit E (\<lambda>fs. fs) h)) = (Healthy, h1)"
    and "is_stale_for_current E (socket_path_for (er_base_dir cfg)) (er_app_version cfg) h1 = (True, h2)"
    and "read_token E h2 = (Some token, h3)" and "raw_connect E token h3 = (Ok (), h4)"
    and "sent E ''shutdown'' (sv_kill_sessions E) = [''shutdown'']"
    and "fst (alive_session_count E h1) = Some (Suc n)"
  shows "hs_requests (snd (ensure_running E cfg h)) = hs_requests h1 @ [''shutdown'']"
proof -
  have "request_shutdown E h2 = snd (raw_request E ''shutdown'' (sv_kill_sessions E) h4)"
    using assms(4,5) by (simp add: request_shutdown_def)
  moreover have "hs_requests h2 = hs_requests h1"
    using stale_probes [of h1 E] assms(3) by (metis (no_types, lifting) append.right_neutral empty_subsetI probes_def
        set_empty snd_conv subset_empty)
  moreover have "hs_requests h4 = hs_requests h2"
    using assms(4,5) token_simps [of E h2] connect_simps [of E token h3] by (simp add: tick_simps)
  ultimately show ?thesis
    using assms(1,2,3,6) by (simp add: ensure_running_unfold Let_def host_simps)
qed

text \<open>
  In a release build on macOS the image of every daemon that is spawned passed the code-signature check
  and the Mach-O check, and it is the copy under the base directory, never the source path; provided
  nobody else writes that copy between the check and the spawn.
\<close>

theorem release_runs_verified_binary:
  assumes "sv_platform E = MacOS" and "\<not> sv_debug_assertions E"
    and "\<And>t fs. rf_bin (sv_others E t fs) = rf_bin fs"
  shows "runs_verified E (er_base_dir cfg) h (snd (ensure_running E cfg h))
    \<and> runs_verified E (er_base_dir cfg) h (snd (restart_daemon E cfg h))"
proof
  let ?base = "er_base_dir cfg"
  have shift: "runs_verified E ?base h g" if "runs_verified E ?base k g" "hs_spawns k = hs_spawns h" for k g
    using that by (simp add: runs_verified_def)
  note spawn = spawn_runs_verified [OF assms]
  show "runs_verified E ?base h (snd (ensure_running E cfg h))"
  proof (cases rule: ensure_running_cases [OF refl, where E = E and cfg = cfg and h = h])
    case 1
    then show ?thesis by (intro runs_verified_same) (simp add: disturbed_def probes_def)
  next
    case (2 k outcome)
    then show ?thesis by (metis shift spawn kill_stale_quiet(2))
  qed
  let ?ids = "snd (list_session_ids E (snd (edit E (\<lambda>fs. fs) h)))"
  have "hs_spawns (request_shutdown E ?ids) = hs_spawns h"
    using shutdown_probes [of ?ids E] ids_probes [of "snd (edit E (\<lambda>fs. fs) h)" E]
    by (simp add: probes_def host_simps)
  then show "runs_verified E ?base h (snd (restart_daemon E cfg h))"
    using shift [OF spawn]
    by (auto simp: restart_daemon_unfold Let_def host_simps intro: runs_verified_same)
qed

text \<open>
  The day number \<open>days_from_civil\<close> computes is the number of days of the Gregorian calendar since the
  first of January 1970, in both directions.
\<close>

theorem days_from_civil_counts_days:
  assumes "valid_date (y, m, d)" and "valid_date (y', m', d')" and "(next_day ^^ n) (y, m, d) = (y', m', d')"
  shows "days_from_civil y' m' d' = days_from_civil y m d + int n \<and> days_from_civil 1970 1 1 = 0"
proof
  have "\<forall>y' m' d'. (next_day ^^ n) (y, m, d) = (y', m', d') \<longrightarrow>
      valid_date (y', m', d') \<and> days_from_civil y' m' d' = days_from_civil y m d + int n"
    using assms(1)
  proof (induction n)
    case (Suc n)
    obtain y1 m1 d1 where s: "(next_day ^^ n) (y, m, d) = (y1, m1, d1)" by (metis prod_cases3)
    with Suc days_next_day [of y1 m1 d1] show ?case by simp
  qed simp
  with assms(3) show "days_from_civil y' m' d' = days_from_civil y m d + int n" by blast
qed (simp add: days_from_civil_def signed_divide_int_def)


subsection \<open>Witnesses\<close>

text \<open>
  A daemon with pid 7 that answers, has one live session and was started by version 1. Values of
  \<open>serde_json\<close> are numbers: 5 is the healthy reply, 2 the list with the session 3.
\<close>

definition sample_reply :: "nat \<Rightarrow> nat control_message" where
  "sample_reply v = Reply \<lparr>rr_id = 1, rr_result = Some v, rr_error = None\<rparr>"

definition sample_cfg :: ensure_running_config where
  "sample_cfg = \<lparr>er_base_dir = [''g''], er_bin_source_path = [''s''], er_app_version = ''2''\<rparr>"

definition sample_sup :: "nat sup_env" where
  "sample_sup =
     \<lparr>sv_platform = MacOS, sv_debug_assertions = False,
      sv_processes = (\<lambda>t. \<lparr>pt_exists = (\<lambda>pid. pid = 7), pt_proc_cmdline = (\<lambda>_. None), pt_proc_started = (\<lambda>_. None),
        pt_ps_command = (\<lambda>_. Some (bytes_of (path_str (socket_path_for [''g''])))), pt_ps_lstart = (\<lambda>_. None)\<rparr>),
      sv_others = (\<lambda>t fs. fs), sv_io = (\<lambda>_. True), sv_connects = (\<lambda>_. True), sv_hello = (\<lambda>t l. Some ''a''),
      sv_replies = (\<lambda>t l. [l]), sv_child = (\<lambda>_. Running), sv_child_pid = (\<lambda>_. 7), sv_deadline = (\<lambda>_. True),
      sv_random = (\<lambda>_. [1]), sv_codesign = (\<lambda>_. True), sv_hello_text = (\<lambda>_. Some ''h''), sv_ack = (\<lambda>_. Some ack_ok),
      sv_message_text = (\<lambda>m. case m of Request r \<Rightarrow> Some (rq_method r) | _ \<Rightarrow> None),
      sv_message = (\<lambda>l. Some (sample_reply
        (if l = ''checkPtySpawnHealth'' then 5 else if l = ''listSessions'' then 2 else 0))),
      sv_pid_text = (\<lambda>_. ''p''),
      sv_pid_parse = (\<lambda>_. Some \<lparr>dp_pid = 7, dp_started_at_ms = None, dp_bin_path = None, dp_app_version = Some ''1''\<rparr>),
      sv_null = 0, sv_kill_sessions = 9, sv_array = (\<lambda>v. if v = 2 then Some [3] else None),
      sv_bool = (\<lambda>v key. if v = 5 \<and> key = ''ok'' \<or> v = 3 \<and> key = ''isAlive'' then Some True else None),
      sv_str = (\<lambda>_ _. None)\<rparr>"

definition sample_host :: host where
  "sample_host =
     \<lparr>hs_time = 0,
      hs_files = \<lparr>rf_token = Some (bytes_of ''t''), rf_pid = Some (bytes_of ''p''), rf_socket = True, rf_bin = None,
        rf_log = None, rf_source = Some [0xCF, 0xFA, 0xED, 0xFE]\<rparr>,
      hs_requests = [], hs_signals = [], hs_spawns = [], hs_killed_children = []\<rparr>"

lemma sample_sup_simps [simp]:
  "sv_platform sample_sup = MacOS" "sv_debug_assertions sample_sup = False" "sv_others sample_sup t fs = fs"
  "sv_io sample_sup t" "sv_hello sample_sup t l = Some ''a''" "sv_replies sample_sup t l = [l]"
  "sv_hello_text sample_sup hello = Some ''h''" "sv_ack sample_sup l = Some ack_ok"
  "sv_message_text sample_sup (Request r) = Some (rq_method r)"
  "sv_message sample_sup l = Some (sample_reply
     (if l = ''checkPtySpawnHealth'' then 5 else if l = ''listSessions'' then 2 else 0))"
  "sv_pid_parse sample_sup l =
     Some \<lparr>dp_pid = 7, dp_started_at_ms = None, dp_bin_path = None, dp_app_version = Some ''1''\<rparr>"
  "pt_exists (sv_processes sample_sup t) pid = (pid = 7)"
  "pt_ps_command (sv_processes sample_sup t) pid = Some (bytes_of (path_str (socket_path_for [''g''])))"
  "pt_ps_lstart (sv_processes sample_sup t) pid = None"
  "sv_bool sample_sup 5 ''ok'' = Some True" "sv_bool sample_sup 3 ''isAlive'' = Some True"
  "sv_array sample_sup 2 = Some [3]"
  by (simp_all add: sample_sup_def)

lemma sample_tick [simp]: "tick sample_sup h = h\<lparr>hs_time := Suc (hs_time h)\<rparr>"
  by (simp add: tick_def)

lemma sample_texts:
  "trim ''t'' = ''t''" "trim ''p'' = ''p''" "from_utf8 (bytes_of ''t'') = Some ''t''" "from_utf8 (bytes_of ''p'') = Some ''p''"
  "trim (from_utf8_lossy (bytes_of (path_str (socket_path_for [''g''])))) = path_str (socket_path_for [''g''])"
  "path_str (socket_path_for [''g'']) \<noteq> []"
  by code_simp+

lemma sample_token: "hs_files h = hs_files sample_host \<Longrightarrow> read_token sample_sup h = (Some ''t'', tick sample_sup h)"
  by (simp add: read_token_def look_def sample_host_def sample_texts)

lemma sample_connect: "raw_connect sample_sup tok h = (Ok (), tick sample_sup h)"
  by (simp add: raw_connect_def look_def encode_ndjson_line_def decode_ndjson_line_def
      MAX_CONTROL_LINE_BYTES_def ack_ok_def)

lemma sample_request:
  assumes "m \<in> {''checkPtySpawnHealth'', ''listSessions'', ''shutdown''}"
  shows "raw_request sample_sup m v h =
    (Ok (if m = ''checkPtySpawnHealth'' then 5 else if m = ''listSessions'' then 2 else 0),
     tick sample_sup (h\<lparr>hs_requests := hs_requests h @ [m]\<rparr>))"
  using assms
  by (elim insertE emptyE)
    (simp_all add: raw_request_def look_def encode_ndjson_line_def decode_ndjson_line_def
      MAX_CONTROL_LINE_BYTES_def trim_end_matches_def sample_reply_def)

lemma sample_health:
  "hs_files h = hs_files sample_host \<Longrightarrow>
   probe_health sample_sup h =
     (Healthy, h\<lparr>hs_time := hs_time h + 3, hs_requests := hs_requests h @ [''checkPtySpawnHealth'']\<rparr>)"
  using sample_token [of h] by (simp add: probe_health_def sample_connect sample_request)

lemma sample_identity:
  "is_daemon_process sample_sup (socket_path_for [''g'']) 7 started h = (True, h\<lparr>hs_time := hs_time h + 3\<rparr>)"
  by (simp add: is_daemon_process_def look_def get_cmdline_def start_time_matches_def
      get_process_started_at_ms_def sample_texts Let_def)

lemma sample_pid_file:
  "hs_files h = hs_files sample_host \<Longrightarrow>
   read_pid_file sample_sup h =
     (Some \<lparr>dp_pid = 7, dp_started_at_ms = None, dp_bin_path = None, dp_app_version = Some ''1''\<rparr>, tick sample_sup h)"
  by (simp add: read_pid_file_def look_def sample_host_def sample_texts parse_pid_file_def)

lemma sample_stale:
  "hs_files h = hs_files sample_host \<Longrightarrow>
   is_stale_for_current sample_sup (socket_path_for [''g'']) ''2'' h = (True, h\<lparr>hs_time := hs_time h + 4\<rparr>)"
  by (simp add: is_stale_for_current_def sample_pid_file sample_identity)

lemma sample_sessions:
  "hs_files h = hs_files sample_host \<Longrightarrow> fst (alive_session_count sample_sup h) = Some 1"
  by (simp add: alive_session_count_def session_list_def sample_token sample_connect sample_request)

lemma sample_edit: "snd (edit sample_sup (\<lambda>fs. fs) h) = h\<lparr>hs_time := Suc (hs_time h)\<rparr>"
  by (simp add: edit_def Let_def)


text \<open>Its whole upgrade: it is identified, told to shut down, and signalled.\<close>

lemma sample_upgrade:
  defines "h1 \<equiv> sample_host\<lparr>hs_time := 4, hs_requests := [''checkPtySpawnHealth'']\<rparr>"
  shows "probe_health sample_sup (snd (edit sample_sup (\<lambda>fs. fs) sample_host)) = (Healthy, h1)"
    and "is_stale_for_current sample_sup (socket_path_for (er_base_dir sample_cfg)) (er_app_version sample_cfg) h1
         = (True, h1\<lparr>hs_time := 8\<rparr>)"
  by (simp_all add: sample_edit sample_health sample_stale sample_cfg_def h1_def)
    (simp_all add: sample_host_def)


theorem undecided_daemons_are_adopted_witness:
  "probes sample_host {''checkPtySpawnHealth'', ''listSessions''}
     (snd (ensure_running sample_sup (sample_cfg\<lparr>er_app_version := ''1''\<rparr>) sample_host))
   \<and> (\<exists>r. fst (ensure_running sample_sup (sample_cfg\<lparr>er_app_version := ''1''\<rparr>) sample_host) = Ok r
        \<and> en_outcome r \<in> {Adopted, AdoptedDegraded, AdoptedUnresponsive})"
proof -
  have "\<not> may_replace sample_sup (sample_cfg\<lparr>er_app_version := ''1''\<rparr>) sample_host"
    by (simp add: may_replace_def Let_def sample_edit sample_health is_stale_for_current_def sample_pid_file
        sample_identity sample_cfg_def)
  from undecided_daemons_are_adopted [OF this] show ?thesis by simp
qed

theorem upgrade_kills_live_sessions_witness:
  "hs_requests (snd (ensure_running sample_sup sample_cfg sample_host)) = [''checkPtySpawnHealth'', ''shutdown'']"
proof -
  let ?h1 = "sample_host\<lparr>hs_time := 4, hs_requests := [''checkPtySpawnHealth'']\<rparr>"
  have "sent sample_sup ''shutdown'' v = [''shutdown'']" for v
    by (simp add: sent_def encode_ndjson_line_def)
  from upgrade_kills_live_sessions [OF _ sample_upgrade sample_token sample_connect this, where n = 0]
  show ?thesis by (simp add: sample_sessions)
qed

theorem release_runs_verified_binary_witness:
  "runs_verified sample_sup [''g''] sample_host (snd (restart_daemon sample_sup sample_cfg sample_host))"
  using release_runs_verified_binary [of sample_sup sample_cfg sample_host] by (simp add: sample_cfg_def)

theorem days_from_civil_counts_days_witness:
  "days_from_civil 2000 3 1 = days_from_civil 2000 2 27 + 3"
  using days_from_civil_counts_days [of 2000 2 27 2000 3 1 3]
  by (simp add: valid_date_def month_length_def leap_def eval_nat_numeral)

end
