(* ===== verification/TmuxSweep.thy ===== *)
theory TmuxSweep
  imports GitProject
begin

text \<open>
  The sweep of tmux sessions that a version before the daemon left (\<open>grove-core/src/tmux_sweep.rs\<close>). \<open>tmux\<close> and the
  file system are functions of \<open>tmux_env\<close> over a world \<open>'w\<close>; a sample of a tmux server, as its manual describes the
  commands used, is at the end with the properties.
\<close>

subsection \<open>The model\<close>

definition MARKER_FILENAME :: string where "MARKER_FILENAME = ''tmux-swept-v1''"
definition GROVE_MANAGED_OPTION :: string where "GROVE_MANAGED_OPTION = CHR 0x40 # ''grove_managed''"
definition GROVE_SESSION_PREFIX :: string where "GROVE_SESSION_PREFIX = ''grove-''"

datatype tmux_error = TmuxMissing | TmuxMessage string

record tmux_output =
  to_success :: bool
  to_stdout :: bytes
  to_stderr :: bytes

record 'w tmux_env =
  tx_run :: "string list \<Rightarrow> 'w \<Rightarrow> (tmux_output, tmux_error) result \<times> 'w"
  tx_exists :: "'w \<Rightarrow> string \<Rightarrow> bool"
  tx_make_dirs :: "string \<Rightarrow> 'w \<Rightarrow> bool \<times> 'w"
  tx_write :: "string \<Rightarrow> bytes \<Rightarrow> 'w \<Rightarrow> bool \<times> 'w"

text \<open>The name of a socket, or the default server.\<close>

type_synonym tmux_server = "string option"

definition command_args :: "tmux_server \<Rightarrow> string list \<Rightarrow> string list" where
  "command_args server args = (case server of None \<Rightarrow> args | Some socket \<Rightarrow> [''-L'', socket] @ args)"

record sweep_report =
  sr_already_swept :: bool
  sr_tmux_available :: bool
  sr_killed :: "string list"

definition tmux :: "'w tmux_env \<Rightarrow> tmux_server \<Rightarrow> string list \<Rightarrow> 'w \<Rightarrow> (tmux_output, tmux_error) result \<times> 'w" where
  "tmux E server args w = tx_run E (command_args server args) w"

definition output_message :: "tmux_output \<Rightarrow> string" where
  "output_message r =
     (let e = trim (from_utf8_lossy (to_stderr r)) in if e = [] then trim (from_utf8_lossy (to_stdout r)) else e)"

definition is_no_server :: "string \<Rightarrow> bool" where
  "is_no_server message \<longleftrightarrow> contains_str ''no server running'' message \<or> contains_str ''error connecting to'' message"

definition is_session_missing :: "string \<Rightarrow> bool" where
  "is_session_missing message \<longleftrightarrow>
     contains_str (''can'' @ [quote_char] @ ''t find session'') message \<or> is_no_server message"

definition list_grove_tmux_sessions :: "'w tmux_env \<Rightarrow> tmux_server \<Rightarrow> 'w \<Rightarrow> (string list, tmux_error) result \<times> 'w" where
  "list_grove_tmux_sessions E server w =
     (case tmux E server [''list-sessions'', ''-F'', ''#{session_name}''] w of
        (Err e, w) \<Rightarrow> (Err e, w)
      | (Ok r, w) \<Rightarrow>
          if to_success r
          then (Ok (filter (\<lambda>n. n \<noteq> [] \<and> starts_with GROVE_SESSION_PREFIX n) (map trim (lines (from_utf8_lossy (to_stdout r))))), w)
          else if is_no_server (output_message r) then (Ok [], w)
          else (Err (TmuxMessage (''failed to list tmux sessions: '' @ output_message r)), w))"

definition session_option ::
  "'w tmux_env \<Rightarrow> tmux_server \<Rightarrow> string \<Rightarrow> string \<Rightarrow> 'w \<Rightarrow> (string option, tmux_error) result \<times> 'w" where
  "session_option E server name opt w =
     (case tmux E server [''show-options'', ''-qv'', ''-t'', name, opt] w of
        (Err e, w) \<Rightarrow> (Err e, w)
      | (Ok r, w) \<Rightarrow>
          if to_success r
          then let v = trim (from_utf8_lossy (to_stdout r)) in (Ok (if v = [] then None else Some v), w)
          else if is_session_missing (output_message r) \<or> output_message r = [] then (Ok None, w)
          else (Err (TmuxMessage (''failed to query tmux option '' @ opt @ '' on '' @ name @ '': '' @ output_message r)), w))"

definition kill_session_if_exists :: "'w tmux_env \<Rightarrow> tmux_server \<Rightarrow> string \<Rightarrow> 'w \<Rightarrow> (unit, tmux_error) result \<times> 'w" where
  "kill_session_if_exists E server name w =
     (case tmux E server [''kill-session'', ''-t'', name] w of
        (Err e, w) \<Rightarrow> (Err e, w)
      | (Ok r, w) \<Rightarrow>
          if to_success r \<or> is_session_missing (output_message r) then (Ok (), w)
          else (Err (TmuxMessage (''failed to kill tmux session '' @ name @ '': '' @ output_message r)), w))"

fun sweep_loop :: "'w tmux_env \<Rightarrow> tmux_server \<Rightarrow> string list \<Rightarrow> string list \<Rightarrow> 'w \<Rightarrow> string list \<times> 'w" where
  "sweep_loop E server [] killed w = (killed, w)"
| "sweep_loop E server (name # names) killed w =
     (case session_option E server name GROVE_MANAGED_OPTION w of
        (Ok v, w) \<Rightarrow>
          if v = Some ''1''
          then (case kill_session_if_exists E server name w of
                  (Ok _, w) \<Rightarrow> sweep_loop E server names (killed @ [name]) w
                | (Err TmuxMissing, w) \<Rightarrow> (killed, w)
                | (Err (TmuxMessage _), w) \<Rightarrow> sweep_loop E server names killed w)
          else sweep_loop E server names killed w
      | (Err TmuxMissing, w) \<Rightarrow> (killed, w)
      | (Err (TmuxMessage _), w) \<Rightarrow> sweep_loop E server names killed w)"

definition sweep_grove_tmux_sessions_on :: "'w tmux_env \<Rightarrow> tmux_server \<Rightarrow> 'w \<Rightarrow> sweep_report \<times> 'w" where
  "sweep_grove_tmux_sessions_on E server w =
     (case list_grove_tmux_sessions E server w of
        (Err TmuxMissing, w) \<Rightarrow> (\<lparr>sr_already_swept = False, sr_tmux_available = False, sr_killed = []\<rparr>, w)
      | (Err (TmuxMessage _), w) \<Rightarrow> (\<lparr>sr_already_swept = False, sr_tmux_available = True, sr_killed = []\<rparr>, w)
      | (Ok names, w) \<Rightarrow>
          (case sweep_loop E server names [] w of
             (killed, w) \<Rightarrow> (\<lparr>sr_already_swept = False, sr_tmux_available = True, sr_killed = killed\<rparr>, w)))"

datatype sweep_error = BaseDirFailed string | MarkerFailed string

definition sweep_grove_tmux_sessions_once_on ::
  "'w tmux_env \<Rightarrow> string \<Rightarrow> tmux_server \<Rightarrow> 'w \<Rightarrow> (sweep_report, sweep_error) result \<times> 'w" where
  "sweep_grove_tmux_sessions_once_on E base server w =
     (let marker = path_join base MARKER_FILENAME in
      if tx_exists E w marker
      then (Ok \<lparr>sr_already_swept = True, sr_tmux_available = False, sr_killed = []\<rparr>, w)
      else
        (let (report, w) = sweep_grove_tmux_sessions_on E server w;
             (made, w) = tx_make_dirs E base w
         in if \<not> made then (Err (BaseDirFailed base), w)
            else let (written, w) = tx_write E marker [0x31] w
              in if written then (Ok report, w) else (Err (MarkerFailed marker), w)))"

subsection \<open>A tmux server\<close>

text \<open>
  Sessions with the value of the option. A target is the session of that name, else the only one whose name begins with
  it. \<open>others\<close> is what the rest of the world does to the sessions before each command.
\<close>

record tmux_world =
  tw_sessions :: "(string \<times> string) list"
  tw_files :: "string list"

definition tmux_target :: "(string \<times> string) list \<Rightarrow> string \<Rightarrow> string option" where
  "tmux_target ss t =
     (if t \<in> fst ` set ss then Some t
      else case filter (starts_with t) (map fst ss) of [n] \<Rightarrow> Some n | _ \<Rightarrow> None)"

definition ok_output :: "string \<Rightarrow> tmux_output" where
  "ok_output s = \<lparr>to_success = True, to_stdout = bytes_of s, to_stderr = []\<rparr>"

definition missing_output :: tmux_output where
  "missing_output = \<lparr>to_success = False, to_stdout = [], to_stderr = bytes_of (''can'' @ [quote_char] @ ''t find session'')\<rparr>"

definition serve :: "string list \<Rightarrow> (string \<times> string) list \<Rightarrow> tmux_output \<times> (string \<times> string) list" where
  "serve args ss =
     (case args of
        [''list-sessions'', ''-F'', _] \<Rightarrow> (ok_output (concat (map (\<lambda>(n, v). n @ [CHR 0x0A]) ss)), ss)
      | [''show-options'', ''-qv'', ''-t'', t, _] \<Rightarrow>
          (case tmux_target ss t of None \<Rightarrow> (missing_output, ss) | Some n \<Rightarrow> (ok_output (the (map_of ss n)), ss))
      | [''kill-session'', ''-t'', t] \<Rightarrow>
          (case tmux_target ss t of
             None \<Rightarrow> (missing_output, ss) | Some n \<Rightarrow> (ok_output [], filter (\<lambda>s. fst s \<noteq> n) ss))
      | _ \<Rightarrow> (missing_output, ss))"

definition server_env :: "(string list \<Rightarrow> (string \<times> string) list \<Rightarrow> (string \<times> string) list) \<Rightarrow> tmux_world tmux_env" where
  "server_env others =
     \<lparr>tx_run = (\<lambda>args w. case serve args (others args (tw_sessions w)) of (r, ss) \<Rightarrow> (Ok r, w\<lparr>tw_sessions := ss\<rparr>)),
      tx_exists = (\<lambda>w p. p \<in> set (tw_files w)), tx_make_dirs = (\<lambda>p w. (True, w)),
      tx_write = (\<lambda>p bs w. (True, w\<lparr>tw_files := p # tw_files w\<rparr>))\<rparr>"

end
