(* ===== verification/TmuxSweepProps.thy ===== *)
theory TmuxSweepProps
  imports TmuxSweep
begin

text \<open>What the sweep destroys: the sessions of grove on a server that nobody else touches; another one in a race.\<close>

definition quiet :: "string list \<Rightarrow> (string \<times> string) list \<Rightarrow> (string \<times> string) list" where
  "quiet args ss = ss"

definition printable :: "string \<Rightarrow> bool" where
  "printable s \<longleftrightarrow> is_str s \<and> CHR 0x0A \<notin> set s \<and> CHR 0x0D \<notin> set s"

definition sessions_ok :: "(string \<times> string) list \<Rightarrow> bool" where
  "sessions_ok ss \<longleftrightarrow> distinct (map fst ss) \<and> (\<forall>(n, v) \<in> set ss. printable n \<and> n \<noteq> [] \<and> trim n = n \<and> printable v)"

definition managed :: "(string \<times> string) list \<Rightarrow> string \<Rightarrow> bool" where
  "managed ss n \<longleftrightarrow> starts_with GROVE_SESSION_PREFIX n \<and> map_option trim (map_of ss n) = Some ''1''"

lemma is_str_append: "is_str a \<Longrightarrow> is_str b \<Longrightarrow> is_str (a @ b)"
  by (simp add: is_str_def utf8_valid_append)

lemma is_str_nl: "is_str [CHR 0x0A]"
  by (simp add: is_str_def bytes_of_def utf8_valid_ascii)

lemma lines_concat:
  "\<forall>n \<in> set ns. CHR 0x0A \<notin> set n \<and> CHR 0x0D \<notin> set n \<Longrightarrow> lines (concat (map (\<lambda>n. n @ [CHR 0x0A]) ns)) = ns"
proof -
  assume a: "\<forall>n \<in> set ns. CHR 0x0A \<notin> set n \<and> CHR 0x0D \<notin> set n"
  have p: "split_char c (q @ c # s) = q # split_char c s" if "c \<notin> set q" for c q and s :: string
    using that by (induction q) auto
  have "split_char (CHR 0x0A) (concat (map (\<lambda>n. n @ [CHR 0x0A]) ns)) = ns @ [[]]"
    using a by (induction ns) (simp_all add: p)
  moreover have "chop_cr n = n" if "n \<in> set ns" for n
    using a that last_in_set [of n] by (metis chop_cr_def)
  ultimately show ?thesis by (simp add: lines_def Let_def map_idI)
qed

lemma listed:
  assumes "sessions_ok (tw_sessions w)"
  shows "list_grove_tmux_sessions (server_env quiet) None w =
    (Ok (filter (starts_with GROVE_SESSION_PREFIX) (map fst (tw_sessions w))), w)"
proof -
  let ?ns = "map fst (tw_sessions w)"
  let ?out = "concat (map (\<lambda>n. n @ [CHR 0x0A]) ?ns)"
  have n: "printable n \<and> n \<noteq> [] \<and> trim n = n" if "n \<in> set ?ns" for n
    using assms that by (auto simp: sessions_ok_def)
  have "is_str (concat (map (\<lambda>n. n @ [CHR 0x0A]) ms))" if "\<forall>m \<in> set ms. is_str m" for ms
    using that by (induction ms) (simp_all add: is_str_append is_str_nl [unfolded append_Nil] is_str_def [of "[]"] bytes_of_def del: append_assoc)
  moreover have "\<forall>m \<in> set ?ns. is_str m" using n by (simp add: printable_def)
  ultimately have "is_str ?out" by blast
  moreover have "lines ?out = ?ns" using n by (intro lines_concat) (auto simp: printable_def)
  moreover have "filter (\<lambda>n. n \<noteq> [] \<and> starts_with GROVE_SESSION_PREFIX n) (map (\<lambda>x. trim (fst x)) (tw_sessions w))
      = filter (starts_with GROVE_SESSION_PREFIX) ?ns"
  proof -
    have "map (\<lambda>x. trim (fst x)) (tw_sessions w) = ?ns" using n by (intro map_cong) auto
    moreover have "filter (\<lambda>n. n \<noteq> [] \<and> starts_with GROVE_SESSION_PREFIX n) ?ns = filter (starts_with GROVE_SESSION_PREFIX) ?ns"
      by (rule filter_cong) (simp_all add: GROVE_SESSION_PREFIX_def starts_with_def, auto)
    ultimately show ?thesis by (simp only:)
  qed
  ultimately show ?thesis
    by (simp add: list_grove_tmux_sessions_def tmux_def command_args_def server_env_def serve_def quiet_def ok_output_def
        lossy_bytes_of case_prod_unfold o_def)
qed

lemma target_exact: "n \<in> fst ` set ss \<Longrightarrow> tmux_target ss n = Some n"
  by (simp add: tmux_target_def)

lemma option_read:
  assumes "sessions_ok (tw_sessions w)" and "map_of (tw_sessions w) n = Some v"
  shows "session_option (server_env quiet) None n GROVE_MANAGED_OPTION w = (Ok (if trim v = [] then None else Some (trim v)), w)"
proof -
  have m: "(n, v) \<in> set (tw_sessions w)" using assms(2) by (rule map_of_SomeD)
  then have "is_str v" using assms(1) by (auto simp: sessions_ok_def printable_def)
  moreover have "n \<in> fst ` set (tw_sessions w)" using m by force
  ultimately show ?thesis
    using assms(2)
    by (simp add: session_option_def tmux_def command_args_def server_env_def serve_def quiet_def ok_output_def target_exact
        lossy_bytes_of Let_def)
qed

lemma killed_exactly:
  assumes "n \<in> fst ` set (tw_sessions w)"
  shows "kill_session_if_exists (server_env quiet) None n w =
    (Ok (), w\<lparr>tw_sessions := filter (\<lambda>s. fst s \<noteq> n) (tw_sessions w)\<rparr>)"
  using assms
  by (simp add: kill_session_if_exists_def tmux_def command_args_def server_env_def serve_def quiet_def ok_output_def target_exact)

lemma map_of_filter_other: "n \<noteq> m \<Longrightarrow> map_of (filter (\<lambda>s. fst s \<noteq> m) ss) n = map_of ss n"
  by (induction ss) auto

lemma sweeps_the_managed:
  "sessions_ok (tw_sessions w) \<Longrightarrow> distinct names \<Longrightarrow> set names \<subseteq> fst ` set (tw_sessions w) \<Longrightarrow>
   sweep_loop (server_env quiet) None names killed w =
     (killed @ filter (\<lambda>n. map_option trim (map_of (tw_sessions w) n) = Some ''1'') names,
      w\<lparr>tw_sessions := filter (\<lambda>s. \<not> (fst s \<in> set names \<and> map_option trim (map_of (tw_sessions w) (fst s)) = Some ''1''))
        (tw_sessions w)\<rparr>)"
proof (induction names arbitrary: killed w)
  case (Cons n names)
  let ?ss = "tw_sessions w"
  have "n \<in> fst ` set ?ss" using Cons.prems(3) by simp
  then obtain v where v: "map_of ?ss n = Some v" by (metis map_of_eq_None_iff not_None_eq)
  note o = option_read [OF Cons.prems(1) v]
  show ?case
  proof (cases "trim v = ''1''")
    case False
    have "filter (\<lambda>s. \<not> (fst s \<in> set names \<and> map_option trim (map_of ?ss (fst s)) = Some ''1'')) ?ss
        = filter (\<lambda>s. \<not> (fst s \<in> set (n # names) \<and> map_option trim (map_of ?ss (fst s)) = Some ''1'')) ?ss"
      using v False by (intro filter_cong) auto
    then show ?thesis using Cons v False o by simp
  next
    case True
    let ?w = "w\<lparr>tw_sessions := filter (\<lambda>s. fst s \<noteq> n) ?ss\<rparr>"
    have other: "m \<noteq> n" if "m \<in> set names" for m using Cons.prems(2) that by auto
    have k: "kill_session_if_exists (server_env quiet) None n w = (Ok (), ?w)"
      using Cons.prems(3) by (intro killed_exactly) simp
    have ok: "sessions_ok (tw_sessions ?w)"
      using Cons.prems(1) by (auto simp: sessions_ok_def distinct_map_filter)
    have "set names \<subseteq> fst ` set (tw_sessions ?w)" using Cons.prems(2,3) by force
    from Cons.IH [OF ok _ this, of "killed @ [n]"] Cons.prems(2)
    have "sweep_loop (server_env quiet) None names (killed @ [n]) ?w =
      (killed @ [n] @ filter (\<lambda>m. map_option trim (map_of (tw_sessions ?w) m) = Some ''1'') names,
       ?w\<lparr>tw_sessions := filter (\<lambda>s. \<not> (fst s \<in> set names \<and> map_option trim (map_of (tw_sessions ?w) (fst s)) = Some ''1''))
         (tw_sessions ?w)\<rparr>)" by simp
    moreover have "filter (\<lambda>m. map_option trim (map_of (tw_sessions ?w) m) = Some ''1'') names
        = filter (\<lambda>m. map_option trim (map_of ?ss m) = Some ''1'') names"
      by (intro filter_cong refl) (simp add: map_of_filter_other other)
    moreover have "filter (\<lambda>s. \<not> (fst s \<in> set names \<and> map_option trim (map_of (tw_sessions ?w) (fst s)) = Some ''1'')) (tw_sessions ?w)
        = filter (\<lambda>s. \<not> (fst s \<in> set (n # names) \<and> map_option trim (map_of ?ss (fst s)) = Some ''1'')) ?ss"
      using v True by (auto simp: map_of_filter_other other intro!: filter_cong)
    ultimately show ?thesis using o v True k by simp
  qed
qed simp


text \<open>
  A sweep happens once: after a call that returned a report, whatever \<open>tmux\<close> said, the next call does nothing.
\<close>

theorem sweep_happens_once:
  assumes "sweep_grove_tmux_sessions_once_on E base server w = (Ok report, w')"
    and "\<And>p bs v v'. tx_write E p bs v = (True, v') \<Longrightarrow> tx_exists E v' p"
  shows "sweep_grove_tmux_sessions_once_on E base server' w' =
    (Ok \<lparr>sr_already_swept = True, sr_tmux_available = False, sr_killed = []\<rparr>, w')"
proof -
  have "tx_exists E w' (path_join base MARKER_FILENAME)"
    using assms(1) assms(2)
    by (auto simp: sweep_grove_tmux_sessions_once_on_def Let_def split: if_splits prod.splits)
  then show ?thesis by (simp add: sweep_grove_tmux_sessions_once_on_def)
qed

definition ends_before_kill :: "string list \<Rightarrow> (string \<times> string) list \<Rightarrow> (string \<times> string) list" where
  "ends_before_kill args ss = (if hd args = ''kill-session'' then filter (\<lambda>s. fst s \<noteq> ''grove-1'') ss else ss)"

text \<open>
  A target is not exact: when a session of grove ends by itself between the look at its option and the kill, the
  command finds the one session whose name begins with its name, which may be none of grove's, and kills that.
\<close>

theorem sweep_can_kill_another_session:
  "fst (sweep_loop (server_env ends_before_kill) None [''grove-1''] []
      \<lparr>tw_sessions = [(''grove-1'', ''1''), (''grove-10'', [])], tw_files = []\<rparr>) = [''grove-1'']
   \<and> tw_sessions (snd (sweep_loop (server_env ends_before_kill) None [''grove-1''] []
      \<lparr>tw_sessions = [(''grove-1'', ''1''), (''grove-10'', [])], tw_files = []\<rparr>)) = []"
proof -
  have "trim ''1'' = ''1''" by code_simp
  moreover have "from_utf8_lossy (bytes_of ''1'') = ''1''"
    by (rule lossy_bytes_of) (simp add: is_str_def bytes_of_def utf8_valid_ascii)
  ultimately show ?thesis
    by (simp add: session_option_def kill_session_if_exists_def tmux_def command_args_def server_env_def serve_def
        ends_before_kill_def ok_output_def tmux_target_def starts_with_def Let_def image_iff)
qed


theorem sweep_happens_once_witness:
  "sweep_grove_tmux_sessions_once_on (server_env quiet) ''/d'' None
     (snd (sweep_grove_tmux_sessions_once_on (server_env quiet) ''/d'' None \<lparr>tw_sessions = [], tw_files = []\<rparr>)) =
    (Ok \<lparr>sr_already_swept = True, sr_tmux_available = False, sr_killed = []\<rparr>,
     snd (sweep_grove_tmux_sessions_once_on (server_env quiet) ''/d'' None \<lparr>tw_sessions = [], tw_files = []\<rparr>))"
proof -
  let ?w = "\<lparr>tw_sessions = [], tw_files = []\<rparr>"
  obtain report w' where r: "sweep_grove_tmux_sessions_on (server_env quiet) None ?w = (report, w')"
    by (cases "sweep_grove_tmux_sessions_on (server_env quiet) None ?w")
  have "sweep_grove_tmux_sessions_once_on (server_env quiet) ''/d'' None ?w =
      (Ok report, snd (sweep_grove_tmux_sessions_once_on (server_env quiet) ''/d'' None ?w))"
    using r by (simp add: sweep_grove_tmux_sessions_once_on_def Let_def server_env_def)
  then show ?thesis by (rule sweep_happens_once) (auto simp: server_env_def)
qed

end
