(* ===== verification/Spec2Isabelle.thy ===== *)
theory Spec2Isabelle
  imports Framing ModeState AgentStatus HistoryLog HistoryStore SampleCodec HistoryRestore Emulator
    OutputPath PtyWriter Session Checkpointer RustStr Protocol Server ServerProps
    DaemonSessions Client Config FileBrowser FileBrowserProps GitDiff GitDiffProps GitProject
    Launcher LauncherProps MissionProps Missions ProcessEnv ProcessEnvProps ProjectOps
    ProjectProps PtyApp PtyAppProps Supervisor TerminalGc TmuxSweep TmuxSweepProps
begin

text \<open>
  A verification development of \<^bold>\<open>grove\<close>, the Rust program of this repository: a desktop app whose
  terminals live in a daemon, so that shells survive the app. The development covers the daemon
  (\<open>grove/grove-daemon\<close>), the part of \<open>grove/grove-core\<close> that talks to it, the modules of \<open>grove-core\<close> for
  git, projects, missions and configuration, and the launcher of coding agents (\<open>grove/grove-agent\<close>).

  \<^bold>\<open>How the program works.\<close> The app keeps a client (\<open>daemon/client.rs\<close>) with two sockets to the daemon:
  a control socket with one JSON message per line (\<open>daemon/protocol.rs\<close>) and a stream socket with binary
  frames (\<open>daemon/framing.rs\<close>). The daemon (\<open>server.rs\<close>) maps session ids to sessions
  (\<open>session.rs\<close>); a session owns a pty and tees its output to three places: a VT emulator
  (\<open>emulator.rs\<close>, \<open>mode_state.rs\<close>) whose snapshot a reattaching client gets, a raw ring with the pending
  records of the history, and the stream. The checkpointer (\<open>checkpointer.rs\<close>) writes the pending
  records to disk (\<open>history.rs\<close>); after a crash the next daemon restores a session from there. Coding
  agents report their status over an agent connection (\<open>agent.rs\<close>, \<open>kernel.rs\<close>). In the app,
  \<open>pty.rs\<close> coalesces the output for the front end, gates live output behind a replayed snapshot and
  writes input in order.

  \<^bold>\<open>The theories\<close>, in import order.

  \<^item> \<open>Prelude\<close>: word types, results, slices, little-endian fields (locale \<open>le_field\<close>), and the
    contracts several components share: \<open>chunk_fold\<close> (ingesting a stream does not depend on how it was cut)
    and \<open>invariant_system\<close> (inductive invariants of step relations). \<open>Utf8\<close> and \<open>RustStr\<close>: the
    functions of \<open>str\<close> and \<open>String\<close> the code calls.
  \<^item> \<open>Framing\<close> (\<open>framing.rs\<close>, the read loop of \<open>client.rs\<close>): frame codec and incremental decoder; whole
    streams read back under every chunking.
  \<^item> \<open>ModeState\<close> (\<open>mode_state.rs\<close>): the escape scanner as a byte automaton with its parked tail; scanning
    chunks equals scanning the stream. \<open>Emulator\<close> (\<open>emulator.rs\<close>): segmented feeding of the parser and the
    snapshot serializer.
  \<^item> \<open>AgentStatus\<close> (\<open>agent.rs\<close>, \<open>kernel.rs\<close>): claims, events, the badge.
  \<^item> \<open>HistoryLog\<close>, \<open>HistoryStore\<close>, \<open>HistoryRestore\<close> (\<open>history.rs\<close>): the log format, the files, owner lock,
    writer and reader over a disk, and what a crash leaves. \<open>SampleCodec\<close>: a concrete JSON codec, so that
    the hypotheses on \<open>serde_json\<close> are met by a function.
  \<^item> \<open>OutputPath\<close> and \<open>PtyWriter\<close> (\<open>pty.rs\<close>, \<open>session.rs\<close>): ring, pending records, coalescer, replay
    gate; the input queue with its callers and its thread as a step relation.
  \<^item> \<open>Session\<close> (\<open>session.rs\<close>): tee, resize, snapshot, producer gate and failsafe, exit.
  \<^item> \<open>Checkpointer\<close> (\<open>checkpointer.rs\<close>): registry, dirty versions, persist, tick, flush, shutdown.
  \<^item> \<open>Protocol\<close> (\<open>protocol.rs\<close>): paths, hello, envelopes, NDJSON, session keys.
  \<^item> \<open>Server\<close>, \<open>ServerProps\<close>, \<open>DaemonSessions\<close> (\<open>server.rs\<close>): hub, session map with reservations, every
    RPC, admission; then its properties, and the invariant of all interleavings of creates, attaches,
    kills, exits and reaps.
  \<^item> \<open>Client\<close> (\<open>client.rs\<close>): connection generations, pending requests, exits, resync, the cold cache.
  \<^item> \<open>Supervisor\<close> (\<open>supervisor.rs\<close>): probes, adoption gate, kill by verified pid, binary gate, spawn, in a
    world that other processes change between any two observations.
  \<^item> \<open>TerminalGc\<close> (\<open>pty.rs\<close>, \<open>daemon/gc.rs\<close>): the plan of a terminal clean-up, its execution against the daemon,
    \<open>ps\<close> and the history root, and the status poll of the registry.
  \<^item> \<open>GitDiff\<close> (\<open>git_diff.rs\<close>): diffs parsed from libgit2 events, patches for hunks and for selected lines, conflict
    view, content cache, path checks, the operations that run \<open>git\<close>; \<open>GitDiffProps\<close> reads the patches back
    with a reference reader of unified diffs.
  \<^item> \<open>Config\<close> (\<open>config.rs\<close>): the configuration, its normal form, loading and saving, the layout and snapshot stores.
  \<^item> \<open>GitProject\<close> and \<open>ProjectOps\<close> (\<open>git_project.rs\<close>, \<open>worktree_lifecycle.rs\<close>): remote URLs and pull requests,
    reconciliation of the projects with the disk, worktrees and their stacks; the operations on projects, worktrees and
    the source repository over an environment of \<open>git\<close>, \<open>gh\<close>, libgit2 and the file system. \<open>ProjectProps\<close> shows that
    the stacks are a forest, that a parent is never removed, that orders are permutations, that shell lines have the
    words meant and that a sync keeps local changes.
  \<^item> \<open>Missions\<close> (\<open>mission.rs\<close>, \<open>note.rs\<close>): the store of the missions with its atomic save and its reconciliation, every
    operation under the write lock, and the notes; \<open>MissionProps\<close> refines the store to a list of missions, shows that a
    fresh id is found, and where listing the missions destroys directories.
  \<^item> \<open>Launcher\<close> (\<open>grove-agent\<close>, \<open>tool_hooks.rs\<close>): the search for the real agent, the arguments and the environment it
    gets, hook groups and plugin, the relay of hook events; \<open>LauncherProps\<close> shows that grove never launches itself, that a
    chain of launches is bounded, and what is left of the arguments and settings of the user.
  \<^item> \<open>FileBrowser\<close> (\<open>file_browser.rs\<close>): the listing of a directory and of a whole workspace, and the classified reading
    of a file; \<open>FileBrowserProps\<close> shows that a listing is a tree, that both listings agree when no file is in the place of
    a directory, and that a read stays below the root.
  \<^item> \<open>ProcessEnv\<close> (\<open>process_env.rs\<close>): where a variable and the PATH of a subprocess come from, the login shell and the
    wait for it; \<open>ProcessEnvProps\<close> shows that the merged path is the duplicate-free union, that the marked output of the
    shell reads back and that the wait ends.
  \<^item> \<open>TmuxSweep\<close> (\<open>tmux_sweep.rs\<close>): the one-time sweep of old \<open>tmux\<close> sessions, over any \<open>tmux\<close> and over a model of one;
    \<open>TmuxSweepProps\<close> shows what it kills, that it happens once, and how it can kill the session of somebody else.
  \<^item> \<open>PtyApp\<close> (\<open>pty.rs\<close>): the panes of the app over the daemon client, the replay gate together with the registry, the
    environment of the shell, the snapshots of terminal sessions; \<open>PtyAppProps\<close> proves an invariant of every
    interleaving with the stream, that an attached pane shows the stream once, that snapshots read back, and what two panes
    on one session do to each other.

  \<^bold>\<open>How code becomes definitions.\<close> A struct is a record whose fields carry a two-letter prefix, an enum a
  datatype, a machine integer a word of its width, \<open>Result\<close> the type \<open>result\<close>, a string the bytes of its
  UTF-8 encoding as characters. State is passed explicitly; an \<open>Arc\<close> shared by two holders is an
  address of a heap (\<open>Server\<close>). A mutex-protected step is one definition; what can happen between two
  of them is a step of a relation or an event of a list. A thread is a step relation of its own. The
  disk of \<open>HistoryStore\<close> has a budget of successful operations: when it is used up a write leaves an
  arbitrary torn prefix and every later operation fails, so a theorem over all budgets is a theorem
  over all crash points. Crates are parameters: \<open>vt100\<close>, \<open>serde_json\<close>, base64, SHA-256, the kernel's
  process facts, the clock, the random source. Hypotheses on them state documented behaviour (the JSON
  codec reads back what it wrote; a digest is injective on the inputs at hand).

  \<^bold>\<open>What the properties show.\<close> Their numbers run through the theories. The history survives a crash at
  any point and a restore replays all that was appended; an id has at most one running child; every
  request of the client settles once and every exit is delivered once; frames, log records, control
  lines and session keys read back; coalescer, gate and input queue neither lose nor reorder bytes;
  an agent connection can do nothing but claim and report. The \<open>error\<close> properties state what the code
  does on bad input and where it departs from its comments: the log that is torn inside a record, the
  checkpoint that duplicates pending output, the exit that overtakes its create, the close that takes
  the history of a successor.

  \<^bold>\<open>Bounds and fuel.\<close> No definition runs out of fuel: loops are structural or have a measure, and a
  polling loop counts the sleeps that fit before its deadline. The properties with bounds state them
  (the input backlog, the coalescer's cap, the cache's size, the length of a chain of launches).

  \<^bold>\<open>Not modelled.\<close> Sockets, threads and their scheduling below the granularity above, the accept loop,
  signal handlers and process start of \<open>main.rs\<close>; opening the pty and the child; write reordering by a
  power loss; the desktop shells (bindings to Tauri, Electron and WebKit); of \<open>grove-core\<close> the command surface of
  \<open>pty.rs\<close> over the client, the shell scripts that are installed on the path, and the modules that only start other
  programs; the Go and TypeScript tools beside grove.
\<close>

end
